(* ===== verification/Pool_Prelude.thy ===== *)
theory Pool_Prelude
  imports Complex_Main "HOL-Library.List_Lexorder" "HOL-Library.Char_ord" "HOL-Library.Product_Lexorder"
begin

text \<open>
  What every component of the pool's Worker shares: how the model writes the JavaScript idioms the
  sources use (null and undefined, truthiness, the nullish default, a Set built from a list, a
  stable sort by a comparator), the architectures, and the generic list lemmas the component
  proofs rest on.

  Conventions of the whole development. A \<^verbatim>\<open>T | null\<close>, an optional field and
  \<^verbatim>\<open>undefined\<close> are \<^typ>\<open>'a option\<close>; an optional boolean whose absence the code
  reads as false is \<^typ>\<open>bool\<close>. Whole numbers (ids, times in milliseconds, units, sizes) are
  \<^typ>\<open>int\<close>; a number that may have a fraction (gigabytes, a share) is \<^typ>\<open>rat\<close>,
  exact where the program rounds to a double. The words a string holds in the code (kinds, trusts,
  statuses, logins) stay strings; a closed union the code switches on is a datatype; what a
  function answers in prose (a refusal's words) is a datatype with one constructor per sentence.
\<close>

named_theorems pool_defs \<open>definitions the component proofs unfold together\<close>

subsection \<open>null, undefined and truthiness\<close>

type_synonym login = string
type_synonym arch = string

text \<open>The nullish default \<^verbatim>\<open>a ?? b\<close>.\<close>

fun nvl :: "'a option \<Rightarrow> 'a \<Rightarrow> 'a" where
  "nvl None d = d"
| "nvl (Some x) d = x"

text \<open>\<^verbatim>\<open>!!s\<close> for a string that may be null: the empty string is false too.\<close>

fun truthy :: "string option \<Rightarrow> bool" where
  "truthy None = False"
| "truthy (Some s) = (s \<noteq> [])"

text \<open>\<^verbatim>\<open>[...new Set(xs)]\<close>: the distinct elements in the order they first came.\<close>

definition uniq :: "'a list \<Rightarrow> 'a list" where
  "uniq xs = rev (remdups (rev xs))"

text \<open>The element of index \<^term>\<open>0\<close> of an array that may be empty.\<close>

fun first_of :: "'a list \<Rightarrow> 'a option" where
  "first_of [] = None"
| "first_of (x # _) = Some x"

text \<open>Moves the element of index \<^term>\<open>i\<close> to the front, as
  \<^verbatim>\<open>xs.unshift(...xs.splice(i, 1))\<close> does; an index past the end moves nothing.\<close>

definition to_front :: "nat \<Rightarrow> 'a list \<Rightarrow> 'a list" where
  "to_front i xs = (if i < length xs then xs ! i # take i xs @ drop (Suc i) xs else xs)"

text \<open>\<^verbatim>\<open>xs.findIndex(p)\<close>, with None for \<^verbatim>\<open>-1\<close>.\<close>

fun find_index :: "('a \<Rightarrow> bool) \<Rightarrow> 'a list \<Rightarrow> nat option" where
  "find_index P [] = None"
| "find_index P (x # xs) = (if P x then Some 0 else map_option Suc (find_index P xs))"

text \<open>The architectures the pool serves (meta.ts REPO_ARCHES, selection.ts RING_ARCHES).\<close>

definition REPO_ARCHES :: "arch list" where
  "REPO_ARCHES = [''x86_64'', ''aarch64'']"

definition isRepoArch :: "arch \<Rightarrow> bool" where
  "isRepoArch s \<longleftrightarrow> s \<in> set REPO_ARCHES"

subsection \<open>Lemmas on these\<close>

lemma truthy_iff: "truthy s \<longleftrightarrow> (\<exists>x. s = Some x \<and> x \<noteq> [])"
  by (cases s) auto

lemma set_uniq [simp]: "set (uniq xs) = set xs"
  by (simp add: uniq_def)

lemma distinct_uniq [simp]: "distinct (uniq xs)"
  by (simp add: uniq_def)

lemma uniq_Nil [simp]: "uniq [] = []"
  by (simp add: uniq_def)

lemma uniq_eq_Nil [simp]: "uniq xs = [] \<longleftrightarrow> xs = []"
  by (simp add: uniq_def)

lemma first_of_eq_None [simp]: "first_of xs = None \<longleftrightarrow> xs = []"
  by (cases xs) auto

lemma first_of_eq_Some: "first_of xs = Some x \<longleftrightarrow> (\<exists>ys. xs = x # ys)"
  by (cases xs) auto

lemma first_of_in_set: "first_of xs = Some x \<Longrightarrow> x \<in> set xs"
  by (cases xs) auto

lemma set_to_front [simp]: "set (to_front i xs) = set xs"
proof (cases "i < length xs")
  case True
  then have "set xs = set (take i xs @ xs ! i # drop (Suc i) xs)"
    by (simp add: id_take_nth_drop [symmetric])
  with True show ?thesis by (auto simp: to_front_def)
qed (simp add: to_front_def)

lemma length_to_front [simp]: "length (to_front i xs) = length xs"
  by (auto simp: to_front_def)

lemma find_index_Some:
  "find_index P xs = Some i \<Longrightarrow> i < length xs \<and> P (xs ! i)"
  by (induction xs arbitrary: i) (auto split: if_splits)

lemma find_index_None: "find_index P xs = None \<longleftrightarrow> (\<forall>x \<in> set xs. \<not> P x)"
  by (induction xs) auto

lemma sum_list_filter_split:
  fixes f :: "'a \<Rightarrow> int"
  shows "sum_list (map (\<lambda>x. if P x then f x else 0) xs) = sum_list (map f (filter P xs))"
  by (induction xs) auto

lemma sum_list_partition:
  fixes f :: "'a \<Rightarrow> int"
  shows "sum_list (map f xs) = sum_list (map f (filter P xs)) + sum_list (map f (filter (\<lambda>x. \<not> P x) xs))"
  by (induction xs) auto

lemma sum_list_map_nonneg:
  fixes f :: "'a \<Rightarrow> 'b :: ordered_comm_monoid_add"
  assumes "\<And>x. x \<in> set xs \<Longrightarrow> 0 \<le> f x"
  shows "0 \<le> sum_list (map f xs)"
  using assms by (induction xs) auto

lemma sum_list_filter_le:
  fixes f :: "'a \<Rightarrow> int"
  assumes "\<And>x. x \<in> set xs \<Longrightarrow> 0 \<le> f x"
  shows "sum_list (map f (filter P xs)) \<le> sum_list (map f xs)"
  using assms by (induction xs) (auto intro: add_increasing)

text \<open>The first element of a sort by key is least, and a sort moves nothing else.\<close>

lemma sort_key_Nil_iff [simp]: "sort_key f xs = [] \<longleftrightarrow> xs = []"
  by (metis length_0_conv length_sort)

lemma first_of_sort_key:
  assumes "first_of (sort_key f xs) = Some x"
  shows "x \<in> set xs \<and> (\<forall>y \<in> set xs. f x \<le> f y)"
proof -
  from assms obtain ys where s: "sort_key f xs = x # ys" by (auto simp: first_of_eq_Some)
  then have "sorted (map f (x # ys))" by (metis sorted_sort_key)
  moreover have "set (x # ys) = set xs" by (metis s set_sort)
  ultimately show ?thesis by (fastforce simp del: set_simps simp: list.set)
qed

lemma first_of_sort_key_ex: "x \<in> set xs \<Longrightarrow> \<exists>s. first_of (sort_key f xs) = Some s"
  by (cases "first_of (sort_key f xs)") auto

end
