(* ===== verification/Selection.thy ===== *)
theory Selection
  imports Pool_Prelude
begin

text \<open>
  Selection (worker/src/selection.ts): which queued task a claim of a registration is handed. This
  theory holds the data and the operations in the order of the file: a registration's lanes and
  room, the placement rules, the choice and the reservation. Everything is a function of the rows
  the caller read and of the clock it passes, as in the source. Its theorems are in
  Selection\_Props, where the lease itself is in Leases.
\<close>

subsection \<open>The data\<close>

datatype mode = Native | Emulated

text \<open>A lane; \<open>page16k\<close> is None when its host does not report its pages.\<close>

record lane =
  l_arch :: arch
  l_mode :: mode
  l_page16k :: "bool option"

text \<open>A lease the pool holds, as selection counts it (Held).\<close>

record held =
  h_task :: int
  h_by :: string
  h_kind :: string
  h_arch :: arch
  h_lane :: "mode option"
  h_units :: int
  h_model :: bool
  h_trust :: string
  h_owner :: "login option"
  h_disk_gb :: rat

datatype scope = ScopeHost | ScopeProject | ScopeCommunity

record disk =
  d_work :: rat
  d_engine :: rat

record mark =
  mk_task :: int
  mk_since :: int

text \<open>A registration of the fleet (Member).\<close>

record member =
  m_id :: string
  m_legacy :: bool
  m_lanes :: "lane list"
  m_sandbox :: bool
  m_units :: int
  m_agent_slots :: int
  m_disk :: "disk option"
  m_kinds :: "string list"
  m_probe_ok :: bool
  m_drained :: bool
  m_below_minimum :: bool
  m_below_disk :: "disk option"
  m_may_claim :: bool
  m_behind :: bool
  m_seen_at :: int
  m_alive_ms :: "int option"
  m_reserving :: "mark option"
  m_scope :: scope
  m_busy :: bool
  m_asleep :: bool
  m_offer :: "int option"
  m_owner :: "login option"
  m_model :: "string option"

text \<open>A registration's machine is known by whose registration it is, and by nothing else (D36).\<close>

type_synonym machine = "login option"

record candidate =
  c_id :: int
  c_name :: string
  c_kind :: string
  c_arch :: arch
  c_trust :: string
  c_owner :: "login option"
  c_priority :: int
  c_queued_at :: int
  c_pinned_to :: "string option"
  c_needs_native :: bool
  c_refused_4k :: bool
  c_model :: bool
  c_size :: "int option"
  c_disk_gb :: "rat option"
  c_native_ms :: "int option"
  c_reserved_at :: "int option"
  c_job_arch :: "arch option"
  c_publish_bound :: bool
  c_requesters :: "login list"
  c_any_host :: "login option"
  c_solo :: "login option"
  c_built_by :: "string option"
  c_built_with :: "string option"
  c_built_on :: "machine option"

text \<open>The signed constants and the settings (Rules).\<close>

record rules =
  r_build_per_size :: int
  r_trial :: int
  r_audit :: int
  r_job :: int
  r_job_reserved :: int
  r_max_size :: int
  r_community_max_size :: int
  r_gb_per_size :: rat
  r_floor_gb :: rat
  r_emulated_share :: rat
  r_owner_divisor :: int
  r_legacy_any_arch :: "string list"

record seen_model =
  sm_id :: string
  sm_model :: string
  sm_at :: int

record fleet =
  f_members :: "member list"
  f_leases :: "held list"
  f_models :: "seen_model list"

datatype independence = ByModel | ByHost | NoIndependence

text \<open>A candidate the registration may take, as its lease is written (Choice).\<close>

record choice =
  ch_id :: int
  ch_lane :: "mode option"
  ch_size :: "int option"
  ch_asked :: "int option"
  ch_units :: int
  ch_disk_gb :: "rat option"
  ch_share :: bool
  ch_independent :: "independence option"

text \<open>What \<open>select\<close> sorts: the choice, its candidate, its effective age and its owner's count.\<close>

record entry = choice +
  e_c :: candidate
  e_age :: int
  e_ownerKey :: int

subsection \<open>Constants\<close>

definition MINUTE :: int where "MINUTE = 60000"
definition ALIVE_MS :: int where "ALIVE_MS = 2 * MINUTE"
definition T_MIN_MS :: int where "T_MIN_MS = 3 * MINUTE"
definition T_MAX_MS :: int where "T_MAX_MS = 60 * MINUTE"
definition RESERVE_AFTER_MS :: int where "RESERVE_AFTER_MS = 30 * MINUTE"
definition RESERVE_FOR_MS :: int where "RESERVE_FOR_MS = 120 * MINUTE"
definition MODEL_WINDOW_MS :: int where "MODEL_WINDOW_MS = 24 * 60 * MINUTE"
definition ELSEWHERE_MS :: int where "ELSEWHERE_MS = T_MIN_MS"
definition OWNER_DIVISOR :: int where "OWNER_DIVISOR = 4"

lemmas time_constants =
  MINUTE_def ALIVE_MS_def T_MIN_MS_def T_MAX_MS_def RESERVE_AFTER_MS_def RESERVE_FOR_MS_def
  MODEL_WINDOW_MS_def ELSEWHERE_MS_def

definition cooling :: "int option \<Rightarrow> int \<Rightarrow> bool" where
  "cooling reservedAt now = (case reservedAt of
     None \<Rightarrow> False
   | Some t \<Rightarrow> t \<le> now - RESERVE_FOR_MS \<and> t > now - RESERVE_FOR_MS - RESERVE_AFTER_MS)"

definition LANE_KINDS :: "string list" where "LANE_KINDS = [''build'', ''trial'']"
definition HELPER_KINDS :: "string list" where "HELPER_KINDS = [''health'']"
definition RING_ARCHES :: "arch list" where "RING_ARCHES = [''x86_64'', ''aarch64'']"
definition RING_JOBS :: "string list" where "RING_JOBS = [''promote'', ''security'']"
definition TASK_KINDS :: "string list" where "TASK_KINDS = [''build'', ''trial'', ''audit'']"

lemmas kind_lists = LANE_KINDS_def HELPER_KINDS_def RING_ARCHES_def RING_JOBS_def TASK_KINDS_def

subsection \<open>A registration: alive, its builds, its lanes\<close>

definition helperArches :: "candidate \<Rightarrow> arch list option" where
  "helperArches c =
     (if c_kind c \<in> set HELPER_KINDS then Some [c_arch c]
      else if c_kind c = ''promote'' then
        (case c_job_arch c of
           Some a \<Rightarrow> if a \<in> set RING_ARCHES then Some [a] else Some RING_ARCHES
         | None \<Rightarrow> Some RING_ARCHES)
      else if c_kind c = ''security'' then Some RING_ARCHES
      else None)"

definition alive :: "member \<Rightarrow> int \<Rightarrow> bool" where
  "alive m now \<longleftrightarrow> m_seen_at m > now - nvl (m_alive_ms m) ALIVE_MS"

definition thresholdMs :: "int option \<Rightarrow> int" where
  "thresholdMs nativeMs = (case nativeMs of
     None \<Rightarrow> T_MIN_MS
   | Some n \<Rightarrow> if \<not> n > 0 then T_MIN_MS else min T_MAX_MS (max T_MIN_MS (2 * n)))"

definition buildsOf :: "member \<Rightarrow> rules \<Rightarrow> int" where
  "buildsOf m r =
     (if m_legacy m then (if ''build'' \<in> set (m_kinds m) then 1 else 0)
      else max 0 ((m_units m - r_job_reserved r) div r_build_per_size r))"

definition counts :: "member \<Rightarrow> int \<Rightarrow> bool" where
  "counts m now \<longleftrightarrow> alive m now \<and> m_may_claim m \<and> \<not> m_below_minimum m \<and> \<not> m_asleep m"

definition largestSize :: "fleet \<Rightarrow> int \<Rightarrow> rules \<Rightarrow> int" where
  "largestSize fl now r =
     foldl (\<lambda>best m. if counts m now then max best (min (r_max_size r) (buildsOf m r)) else best)
       1 (f_members fl)"

text \<open>The size a build gets at most, and the size it asked for.\<close>

definition sizeOf :: "candidate \<Rightarrow> int \<Rightarrow> rules \<Rightarrow> (int \<times> int) option" where
  "sizeOf c largest r =
     (if c_kind c \<noteq> ''build'' then None
      else let mx = (if c_trust c = ''community'' then r_community_max_size r else r_max_size r);
               asked = min (max (nvl (c_size c) 1) 1) mx
           in Some (min asked largest, asked))"

definition unitsOf :: "string \<Rightarrow> int option \<Rightarrow> rules \<Rightarrow> int" where
  "unitsOf kind sz r =
     (if kind = ''build'' then r_build_per_size r * nvl sz 1
      else if kind = ''trial'' then r_trial r
      else if kind = ''audit'' then r_audit r
      else r_job r)"

definition diskOf :: "candidate \<Rightarrow> int option \<Rightarrow> rules \<Rightarrow> rat option" where
  "diskOf c sz r =
     (if c_kind c \<noteq> ''build'' then None
      else Some (nvl (c_disk_gb c) (r_gb_per_size r * of_int (nvl sz 1))))"

definition contributorsCode :: "candidate \<Rightarrow> bool" where
  "contributorsCode c \<longleftrightarrow> \<not> (c_kind c = ''build'' \<and> c_trust c = ''project'' \<and> \<not> c_publish_bound c)"

text \<open>The lane a registration would run a candidate on: its mode, and whether native is preferred.\<close>

definition laneFor :: "member \<Rightarrow> candidate \<Rightarrow> rules \<Rightarrow> (mode option \<times> bool) option" where
  "laneFor m c r =
     (let lanes = filter (\<lambda>l. l_arch l = c_arch c) (m_lanes m);
          native = list_ex (\<lambda>l. l_mode l = Native) lanes
      in if c_kind c \<in> set LANE_KINDS then
           (if native then Some (Some Native, True)
            else if m_sandbox m \<and> contributorsCode c then None
            else if lanes \<noteq> [] then Some (Some Emulated, True) else None)
         else if m_legacy m then
           (case lanes of
              l # _ \<Rightarrow> Some (Some (l_mode l), False)
            | [] \<Rightarrow> if c_kind c \<in> set (r_legacy_any_arch r) then Some (None, False) else None)
         else if c_kind c \<in> set HELPER_KINDS then
           (if lanes \<noteq> [] then Some (Some (if native then Native else Emulated), False) else None)
         else case helperArches c of
             Some hs \<Rightarrow> if \<not> list_all (\<lambda>a. list_ex (\<lambda>l. l_arch l = a) (m_lanes m)) hs then None
                        else Some (None, False)
           | None \<Rightarrow> Some (None, False))"

definition emulationRefuses :: "member \<Rightarrow> candidate \<Rightarrow> bool" where
  "emulationRefuses m c \<longleftrightarrow>
     c_refused_4k c \<or>
     c_needs_native c \<and>
       \<not> list_ex (\<lambda>l. l_arch l = c_arch c \<and> l_mode l = Emulated \<and> l_page16k l = Some False) (m_lanes m)"

definition takes :: "member \<Rightarrow> candidate \<Rightarrow> bool" where
  "takes m c =
     (if c_kind c \<notin> set (m_kinds m) then False
      else if c_pinned_to c \<noteq> None \<and> c_pinned_to c \<noteq> Some (m_id m) then False
      else if c_model c \<and> \<not> m_probe_ok m then False
      else if m_scope m = ScopeProject \<and> c_kind c = ''build'' \<and> c_trust c = ''community'' then False
      else if m_scope m = ScopeCommunity \<and> c_trust c \<noteq> ''community'' then False
      else True)"

subsection \<open>The room of a host\<close>

definition heldBy :: "fleet \<Rightarrow> member \<Rightarrow> held list" where
  "heldBy fl m = (if m_legacy m then [] else filter (\<lambda>l. h_by l = m_id m) (f_leases fl))"

definition taskUnits :: "held list \<Rightarrow> int" where
  "taskUnits hs = sum_list (map h_units (filter (\<lambda>l. h_kind l \<in> set TASK_KINDS) hs))"

definition jobUnits :: "held list \<Rightarrow> int" where
  "jobUnits hs = sum_list (map h_units (filter (\<lambda>l. h_kind l \<notin> set TASK_KINDS) hs))"

text \<open>Free units for a task, and for a pool job.\<close>

definition roomOf :: "member \<Rightarrow> held list \<Rightarrow> rules \<Rightarrow> int \<times> int" where
  "roomOf m hs r =
     (m_units m - max (r_job_reserved r) (jobUnits hs) - taskUnits hs,
      m_units m - taskUnits hs - jobUnits hs)"

datatype no_room = NoUnits | NoMemory | NoAgentSlot | NoDisk

definition buildBudgets :: "held list \<Rightarrow> rat" where
  "buildBudgets hs = sum_list (map (\<lambda>l. if h_kind l = ''build'' then h_disk_gb l else 0) hs)"

definition noRoom :: "member \<Rightarrow> held list \<Rightarrow> candidate \<Rightarrow> int \<Rightarrow> rat option \<Rightarrow> rules \<Rightarrow> no_room option" where
  "noRoom m hs c units disk r =
     (if m_legacy m then (if units > r_build_per_size r then Some NoUnits else None)
      else if units > (if c_kind c \<in> set TASK_KINDS then fst (roomOf m hs r) else snd (roomOf m hs r))
        then Some NoUnits
      else if (case m_offer m of Some n \<Rightarrow> units > n | None \<Rightarrow> False) then Some NoMemory
      else if c_model c \<and> int (length (filter h_model hs)) \<ge> m_agent_slots m then Some NoAgentSlot
      else if c_kind c = ''build'' then
        (case m_disk m of
           None \<Rightarrow> Some NoDisk
         | Some d \<Rightarrow>
             if nvl disk 0 + r_floor_gb r > min (d_work d) (d_engine d) - buildBudgets hs
             then Some NoDisk else None)
      else None)"

definition reservingNow :: "member \<Rightarrow> int \<Rightarrow> mark option" where
  "reservingNow m now = (case m_reserving m of
     Some k \<Rightarrow> if mk_since k > now - RESERVE_FOR_MS then Some k else None
   | None \<Rightarrow> None)"

subsection \<open>Placement (D35, D36)\<close>

definition projectCopy :: "candidate \<Rightarrow> bool" where
  "projectCopy c \<longleftrightarrow> c_kind c = ''build'' \<and> c_publish_bound c"

definition requesterHost :: "member \<Rightarrow> candidate \<Rightarrow> bool" where
  "requesterHost m c \<longleftrightarrow>
     projectCopy c \<and> \<not> truthy (c_any_host c) \<and>
     (case m_owner m of
        None \<Rightarrow> False
      | Some ow \<Rightarrow> Some ow \<noteq> c_solo c \<and> ow \<in> set (c_requesters c))"

text \<open>The size, the units and the disk budget a candidate takes in the fleet alive.\<close>

definition sizeIn :: "candidate \<Rightarrow> int \<Rightarrow> rules \<Rightarrow> int option" where
  "sizeIn c largest r = map_option fst (sizeOf c largest r)"

definition holdsNothing :: "fleet \<Rightarrow> member \<Rightarrow> bool" where
  "holdsNothing fl x \<longleftrightarrow> \<not> (m_busy x \<or> list_ex (\<lambda>l. h_by l = m_id x) (f_leases fl))"

definition markedElsewhere :: "member \<Rightarrow> candidate \<Rightarrow> int \<Rightarrow> bool" where
  "markedElsewhere x c now = (case reservingNow x now of Some k \<Rightarrow> mk_task k \<noteq> c_id c | None \<Rightarrow> False)"

definition nativeCapacity :: "fleet \<Rightarrow> candidate \<Rightarrow> int \<Rightarrow> rules \<Rightarrow> string \<Rightarrow> bool" where
  "nativeCapacity fl c now r except =
     (let sz = sizeIn c (largestSize fl now r) r;
          units = unitsOf (c_kind c) sz r;
          disk = diskOf c sz r
      in list_ex (\<lambda>x.
           \<not> (m_id x = except \<or> \<not> counts x now \<or> m_drained x \<or> m_behind x) \<and>
           list_ex (\<lambda>l. l_arch l = c_arch c \<and> l_mode l = Native) (m_lanes x) \<and>
           \<not> (\<not> takes x c \<or> requesterHost x c) \<and>
           \<not> markedElsewhere x c now \<and>
           \<not> (m_legacy x \<and> \<not> holdsNothing fl x) \<and>
           noRoom x (heldBy fl x) c units disk r = None) (f_members fl))"

definition idleDisk :: "disk \<Rightarrow> held list \<Rightarrow> disk" where
  "idleDisk d hs = \<lparr>d_work = d_work d + buildBudgets hs, d_engine = d_engine d + buildBudgets hs\<rparr>"

definition idleMember :: "member \<Rightarrow> held list \<Rightarrow> member" where
  "idleMember m hs =
     (if m_legacy m then m
      else m\<lparr>m_offer := None,
             m_kinds := (if ''build'' \<in> set (m_kinds m) then m_kinds m else m_kinds m @ [''build'']),
             m_disk := map_option (\<lambda>d. idleDisk d hs) (m_disk m)\<rparr>)"

definition mayRun :: "member \<Rightarrow> candidate \<Rightarrow> int \<Rightarrow> rules \<Rightarrow> int \<Rightarrow> held list \<Rightarrow> bool" where
  "mayRun m c now r largest hs =
     (let idle = idleMember m hs;
          below = m_below_minimum m \<and>
            \<not> (case (m_below_disk m, m_disk idle) of
                 (Some b, Some d) \<Rightarrow> d_work d \<ge> d_work b \<and> d_engine d \<ge> d_engine b
               | _ \<Rightarrow> False)
      in if \<not> alive m now \<or> \<not> m_may_claim m \<or> below \<or> m_drained m \<or> m_behind m \<or> m_asleep m \<or> \<not> takes idle c
         then False
         else case laneFor m c r of
             None \<Rightarrow> False
           | Some (md, byLane) \<Rightarrow>
               if byLane \<and> md = Some Emulated \<and> emulationRefuses m c then False
               else let sz = sizeIn c largest r
                    in noRoom idle [] c (unitsOf (c_kind c) sz r) (diskOf c sz r) r = None)"

datatype not_claiming =
    NotActive | Drained | Behind | Asleep | BelowMinimum | NotAlive int

text \<open>Why a registration does not claim now; the last reason names how long it may be silent.\<close>

definition notClaiming :: "member \<Rightarrow> int \<Rightarrow> not_claiming option" where
  "notClaiming m now =
     (if \<not> m_may_claim m then Some NotActive
      else if m_drained m then Some Drained
      else if m_behind m then Some Behind
      else if m_asleep m then Some Asleep
      else if m_below_minimum m \<and> m_below_disk m = None then Some BelowMinimum
      else if \<not> alive m now
        then Some (NotAlive (\<lfloor>(of_int (nvl (m_alive_ms m) ALIVE_MS) / of_int MINUTE :: rat) + 1 / 2\<rfloor>))
      else None)"

datatype repin_refusal =
    NotClaiming not_claiming
  | RequestersHost
  | SandboxedEmulated
  | NoLane
  | Needs_Native
  | Needs_Native_Or_4k bool \<comment> \<open>whether the host reports 16K pages\<close>
  | TakesNoKind
  | OtherAgent "string option"
  | ProbeFails
  | CouldNotHold

definition repinRefusal ::
  "member \<Rightarrow> candidate \<Rightarrow> int \<Rightarrow> rules \<Rightarrow> int \<Rightarrow> held list \<Rightarrow> string option \<Rightarrow> repin_refusal option" where
  "repinRefusal m c now r largest hs agent =
     (case notClaiming m now of
        Some w \<Rightarrow> Some (NotClaiming w)
      | None \<Rightarrow>
        if requesterHost m c then Some RequestersHost
        else case laneFor m c r of
          None \<Rightarrow> if list_ex (\<lambda>l. l_arch l = c_arch c) (m_lanes m) then Some SandboxedEmulated else Some NoLane
        | Some (md, byLane) \<Rightarrow>
          if byLane \<and> md = Some Emulated \<and> emulationRefuses m c then
            (if c_refused_4k c then Some Needs_Native
             else Some (Needs_Native_Or_4k
               (list_ex (\<lambda>l. l_arch l = c_arch c \<and> l_mode l = Emulated \<and> l_page16k l = Some True) (m_lanes m))))
          else if c_kind c \<notin> set (m_kinds m) \<and> c_kind c \<noteq> ''build'' then Some TakesNoKind
          else if truthy agent \<and> m_model m \<noteq> agent then Some (OtherAgent (m_model m))
          else if c_model c \<and> \<not> m_probe_ok m then Some ProbeFails
          else if mayRun m (c\<lparr>c_pinned_to := Some (m_id m)\<rparr>) now r largest hs then None
          else Some CouldNotHold)"

record placement =
  p_others :: "string list"
  p_mine :: "string list"
  p_held :: bool
  p_solo :: "(login \<times> string list) option"

definition exemptOf :: "candidate \<Rightarrow> login option" where
  "exemptOf c = (case c_solo c of
     Some s \<Rightarrow> if s \<in> set (c_requesters c) then Some s else None
   | None \<Rightarrow> None)"

text \<open>The registrations of an owner that could run the copy: those the placement's loop reaches.\<close>

definition runners :: "fleet \<Rightarrow> candidate \<Rightarrow> int \<Rightarrow> rules \<Rightarrow> (member \<times> login) list" where
  "runners fl c now r =
     (if \<not> projectCopy c then []
      else List.map_filter (\<lambda>m. case m_owner m of
             None \<Rightarrow> None
           | Some ow \<Rightarrow> if mayRun m c now r (largestSize fl now r) (heldBy fl m) then Some (m, ow) else None)
        (f_members fl))"

definition placementOf :: "fleet \<Rightarrow> candidate \<Rightarrow> int \<Rightarrow> rules \<Rightarrow> placement" where
  "placementOf fl c now r =
     (let rs = runners fl c now r;
          mine = map (\<lambda>x. m_id (fst x)) (filter (\<lambda>x. snd x \<in> set (c_requesters c)) rs);
          others = map (\<lambda>x. m_id (fst x)) (filter (\<lambda>x. snd x \<notin> set (c_requesters c)) rs);
          own = map (\<lambda>x. m_id (fst x)) (filter (\<lambda>x. Some (snd x) = exemptOf c) rs)
      in \<lparr>p_others = others, p_mine = mine,
          p_held = (projectCopy c \<and> \<not> truthy (c_any_host c) \<and> others = [] \<and> own = [] \<and> mine \<noteq> []),
          p_solo = (if projectCopy c then map_option (\<lambda>s. (s, own)) (exemptOf c) else None)\<rparr>)"

definition otherModels :: "fleet \<Rightarrow> candidate \<Rightarrow> int \<Rightarrow> string list" where
  "otherModels fl c now =
     (if \<not> truthy (c_built_with c) then []
      else uniq (map sm_model (filter (\<lambda>x. sm_at x > now - MODEL_WINDOW_MS \<and> Some (sm_model x) \<noteq> c_built_with c)
             (f_models fl))))"

definition needsOtherModel :: "fleet \<Rightarrow> candidate \<Rightarrow> int \<Rightarrow> bool" where
  "needsOtherModel fl c now \<longleftrightarrow> c_kind c = ''audit'' \<and> c_publish_bound c \<and> otherModels fl c now \<noteq> []"

definition anotherModel :: "member \<Rightarrow> candidate \<Rightarrow> bool" where
  "anotherModel m c \<longleftrightarrow> truthy (m_model m) \<and> truthy (c_built_with c) \<and> m_model m \<noteq> c_built_with c"

definition apart :: "machine \<Rightarrow> machine \<Rightarrow> bool" where
  "apart a b \<longleftrightarrow> a \<noteq> None \<and> b \<noteq> None \<and> a \<noteq> b"

definition besideBuilder :: "member \<Rightarrow> candidate \<Rightarrow> bool" where
  "besideBuilder m c \<longleftrightarrow>
     c_built_by c \<noteq> None \<and> (Some (m_id m) = c_built_by c \<or> \<not> apart (m_owner m) (nvl (c_built_on c) None))"

definition auditElsewhere :: "fleet \<Rightarrow> candidate \<Rightarrow> int \<Rightarrow> rules \<Rightarrow> string \<Rightarrow> bool" where
  "auditElsewhere fl c now r except =
     (let model = needsOtherModel fl c now
      in list_ex (\<lambda>x.
           \<not> (m_id x = except \<or> besideBuilder x c \<or> \<not> counts x now \<or> m_drained x \<or> m_behind x) \<and>
           \<not> (\<not> takes x c \<or> laneFor x c r = None \<or> model \<and> \<not> anotherModel x c) \<and>
           \<not> markedElsewhere x c now \<and>
           \<not> (m_legacy x \<and> \<not> holdsNothing fl x) \<and>
           noRoom x (heldBy fl x) c (unitsOf (c_kind c) None r) None r = None) (f_members fl))"

definition independenceOf :: "member \<Rightarrow> candidate \<Rightarrow> independence option" where
  "independenceOf m c =
     (if c_kind c \<noteq> ''audit'' then None
      else if anotherModel m c then Some ByModel
      else if \<not> c_publish_bound c \<and> c_built_by c \<noteq> None \<and> \<not> besideBuilder m c then Some ByHost
      else Some NoIndependence)"

subsection \<open>The choice\<close>

text \<open>The per-owner cap (D51); None is \<^verbatim>\<open>Number.POSITIVE_INFINITY\<close>.\<close>

definition ownerCap :: "fleet \<Rightarrow> int \<Rightarrow> rules \<Rightarrow> int option" where
  "ownerCap fl now r =
     (if \<not> r_owner_divisor r > 0 then None
      else let total = sum_list (map (\<lambda>m. if counts m now then buildsOf m r else 0) (f_members fl))
           in Some (max 1 \<lceil>(of_int total / of_int (r_owner_divisor r)) :: rat\<rceil>))"

definition communityBuild :: "string \<Rightarrow> string \<Rightarrow> bool" where
  "communityBuild kind trust \<longleftrightarrow> kind = ''build'' \<and> trust = ''community''"

definition ownersLeased :: "fleet \<Rightarrow> (login \<rightharpoonup> int)" where
  "ownersLeased fl =
     foldl (\<lambda>n l. case h_owner l of
         Some ow \<Rightarrow> if communityBuild (h_kind l) (h_trust l) \<and> ow \<noteq> [] then n(ow \<mapsto> nvl (n ow) 0 + 1) else n
       | None \<Rightarrow> n)
       Map.empty (f_leases fl)"

text \<open>How many community builds the candidate's owner holds, and whether their cap is reached.\<close>

definition ownerKeyOf :: "fleet \<Rightarrow> candidate \<Rightarrow> int" where
  "ownerKeyOf fl c = (case c_owner c of
     Some ow \<Rightarrow> if communityBuild (c_kind c) (c_trust c) \<and> ow \<noteq> [] then nvl (ownersLeased fl ow) 0 else 0
   | None \<Rightarrow> 0)"

definition ownerCapped :: "fleet \<Rightarrow> candidate \<Rightarrow> int \<Rightarrow> rules \<Rightarrow> bool" where
  "ownerCapped fl c now r \<longleftrightarrow>
     communityBuild (c_kind c) (c_trust c) \<and> truthy (c_owner c) \<and>
     (case ownerCap fl now r of None \<Rightarrow> False | Some cap \<Rightarrow> ownerKeyOf fl c \<ge> cap)"

definition markOf :: "member \<Rightarrow> int \<Rightarrow> mark option" where
  "markOf H now = (if m_legacy H then None else reservingNow H now)"

definition markedOf :: "member \<Rightarrow> candidate list \<Rightarrow> int \<Rightarrow> candidate option" where
  "markedOf H cs now = (case markOf H now of None \<Rightarrow> None | Some k \<Rightarrow> find (\<lambda>c. c_id c = mk_task k) cs)"

definition unitsIn :: "candidate \<Rightarrow> int \<Rightarrow> rules \<Rightarrow> int" where
  "unitsIn c largest r = unitsOf (c_kind c) (sizeIn c largest r) r"

text \<open>What a reserving host looks at: its task and the pool jobs while its free units are below it.\<close>

definition holding :: "member \<Rightarrow> fleet \<Rightarrow> candidate list \<Rightarrow> int \<Rightarrow> rules \<Rightarrow> bool" where
  "holding H fl cs now r = (case markedOf H cs now of
     None \<Rightarrow> False
   | Some c \<Rightarrow> fst (roomOf H (heldBy fl H) r) < unitsIn c (largestSize fl now r) r)"

definition poolOf :: "member \<Rightarrow> fleet \<Rightarrow> candidate list \<Rightarrow> int \<Rightarrow> rules \<Rightarrow> candidate list" where
  "poolOf H fl cs now r =
     (if holding H fl cs now r
      then filter (\<lambda>c. Some (c_id c) = map_option mk_task (markOf H now) \<or> c_kind c \<notin> set TASK_KINDS) cs
      else cs)"

definition nativeQueued :: "member \<Rightarrow> candidate list \<Rightarrow> rules \<Rightarrow> bool" where
  "nativeQueued H pool r =
     list_ex (\<lambda>c. takes H c \<and> map_option fst (laneFor H c r) = Some (Some Native) \<and> c_kind c \<in> set LANE_KINDS) pool"

definition emulatedCap :: "member \<Rightarrow> candidate list \<Rightarrow> rules \<Rightarrow> int" where
  "emulatedCap H pool r =
     max 1 (if nativeQueued H pool r then \<lceil>(of_int (buildsOf H r) * r_emulated_share r) :: rat\<rceil>
            else buildsOf H r - 1) * r_build_per_size r"

definition emulatedHeld :: "held list \<Rightarrow> int" where
  "emulatedHeld hs =
     sum_list (map (\<lambda>l. if h_lane l = Some Emulated \<and> h_kind l \<in> set LANE_KINDS then h_units l else 0) hs)"

text \<open>Every guard of the loop that skips a candidate, in its order.\<close>

definition eligible :: "member \<Rightarrow> fleet \<Rightarrow> candidate list \<Rightarrow> int \<Rightarrow> rules \<Rightarrow> candidate \<Rightarrow> bool" where
  "eligible H fl pool now r c =
     (let hs = heldBy fl H;
          largest = largestSize fl now r
      in if \<not> takes H c then False
         else if requesterHost H c then False
         else if c_kind c = ''audit'' \<and> needsOtherModel fl c now \<and> \<not> anotherModel H c then False
         else if c_kind c = ''audit'' \<and> besideBuilder H c \<and> now - c_queued_at c < ELSEWHERE_MS
                 \<and> auditElsewhere fl c now r (m_id H) then False
         else case laneFor H c r of
           None \<Rightarrow> False
         | Some (md, byLane) \<Rightarrow>
             let sz = sizeIn c largest r;
                 units = unitsOf (c_kind c) sz r;
                 disk = diskOf c sz r
             in if noRoom H hs c units disk r \<noteq> None then False
                else if byLane \<and> md = Some Emulated \<and>
                   (emulationRefuses H c
                    \<or> now - c_queued_at c < thresholdMs (c_native_ms c) \<and> nativeCapacity fl c now r (m_id H)
                    \<or> \<not> m_legacy H \<and> emulatedHeld hs > 0 \<and> emulatedHeld hs + units > emulatedCap H pool r)
                  then False
                else \<not> ownerCapped fl c now r)"

definition penaltyOf :: "(mode option \<times> bool) \<Rightarrow> candidate \<Rightarrow> int" where
  "penaltyOf lane c = (if snd lane \<and> fst lane = Some Emulated then thresholdMs (c_native_ms c) else 0)"

definition entryOf :: "member \<Rightarrow> fleet \<Rightarrow> int \<Rightarrow> rules \<Rightarrow> candidate \<Rightarrow> entry" where
  "entryOf H fl now r c =
     (let largest = largestSize fl now r;
          lane = (case laneFor H c r of Some l \<Rightarrow> l | None \<Rightarrow> (None, False));
          sz = sizeIn c largest r
      in \<lparr>ch_id = c_id c, ch_lane = fst lane, ch_size = sz,
          ch_asked = (case sizeOf c largest r of
             Some (s, a) \<Rightarrow> if s < a then Some a else None
           | None \<Rightarrow> None),
          ch_units = unitsOf (c_kind c) sz r, ch_disk_gb = diskOf c sz r, ch_share = False,
          ch_independent = independenceOf H c,
          e_c = c, e_age = now - c_queued_at c - penaltyOf lane c, e_ownerKey = ownerKeyOf fl c\<rparr>)"

definition order_key :: "entry \<Rightarrow> int \<times> int \<times> int \<times> int" where
  "order_key x = (c_priority (e_c x), e_ownerKey x, - e_age x, ch_id x)"

definition starved :: "member \<Rightarrow> fleet \<Rightarrow> int \<Rightarrow> arch \<Rightarrow> bool" where
  "starved H fl now a \<longleftrightarrow>
     (m_legacy H \<or> \<not> list_ex (\<lambda>l. h_lane l = Some Emulated \<and> h_arch l = a) (heldBy fl H)) \<and>
     \<not> list_ex (\<lambda>m. alive m now \<and> m_may_claim m \<and> \<not> m_asleep m \<and>
          list_ex (\<lambda>l. l_arch l = a \<and> l_mode l = Native) (m_lanes m)) (f_members fl)"

definition sharedOf :: "member \<Rightarrow> fleet \<Rightarrow> int \<Rightarrow> entry list \<Rightarrow> entry option" where
  "sharedOf H fl now oks =
     first_of (sort_key (\<lambda>x. (c_queued_at (e_c x), ch_id x))
       (filter (\<lambda>x. ch_lane x = Some Emulated \<and> c_kind (e_c x) \<in> set LANE_KINDS
                 \<and> starved H fl now (c_arch (e_c x))) oks))"

definition okEntries :: "member \<Rightarrow> fleet \<Rightarrow> candidate list \<Rightarrow> int \<Rightarrow> rules \<Rightarrow> entry list" where
  "okEntries H fl cs now r =
     (let pool = poolOf H fl cs now r
      in sort_key order_key (map (entryOf H fl now r) (filter (eligible H fl pool now r) pool)))"

definition shareFirst :: "entry option \<Rightarrow> entry list \<Rightarrow> entry list" where
  "shareFirst shared oks = (case shared of
     Some s \<Rightarrow> s\<lparr>ch_share := True\<rparr> # remove1 s oks
   | None \<Rightarrow> oks)"

definition ownFirst :: "candidate option \<Rightarrow> entry list \<Rightarrow> entry list" where
  "ownFirst marked order = (case marked of
     None \<Rightarrow> order
   | Some c \<Rightarrow> (case find_index (\<lambda>x. ch_id x = c_id c) order of
       None \<Rightarrow> order
     | Some i \<Rightarrow> to_front i order))"

definition select :: "member \<Rightarrow> fleet \<Rightarrow> candidate list \<Rightarrow> int \<Rightarrow> rules \<Rightarrow> choice list" where
  "select H fl cs now r =
     (if m_asleep H then []
      else let oks = okEntries H fl cs now r;
               order = shareFirst (sharedOf H fl now oks) oks
           in map choice.truncate (ownFirst (markedOf H cs now) order))"

subsection \<open>Reservation for large tasks\<close>

definition clearMarks :: "fleet \<Rightarrow> (int \<Rightarrow> bool) \<Rightarrow> int \<Rightarrow> string list" where
  "clearMarks fl queued now =
     map m_id (filter (\<lambda>m. m_reserving m \<noteq> None \<and>
       (case reservingNow m now of
          None \<Rightarrow> True
        | Some k \<Rightarrow> \<not> queued (mk_task k) \<or> \<not> alive m now \<or> m_asleep m)) (f_members fl))"

definition keptMark :: "fleet \<Rightarrow> (int \<Rightarrow> bool) \<Rightarrow> int \<Rightarrow> bool" where
  "keptMark fl queued now =
     list_ex (\<lambda>m. m_reserving m \<noteq> None \<and>
       (case reservingNow m now of
          None \<Rightarrow> False
        | Some k \<Rightarrow> queued (mk_task k) \<and> alive m now \<and> \<not> m_asleep m)) (f_members fl)"

definition claimingMembers :: "fleet \<Rightarrow> int \<Rightarrow> member list" where
  "claimingMembers fl now =
     map (\<lambda>m. m\<lparr>m_reserving := None, m_offer := None\<rparr>)
       (filter (\<lambda>m. counts m now \<and> \<not> m_drained m \<and> \<not> m_behind m) (f_members fl))"

text \<open>Whether a candidate of the loop is passed over before any host is asked.\<close>

definition reserveSkips :: "fleet \<Rightarrow> int \<Rightarrow> rules \<Rightarrow> candidate \<Rightarrow> bool" where
  "reserveSkips fl now r c \<longleftrightarrow>
     c_kind c \<noteq> ''build'' \<or> now - c_queued_at c \<le> RESERVE_AFTER_MS \<or>
     cooling (c_reserved_at c) now \<or>
     ownerCapped fl c now r \<or>
     unitsIn c (largestSize fl now r) r \<le> r_build_per_size r"

definition couldOnceIdle :: "fleet \<Rightarrow> int \<Rightarrow> rules \<Rightarrow> candidate \<Rightarrow> member list" where
  "couldOnceIdle fl now r c =
     filter (\<lambda>m. \<not> m_legacy m \<and>
        select m \<lparr>f_members = f_members fl, f_leases = filter (\<lambda>l. h_by l \<noteq> m_id m) (f_leases fl), f_models = []\<rparr>
          [c] now r \<noteq> []) (claimingMembers fl now)"

fun reserveLoop :: "fleet \<Rightarrow> int \<Rightarrow> rules \<Rightarrow> candidate list \<Rightarrow> (string \<times> int) option" where
  "reserveLoop fl now r [] = None"
| "reserveLoop fl now r (c # rest) =
     (if reserveSkips fl now r c then reserveLoop fl now r rest
      else let could = couldOnceIdle fl now r c
           in if could = [] then reserveLoop fl now r rest
              else if list_ex (\<lambda>m. select m fl [c] now r \<noteq> []) (claimingMembers fl now) then None
              else map_option (\<lambda>best. (m_id best, c_id c))
                (first_of (sort_key (\<lambda>m. (- fst (roomOf m (heldBy fl m) r), m_id m)) could)))"

text \<open>The mark to set (a host and its task), and the hosts whose mark ends.\<close>

definition reserve ::
  "fleet \<Rightarrow> candidate list \<Rightarrow> (int \<Rightarrow> bool) \<Rightarrow> int \<Rightarrow> rules \<Rightarrow> (string \<times> int) option \<times> string list" where
  "reserve fl oldest queued now r =
     (if keptMark fl queued now then (None, clearMarks fl queued now)
      else (reserveLoop fl now r oldest, clearMarks fl queued now))"

end
