(* ===== verification/Signed_Capacity.thy ===== *)
theory Signed_Capacity
  imports Selection
begin

text \<open>
  The constants the release signs (factory/bundle/manifest.toml, which worker/src/hosts.ts reads) and
  the rules selection runs with (routes/factory.ts \<open>selectionRules\<close>): the numbers every
  witness of the development is evaluated at.
\<close>

record resources =
  res_cpus :: rat
  res_mem_gb :: rat

record min_host = resources +
  mh_work_disk_gb :: rat
  mh_engine_disk_gb :: rat

record task_units =
  tu_build_per_size :: int
  tu_trial :: int
  tu_audit :: int
  tu_job :: int
  tu_job_reserved :: int

definition MIN_HOST :: min_host where
  "MIN_HOST = \<lparr>res_cpus = 4, res_mem_gb = 8, mh_work_disk_gb = 60, mh_engine_disk_gb = 40\<rparr>"

definition RESERVE :: resources where
  "RESERVE = \<lparr>res_cpus = 1, res_mem_gb = 2\<rparr>"

definition UNIT :: resources where
  "UNIT = \<lparr>res_cpus = 1, res_mem_gb = 2\<rparr>"

definition TASK_UNITS :: task_units where
  "TASK_UNITS = \<lparr>tu_build_per_size = 2, tu_trial = 2, tu_audit = 1, tu_job = 1, tu_job_reserved = 1\<rparr>"

definition MAX_SIZE :: int where "MAX_SIZE = 4"
definition COMMUNITY_MAX_SIZE :: int where "COMMUNITY_MAX_SIZE = 2"
definition BUILD_GB_PER_SIZE :: rat where "BUILD_GB_PER_SIZE = 20"
definition DISK_FLOOR_GB :: rat where "DISK_FLOOR_GB = 10"
definition SIDECARS_MEM_MB :: "int \<times> int" where "SIDECARS_MEM_MB = (64, 256)"
definition EMULATED_SHARE :: rat where "EMULATED_SHARE = 1 / 2"

definition LEGACY_ANY_ARCH :: "string list" where
  "LEGACY_ANY_ARCH = [''metrics'', ''gc'', ''security'', ''promote'', ''audit'', ''verify'', ''relayout'']"

definition selectionRules :: "int \<Rightarrow> rules" where
  "selectionRules ownerDivisor =
     \<lparr>r_build_per_size = tu_build_per_size TASK_UNITS, r_trial = tu_trial TASK_UNITS,
      r_audit = tu_audit TASK_UNITS, r_job = tu_job TASK_UNITS, r_job_reserved = tu_job_reserved TASK_UNITS,
      r_max_size = MAX_SIZE, r_community_max_size = COMMUNITY_MAX_SIZE, r_gb_per_size = BUILD_GB_PER_SIZE,
      r_floor_gb = DISK_FLOOR_GB, r_emulated_share = EMULATED_SHARE, r_owner_divisor = ownerDivisor,
      r_legacy_any_arch = LEGACY_ANY_ARCH\<rparr>"

lemmas signed_defs =
  MIN_HOST_def RESERVE_def UNIT_def TASK_UNITS_def MAX_SIZE_def COMMUNITY_MAX_SIZE_def
  BUILD_GB_PER_SIZE_def DISK_FLOOR_GB_def SIDECARS_MEM_MB_def EMULATED_SHARE_def LEGACY_ANY_ARCH_def
  selectionRules_def

end
