(* ===== verification/Selection_Props.thy ===== *)
theory Selection_Props
  imports Signed_Capacity "HOL-Library.Multiset"
begin

text \<open>
  The theorems of selection: what every choice satisfies and that nothing eligible is left out, the
  order of the choices, the caps, the two placement rules (D35, D36), the estimate \<open>mayRun\<close> against
  the claim itself, and the reservation. The lemmas of the first two sections carry the proofs.
\<close>

subsection \<open>Sizes, units and time\<close>

lemma largestSize_foldl:
  "x \<le> foldl (\<lambda>best m. if counts m now then max best (min (r_max_size r) (buildsOf m r)) else best) x ms"
  by (induction ms arbitrary: x) (auto intro: order_trans [OF max.cobounded1])

lemma largestSize_ge_1: "1 \<le> largestSize fl now r"
  unfolding largestSize_def by (rule largestSize_foldl)

lemma largestSize_attained:
  assumes "m \<in> set (f_members fl)" "counts m now"
  shows "min (r_max_size r) (buildsOf m r) \<le> largestSize fl now r"
proof -
  let ?f = "\<lambda>best m. if counts m now then max best (min (r_max_size r) (buildsOf m r)) else best"
  have "m \<in> set ms \<Longrightarrow> min (r_max_size r) (buildsOf m r) \<le> foldl ?f x ms" for x ms
  proof (induction ms arbitrary: x)
    case (Cons a ms)
    show ?case
    proof (cases "m = a")
      case True
      have "min (r_max_size r) (buildsOf m r) \<le> ?f x a" using True assms(2) by simp
      also have "\<dots> \<le> foldl ?f (?f x a) ms" by (rule largestSize_foldl)
      finally show ?thesis by simp
    next
      case False
      then show ?thesis using Cons by simp
    qed
  qed simp
  then show ?thesis using assms(1) by (simp add: largestSize_def)
qed

lemma largestSize_le:
  "largestSize fl now r \<le> max 1 (r_max_size r)"
proof -
  let ?f = "\<lambda>best m. if counts m now then max best (min (r_max_size r) (buildsOf m r)) else best"
  have "x \<le> max 1 (r_max_size r) \<Longrightarrow> foldl ?f x ms \<le> max 1 (r_max_size r)" for x ms
    by (induction ms arbitrary: x) auto
  then show ?thesis by (simp add: largestSize_def)
qed

lemma thresholdMs_bounds: "T_MIN_MS \<le> thresholdMs n \<and> thresholdMs n \<le> T_MAX_MS"
  by (cases n) (auto simp: thresholdMs_def time_constants)

text \<open>The signed constants are positive, the job unit is one unit at least.\<close>

definition rules_ok :: "rules \<Rightarrow> bool" where
  "rules_ok r \<longleftrightarrow>
     0 < r_build_per_size r \<and> 0 < r_trial r \<and> 0 < r_audit r \<and> 0 < r_job r \<and> 0 \<le> r_job_reserved r \<and>
     1 \<le> r_max_size r \<and> 1 \<le> r_community_max_size r \<and> r_community_max_size r \<le> r_max_size r \<and>
     0 \<le> r_gb_per_size r \<and> 0 \<le> r_floor_gb r \<and> 0 \<le> r_emulated_share r \<and> r_emulated_share r \<le> 1"

lemma sizeOf_bounds:
  assumes "rules_ok r" "sizeOf c largest r = Some (sz, asked)" "1 \<le> largest"
  shows "1 \<le> sz \<and> sz \<le> asked \<and> sz \<le> largest \<and> asked \<le> r_max_size r
     \<and> (c_trust c = ''community'' \<longrightarrow> asked \<le> r_community_max_size r)"
  using assms by (auto simp: sizeOf_def Let_def rules_ok_def split: if_splits)

lemma unitsIn_pos:
  assumes "rules_ok r" "1 \<le> largest"
  shows "0 < unitsIn c largest r"
proof (cases "sizeOf c largest r")
  case None
  with assms(1) show ?thesis
    by (auto simp: unitsIn_def sizeIn_def unitsOf_def rules_ok_def sizeOf_def Let_def split: if_splits)
next
  case (Some p)
  then obtain s a where "sizeOf c largest r = Some (s, a)" by (cases p) auto
  with sizeOf_bounds [OF assms(1) this assms(2)] assms(1) show ?thesis
    by (auto simp: unitsIn_def sizeIn_def unitsOf_def rules_ok_def)
qed

subsection \<open>What the choices are\<close>

lemma eligibleD:
  assumes "eligible H fl pool now r c"
  shows "takes H c" "\<not> requesterHost H c"
    "needsOtherModel fl c now \<Longrightarrow> anotherModel H c"
    "\<exists>md bl. laneFor H c r = Some (md, bl)"
    "noRoom H (heldBy fl H) c (unitsIn c (largestSize fl now r) r)
       (diskOf c (sizeIn c (largestSize fl now r) r) r) r = None"
    "\<not> ownerCapped fl c now r"
  using assms
  by (auto simp: eligible_def Let_def unitsIn_def needsOtherModel_def split: if_splits option.splits)

lemma eligible_emulatedD:
  assumes "eligible H fl pool now r c" "laneFor H c r = Some (Some Emulated, True)"
  shows "\<not> emulationRefuses H c"
    "now - c_queued_at c < thresholdMs (c_native_ms c) \<Longrightarrow> \<not> nativeCapacity fl c now r (m_id H)"
    "\<not> m_legacy H \<Longrightarrow> 0 < emulatedHeld (heldBy fl H) \<Longrightarrow>
       emulatedHeld (heldBy fl H) + unitsIn c (largestSize fl now r) r \<le> emulatedCap H pool r"
  using assms by (auto simp: eligible_def Let_def unitsIn_def split: if_splits)

lemma sharedOf_in: "sharedOf H fl now oks = Some s \<Longrightarrow> s \<in> set oks"
  unfolding sharedOf_def by (drule first_of_in_set) auto

lemma set_ownFirst [simp]: "set (ownFirst marked order) = set order"
  by (auto simp: ownFirst_def split: option.splits)

definition unshared :: "entry \<Rightarrow> entry" where
  "unshared x = x\<lparr>ch_share := False\<rparr>"

lemma okEntries_unshared: "x \<in> set (okEntries H fl cs now r) \<Longrightarrow> ch_share x = False"
  by (auto simp: okEntries_def Let_def entryOf_def)

lemma in_okEntries:
  "x \<in> set (okEntries H fl cs now r) \<longleftrightarrow>
     (\<exists>c \<in> set (poolOf H fl cs now r). eligible H fl (poolOf H fl cs now r) now r c \<and> x = entryOf H fl now r c)"
  by (auto simp: okEntries_def Let_def)

lemma shareFirst_set:
  assumes "\<And>x. x \<in> set oks \<Longrightarrow> ch_share x = False"
    and "\<And>s. shared = Some s \<Longrightarrow> s \<in> set oks"
  shows "unshared ` set (shareFirst shared oks) = set oks"
proof -
  have u: "unshared x = x" if "x \<in> set oks" for x
    using assms(1) [OF that] by (simp add: unshared_def)
  have image: "unshared ` A = A" if "A \<subseteq> set oks" for A
    using that u by (force simp: image_iff)
  show ?thesis
  proof (cases shared)
    case None
    then show ?thesis using image by (simp add: shareFirst_def)
  next
    case (Some s)
    then have s: "s \<in> set oks" using assms(2) by blast
    have "unshared (s\<lparr>ch_share := True\<rparr>) = s" using u [OF s] by (simp add: unshared_def)
    moreover have "insert s (set (remove1 s oks)) = set oks"
      using s by (induction oks) auto
    ultimately show ?thesis
      using Some image [OF set_remove1_subset] by (simp add: shareFirst_def)
  qed
qed

text \<open>Each choice is an eligible candidate's entry, and each eligible candidate has its choice.\<close>

lemma select_entries:
  assumes "\<not> m_asleep H"
  shows "(\<lambda>ch. ch\<lparr>ch_share := False\<rparr>) ` set (select H fl cs now r)
    = (\<lambda>c. choice.truncate (entryOf H fl now r c)) `
        {c \<in> set (poolOf H fl cs now r). eligible H fl (poolOf H fl cs now r) now r c}"
proof -
  let ?oks = "okEntries H fl cs now r"
  let ?order = "shareFirst (sharedOf H fl now ?oks) ?oks"
  have "(\<lambda>ch. ch\<lparr>ch_share := False\<rparr>) ` set (select H fl cs now r)
      = choice.truncate ` unshared ` set ?order"
    using assms by (simp add: select_def Let_def image_image unshared_def choice.defs)
  also have "unshared ` set ?order = set ?oks"
    by (rule shareFirst_set) (auto dest: okEntries_unshared sharedOf_in)
  also have "set ?oks = entryOf H fl now r `
        {c \<in> set (poolOf H fl cs now r). eligible H fl (poolOf H fl cs now r) now r c}"
    by (auto simp: in_okEntries)
  finally show ?thesis by (simp add: image_image)
qed

lemma poolOf_subset: "set (poolOf H fl cs now r) \<subseteq> set cs"
  by (auto simp: poolOf_def)

lemma in_poolOfD: "c \<in> set (poolOf H fl cs now r) \<Longrightarrow> c \<in> set cs"
  using poolOf_subset by blast

lemma selectE:
  assumes "ch \<in> set (select H fl cs now r)"
  obtains c where "c \<in> set cs" "c \<in> set (poolOf H fl cs now r)"
    "eligible H fl (poolOf H fl cs now r) now r c"
    "ch\<lparr>ch_share := False\<rparr> = choice.truncate (entryOf H fl now r c)"
proof -
  from assms have "\<not> m_asleep H" by (auto simp: select_def split: if_splits)
  from select_entries [OF this, of fl cs now r] assms show thesis
    using that poolOf_subset [of H fl cs now r] by blast
qed

lemma select_of:
  assumes "ch \<in> set (select H fl cs now r)" "c \<in> set cs" "distinct (map c_id cs)" "c_id c = ch_id ch"
  shows "eligible H fl (poolOf H fl cs now r) now r c"
    "ch\<lparr>ch_share := False\<rparr> = choice.truncate (entryOf H fl now r c)"
proof -
  from assms(1) obtain c' where c': "c' \<in> set cs" "eligible H fl (poolOf H fl cs now r) now r c'"
    and eq: "ch\<lparr>ch_share := False\<rparr> = choice.truncate (entryOf H fl now r c')" by (rule selectE)
  have "ch_id (ch\<lparr>ch_share := False\<rparr>) = c_id c'"
    unfolding eq by (simp add: choice.defs entryOf_def Let_def)
  then have "c' = c" using c'(1) assms(2-4) by (auto dest: inj_onD simp: distinct_map)
  with c'(2) eq show "eligible H fl (poolOf H fl cs now r) now r c"
    "ch\<lparr>ch_share := False\<rparr> = choice.truncate (entryOf H fl now r c)" by simp_all
qed

lemma choice_fields:
  assumes "ch\<lparr>ch_share := False\<rparr> = choice.truncate (entryOf H fl now r c)"
  shows "ch_id ch = c_id c"
    "ch_lane ch = (case laneFor H c r of Some l \<Rightarrow> fst l | None \<Rightarrow> None)"
    "ch_size ch = sizeIn c (largestSize fl now r) r"
    "ch_units ch = unitsIn c (largestSize fl now r) r"
    "ch_disk_gb ch = diskOf c (sizeIn c (largestSize fl now r) r) r"
    "ch_independent ch = independenceOf H c"
  using assms
  by (cases ch; auto simp: choice.defs entryOf_def Let_def unitsIn_def split: option.splits)+

subsection \<open>A small fleet for the witnesses\<close>

text \<open>A host of seven units with a native x86\_64 lane and an emulated aarch64 one, and a contributor's
  build that asks for size 3.\<close>

definition ex_host :: member where
  "ex_host = \<lparr>m_id = ''h1'', m_legacy = False,
     m_lanes = [\<lparr>l_arch = ''x86_64'', l_mode = Native, l_page16k = None\<rparr>,
                \<lparr>l_arch = ''aarch64'', l_mode = Emulated, l_page16k = Some False\<rparr>],
     m_sandbox = False, m_units = 7, m_agent_slots = 1, m_disk = Some \<lparr>d_work = 200, d_engine = 150\<rparr>,
     m_kinds = [''build'', ''audit'', ''trial'', ''sync''], m_probe_ok = True, m_drained = False,
     m_below_minimum = False, m_below_disk = None, m_may_claim = True, m_behind = False,
     m_seen_at = 9990000, m_alive_ms = None, m_reserving = None, m_scope = ScopeHost, m_busy = False,
     m_asleep = False, m_offer = None, m_owner = Some ''ann'', m_model = Some ''a/one''\<rparr>"

definition ex_build :: candidate where
  "ex_build = \<lparr>c_id = 7, c_name = ''pkg'', c_kind = ''build'', c_arch = ''x86_64'', c_trust = ''community'',
     c_owner = Some ''bob'', c_priority = 100, c_queued_at = 0, c_pinned_to = None, c_needs_native = False,
     c_refused_4k = False, c_model = False, c_size = Some 3, c_disk_gb = None, c_native_ms = None,
     c_reserved_at = None, c_job_arch = None, c_publish_bound = False, c_requesters = [], c_any_host = None,
     c_solo = None, c_built_by = None, c_built_with = None, c_built_on = None\<rparr>"

definition ex_fleet :: fleet where
  "ex_fleet = \<lparr>f_members = [ex_host], f_leases = [], f_models = []\<rparr>"

definition ex_arm :: candidate where
  "ex_arm = ex_build\<lparr>c_id := 9, c_arch := ''aarch64'', c_size := None\<rparr>"

definition ex_held :: held where
  "ex_held = \<lparr>h_task = 3, h_by = ''h1'', h_kind = ''build'', h_arch = ''x86_64'', h_lane = Some Native,
     h_units = 4, h_model = False, h_trust = ''project'', h_owner = None, h_disk_gb = 40\<rparr>"

definition ex_audit :: candidate where
  "ex_audit = ex_build\<lparr>c_id := 11, c_kind := ''audit'', c_model := True, c_publish_bound := True,
     c_built_by := Some ''h9'', c_built_with := Some ''b/two''\<rparr>"

definition ex_copy :: candidate where
  "ex_copy = ex_build\<lparr>c_id := 12, c_trust := ''project'', c_publish_bound := True, c_requesters := [''ann'']\<rparr>"

subsection \<open>Soundness, completeness and order of the choice\<close>

text \<open>
  C1. Soundness of a claim. Every choice a registration is offered is one of the candidates it was
  asked about: its kind, pin, probe and trust match, it is not the project's copy of a package its
  owner requested, its lane is one the registration has, and what the lease will write (its units
  and its disk budget) fits the room the registration has left.
\<close>

theorem select_sound:
  assumes "ch \<in> set (select H fl cs now r)"
  shows "\<exists>c \<in> set cs. ch_id ch = c_id c \<and> takes H c \<and> \<not> requesterHost H c
    \<and> (\<exists>bl. laneFor H c r = Some (ch_lane ch, bl))
    \<and> noRoom H (heldBy fl H) c (ch_units ch) (ch_disk_gb ch) r = None
    \<and> \<not> ownerCapped fl c now r \<and> \<not> m_asleep H"
proof -
  from assms have awake: "\<not> m_asleep H" by (auto simp: select_def split: if_splits)
  from assms obtain c where c: "c \<in> set cs" and el: "eligible H fl (poolOf H fl cs now r) now r c"
    and eq: "ch\<lparr>ch_share := False\<rparr> = choice.truncate (entryOf H fl now r c)" by (rule selectE)
  from eligibleD(4) [OF el] obtain md bl where lane: "laneFor H c r = Some (md, bl)" by blast
  show ?thesis
    using c awake lane eligibleD [OF el] choice_fields [OF eq] by auto
qed

theorem select_sound_witness:
  "\<exists>c \<in> set [ex_build]. (7::int) = c_id c \<and> takes ex_host c \<and> \<not> requesterHost ex_host c"
proof -
  have mem: "hd (select ex_host ex_fleet [ex_build] 10000000 (selectionRules 4))
      \<in> set (select ex_host ex_fleet [ex_build] 10000000 (selectionRules 4))"
    by code_simp
  have "ch_id (hd (select ex_host ex_fleet [ex_build] 10000000 (selectionRules 4))) = 7" by code_simp
  with select_sound [OF mem] show ?thesis by auto
qed

lemma select_eligible:
  assumes "\<not> m_asleep H" "c \<in> set (poolOf H fl cs now r)" "eligible H fl (poolOf H fl cs now r) now r c"
  shows "\<exists>ch \<in> set (select H fl cs now r). ch_id ch = c_id c \<and> ch_units ch = unitsIn c (largestSize fl now r) r"
proof -
  have "choice.truncate (entryOf H fl now r c) \<in> (\<lambda>ch. ch\<lparr>ch_share := False\<rparr>) ` set (select H fl cs now r)"
    using select_entries [OF assms(1), of fl cs now r] assms(2,3) by blast
  then obtain ch where "ch \<in> set (select H fl cs now r)"
    and eq: "ch\<lparr>ch_share := False\<rparr> = choice.truncate (entryOf H fl now r c)" by auto
  with choice_fields [OF eq] show ?thesis by auto
qed

lemma mset_to_front: "mset (to_front i xs) = mset xs"
proof (cases "i < length xs")
  case True
  then have "mset xs = mset (take i xs @ xs ! i # drop (Suc i) xs)" by (simp only: id_take_nth_drop [symmetric])
  with True show ?thesis by (simp add: to_front_def)
qed (simp add: to_front_def)

lemma mset_ownFirst: "mset (ownFirst marked order) = mset order"
  by (auto simp: ownFirst_def mset_to_front split: option.splits)

lemma mset_shareFirst_ids:
  assumes "\<And>s. shared = Some s \<Longrightarrow> s \<in> set oks"
  shows "mset (map ch_id (shareFirst shared oks)) = mset (map ch_id oks)"
proof (cases shared)
  case (Some s)
  with assms have "mset oks = add_mset s (mset (remove1 s oks))" by simp
  then have "image_mset ch_id (mset oks) = add_mset (ch_id s) (image_mset ch_id (mset (remove1 s oks)))"
    by (metis image_mset_add_mset)
  with Some show ?thesis by (simp add: shareFirst_def)
qed (simp add: shareFirst_def)

text \<open>
  C2. The choices are the eligible candidates. A sleeping registration is offered nothing; an awake one
  is offered, each once, exactly the candidates of what it looks at (everything, or its marked task
  and the pool jobs while it reserves) that pass every filter: nothing eligible is dropped or
  repeated by the ordering, the guaranteed share or the reservation.
\<close>

theorem select_complete:
  "mset (map ch_id (select H fl cs now r)) =
     (if m_asleep H then {#}
      else mset (map c_id (filter (eligible H fl (poolOf H fl cs now r) now r) (poolOf H fl cs now r))))"
proof (cases "m_asleep H")
  case False
  let ?oks = "okEntries H fl cs now r" and ?pool = "poolOf H fl cs now r"
  let ?order = "shareFirst (sharedOf H fl now ?oks) ?oks"
  have "map ch_id (select H fl cs now r) = map ch_id (ownFirst (markedOf H cs now) ?order)"
    using False by (simp add: select_def Let_def choice.defs)
  then have "mset (map ch_id (select H fl cs now r)) = mset (map ch_id ?order)"
    by (simp add: mset_ownFirst)
  also have "\<dots> = mset (map ch_id ?oks)"
    by (rule mset_shareFirst_ids) (rule sharedOf_in)
  also have "\<dots> = mset (map c_id (filter (eligible H fl ?pool now r) ?pool))"
    by (simp add: okEntries_def Let_def entryOf_def multiset.map_comp comp_def)
  finally show ?thesis using False by simp
qed (simp add: select_def)

text \<open>What a candidate is ordered by, without its entry.\<close>

definition rank :: "member \<Rightarrow> fleet \<Rightarrow> int \<Rightarrow> rules \<Rightarrow> candidate \<Rightarrow> int \<times> int \<times> int \<times> int" where
  "rank H fl now r c =
     (c_priority c, ownerKeyOf fl c,
      - (now - c_queued_at c - (case laneFor H c r of Some l \<Rightarrow> penaltyOf l c | None \<Rightarrow> 0)), c_id c)"

lemma order_key_entryOf: "order_key (entryOf H fl now r c) = rank H fl now r c"
  by (auto simp: order_key_def entryOf_def rank_def Let_def penaltyOf_def split: option.splits)

lemma entryOf_fields [simp]:
  "e_c (entryOf H fl now r c) = c" "ch_id (entryOf H fl now r c) = c_id c"
  by (simp_all add: entryOf_def Let_def)

text \<open>
  Order of the choice. With no reservation of its own and no candidate of an architecture starved
  of native hosts, the task a registration is handed first is least, among all it could be handed, in
  the order priority, then its owner's builds leased across the fleet (round-robin by owner), then
  effective age (the wait less the lane's penalty), then id.
\<close>

theorem select_head_order:
  assumes "first_of (select H fl cs now r) = Some ch"
    and "markedOf H cs now = None" and "\<forall>c \<in> set cs. \<not> starved H fl now (c_arch c)"
  shows "\<exists>c \<in> set cs. ch_id ch = c_id c \<and> ch_share ch = False \<and>
    (\<forall>c' \<in> set (poolOf H fl cs now r). eligible H fl (poolOf H fl cs now r) now r c' \<longrightarrow>
       rank H fl now r c \<le> rank H fl now r c')"
proof -
  let ?pool = "poolOf H fl cs now r"
  let ?es = "map (entryOf H fl now r) (filter (eligible H fl ?pool now r) ?pool)"
  have "\<not> starved H fl now (c_arch (e_c x))" if "x \<in> set (okEntries H fl cs now r)" for x
    using that assms(3) by (auto simp: in_okEntries dest: in_poolOfD)
  then have none: "sharedOf H fl now (okEntries H fl cs now r) = None"
    by (auto simp: sharedOf_def filter_empty_conv)
  have "\<not> m_asleep H" using assms(1) by (auto simp: select_def)
  then have sel: "select H fl cs now r = map choice.truncate (sort_key order_key ?es)"
    using none assms(2) by (simp add: select_def Let_def shareFirst_def ownFirst_def okEntries_def)
  with assms(1) obtain x where x: "first_of (sort_key order_key ?es) = Some x" "ch = choice.truncate x"
    by (cases "sort_key order_key ?es") auto
  from first_of_sort_key [OF x(1)] obtain c where
    c: "c \<in> set ?pool" "x = entryOf H fl now r c" and
    least: "\<And>c'. c' \<in> set ?pool \<Longrightarrow> eligible H fl ?pool now r c' \<Longrightarrow> rank H fl now r c \<le> rank H fl now r c'"
    by (auto simp: order_key_entryOf)
  have "ch_share ch = False" "ch_id ch = c_id c"
    using x(2) c(2) by (simp_all add: choice.defs entryOf_def Let_def)
  with c(1) least poolOf_subset show ?thesis by blast
qed

theorem select_head_order_witness:
  "\<exists>c \<in> set [ex_build, ex_build\<lparr>c_id := 5, c_priority := 50\<rparr>]. 5 = c_id c \<and>
     rank ex_host ex_fleet 10000000 (selectionRules 4) c
       \<le> rank ex_host ex_fleet 10000000 (selectionRules 4) ex_build"
proof -
  let ?cs = "[ex_build, ex_build\<lparr>c_id := 5, c_priority := 50\<rparr>]"
  let ?sel = "select ex_host ex_fleet ?cs 10000000 (selectionRules 4)"
  have "map ch_id ?sel = [5, 7]" by code_simp
  then obtain ch where ch: "first_of ?sel = Some ch" "ch_id ch = 5" by (cases ?sel) auto
  have m: "markedOf ex_host ?cs 10000000 = None" by code_simp
  have s: "\<forall>c \<in> set ?cs. \<not> starved ex_host ex_fleet 10000000 (c_arch c)" by code_simp
  have "ex_build \<in> set (poolOf ex_host ex_fleet ?cs 10000000 (selectionRules 4))"
    "eligible ex_host ex_fleet (poolOf ex_host ex_fleet ?cs 10000000 (selectionRules 4)) 10000000
       (selectionRules 4) ex_build"
    by code_simp+
  with select_head_order [OF ch(1) m s] ch(2) show ?thesis by auto
qed

lemma first_of_nth: "first_of xs = Some x \<Longrightarrow> xs \<noteq> [] \<and> hd xs = x"
  by (cases xs) auto

text \<open>
  The guaranteed emulated share (D50). When some candidate a registration could be handed runs
  on an emulated lane whose architecture no registration alive runs natively and the registration
  holds nothing emulated of it, the first task handed (unless the host reserves for another) is
  such a candidate, marked as the share's, and the longest queued of them.
\<close>

theorem select_share_first:
  assumes "markedOf H cs now = None" "\<not> m_asleep H"
    and "c \<in> set (poolOf H fl cs now r)" "eligible H fl (poolOf H fl cs now r) now r c"
    and "c_kind c \<in> set LANE_KINDS" "map_option fst (laneFor H c r) = Some (Some Emulated)"
    and "starved H fl now (c_arch c)"
  shows "\<exists>ch. first_of (select H fl cs now r) = Some ch \<and> ch_share ch \<and> ch_lane ch = Some Emulated \<and>
    (\<exists>c' \<in> set cs. ch_id ch = c_id c' \<and> starved H fl now (c_arch c') \<and> c_queued_at c' \<le> c_queued_at c)"
proof -
  let ?oks = "okEntries H fl cs now r"
  let ?P = "\<lambda>x. ch_lane x = Some Emulated \<and> c_kind (e_c x) \<in> set LANE_KINDS \<and> starved H fl now (c_arch (e_c x))"
  let ?k = "\<lambda>x. (c_queued_at (e_c x), ch_id x)"
  let ?e = "entryOf H fl now r c"
  have lane: "ch_lane ?e = Some Emulated"
    using assms(6) by (auto simp: entryOf_def Let_def split: option.splits)
  then have e: "?e \<in> set (filter ?P ?oks)"
    using assms(3-5,7) by (auto simp: in_okEntries)
  from first_of_sort_key_ex [OF e, of ?k]
  obtain s where s: "first_of (sort_key ?k (filter ?P ?oks)) = Some s" by (elim exE)
  note sk = first_of_sort_key [OF s]
  from conjunct1 [OF sk] have sP: "s \<in> set ?oks" "?P s" by simp_all
  from bspec [OF conjunct2 [OF sk] e] have le: "?k s \<le> ?k ?e" .
  from sP(1) obtain c' where c': "c' \<in> set (poolOf H fl cs now r)" "s = entryOf H fl now r c'"
    by (auto simp: in_okEntries)
  have "first_of (select H fl cs now r) = Some (choice.truncate (s\<lparr>ch_share := True\<rparr>))"
    using assms(1,2) s by (simp add: select_def Let_def shareFirst_def ownFirst_def sharedOf_def)
  moreover have "ch_id s = c_id c'" "c_queued_at c' \<le> c_queued_at c"
    using le c'(2) by (auto simp: less_eq_prod_def)
  ultimately show ?thesis
    using sP(2) c' in_poolOfD [OF c'(1)] by (auto simp: choice.defs)
qed

theorem select_share_first_witness:
  "\<exists>ch. first_of (select ex_host ex_fleet [ex_build, ex_arm] 10000000 (selectionRules 4)) = Some ch
      \<and> ch_share ch \<and> ch_lane ch = Some Emulated"
proof -
  let ?r = "selectionRules 4" and ?cs = "[ex_build, ex_arm]"
  have "markedOf ex_host ?cs 10000000 = None" "\<not> m_asleep ex_host"
    "ex_arm \<in> set (poolOf ex_host ex_fleet ?cs 10000000 ?r)"
    "eligible ex_host ex_fleet (poolOf ex_host ex_fleet ?cs 10000000 ?r) 10000000 ?r ex_arm"
    "c_kind ex_arm \<in> set LANE_KINDS" "map_option fst (laneFor ex_host ex_arm ?r) = Some (Some Emulated)"
    "starved ex_host ex_fleet 10000000 (c_arch ex_arm)"
    by code_simp+
  from select_share_first [OF this] show ?thesis by blast
qed

lemma ownFirst_head:
  assumes "x \<in> set order" "ch_id x = c_id c"
  shows "\<exists>y. first_of (ownFirst (Some c) order) = Some y \<and> ch_id y = c_id c"
proof -
  from assms obtain i where i: "find_index (\<lambda>x. ch_id x = c_id c) order = Some i"
    using find_index_None [of "\<lambda>x. ch_id x = c_id c" order] by fastforce
  from find_index_Some [OF this] show ?thesis
    by (simp add: ownFirst_def i to_front_def)
qed

text \<open>
  Reservation. Once the task a host reserves for passes every filter (its units fit again), it
  is the first task the host is handed, whatever arrived since; while the host's free units are
  still below it, the host is handed that task and pool jobs only.
\<close>

theorem select_reserved_first:
  assumes "markedOf H cs now = Some c" "\<not> m_asleep H"
  shows "(eligible H fl (poolOf H fl cs now r) now r c \<longrightarrow>
      (\<exists>ch. first_of (select H fl cs now r) = Some ch \<and> ch_id ch = c_id c)) \<and>
    (holding H fl cs now r \<longrightarrow> (\<forall>ch \<in> set (select H fl cs now r).
      ch_id ch = c_id c \<or> (\<exists>c' \<in> set cs. ch_id ch = c_id c' \<and> c_kind c' \<notin> set TASK_KINDS)))"
proof (intro conjI impI ballI)
  from assms(1) obtain k where k: "markOf H now = Some k" "c \<in> set cs" "c_id c = mk_task k"
    by (auto simp: markedOf_def find_Some_iff split: option.splits)
  then have pool: "c \<in> set (poolOf H fl cs now r)" by (simp add: poolOf_def)
  {
    assume "eligible H fl (poolOf H fl cs now r) now r c"
    with pool assms(2) obtain ch where "ch \<in> set (select H fl cs now r)" "ch_id ch = c_id c"
      using select_eligible by blast
    moreover let ?order = "shareFirst (sharedOf H fl now (okEntries H fl cs now r)) (okEntries H fl cs now r)"
    have sel: "select H fl cs now r = map choice.truncate (ownFirst (Some c) ?order)"
      using assms by (simp add: select_def Let_def)
    ultimately obtain x where "x \<in> set ?order" "ch_id x = c_id c" by (auto simp: choice.defs)
    from ownFirst_head [OF this] obtain y where
      "first_of (ownFirst (Some c) ?order) = Some y" "ch_id y = c_id c" by blast
    then show "\<exists>ch. first_of (select H fl cs now r) = Some ch \<and> ch_id ch = c_id c"
      unfolding sel by (cases "ownFirst (Some c) ?order") (auto simp: choice.defs)
  next
    fix ch assume h: "holding H fl cs now r" and ch: "ch \<in> set (select H fl cs now r)"
    from ch obtain c' where c': "c' \<in> set (poolOf H fl cs now r)" "c' \<in> set cs"
      and eq: "ch\<lparr>ch_share := False\<rparr> = choice.truncate (entryOf H fl now r c')" by (rule selectE)
    from c' h k have "c_id c' = c_id c \<or> c_kind c' \<notin> set TASK_KINDS" by (auto simp: poolOf_def)
    with c'(2) choice_fields(1) [OF eq] show
      "ch_id ch = c_id c \<or> (\<exists>c' \<in> set cs. ch_id ch = c_id c' \<and> c_kind c' \<notin> set TASK_KINDS)" by auto
  }
qed

text \<open>A host that reserves for the build, and the same host with four of its units still taken.\<close>

definition ex_reserving :: member where
  "ex_reserving = ex_host\<lparr>m_reserving := Some \<lparr>mk_task = 7, mk_since = 9000000\<rparr>\<rparr>"

definition ex_sync :: candidate where
  "ex_sync = ex_build\<lparr>c_id := 20, c_kind := ''sync'', c_trust := ''project'', c_owner := None\<rparr>"

theorem select_reserved_first_witness:
  "(\<exists>ch. first_of (select ex_reserving ex_fleet [ex_build\<lparr>c_id := 5, c_priority := 1\<rparr>, ex_build] 10000000 (selectionRules 4))
      = Some ch \<and> ch_id ch = 7) \<and>
   list_all (\<lambda>ch. ch_id ch = 7 \<or> list_ex (\<lambda>c'. ch_id ch = c_id c' \<and> c_kind c' \<notin> set TASK_KINDS) [ex_arm, ex_build, ex_sync])
     (select ex_reserving (ex_fleet\<lparr>f_leases := [ex_held]\<rparr>) [ex_arm, ex_build, ex_sync] 10000000 (selectionRules 4))"
proof
  let ?r = "selectionRules 4" and ?cs = "[ex_build\<lparr>c_id := 5, c_priority := 1\<rparr>, ex_build]"
  have c7: "c_id ex_build = 7" by code_simp
  have "markedOf ex_reserving ?cs 10000000 = Some ex_build" "\<not> m_asleep ex_reserving"
    "eligible ex_reserving ex_fleet (poolOf ex_reserving ex_fleet ?cs 10000000 ?r) 10000000 ?r ex_build"
    by code_simp+
  with select_reserved_first c7 show
    "\<exists>ch. first_of (select ex_reserving ex_fleet ?cs 10000000 ?r) = Some ch \<and> ch_id ch = 7" by metis
  let ?fl = "ex_fleet\<lparr>f_leases := [ex_held]\<rparr>" and ?ds = "[ex_arm, ex_build, ex_sync]"
  have "markedOf ex_reserving ?ds 10000000 = Some ex_build" "\<not> m_asleep ex_reserving"
    "holding ex_reserving ?fl ?ds 10000000 ?r"
    by code_simp+
  with select_reserved_first c7 have
    "\<forall>ch \<in> set (select ex_reserving ?fl ?ds 10000000 ?r).
      ch_id ch = 7 \<or> (\<exists>c' \<in> set ?ds. ch_id ch = c_id c' \<and> c_kind c' \<notin> set TASK_KINDS)" by metis
  then show "list_all (\<lambda>ch. ch_id ch = 7 \<or> list_ex (\<lambda>c'. ch_id ch = c_id c' \<and> c_kind c' \<notin> set TASK_KINDS) ?ds)
     (select ex_reserving ?fl ?ds 10000000 ?r)" by (simp only: list_all_iff list_ex_iff)
qed

subsection \<open>Caps\<close>

lemma emulatedHeld_nonneg: "(\<And>l. l \<in> set hs \<Longrightarrow> 0 \<le> h_units l) \<Longrightarrow> 0 \<le> emulatedHeld hs"
  unfolding emulatedHeld_def by (rule sum_list_map_nonneg) auto

text \<open>
  The emulated cap (D50, work-conserving). Taking an emulated build or trial never brings what a
  host's emulated lanes hold above its cap (the share of its builds, rounded up, while a native
  task of its own waits; one build less than it has otherwise; never below one build), except that
  one task of any size starts while they hold none.
\<close>

theorem select_emulated_cap:
  assumes "ch \<in> set (select H fl cs now r)" "\<not> m_legacy H"
    and "\<forall>l \<in> set (f_leases fl). 0 \<le> h_units l"
    and "c \<in> set cs" "distinct (map c_id cs)" "c_id c = ch_id ch" "c_kind c \<in> set LANE_KINDS"
    and "ch_lane ch = Some Emulated"
  shows "emulatedHeld (heldBy fl H) + ch_units ch
     \<le> max (ch_units ch) (emulatedCap H (poolOf H fl cs now r) r)"
proof -
  note el = select_of(1) [OF assms(1,4-6)]
  note f = choice_fields [OF select_of(2) [OF assms(1,4-6)]]
  from eligibleD(4) [OF el] f(2) assms(7,8) have lane: "laneFor H c r = Some (Some Emulated, True)"
    by (auto simp: laneFor_def Let_def split: if_splits)
  have "0 \<le> emulatedHeld (heldBy fl H)"
    by (rule emulatedHeld_nonneg) (use assms(2,3) in \<open>auto simp: heldBy_def\<close>)
  with eligible_emulatedD(3) [OF el lane assms(2)] f(4) show ?thesis
    by (cases "0 < emulatedHeld (heldBy fl H)") auto
qed

theorem select_emulated_cap_witness:
  "let fl = ex_fleet\<lparr>f_leases := [ex_held\<lparr>h_arch := ''aarch64'', h_lane := Some Emulated, h_units := 2\<rparr>]\<rparr>;
       ch = hd (select ex_host fl [ex_arm] 10000000 (selectionRules 4))
   in emulatedHeld (heldBy fl ex_host) + ch_units ch
     \<le> max (ch_units ch) (emulatedCap ex_host (poolOf ex_host fl [ex_arm] 10000000 (selectionRules 4)) (selectionRules 4))"
proof -
  let ?fl = "ex_fleet\<lparr>f_leases := [ex_held\<lparr>h_arch := ''aarch64'', h_lane := Some Emulated, h_units := 2\<rparr>]\<rparr>"
  let ?ch = "hd (select ex_host ?fl [ex_arm] 10000000 (selectionRules 4))"
  have "?ch \<in> set (select ex_host ?fl [ex_arm] 10000000 (selectionRules 4))" "\<not> m_legacy ex_host"
    "\<forall>l \<in> set (f_leases ?fl). 0 \<le> h_units l" "ex_arm \<in> set [ex_arm]" "distinct (map c_id [ex_arm])"
    "c_id ex_arm = ch_id ?ch" "c_kind ex_arm \<in> set LANE_KINDS" "ch_lane ?ch = Some Emulated"
    by code_simp+
  from select_emulated_cap [OF this] show ?thesis by (simp add: Let_def)
qed

lemma ownersLeased_fold:
  "foldl (\<lambda>n l. case h_owner l of
      Some ow \<Rightarrow> if communityBuild (h_kind l) (h_trust l) \<and> ow \<noteq> [] then n(ow \<mapsto> nvl (n ow) 0 + 1) else n
    | None \<Rightarrow> n) n ls ow
   = (let k = length (filter (\<lambda>l. communityBuild (h_kind l) (h_trust l) \<and> h_owner l = Some ow \<and> ow \<noteq> []) ls)
      in if k = 0 then n ow else Some (nvl (n ow) 0 + int k))"
  by (induction ls arbitrary: n) (auto simp: Let_def split: option.splits)

lemma ownersLeased_count:
  assumes "ow \<noteq> []"
  shows "nvl (ownersLeased fl ow) 0
     = int (length (filter (\<lambda>l. communityBuild (h_kind l) (h_trust l) \<and> h_owner l = Some ow) (f_leases fl)))"
  unfolding ownersLeased_def ownersLeased_fold using assms by (auto simp: Let_def)

text \<open>
  The per-owner cap (D51). A contributor's build is handed out only while the builds of that
  contributor leased across the whole fleet, with this one, stay within the fleet's builds divided
  by the divisor, rounded up, and at least one.
\<close>

theorem select_owner_cap:
  assumes "ch \<in> set (select H fl cs now r)" "c \<in> set cs" "distinct (map c_id cs)" "c_id c = ch_id ch"
    and "communityBuild (c_kind c) (c_trust c)" "c_owner c = Some ow" "ow \<noteq> []"
    and "ownerCap fl now r = Some cap"
  shows "int (length (filter (\<lambda>l. communityBuild (h_kind l) (h_trust l) \<and> h_owner l = Some ow) (f_leases fl))) + 1
     \<le> cap"
proof -
  from eligibleD(6) [OF select_of(1) [OF assms(1-4)]] assms(5-8) have "nvl (ownersLeased fl ow) 0 < cap"
    by (simp add: ownerCapped_def ownerKeyOf_def)
  then show ?thesis by (simp add: ownersLeased_count [OF assms(7)])
qed

theorem select_owner_cap_witness:
  "let fl = ex_fleet; cs = [ex_build]
   in int (length (filter (\<lambda>l. communityBuild (h_kind l) (h_trust l) \<and> h_owner l = Some ''bob'') (f_leases fl))) + 1
     \<le> 1"
proof -
  let ?ch = "hd (select ex_host ex_fleet [ex_build] 10000000 (selectionRules 4))"
  have "?ch \<in> set (select ex_host ex_fleet [ex_build] 10000000 (selectionRules 4))"
    "ex_build \<in> set [ex_build]" "distinct (map c_id [ex_build])" "c_id ex_build = ch_id ?ch"
    "communityBuild (c_kind ex_build) (c_trust ex_build)" "c_owner ex_build = Some ''bob''" "''bob'' \<noteq> []"
    "ownerCap ex_fleet 10000000 (selectionRules 4) = Some 1"
    by code_simp+
  from select_owner_cap [OF this] show ?thesis by simp
qed

subsection \<open>Placement\<close>

text \<open>
  The second opinion (D36). While some registration with another model than the one that built
  the project's copy was seen in the last 24 hours, the audit of that copy is only handed to a
  registration that runs another model, and its lease says so.
\<close>

theorem select_second_opinion:
  assumes "ch \<in> set (select H fl cs now r)" "c \<in> set cs" "distinct (map c_id cs)" "c_id c = ch_id ch"
    and "c_kind c = ''audit''" "c_publish_bound c" "c_built_with c = Some w" "w \<noteq> []"
    and "x \<in> set (f_models fl)" "sm_at x > now - MODEL_WINDOW_MS" "sm_model x \<noteq> w"
  shows "ch_independent ch = Some ByModel \<and> m_model H \<noteq> Some w \<and> m_model H \<noteq> None"
proof -
  have "x \<in> set (filter (\<lambda>x. sm_at x > now - MODEL_WINDOW_MS \<and> Some (sm_model x) \<noteq> c_built_with c) (f_models fl))"
    using assms(7,9-11) by simp
  then have "otherModels fl c now \<noteq> []"
    using assms(7,8) by (auto simp: otherModels_def filter_empty_conv)
  then have "anotherModel H c"
    using eligibleD(3) [OF select_of(1) [OF assms(1-4)]] assms(5,6) by (simp add: needsOtherModel_def)
  then show ?thesis
    using choice_fields(6) [OF select_of(2) [OF assms(1-4)]] assms(5,7)
    by (auto simp: independenceOf_def anotherModel_def truthy_iff)
qed

theorem select_second_opinion_witness:
  "let fl = ex_fleet\<lparr>f_models := [\<lparr>sm_id = ''h1'', sm_model = ''a/one'', sm_at = 9000000\<rparr>]\<rparr>;
       ch = hd (select ex_host fl [ex_audit] 10000000 (selectionRules 4))
   in ch_independent ch = Some ByModel"
proof -
  let ?x = "\<lparr>sm_id = ''h1'', sm_model = ''a/one'', sm_at = 9000000\<rparr>"
  let ?fl = "ex_fleet\<lparr>f_models := [?x]\<rparr>"
  let ?ch = "hd (select ex_host ?fl [ex_audit] 10000000 (selectionRules 4))"
  have "?ch \<in> set (select ex_host ?fl [ex_audit] 10000000 (selectionRules 4))"
    "ex_audit \<in> set [ex_audit]" "distinct (map c_id [ex_audit])" "c_id ex_audit = ch_id ?ch"
    "c_kind ex_audit = ''audit''" "c_publish_bound ex_audit" "c_built_with ex_audit = Some ''b/two''"
    "''b/two'' \<noteq> []" "?x \<in> set (f_models ?fl)" "sm_at ?x > 10000000 - MODEL_WINDOW_MS" "sm_model ?x \<noteq> ''b/two''"
    by code_simp+
  from select_second_opinion [OF this] show ?thesis by (simp add: Let_def)
qed

lemma held_units_nonneg:
  assumes "\<forall>l \<in> set hs. 0 \<le> h_units l"
  shows "0 \<le> taskUnits hs" "0 \<le> jobUnits hs"
  unfolding taskUnits_def jobUnits_def using assms by (auto intro!: sum_list_map_nonneg)

lemma buildBudgets_nonneg: "\<forall>l \<in> set hs. 0 \<le> h_disk_gb l \<Longrightarrow> 0 \<le> buildBudgets hs"
  unfolding buildBudgets_def by (rule sum_list_map_nonneg) auto

lemma noRoom_idle:
  assumes "noRoom m hs c units disk r = None"
    and "\<forall>l \<in> set hs. 0 \<le> h_units l \<and> 0 \<le> h_disk_gb l" and that: "0 \<le> buildBudgets hs'"
  shows "noRoom (idleMember m hs') [] c units disk r = None"
proof (cases "m_legacy m")
  case True
  with assms(1) show ?thesis by (simp add: noRoom_def idleMember_def)
next
  case False
  have nn: "0 \<le> taskUnits hs" "0 \<le> jobUnits hs" "0 \<le> buildBudgets hs"
    using assms(2) by (auto intro: held_units_nonneg buildBudgets_nonneg)
  have e: "taskUnits [] = 0" "jobUnits [] = 0" "buildBudgets [] = 0"
    by (simp_all add: taskUnits_def jobUnits_def buildBudgets_def)
  show ?thesis
    using assms(1) False nn that
    by (auto simp: noRoom_def idleMember_def roomOf_def e idleDisk_def min_def split: if_splits option.splits)
qed

lemma takes_idle: "takes m c \<Longrightarrow> takes (idleMember m hs) c"
  by (auto simp: takes_def idleMember_def split: if_splits)

text \<open>
  C27. The placement's estimate covers the claim. Whatever a host that claims (alive, active, above the
  minimum, not drained, behind or asleep) is handed now, \<open>mayRun\<close> says it can run: the estimate the
  requester-host rule and the pins rest on never rules out a host that takes the task.
\<close>

theorem select_mayRun:
  assumes "ch \<in> set (select H fl cs now r)" "c \<in> set cs" "distinct (map c_id cs)" "c_id c = ch_id ch"
    and "counts H now" "\<not> m_drained H" "\<not> m_behind H"
    and "\<forall>l \<in> set (f_leases fl). 0 \<le> h_units l \<and> 0 \<le> h_disk_gb l"
  shows "mayRun H c now r (largestSize fl now r) (heldBy fl H)"
proof -
  note el = select_of(1) [OF assms(1-4)]
  from eligibleD(4) [OF el] obtain md bl where lane: "laneFor H c r = Some (md, bl)" by blast
  have emu: "\<not> (bl \<and> md = Some Emulated \<and> emulationRefuses H c)"
    using eligible_emulatedD(1) [OF el] lane by auto
  have hs: "\<forall>l \<in> set (heldBy fl H). 0 \<le> h_units l \<and> 0 \<le> h_disk_gb l"
    using assms(8) by (auto simp: heldBy_def)
  have room: "noRoom (idleMember H (heldBy fl H)) [] c (unitsIn c (largestSize fl now r) r)
      (diskOf c (sizeIn c (largestSize fl now r) r) r) r = None"
    by (rule noRoom_idle [OF eligibleD(5) [OF el] hs]) (use hs in \<open>auto intro: buildBudgets_nonneg\<close>)
  show ?thesis
    using assms(5-7) takes_idle [OF eligibleD(1) [OF el]] lane emu room
    by (simp add: mayRun_def Let_def counts_def unitsIn_def)
qed

theorem select_mayRun_witness:
  "mayRun ex_host ex_build 10000000 (selectionRules 4) (largestSize ex_fleet 10000000 (selectionRules 4))
     (heldBy ex_fleet ex_host)"
proof -
  let ?ch = "hd (select ex_host ex_fleet [ex_build] 10000000 (selectionRules 4))"
  have "?ch \<in> set (select ex_host ex_fleet [ex_build] 10000000 (selectionRules 4))"
    "ex_build \<in> set [ex_build]" "distinct (map c_id [ex_build])" "c_id ex_build = ch_id ?ch"
    "counts ex_host 10000000" "\<not> m_drained ex_host" "\<not> m_behind ex_host"
    "\<forall>l \<in> set (f_leases ex_fleet). 0 \<le> h_units l \<and> 0 \<le> h_disk_gb l"
    by code_simp+
  then show ?thesis by (rule select_mayRun)
qed

lemma in_runners:
  "(m, ow) \<in> set (runners fl c now r) \<longleftrightarrow>
     projectCopy c \<and> m \<in> set (f_members fl) \<and> m_owner m = Some ow \<and>
     mayRun m c now r (largestSize fl now r) (heldBy fl m)"
  by (auto simp: runners_def List.map_filter_def image_iff split: option.splits if_splits)

text \<open>
  When the project's copy waits for a release (D35). The placement holds a copy back exactly when
  some registration of a known owner could run it and the requester-host rule keeps every one of
  them off it: with another maintainer's host, the named solo maintainer's host or a release it is
  never held, and a copy nobody can run now is not held either.
\<close>

theorem placement_held_iff:
  "p_held (placementOf fl c now r) \<longleftrightarrow>
     runners fl c now r \<noteq> [] \<and> (\<forall>(m, ow) \<in> set (runners fl c now r). requesterHost m c)"
proof (cases "projectCopy c \<and> \<not> truthy (c_any_host c)")
  case False
  show ?thesis
  proof (cases "runners fl c now r")
    case (Cons p ps)
    then obtain m ow where "(m, ow) \<in> set (runners fl c now r)" by (cases p) auto
    then have "\<not> (\<forall>(m, ow) \<in> set (runners fl c now r). requesterHost m c)"
      using False by (auto simp: requesterHost_def)
    moreover have "\<not> p_held (placementOf fl c now r)" using False by (simp add: placementOf_def Let_def)
    ultimately show ?thesis by blast
  qed (simp add: placementOf_def Let_def)
next
  case True
  let ?rs = "runners fl c now r"
  have rh: "requesterHost m c \<longleftrightarrow> ow \<in> set (c_requesters c) \<and> Some ow \<noteq> exemptOf c"
    if "(m, ow) \<in> set ?rs" for m ow
    using that True by (auto simp: in_runners requesterHost_def exemptOf_def split: option.splits if_splits)
  have "p_held (placementOf fl c now r) \<longleftrightarrow>
      (\<forall>x \<in> set ?rs. snd x \<in> set (c_requesters c)) \<and> (\<forall>x \<in> set ?rs. Some (snd x) \<noteq> exemptOf c) \<and>
      (\<exists>x \<in> set ?rs. snd x \<in> set (c_requesters c))"
    using True by (auto simp: placementOf_def Let_def filter_empty_conv)
  also have "\<dots> \<longleftrightarrow> ?rs \<noteq> [] \<and> (\<forall>(m, ow) \<in> set ?rs. requesterHost m c)"
  proof -
    have "(\<forall>(m, ow) \<in> set ?rs. requesterHost m c)
        \<longleftrightarrow> (\<forall>x \<in> set ?rs. snd x \<in> set (c_requesters c) \<and> Some (snd x) \<noteq> exemptOf c)"
      by (rule ball_cong [OF refl]) (use rh in \<open>auto simp: split_beta\<close>)
    then show ?thesis by (cases ?rs) auto
  qed
  finally show ?thesis .
qed

theorem placement_held_iff_witness:
  "p_held (placementOf ex_fleet ex_copy 10000000 (selectionRules 4))
   \<and> \<not> p_held (placementOf ex_fleet (ex_copy\<lparr>c_solo := Some ''ann''\<rparr>) 10000000 (selectionRules 4))"
proof -
  have "runners ex_fleet ex_copy 10000000 (selectionRules 4) \<noteq> []
      \<and> (\<forall>(m, ow) \<in> set (runners ex_fleet ex_copy 10000000 (selectionRules 4)). requesterHost m ex_copy)"
    "\<not> (\<forall>(m, ow) \<in> set (runners ex_fleet (ex_copy\<lparr>c_solo := Some ''ann''\<rparr>) 10000000 (selectionRules 4)).
          requesterHost m (ex_copy\<lparr>c_solo := Some ''ann''\<rparr>))"
    by code_simp+
  then show ?thesis by (simp only: placement_held_iff) blast
qed

lemma poolOf_single: "\<not> markedElsewhere x c now \<Longrightarrow> c \<in> set (poolOf x fl [c] now r)"
  by (auto simp: poolOf_def markedElsewhere_def markOf_def holding_def markedOf_def
      split: option.splits if_splits)

text \<open>
  An emulated lane waits only for a host that would take the task. When the wait for native
  capacity holds a build or a trial back and its owner is not at their cap, another registration
  of the fleet with a native lane of its architecture is offered that very task at its own claim.
\<close>

theorem nativeCapacity_sound:
  assumes "nativeCapacity fl c now r except" "c_kind c \<in> set LANE_KINDS" "\<not> ownerCapped fl c now r"
  shows "\<exists>x \<in> set (f_members fl). m_id x \<noteq> except \<and>
    (\<exists>ch \<in> set (select x fl [c] now r). ch_id ch = c_id c \<and> ch_lane ch = Some Native)"
proof -
  from assms(1) obtain x where x: "x \<in> set (f_members fl)" "m_id x \<noteq> except" "counts x now"
    "list_ex (\<lambda>l. l_arch l = c_arch c \<and> l_mode l = Native) (m_lanes x)" "takes x c" "\<not> requesterHost x c"
    "\<not> markedElsewhere x c now"
    and room: "noRoom x (heldBy fl x) c (unitsIn c (largestSize fl now r) r)
       (diskOf c (sizeIn c (largestSize fl now r) r) r) r = None"
    by (auto simp: nativeCapacity_def Let_def list_ex_iff unitsIn_def)
  have lane: "laneFor x c r = Some (Some Native, True)"
    using x(4) assms(2) by (auto simp: laneFor_def Let_def list_ex_iff)
  have na: "c_kind c \<noteq> ''audit''" using assms(2) by (auto simp: kind_lists)
  have el: "eligible x fl pool now r c" for pool
    using x(5,6) room lane assms(3) na by (simp add: eligible_def Let_def unitsIn_def)
  have pool: "c \<in> set (poolOf x fl [c] now r)"
    by (rule poolOf_single [OF x(7)])
  have awake: "\<not> m_asleep x" using x(3) by (simp add: counts_def)
  from select_eligible [OF awake pool el]
  obtain ch where ch: "ch \<in> set (select x fl [c] now r)" "ch_id ch = c_id c" by (elim bexE conjE)
  have "ch\<lparr>ch_share := False\<rparr> = choice.truncate (entryOf x fl now r c)"
    by (rule select_of(2) [OF ch(1)]) (simp_all add: ch(2))
  from choice_fields(2) [OF this] lane have "ch_lane ch = Some Native" by simp
  with ch(2) have "ch_id ch = c_id c \<and> ch_lane ch = Some Native" by simp
  then have "\<exists>ch \<in> set (select x fl [c] now r). ch_id ch = c_id c \<and> ch_lane ch = Some Native"
    using ch(1) by (rule bexI)
  with x(2) have "m_id x \<noteq> except \<and> (\<exists>ch \<in> set (select x fl [c] now r). ch_id ch = c_id c \<and> ch_lane ch = Some Native)" ..
  then show ?thesis using x(1) by (rule bexI)
qed

theorem nativeCapacity_sound_witness:
  "\<exists>x \<in> set (f_members ex_fleet). m_id x \<noteq> ''h9'' \<and>
    (\<exists>ch \<in> set (select x ex_fleet [ex_build] 10000000 (selectionRules 4)). ch_id ch = c_id ex_build \<and> ch_lane ch = Some Native)"
proof -
  have "nativeCapacity ex_fleet ex_build 10000000 (selectionRules 4) ''h9''" "c_kind ex_build \<in> set LANE_KINDS"
    "\<not> ownerCapped ex_fleet ex_build 10000000 (selectionRules 4)"
    by code_simp+
  then show ?thesis by (rule nativeCapacity_sound)
qed

subsection \<open>Reservation\<close>

lemma reserveLoop_Some:
  assumes "reserveLoop fl now r oldest = Some (h, t)"
  shows "\<exists>c \<in> set oldest. \<exists>m \<in> set (couldOnceIdle fl now r c). t = c_id c \<and> h = m_id m \<and>
    \<not> reserveSkips fl now r c \<and>
    (\<forall>m' \<in> set (couldOnceIdle fl now r c). fst (roomOf m' (heldBy fl m') r) \<le> fst (roomOf m (heldBy fl m) r)) \<and>
    (\<forall>m' \<in> set (claimingMembers fl now). select m' fl [c] now r = [])"
  using assms
proof (induction oldest)
  case (Cons c rest)
  show ?case
  proof (cases "reserveSkips fl now r c \<or> couldOnceIdle fl now r c = []")
    case True
    then have "reserveLoop fl now r rest = Some (h, t)" using Cons.prems by (auto simp: Let_def split: if_splits)
    from Cons.IH [OF this] show ?thesis by (rule bexE) (rule bexI, assumption, simp)
  next
    case False
    let ?f = "\<lambda>m. (- fst (roomOf m (heldBy fl m) r), m_id m)"
    from False Cons.prems have none: "\<forall>m' \<in> set (claimingMembers fl now). select m' fl [c] now r = []"
      and "map_option (\<lambda>best. (m_id best, c_id c)) (first_of (sort_key ?f (couldOnceIdle fl now r c))) = Some (h, t)"
      by (auto simp: Let_def list_ex_iff split: if_splits)
    then obtain m where m: "first_of (sort_key ?f (couldOnceIdle fl now r c)) = Some m" "h = m_id m" "t = c_id c"
      by auto
    note sk = first_of_sort_key [OF m(1)]
    have "fst (roomOf m' (heldBy fl m') r) \<le> fst (roomOf m (heldBy fl m) r)"
      if "m' \<in> set (couldOnceIdle fl now r c)" for m'
      using bspec [OF conjunct2 [OF sk] that] by (auto simp: less_eq_prod_def)
    then have "t = c_id c \<and> h = m_id m \<and> \<not> reserveSkips fl now r c \<and>
      (\<forall>m' \<in> set (couldOnceIdle fl now r c). fst (roomOf m' (heldBy fl m') r) \<le> fst (roomOf m (heldBy fl m) r)) \<and>
      (\<forall>m' \<in> set (claimingMembers fl now). select m' fl [c] now r = [])"
      using m(2,3) none False by blast
    with conjunct1 [OF sk] show ?thesis by (intro bexI [of _ c] bexI [of _ m]) simp_all
  qed
qed simp

text \<open>
  A reservation is set only where it helps, one at a time. When a mark is set, no mark of the fleet
  still stands; its task is a queued build larger than one build that waited over 30 minutes and
  whose last window has cooled; its host is a host that claims now and would be handed the task
  once it held nothing; and no registration could be handed it as things stand.
\<close>

theorem reserve_set_sound:
  assumes "reserve fl oldest queued now r = (Some (h, t), cl)"
  shows "\<not> keptMark fl queued now \<and>
    (\<exists>c \<in> set oldest. t = c_id c \<and> c_kind c = ''build'' \<and> now - c_queued_at c > RESERVE_AFTER_MS
       \<and> \<not> cooling (c_reserved_at c) now \<and> unitsIn c (largestSize fl now r) r > r_build_per_size r
       \<and> (\<exists>m \<in> set (f_members fl). h = m_id m \<and> counts m now \<and> \<not> m_drained m \<and> \<not> m_behind m \<and> \<not> m_legacy m)
       \<and> (\<forall>m' \<in> set (claimingMembers fl now). select m' fl [c] now r = []))"
proof -
  from assms have kept: "\<not> keptMark fl queued now" and loop: "reserveLoop fl now r oldest = Some (h, t)"
    by (auto simp: reserve_def split: if_splits)
  from loop obtain c m where cm: "c \<in> set oldest" "t = c_id c" "h = m_id m" "\<not> reserveSkips fl now r c"
    "m \<in> set (couldOnceIdle fl now r c)" "\<forall>m' \<in> set (claimingMembers fl now). select m' fl [c] now r = []"
    using reserveLoop_Some by blast
  from cm(5) have "\<exists>m0 \<in> set (f_members fl). h = m_id m0 \<and> counts m0 now \<and> \<not> m_drained m0 \<and> \<not> m_behind m0 \<and> \<not> m_legacy m0"
    by (auto simp: couldOnceIdle_def claimingMembers_def cm(3))
  with kept cm show ?thesis by (auto simp: reserveSkips_def not_le)
qed

theorem reserve_set_sound_witness:
  "let fl = ex_fleet\<lparr>f_leases := [ex_held]\<rparr>
   in \<exists>c \<in> set [ex_build]. 7 = c_id c \<and> list_all (\<lambda>m'. select m' fl [c] 10000000 (selectionRules 4) = []) (claimingMembers fl 10000000)"
proof -
  have "reserve (ex_fleet\<lparr>f_leases := [ex_held]\<rparr>) [ex_build] (\<lambda>_. True) 10000000 (selectionRules 4) = (Some (''h1'', 7), [])"
    by code_simp
  from reserve_set_sound [OF this] show ?thesis unfolding Let_def list_all_iff by blast
qed

end
