(* ===== verification/Pool_Text.thy ===== *)
theory Pool_Text
  imports Pool_Prelude
begin

text \<open>
  The texts the Worker reads and writes: strings cut, trimmed and split as JavaScript does, decimal
  numbers, timestamps as \<^verbatim>\<open>Date.parse\<close> reads them, and the JSON values a request or a report
  carries. A string is a list of characters of code below 256; a length counts them.
\<close>

subsection \<open>Strings\<close>

text \<open>What \<^verbatim>\<open>trim\<close> and \<^verbatim>\<open>\s\<close> take off: tab, line feed, vertical tab, form feed, carriage
  return, space and the no-break space.\<close>

definition is_space :: "char \<Rightarrow> bool" where
  "is_space c \<longleftrightarrow> (of_char c :: int) \<in> {9, 10, 11, 12, 13, 32, 160}"

definition trim :: "string \<Rightarrow> string" where
  "trim s = rev (dropWhile is_space (rev (dropWhile is_space s)))"

fun split_on :: "char \<Rightarrow> string \<Rightarrow> string list" where
  "split_on c [] = [[]]"
| "split_on c (x # xs) =
     (if x = c then [] # split_on c xs
      else (case split_on c xs of [] \<Rightarrow> [[x]] | y # ys \<Rightarrow> (x # y) # ys))"

fun join_with :: "string \<Rightarrow> string list \<Rightarrow> string" where
  "join_with sep [] = []"
| "join_with sep [x] = x"
| "join_with sep (x # y # zs) = x @ sep @ join_with sep (y # zs)"

definition starts_with :: "string \<Rightarrow> string \<Rightarrow> bool" where
  "starts_with p s \<longleftrightarrow> take (length p) s = p"

definition ends_with :: "string \<Rightarrow> string \<Rightarrow> bool" where
  "ends_with p s \<longleftrightarrow> length p \<le> length s \<and> drop (length s - length p) s = p"

text \<open>\<^verbatim>\<open>s.replace(p, "")\<close>: the first occurrence of a text taken out.\<close>

fun remove_first :: "string \<Rightarrow> string \<Rightarrow> string" where
  "remove_first p [] = []"
| "remove_first p (c # cs) = (if starts_with p (c # cs) then drop (length p) (c # cs) else c # remove_first p cs)"

definition is_digit :: "char \<Rightarrow> bool" where
  "is_digit c \<longleftrightarrow> c \<in> set ''0123456789''"

definition is_lower :: "char \<Rightarrow> bool" where
  "is_lower c \<longleftrightarrow> c \<in> set ''abcdefghijklmnopqrstuvwxyz''"

definition is_upper :: "char \<Rightarrow> bool" where
  "is_upper c \<longleftrightarrow> c \<in> set ''ABCDEFGHIJKLMNOPQRSTUVWXYZ''"

definition to_lower :: "char \<Rightarrow> char" where
  "to_lower c = (if is_upper c then char_of (of_char c + 32 :: nat) else c)"

definition is_hex :: "char \<Rightarrow> bool" where
  "is_hex c \<longleftrightarrow> c \<in> set ''0123456789abcdef''"

text \<open>A control character: below 32, or DEL (\<^verbatim>\<open>[\x00-\x1f\x7f]\<close>).\<close>

definition is_control :: "char \<Rightarrow> bool" where
  "is_control c \<longleftrightarrow> (of_char c :: int) < 32 \<or> (of_char c :: int) = 127"

text \<open>One or more digits (\<^verbatim>\<open>\d+\<close>), and the number they write.\<close>

definition digits_word :: "string \<Rightarrow> bool" where
  "digits_word s \<longleftrightarrow> s \<noteq> [] \<and> list_all is_digit s"

definition number_of_digits :: "string \<Rightarrow> int" where
  "number_of_digits s = foldl (\<lambda>n c. 10 * n + (of_char c - 48)) 0 s"

text \<open>A whole number as JavaScript writes it.\<close>

definition digit_char :: "nat \<Rightarrow> char" where
  "digit_char n = ''0123456789'' ! n"

fun show_nat :: "nat \<Rightarrow> string" where
  "show_nat n = (if n < 10 then [digit_char n] else show_nat (n div 10) @ [digit_char (n mod 10)])"

declare show_nat.simps [simp del]

lemma split_on_ne [simp]: "split_on c s \<noteq> []"
  by (induction s) (auto split: list.splits)

lemma split_on_no_sep: "c \<notin> set s \<Longrightarrow> split_on c s = [s]"
  by (induction s) auto

lemma split_on_append: "c \<notin> set s \<Longrightarrow> split_on c (s @ c # t) = s # split_on c t"
  by (induction s) (auto split: list.splits)

lemma split_on_pieces: "x \<in> set (split_on c s) \<Longrightarrow> c \<notin> set x"
  by (induction s arbitrary: x) (auto split: list.splits if_splits)

lemma join_split: "join_with [c] (split_on c s) = s"
proof (induction s)
  case (Cons x xs)
  show ?case
  proof (cases "split_on c xs")
    case (Cons y ys)
    then show ?thesis using Cons.IH \<open>join_with [c] (split_on c xs) = xs\<close> by (cases ys) auto
  qed simp
qed simp

lemma digit_chars:
  assumes "n < 10"
  shows "is_digit (digit_char n)" "of_char (digit_char n) = (48 + int n)"
proof -
  show "is_digit (digit_char n)"
    unfolding is_digit_def digit_char_def by (rule nth_mem) (use assms in simp)
  from assms have "n \<in> {0, 1, 2, 3, 4, 5, 6, 7, 8, 9}" by auto
  then show "of_char (digit_char n) = (48 + int n)"
    by (elim insertE emptyE) (simp_all add: digit_char_def)
qed

lemma show_nat_digits: "digits_word (show_nat n)"
proof (induction n rule: show_nat.induct)
  case (1 n)
  then show ?case
    by (subst show_nat.simps) (auto simp: digits_word_def intro: digit_chars)
qed

lemma number_show_nat [simp]: "number_of_digits (show_nat n) = int n"
proof (induction n rule: show_nat.induct)
  case (1 n)
  show ?case
  proof (cases "n < 10")
    case True
    then show ?thesis by (subst show_nat.simps) (simp add: number_of_digits_def digit_chars)
  next
    case False
    then have "number_of_digits (show_nat n) = 10 * number_of_digits (show_nat (n div 10)) + int (n mod 10)"
      by (subst show_nat.simps) (simp add: number_of_digits_def digit_chars)
    also have "\<dots> = int n" using 1 False by (simp add: zmod_int zdiv_int)
    finally show ?thesis .
  qed
qed

lemma digit_not_space: "is_digit c \<Longrightarrow> \<not> is_space c"
  by (auto simp: is_digit_def is_space_def)

lemma digit_not_dot: "is_digit c \<Longrightarrow> c \<noteq> CHR ''.'' \<and> c \<noteq> CHR ''v''"
  by (auto simp: is_digit_def)

lemma trim_id:
  assumes "s \<noteq> [] \<Longrightarrow> \<not> is_space (hd s) \<and> \<not> is_space (last s)"
  shows "trim s = s"
proof (cases s)
  case (Cons x xs)
  with assms have "dropWhile is_space s = s" by simp
  moreover have "dropWhile is_space (rev s) = rev s"
    using assms Cons by (cases "rev s" rule: list.exhaust) (auto simp: hd_rev [symmetric])
  ultimately show ?thesis by (simp add: trim_def)
qed (simp add: trim_def)

lemma trim_hd:
  assumes "trim s \<noteq> []"
  shows "\<not> is_space (hd (trim s))"
proof -
  define r where "r = dropWhile is_space s"
  then have "r \<noteq> []" using assms unfolding trim_def by (metis dropWhile.simps(1) rev.simps(1))
  then have first: "\<not> is_space (hd r)" using r_def hd_dropWhile by blast
  obtain t where t: "rev r = t @ dropWhile is_space (rev r)"
    using takeWhile_dropWhile_id [of is_space "rev r"] by metis
  then have "r = trim s @ rev t" unfolding trim_def r_def [symmetric] by (metis rev_append rev_rev_ident)
  then have "hd r = hd (trim s)" using assms by (metis hd_append2)
  with first show ?thesis by simp
qed

lemma trim_ne: "s \<noteq> [] \<Longrightarrow> \<not> is_space (hd s) \<Longrightarrow> trim s \<noteq> []"
  by (cases s) (auto simp: trim_def)

lemma length_trim: "length (trim s) \<le> length s"
  by (metis length_dropWhile_le length_rev order_trans trim_def)

text \<open>A trimmed text cut short is still a text once trimmed, of at most the length of the cut.\<close>

lemma trim_cut:
  assumes "trim s \<noteq> []" "0 < n"
  shows "trim (take n (trim s)) \<noteq> []" "take n (trim (take n (trim s))) = trim (take n (trim s))"
proof -
  have "hd (take n (trim s)) = hd (trim s)" using assms by (simp add: hd_take)
  then show "trim (take n (trim s)) \<noteq> []" using trim_hd [OF assms(1)] assms by (intro trim_ne) auto
  show "take n (trim (take n (trim s))) = trim (take n (trim s))"
    using length_trim [of "take n (trim s)"] by simp
qed

subsection \<open>Timestamps\<close>

text \<open>
  A timestamp's text as the Worker uses it: what \<^verbatim>\<open>Date.parse\<close> makes of it, a time in milliseconds or
  \<^verbatim>\<open>NaN\<close>. A time the Worker writes itself (\<^verbatim>\<open>toISOString\<close>) reads back as that time.
\<close>

datatype stamp = Stamp int | Unreadable

fun date_parse :: "stamp \<Rightarrow> int option" where
  "date_parse (Stamp t) = Some t"
| "date_parse Unreadable = None"

subsection \<open>JSON\<close>

text \<open>A parsed JSON value. \<open>JInf\<close> is a numeral past the range of a double, which
  \<^verbatim>\<open>JSON.parse\<close> reads as an infinity.\<close>

datatype json =
    JNull
  | JBool bool
  | JNum rat
  | JInf
  | JStr string
  | JArr "json list"
  | JObj "(string \<times> json) list"

text \<open>\<open>o[k]\<close> of a value: a field of an object that is no array, or undefined.\<close>

definition jfield :: "json option \<Rightarrow> string \<Rightarrow> json option" where
  "jfield v k = (case v of Some (JObj kvs) \<Rightarrow> map_of kvs k | _ \<Rightarrow> None)"

definition jstr :: "json option \<Rightarrow> string option" where
  "jstr v = (case v of Some (JStr s) \<Rightarrow> Some s | _ \<Rightarrow> None)"

definition jbool :: "json option \<Rightarrow> bool option" where
  "jbool v = (case v of Some (JBool b) \<Rightarrow> Some b | _ \<Rightarrow> None)"

definition jarr :: "json option \<Rightarrow> json list option" where
  "jarr v = (case v of Some (JArr xs) \<Rightarrow> Some xs | _ \<Rightarrow> None)"

text \<open>A finite number within bounds, and a whole one (hosts.ts \<open>num\<close>, \<open>int\<close>).\<close>

definition jnum_in :: "json option \<Rightarrow> rat \<Rightarrow> rat \<Rightarrow> rat option" where
  "jnum_in v lo hi = (case v of Some (JNum n) \<Rightarrow> if lo \<le> n \<and> n \<le> hi then Some n else None | _ \<Rightarrow> None)"

definition jint_in :: "json option \<Rightarrow> rat \<Rightarrow> rat \<Rightarrow> int option" where
  "jint_in v lo hi = (case jnum_in v lo hi of
     Some n \<Rightarrow> if of_int \<lfloor>n\<rfloor> = n then Some \<lfloor>n\<rfloor> else None
   | None \<Rightarrow> None)"

lemma jnum_in_bounds: "jnum_in v lo hi = Some n \<Longrightarrow> lo \<le> n \<and> n \<le> hi"
  by (auto simp: jnum_in_def split: option.splits json.splits if_splits)

lemma jint_in_bounds:
  assumes "jint_in v lo hi = Some k"
  shows "lo \<le> of_int k \<and> of_int k \<le> hi"
  using assms by (auto simp: jint_in_def dest: jnum_in_bounds split: option.splits if_splits)

end
