(* ===== verification/Release_Gate.thy ===== *)
theory Release_Gate
  imports Pool_Text
begin

text \<open>
  The release gate (worker/src/update.ts): release tags and their order, the releases the signed
  manifest retires, and whether a registration behind the pool's release may still claim: within
  the rollout's grace, on its host's last-good release after a revert, or through its owner's soak.
  The theorems bound every one of these: a revoked release is always refused, nothing outlives its
  window, and the words shown agree with the decision.
\<close>

subsection \<open>Release tags\<close>

type_synonym tag = "int \<times> int \<times> int"

definition UPDATE_GRACE_MINUTES :: int where "UPDATE_GRACE_MINUTES = 45"

text \<open>The three numbers of \<^verbatim>\<open>^v?(\d+)\.(\d+)\.(\d+)$\<close>, once trimmed.\<close>

definition tag_numbers :: "string \<Rightarrow> tag option" where
  "tag_numbers s = (case split_on (CHR ''.'') s of
     [a, b, c] \<Rightarrow> if digits_word a \<and> digits_word b \<and> digits_word c
       then Some (number_of_digits a, number_of_digits b, number_of_digits c) else None
   | _ \<Rightarrow> None)"

definition drop_v :: "string \<Rightarrow> string" where
  "drop_v s = (case s of (CHR ''v'') # t \<Rightarrow> t | _ \<Rightarrow> s)"

definition parseTag :: "string option \<Rightarrow> tag option" where
  "parseTag v = tag_numbers (drop_v (trim (nvl v [])))"

fun compareTags :: "tag \<Rightarrow> tag \<Rightarrow> int" where
  "compareTags (a1, a2, a3) (b1, b2, b3) =
     (if a1 \<noteq> b1 then if a1 < b1 then -1 else 1
      else if a2 \<noteq> b2 then if a2 < b2 then -1 else 1
      else if a3 \<noteq> b3 then if a3 < b3 then -1 else 1
      else 0)"

record release_policy =
  pol_min_release :: string
  pol_revoked :: "string list"

definition RELEASE_POLICY :: release_policy where
  "RELEASE_POLICY = \<lparr>pol_min_release = ''v1.0.0'', pol_revoked = []\<rparr>"

definition isRevoked :: "string option \<Rightarrow> release_policy \<Rightarrow> bool" where
  "isRevoked v policy = (case parseTag v of
     None \<Rightarrow> False
   | Some t \<Rightarrow> list_ex (\<lambda>r. case parseTag (Some r) of None \<Rightarrow> False | Some x \<Rightarrow> compareTags x t = 0)
       (pol_revoked policy))"

subsection \<open>A host that reverted the pool's release\<close>

definition LAST_GOOD_HOURS :: int where "LAST_GOOD_HOURS = 6"

record reverted =
  rv_from :: string
  rv_at :: "stamp option"
  rv_applied :: "string option"

definition lastGoodUntil ::
  "reverted option \<Rightarrow> string option \<Rightarrow> string \<Rightarrow> int \<Rightarrow> release_policy \<Rightarrow> stamp option" where
  "lastGoodUntil rv yours latest now policy = (case rv of
     None \<Rightarrow> None
   | Some r \<Rightarrow>
     (case (parseTag (Some (rv_from r)), parseTag (Some latest), parseTag yours, parseTag (rv_applied r)) of
        (Some from, Some p, Some w, Some applied) \<Rightarrow>
          if compareTags from p \<noteq> 0 then None
          else if compareTags w applied \<noteq> 0 \<or> compareTags w p \<ge> 0 then None
          else if (case parseTag (Some (pol_min_release policy)) of
                     Some mn \<Rightarrow> compareTags w mn < 0 | None \<Rightarrow> False) \<or> isRevoked yours policy then None
          else (case Option.bind (rv_at r) date_parse of
                  None \<Rightarrow> None
                | Some since \<Rightarrow>
                    let fin = since + LAST_GOOD_HOURS * 3600000
                    in if now < fin then Some (Stamp fin) else None)
      | _ \<Rightarrow> None))"

text \<open>A tag as a report must write it: \<^verbatim>\<open>^v\d+\.\d+\.\d+$\<close>.\<close>

definition vtag :: "json option \<Rightarrow> string option" where
  "vtag v = (case jstr v of
     Some s \<Rightarrow> (case s of (CHR ''v'') # t \<Rightarrow> if tag_numbers t \<noteq> None then Some s else None | _ \<Rightarrow> None)
   | None \<Rightarrow> None)"

text \<open>The release a host reverted and since when, after one more of its reports.\<close>

definition revertAfter ::
  "(string option \<times> stamp option) \<Rightarrow> json \<Rightarrow> stamp \<Rightarrow> (string option \<times> stamp option)" where
  "revertAfter prev report now =
     (let rep = Some report;
          round = jfield rep ''round'';
          from0 = (if jfield round ''outcome'' = Some (JStr ''rolled-back'') then vtag (jfield round ''from'') else None);
          from = (if from0 = None \<and> truthy (fst prev) then
             (case parseTag (fst prev) of
                None \<Rightarrow> from0
              | Some was \<Rightarrow>
                let held = (case jarr (jfield rep ''quarantine'') of
                      None \<Rightarrow> False
                    | Some qs \<Rightarrow> list_ex (\<lambda>q. jfield (Some q) ''release'' = map_option JStr (fst prev)) (take 16 qs));
                    again = jfield (jfield rep ''rollout'') ''target'' = map_option JStr (fst prev);
                    applied = Option.bind (vtag (jfield (jfield rep ''release'') ''applied'')) (\<lambda>s. parseTag (Some s))
                in if (held \<or> again) \<and> \<not> (case applied of Some a \<Rightarrow> compareTags a was \<ge> 0 | None \<Rightarrow> False)
                   then fst prev else from0)
             else from0)
      in (from, if from = None then None
                else if from = fst prev \<and> snd prev \<noteq> None then snd prev else Some now))"

subsection \<open>Soaks and the gate\<close>

definition SOAK_GRACE_MAX_MINUTES :: int where "SOAK_GRACE_MAX_MINUTES = 120"
definition SOAK_ROUND_MINUTES :: int where "SOAK_ROUND_MINUTES = 15"

record quarantined =
  q_release :: string
  q_until :: "stamp option"

record host_soak =
  hs_until :: "stamp option"
  hs_quarantined :: "quarantined list"

definition quarantinedNow :: "host_soak option \<Rightarrow> tag \<Rightarrow> int \<Rightarrow> quarantined option" where
  "quarantinedNow soak latest now = (case soak of
     None \<Rightarrow> None
   | Some s \<Rightarrow> find (\<lambda>q.
       (case parseTag (Some (q_release q)) of
          None \<Rightarrow> False
        | Some t \<Rightarrow> compareTags t latest = 0 \<and>
            (case q_until q of
               None \<Rightarrow> True
             | Some u \<Rightarrow> \<not> (case date_parse u of Some x \<Rightarrow> x \<le> now | None \<Rightarrow> False)))) (hs_quarantined s))"

definition soakGraceUntil :: "host_soak option \<Rightarrow> tag \<Rightarrow> int option \<Rightarrow> int \<Rightarrow> stamp option" where
  "soakGraceUntil soak latest deployed now =
     (case (Option.bind (Option.bind soak hs_until) date_parse, deployed) of
        (Some until, Some dep) \<Rightarrow>
          if quarantinedNow soak latest now \<noteq> None then None
          else let fin = min (until + SOAK_ROUND_MINUTES * 60000) (dep + SOAK_GRACE_MAX_MINUTES * 60000)
               in if now < fin then Some (Stamp fin) else None
      | _ \<Rightarrow> None)"

record running_version =
  pv_version :: string
  pv_deployed_at :: "stamp option"

record update_state =
  u_latest :: string
  u_yours :: "string option"
  u_outdated :: bool
  u_behind :: "int option"
  u_required :: bool
  u_revoked :: bool
  u_last_good_until :: "stamp option"
  u_soaking_until :: "stamp option"

definition behindOf :: "tag \<Rightarrow> tag \<Rightarrow> int option" where
  "behindOf w p =
     (if compareTags w p < 0
      then (if fst w = fst p \<and> fst (snd w) = fst (snd p) then Some (snd (snd p) - snd (snd w)) else None)
      else Some 0)"

definition updateState ::
  "string option \<Rightarrow> running_version \<Rightarrow> int \<Rightarrow> host_soak option \<Rightarrow> reverted option \<Rightarrow> release_policy \<Rightarrow> update_state" where
  "updateState workerVersion pool now soak rv policy =
     (let yours = (if truthy workerVersion \<and> workerVersion \<noteq> Some ''container'' then workerVersion else None);
          revoked = isRevoked yours policy
      in case (parseTag yours, parseTag (Some (pv_version pool))) of
           (Some w, Some p) \<Rightarrow>
             let outdated = compareTags w p < 0;
                 behind = behindOf w p;
                 deployed = Option.bind (pv_deployed_at pool) date_parse;
                 past = outdated \<and> (case deployed of
                     None \<Rightarrow> False
                   | Some dep \<Rightarrow> behind = None \<or> the behind \<ge> 2 \<or> now - dep > UPDATE_GRACE_MINUTES * 60000);
                 lastGood = (if past then lastGoodUntil rv yours (pv_version pool) now policy else None);
                 soaking = (if past \<and> \<not> revoked \<and> lastGood = None then soakGraceUntil soak p deployed now else None)
             in \<lparr>u_latest = pv_version pool, u_yours = yours, u_outdated = outdated, u_behind = behind,
                 u_required = (revoked \<or> (past \<and> soaking = None \<and> lastGood = None)), u_revoked = revoked,
                 u_last_good_until = lastGood, u_soaking_until = soaking\<rparr>
         | _ \<Rightarrow> \<lparr>u_latest = pv_version pool, u_yours = yours, u_outdated = False, u_behind = None,
                 u_required = revoked, u_revoked = revoked, u_last_good_until = None, u_soaking_until = None\<rparr>)"

datatype refused_why =
    LastGoodEnded int
  | LastGoodNotTaken "string option"
  | HeldInQuarantine string
  | SoakPastGrace int
  | SoakEnded
  | PastGrace

datatype gate_words =
    RefusedRevoked
  | ClaimsOnLastGood stamp
  | ClaimsThroughSoak stamp
  | WithinGrace
  | Refused426 refused_why

text \<open>The sentence the host page shows, and why a claim is refused.\<close>

definition refusedWhy :: "update_state \<Rightarrow> host_soak option \<Rightarrow> stamp option \<Rightarrow> int \<Rightarrow> reverted option \<Rightarrow> refused_why" where
  "refusedWhy u soak deployedAt now rv =
     (let latest = parseTag (Some (u_latest u));
          held = Option.bind latest (\<lambda>l. map_option q_release (quarantinedNow soak l now));
          deployed = Option.bind deployedAt date_parse;
          from = Option.bind rv (\<lambda>r. parseTag (Some (rv_from r)));
          revert = (case (rv, from, latest) of
             (Some r, Some f, Some l) \<Rightarrow> if compareTags f l = 0 then Some r else None
           | _ \<Rightarrow> None)
      in case revert of
           Some r \<Rightarrow>
             (case Option.bind (rv_at r) date_parse of
                Some t \<Rightarrow> if now \<ge> t + LAST_GOOD_HOURS * 3600000 then LastGoodEnded (t + LAST_GOOD_HOURS * 3600000)
                          else LastGoodNotTaken (rv_applied r)
              | None \<Rightarrow> LastGoodNotTaken (rv_applied r))
         | None \<Rightarrow>
             (case held of
                Some h \<Rightarrow> HeldInQuarantine h
              | None \<Rightarrow>
                (case Option.bind soak hs_until of
                   None \<Rightarrow> PastGrace
                 | Some s \<Rightarrow>
                   (case (date_parse s, deployed) of
                      (Some e, Some dep) \<Rightarrow>
                        if e + SOAK_ROUND_MINUTES * 60000 > dep + SOAK_GRACE_MAX_MINUTES * 60000
                        then SoakPastGrace (dep + SOAK_GRACE_MAX_MINUTES * 60000) else SoakEnded
                    | _ \<Rightarrow> SoakEnded))))"

definition gateWords ::
  "update_state \<Rightarrow> host_soak option \<Rightarrow> stamp option \<Rightarrow> int \<Rightarrow> reverted option \<Rightarrow> gate_words option" where
  "gateWords u soak deployedAt now rv =
     (if u_revoked u then Some RefusedRevoked
      else if \<not> u_outdated u then None
      else case u_last_good_until u of
        Some s \<Rightarrow> Some (ClaimsOnLastGood s)
      | None \<Rightarrow> (case u_soaking_until u of
          Some s \<Rightarrow> Some (ClaimsThroughSoak s)
        | None \<Rightarrow> if \<not> u_required u then Some WithinGrace
                  else Some (Refused426 (refusedWhy u soak deployedAt now rv))))"

datatype update_message =
    RevokedMessage "string option" string
  | FollowLatestMessage "string option" string "int option"

definition updateMessage :: "update_state \<Rightarrow> update_message" where
  "updateMessage u =
     (if u_revoked u then RevokedMessage (u_yours u) (u_latest u)
      else FollowLatestMessage (u_yours u) (u_latest u) (if u_behind u = Some 0 then None else u_behind u))"

definition lastGoodMessage :: "update_state \<Rightarrow> (string \<times> string option \<times> stamp) option" where
  "lastGoodMessage u = map_option (\<lambda>t. (u_latest u, u_yours u, t)) (u_last_good_until u)"

subsection \<open>The order of tags\<close>

lemma compareTags_0 [simp]: "compareTags a b = 0 \<longleftrightarrow> a = b"
  by (cases a; cases b) auto

lemma compareTags_neg: "compareTags a b < 0 \<longleftrightarrow> a < b"
  by (cases a; cases b) (auto simp: less_prod_def')

lemma compareTags_nonneg: "compareTags a b \<ge> 0 \<longleftrightarrow> b \<le> a"
  using compareTags_neg [of a b] by (simp add: not_less [symmetric])

lemmas compareTags_order = compareTags_neg compareTags_nonneg

lemma isRevoked_iff:
  "isRevoked v policy \<longleftrightarrow> (\<exists>t. parseTag v = Some t \<and> (\<exists>r \<in> set (pol_revoked policy). parseTag (Some r) = Some t))"
  by (cases "parseTag v") (force simp: isRevoked_def list_ex_iff simp del: split_paired_Ex split_paired_All split: option.splits)+

lemma isRevoked_None [simp]: "isRevoked None policy = False"
  by (simp add: isRevoked_def parseTag_def trim_def drop_v_def tag_numbers_def)

lemma parseTag_None [simp]: "parseTag None = None"
  by (simp add: parseTag_def trim_def drop_v_def tag_numbers_def)

lemma show_nat_no_dot: "CHR ''.'' \<notin> set (show_nat n)"
  using show_nat_digits [of n] digit_not_dot by (auto simp: digits_word_def list_all_iff)

lemma tag_numbers_show:
  "tag_numbers (show_nat a @ CHR ''.'' # show_nat b @ CHR ''.'' # show_nat c) = Some (int a, int b, int c)"
  by (simp add: tag_numbers_def split_on_append split_on_no_sep show_nat_no_dot show_nat_digits)

lemma show_nat_ends: "show_nat n \<noteq> [] \<and> \<not> is_space (last (show_nat n))"
  using show_nat_digits [of n] digit_not_space by (auto simp: digits_word_def list_all_iff)

lemma parseTag_show:
  "parseTag (Some (CHR ''v'' # show_nat a @ CHR ''.'' # show_nat b @ CHR ''.'' # show_nat c)) = Some (int a, int b, int c)"
proof -
  have "trim (CHR ''v'' # show_nat a @ CHR ''.'' # show_nat b @ CHR ''.'' # show_nat c)
      = CHR ''v'' # show_nat a @ CHR ''.'' # show_nat b @ CHR ''.'' # show_nat c"
    by (rule trim_id) (use show_nat_ends [of c] in \<open>simp add: is_space_def\<close>)
  then show ?thesis by (simp add: parseTag_def drop_v_def tag_numbers_show)
qed

subsection \<open>The two extensions of the grace\<close>

lemma lastGoodUntilD:
  assumes "lastGoodUntil rv yours latest now policy = Some s"
  obtains r w p since where "rv = Some r" "parseTag yours = Some w" "parseTag (Some latest) = Some p"
    "parseTag (Some (rv_from r)) = Some p" "parseTag (rv_applied r) = Some w" "w < p"
    "\<not> isRevoked yours policy" "\<And>m. parseTag (Some (pol_min_release policy)) = Some m \<Longrightarrow> m \<le> w"
    "Option.bind (rv_at r) date_parse = Some since" "now < since + LAST_GOOD_HOURS * 3600000"
    "s = Stamp (since + LAST_GOOD_HOURS * 3600000)"
  using assms
  by (auto simp: lastGoodUntil_def Let_def compareTags_order not_le not_less
      split: option.splits if_splits)

lemma soakGraceUntilD:
  assumes "soakGraceUntil soak latest deployed now = Some s"
  obtains h until dep where "soak = Some h" "Option.bind (hs_until h) date_parse = Some until" "deployed = Some dep"
    "quarantinedNow soak latest now = None"
    "now < until + SOAK_ROUND_MINUTES * 60000" "now < dep + SOAK_GRACE_MAX_MINUTES * 60000"
    "s = Stamp (min (until + SOAK_ROUND_MINUTES * 60000) (dep + SOAK_GRACE_MAX_MINUTES * 60000))"
  using assms
  by (auto simp: soakGraceUntil_def Let_def bind_eq_Some_conv split: option.splits if_splits)

text \<open>The three ways to hold an outdated release and still be handed work, with what each demands.\<close>

definition gate_grace :: "tag \<Rightarrow> tag \<Rightarrow> int \<Rightarrow> int \<Rightarrow> bool" where
  "gate_grace w p dep now \<longleftrightarrow>
     fst w = fst p \<and> fst (snd w) = fst (snd p) \<and> snd (snd p) = snd (snd w) + 1
     \<and> now \<le> dep + UPDATE_GRACE_MINUTES * 60000"

definition gate_last_good :: "reverted option \<Rightarrow> tag \<Rightarrow> tag \<Rightarrow> release_policy \<Rightarrow> int \<Rightarrow> bool" where
  "gate_last_good rv w p policy now \<longleftrightarrow>
     (\<exists>r since. rv = Some r \<and> parseTag (Some (rv_from r)) = Some p \<and> parseTag (rv_applied r) = Some w
       \<and> Option.bind (rv_at r) date_parse = Some since \<and> now < since + LAST_GOOD_HOURS * 3600000
       \<and> (\<forall>m. parseTag (Some (pol_min_release policy)) = Some m \<longrightarrow> m \<le> w))"

definition gate_soak :: "host_soak option \<Rightarrow> tag \<Rightarrow> int \<Rightarrow> int \<Rightarrow> bool" where
  "gate_soak soak p dep now \<longleftrightarrow>
     (\<exists>h until. soak = Some h \<and> Option.bind (hs_until h) date_parse = Some until \<and> quarantinedNow soak p now = None
       \<and> now < until + SOAK_ROUND_MINUTES * 60000 \<and> now < dep + SOAK_GRACE_MAX_MINUTES * 60000)"

lemma lastGood_iff:
  assumes "parseTag yours = Some w" "parseTag (Some latest) = Some p" "w < p" "\<not> isRevoked yours policy"
  shows "lastGoodUntil rv yours latest now policy \<noteq> None \<longleftrightarrow> gate_last_good rv w p policy now"
proof
  assume "lastGoodUntil rv yours latest now policy \<noteq> None"
  then obtain s where "lastGoodUntil rv yours latest now policy = Some s" by auto
  then show "gate_last_good rv w p policy now"
    by (rule lastGoodUntilD) (use assms in \<open>auto simp: gate_last_good_def\<close>)
next
  assume "gate_last_good rv w p policy now"
  then show "lastGoodUntil rv yours latest now policy \<noteq> None"
    using assms
    by (auto simp: gate_last_good_def lastGoodUntil_def Let_def compareTags_order not_le not_less
        simp del: split_paired_Ex split_paired_All split: option.splits)
qed

lemma soakGrace_iff: "soakGraceUntil soak p (Some dep) now \<noteq> None \<longleftrightarrow> gate_soak soak p dep now"
  by (cases soak) (auto simp: gate_soak_def soakGraceUntil_def Let_def split: option.splits)

lemma behind_grace:
  assumes "w < p"
  shows "(behindOf w p = None \<or> the (behindOf w p) \<ge> 2 \<or> now - dep > UPDATE_GRACE_MINUTES * 60000) \<longleftrightarrow> \<not> gate_grace w p dep now"
  using assms
  by (cases w; cases p) (auto simp: behindOf_def gate_grace_def less_prod_def')

lemma updateState_outdated:
  assumes "parseTag (Some v) = Some w" "v \<noteq> ''container''" "parseTag (Some (pv_version pool)) = Some p" "w < p"
    "\<not> isRevoked (Some v) policy" "Option.bind (pv_deployed_at pool) date_parse = Some dep"
  shows "u_outdated (updateState (Some v) pool now soak rv policy)"
    and "u_required (updateState (Some v) pool now soak rv policy) \<longleftrightarrow>
      \<not> gate_grace w p dep now \<and> \<not> gate_last_good rv w p policy now \<and> \<not> gate_soak soak p dep now"
proof -
  have v: "truthy (Some v)"
    using assms(1) by (cases v) (auto simp: parseTag_def trim_def drop_v_def tag_numbers_def)
  show "u_outdated (updateState (Some v) pool now soak rv policy)"
    using assms v by (simp add: updateState_def Let_def compareTags_order)
  show "u_required (updateState (Some v) pool now soak rv policy) \<longleftrightarrow>
      \<not> gate_grace w p dep now \<and> \<not> gate_last_good rv w p policy now \<and> \<not> gate_soak soak p dep now"
    using assms v lastGood_iff [OF assms(1,3,4,5), of rv now] soakGrace_iff [of soak p dep now]
      behind_grace [OF assms(4), of now dep]
    by (auto simp: updateState_def Let_def compareTags_order)
qed

lemma parseTag_truthy: "parseTag (Some v) = Some w \<Longrightarrow> v \<noteq> []"
  by (auto simp: parseTag_def trim_def drop_v_def tag_numbers_def)

lemma revertAfter_at:
  "snd (revertAfter prev report s) =
     (if fst (revertAfter prev report s) = None then None
      else if fst (revertAfter prev report s) = fst prev \<and> snd prev \<noteq> None then snd prev else Some s)"
  by (simp add: revertAfter_def Let_def)

text \<open>A host's reports one after the other, each folded into what the pool keeps of its revert.\<close>

definition revertRun ::
  "(string option \<times> stamp option) \<Rightarrow> (json \<times> stamp) list \<Rightarrow> (string option \<times> stamp option)" where
  "revertRun prev reports = foldl (\<lambda>p (report, s). revertAfter p report s) prev reports"

lemma revertRun_same:
  assumes "fst prev = Some f" "snd prev = Some s" "\<forall>i \<le> length reports. fst (revertRun prev (take i reports)) = Some f"
  shows "revertRun prev reports = (Some f, Some s)"
  using assms(3)
proof (induction reports rule: rev_induct)
  case Nil
  show ?case using assms(1,2) by (simp add: revertRun_def prod_eq_iff)
next
  case (snoc x xs)
  have 1: "revertRun prev xs = (Some f, Some s)"
  proof (rule snoc.IH, intro allI impI)
    fix i assume "i \<le> length xs"
    then show "fst (revertRun prev (take i xs)) = Some f" using snoc.prems [rule_format, of i] by simp
  qed
  have 2: "revertRun prev (xs @ [x]) = revertAfter (Some f, Some s) (fst x) (snd x)"
    using 1 by (simp add: revertRun_def case_prod_beta)
  have 3: "fst (revertRun prev (xs @ [x])) = Some f"
    using snoc.prems [rule_format, of "length (xs @ [x])"] by simp
  show ?case using 3 revertAfter_at [of "(Some f, Some s)" "fst x" "snd x"] by (simp add: 2 prod_eq_iff)
qed

lemma lastGoodUntil_revoked: "isRevoked yours policy \<Longrightarrow> lastGoodUntil rv yours latest now policy = None"
  by (cases "lastGoodUntil rv yours latest now policy") (auto elim: lastGoodUntilD)

text \<open>How the fields of a decision go together.\<close>

lemma updateState_marks:
  fixes wv pool now soak rv policy
  defines "u \<equiv> updateState wv pool now soak rv policy"
  shows "(u_revoked u \<longrightarrow> u_required u \<and> u_last_good_until u = None \<and> u_soaking_until u = None)
    \<and> (u_required u \<longrightarrow> u_revoked u \<or> (u_outdated u \<and> u_last_good_until u = None \<and> u_soaking_until u = None))
    \<and> (u_last_good_until u \<noteq> None \<longrightarrow> u_outdated u \<and> u_soaking_until u = None)
    \<and> (u_soaking_until u \<noteq> None \<longrightarrow> u_outdated u \<and> u_last_good_until u = None)"
proof -
  let ?y = "if truthy wv \<and> wv \<noteq> Some ''container'' then wv else None"
  show ?thesis
  proof (cases "parseTag ?y = None \<or> parseTag (Some (pv_version pool)) = None")
    case True
    then show ?thesis by (cases "parseTag ?y") (auto simp: u_def updateState_def Let_def)
  next
    case False
    then have "truthy wv \<and> wv \<noteq> Some ''container''" by (auto split: if_splits)
    with False obtain w p where "truthy wv \<and> wv \<noteq> Some ''container''" "parseTag wv = Some w"
      "parseTag (Some (pv_version pool)) = Some p" by auto
    then show ?thesis
      using lastGoodUntil_revoked [of wv policy rv "pv_version pool" now]
      by (cases "lastGoodUntil rv wv (pv_version pool) now policy") (auto simp: u_def updateState_def Let_def)
  qed
qed

subsection \<open>Theorems of the gate\<close>

text \<open>
  Release tags are ordered as their three numbers are: \<open>compareTags\<close> is negative, zero or positive
  exactly when the first is older than, the same as or newer than the second, it is antisymmetric,
  and a tag printed as \<^verbatim>\<open>v<major>.<minor>.<patch>\<close> reads back as the same three numbers.
\<close>

theorem compareTags_total_order:
  "(compareTags a b < 0 \<longleftrightarrow> a < b) \<and> (compareTags a b = 0 \<longleftrightarrow> a = b) \<and> (compareTags a b > 0 \<longleftrightarrow> b < a)
   \<and> compareTags b a = - compareTags a b
   \<and> parseTag (Some (CHR ''v'' # show_nat i @ CHR ''.'' # show_nat j @ CHR ''.'' # show_nat k)) = Some (int i, int j, int k)"
proof -
  have "compareTags b a = - compareTags a b" by (cases a; cases b) auto
  then show ?thesis using compareTags_neg [of a b] compareTags_neg [of b a] parseTag_show [of i j k] by auto
qed

text \<open>
  A revoked release is handed nothing, whatever else holds: whatever the pool runs, the grace,
  the soak and the revert its host reports, a claim on a release the policy revokes is refused, and
  no extension of the grace is shown for it.
\<close>

theorem revoked_always_required:
  assumes "isRevoked (Some v) policy" "v \<noteq> ''container''"
  shows "u_required (updateState (Some v) pool now soak rv policy)
    \<and> u_last_good_until (updateState (Some v) pool now soak rv policy) = None
    \<and> u_soaking_until (updateState (Some v) pool now soak rv policy) = None
    \<and> gateWords (updateState (Some v) pool now soak rv policy) soak (pv_deployed_at pool) now rv = Some RefusedRevoked"
proof -
  have v: "v \<noteq> []" using assms(1) by (auto simp: isRevoked_iff dest: parseTag_truthy)
  have "lastGoodUntil rv (Some v) (pv_version pool) now policy = None"
    using assms(1) by (cases "lastGoodUntil rv (Some v) (pv_version pool) now policy") (auto elim: lastGoodUntilD)
  then show ?thesis
    using assms v by (auto simp: updateState_def gateWords_def Let_def split: option.splits)
qed

theorem revoked_always_required_witness:
  "u_required (updateState (Some ''v1.0.7'') \<lparr>pv_version = ''v1.0.8'', pv_deployed_at = Some (Stamp 0)\<rparr> 60000 None None
     \<lparr>pol_min_release = ''v1.0.0'', pol_revoked = [''v1.0.7'']\<rparr>)"
proof -
  have "isRevoked (Some ''v1.0.7'') \<lparr>pol_min_release = ''v1.0.0'', pol_revoked = [''v1.0.7'']\<rparr>" by code_simp
  from revoked_always_required [OF this] show ?thesis by simp
qed



text \<open>
  A registration at the pool's release or above it, on a release that is not revoked, is never
  refused, and neither is one whose release or the pool's cannot be read; the host page then shows
  no words of the gate.
\<close>

theorem gate_current_claims:
  assumes "\<not> isRevoked wv policy"
    "\<And>w p. parseTag wv = Some w \<Longrightarrow> parseTag (Some (pv_version pool)) = Some p \<Longrightarrow> p \<le> w"
  shows "\<not> u_required (updateState wv pool now soak rv policy) \<and> \<not> u_outdated (updateState wv pool now soak rv policy)
    \<and> gateWords (updateState wv pool now soak rv policy) soak deployedAt now rv = None"
  using assms
  by (auto simp: updateState_def gateWords_def Let_def compareTags_order not_less split: option.splits)

theorem gate_current_claims_witness:
  "\<not> u_required (updateState (Some ''v1.0.8'') \<lparr>pv_version = ''v1.0.8'', pv_deployed_at = Some (Stamp 0)\<rparr> 99999999 None None RELEASE_POLICY)"
proof -
  have t: "parseTag (Some ''v1.0.8'') = Some (1, 0, 8)" "\<not> isRevoked (Some ''v1.0.8'') RELEASE_POLICY" by code_simp+
  have "\<not> u_required (updateState (Some ''v1.0.8'') \<lparr>pv_version = ''v1.0.8'', pv_deployed_at = Some (Stamp 0)\<rparr> 99999999 None None RELEASE_POLICY)
    \<and> \<not> u_outdated (updateState (Some ''v1.0.8'') \<lparr>pv_version = ''v1.0.8'', pv_deployed_at = Some (Stamp 0)\<rparr> 99999999 None None RELEASE_POLICY)
    \<and> gateWords (updateState (Some ''v1.0.8'') \<lparr>pv_version = ''v1.0.8'', pv_deployed_at = Some (Stamp 0)\<rparr> 99999999 None None RELEASE_POLICY) None None 99999999 None = None"
    by (rule gate_current_claims) (use t in auto)
  then show ?thesis by simp
qed

text \<open>
  The six hours on a last-good release are counted once: while a host's reports keep naming the
  same reverted release, whatever they hold (a retry that reverts again, a quarantine lifted and
  set again), the time the pool keeps is the first report's, so six hours after it no report buys
  the registration a further claim on its last-good.
\<close>

theorem revert_clock_never_restarts:
  assumes "\<forall>i \<le> length reports. fst (revertRun (Some f, Some (Stamp since)) (take i reports)) = Some f"
  shows "revertRun (Some f, Some (Stamp since)) reports = (Some f, Some (Stamp since))
    \<and> (since + LAST_GOOD_HOURS * 3600000 \<le> now \<longrightarrow>
        lastGoodUntil (Some \<lparr>rv_from = f, rv_at = snd (revertRun (Some f, Some (Stamp since)) reports), rv_applied = a\<rparr>) yours latest now policy = None)"
proof -
  have 1: "revertRun (Some f, Some (Stamp since)) reports = (Some f, Some (Stamp since))"
    by (rule revertRun_same [OF _ _ assms]) simp_all
  have "lastGoodUntil (Some \<lparr>rv_from = f, rv_at = Some (Stamp since), rv_applied = a\<rparr>) yours latest now policy = None"
    if "since + LAST_GOOD_HOURS * 3600000 \<le> now"
    using that by (cases "lastGoodUntil (Some \<lparr>rv_from = f, rv_at = Some (Stamp since), rv_applied = a\<rparr>) yours latest now policy")
      (auto elim!: lastGoodUntilD)
  with 1 show ?thesis by simp
qed

theorem revert_clock_never_restarts_witness:
  "revertRun (Some ''v1.0.8'', Some (Stamp 5))
     [(JObj [(''round'', JObj [(''outcome'', JStr ''rolled-back''), (''from'', JStr ''v1.0.8'')])], Stamp 900),
      (JObj [(''quarantine'', JArr [JObj [(''release'', JStr ''v1.0.8'')]])], Stamp 1800)]
   = (Some ''v1.0.8'', Some (Stamp 5))"
proof -
  let ?rs = "[(JObj [(''round'', JObj [(''outcome'', JStr ''rolled-back''), (''from'', JStr ''v1.0.8'')])], Stamp 900),
      (JObj [(''quarantine'', JArr [JObj [(''release'', JStr ''v1.0.8'')]])], Stamp 1800)]"
  have "list_all (\<lambda>i. fst (revertRun (Some ''v1.0.8'', Some (Stamp 5)) (take i ?rs)) = Some ''v1.0.8'') [0, 1, 2]" by code_simp
  then have "\<forall>i \<le> length ?rs. fst (revertRun (Some ''v1.0.8'', Some (Stamp 5)) (take i ?rs)) = Some ''v1.0.8''"
    by (auto simp: le_Suc_eq numeral_2_eq_2)
  from revert_clock_never_restarts [OF this] show ?thesis by simp
qed

text \<open>
  What the host page says of the gate is what the gate does: it says the registration is refused
  exactly when the claim is refused, shows nothing exactly when the registration is neither revoked
  nor outdated, and says it claims on its last-good or through its soak exactly until the time the
  decision carries.
\<close>

theorem gateWords_agree:
  "let u = updateState wv pool now soak rv policy; said = gateWords u soak dep now rv in
    (u_required u \<longleftrightarrow> said = Some RefusedRevoked \<or> (\<exists>why. said = Some (Refused426 why)))
    \<and> (said = None \<longleftrightarrow> \<not> u_revoked u \<and> \<not> u_outdated u)
    \<and> (said = Some (ClaimsOnLastGood s) \<longleftrightarrow> u_last_good_until u = Some s)
    \<and> (said = Some (ClaimsThroughSoak s) \<longleftrightarrow> u_soaking_until u = Some s)"
proof -
  let ?u = "updateState wv pool now soak rv policy"
  show ?thesis
    using updateState_marks [of wv pool now soak rv policy]
    by (cases "u_last_good_until ?u"; cases "u_soaking_until ?u") (auto simp: Let_def gateWords_def)
qed

end
