(* ===== verification/Host_Capacity.thy ===== *)
theory Host_Capacity
  imports Signed_Capacity Pool_Text
begin

text \<open>
  What a maintainer host says of itself (worker/src/hosts.ts, first part): the capacity report checked
  field by field, the sandbox its dispatcher applies, the minimum to join, the units the pool hands it,
  and the line the journal describes it with. A JSON object lists its fields in the order
  \<^verbatim>\<open>Object.entries\<close> gives them, each name once.
\<close>

subsection \<open>What the report holds\<close>

definition ARCHES :: "arch list" where "ARCHES = [''x86_64'', ''aarch64'']"

definition ISOLATIONS :: "string list" where
  "ISOLATIONS = [''root'', ''user'', ''subuid'', ''vm'', ''vm-shared'']"

definition SANDBOX_KINDS :: "string list" where "SANDBOX_KINDS = [''gvisor'', ''kata'']"

definition HELD_REASON_MAX :: nat where "HELD_REASON_MAX = 300"

record host_lane = lane +
  hl_via :: "string option"

record held_lane =
  hd_arch :: arch
  hd_reason :: string

record sandbox =
  sb_runtime :: string
  sb_kind :: string

text \<open>In \<open>cp_sandbox\<close>, None is a report that does not say (\<^verbatim>\<open>undefined\<close>) and \<open>Some None\<close> one
  that says there is none (\<^verbatim>\<open>null\<close>).\<close>

record capacity =
  cp_cpus :: int
  cp_mem_gb :: rat
  cp_disk :: disk
  cp_lanes :: "host_lane list"
  cp_held_lanes :: "held_lane list"
  cp_agent_slots :: "int option"
  cp_units :: "int option"
  cp_sandbox :: "sandbox option option"
  cp_sandbox_held :: "string option"

datatype capacity_error =
    CapNotObject
  | CapCpus
  | CapMem
  | CapDisk
  | CapLaneCount
  | CapLane
  | CapNativeLane

text \<open>\<^verbatim>\<open>LIST.includes(v)\<close> for a value that may be no string.\<close>

definition word_in :: "string list \<Rightarrow> json option \<Rightarrow> string option" where
  "word_in ws v = (case jstr v of Some s \<Rightarrow> if s \<in> set ws then Some s else None | None \<Rightarrow> None)"

definition alnum_lower :: "char \<Rightarrow> bool" where
  "alnum_lower c \<longleftrightarrow> is_lower c \<or> is_digit c"

text \<open>\<^verbatim>\<open>^[a-z0-9][a-z0-9._-]{0,63}$\<close> and \<^verbatim>\<open>^[a-z0-9-]{1,20}$\<close>.\<close>

definition RUNTIME_NAME :: "string \<Rightarrow> bool" where
  "RUNTIME_NAME s = (case s of [] \<Rightarrow> False
     | c # cs \<Rightarrow> alnum_lower c \<and> length cs \<le> 63 \<and> list_all (\<lambda>x. alnum_lower x \<or> x \<in> set ''._-'') cs)"

definition via_word :: "string \<Rightarrow> bool" where
  "via_word s \<longleftrightarrow> 1 \<le> length s \<and> length s \<le> 20 \<and> list_all (\<lambda>x. alnum_lower x \<or> x = CHR ''-'') s"

subsection \<open>The isolation a report says\<close>

definition reportedIsolation :: "json option \<Rightarrow> json option \<Rightarrow> string option \<times> bool option" where
  "reportedIsolation runtime cap =
     ((case word_in ISOLATIONS (jfield runtime ''isolation'') of
         Some l \<Rightarrow> Some l
       | None \<Rightarrow> word_in ISOLATIONS (jfield cap ''isolation'')),
      (case jbool (jfield runtime ''dedicated'') of
         Some b \<Rightarrow> Some b
       | None \<Rightarrow> jbool (jfield cap ''dedicated'')))"

subsection \<open>The capacity report\<close>

definition parseLane :: "json \<Rightarrow> host_lane option" where
  "parseLane l =
     (case (word_in ARCHES (jfield (Some l) ''arch''), word_in [''native'', ''emulated''] (jfield (Some l) ''mode'')) of
        (Some a, Some m) \<Rightarrow> Some \<lparr>
          l_arch = a, l_mode = (if m = ''native'' then Native else Emulated), l_page16k = jbool (jfield (Some l) ''page16k''),
          hl_via = (case jstr (jfield (Some l) ''via'') of Some v \<Rightarrow> if via_word v then Some v else None | None \<Rightarrow> None)\<rparr>
      | _ \<Rightarrow> None)"

definition parseHeldLane :: "json \<Rightarrow> held_lane option" where
  "parseHeldLane h =
     (case (word_in ARCHES (jfield (Some h) ''arch''), jstr (jfield (Some h) ''reason'')) of
        (Some a, Some r) \<Rightarrow>
          if trim r \<noteq> [] then Some \<lparr>hd_arch = a, hd_reason = take HELD_REASON_MAX (trim r)\<rparr> else None
      | _ \<Rightarrow> None)"

definition parseSandbox :: "json option \<Rightarrow> sandbox option option" where
  "parseSandbox v =
     (if v = Some JNull then Some None
      else (case (jstr (jfield v ''runtime''), word_in SANDBOX_KINDS (jfield v ''kind'')) of
        (Some r, Some k) \<Rightarrow> if RUNTIME_NAME r then Some (Some \<lparr>sb_runtime = r, sb_kind = k\<rparr>) else None
      | _ \<Rightarrow> None))"

definition parseSandboxHeld :: "json option \<Rightarrow> string option" where
  "parseSandboxHeld v = (case jstr v of
     Some s \<Rightarrow> if trim s \<noteq> [] then Some (take HELD_REASON_MAX (trim s)) else None
   | None \<Rightarrow> None)"

definition nativeLanes :: "host_lane list \<Rightarrow> host_lane list" where
  "nativeLanes ls = filter (\<lambda>l. l_mode l = Native) ls"

definition parseCapacity :: "json option \<Rightarrow> capacity_error + capacity" where
  "parseCapacity v =
    (case v of
       Some (JObj _) \<Rightarrow>
         (case jint_in (jfield v ''cpus'') 1 4096 of
            None \<Rightarrow> Inl CapCpus
          | Some cpus \<Rightarrow>
         (case jnum_in (jfield v ''mem_gb'') 0 (2 ^ 20) of
            None \<Rightarrow> Inl CapMem
          | Some mem \<Rightarrow>
         (case (jnum_in (jfield (jfield v ''disk_free_gb'') ''work'') 0 (2 ^ 30),
                jnum_in (jfield (jfield v ''disk_free_gb'') ''engine'') 0 (2 ^ 30)) of
            (Some work, Some engine) \<Rightarrow>
              (case jarr (jfield v ''lanes'') of
                 None \<Rightarrow> Inl CapLaneCount
               | Some ls \<Rightarrow>
                   if ls = [] \<or> length ls > 4 then Inl CapLaneCount
                   else (case those (map parseLane ls) of
                     None \<Rightarrow> Inl CapLane
                   | Some lanes \<Rightarrow>
                       if length (nativeLanes lanes) \<noteq> 1 then Inl CapNativeLane
                       else Inr \<lparr>cp_cpus = cpus, cp_mem_gb = mem, cp_disk = \<lparr>d_work = work, d_engine = engine\<rparr>,
                         cp_lanes = lanes,
                         cp_held_lanes = List.map_filter parseHeldLane (take 4 (nvl (jarr (jfield v ''held_lanes'')) [])),
                         cp_agent_slots = jint_in (jfield v ''agent_slots'') 0 64,
                         cp_units = jint_in (jfield v ''units'') 0 4096,
                         cp_sandbox = parseSandbox (jfield v ''sandbox''),
                         cp_sandbox_held = parseSandboxHeld (jfield v ''sandbox_held'')\<rparr>))
          | _ \<Rightarrow> Inl CapDisk)))
     | _ \<Rightarrow> Inl CapNotObject)"

subsection \<open>The sandbox a dispatcher applies\<close>

record sandbox_applied =
  sa_sandbox :: "sandbox option"
  sa_held :: "string option"

definition sandbox_json :: "sandbox option \<Rightarrow> json" where
  "sandbox_json s = (case s of None \<Rightarrow> JNull
     | Some x \<Rightarrow> JObj [(''runtime'', JStr (sb_runtime x)), (''kind'', JStr (sb_kind x))])"

text \<open>The column's text, as the JSON value it writes.\<close>

definition sandboxApplied :: "capacity option \<Rightarrow> json option" where
  "sandboxApplied c = (case c of None \<Rightarrow> None
     | Some x \<Rightarrow> (case cp_sandbox x of
         None \<Rightarrow> None
       | Some s \<Rightarrow> Some (JObj ((''sandbox'', sandbox_json s) #
           (if truthy (cp_sandbox_held x) then [(''held'', JStr (nvl (cp_sandbox_held x) []))] else [])))))"

text \<open>The column read back: the value its text parses to, None for no text or one that does not parse.
  It is read through \<^const>\<open>parseCapacity\<close>, in a report that holds nothing else.\<close>

definition sandboxAppliedOf :: "json option \<Rightarrow> sandbox_applied option" where
  "sandboxAppliedOf v = (case v of None \<Rightarrow> None | Some j \<Rightarrow>
     (case parseCapacity (Some (JObj (
         [(''cpus'', JNum 1), (''mem_gb'', JNum 0), (''disk_free_gb'', JObj [(''work'', JNum 0), (''engine'', JNum 0)]),
          (''lanes'', JArr [JObj [(''arch'', JStr ''x86_64''), (''mode'', JStr ''native'')]])]
         @ (case jfield v ''sandbox'' of None \<Rightarrow> [] | Some x \<Rightarrow> [(''sandbox'', x)])
         @ (case jfield v ''held'' of None \<Rightarrow> [] | Some x \<Rightarrow> [(''sandbox_held'', x)])))) of
        Inl _ \<Rightarrow> None
      | Inr c \<Rightarrow> (case cp_sandbox c of
          None \<Rightarrow> None
        | Some s \<Rightarrow> Some \<lparr>sa_sandbox = s, sa_held = (if truthy (cp_sandbox_held c) then cp_sandbox_held c else None)\<rparr>)))"

subsection \<open>The minimum, the units and the host's line\<close>

datatype short_of = ShortCpus int rat | ShortMem rat rat | ShortWork rat rat | ShortEngine rat rat

text \<open>What a host is short of, with its number and the one needed; \<open>None\<close> when it meets the minimum.\<close>

definition belowMinimum :: "capacity \<Rightarrow> min_host \<Rightarrow> short_of list option" where
  "belowMinimum c mn =
     (let short = (if of_int (cp_cpus c) < res_cpus mn then [ShortCpus (cp_cpus c) (res_cpus mn)] else [])
        @ (if cp_mem_gb c < res_mem_gb mn then [ShortMem (cp_mem_gb c) (res_mem_gb mn)] else [])
        @ (if d_work (cp_disk c) < mh_work_disk_gb mn then [ShortWork (d_work (cp_disk c)) (mh_work_disk_gb mn)] else [])
        @ (if d_engine (cp_disk c) < mh_engine_disk_gb mn then [ShortEngine (d_engine (cp_disk c)) (mh_engine_disk_gb mn)] else [])
      in if short = [] then None else Some short)"

definition hostUnitsOf :: "capacity \<Rightarrow> int" where
  "hostUnitsOf c =
     (let byCpu = \<lfloor>(of_int (cp_cpus c) - res_cpus RESERVE) / res_cpus UNIT\<rfloor>;
          byMem = \<lfloor>(cp_mem_gb c - res_mem_gb RESERVE) / res_mem_gb UNIT\<rfloor>;
          units = max 0 (min byCpu byMem)
      in (case cp_units c of None \<Rightarrow> units | Some u \<Rightarrow> min units u))"

text \<open>\<open>show_gb\<close> is how a number of gigabytes prints.\<close>

definition hostLine :: "(rat \<Rightarrow> string) \<Rightarrow> capacity \<Rightarrow> string option \<Rightarrow> bool option \<Rightarrow> string" where
  "hostLine show_gb c isolation dedicated =
     show_nat (nat (cp_cpus c)) @ '' cores, '' @ show_gb (cp_mem_gb c) @ '' GB, ''
       @ join_with '', '' (map (\<lambda>l. l_arch l @ '' '' @ (if l_mode l = Native then ''native'' else ''emulated'')) (cp_lanes c))
       @ '', isolation '' @ nvl isolation ''unknown'' @ (if dedicated = Some True then '' (dedicated)'' else '''')"


subsection \<open>What a report that is taken holds\<close>

lemma word_in_Some: "word_in ws v = Some s \<Longrightarrow> s \<in> set ws"
  by (auto simp: word_in_def split: option.splits if_splits)

lemma those_Some: "those xs = Some ys \<Longrightarrow> xs = map Some ys"
  by (induction xs arbitrary: ys) (auto split: option.splits)

lemma map_filter_list_all:
  "(\<And>x y. f x = Some y \<Longrightarrow> P y) \<Longrightarrow> list_all P (List.map_filter f xs)"
  by (induction xs) (auto simp: List.map_filter_def split: option.splits)

lemma length_map_filter: "length (List.map_filter f xs) \<le> length xs"
  by (simp add: List.map_filter_def)

lemma parseLane_arch: "parseLane j = Some l \<Longrightarrow> l_arch l \<in> set ARCHES"
  by (auto simp: parseLane_def dest: word_in_Some split: option.splits)

lemma parseLanes_arches: "map parseLane ls = map Some xs \<Longrightarrow> list_all (\<lambda>l. l_arch l \<in> set ARCHES) xs"
  by (induction ls arbitrary: xs) (auto simp: Cons_eq_map_conv dest: parseLane_arch)

lemma parseHeldLane_ok:
  "parseHeldLane j = Some h \<Longrightarrow> hd_arch h \<in> set ARCHES \<and> hd_reason h \<noteq> [] \<and> length (hd_reason h) \<le> HELD_REASON_MAX"
  by (auto simp: parseHeldLane_def HELD_REASON_MAX_def dest: word_in_Some split: option.splits if_splits)

lemma parseCapacity_parts:
  assumes "parseCapacity v = Inr c"
  obtains ls where
    "jint_in (jfield v ''cpus'') 1 4096 = Some (cp_cpus c)"
    "jnum_in (jfield v ''mem_gb'') 0 (2 ^ 20) = Some (cp_mem_gb c)"
    "jnum_in (jfield (jfield v ''disk_free_gb'') ''work'') 0 (2 ^ 30) = Some (d_work (cp_disk c))"
    "jnum_in (jfield (jfield v ''disk_free_gb'') ''engine'') 0 (2 ^ 30) = Some (d_engine (cp_disk c))"
    "ls \<noteq> []" "length ls \<le> 4" "map parseLane ls = map Some (cp_lanes c)" "length (nativeLanes (cp_lanes c)) = 1"
    "cp_held_lanes c = List.map_filter parseHeldLane (take 4 (nvl (jarr (jfield v ''held_lanes'')) []))"
    "cp_units c = jint_in (jfield v ''units'') 0 4096"
    "cp_agent_slots c = jint_in (jfield v ''agent_slots'') 0 64"
    "cp_sandbox c = parseSandbox (jfield v ''sandbox'')"
    "cp_sandbox_held c = parseSandboxHeld (jfield v ''sandbox_held'')"
  using assms
  by (auto simp: parseCapacity_def dest!: those_Some split: option.splits json.splits if_splits)

text \<open>The units of a host, between its own word and what its CPUs allow.\<close>

lemma hostUnitsOf_le: "hostUnitsOf c \<le> max 0 (cp_cpus c - 1)"
  by (auto simp: hostUnitsOf_def signed_defs Let_def split: option.splits)

lemma hostUnitsOf_own: "cp_units c = Some u \<Longrightarrow> hostUnitsOf c \<le> u"
  by (simp add: hostUnitsOf_def Let_def)

lemma hostUnitsOf_nonneg: "(\<And>u. cp_units c = Some u \<Longrightarrow> 0 \<le> u) \<Longrightarrow> 0 \<le> hostUnitsOf c"
  by (auto simp: hostUnitsOf_def Let_def split: option.splits)

lemma jint_in_int:
  assumes "jint_in v (of_int lo) (of_int hi) = Some k"
  shows "lo \<le> k \<and> k \<le> hi"
  using jint_in_bounds [OF assms] by simp


definition ex_report :: json where
  "ex_report = JObj [(''cpus'', JNum 8), (''mem_gb'', JNum 16),
     (''disk_free_gb'', JObj [(''work'', JNum 100), (''engine'', JNum 80)]),
     (''lanes'', JArr [JObj [(''arch'', JStr ''aarch64''), (''mode'', JStr ''native'')],
                     JObj [(''arch'', JStr ''x86_64''), (''mode'', JStr ''emulated''), (''via'', JStr ''qemu'')]]),
     (''held_lanes'', JArr [JObj [(''arch'', JStr ''riscv64'')]]), (''units'', JNum 5),
     (''sandbox'', JObj [(''runtime'', JStr ''runsc''), (''kind'', JStr ''gvisor'')]), (''sandbox_held'', JStr '' busy '')]"

definition ex_capacity :: capacity where
  "ex_capacity = \<lparr>cp_cpus = 8, cp_mem_gb = 16, cp_disk = \<lparr>d_work = 100, d_engine = 80\<rparr>,
     cp_lanes = [\<lparr>l_arch = ''aarch64'', l_mode = Native, l_page16k = None, hl_via = None\<rparr>,
                 \<lparr>l_arch = ''x86_64'', l_mode = Emulated, l_page16k = None, hl_via = Some ''qemu''\<rparr>],
     cp_held_lanes = [], cp_agent_slots = None, cp_units = Some 5,
     cp_sandbox = Some (Some \<lparr>sb_runtime = ''runsc'', sb_kind = ''gvisor''\<rparr>), cp_sandbox_held = Some ''busy''\<rparr>"

lemma ex_report_reads: "parseCapacity (Some ex_report) = Inr ex_capacity"
  unfolding ex_capacity_def by code_simp


subsection \<open>The minimum is enough for work\<close>

text \<open>
  The signed minimum leaves room for work: a host that meets it and declares no limit of its own has
  the units of a build of size 1 beside the one kept for pool jobs, and the free disk of one such build
  above the floor, on both disks.
\<close>

theorem minimum_host_builds:
  assumes "belowMinimum c MIN_HOST = None" "cp_units c = None"
  shows "tu_build_per_size TASK_UNITS + tu_job_reserved TASK_UNITS \<le> hostUnitsOf c
    \<and> BUILD_GB_PER_SIZE + DISK_FLOOR_GB \<le> d_work (cp_disk c)
    \<and> BUILD_GB_PER_SIZE + DISK_FLOOR_GB \<le> d_engine (cp_disk c)"
proof -
  from assms(1) have m: "4 \<le> cp_cpus c" "8 \<le> cp_mem_gb c" "60 \<le> d_work (cp_disk c)" "40 \<le> d_engine (cp_disk c)"
    by (auto simp: belowMinimum_def signed_defs Let_def split: if_splits)
  have "3 \<le> \<lfloor>(cp_mem_gb c - 2) / 2\<rfloor>" using m(2) by (simp add: le_floor_iff)
  with m assms(2) show ?thesis by (simp add: hostUnitsOf_def signed_defs Let_def)
qed

theorem minimum_host_builds_witness:
  "let c = ex_capacity\<lparr>cp_units := None\<rparr> in belowMinimum c MIN_HOST = None
    \<and> tu_build_per_size TASK_UNITS + tu_job_reserved TASK_UNITS \<le> hostUnitsOf c"
proof -
  have "belowMinimum (ex_capacity\<lparr>cp_units := None\<rparr>) MIN_HOST = None" by code_simp
  moreover have "cp_units (ex_capacity\<lparr>cp_units := None\<rparr>) = None" by simp
  ultimately show ?thesis using minimum_host_builds [of "ex_capacity\<lparr>cp_units := None\<rparr>"] by (simp add: Let_def)
qed

subsection \<open>The sandbox, written and read back\<close>

lemma parseSandbox_json:
  assumes "parseSandbox v = Some s"
  shows "parseSandbox (Some (sandbox_json s)) = Some s"
proof (cases s)
  case None
  then show ?thesis by (simp add: sandbox_json_def parseSandbox_def)
next
  case (Some x)
  with assms obtain "RUNTIME_NAME (sb_runtime x)" "sb_kind x \<in> set SANDBOX_KINDS"
    by (auto simp: parseSandbox_def dest: word_in_Some split: if_splits option.splits)
  with Some show ?thesis by (simp add: sandbox_json_def parseSandbox_def jfield_def jstr_def word_in_def)
qed

lemma sandboxAppliedOf_eq:
  "sandboxAppliedOf (Some j) = (case parseSandbox (jfield (Some j) ''sandbox'') of
     None \<Rightarrow> None
   | Some s \<Rightarrow> Some \<lparr>sa_sandbox = s, sa_held = parseSandboxHeld (jfield (Some j) ''held'')\<rparr>)"
proof -
  have lane: "parseLane (JObj [(''arch'', JStr ''x86_64''), (''mode'', JStr ''native'')])
      = Some \<lparr>l_arch = ''x86_64'', l_mode = Native, l_page16k = None, hl_via = None\<rparr>" by code_simp
  have held: "truthy (parseSandboxHeld x) \<longleftrightarrow> parseSandboxHeld x \<noteq> None" for x
    by (auto simp: parseSandboxHeld_def HELD_REASON_MAX_def split: option.splits)
  show ?thesis
    by (cases "jfield (Some j) ''sandbox''"; cases "jfield (Some j) ''held''")
      (auto simp: sandboxAppliedOf_def parseCapacity_def jint_in_def jnum_in_def jarr_def lane nativeLanes_def held
        jfield_def [of "Some (JObj xs)" for xs] jfield_def [of None] parseSandbox_def [of None] split: option.splits)
qed

text \<open>
  What a claim says of its sandbox reads back as it was said: the column the pool writes from a
  capacity it took gives the same sandbox (or the same none), and the same reason its claims hold for
  it, without the space a cut at 300 characters may leave at its end.
\<close>

theorem sandbox_roundtrip:
  assumes "parseCapacity v = Inr c" "cp_sandbox c = Some s"
  shows "sandboxAppliedOf (sandboxApplied (Some c)) = Some \<lparr>sa_sandbox = s, sa_held = map_option trim (cp_sandbox_held c)\<rparr>"
proof -
  from assms(1) have p: "cp_sandbox c = parseSandbox (jfield v ''sandbox'')" "cp_sandbox_held c = parseSandboxHeld (jfield v ''sandbox_held'')"
    by (auto elim: parseCapacity_parts)
  show ?thesis
  proof (cases "cp_sandbox_held c")
    case None
    then show ?thesis using assms(2) parseSandbox_json p
      by (simp add: sandboxApplied_def sandboxAppliedOf_eq jfield_def parseSandboxHeld_def jstr_def)
  next
    case (Some h)
    then obtain t where "h = take HELD_REASON_MAX (trim t)" "trim t \<noteq> []"
      using p(2) by (auto simp: parseSandboxHeld_def split: option.splits if_splits)
    then have "parseSandboxHeld (Some (JStr h)) = Some (trim h)" "h \<noteq> []"
      using trim_cut [of t HELD_REASON_MAX] by (auto simp: parseSandboxHeld_def jstr_def HELD_REASON_MAX_def)
    moreover have "parseSandbox (Some (sandbox_json s)) = Some s" using parseSandbox_json p(1) assms(2) by simp
    ultimately show ?thesis using assms(2) Some
      by (simp add: sandboxApplied_def sandboxAppliedOf_eq jfield_def)
  qed
qed

theorem sandbox_roundtrip_witness:
  "parseCapacity (Some ex_report) = Inr ex_capacity
    \<and> sandboxAppliedOf (sandboxApplied (Some ex_capacity))
      = Some \<lparr>sa_sandbox = Some \<lparr>sb_runtime = ''runsc'', sb_kind = ''gvisor''\<rparr>, sa_held = Some (trim ''busy'')\<rparr>"
proof -
  have "cp_sandbox ex_capacity = Some (Some \<lparr>sb_runtime = ''runsc'', sb_kind = ''gvisor''\<rparr>)"
    "cp_sandbox_held ex_capacity = Some ''busy''" by (simp_all add: ex_capacity_def)
  with sandbox_roundtrip [OF ex_report_reads] ex_report_reads show ?thesis by simp
qed

end
