(* ===== verification/Host_Keys.thy ===== *)
theory Host_Keys
  imports Host_Capacity "HOL-Library.Word"
begin

text \<open>
  The host key and the signed request (worker/src/hosts.ts, and the base64url of worker/src/webauthn.ts):
  bytes to text and back, the two kinds of public key, the lines a signature covers and the header that
  carries it. A byte is an 8-bit word. WebCrypto is the platform's: an argument that says whether a
  signature verifies, or that it threw.
\<close>

type_synonym byte = "8 word"

subsection \<open>base64url\<close>

definition B64_ALPHABET :: string where
  "B64_ALPHABET = ''ABCDEFGHIJKLMNOPQRSTUVWXYZabcdefghijklmnopqrstuvwxyz0123456789-_''"

definition b64_char :: "nat \<Rightarrow> char" where
  "b64_char n = B64_ALPHABET ! n"

definition b64_value :: "char \<Rightarrow> nat option" where
  "b64_value c = find_index (\<lambda>x. x = c) B64_ALPHABET"

text \<open>Three bytes to four values below 64, and back (\<^verbatim>\<open>btoa\<close>, \<^verbatim>\<open>atob\<close>); the bits past the last
  whole byte are dropped.\<close>

fun sextets :: "byte list \<Rightarrow> nat list" where
  "sextets (a # b # c # r) =
     [unat a div 4, (unat a mod 4) * 16 + unat b div 16, (unat b mod 16) * 4 + unat c div 64, unat c mod 64] @ sextets r"
| "sextets [a, b] = [unat a div 4, (unat a mod 4) * 16 + unat b div 16, (unat b mod 16) * 4]"
| "sextets [a] = [unat a div 4, (unat a mod 4) * 16]"
| "sextets [] = []"

fun octets :: "nat list \<Rightarrow> byte list" where
  "octets (a # b # c # d # r) =
     [of_nat (a * 4 + b div 16), of_nat ((b mod 16) * 16 + c div 4), of_nat ((c mod 4) * 64 + d)] @ octets r"
| "octets [a, b, c] = [of_nat (a * 4 + b div 16), of_nat ((b mod 16) * 16 + c div 4)]"
| "octets [a, b] = [of_nat (a * 4 + b div 16)]"
| "octets _ = []"

definition toB64url :: "byte list \<Rightarrow> string" where
  "toB64url bs = map b64_char (sextets bs)"

definition fromB64url :: "string \<Rightarrow> byte list option" where
  "fromB64url s = (case those (map b64_value s) of
     None \<Rightarrow> None
   | Some vs \<Rightarrow> if length s mod 4 = 1 then None else Some (octets vs))"

subsection \<open>The host key\<close>

datatype host_key_alg = Ed25519 | P256

record host_key =
  hk_alg :: host_key_alg
  hk_raw :: "byte list"

definition publicKeyBytes :: "json option \<Rightarrow> byte list option" where
  "publicKeyBytes v = (case jstr v of
     None \<Rightarrow> None
   | Some s \<Rightarrow> if length s \<noteq> 43 then None
       else (case fromB64url s of None \<Rightarrow> None | Some raw \<Rightarrow> if length raw = 32 then Some raw else None))"

definition hostPublicKey :: "json option \<Rightarrow> host_key option" where
  "hostPublicKey v = (case publicKeyBytes v of
     Some ed \<Rightarrow> Some \<lparr>hk_alg = Ed25519, hk_raw = ed\<rparr>
   | None \<Rightarrow> (case jstr v of
       None \<Rightarrow> None
     | Some s \<Rightarrow> if length s \<noteq> 87 then None
         else (case fromB64url s of
             None \<Rightarrow> None
           | Some raw \<Rightarrow> if length raw = 65 \<and> hd raw = 4 then Some \<lparr>hk_alg = P256, hk_raw = raw\<rparr> else None)))"

datatype key_store = KeyFile | KeyTpm

definition keyStoreFits :: "key_store \<Rightarrow> host_key_alg \<Rightarrow> bool" where
  "keyStoreFits store alg \<longleftrightarrow> (store = KeyFile \<and> alg = Ed25519) \<or> (store = KeyTpm \<and> alg = P256)"

type_synonym webcrypto = "host_key_alg \<Rightarrow> byte list \<Rightarrow> byte list \<Rightarrow> string \<Rightarrow> bool option"

definition verifyHostSignature :: "webcrypto \<Rightarrow> host_key \<Rightarrow> string \<Rightarrow> string \<Rightarrow> bool" where
  "verifyHostSignature verify key sig message = (case fromB64url sig of
     None \<Rightarrow> False
   | Some bytes \<Rightarrow> length bytes = 64 \<and> verify (hk_alg key) (hk_raw key) bytes message = Some True)"

subsection \<open>What is signed, and the header\<close>

definition NL :: string where "NL = [CHR 0x0A]"

definition enrollMessage :: "string \<Rightarrow> string \<Rightarrow> string" where
  "enrollMessage token pubkey = ''omarchy-host-enroll-v1'' @ NL @ token @ NL @ pubkey"

definition signedMessage :: "string \<Rightarrow> string \<Rightarrow> string \<Rightarrow> string \<Rightarrow> nat \<Rightarrow> string \<Rightarrow> string" where
  "signedMessage host method path bodySha256 ts nonce =
     ''omarchy-host-v1'' @ NL @ host @ NL @ method @ NL @ path @ NL @ bodySha256 @ NL @ show_nat ts @ NL @ nonce"

record host_header =
  hh_host :: string
  hh_ts :: nat
  hh_nonce :: string
  hh_sig :: string

text \<open>\<^verbatim>\<open>^h_[0-9a-z]{10}$\<close>; \<^verbatim>\<open>^[0-9a-f]{32}$\<close>; \<^verbatim>\<open>^[A-Za-z0-9_-]{86}$\<close>; \<^verbatim>\<open>^\d{1,12}$\<close>.\<close>

definition HOST_ID :: "string \<Rightarrow> bool" where
  "HOST_ID s \<longleftrightarrow> length s = 12 \<and> starts_with ''h_'' s \<and> list_all alnum_lower (drop 2 s)"

definition nonce_word :: "string \<Rightarrow> bool" where
  "nonce_word s \<longleftrightarrow> length s = 32 \<and> list_all is_hex s"

definition sig_word :: "string \<Rightarrow> bool" where
  "sig_word s \<longleftrightarrow> length s = 86 \<and> list_all (\<lambda>c. c \<in> set B64_ALPHABET) s"

definition ts_word :: "string \<Rightarrow> bool" where
  "ts_word s \<longleftrightarrow> digits_word s \<and> length s \<le> 12"

text \<open>The names every object has from its prototype: \<^verbatim>\<open>k in kv\<close> holds for them too.\<close>

definition OBJECT_PROTOTYPE :: "string list" where
  "OBJECT_PROTOTYPE = [''constructor'', ''__defineGetter__'', ''__defineSetter__'', ''hasOwnProperty'', ''__lookupGetter__'',
     ''__lookupSetter__'', ''isPrototypeOf'', ''propertyIsEnumerable'', ''toString'', ''valueOf'', ''__proto__'', ''toLocaleString'']"

text \<open>A part cut at its first \<^verbatim>\<open>=\<close>, which must not come first.\<close>

definition key_value :: "string \<Rightarrow> (string \<times> string) option" where
  "key_value p = (case dropWhile (\<lambda>c. c \<noteq> CHR ''='') p of
     [] \<Rightarrow> None
   | _ # v \<Rightarrow> (case takeWhile (\<lambda>c. c \<noteq> CHR ''='') p of [] \<Rightarrow> None | k \<Rightarrow> Some (k, v)))"

fun header_fields :: "string list \<Rightarrow> (string \<times> string) list \<Rightarrow> (string \<times> string) list option" where
  "header_fields [] kv = Some kv"
| "header_fields (p # ps) kv = (case key_value p of
     None \<Rightarrow> None
   | Some (k, v) \<Rightarrow> if k \<in> set (map fst kv) \<or> k \<in> set OBJECT_PROTOTYPE then None else header_fields ps (kv @ [(k, v)]))"

definition parseHostHeader :: "string option \<Rightarrow> host_header option" where
  "parseHostHeader h = (case h of
     None \<Rightarrow> None
   | Some s \<Rightarrow>
       if s = [] \<or> length s > 300 then None
       else (case map trim (split_on (CHR '';'') s) of
         [host, a, b, c] \<Rightarrow>
           if \<not> HOST_ID host then None
           else (case header_fields [a, b, c] [] of
             None \<Rightarrow> None
           | Some kv \<Rightarrow>
               (let ts = nvl (map_of kv ''ts'') []; nonce = nvl (map_of kv ''nonce'') []; sig = nvl (map_of kv ''sig'') []
                in if ts_word ts \<and> nonce_word nonce \<and> sig_word sig
                   then Some \<lparr>hh_host = host, hh_ts = nat (number_of_digits ts), hh_nonce = nonce, hh_sig = sig\<rparr>
                   else None))
       | _ \<Rightarrow> None))"

subsection \<open>The install command\<close>

definition release_tag :: "string \<Rightarrow> bool" where
  "release_tag v = (case v of (CHR ''v'') # t \<Rightarrow> (case split_on (CHR ''.'') t of [a, b, c] \<Rightarrow> digits_word a \<and> digits_word b \<and> digits_word c | _ \<Rightarrow> False)
     | _ \<Rightarrow> False)"

definition installUrl :: "string \<Rightarrow> string" where
  "installUrl poolVersion =
     (if release_tag poolVersion
      then ''https://github.com/firemanxbr/omarchy-pool/releases/download/'' @ poolVersion @ ''/install.sh''
      else ''https://github.com/firemanxbr/omarchy-pool/releases/latest/download/install.sh'')"

definition installCommand :: "string \<Rightarrow> string \<Rightarrow> string option \<Rightarrow> string" where
  "installCommand poolVersion token pool =
     ''curl --proto '' @ [CHR 0x27] @ ''=https'' @ [CHR 0x27] @ '' --tlsv1.2 -fsSL '' @ installUrl poolVersion @ '' | OMARCHY_ENROLL='' @ token @ '' sh''
       @ (if truthy pool then '' -s -- --pool '' @ nvl pool [] else '''')"

subsection \<open>base64url round trip\<close>

lemma byte_lt: "unat (a :: byte) < 256"
  using unsigned_less [of a] by simp

lemma digits_split: "q < n \<Longrightarrow> (a * n + q) div n = a \<and> (a * n + q) mod n = (q :: nat)"
  by simp

lemma pack_bytes:
  fixes a b c :: nat
  assumes "b < 256" "c < 256"
  shows "a div 4 * 4 + (a mod 4 * 16 + b div 16) div 16 = a"
    "(a mod 4 * 16 + b div 16) mod 16 * 16 + (b mod 16 * 4 + c div 64) div 4 = b"
    "(b mod 16 * 4 + c div 64) mod 4 * 64 + c mod 64 = c"
proof -
  have "b div 16 < 16" "c div 64 < 4" using assms by auto
  then show "a div 4 * 4 + (a mod 4 * 16 + b div 16) div 16 = a"
    "(a mod 4 * 16 + b div 16) mod 16 * 16 + (b mod 16 * 4 + c div 64) div 4 = b"
    "(b mod 16 * 4 + c div 64) mod 4 * 64 + c mod 64 = c"
    using digits_split [of "b div 16" 16 "a mod 4"] digits_split [of "c div 64" 4 "b mod 16"] by simp_all
qed

lemma sextets_lt: "n \<in> set (sextets bs) \<Longrightarrow> n < 64"
proof (induction bs rule: sextets.induct)
  case (1 a b c r)
  then show ?case using byte_lt [of a] byte_lt [of b] byte_lt [of c] by auto
next
  case (2 a b)
  then show ?case using byte_lt [of a] byte_lt [of b] by auto
next
  case (3 a)
  then show ?case using byte_lt [of a] by auto
qed simp

lemma b64_value_char_list: "list_all (\<lambda>n. b64_value (b64_char n) = Some n) [0..<64]"
  by code_simp

lemma b64_value_char: "n < 64 \<Longrightarrow> b64_value (b64_char n) = Some n"
  using b64_value_char_list by (simp add: list_all_iff)

lemma octets_sextets: "octets (sextets bs) = bs"
proof (induction bs rule: sextets.induct)
  case (1 a b c r)
  then show ?case using pack_bytes [OF byte_lt [of b] byte_lt [of c]] by simp
next
  case (2 a b)
  then show ?case using pack_bytes [OF byte_lt [of b], of 0] by simp
next
  case (3 a)
  then show ?case using pack_bytes [of 0 0] by simp
qed simp

lemma length_sextets: "length (sextets bs) mod 4 \<noteq> 1"
  by (induction bs rule: sextets.induct) auto

lemma those_map_Some: "(\<And>x. x \<in> set xs \<Longrightarrow> f x = Some (g x)) \<Longrightarrow> those (map f xs) = Some (map g xs)"
  by (induction xs) auto

lemma b64url_inverse: "fromB64url (toB64url bs) = Some bs"
proof -
  have "those (map b64_value (toB64url bs)) = Some (sextets bs)"
    using those_map_Some [of "sextets bs" "b64_value \<circ> b64_char" id] sextets_lt b64_value_char
    by (simp add: toB64url_def)
  then show ?thesis using length_sextets [of bs] by (simp add: fromB64url_def octets_sextets toB64url_def)
qed

lemma length_toB64url: "length (toB64url bs) = (4 * length bs + 2) div 3"
proof -
  have "length (sextets bs) = (4 * length bs + 2) div 3" by (induction bs rule: sextets.induct) auto
  then show ?thesis by (simp add: toB64url_def)
qed

text \<open>
  base64url reads back the bytes it wrote: decoding the encoding of any bytes gives them, and the
  public key of a host written so is read as an Ed25519 key when it has 32 bytes and as a P-256 point when
  it has 65 and starts with 4.
\<close>

theorem b64url_roundtrip:
  "fromB64url (toB64url bs) = Some bs
    \<and> (length bs = 32 \<longrightarrow> hostPublicKey (Some (JStr (toB64url bs))) = Some \<lparr>hk_alg = Ed25519, hk_raw = bs\<rparr>)
    \<and> (length bs = 65 \<and> hd bs = 4 \<longrightarrow> hostPublicKey (Some (JStr (toB64url bs))) = Some \<lparr>hk_alg = P256, hk_raw = bs\<rparr>)"
  by (simp add: b64url_inverse length_toB64url hostPublicKey_def publicKeyBytes_def jstr_def)

theorem b64url_roundtrip_witness:
  "let k = 4 # replicate 64 7 in fromB64url (toB64url k) = Some k
    \<and> hostPublicKey (Some (JStr (toB64url k))) = Some \<lparr>hk_alg = P256, hk_raw = k\<rparr>"
  using b64url_roundtrip [of "4 # replicate 64 7"] by (simp add: Let_def)

subsection \<open>What a signature binds\<close>

lemma line_cancel:
  "c \<notin> set a \<Longrightarrow> c \<notin> set b \<Longrightarrow> a @ c # x = b @ c # y \<longleftrightarrow> a = b \<and> x = y"
proof (induction a arbitrary: b)
  case Nil
  then show ?case by (cases b) auto
next
  case (Cons z a)
  then show ?case by (cases b) auto
qed

definition one_line :: "string \<Rightarrow> bool" where
  "one_line s \<longleftrightarrow> CHR 0x0A \<notin> set s"

lemma nl_classes: "\<not> is_digit (CHR 0x0A)" "\<not> is_hex (CHR 0x0A)" "\<not> alnum_lower (CHR 0x0A)"
  by code_simp+

lemma class_one_line: "list_all P s \<Longrightarrow> \<not> P (CHR 0x0A) \<Longrightarrow> one_line s"
  unfolding one_line_def list_all_iff by blast

lemma show_nat_one_line: "one_line (show_nat n)"
  using show_nat_digits [of n] class_one_line [of is_digit] nl_classes unfolding digits_word_def by auto

lemma hex_one_line: "nonce_word s \<Longrightarrow> one_line s"
  using class_one_line [of is_hex s] nl_classes unfolding nonce_word_def by auto

lemma HOST_ID_one_line:
  assumes "HOST_ID s"
  shows "one_line s"
proof -
  from assms have "take 2 s = ''h_''" "list_all alnum_lower (drop 2 s)"
    unfolding HOST_ID_def starts_with_def by (simp_all add: numeral_2_eq_2)
  then have "one_line (take 2 s)" "one_line (drop 2 s)" using nl_classes class_one_line by (auto simp: one_line_def)
  then show ?thesis unfolding one_line_def by (metis Un_iff append_take_drop_id set_append)
qed

lemma parseHostHeaderD:
  assumes "parseHostHeader x = Some h"
  shows "HOST_ID (hh_host h)" "nonce_word (hh_nonce h)" "sig_word (hh_sig h)"
  using assms by (auto simp: parseHostHeader_def Let_def split: option.splits if_splits list.splits)

lemma signedMessage_inj:
  assumes "one_line h1" "one_line h2" "one_line m1" "one_line m2" "one_line p1" "one_line p2" "one_line b1" "one_line b2"
  shows "signedMessage h1 m1 p1 b1 t1 n1 = signedMessage h2 m2 p2 b2 t2 n2
    \<longleftrightarrow> h1 = h2 \<and> m1 = m2 \<and> p1 = p2 \<and> b1 = b2 \<and> t1 = t2 \<and> n1 = n2"
proof -
  have ts: "show_nat t1 = show_nat t2 \<longleftrightarrow> t1 = t2" by (metis number_show_nat of_nat_eq_iff)
  show ?thesis using assms show_nat_one_line [of t1] show_nat_one_line [of t2] unfolding one_line_def
    by (simp add: signedMessage_def NL_def line_cancel ts)
qed

text \<open>
  What a host signs binds the whole request: two requests whose headers the pool reads sign the same
  text only when they are of the same host, method, path, body hash, time and nonce (a method, a path and a
  hash hold no line break), so a signature of one is not one of another; and no signed request's text is
  an enrollment's.
\<close>

theorem signature_binds_request:
  assumes "parseHostHeader x1 = Some h1" "parseHostHeader x2 = Some h2"
    "one_line m1" "one_line m2" "one_line p1" "one_line p2" "one_line b1" "one_line b2"
  shows "(signedMessage (hh_host h1) m1 p1 b1 (hh_ts h1) (hh_nonce h1) = signedMessage (hh_host h2) m2 p2 b2 (hh_ts h2) (hh_nonce h2)
      \<longleftrightarrow> hh_host h1 = hh_host h2 \<and> m1 = m2 \<and> p1 = p2 \<and> b1 = b2 \<and> hh_ts h1 = hh_ts h2 \<and> hh_nonce h1 = hh_nonce h2)
    \<and> signedMessage (hh_host h1) m1 p1 b1 (hh_ts h1) (hh_nonce h1) \<noteq> enrollMessage token pubkey"
proof
  show "signedMessage (hh_host h1) m1 p1 b1 (hh_ts h1) (hh_nonce h1) = signedMessage (hh_host h2) m2 p2 b2 (hh_ts h2) (hh_nonce h2)
      \<longleftrightarrow> hh_host h1 = hh_host h2 \<and> m1 = m2 \<and> p1 = p2 \<and> b1 = b2 \<and> hh_ts h1 = hh_ts h2 \<and> hh_nonce h1 = hh_nonce h2"
    using assms by (intro signedMessage_inj) (auto intro: HOST_ID_one_line dest: parseHostHeaderD)
  show "signedMessage (hh_host h1) m1 p1 b1 (hh_ts h1) (hh_nonce h1) \<noteq> enrollMessage token pubkey"
    by (simp add: signedMessage_def enrollMessage_def NL_def)
qed

definition ex_header :: string where
  "ex_header = ''h_0123456789'' @ CHR '';'' # ''ts=17'' @ CHR '';'' # (''nonce='' @ replicate 32 (CHR ''a''))
     @ CHR '';'' # (''sig='' @ replicate 86 (CHR ''A''))"

definition ex_parsed :: host_header where
  "ex_parsed = \<lparr>hh_host = ''h_0123456789'', hh_ts = 17, hh_nonce = replicate 32 (CHR ''a''), hh_sig = replicate 86 (CHR ''A'')\<rparr>"

lemma ex_header_parts:
  "map trim (split_on (CHR '';'') ex_header) = [''h_0123456789'', ''ts=17'', ''nonce='' @ replicate 32 (CHR ''a''), ''sig='' @ replicate 86 (CHR ''A'')]"
  by code_simp

lemma ex_header_words: "sig_word (replicate 86 (CHR ''A''))" "nonce_word (replicate 32 (CHR ''a''))"
  by (simp_all add: sig_word_def nonce_word_def list_all_iff B64_ALPHABET_def is_hex_def)

lemma ex_header_reads: "parseHostHeader (Some ex_header) = Some ex_parsed"
proof -
  have "key_value (''nonce='' @ replicate 32 (CHR ''a'')) = Some (''nonce'', replicate 32 (CHR ''a''))"
    "key_value (''sig='' @ replicate 86 (CHR ''A'')) = Some (''sig'', replicate 86 (CHR ''A''))"
    by (simp_all add: key_value_def)
  moreover have "key_value ''ts=17'' = Some (''ts'', ''17'')" by code_simp
  moreover have "ts_word ''17'' \<and> nat (number_of_digits ''17'') = 17 \<and> HOST_ID ''h_0123456789''" by code_simp
  moreover have "length ex_header \<le> 300 \<and> ex_header \<noteq> []" by (simp add: ex_header_def)
  ultimately show ?thesis using ex_header_words
    by (simp add: parseHostHeader_def ex_header_parts OBJECT_PROTOTYPE_def ex_parsed_def)
qed

theorem signature_binds_request_witness:
  "parseHostHeader (Some ex_header) = Some ex_parsed
    \<and> signedMessage (hh_host ex_parsed) ''POST'' ''/hosts/self/report'' ''ab'' (hh_ts ex_parsed) (hh_nonce ex_parsed)
      \<noteq> signedMessage (hh_host ex_parsed) ''POST'' ''/hosts/self/token'' ''ab'' (hh_ts ex_parsed) (hh_nonce ex_parsed)"
  using signature_binds_request [OF ex_header_reads ex_header_reads, of "''POST''" "''POST''" "''/hosts/self/report''" "''/hosts/self/token''" "''ab''" "''ab''"]
    ex_header_reads by (simp add: one_line_def)

end
