(* ===== verification/Sizing.thy ===== *)
theory Sizing
  imports Pool_Text Signed_Capacity
begin

text \<open>
  The sizes a package's builds ask for (worker/src/sizing.ts): the file a release ships, a maintainer's
  word on the package's page, and the size the pool learns from the package's own builds: raised one
  step when the engine kills a build at its memory limit, lowered one step after five builds in a row
  that would have fitted a size below.
\<close>

subsection \<open>The file\<close>

record sizing =
  sz_size :: "int option"
  sz_disk_gb :: "int option"

definition KEYS :: "string list" where
  "KEYS = [''size'', ''disk_gb'', ''network'', ''reason'']"

datatype sizing_error =
    NotToml
  | WrongSchema "json option"
  | UnknownKey string
  | PackageNotTable
  | EntryNotTable string
  | EntryUnknownKey string string
  | BadSize string
  | BadDisk string

text \<open>A whole number from 1 to 4096, or not given: None says neither.\<close>

definition wholeOpt :: "json option \<Rightarrow> int option option" where
  "wholeOpt x = (case x of
     None \<Rightarrow> Some None
   | Some _ \<Rightarrow> (case jint_in x 1 4096 of Some n \<Rightarrow> Some (Some n) | None \<Rightarrow> None))"

definition readEntry :: "string \<Rightarrow> json \<Rightarrow> sizing_error + sizing option" where
  "readEntry name v = (case v of
     JObj e \<Rightarrow>
       (case find (\<lambda>k. k \<notin> set KEYS) (map fst e) of
          Some k \<Rightarrow> Inl (EntryUnknownKey name k)
        | None \<Rightarrow>
          (case wholeOpt (map_of e ''size'') of
             None \<Rightarrow> Inl (BadSize name)
           | Some z \<Rightarrow>
             (case wholeOpt (map_of e ''disk_gb'') of
                None \<Rightarrow> Inl (BadDisk name)
              | Some g \<Rightarrow> Inr (if z \<noteq> None \<or> g \<noteq> None then Some \<lparr>sz_size = z, sz_disk_gb = g\<rparr> else None))))
   | _ \<Rightarrow> Inl (EntryNotTable name))"

fun readEntries :: "(string \<times> json) list \<Rightarrow> sizing_error + (string \<times> sizing) list" where
  "readEntries [] = Inr []"
| "readEntries ((name, v) # rest) = (case readEntry name v of
     Inl e \<Rightarrow> Inl e
   | Inr s \<Rightarrow> (case readEntries rest of
       Inl e \<Rightarrow> Inl e
     | Inr out \<Rightarrow> Inr (case s of None \<Rightarrow> out | Some x \<Rightarrow> (name, x) # out)))"

text \<open>The file as the TOML reader gives it (None: it does not read), whole or not at all.\<close>

definition readSizing :: "(string \<times> json) list option \<Rightarrow> sizing_error + (string \<times> sizing) list" where
  "readSizing parsed = (case parsed of
     None \<Rightarrow> Inl NotToml
   | Some f \<Rightarrow>
       if map_of f ''schema'' \<noteq> Some (JNum 1) then Inl (WrongSchema (map_of f ''schema''))
       else (case find (\<lambda>k. k \<noteq> ''schema'' \<and> k \<noteq> ''package'') (map fst f) of
               Some k \<Rightarrow> Inl (UnknownKey k)
             | None \<Rightarrow> (case map_of f ''package'' of
                 None \<Rightarrow> readEntries []
               | Some JNull \<Rightarrow> readEntries []
               | Some (JObj pkgs) \<Rightarrow> readEntries pkgs
               | _ \<Rightarrow> Inl PackageNotTable)))"

definition shippedSizing :: "(string \<times> json) list option \<Rightarrow> (string \<times> sizing) list" where
  "shippedSizing parsed = (case readSizing parsed of Inl _ \<Rightarrow> [] | Inr m \<Rightarrow> m)"

subsection \<open>The learned size\<close>

datatype learned_why = WhyOom | WhyDecay

record learned =
  le_size :: "int option"
  le_lower :: int
  le_task :: "int option"
  le_why :: "learned_why option"
  le_at :: "int option"

definition DECAY_AFTER :: int where "DECAY_AFTER = 5"

text \<open>A package's learned columns as they are stored, and as a remembered size: anything that is not a
  whole size from 2 is nothing learned.\<close>

record learned_row =
  lr_size :: "int option"
  lr_lower :: "int option"
  lr_task :: "int option"
  lr_why :: "string option"
  lr_at :: "int option"

definition whole_from :: "int option \<Rightarrow> int \<Rightarrow> int option" where
  "whole_from x lo = (case x of Some n \<Rightarrow> if n \<ge> lo then Some n else None | None \<Rightarrow> None)"

definition learnedOf :: "learned_row \<Rightarrow> learned" where
  "learnedOf r = \<lparr>le_size = whole_from (lr_size r) 2, le_lower = nvl (whole_from (lr_lower r) 0) 0,
     le_task = whole_from (lr_task r) 1,
     le_why = (if lr_why r = Some ''oom'' then Some WhyOom else if lr_why r = Some ''decay'' then Some WhyDecay else None),
     le_at = lr_at r\<rparr>"

definition rowOfLearned :: "learned \<Rightarrow> learned_row" where
  "rowOfLearned l = \<lparr>lr_size = le_size l, lr_lower = Some (le_lower l), lr_task = le_task l,
     lr_why = map_option (\<lambda>w. case w of WhyOom \<Rightarrow> ''oom'' | WhyDecay \<Rightarrow> ''decay'') (le_why l), lr_at = le_at l\<rparr>"

definition peakBelowMb :: "int \<Rightarrow> rat" where
  "peakBelowMb sz = of_int (sz - 1) * of_int (tu_build_per_size TASK_UNITS) * res_mem_gb UNIT * 1024
     - of_int (fst SIDECARS_MEM_MB) - of_int (snd SIDECARS_MEM_MB)"

definition learnCap :: "string \<Rightarrow> bool \<Rightarrow> int" where
  "learnCap trust review = (if trust = ''community'' \<or> review then COMMUNITY_MAX_SIZE else MAX_SIZE)"

definition afterOom :: "learned \<Rightarrow> int \<Rightarrow> string \<Rightarrow> bool \<Rightarrow> int \<Rightarrow> int \<Rightarrow> learned option" where
  "afterOom cur at_size trust review task now =
     (let was = nvl (le_size cur) 1;
          sz = max was (min (learnCap trust review) (max 1 at_size + 1))
      in if sz = was then (if le_lower cur \<noteq> 0 then Some (cur\<lparr>le_lower := 0\<rparr>) else None)
         else Some \<lparr>le_size = Some sz, le_lower = 0, le_task = Some task, le_why = Some WhyOom, le_at = Some now\<rparr>)"

definition afterBuild :: "learned \<Rightarrow> rat \<Rightarrow> int \<Rightarrow> int \<Rightarrow> learned option" where
  "afterBuild cur peak task now = (case le_size cur of
     None \<Rightarrow> None
   | Some sz \<Rightarrow>
       if peak \<ge> peakBelowMb sz then (if le_lower cur \<noteq> 0 then Some (cur\<lparr>le_lower := 0\<rparr>) else None)
       else let lower = le_lower cur + 1
            in if lower < DECAY_AFTER then Some (cur\<lparr>le_lower := lower\<rparr>)
               else Some \<lparr>le_size = (if sz > 2 then Some (sz - 1) else None), le_lower = 0, le_task = Some task,
                          le_why = Some WhyDecay, le_at = Some now\<rparr>)"

subsection \<open>What a package's builds ask\<close>

datatype sizing_from = FromPage | FromFile | FromLearned

record sizing_view =
  sv_size :: int
  sv_disk_gb :: rat
  sv_from :: "sizing_from option"
  sv_disk_from :: "sizing_from option"
  sv_learned :: "learned option"

definition sizingView :: "(string \<times> sizing) list \<Rightarrow> string \<Rightarrow> int option \<Rightarrow> rat option \<Rightarrow> learned_row \<Rightarrow> sizing_view" where
  "sizingView shipped name pageSize pageDisk row =
     (let file = map_of shipped name;
          fileSize = Option.bind file sz_size;
          fileDisk = Option.bind file sz_disk_gb;
          lrn = learnedOf row;
          sz = (case pageSize of Some s \<Rightarrow> s | None \<Rightarrow> (case fileSize of Some s \<Rightarrow> s | None \<Rightarrow> nvl (le_size lrn) 1));
          disk = (case pageDisk of Some g \<Rightarrow> Some g | None \<Rightarrow> map_option of_int fileDisk)
      in \<lparr>sv_size = sz, sv_disk_gb = nvl disk (BUILD_GB_PER_SIZE * of_int sz),
          sv_from = (if pageSize \<noteq> None then Some FromPage else if fileSize \<noteq> None \<and> fileSize \<noteq> Some 0 then Some FromFile
                     else if le_size lrn \<noteq> None then Some FromLearned else None),
          sv_disk_from = (if pageDisk \<noteq> None then Some FromPage else if fileDisk \<noteq> None \<and> fileDisk \<noteq> Some 0 then Some FromFile else None),
          sv_learned = (if le_size lrn \<noteq> None then Some lrn else None)\<rparr>)"

subsection \<open>The reports of a package's builds, one after the other\<close>

datatype size_report =
    ReportOom int string bool int int
  | ReportPeak rat int int

definition learnStep :: "learned \<Rightarrow> size_report \<Rightarrow> learned" where
  "learnStep cur rep = nvl (case rep of
     ReportOom at_size trust review task now \<Rightarrow> afterOom cur at_size trust review task now
   | ReportPeak peak task now \<Rightarrow> afterBuild cur peak task now) cur"

definition learnRun :: "learned \<Rightarrow> size_report list \<Rightarrow> learned" where
  "learnRun = foldl learnStep"

definition nothingLearned :: learned where
  "nothingLearned = \<lparr>le_size = None, le_lower = 0, le_task = None, le_why = None, le_at = None\<rparr>"

definition learned_ok :: "int \<Rightarrow> learned \<Rightarrow> bool" where
  "learned_ok cap l \<longleftrightarrow> 0 \<le> le_lower l \<and> le_lower l < DECAY_AFTER
     \<and> (case le_size l of None \<Rightarrow> le_lower l = 0 | Some s \<Rightarrow> 2 \<le> s \<and> s \<le> cap)"

fun report_within :: "int \<Rightarrow> size_report \<Rightarrow> bool" where
  "report_within cap (ReportOom at_size trust review task now) = (learnCap trust review \<le> cap)"
| "report_within cap (ReportPeak peak task now) = True"

subsection \<open>Lemmas\<close>

lemma learnStep_ok:
  assumes "learned_ok cap cur" "report_within cap rep" "2 \<le> cap"
  shows "learned_ok cap (learnStep cur rep)"
proof (cases rep)
  case (ReportOom at_size trust review task now)
  then show ?thesis
    using assms by (cases "le_size cur") (auto simp: learnStep_def afterOom_def learned_ok_def Let_def DECAY_AFTER_def max_def min_def)
next
  case (ReportPeak peak task now)
  then show ?thesis
    using assms by (cases "le_size cur") (auto simp: learnStep_def afterBuild_def learned_ok_def Let_def DECAY_AFTER_def)
qed

lemma learnRun_ok:
  assumes "learned_ok cap cur" "list_all (report_within cap) reports" "2 \<le> cap"
  shows "learned_ok cap (learnRun cur reports)"
  using assms(1,2) unfolding learnRun_def
  by (induction reports arbitrary: cur) (auto intro: learnStep_ok [OF _ _ assms(3)])

lemma learnCap_le: "learnCap trust review \<le> MAX_SIZE"
  by (simp add: learnCap_def signed_defs)

lemma report_within_MAX: "report_within MAX_SIZE rep"
  by (cases rep) (simp_all add: learnCap_le)

definition peaks :: "(rat \<times> int \<times> int) list \<Rightarrow> size_report list" where
  "peaks ps = map (\<lambda>(p, task, now). ReportPeak p task now) ps"

lemma lowerPeaks_count:
  assumes "le_size cur = Some s" "le_lower cur + int (length ps) < DECAY_AFTER" "list_all (\<lambda>x. fst x < peakBelowMb s) ps"
  shows "learnRun cur (peaks ps) = cur\<lparr>le_lower := le_lower cur + int (length ps)\<rparr>"
  using assms
proof (induction ps arbitrary: cur)
  case (Cons x ps)
  obtain p task now where x: "x = (p, task, now)" by (cases x) auto
  have step: "learnStep cur (ReportPeak p task now) = cur\<lparr>le_lower := le_lower cur + 1\<rparr>"
    using Cons.prems by (simp add: x learnStep_def afterBuild_def Let_def)
  have "learnRun (cur\<lparr>le_lower := le_lower cur + 1\<rparr>) (peaks ps)
      = (cur\<lparr>le_lower := le_lower cur + 1\<rparr>)\<lparr>le_lower := le_lower (cur\<lparr>le_lower := le_lower cur + 1\<rparr>) + int (length ps)\<rparr>"
    by (rule Cons.IH) (use Cons.prems in auto)
  then show ?case by (simp add: learnRun_def peaks_def x step)
qed (simp add: learnRun_def peaks_def)

lemma readEntry_ok:
  assumes "readEntry name v = Inr (Some s)"
  shows "(\<forall>n. sz_size s = Some n \<longrightarrow> 1 \<le> n \<and> n \<le> 4096) \<and> (\<forall>g. sz_disk_gb s = Some g \<longrightarrow> 1 \<le> g \<and> g \<le> 4096)
    \<and> (sz_size s \<noteq> None \<or> sz_disk_gb s \<noteq> None)"
  using assms
  by (auto simp: readEntry_def wholeOpt_def dest!: jint_in_bounds split: json.splits option.splits if_splits)

lemma readEntries_ok:
  "readEntries ps = Inr m \<Longrightarrow> (name, s) \<in> set m \<Longrightarrow> \<exists>v. (name, v) \<in> set ps \<and> readEntry name v = Inr (Some s)"
proof (induction ps arbitrary: m)
  case (Cons x rest)
  obtain n v where x: "x = (n, v)" by force
  from Cons.prems(1) obtain e out where e: "readEntry n v = Inr e" "readEntries rest = Inr out"
    and m: "m = (case e of None \<Rightarrow> out | Some y \<Rightarrow> (n, y) # out)"
    by (auto simp: x split: sum.splits)
  show ?case
  proof (cases "(name, s) \<in> set out")
    case True
    from Cons.IH [OF e(2) this] show ?thesis by auto
  next
    case False
    with m Cons.prems(2) e(1) show ?thesis by (auto simp: x split: option.splits)
  qed
qed simp

subsection \<open>Theorems\<close>

text \<open>
  C30. The learned size keeps its bounds over any history of reports: it is nothing, or a whole size from
  2 to the signed maximum, with fewer than five lower peaks counted; and when every out-of-memory
  report was of a contributor's build or of the project's copy of one, it never passes a
  contributor's 2, however often a recipe runs itself out of memory.
\<close>

theorem learned_size_bounded:
  "learned_ok MAX_SIZE (learnRun nothingLearned reports)
   \<and> (list_all (report_within COMMUNITY_MAX_SIZE) reports \<longrightarrow> learned_ok COMMUNITY_MAX_SIZE (learnRun nothingLearned reports))"
proof -
  have 0: "learned_ok cap nothingLearned" for cap
    by (simp add: learned_ok_def nothingLearned_def DECAY_AFTER_def)
  have "learned_ok MAX_SIZE (learnRun nothingLearned reports)"
    by (rule learnRun_ok [OF 0]) (simp_all add: list_all_iff report_within_MAX, simp add: signed_defs)
  moreover have "learned_ok COMMUNITY_MAX_SIZE (learnRun nothingLearned reports)"
    if "list_all (report_within COMMUNITY_MAX_SIZE) reports"
    by (rule learnRun_ok [OF 0 that]) (simp add: signed_defs)
  ultimately show ?thesis by blast
qed

theorem learned_size_bounded_witness:
  "learned_ok COMMUNITY_MAX_SIZE (learnRun nothingLearned
     [ReportOom 1 ''community'' False 7 100, ReportOom 2 ''community'' False 7 200, ReportOom 4 ''project'' True 9 300])"
  using learned_size_bounded [of "[ReportOom 1 ''community'' False 7 100, ReportOom 2 ''community'' False 7 200, ReportOom 4 ''project'' True 9 300]"]
  by (simp add: learnCap_def signed_defs)

text \<open>
  A learned size decays one step after exactly five builds in a row that peaked below what the next
  size down gives: the first four only count, the fifth lowers it (from 2 to nothing learned), and one
  build that needed the size in between starts the count over.
\<close>

theorem learned_size_decays:
  assumes "le_size cur = Some s" "le_lower cur = 0" "length ps = 4"
    and "list_all (\<lambda>x. fst x < peakBelowMb s) ps" "q < peakBelowMb s" "peakBelowMb s \<le> high"
  shows "le_size (learnRun cur (peaks ps)) = Some s
    \<and> le_size (learnRun cur (peaks ps @ [ReportPeak q i t])) = (if s > 2 then Some (s - 1) else None)
    \<and> learnRun cur (peaks ps @ [ReportPeak high i t]) = cur"
proof -
  have 1: "learnRun cur (peaks ps) = cur\<lparr>le_lower := 4\<rparr>"
    using lowerPeaks_count [of cur s ps] assms(1-4) by (simp add: DECAY_AFTER_def)
  have app: "learnRun cur (peaks ps @ [x]) = learnStep (learnRun cur (peaks ps)) x" for x by (simp add: learnRun_def)
  show ?thesis
    unfolding app 1 using assms(1,2,5,6)
    by (cases cur) (auto simp: learnStep_def afterBuild_def Let_def DECAY_AFTER_def)
qed

theorem learned_size_decays_witness:
  "le_size (learnRun \<lparr>le_size = Some 3, le_lower = 0, le_task = None, le_why = None, le_at = None\<rparr>
     (peaks [(100, 1, 1), (100, 2, 2), (100, 3, 3), (100, 4, 4)] @ [ReportPeak 100 5 5])) = Some 2"
proof -
  have "peakBelowMb 3 = 7872" by (simp add: peakBelowMb_def signed_defs)
  then show ?thesis
    using learned_size_decays [of "\<lparr>le_size = Some 3, le_lower = 0, le_task = None, le_why = None, le_at = None\<rparr>" 3
      "[(100, 1, 1), (100, 2, 2), (100, 3, 3), (100, 4, 4)]" 100 8000 5 5]
    by simp
qed

text \<open>
  The sizing file is taken whole or not at all: when it reads, every package it sizes has an entry in
  the file, a size and a disk budget from 1 to 4096 where given and at least one of them; and a package
  the file does not name gets its size from its page, else from what was learned, else 1.
\<close>

theorem readSizing_whole:
  assumes "readSizing parsed = Inr m" "(name, s) \<in> set m"
  shows "(\<forall>n. sz_size s = Some n \<longrightarrow> 1 \<le> n \<and> n \<le> 4096) \<and> (\<forall>g. sz_disk_gb s = Some g \<longrightarrow> 1 \<le> g \<and> g \<le> 4096)
    \<and> (sz_size s \<noteq> None \<or> sz_disk_gb s \<noteq> None)
    \<and> (\<exists>f pkgs v. parsed = Some f \<and> map_of f ''package'' = Some (JObj pkgs) \<and> (name, v) \<in> set pkgs)
    \<and> (map_of m other = None \<longrightarrow>
        sv_size (sizingView m other page disk row) = nvl page (nvl (le_size (learnedOf row)) 1))"
proof -
  from assms obtain f where f: "parsed = Some f" by (auto simp: readSizing_def split: option.splits)
  then obtain pkgs where pkgs: "map_of f ''package'' = Some (JObj pkgs)" "readEntries pkgs = Inr m"
    using assms by (auto simp: readSizing_def split: option.splits json.splits if_splits)
  from readEntries_ok [OF pkgs(2) assms(2)] obtain v where v: "(name, v) \<in> set pkgs" "readEntry name v = Inr (Some s)" by blast
  have "sv_size (sizingView m other page disk row) = nvl page (nvl (le_size (learnedOf row)) 1)" if "map_of m other = None"
    using that by (cases page) (simp_all add: sizingView_def Let_def)
  then show ?thesis using readEntry_ok [OF v(2)] f pkgs(1) v(1) by blast
qed

theorem readSizing_whole_witness:
  "readSizing (Some [(''schema'', JNum 1), (''package'', JObj [(''chromium'', JObj [(''size'', JNum 4), (''reason'', JStr ''links in 14 GB'')])])])
     = Inr [(''chromium'', \<lparr>sz_size = Some 4, sz_disk_gb = None\<rparr>)]
   \<and> sv_size (sizingView [(''chromium'', \<lparr>sz_size = Some 4, sz_disk_gb = None\<rparr>)] ''vim'' None None (rowOfLearned nothingLearned)) = 1"
proof -
  let ?f = "Some [(''schema'', JNum 1), (''package'', JObj [(''chromium'', JObj [(''size'', JNum 4), (''reason'', JStr ''links in 14 GB'')])])]"
  let ?m = "[(''chromium'', \<lparr>sz_size = Some 4, sz_disk_gb = None\<rparr>)]"
  have r: "readSizing ?f = Inr ?m" by code_simp
  from readSizing_whole [OF r, of "''chromium''" "\<lparr>sz_size = Some 4, sz_disk_gb = None\<rparr>" "''vim''" None None "rowOfLearned nothingLearned"]
  have "sv_size (sizingView ?m ''vim'' None None (rowOfLearned nothingLearned)) = nvl None (nvl (le_size (learnedOf (rowOfLearned nothingLearned))) 1)"
    by simp
  moreover have "le_size (learnedOf (rowOfLearned nothingLearned)) = None" by code_simp
  ultimately show ?thesis using r by simp
qed

end
