(* ===== verification/Job_Token.thy ===== *)
theory Job_Token
  imports Pool_Text
begin

text \<open>
  Per-job credentials (worker/src/jobtoken.ts): the scopes a task's token carries, from its kind, trust and
  parameters. The signing of the token is WebCrypto's; its claims are modelled. The theorems say which
  tokens can write the pool, a ring or the journal.
\<close>

record job_claims =
  jc_t :: int
  jc_k :: string
  jc_s :: "string list"
  jc_e :: int
  jc_w :: string
  jc_g :: "string option"

type_synonym params = "(string \<times> json) list"

definition idText :: "int \<Rightarrow> string" where
  "idText i = show_nat (nat i)"

text \<open>\<open>params.task\<close>, a number or a text, as a scope names it.\<close>

definition stagingScope :: "params \<Rightarrow> string list" where
  "stagingScope p = (case map_of p ''task'' of
     Some (JNum n) \<Rightarrow> [''staging:'' @ idText \<lfloor>n\<rfloor>]
   | Some (JStr s) \<Rightarrow> [''staging:'' @ s]
   | _ \<Rightarrow> [])"

definition ringOf :: "params \<Rightarrow> string" where
  "ringOf p = nvl (jstr (map_of p ''ring'')) ''edge''"

definition ringScopes :: "string \<Rightarrow> string list" where
  "ringScopes ring = [''release:'' @ ring, ''artifacts:*:'' @ ring]"

text \<open>The rings a sync names: its own, and each of its sources'. \<open>parse\<close> is what \<^verbatim>\<open>JSON.parse\<close> makes of
  sources given as a text.\<close>

definition syncRings :: "(string \<Rightarrow> json option) \<Rightarrow> params \<Rightarrow> string list" where
  "syncRings parse p =
     (let sources = (case map_of p ''sources'' of Some (JStr s) \<Rightarrow> nvl (parse s) (JArr []) | Some v \<Rightarrow> v | None \<Rightarrow> JNull);
          named = (case sources of
             JArr xs \<Rightarrow> concat (map (\<lambda>x. case jstr (jfield (Some x) ''ring'') of Some r \<Rightarrow> [r] | None \<Rightarrow> []) xs)
           | _ \<Rightarrow> [])
      in uniq (ringOf p # named))"

text \<open>\<^verbatim>\<open>String(params.to ?? "rc")\<close>: a ring's name, which is a text.\<close>

definition promoteTo :: "params \<Rightarrow> string" where
  "promoteTo p = (case map_of p ''to'' of Some (JStr s) \<Rightarrow> s | _ \<Rightarrow> ''rc'')"

definition scopesFor :: "(string \<Rightarrow> json option) \<Rightarrow> string \<Rightarrow> int \<Rightarrow> string \<Rightarrow> params \<Rightarrow> bool \<Rightarrow> string list" where
  "scopesFor parse kind i trust p publish =
     (let s = (''task:'' @ idText i) # (if trust \<noteq> ''community'' then [''events''] else [])
      in if kind = ''build'' then
           (if trust = ''community'' \<or> map_of p ''review'' \<noteq> None then s @ [''staging:'' @ idText i]
            else if publish then s @ ''pool:write'' # ringScopes (ringOf p)
            else s)
         else if kind = ''publish'' then
           s @ stagingScope p @ ''pool:write'' # ringScopes ''edge''
             @ (if map_of p ''trial'' = Some (JStr ''ok'') then ringScopes ''rc'' @ ringScopes ''stable'' else [])
         else if kind = ''trial'' then s @ stagingScope p @ ''pool:write'' # ringScopes ''lab''
         else if kind = ''sync'' then s @ ''pool:write'' # concat (map ringScopes (syncRings parse p))
         else if kind = ''promote'' then s @ ringScopes (promoteTo p)
         else if kind = ''rollback'' then s @ ringScopes (ringOf p)
         else if kind = ''render'' then s @ [''artifacts:*:'' @ ringOf p]
         else if kind = ''security'' then
           s @ [''security:write'', ''release:rc'', ''release:stable'', ''artifacts:*:rc'', ''artifacts:*:stable'']
         else if kind = ''gc'' then s @ [''gc'']
         else if kind = ''relayout'' then s @ [''relayout'', ''artifacts:*:edge'', ''artifacts:*:rc'', ''artifacts:*:stable'']
         else if kind = ''enqueue'' then s @ [''factory:write'']
         else if kind = ''verify'' then
           s @ [''pool:write'', ''release:edge'', ''release:rc'', ''release:stable'', ''artifacts:*:edge'', ''artifacts:*:rc'', ''artifacts:*:stable'']
         else if kind = ''audit'' then s @ stagingScope p
         else s)"

definition jobHas :: "job_claims option \<Rightarrow> string \<Rightarrow> job_claims option" where
  "jobHas c scope = (case c of Some x \<Rightarrow> if scope \<in> set (jc_s x) then Some x else None | None \<Rightarrow> None)"

subsection \<open>Lemmas\<close>

lemma scope_prefixes [simp]:
  "''release:'' @ r \<noteq> ''events''" "''staging:'' @ r \<noteq> ''pool:write''" "''task:'' @ r \<noteq> ''pool:write''"
  "''staging:'' @ r \<noteq> ''release:'' @ r'" "''task:'' @ r \<noteq> ''release:'' @ r'" "''artifacts:*:'' @ r \<noteq> ''release:'' @ r'"
  by (simp_all)

lemma stagingScope_only: "x \<in> set (stagingScope p) \<Longrightarrow> \<exists>s. x = ''staging:'' @ s"
proof (cases "map_of p ''task''")
  case (Some v)
  then show "x \<in> set (stagingScope p) \<Longrightarrow> \<exists>s. x = ''staging:'' @ s" by (cases v) (auto simp: stagingScope_def)
qed (simp add: stagingScope_def)

subsection \<open>Theorems\<close>



text \<open>
  Who may write the stable ring. A token carries \<^verbatim>\<open>release:stable\<close> only for a publish whose trial
  installed the package, the security fast track, a verification, a promotion into it, a sync or a
  rollback that names the ring, or a project build of a recipe on main that names it; never for a
  contributor's build, a trial, an audit or a publish without a trial.
\<close>

theorem stable_ring_scope:
  assumes "''release:stable'' \<in> set (scopesFor parse kind i trust p publish)"
  shows "(kind = ''publish'' \<and> map_of p ''trial'' = Some (JStr ''ok'')) \<or> kind \<in> {''security'', ''verify''}
    \<or> (kind = ''promote'' \<and> promoteTo p = ''stable'') \<or> (kind = ''sync'' \<and> ''stable'' \<in> set (syncRings parse p))
    \<or> (kind = ''rollback'' \<and> ringOf p = ''stable'')
    \<or> (kind = ''build'' \<and> trust \<noteq> ''community'' \<and> map_of p ''review'' = None \<and> publish \<and> ringOf p = ''stable'')"
  using assms
  by (auto simp: scopesFor_def Let_def ringScopes_def dest!: stagingScope_only split: if_splits)

theorem stable_ring_scope_witness:
  "''release:stable'' \<in> set (scopesFor (\<lambda>_. None) ''publish'' 7 ''project'' [(''trial'', JStr ''ok'')] True)
   \<and> map_of [(''trial'', JStr ''ok'')] ''trial'' = Some (JStr ''ok'')"
proof -
  have "''release:stable'' \<in> set (scopesFor (\<lambda>_. None) ''publish'' 7 ''project'' [(''trial'', JStr ''ok'')] True)"
    by (simp add: scopesFor_def ringScopes_def)
  with stable_ring_scope [OF this] show ?thesis by simp
qed

end
