(* ===== verification/Pool_Store.thy ===== *)
theory Pool_Store
  imports Sizing Job_Token
begin

text \<open>
  The tables the factory keeps in D1 (worker/migrations), as far as the operations on leases, targets
  and staging read or write them, and the two shapes of statement they are changed by: an
  \<^verbatim>\<open>UPDATE ... WHERE ... RETURNING\<close> (one atomic step: D1 serialises writes) and an \<^verbatim>\<open>INSERT\<close>.
  A time column is a number of milliseconds: the ISO texts order as the times do. Sentences written
  into a row or the journal are values of a datatype that carries what they interpolate.
\<close>

subsection \<open>Rows\<close>

text \<open>A person: their login and whether they are a maintainer.\<close>

type_synonym person = "login \<times> bool"

datatype task_status = Queued | Leased | Staged | Done | Failed | Cancelled

text \<open>
  In a task's row, \<open>t_review\<close>, \<open>t_needs_native\<close>, \<open>t_refused_4k\<close> and \<open>t_own_size\<close> are the keys of its
  params the lease operations read or set (\<^verbatim>\<open>review\<close>, \<^verbatim>\<open>needs_native\<close>, \<^verbatim>\<open>refused_4k\<close>, \<^verbatim>\<open>size\<close>), and
  \<open>t_params\<close> the others. What the error column says, from the statements that write it.\<close>

datatype task_error =
    LeaseExpired string
  | StoppedOn string string "string option" bool
  | LostByHost string bool
  | OnRevoked string string
  | Said string
  | OutOfMemory rat "int option" string
  | LostSpent string
  | TakenOut string
  | RoundClosed login bool bool string
  | SetAside arch login string
  | ClaimReleased login bool string
  | DecidedFirst string

record task =
  t_id :: int
  t_name :: string
  t_arch :: arch
  t_kind :: string
  t_trust :: string
  t_owner :: "string option"
  t_publish :: bool
  t_review :: "int option"
  t_version :: "string option"
  t_pkgbuild_ref :: string
  t_status :: task_status
  t_priority :: int
  t_attempts :: int
  t_max_attempts :: int
  t_lease_owner :: "string option"
  t_lease_expires :: "int option"
  t_started_at :: "int option"
  t_finished_at :: "int option"
  t_error :: "task_error option"
  t_stop_order :: "string option"
  t_lease_gen :: "string option"
  t_lane :: "mode option"
  t_size :: "int option"
  t_units :: "int option"
  t_disk_gb :: "rat option"
  t_release :: "string option"
  t_claim_id :: "string option"
  t_lease_missed :: int
  t_host_losses :: int
  t_reserved_at :: "int option"
  t_independent :: "independence option"
  t_pinned_to :: "string option"
  t_needs_native :: bool
  t_refused_4k :: bool
  t_own_size :: "int option"
  t_params :: params

text \<open>The rules' state of a worker: the spell it counts, the orders in it, and the pool's issues of the last day (a re-check or a
  restart).\<close>

datatype issue_kind = IssueRecheck | IssueRestart

record auto_state =
  au_spell :: "int option"
  au_rechecks :: nat
  au_restarts :: nat
  au_last_recheck :: "int option"
  au_last_restart :: "int option"
  au_gave_up :: "int option"
  au_day :: "(issue_kind \<times> int) list"

text \<open>A worker order's states, and its entry in its worker's list of open ones: id, kind, state, issuer, time, task.\<close>

datatype order_state = OPending | ODelivered | ODone | ORefused | OFailed | OExpired | OCancelled

type_synonym open_entry = "string \<times> string \<times> order_state \<times> string \<times> int \<times> int option"

text \<open>A registration (build\_workers), as the lease operations, the host's doors and the orders read and write it. A host's
  registration (kind \<^verbatim>\<open>host\<close>) is one with a host's id: the one statement that makes one sets both.\<close>

record worker =
  w_id :: string
  w_emulated :: bool
  w_current_task :: "int option"
  w_last_seen :: int
  w_done :: int
  w_failed :: int
  w_owner :: "login option"
  w_trust :: string
  w_host_id :: "string option"
  w_token_hash :: "string option"
  w_revoked_at :: "int option"
  w_drained_at :: "int option"
  w_open_orders :: "open_entry list"
  w_agent_error_since :: "int option"
  w_drained_by :: "string option"
  w_drain_reason :: "string option"
  w_auto_orders :: "auto_state option"
  w_site :: "string option"
  w_agent_checked_at :: "string option"
  w_version :: "string option"
  w_order_kinds :: "string list option"
  w_conflict_at :: "int option"
  w_restarts_left :: "int option"
  w_agent_via :: "string option"
  w_rollout :: "json option"
  w_arch :: arch
  w_agent :: "string option"
  w_agent_status :: "string option"
  w_kinds :: "string list option"

datatype pkg_status = Registered | Waiting | Building | PkgStaged | Approved | PkgPublished | Rejected | Unmaintained

datatype pkg_detail =
    BuildFailed string task_error bool
  | QueuedAgain task_error
  | WaitsForNative arch int
  | ProjectBuildFailed int string task_error
  | ProjectWaitsForNative int arch
  | QueuedAtSize int int
  | ProjectBuilds "string option" "arch list" "int list" login bool
  | ApprovedBy "string option" "arch list" login bool "arch list" "string option" "int list"
  | RoundClosedBy login bool bool string bool
  | ReleasedClaimOf "login option" login string
  | ApprovalWithdrawn "string option" "arch list" login string
  | NoDetail

datatype target_state = TWaiting | TBuilding | Built | NotSupported | Reviewing | Reviewed | TApproved | Published | NotShipping

record target =
  tg_status :: target_state
  tg_task :: "int option"

type_synonym targets = "(arch \<times> target) list"

record package =
  p_name :: string
  p_arches :: "arch list"
  p_closed_through :: "int option"
  p_status :: pkg_status
  p_detail :: pkg_detail
  p_targets :: targets
  p_size :: "int option"
  p_disk_gb :: "rat option"
  p_learned :: learned_row
  p_owner :: login
  p_request_id :: "int option"
  p_freed_by_review :: "int option"

text \<open>A decision on one target (approvals): the build decided, the project's build it publishes and the review it is a row of. The table
  is the newest first.\<close>

record decision =
  a_id :: int
  a_name :: string
  a_arch :: arch
  a_task_id :: int
  a_rebuild_task :: "int option"
  a_approved :: bool
  a_withdrawn_at :: "int option"
  a_version :: "string option"
  a_by :: login
  a_note :: "string option"
  a_review_id :: "int option"
  a_through :: "string option"

text \<open>A review (reviews): one decision on a package's version, whole. The table is the newest first. And the solo-maintainer exception
  the governance file may write.\<close>

record review =
  v_id :: int
  v_name :: string
  v_version :: "string option"
  v_approved :: bool
  v_by :: login
  v_note :: "string option"
  v_arches :: "arch list"
  v_not_supported :: "(arch \<times> int option) list"
  v_released :: bool
  v_changes :: bool
  v_only_reason :: "string option"
  v_not_shipping :: json
  v_solo_since :: "string option"
  v_withdrawn_at :: "int option"

record solo =
  sl_maintainer :: login
  sl_since :: string
  sl_reason :: string

record staged_object =
  s_key :: string
  s_size :: int
  s_task_id :: "int option"
  s_uploaded_at :: int

text \<open>What the pool says of an order, in its detail and its lines: the sentences of orders.ts and routes/orders.ts with what they
  interpolate.\<close>

datatype order_detail =
    DWords string
  | DBackAfter int
  | DEndedUnanswered
  | DRechecked "string option"
  | DAnswersAgain
  | DDrainedUnheard
  | DDrainedHeard
  | DUpdateExpired
  | DNotDelivered
  | DNowRuns "string option"
  | DTakesNone "string option"
  | DCannotTake string "string option"
  | DRestartedSince int
  | DProbedSince "string option"
  | DAnswersNow
  | DStopped int int bool
  | DStopCancelled int
  | DLeaseEnded int "(int \<times> task_status) option"
  | DNoAnswer
  | DCancelledBy login
  | DResumedBy login
  | DDrainResumedBy login
  | DUnknownKind "string option"
  | DAnswered string
  | DCode string string
  | DServiceCode string "string option" "int option"

text \<open>A worker order (worker\_orders).\<close>

record order_row =
  o_id :: string
  o_worker :: string
  o_kind :: string
  o_reason :: "string option"
  o_issued_by :: string
  o_via :: "string option"
  o_rule :: "string option"
  o_unless :: bool
  o_task :: "int option"
  o_site :: "string option"
  o_issued_at :: int
  o_expires_at :: int
  o_baseline_at_issue :: "string option"
  o_state :: order_state
  o_delivered_at :: "int option"
  o_delivered_to :: "string option"
  o_baseline :: "string option"
  o_accepted_at :: "int option"
  o_answered_at :: "int option"
  o_answered_by :: "string option"
  o_code :: "string option"
  o_detail :: "order_detail option"
  o_worker_detail :: "string option"

text \<open>A host (hosts): its row as the claims, the signed requests and the doors on it read it. The report
  and the sandbox columns are the JSON values their texts parse to.\<close>

record host_row =
  hr_id :: string
  hr_name :: string
  hr_owner_login :: login
  hr_owner_github_id :: int
  hr_pubkey :: string
  hr_status :: string
  hr_status_by :: "string option"
  hr_status_at :: "int option"
  hr_status_reason :: "string option"
  hr_owner_removed_at :: "int option"
  hr_worker_id :: "string option"
  hr_asleep_at :: "int option"
  hr_reported_at :: "int option"
  hr_report :: "json option"
  hr_agent_version :: "string option"
  hr_lanes :: "lane list"
  hr_pool_cap_units :: "int option"
  hr_reserving_task :: "int option"
  hr_reserving_since :: "int option"
  hr_soaking_until :: "string option"
  hr_soak_quarantine :: "string option"
  hr_pool_behind_github :: "string option"
  hr_rolled_back_from :: "string option"
  hr_rolled_back_at :: "stamp option"
  hr_release_applied :: "string option"
  hr_sandbox_applied :: "json option"
  hr_arch :: arch
  hr_isolation :: "string option"
  hr_dedicated :: "bool option"
  hr_units :: "int option"
  hr_settings :: "(string \<times> json) list option"
  hr_enrolled_at :: int
  hr_confirmed_at :: "int option"
  hr_token_issued_at :: "int option"
  hr_prev_token_hash :: "string option"
  hr_prev_token_until :: "int option"
  hr_last_seen :: "int option"
  hr_report_text :: "string option"
  hr_seal_key :: "string option"
  hr_seal_confirmed :: "json option"

text \<open>A host order (host\_orders), a one-time enrollment (host\_enrollments), a nonce seen (host\_nonces) and
  the lines of a diagnostics order (host\_diagnostics).\<close>

datatype host_order_state = HoOpen | HoDone | HoRefused | HoFailed | HoExpired | HoCancelled

record host_order =
  ho_id :: string
  ho_host :: string
  ho_kind :: string
  ho_arg :: "(string \<times> json) list option"
  ho_issued_by :: login
  ho_issued_at :: int
  ho_not_after :: int
  ho_state :: host_order_state
  ho_answered_at :: "int option"
  ho_detail :: "string option"

record enrollment =
  he_token_hash :: string
  he_login :: login
  he_github_id :: int
  he_name :: string
  he_expires_at :: int
  he_used_at :: "int option"

record nonce_row =
  hn_host :: string
  hn_nonce :: string
  hn_at :: int

record diagnostics_row =
  hg_order :: string
  hg_host :: string
  hg_at :: int
  hg_lines :: "string list"
  hg_dropped :: nat

datatype event_status = EvOk | EvWarn | EvError

text \<open>A line of the journal: of a task (the worker it names, what it says, the attempts it counts), or of a
  size learned or set, of a host (its id or owner, who, why, the act and the tasks it fenced), of a worker order
  (its id, worker, kind, the state it says and its words), a cap the pool or a login met, builds unpinned from a drained worker, a breaker
  (its provider and what it says), of a review (the package, who, the act, the tasks it names and the mark of the solo exception), or of a role.\<close>

record task_event =
  ev_status :: event_status
  ev_task :: int
  ev_worker :: string
  ev_error :: "task_error option"
  ev_attempts :: int
  ev_failed :: bool

datatype event =
    TaskEvent task_event
  | SizeEvent event_status string int int
  | ClampEvent int int int string
  | HostEvent event_status string login "string option" string "int list"
  | OrderEvent string string string order_state order_detail
  | CapEvent string string
  | UnpinEvent string "int list"
  | BreakerEvent string string
  | RoleEvent event_status login string
  | ReviewEvent event_status string login string "int list" "(login \<times> string) option"

record db =
  d_tasks :: "task list"
  d_workers :: "worker list"
  d_packages :: "package list"
  d_decisions :: "decision list"
  d_reviews :: "review list"
  d_solo :: "solo option"
  d_staging :: "staged_object list"
  d_objects :: "string list"
  d_orders :: "order_row list"
  d_hosts :: "host_row list"
  d_maintainers :: "login list"
  d_contributors :: "(login \<times> int) list"
  d_settings :: "(string \<times> string) list"
  d_host_orders :: "host_order list"
  d_enrollments :: "enrollment list"
  d_nonces :: "nonce_row list"
  d_diagnostics :: "diagnostics_row list"
  d_events :: "event list"

subsection \<open>Statements\<close>

text \<open>\<^verbatim>\<open>UPDATE t SET f WHERE P\<close>: the table after it, and the rows it changed as \<^verbatim>\<open>RETURNING *\<close>
  gives them.\<close>

definition sql_update :: "('r \<Rightarrow> bool) \<Rightarrow> ('r \<Rightarrow> 'r) \<Rightarrow> 'r list \<Rightarrow> 'r list" where
  "sql_update P f rows = map (\<lambda>x. if P x then f x else x) rows"

definition sql_returning :: "('r \<Rightarrow> bool) \<Rightarrow> ('r \<Rightarrow> 'r) \<Rightarrow> 'r list \<Rightarrow> 'r list" where
  "sql_returning P f rows = map f (filter P rows)"

definition update_tasks :: "(task \<Rightarrow> bool) \<Rightarrow> (task \<Rightarrow> task) \<Rightarrow> db \<Rightarrow> task option \<times> db" where
  "update_tasks P f d = (first_of (sql_returning P f (d_tasks d)), d\<lparr>d_tasks := sql_update P f (d_tasks d)\<rparr>)"

definition row_of :: "int \<Rightarrow> db \<Rightarrow> task option" where
  "row_of i d = find (\<lambda>t. t_id t = i) (d_tasks d)"

definition add_event :: "event \<Rightarrow> db \<Rightarrow> db" where
  "add_event e d = d\<lparr>d_events := e # d_events d\<rparr>"

lemma sql_update_Nil [simp]: "sql_update P f [] = []"
  by (simp add: sql_update_def)

lemma sql_update_Cons [simp]: "sql_update P f (x # xs) = (if P x then f x else x) # sql_update P f xs"
  by (simp add: sql_update_def)

lemma length_sql_update [simp]: "length (sql_update P f xs) = length xs"
  by (simp add: sql_update_def)

lemma set_sql_update: "set (sql_update P f xs) = (\<lambda>x. if P x then f x else x) ` set xs"
  by (simp add: sql_update_def)

lemma sql_update_keys:
  assumes "\<And>x. P x \<Longrightarrow> k (f x) = k x"
  shows "map k (sql_update P f xs) = map k xs"
  using assms by (induction xs) auto

lemma sql_update_none: "(\<And>x. x \<in> set xs \<Longrightarrow> \<not> P x) \<Longrightarrow> sql_update P f xs = xs"
  by (induction xs) auto

text \<open>A statement that changed no row returned none.\<close>

lemma sql_returning_None: "first_of (sql_returning P f xs) = None \<longleftrightarrow> (\<forall>x \<in> set xs. \<not> P x)"
  by (induction xs) (auto simp: sql_returning_def)

lemma sql_returning_Some:
  "first_of (sql_returning P f xs) = Some y \<Longrightarrow> \<exists>x \<in> set xs. P x \<and> y = f x"
  by (induction xs) (auto simp: sql_returning_def split: if_splits)

lemma find_distinct:
  assumes "distinct (map k xs)" "x \<in> set xs"
  shows "find (\<lambda>y. k y = k x) xs = Some x"
  using assms by (induction xs) force+

subsection \<open>A host of the examples\<close>

definition empty_db :: db where
  "empty_db = \<lparr>d_tasks = [], d_workers = [], d_packages = [], d_decisions = [], d_reviews = [], d_solo = None, d_staging = [], d_objects = [], d_orders = [],
     d_hosts = [], d_maintainers = [], d_contributors = [], d_settings = [], d_host_orders = [], d_enrollments = [], d_nonces = [],
     d_diagnostics = [], d_events = []\<rparr>"

definition ex_host_row :: host_row where
  "ex_host_row = \<lparr>hr_id = ''h_1'', hr_name = ''studio'', hr_owner_login = ''ann'', hr_owner_github_id = 7,
     hr_pubkey = replicate 43 (CHR ''A''), hr_status = ''active'', hr_status_by = None, hr_status_at = None, hr_status_reason = None,
     hr_owner_removed_at = None, hr_worker_id = Some ''h1'', hr_asleep_at = None, hr_reported_at = Some 0, hr_report = None,
     hr_agent_version = Some ''0.4.0'', hr_lanes = [\<lparr>l_arch = ''x86_64'', l_mode = Native, l_page16k = None\<rparr>],
     hr_pool_cap_units = None, hr_reserving_task = None, hr_reserving_since = None, hr_soaking_until = None,
     hr_soak_quarantine = None, hr_pool_behind_github = None, hr_rolled_back_from = None, hr_rolled_back_at = None, hr_release_applied = None,
     hr_sandbox_applied = None, hr_arch = ''x86_64'', hr_isolation = Some ''root'', hr_dedicated = Some True, hr_units = Some 5,
     hr_settings = None, hr_enrolled_at = 0, hr_confirmed_at = Some 0, hr_token_issued_at = None, hr_prev_token_hash = None,
     hr_prev_token_until = None, hr_last_seen = Some 0, hr_report_text = None, hr_seal_key = None, hr_seal_confirmed = None\<rparr>"

definition ex_worker :: worker where
  "ex_worker = \<lparr>w_id = ''h1'', w_emulated = False, w_current_task = None, w_last_seen = 0, w_done = 0, w_failed = 0, w_owner = Some ''ann'',
     w_trust = ''project'', w_host_id = Some ''h_1'', w_token_hash = None, w_revoked_at = None, w_drained_at = None,
     w_open_orders = [], w_agent_error_since = None, w_drained_by = None, w_drain_reason = None, w_auto_orders = None, w_site = None, w_agent_checked_at = None,
     w_version = None, w_order_kinds = None, w_conflict_at = None, w_restarts_left = None, w_agent_via = None, w_rollout = None,
     w_arch = ''x86_64'', w_agent = None, w_agent_status = None, w_kinds = None\<rparr>"

end
