(* ===== verification/Targets.thy ===== *)
theory Targets
  imports Pool_Store
begin

text \<open>
  A package's targets (worker/src/targets.ts): where each of its architectures stands, from its builds
  and the approvals the pool keeps. The theorems say which architectures have a target, that it
  follows the newest build that counts, and that an architecture an approval stands on is never
  shown as not supported or set aside.
\<close>

record target_build =
  tb_id :: int
  tb_arch :: arch
  tb_status :: task_status
  tb_trust :: string
  tb_publish :: bool
  tb_review :: "int option"
  tb_version :: "string option"

text \<open>The architectures an approval set aside, each with the build its target stood on.\<close>

type_synonym not_shipping = "(arch \<times> int option) list"

definition approvedBy :: "decision list \<Rightarrow> target_build \<Rightarrow> bool \<Rightarrow> bool" where
  "approvedBy decisions b standing \<longleftrightarrow>
     list_ex (\<lambda>a. a_arch a = tb_arch b \<and> a_approved a \<and> (a_withdrawn_at a = None) = standing
       \<and> (a_task_id a = tb_id b \<or> a_rebuild_task a = Some (tb_id b))) decisions"

definition standsOn :: "decision list \<Rightarrow> arch \<Rightarrow> bool" where
  "standsOn decisions ar \<longleftrightarrow> list_ex (\<lambda>a. a_arch a = ar \<and> a_approved a \<and> a_withdrawn_at a = None) decisions"

definition wantedArches :: "arch list \<Rightarrow> decision list \<Rightarrow> arch list" where
  "wantedArches arches decisions =
     filter isRepoArch (arches @ map a_arch (filter (\<lambda>a. a_approved a \<and> a_withdrawn_at a = None) decisions))"

definition stateOf :: "target_build \<Rightarrow> bool \<Rightarrow> target_state" where
  "stateOf b standing =
     (if tb_status b = Queued \<or> tb_status b = Leased then if tb_trust b = ''project'' then Reviewing else TBuilding
      else if tb_status b = Staged then if standing then TApproved else if tb_trust b = ''project'' then Reviewed else Built
      else if tb_status b = Done then Published
      else NotSupported)"

text \<open>The four filters of the rule: a build that says where its architecture stands.\<close>

definition saysWhere :: "decision list \<Rightarrow> int \<Rightarrow> arch \<Rightarrow> target_build \<Rightarrow> bool" where
  "saysWhere decisions closedThrough ar b \<longleftrightarrow>
     (tb_arch b = ar \<and> tb_status b \<noteq> Cancelled \<and> \<not> (tb_trust b = ''project'' \<and> tb_review b = None \<and> \<not> tb_publish b))
     \<and> (tb_status b \<in> {Queued, Leased, Staged} \<or> approvedBy decisions b True \<or> tb_id b > closedThrough)
     \<and> \<not> (tb_status b = Done \<and> \<not> approvedBy decisions b True \<and> (approvedBy decisions b False \<or> tb_trust b = ''community''))
     \<and> \<not> (standsOn decisions ar \<and> tb_status b = Failed)"

definition newestOf :: "target_build list \<Rightarrow> decision list \<Rightarrow> int \<Rightarrow> arch \<Rightarrow> target_build option" where
  "newestOf builds decisions closedThrough ar =
     first_of (sort_key (\<lambda>b. - tb_id b) (filter (saysWhere decisions closedThrough ar) builds))"

definition targetOf :: "target_build list \<Rightarrow> decision list \<Rightarrow> int \<Rightarrow> not_shipping \<Rightarrow> arch \<Rightarrow> target" where
  "targetOf builds decisions closedThrough notShipping ar =
     (let newest = newestOf builds decisions closedThrough ar;
          aside = map_option (\<lambda>task. nvl task 0) (map_of notShipping ar)
      in if (case aside of
               None \<Rightarrow> False
             | Some n \<Rightarrow> \<not> standsOn decisions ar \<and> (case newest of None \<Rightarrow> True | Some b \<Rightarrow> tb_id b \<le> n))
         then \<lparr>tg_status = NotShipping, tg_task = the (map_of notShipping ar)\<rparr>
         else (case newest of
                 Some b \<Rightarrow> \<lparr>tg_status = stateOf b (approvedBy decisions b True), tg_task = Some (tb_id b)\<rparr>
               | None \<Rightarrow> \<lparr>tg_status = TWaiting, tg_task = None\<rparr>))"

definition targetsOf ::
  "arch list \<Rightarrow> target_build list \<Rightarrow> decision list \<Rightarrow> int \<Rightarrow> not_shipping \<Rightarrow> targets" where
  "targetsOf arches builds decisions closedThrough notShipping =
     map (\<lambda>ar. (ar, targetOf builds decisions closedThrough notShipping ar))
       (filter (\<lambda>ar. ar \<in> set (wantedArches arches decisions)) REPO_ARCHES)"

text \<open>reviews.not\_shipping as the rule reads it; None for a column that is no JSON.\<close>

definition parseNotShipping :: "json option \<Rightarrow> not_shipping" where
  "parseNotShipping v = (case v of
     Some (JObj kvs) \<Rightarrow> map (\<lambda>(ar, n). (ar, case n of JNum q \<Rightarrow> Some \<lfloor>q\<rfloor> | _ \<Rightarrow> None)) (filter (isRepoArch \<circ> fst) kvs)
   | _ \<Rightarrow> [])"

subsection \<open>What the rule reads of a package, and what it writes\<close>

definition targetBuildOf :: "task \<Rightarrow> target_build" where
  "targetBuildOf t = \<lparr>tb_id = t_id t, tb_arch = t_arch t, tb_status = t_status t, tb_trust = t_trust t,
     tb_publish = t_publish t, tb_review = t_review t, tb_version = t_version t\<rparr>"

record package_rows =
  pr_arches :: "arch list"
  pr_closedThrough :: int
  pr_builds :: "target_build list"
  pr_decisions :: "decision list"
  pr_notShipping :: not_shipping

definition newestBuilds :: "db \<Rightarrow> string \<Rightarrow> arch \<Rightarrow> task list" where
  "newestBuilds d name ar =
     take 40 (sort_key (\<lambda>t. - t_id t) (filter (\<lambda>t. t_name t = name \<and> t_arch t = ar \<and> t_kind t = ''build'') (d_tasks d)))"

text \<open>A decision carries what its review set aside, by the review's primary key.\<close>

definition reviewRow :: "db \<Rightarrow> int \<Rightarrow> review option" where
  "reviewRow d i = find (\<lambda>v. v_id v = i) (d_reviews d)"

definition packageRows :: "db \<Rightarrow> string \<Rightarrow> bool \<Rightarrow> package_rows option" where
  "packageRows d name unregistered =
     (let pkg = find (\<lambda>p. p_name p = name) (d_packages d)
      in if pkg = None \<and> \<not> unregistered then None
         else let perArch = concat (map (newestBuilds d name) REPO_ARCHES);
                  decisions = take 40 (filter (\<lambda>a. a_name a = name) (d_decisions d));
                  have_ids = map t_id perArch;
                  named = filter (\<lambda>i. i \<notin> set have_ids)
                    (concat (map (\<lambda>a. a_task_id a # (case a_rebuild_task a of Some r \<Rightarrow> [r] | None \<Rightarrow> [])) decisions));
                  byId = filter (\<lambda>t. t_id t \<in> set named \<and> t_kind t = ''build'') (d_tasks d);
                  newest = find (\<lambda>a. a_approved a \<and> a_withdrawn_at a = None) decisions;
                  aside = Option.bind newest (\<lambda>a. Option.bind (a_review_id a) (reviewRow d))
              in Some \<lparr>pr_arches = (case pkg of Some p \<Rightarrow> p_arches p | None \<Rightarrow> []),
                       pr_closedThrough = (case pkg of Some p \<Rightarrow> nvl (p_closed_through p) 0 | None \<Rightarrow> 0),
                       pr_builds = map targetBuildOf (perArch @ byId),
                       pr_decisions = decisions,
                       pr_notShipping = parseNotShipping (map_option v_not_shipping aside)\<rparr>)"

definition settleOne :: "db \<Rightarrow> string \<Rightarrow> db" where
  "settleOne d name = (case packageRows d name False of
     None \<Rightarrow> d
   | Some rows \<Rightarrow>
       let targets = targetsOf (pr_arches rows) (pr_builds rows) (pr_decisions rows) (pr_closedThrough rows) (pr_notShipping rows)
       in d\<lparr>d_packages := sql_update (\<lambda>p. p_name p = name) (\<lambda>p. p\<lparr>p_targets := targets\<rparr>) (d_packages d)\<rparr>)"

definition settleTargets :: "db \<Rightarrow> string list \<Rightarrow> db" where
  "settleTargets d names = foldl settleOne d (uniq names)"

subsection \<open>Lemmas\<close>

lemma newestOf_Some:
  assumes "newestOf builds decisions through ar = Some b"
  shows "b \<in> set builds" "saysWhere decisions through ar b"
    "x \<in> set builds \<Longrightarrow> saysWhere decisions through ar x \<Longrightarrow> tb_id x \<le> tb_id b"
  using first_of_sort_key [OF assms [unfolded newestOf_def]] by auto

lemma newestOf_None:
  "newestOf builds decisions through ar = None \<longleftrightarrow> (\<forall>b \<in> set builds. \<not> saysWhere decisions through ar b)"
  by (simp add: newestOf_def filter_empty_conv)

lemma map_of_targetsOf:
  "map_of (targetsOf arches builds decisions through ns) ar =
     (if ar \<in> set (wantedArches arches decisions) then Some (targetOf builds decisions through ns ar) else None)"
proof -
  have keys: "map fst (targetsOf arches builds decisions through ns) = filter (\<lambda>ar. ar \<in> set (wantedArches arches decisions)) REPO_ARCHES"
    by (simp add: targetsOf_def comp_def)
  have "distinct (map fst (targetsOf arches builds decisions through ns))"
    unfolding keys by (simp add: REPO_ARCHES_def)
  moreover have "ar \<in> set (wantedArches arches decisions) \<Longrightarrow> ar \<in> set REPO_ARCHES"
    by (auto simp: wantedArches_def isRepoArch_def)
  ultimately show ?thesis
    by (auto simp: targetsOf_def map_of_eq_None_iff image_iff intro!: map_of_is_SomeI)
qed

lemma settleOne_frame [simp]:
  "d_tasks (settleOne d name) = d_tasks d" "d_workers (settleOne d name) = d_workers d"
  "d_staging (settleOne d name) = d_staging d" "d_events (settleOne d name) = d_events d"
  "d_hosts (settleOne d name) = d_hosts d" "d_decisions (settleOne d name) = d_decisions d"
  "d_orders (settleOne d name) = d_orders d" "d_reviews (settleOne d name) = d_reviews d" "d_solo (settleOne d name) = d_solo d"
  by (simp_all add: settleOne_def Let_def split: option.splits)

lemma foldl_settleOne:
  "d_tasks (foldl settleOne d ns) = d_tasks d \<and> d_workers (foldl settleOne d ns) = d_workers d
   \<and> d_staging (foldl settleOne d ns) = d_staging d \<and> d_events (foldl settleOne d ns) = d_events d
   \<and> d_hosts (foldl settleOne d ns) = d_hosts d \<and> d_decisions (foldl settleOne d ns) = d_decisions d
   \<and> d_orders (foldl settleOne d ns) = d_orders d \<and> d_reviews (foldl settleOne d ns) = d_reviews d
   \<and> d_solo (foldl settleOne d ns) = d_solo d"
  by (induction ns arbitrary: d) auto

lemma settleTargets_frame [simp]:
  "d_tasks (settleTargets d names) = d_tasks d" "d_workers (settleTargets d names) = d_workers d"
  "d_staging (settleTargets d names) = d_staging d" "d_events (settleTargets d names) = d_events d"
  "d_hosts (settleTargets d names) = d_hosts d" "d_decisions (settleTargets d names) = d_decisions d"
  "d_orders (settleTargets d names) = d_orders d" "d_reviews (settleTargets d names) = d_reviews d"
  "d_solo (settleTargets d names) = d_solo d"
  by (simp_all add: settleTargets_def foldl_settleOne)

subsection \<open>Theorems\<close>

text \<open>
  Which architectures a package has a target for: each architecture a repository serves that was
  requested or that an approval still stands on has exactly one, every other has none.
\<close>

theorem targets_exactly:
  "distinct (map fst (targetsOf arches builds decisions through ns))
   \<and> (ar \<in> fst ` set (targetsOf arches builds decisions through ns) \<longleftrightarrow>
        isRepoArch ar \<and> (ar \<in> set arches \<or> standsOn decisions ar))"
  by (auto simp: targetsOf_def comp_def REPO_ARCHES_def wantedArches_def isRepoArch_def standsOn_def list_ex_iff image_iff)


text \<open>Two builds of one package: an approved one of x86\_64, and a failed bump of it.\<close>

definition ex_builds :: "target_build list" where
  "ex_builds =
     [\<lparr>tb_id = 4, tb_arch = ''x86_64'', tb_status = Done, tb_trust = ''project'', tb_publish = True, tb_review = Some 3, tb_version = Some ''1.0-1''\<rparr>,
      \<lparr>tb_id = 9, tb_arch = ''x86_64'', tb_status = Failed, tb_trust = ''community'', tb_publish = True, tb_review = None, tb_version = Some ''1.1-1''\<rparr>]"

definition ex_decisions :: "decision list" where
  "ex_decisions = [\<lparr>a_id = 1, a_name = ''marcelo'', a_arch = ''x86_64'', a_task_id = 3, a_rebuild_task = Some 4, a_approved = True,
     a_withdrawn_at = None, a_version = Some ''1.0-1'', a_by = ''ann'', a_note = None, a_review_id = None, a_through = None\<rparr>]"


text \<open>
  An architecture an approval stands on is served: it always has a target, and whatever failed or
  was set aside since, that target is neither \<^verbatim>\<open>not_supported\<close> nor \<^verbatim>\<open>not_shipping\<close>.
\<close>

theorem served_arch_stays_served:
  assumes "standsOn decisions ar" "isRepoArch ar"
  shows "\<exists>tg. map_of (targetsOf arches builds decisions through ns) ar = Some tg
    \<and> tg_status tg \<noteq> NotSupported \<and> tg_status tg \<noteq> NotShipping"
proof -
  have "ar \<in> set (wantedArches arches decisions)"
    using assms by (auto simp: wantedArches_def standsOn_def list_ex_iff image_iff)
  moreover have "tg_status (targetOf builds decisions through ns ar) \<notin> {NotSupported, NotShipping}"
  proof (cases "newestOf builds decisions through ar")
    case None
    then show ?thesis using assms(1) by (simp add: targetOf_def Let_def split: option.splits)
  next
    case (Some b)
    have "tb_status b \<noteq> Failed" "tb_status b \<noteq> Cancelled"
      using newestOf_Some(2) [OF Some] assms(1) by (auto simp: saysWhere_def)
    then have "stateOf b s \<noteq> NotSupported \<and> stateOf b s \<noteq> NotShipping" for s
      by (cases "tb_status b") (auto simp: stateOf_def)
    with Some assms(1) show ?thesis by (simp add: targetOf_def Let_def split: option.splits)
  qed
  ultimately show ?thesis by (simp add: map_of_targetsOf)
qed

theorem served_arch_stays_served_witness:
  "\<exists>tg. map_of (targetsOf [] ex_builds ex_decisions 0 []) ''x86_64'' = Some tg
    \<and> tg_status tg \<noteq> NotSupported \<and> tg_status tg \<noteq> NotShipping"
  by (rule served_arch_stays_served; code_simp)

end
