(* ===== verification/Staging.thy ===== *)
theory Staging
  imports Pool_Store
begin

text \<open>
  Staging (worker/src/staging.ts): the packages of builds the pool is done with go, in the table and
  in the bucket together, and the text evidence stays until the weekly sweep.
\<close>

definition STAGING_DAYS :: int where "STAGING_DAYS = 30"

definition DAY_MS :: int where "DAY_MS = 86400000"

definition isTextEvidence :: "string \<Rightarrow> bool" where
  "isTextEvidence filename \<longleftrightarrow>
     ends_with ''.log'' filename \<or> filename = ''PKGBUILD'' \<or> filename = ''PKGINFO'' \<or> ends_with ''.json'' filename \<or> ends_with ''.md'' filename"

definition basename :: "string \<Rightarrow> string" where
  "basename key = last (split_on (CHR ''/'') key)"

text \<open>The objects of the bucket first, then their rows; the bytes given back.\<close>

definition drop_staged :: "staged_object list \<Rightarrow> db \<Rightarrow> int \<times> db" where
  "drop_staged rows d =
     (if rows = [] then (0, d)
      else let keys = map s_key rows
           in (sum_list (map s_size rows),
               d\<lparr>d_objects := filter (\<lambda>k. k \<notin> set keys) (d_objects d),
                 d_staging := filter (\<lambda>r. s_key r \<notin> set keys) (d_staging d)\<rparr>))"

definition reclaimStagingPackages :: "int list \<Rightarrow> db \<Rightarrow> int \<times> db" where
  "reclaimStagingPackages taskIds d =
     (let ids = filter (\<lambda>i. i > 0) taskIds
      in if ids = [] then (0, d)
         else drop_staged (filter (\<lambda>r. (\<exists>i \<in> set ids. s_task_id r = Some i) \<and> \<not> isTextEvidence (basename (s_key r))) (d_staging d)) d)"

record swept =
  sw_expired :: int
  sw_expired_bytes :: int
  sw_reclaimed :: int
  sw_reclaimed_bytes :: int

text \<open>A build whose packages nobody needs any more: finished, or a contributor's whose project build is done.\<close>

definition finishedBuild :: "db \<Rightarrow> task \<Rightarrow> bool" where
  "finishedBuild d t \<longleftrightarrow>
     t_status t \<in> {Cancelled, Failed, Done}
     \<or> (t_status t = Staged \<and> t_trust t = ''community''
        \<and> list_ex (\<lambda>p. t_kind p = ''build'' \<and> t_trust p = ''project'' \<and> t_status p = Done \<and> t_review p = Some (t_id t)) (d_tasks d))"

definition sweepStaging :: "int \<Rightarrow> nat \<Rightarrow> db \<Rightarrow> swept \<times> db" where
  "sweepStaging now limit d =
     (let old = take limit (sort_key s_uploaded_at (filter (\<lambda>r. s_uploaded_at r < now - STAGING_DAYS * DAY_MS) (d_staging d)));
          (expired_bytes, d1) = drop_staged old d;
          finished = take limit (filter (\<lambda>r. list_ex (\<lambda>t. s_task_id r = Some (t_id t) \<and> finishedBuild d1 t) (d_tasks d1)) (d_staging d1));
          packages = filter (\<lambda>r. \<not> isTextEvidence (basename (s_key r))) finished;
          (reclaimed_bytes, d2) = drop_staged packages d1
      in (\<lparr>sw_expired = int (length old), sw_expired_bytes = expired_bytes,
           sw_reclaimed = int (length packages), sw_reclaimed_bytes = reclaimed_bytes\<rparr>, d2))"

text \<open>No row counts toward a quota without its object.\<close>

definition staging_ok :: "db \<Rightarrow> bool" where
  "staging_ok d \<longleftrightarrow> distinct (map s_key (d_staging d)) \<and> (\<forall>r \<in> set (d_staging d). s_key r \<in> set (d_objects d))"

definition staged_bytes :: "db \<Rightarrow> int" where
  "staged_bytes d = sum_list (map s_size (d_staging d))"

subsection \<open>Lemmas\<close>

lemma drop_staged_frame [simp]:
  "d_tasks (snd (drop_staged rows d)) = d_tasks d" "d_workers (snd (drop_staged rows d)) = d_workers d"
  "d_packages (snd (drop_staged rows d)) = d_packages d" "d_events (snd (drop_staged rows d)) = d_events d"
  "d_hosts (snd (drop_staged rows d)) = d_hosts d" "d_orders (snd (drop_staged rows d)) = d_orders d"
  by (simp_all add: drop_staged_def Let_def)

lemma reclaim_frame [simp]:
  "d_tasks (snd (reclaimStagingPackages ids d)) = d_tasks d" "d_workers (snd (reclaimStagingPackages ids d)) = d_workers d"
  "d_packages (snd (reclaimStagingPackages ids d)) = d_packages d" "d_events (snd (reclaimStagingPackages ids d)) = d_events d"
  "d_hosts (snd (reclaimStagingPackages ids d)) = d_hosts d" "d_orders (snd (reclaimStagingPackages ids d)) = d_orders d"
  by (simp_all add: reclaimStagingPackages_def Let_def)

lemma d_staging_drop:
  "d_staging (snd (drop_staged rows d)) = filter (\<lambda>r. s_key r \<notin> s_key ` set rows) (d_staging d)"
  by (auto simp: drop_staged_def Let_def)

lemma d_objects_drop:
  "d_objects (snd (drop_staged rows d)) = filter (\<lambda>k. k \<notin> s_key ` set rows) (d_objects d)"
  by (auto simp: drop_staged_def Let_def)

lemma drop_staged_ok:
  assumes "staging_ok d"
  shows "staging_ok (snd (drop_staged rows d))"
  using assms by (auto simp: staging_ok_def d_staging_drop d_objects_drop distinct_map_filter)

text \<open>The bytes given back are those of the rows that went, when they are rows of the table taken once.\<close>

lemma drop_staged_bytes:
  assumes "staging_ok d" "distinct rows" "set rows \<subseteq> set (d_staging d)"
  shows "staged_bytes (snd (drop_staged rows d)) + fst (drop_staged rows d) = staged_bytes d"
proof -
  have inj: "inj_on s_key (set (d_staging d))" and dist: "distinct (d_staging d)"
    using assms(1) by (auto simp: staging_ok_def distinct_map)
  have sel: "filter (\<lambda>r. s_key r \<in> s_key ` set rows) (d_staging d) = filter (\<lambda>r. r \<in> set rows) (d_staging d)"
    by (rule filter_cong [OF refl]) (use inj assms(3) in \<open>auto dest: inj_onD\<close>)
  have "sum_list (map s_size (filter (\<lambda>r. r \<in> set rows) (d_staging d))) = sum_list (map s_size rows)"
  proof -
    have "set (filter (\<lambda>r. r \<in> set rows) (d_staging d)) = set rows" using assms(3) by auto
    then show ?thesis using dist assms(2)
      by (simp add: sum_list_distinct_conv_sum_set)
  qed
  moreover note sum_list_partition [of s_size "d_staging d" "\<lambda>r. s_key r \<in> s_key ` set rows"]
  moreover have "fst (drop_staged rows d) = sum_list (map s_size rows)"
    by (simp add: drop_staged_def Let_def)
  ultimately show ?thesis by (simp add: staged_bytes_def d_staging_drop sel)
qed

subsection \<open>Theorems\<close>

text \<open>
  What a transition gives back. The packages a finished build staged go, their rows and their
  objects together; every other row stays, the text evidence of that build included; no row is
  left without its object; and the bytes returned are exactly those no longer counted.
\<close>

theorem reclaim_exactly_packages:
  assumes "staging_ok d" "i > 0"
  shows "d_staging (snd (reclaimStagingPackages [i] d)) =
      filter (\<lambda>r. \<not> (s_task_id r = Some i \<and> \<not> isTextEvidence (basename (s_key r)))) (d_staging d)
    \<and> staging_ok (snd (reclaimStagingPackages [i] d))
    \<and> staged_bytes (snd (reclaimStagingPackages [i] d)) + fst (reclaimStagingPackages [i] d) = staged_bytes d"
proof -
  let ?rows = "filter (\<lambda>r. s_task_id r = Some i \<and> \<not> isTextEvidence (basename (s_key r))) (d_staging d)"
  have eq: "reclaimStagingPackages [i] d = drop_staged ?rows d"
    using assms(2) by (simp add: reclaimStagingPackages_def)
  have inj: "inj_on s_key (set (d_staging d))" "distinct (d_staging d)"
    using assms(1) by (auto simp: staging_ok_def distinct_map)
  have "filter (\<lambda>r. s_key r \<notin> s_key ` set ?rows) (d_staging d) =
      filter (\<lambda>r. \<not> (s_task_id r = Some i \<and> \<not> isTextEvidence (basename (s_key r)))) (d_staging d)"
    by (rule filter_cong [OF refl]) (use inj in \<open>auto dest: inj_onD\<close>)
  then show ?thesis
    using drop_staged_ok [OF assms(1), of ?rows] drop_staged_bytes [OF assms(1), of ?rows] inj
    by (simp add: eq d_staging_drop)
qed

definition ex_staging :: db where
  "ex_staging = empty_db\<lparr>
     d_staging := [\<lparr>s_key = ''staging/ann/vim/7/vim-9.1-1.pkg'', s_size = 40, s_task_id = Some 7, s_uploaded_at = 0\<rparr>,
                  \<lparr>s_key = ''staging/ann/vim/7/build.log'', s_size = 2, s_task_id = Some 7, s_uploaded_at = 0\<rparr>],
     d_objects := [''staging/ann/vim/7/vim-9.1-1.pkg'', ''staging/ann/vim/7/build.log'']\<rparr>"

theorem reclaim_exactly_packages_witness:
  "map s_key (d_staging (snd (reclaimStagingPackages [7] ex_staging))) = [''staging/ann/vim/7/build.log'']
   \<and> staged_bytes (snd (reclaimStagingPackages [7] ex_staging)) + fst (reclaimStagingPackages [7] ex_staging) = 42"
proof -
  have "staging_ok ex_staging" by code_simp
  from reclaim_exactly_packages [OF this, of 7]
  have "d_staging (snd (reclaimStagingPackages [7] ex_staging)) =
      filter (\<lambda>r. \<not> (s_task_id r = Some 7 \<and> \<not> isTextEvidence (basename (s_key r)))) (d_staging ex_staging)"
    "staged_bytes (snd (reclaimStagingPackages [7] ex_staging)) + fst (reclaimStagingPackages [7] ex_staging) = staged_bytes ex_staging"
    by simp_all
  moreover have "map s_key (filter (\<lambda>r. \<not> (s_task_id r = Some 7 \<and> \<not> isTextEvidence (basename (s_key r)))) (d_staging ex_staging))
      = [''staging/ann/vim/7/build.log'']" "staged_bytes ex_staging = 42" by code_simp+
  ultimately show ?thesis by simp
qed

lemma sweep_parts:
  obtains old packages d1 where
    "old = take limit (sort_key s_uploaded_at (filter (\<lambda>r. s_uploaded_at r < now - STAGING_DAYS * DAY_MS) (d_staging d)))"
    "d1 = snd (drop_staged old d)"
    "packages = filter (\<lambda>r. \<not> isTextEvidence (basename (s_key r)))
       (take limit (filter (\<lambda>r. list_ex (\<lambda>t. s_task_id r = Some (t_id t) \<and> finishedBuild d1 t) (d_tasks d1)) (d_staging d1)))"
    "snd (sweepStaging now limit d) = snd (drop_staged packages d1)"
    "sw_expired_bytes (fst (sweepStaging now limit d)) = fst (drop_staged old d)"
    "sw_reclaimed_bytes (fst (sweepStaging now limit d)) = fst (drop_staged packages d1)"
  by (simp add: sweepStaging_def Let_def case_prod_beta)

text \<open>
  The weekly sweep. It keeps the table and the bucket in step and reports exactly the bytes it
  gave back; and when its limit does not cut it short, nothing older than thirty days is left, nor
  any package of a finished build.
\<close>

theorem sweep_complete:
  assumes "staging_ok d"
  shows "staging_ok (snd (sweepStaging now limit d))
    \<and> staged_bytes (snd (sweepStaging now limit d)) + sw_expired_bytes (fst (sweepStaging now limit d))
        + sw_reclaimed_bytes (fst (sweepStaging now limit d)) = staged_bytes d
    \<and> (length (d_staging d) \<le> limit \<longrightarrow>
        (\<forall>r \<in> set (d_staging (snd (sweepStaging now limit d))).
          now - STAGING_DAYS * DAY_MS \<le> s_uploaded_at r \<and>
          (\<forall>t \<in> set (d_tasks d). s_task_id r = Some (t_id t) \<and> finishedBuild d t \<longrightarrow> isTextEvidence (basename (s_key r)))))"
proof -
  obtain old packages d1 where
    old: "old = take limit (sort_key s_uploaded_at (filter (\<lambda>r. s_uploaded_at r < now - STAGING_DAYS * DAY_MS) (d_staging d)))"
    and d1: "d1 = snd (drop_staged old d)"
    and packages: "packages = filter (\<lambda>r. \<not> isTextEvidence (basename (s_key r)))
       (take limit (filter (\<lambda>r. list_ex (\<lambda>t. s_task_id r = Some (t_id t) \<and> finishedBuild d1 t) (d_tasks d1)) (d_staging d1)))"
    and d2: "snd (sweepStaging now limit d) = snd (drop_staged packages d1)"
    and b1: "sw_expired_bytes (fst (sweepStaging now limit d)) = fst (drop_staged old d)"
    and b2: "sw_reclaimed_bytes (fst (sweepStaging now limit d)) = fst (drop_staged packages d1)"
    by (rule sweep_parts)
  have dist: "distinct (d_staging d)" using assms by (auto simp: staging_ok_def distinct_map)
  have ok1: "staging_ok d1" unfolding d1 by (rule drop_staged_ok [OF assms])
  then have dist1: "distinct (d_staging d1)" by (auto simp: staging_ok_def distinct_map)
  have old_in: "distinct old" "set old \<subseteq> set (d_staging d)"
    using dist set_take_subset [of limit] by (fastforce simp: old)+
  have packages_in: "distinct packages" "set packages \<subseteq> set (d_staging d1)"
    using dist1 set_take_subset [of limit] by (fastforce simp: packages)+
  have fin: "finishedBuild d1 t \<longleftrightarrow> finishedBuild d t" "d_tasks d1 = d_tasks d" for t
    by (simp_all add: d1 finishedBuild_def)
  have len1: "length (d_staging d1) \<le> length (d_staging d)" by (simp add: d1 d_staging_drop)
  have left: "now - STAGING_DAYS * DAY_MS \<le> s_uploaded_at r \<and>
      (\<forall>t \<in> set (d_tasks d). s_task_id r = Some (t_id t) \<and> finishedBuild d t \<longrightarrow> isTextEvidence (basename (s_key r)))"
    if lim: "length (d_staging d) \<le> limit" and r: "r \<in> set (d_staging (snd (sweepStaging now limit d)))" for r
  proof -
    have 1: "old = sort_key s_uploaded_at (filter (\<lambda>r. s_uploaded_at r < now - STAGING_DAYS * DAY_MS) (d_staging d))"
      using lim by (simp add: old le_trans [OF length_filter_le])
    have 2: "take limit (filter P (d_staging d1)) = filter P (d_staging d1)" for P
      using lim len1 by (simp add: le_trans [OF length_filter_le])
    from r have "r \<in> set (d_staging d1)" "s_key r \<notin> s_key ` set packages"
      by (auto simp: d2 d_staging_drop)
    moreover from this have "r \<in> set (d_staging d)" "r \<notin> set old" by (auto simp: d1 d_staging_drop)
    ultimately show ?thesis by (auto simp: 1 packages 2 fin list_ex_iff not_less)
  qed
  show ?thesis
    using drop_staged_ok [OF ok1, of packages] drop_staged_bytes [OF assms old_in] drop_staged_bytes [OF ok1 packages_in] left
    by (simp add: d2 b1 b2 d1 [symmetric])
qed

theorem sweep_complete_witness:
  "staged_bytes (snd (sweepStaging (31 * DAY_MS) 500 ex_staging)) = 0 + (42
     - sw_expired_bytes (fst (sweepStaging (31 * DAY_MS) 500 ex_staging)) - sw_reclaimed_bytes (fst (sweepStaging (31 * DAY_MS) 500 ex_staging)))
   \<and> list_all (\<lambda>r. DAY_MS \<le> s_uploaded_at r) (d_staging (snd (sweepStaging (31 * DAY_MS) 500 ex_staging)))"
proof -
  have ok: "staging_ok ex_staging" "length (d_staging ex_staging) \<le> 500" "staged_bytes ex_staging = 42" by code_simp+
  have "31 * DAY_MS - STAGING_DAYS * DAY_MS = DAY_MS" by (simp add: STAGING_DAYS_def)
  with sweep_complete [OF ok(1), of "31 * DAY_MS" 500] ok(2,3) show ?thesis by (auto simp: list_all_iff)
qed

end
