(* ===== verification/Leases.thy ===== *)
theory Leases
  imports Release_Gate Targets Staging
begin

text \<open>
  Leases (worker/src/lease.ts and the claim, heartbeat, report and reconciliation of
  worker/src/routes/factory.ts): how a task is taken, renewed, ended and given back. Each statement on
  build\_tasks is one atomic update with its \<^verbatim>\<open>WHERE\<close> as the guard; the handlers compose
  them with what follows in the other tables, as the code does.
\<close>

definition LEASE_MINUTES :: int where "LEASE_MINUTES = 30"
definition HOST_LEASE_GRACE_MIN :: int where "HOST_LEASE_GRACE_MIN = 2"
definition HOST_LOSSES_MAX :: int where "HOST_LOSSES_MAX = 2"
definition HOST_REPORT_FRESH_MIN :: int where "HOST_REPORT_FRESH_MIN = 15"
definition LEASE_TRIES :: nat where "LEASE_TRIES = 3"

definition plusMinutes :: "int \<Rightarrow> int \<Rightarrow> int" where
  "plusMinutes n now = now + n * 60000"

subsection \<open>Whether a host may lease\<close>

definition asleepNow :: "host_row \<Rightarrow> int \<Rightarrow> bool" where
  "asleepNow h now \<longleftrightarrow> hr_asleep_at h \<noteq> None \<and>
     (case hr_reported_at h of None \<Rightarrow> False | Some t \<Rightarrow> t > now - HOST_REPORT_FRESH_MIN * 60000)"

definition freshSince :: "int \<Rightarrow> int" where
  "freshSince now = now - HOST_REPORT_FRESH_MIN * 60000"

definition OWNER_LISTED_SQL :: "db \<Rightarrow> int \<Rightarrow> bool" where
  "OWNER_LISTED_SQL d github \<longleftrightarrow> list_ex (\<lambda>m. list_ex (\<lambda>(l, g). l = m \<and> g = github) (d_contributors d)) (d_maintainers d)"

definition HOST_MAY_LEASE_SQL :: "db \<Rightarrow> string \<Rightarrow> bool" where
  "HOST_MAY_LEASE_SQL d host \<longleftrightarrow>
     list_ex (\<lambda>h. hr_id h = host \<and> hr_status h = ''active'' \<and> hr_owner_removed_at h = None
       \<and> OWNER_LISTED_SQL d (hr_owner_github_id h)) (d_hosts d)"

definition HOST_AWAKE_SQL :: "db \<Rightarrow> string \<Rightarrow> int \<Rightarrow> bool" where
  "HOST_AWAKE_SQL d host since \<longleftrightarrow>
     \<not> list_ex (\<lambda>h. hr_id h = host \<and> hr_asleep_at h \<noteq> None
          \<and> (case hr_reported_at h of None \<Rightarrow> False | Some t \<Rightarrow> t > since)) (d_hosts d)"

subsection \<open>The lease\<close>

text \<open>The units a registration's leases hold, as the guard of the lease statement sums them
  (\<^verbatim>\<open>SUM\<close> skips a row with no units): its tasks, and its pool jobs.\<close>

definition leasedBy :: "string \<Rightarrow> task list \<Rightarrow> task list" where
  "leasedBy who ts = filter (\<lambda>t. t_status t = Leased \<and> t_lease_owner t = Some who) ts"

definition rowUnits :: "task \<Rightarrow> int" where
  "rowUnits t = nvl (t_units t) 0"

definition tasksHeld :: "string \<Rightarrow> task list \<Rightarrow> int" where
  "tasksHeld who ts = sum_list (map (\<lambda>t. if t_kind t \<in> set TASK_KINDS then rowUnits t else 0) (leasedBy who ts))"

definition jobsHeld :: "string \<Rightarrow> task list \<Rightarrow> int" where
  "jobsHeld who ts = sum_list (map (\<lambda>t. if t_kind t \<in> set TASK_KINDS then 0 else rowUnits t) (leasedBy who ts))"

text \<open>The work that needs an agent that answers (\<^verbatim>\<open>LIKE\<close> ignores the case of letters), and a
  lease as selection counts it.\<close>

definition agentScope :: "task \<Rightarrow> bool" where
  "agentScope t \<longleftrightarrow> t_kind t = ''audit'' \<or>
     (t_kind t = ''build'' \<and> (starts_with ''draft:'' (map to_lower (t_pkgbuild_ref t)) \<or> starts_with ''review:'' (map to_lower (t_pkgbuild_ref t))))"

definition unitsOfKind :: "string \<Rightarrow> int option \<Rightarrow> rules \<Rightarrow> int" where
  "unitsOfKind kind sz r =
     (if kind = ''build'' then r_build_per_size r * nvl sz 1 else if kind = ''trial'' then r_trial r
      else if kind = ''audit'' then r_audit r else r_job r)"

definition heldOf :: "rules \<Rightarrow> task \<Rightarrow> held" where
  "heldOf r t = \<lparr>h_task = t_id t, h_by = nvl (t_lease_owner t) [], h_kind = t_kind t, h_arch = t_arch t, h_lane = t_lane t,
     h_units = (case t_units t of Some u \<Rightarrow> u | None \<Rightarrow> unitsOfKind (t_kind t) (t_size t) r), h_model = agentScope t,
     h_trust = t_trust t, h_owner = t_owner t, h_disk_gb = nvl (t_disk_gb t) 0\<rparr>"

definition LEASES_HELD_SQL :: "rules \<Rightarrow> db \<Rightarrow> held list" where
  "LEASES_HELD_SQL r d = map (heldOf r) (filter (\<lambda>t. t_status t = Leased) (d_tasks d))"

text \<open>What a claim that leases brings: the registration and its host, the claim, its units, and the
  choice of selection.\<close>

record claimer =
  k_workerId :: string
  k_host :: "string option"
  k_units :: int
  k_version :: "string option"
  k_claimId :: "string option"

definition unitsGuard :: "claimer \<Rightarrow> rules \<Rightarrow> string \<Rightarrow> int \<Rightarrow> task list \<Rightarrow> bool" where
  "unitsGuard k r kind units ts \<longleftrightarrow>
     (let kept = (if kind \<in> set TASK_KINDS then r_job_reserved r else 0)
      in tasksHeld (k_workerId k) ts + max kept (jobsHeld (k_workerId k) ts) + units \<le> k_units k)"

definition lease_set :: "claimer \<Rightarrow> choice \<Rightarrow> string \<Rightarrow> int \<Rightarrow> task \<Rightarrow> task" where
  "lease_set k c gen now t =
     t\<lparr>t_status := Leased, t_lease_owner := Some (k_workerId k), t_lease_expires := Some (plusMinutes LEASE_MINUTES now),
       t_started_at := Some now, t_attempts := t_attempts t + 1, t_error := None, t_stop_order := None,
       t_lease_gen := (if k_host k = None then None else Some gen), t_lane := ch_lane c, t_size := ch_size c,
       t_units := Some (ch_units c), t_disk_gb := ch_disk_gb c, t_release := k_version k,
       t_claim_id := (if k_host k = None then None else k_claimId k), t_lease_missed := 0, t_reserved_at := None,
       t_independent := ch_independent c\<rparr>"

text \<open>The statement that leases: the task still queued, and for a host its place in the lists, awake,
  and its units again.\<close>

definition leaseGuard :: "claimer \<Rightarrow> rules \<Rightarrow> string \<Rightarrow> int \<Rightarrow> int \<Rightarrow> db \<Rightarrow> bool" where
  "leaseGuard k r kind units now d \<longleftrightarrow> (case k_host k of
     None \<Rightarrow> True
   | Some h \<Rightarrow> HOST_MAY_LEASE_SQL d h \<and> HOST_AWAKE_SQL d h (freshSince now) \<and> unitsGuard k r kind units (d_tasks d))"

definition leaseStatement :: "claimer \<Rightarrow> rules \<Rightarrow> string \<Rightarrow> choice \<Rightarrow> string \<Rightarrow> int \<Rightarrow> db \<Rightarrow> task option \<times> db" where
  "leaseStatement k r kind c gen now d =
     update_tasks (\<lambda>t. t_id t = ch_id c \<and> t_status t = Queued \<and> leaseGuard k r kind (ch_units c) now d) (lease_set k c gen now) d"

text \<open>The loop over the first choices: another claim that took one first leaves the next.\<close>

fun leaseLoop :: "claimer \<Rightarrow> rules \<Rightarrow> candidate list \<Rightarrow> (choice \<times> string) list \<Rightarrow> int \<Rightarrow> db \<Rightarrow> task option \<times> db" where
  "leaseLoop k r cands [] now d = (None, d)"
| "leaseLoop k r cands ((c, gen) # cs) now d =
     (let kind = (case find (\<lambda>x. c_id x = ch_id c) cands of Some x \<Rightarrow> c_kind x | None \<Rightarrow> [])
      in case leaseStatement k r kind c gen now d of
           (Some t, d') \<Rightarrow> (Some t, d')
         | (None, d') \<Rightarrow> leaseLoop k r cands cs now d')"

text \<open>What follows a lease: the reservation for it ends (\<open>marks\<close>: the tasks the members read reserve for), and a
  task clamped to the largest host alive gets a line.\<close>

definition clampWarning :: "string \<Rightarrow> choice \<Rightarrow> task \<Rightarrow> db \<Rightarrow> db" where
  "clampWarning who c t d = (case ch_asked c of
     None \<Rightarrow> d
   | Some asked \<Rightarrow> add_event (ClampEvent (t_id t) asked (nvl (ch_size c) 1) who) d)"

definition leaseChoices ::
  "claimer \<Rightarrow> rules \<Rightarrow> candidate list \<Rightarrow> int list \<Rightarrow> (choice \<times> string) list \<Rightarrow> int \<Rightarrow> db \<Rightarrow> task option \<times> db" where
  "leaseChoices k r cands marks choices now d =
     (case leaseLoop k r cands (take LEASE_TRIES choices) now d of
        (None, d') \<Rightarrow> (None, d')
      | (Some t, d') \<Rightarrow>
          let d1 = (if t_id t \<in> set marks
                    then d'\<lparr>d_hosts := sql_update (\<lambda>h. hr_reserving_task h = Some (t_id t))
                           (\<lambda>h. h\<lparr>hr_reserving_task := None, hr_reserving_since := None\<rparr>) (d_hosts d')\<rparr>
                    else d')
          in (Some t, case find (\<lambda>c. ch_id (fst c) = t_id t) choices of
                        Some c \<Rightarrow> clampWarning (k_workerId k) (fst c) t d1 | None \<Rightarrow> d1))"

subsection \<open>The requeue\<close>

definition requeueGuard :: "int \<Rightarrow> string \<Rightarrow> string option \<Rightarrow> int option \<Rightarrow> task \<Rightarrow> bool" where
  "requeueGuard i owner stopOrder expiredBefore t \<longleftrightarrow>
     t_id t = i \<and> t_status t = Leased \<and> t_lease_owner t = Some owner \<and> t_stop_order t = stopOrder
     \<and> (case expiredBefore of None \<Rightarrow> True | Some b \<Rightarrow> (case t_lease_expires t of None \<Rightarrow> False | Some e \<Rightarrow> e < b))"

definition requeueSet :: "int \<Rightarrow> task_error \<Rightarrow> task \<Rightarrow> task" where
  "requeueSet now err t =
     (let last_one = t_attempts t \<ge> t_max_attempts t
      in t\<lparr>t_status := (if last_one then Failed else Queued),
           t_finished_at := (if last_one then Some now else None),
           t_error := Some err,
           t_lease_owner := (if last_one then t_lease_owner t else None),
           t_independent := (if last_one then t_independent t else None),
           t_lease_expires := None, t_priority := t_priority t + 10, t_stop_order := None\<rparr>)"

definition REQUEUE_SQL :: "int \<Rightarrow> task_error \<Rightarrow> int \<Rightarrow> string \<Rightarrow> string option \<Rightarrow> int option \<Rightarrow> db \<Rightarrow> task option \<times> db" where
  "REQUEUE_SQL now err i owner stopOrder expiredBefore =
     update_tasks (requeueGuard i owner stopOrder expiredBefore) (requeueSet now err)"

definition stopError :: "string \<Rightarrow> string \<Rightarrow> string option \<Rightarrow> bool \<Rightarrow> task_error" where
  "stopError worker by reason leaseEnded = StoppedOn worker by reason leaseEnded"

text \<open>A package's one word after a build of one architecture failed: it follows the builds.\<close>

definition packageWord :: "db \<Rightarrow> string \<Rightarrow> pkg_status \<Rightarrow> pkg_status" where
  "packageWord d name fallback =
     (if list_ex (\<lambda>t. t_kind t = ''build'' \<and> t_status t = Staged \<and> t_name t = name) (d_tasks d) then PkgStaged
      else if list_ex (\<lambda>t. t_status t = Leased \<and> t_kind t = ''build'' \<and> t_trust t = ''community'' \<and> t_name t = name) (d_tasks d) then Building
      else if list_ex (\<lambda>t. t_status t = Queued \<and> t_kind t = ''build'' \<and> t_trust t = ''community'' \<and> t_name t = name) (d_tasks d) then Waiting
      else fallback)"

definition packageAfterFailure :: "string \<Rightarrow> pkg_status \<Rightarrow> pkg_detail \<Rightarrow> pkg_status option \<Rightarrow> db \<Rightarrow> db" where
  "packageAfterFailure name fallback detail only d =
     d\<lparr>d_packages := sql_update (\<lambda>p. p_name p = name \<and> (case only of None \<Rightarrow> True | Some s \<Rightarrow> p_status p = s))
         (\<lambda>p. p\<lparr>p_status := packageWord d name fallback, p_detail := detail\<rparr>) (d_packages d)\<rparr>"

definition emptyHand :: "string \<Rightarrow> int \<Rightarrow> db \<Rightarrow> db" where
  "emptyHand who i d =
     d\<lparr>d_workers := sql_update (\<lambda>w. w_id w = who \<and> w_current_task w = Some i) (\<lambda>w. w\<lparr>w_current_task := None\<rparr>) (d_workers d)\<rparr>"

text \<open>What follows a requeue; \<^term>\<open>t\<close> is the task as it was read, leased.\<close>

definition afterRequeue :: "task \<Rightarrow> bool \<Rightarrow> task_error \<Rightarrow> bool \<Rightarrow> db \<Rightarrow> db" where
  "afterRequeue t failed err stopped d =
     (let owner = nvl (t_lease_owner t) [];
          d1 = emptyHand owner (t_id t) d;
          d2 = (if failed \<and> t_kind t = ''build'' then snd (reclaimStagingPackages [t_id t] d1) else d1);
          d3 = (if t_trust t = ''community'' \<and> t_kind t = ''build''
                then packageAfterFailure (t_name t) (if failed then Registered else Waiting)
                       (if failed then BuildFailed owner err (\<not> stopped) else QueuedAgain err) (Some Building) d2
                else d2);
          d4 = (if t_kind t = ''build'' then settleTargets d3 [t_name t] else d3)
      in add_event (TaskEvent \<lparr>ev_status = (if failed then EvError else EvWarn), ev_task = t_id t, ev_worker = owner,
           ev_error = Some err, ev_attempts = t_attempts t, ev_failed = failed\<rparr>) d4)"

definition requeueLease :: "task \<Rightarrow> task_error \<Rightarrow> string option \<Rightarrow> int \<Rightarrow> int option \<Rightarrow> db \<Rightarrow> bool \<times> db" where
  "requeueLease t err stopOrder now expiredBefore d =
     (case REQUEUE_SQL now err (t_id t) (nvl (t_lease_owner t) []) stopOrder expiredBefore d of
        (None, d') \<Rightarrow> (False, d')
      | (Some row, d') \<Rightarrow> (True, afterRequeue t (t_status row = Failed) err (stopOrder \<noteq> None) d'))"

text \<open>The scheduler's: every lease that expired, as it was read; each only while it has still expired.\<close>

definition expiredError :: "db \<Rightarrow> task \<Rightarrow> task_error" where
  "expiredError d t =
     (let owner = nvl (t_lease_owner t) []
      in case t_stop_order t of
           None \<Rightarrow> LeaseExpired owner
         | Some s \<Rightarrow> (case find (\<lambda>x. o_id x = s) (d_orders d) of
             Some x \<Rightarrow> stopError owner (o_issued_by x) (o_reason x) True
           | None \<Rightarrow> stopError owner ''?'' None True))"

definition expiredLeases :: "int \<Rightarrow> db \<Rightarrow> task list" where
  "expiredLeases now d =
     filter (\<lambda>t. t_status t = Leased \<and> (case t_lease_expires t of None \<Rightarrow> False | Some e \<Rightarrow> e < now)) (d_tasks d)"

definition requeueExpiredLeases :: "int \<Rightarrow> db \<Rightarrow> int \<times> db" where
  "requeueExpiredLeases now d =
     (int (length (expiredLeases now d)),
      foldl (\<lambda>d t. snd (requeueLease t (expiredError d t) (t_stop_order t) now (Some now) d)) d (expiredLeases now d))"

subsection \<open>A revoked release's lease\<close>

definition revokedGuard :: "int \<Rightarrow> string \<Rightarrow> string option \<Rightarrow> task \<Rightarrow> bool" where
  "revokedGuard i owner gen t \<longleftrightarrow>
     t_id t = i \<and> t_status t = Leased \<and> t_lease_owner t = Some owner \<and> t_lease_gen t = gen \<and> t_stop_order t = None"

definition revokedSet :: "task_error \<Rightarrow> task \<Rightarrow> task" where
  "revokedSet err t =
     t\<lparr>t_status := Queued, t_finished_at := None, t_error := Some err, t_lease_owner := None, t_lease_expires := None,
       t_attempts := max (t_attempts t - 1) 0, t_independent := None, t_lease_missed := 0\<rparr>"

definition REVOKED_REQUEUE_SQL :: "task_error \<Rightarrow> int \<Rightarrow> string \<Rightarrow> string option \<Rightarrow> db \<Rightarrow> task option \<times> db" where
  "REVOKED_REQUEUE_SQL err i owner gen = update_tasks (revokedGuard i owner gen) (revokedSet err)"

definition revokedRefusal :: "release_policy \<Rightarrow> task \<Rightarrow> bool" where
  "revokedRefusal policy t \<longleftrightarrow> isRevoked (t_release t) policy"

definition revokedError :: "string \<Rightarrow> string \<Rightarrow> task_error" where
  "revokedError rel pool = OnRevoked rel pool"

definition requeueRevoked :: "task \<Rightarrow> string \<Rightarrow> string \<Rightarrow> db \<Rightarrow> bool \<times> db" where
  "requeueRevoked t rel pool d =
     (let err = revokedError rel pool
      in case REVOKED_REQUEUE_SQL err (t_id t) (nvl (t_lease_owner t) []) (t_lease_gen t) d of
           (None, d') \<Rightarrow> (False, d')
         | (Some row, d') \<Rightarrow>
             let d1 = (if t_kind t = ''build'' then snd (reclaimStagingPackages [t_id t] d') else d')
             in (True, afterRequeue (t\<lparr>t_attempts := t_attempts row\<rparr>) False err False d1))"

subsection \<open>A lease its host lost\<close>

definition lostSet :: "task_error \<Rightarrow> task_error \<Rightarrow> int \<Rightarrow> task \<Rightarrow> task" where
  "lostSet spentErr backErr now t =
     (let spent = t_host_losses t \<ge> HOST_LOSSES_MAX;
          last_one = spent \<and> t_attempts t \<ge> t_max_attempts t
      in t\<lparr>t_status := (if last_one then Failed else Queued),
           t_finished_at := (if last_one then Some now else None),
           t_lease_owner := (if last_one then t_lease_owner t else None),
           t_attempts := (if spent then t_attempts t else max (t_attempts t - 1) 0),
           t_priority := (if spent then t_priority t + 10 else t_priority t),
           t_error := Some (if spent then spentErr else backErr),
           t_independent := (if last_one then t_independent t else None),
           t_host_losses := t_host_losses t + 1, t_lease_expires := None, t_lease_missed := 0\<rparr>)"

definition LOST_LEASE_SQL :: "int \<Rightarrow> string \<Rightarrow> string \<Rightarrow> int \<Rightarrow> db \<Rightarrow> task option \<times> db" where
  "LOST_LEASE_SQL i owner gen now =
     update_tasks (revokedGuard i owner (Some gen)) (lostSet (LostByHost owner True) (LostByHost owner False) now)"

definition missedGuard :: "int \<Rightarrow> string \<Rightarrow> string option \<Rightarrow> task \<Rightarrow> bool" where
  "missedGuard i owner gen t \<longleftrightarrow>
     t_id t = i \<and> t_status t = Leased \<and> t_lease_owner t = Some owner \<and> t_lease_gen t = gen"

definition HOST_LEASES_SQL :: "string \<Rightarrow> db \<Rightarrow> task list" where
  "HOST_LEASES_SQL who d = leasedBy who (d_tasks d)"

text \<open>One lease of the host against what its claim lists: counted as seen or missed, or given back
  once two claims missed it and it is older than the grace.\<close>

definition reconcileOne ::
  "release_policy \<Rightarrow> string \<Rightarrow> string \<Rightarrow> (int \<times> string) list \<Rightarrow> int \<Rightarrow> (db \<times> int \<times> (task \<times> int) list) \<Rightarrow> task
     \<Rightarrow> (db \<times> int \<times> (task \<times> int) list)" where
  "reconcileOne policy pool who leases now = (\<lambda>(d, requeued, counts) t.
     (case (t_stop_order t, t_lease_gen t) of
        (None, Some gen) \<Rightarrow>
          (let seen = (t_id t, gen) \<in> set leases;
               missed = (if seen then 0 else t_lease_missed t + 1)
           in if \<not> seen \<and> missed \<ge> 2 \<and> nvl (t_started_at t) now \<le> now - HOST_LEASE_GRACE_MIN * 60000
              then (if t_release t \<noteq> None \<and> isRevoked (t_release t) policy
                    then (case requeueRevoked t (nvl (t_release t) []) pool d of (ok, d') \<Rightarrow> (d', requeued + (if ok then 1 else 0), counts))
                    else (case LOST_LEASE_SQL (t_id t) who gen now d of
                            (None, d') \<Rightarrow> (d', requeued, counts)
                          | (Some back, d') \<Rightarrow>
                              (afterRequeue (t\<lparr>t_attempts := t_attempts back\<rparr>) (t_status back = Failed)
                                 (nvl (t_error back) (LostByHost who False)) False d', requeued + 1, counts)))
              else (d, requeued, if missed \<noteq> t_lease_missed t then counts @ [(t, missed)] else counts))
      | _ \<Rightarrow> (d, requeued, counts)))"

definition countMissed :: "string \<Rightarrow> db \<Rightarrow> task \<times> int \<Rightarrow> db" where
  "countMissed who d = (\<lambda>(t, missed).
     snd (update_tasks (missedGuard (t_id t) who (t_lease_gen t)) (\<lambda>x. x\<lparr>t_lease_missed := missed\<rparr>) d))"

definition reconcileHost :: "release_policy \<Rightarrow> string \<Rightarrow> string \<Rightarrow> (int \<times> string) list \<Rightarrow> int \<Rightarrow> db \<Rightarrow> int \<times> db" where
  "reconcileHost policy pool who leases now d =
     (let (d1, requeued, counts) = foldl (reconcileOne policy pool who leases now) (d, 0, []) (HOST_LEASES_SQL who d)
      in (requeued, foldl (countMissed who) d1 counts))"

subsection \<open>A claim retried after its answer was lost\<close>

definition replayGuard :: "string \<Rightarrow> string \<Rightarrow> task \<Rightarrow> bool" where
  "replayGuard owner claim t \<longleftrightarrow>
     t_status t = Leased \<and> t_lease_owner t = Some owner \<and> t_claim_id t = Some claim \<and> t_stop_order t = None"

definition renewSet :: "int \<Rightarrow> task \<Rightarrow> task" where
  "renewSet until t = t\<lparr>t_lease_expires := Some until\<rparr>"

definition REPLAY_SQL :: "int \<Rightarrow> string \<Rightarrow> string \<Rightarrow> db \<Rightarrow> task option \<times> db" where
  "REPLAY_SQL until owner claim = update_tasks (replayGuard owner claim) (renewSet until)"

end
