(* ===== verification/Host_Requests.thy ===== *)
theory Host_Requests
  imports Host_Keys Leases Release_Gate
begin

text \<open>
  The host at the pool's doors: the signed request with its nonces and the cron's share of them
  (routes/hosts.ts \<open>signedHost\<close>, \<open>pruneHosts\<close>), and what a claim of its registration reads and is refused
  for (hosts.ts \<open>HOST_CLAIM_SQL\<close>, \<open>hostClaimRefusal\<close>, the soak and the revert its columns hold).
  The platform's SHA-256 and WebCrypto, and how \<^verbatim>\<open>JSON.parse\<close> and \<^verbatim>\<open>Date.parse\<close> read a text, are arguments.
\<close>

subsection \<open>The signed request\<close>

definition SIGNED_SKEW_S :: int where "SIGNED_SKEW_S = 120"
definition NONCE_KEEP_MIN :: int where "NONCE_KEEP_MIN = 5"
definition DIAGNOSTICS_KEEP_DAYS :: int where "DIAGNOSTICS_KEEP_DAYS = 7"
definition REPORT_MAX_BYTES :: nat where "REPORT_MAX_BYTES = 16 * 1024"

record request =
  rq_header :: "string option"
  rq_method :: string
  rq_path :: string
  rq_body :: "byte list"

datatype signed_refusal =
    NoHeader
  | BodyTooBig nat
  | ClockOff
  | NoSuchHost
  | NotItsSignature
  | HostStopped string "string option" "string option"
  | SeenAlready

definition hostRow :: "string \<Rightarrow> db \<Rightarrow> host_row option" where
  "hostRow i d = find (\<lambda>h. hr_id h = i) (d_hosts d)"

text \<open>\<^verbatim>\<open>INSERT ... ON CONFLICT DO NOTHING\<close> on the key (host, nonce): whether it inserted.\<close>

definition nonceSeen :: "string \<Rightarrow> string \<Rightarrow> db \<Rightarrow> bool" where
  "nonceSeen host nonce d \<longleftrightarrow> list_ex (\<lambda>r. hn_host r = host \<and> hn_nonce r = nonce) (d_nonces d)"

definition insertNonce :: "string \<Rightarrow> string \<Rightarrow> int \<Rightarrow> db \<Rightarrow> bool \<times> db" where
  "insertNonce host nonce now d =
     (if nonceSeen host nonce d then (False, d)
      else (True, d\<lparr>d_nonces := \<lparr>hn_host = host, hn_nonce = nonce, hn_at = now\<rparr> # d_nonces d\<rparr>))"

definition signedHost ::
  "webcrypto \<Rightarrow> (byte list \<Rightarrow> string) \<Rightarrow> nat \<Rightarrow> int \<Rightarrow> request \<Rightarrow> db \<Rightarrow> (signed_refusal + host_row) \<times> db" where
  "signedHost verify sha256 most now req d =
     (case parseHostHeader (rq_header req) of
        None \<Rightarrow> (Inl NoHeader, d)
      | Some hdr \<Rightarrow>
          if length (rq_body req) > most then (Inl (BodyTooBig most), d)
          else if \<bar>int (hh_ts hdr) - now div 1000\<bar> > SIGNED_SKEW_S then (Inl ClockOff, d)
          else (case hostRow (hh_host hdr) d of
             None \<Rightarrow> (Inl NoSuchHost, d)
           | Some h \<Rightarrow> (case hostPublicKey (Some (JStr (hr_pubkey h))) of
               None \<Rightarrow> (Inl NoSuchHost, d)
             | Some key \<Rightarrow>
                 if \<not> verifyHostSignature verify key (hh_sig hdr)
                       (signedMessage (hr_id h) (rq_method req) (rq_path req) (sha256 (rq_body req)) (hh_ts hdr) (hh_nonce hdr))
                   then (Inl NotItsSignature, d)
                 else if hr_status h \<in> {''suspended'', ''retired''}
                   then (Inl (HostStopped (hr_status h) (hr_status_by h) (hr_status_reason h)), d)
                 else (let (fresh, d') = insertNonce (hr_id h) (hh_nonce hdr) now d
                       in if fresh then (Inr h, d') else (Inl SeenAlready, d')))))"

definition ORDER_EXPIRED :: string where "ORDER_EXPIRED = ''not taken by its agent before its not_after''"

definition EXPIRE_ALL_HOST_ORDERS_SQL :: "int \<Rightarrow> db \<Rightarrow> db" where
  "EXPIRE_ALL_HOST_ORDERS_SQL now d = d\<lparr>d_host_orders :=
     sql_update (\<lambda>x. ho_state x = HoOpen \<and> ho_not_after x \<le> now)
       (\<lambda>x. x\<lparr>ho_state := HoExpired, ho_answered_at := Some now, ho_detail := Some ORDER_EXPIRED\<rparr>) (d_host_orders d)\<rparr>"

text \<open>The cron's batch: what it deletes or expires, and how many rows that was.\<close>

definition staleNonce :: "int \<Rightarrow> nonce_row \<Rightarrow> bool" where
  "staleNonce now r \<longleftrightarrow> hn_at r < now - NONCE_KEEP_MIN * 60000"

definition pruneHosts :: "int \<Rightarrow> db \<Rightarrow> nat \<times> db" where
  "pruneHosts now d =
     (let unused = (\<lambda>e. he_used_at e = None \<and> he_expires_at e < now - 24 * 60 * 60000);
          old = (\<lambda>g. hg_at g < now - DIAGNOSTICS_KEEP_DAYS * 24 * 60 * 60000);
          d1 = d\<lparr>d_nonces := filter (\<lambda>r. \<not> staleNonce now r) (d_nonces d)\<rparr>;
          d2 = d1\<lparr>d_enrollments := filter (\<lambda>e. \<not> unused e) (d_enrollments d1)\<rparr>;
          d3 = EXPIRE_ALL_HOST_ORDERS_SQL now d2;
          d4 = d3\<lparr>d_diagnostics := filter (\<lambda>g. \<not> old g) (d_diagnostics d3)\<rparr>
      in (length (filter (staleNonce now) (d_nonces d)) + length (filter unused (d_enrollments d))
            + length (filter (\<lambda>x. ho_state x = HoOpen \<and> ho_not_after x \<le> now) (d_host_orders d))
            + length (filter old (d_diagnostics d)), d4))"

subsection \<open>What a claim reads of its host\<close>

definition POOL_JOBS_KEY :: string where "POOL_JOBS_KEY = ''host-pool-jobs''"

record host_claim_row =
  hc_name :: string
  hc_status :: string
  hc_status_by :: "string option"
  hc_status_at :: "int option"
  hc_status_reason :: "string option"
  hc_owner_login :: login
  hc_owner_removed_at :: "int option"
  hc_listed :: bool
  hc_soaking_until :: "string option"
  hc_quarantine :: "string option"
  hc_rolled_back_from :: "string option"
  hc_rolled_back_at :: "stamp option"
  hc_release_applied :: "string option"
  hc_sandbox_applied :: "json option"
  hc_pool_jobs :: "string option"

definition HOST_CLAIM_SQL :: "db \<Rightarrow> string \<Rightarrow> host_claim_row option" where
  "HOST_CLAIM_SQL d i = (case hostRow i d of None \<Rightarrow> None
     | Some h \<Rightarrow> Some \<lparr>hc_name = hr_name h, hc_status = hr_status h, hc_status_by = hr_status_by h, hc_status_at = hr_status_at h,
         hc_status_reason = hr_status_reason h, hc_owner_login = hr_owner_login h, hc_owner_removed_at = hr_owner_removed_at h,
         hc_listed = OWNER_LISTED_SQL d (hr_owner_github_id h), hc_soaking_until = hr_soaking_until h,
         hc_quarantine = hr_soak_quarantine h, hc_rolled_back_from = hr_rolled_back_from h, hc_rolled_back_at = hr_rolled_back_at h,
         hc_release_applied = hr_release_applied h, hc_sandbox_applied = hr_sandbox_applied h,
         hc_pool_jobs = map_of (d_settings d) POOL_JOBS_KEY\<rparr>)"

text \<open>Why a host's registration may not claim now, with the code the refusal carries.\<close>

datatype host_refusal =
    HostSuspended "string option" "string option"
  | HostRetired "string option" "string option"
  | HostStatus string
  | OwnerNotMaintainer
  | OwnerRemovedSince int

definition hostClaimRefusal :: "host_claim_row \<Rightarrow> host_refusal option" where
  "hostClaimRefusal h =
     (if hc_status h = ''suspended'' then Some (HostSuspended (hc_status_by h) (hc_status_reason h))
      else if hc_status h = ''retired'' then Some (HostRetired (hc_status_by h) (hc_status_reason h))
      else if hc_status h \<noteq> ''active'' then Some (HostStatus (hc_status h))
      else if \<not> hc_listed h then Some OwnerNotMaintainer
      else (case hc_owner_removed_at h of Some t \<Rightarrow> Some (OwnerRemovedSince t) | None \<Rightarrow> None))"

definition refusalCode :: "host_refusal \<Rightarrow> string" where
  "refusalCode r = (case r of
     HostSuspended _ _ \<Rightarrow> ''host_suspended'' | HostRetired _ _ \<Rightarrow> ''host_retired'' | HostStatus _ \<Rightarrow> ''host_status''
   | OwnerNotMaintainer \<Rightarrow> ''owner_not_maintainer'' | OwnerRemovedSince _ \<Rightarrow> ''owner_not_maintainer'')"

definition revertedOf :: "string option \<Rightarrow> stamp option \<Rightarrow> string option \<Rightarrow> reverted option" where
  "revertedOf from since applied =
     (if truthy from then Some \<lparr>rv_from = nvl from [], rv_at = since, rv_applied = applied\<rparr> else None)"

definition poolJobsOn :: "string option \<Rightarrow> string \<Rightarrow> string \<Rightarrow> bool" where
  "poolJobsOn setting worker name =
     (let v = trim (nvl setting [])
      in v = ''*'' \<or> list_ex (\<lambda>x. x \<noteq> [] \<and> (x = worker \<or> x = name)) (map trim (split_on (CHR '','') v)))"

text \<open>A time as a text of at most 40 characters that \<^verbatim>\<open>Date.parse\<close> reads.\<close>

definition isoOrNull :: "(string \<Rightarrow> stamp) \<Rightarrow> json option \<Rightarrow> string option" where
  "isoOrNull read_stamp v = (case jstr v of
     Some s \<Rightarrow> if length s \<le> 40 \<and> date_parse (read_stamp s) \<noteq> None then Some s else None
   | None \<Rightarrow> None)"

definition tagText :: "json option \<Rightarrow> string option" where
  "tagText v = (case jstr v of Some s \<Rightarrow> if release_tag s then Some s else None | None \<Rightarrow> None)"

text \<open>A value read as it is, or parsed first when it is the text a column keeps; None when that does not parse.\<close>

definition as_parsed :: "(string \<Rightarrow> json option) \<Rightarrow> json option \<Rightarrow> json option" where
  "as_parsed json_parse v = (case jstr v of Some s \<Rightarrow> json_parse s | None \<Rightarrow> v)"

definition quarantinedOf :: "(string \<Rightarrow> stamp) \<Rightarrow> json \<Rightarrow> quarantined option" where
  "quarantinedOf read_stamp x = map_option
     (\<lambda>r. \<lparr>q_release = r, q_until = map_option read_stamp (isoOrNull read_stamp (jfield (Some x) ''until''))\<rparr>) (tagText (jfield (Some x) ''release''))"

definition soakOf :: "(string \<Rightarrow> json option) \<Rightarrow> (string \<Rightarrow> stamp) \<Rightarrow> json option \<Rightarrow> json option \<Rightarrow> host_soak option" where
  "soakOf json_parse read_stamp soaking_until quarantine = (case isoOrNull read_stamp soaking_until of
     None \<Rightarrow> None
   | Some until \<Rightarrow> Some \<lparr>hs_until = Some (read_stamp until),
       hs_quarantined = take 16 (List.map_filter (quarantinedOf read_stamp) (nvl (jarr (as_parsed json_parse quarantine)) []))\<rparr>)"

record pool_behind =
  pb_github :: string
  pb_pool :: string
  pb_since :: string

definition poolBehindOf :: "(string \<Rightarrow> json option) \<Rightarrow> (string \<Rightarrow> stamp) \<Rightarrow> json option \<Rightarrow> pool_behind option" where
  "poolBehindOf json_parse read_stamp v =
     (let b = as_parsed json_parse v
      in (case (tagText (jfield b ''github''), tagText (jfield b ''pool''), isoOrNull read_stamp (jfield b ''since'')) of
            (Some g, Some p, Some s) \<Rightarrow> Some \<lparr>pb_github = g, pb_pool = p, pb_since = s\<rparr>
          | _ \<Rightarrow> None))"

record reported_soak =
  rs_minutes :: "int option"
  rs_until :: "string option"
  rs_github_latest :: "string option"

text \<open>The report is the value its text parses to, None when there is none or it does not parse.\<close>

definition reportedSoakOf :: "(string \<Rightarrow> stamp) \<Rightarrow> json option \<Rightarrow> reported_soak option" where
  "reportedSoakOf read_stamp report =
     (let rel = jfield report ''release'';
          minutes = jint_in (jfield rel ''soak_minutes'') 0 1440;
          until = isoOrNull read_stamp (jfield rel ''soaking_until'');
          github = tagText (jfield rel ''github_latest'')
      in if minutes = None \<and> until = None \<and> github = None then None
         else Some \<lparr>rs_minutes = minutes, rs_until = until, rs_github_latest = github\<rparr>)"

text \<open>A reason: white space folded to one space, 4 to 300 characters, none of them a control, format, private or
  surrogate character (below code 256: the controls and the soft hyphen).\<close>

fun foldSpaces :: "bool \<Rightarrow> string \<Rightarrow> string" where
  "foldSpaces after [] = []"
| "foldSpaces after (c # cs) =
     (if is_space c then (if after then foldSpaces True cs else CHR '' '' # foldSpaces True cs)
      else c # foldSpaces False cs)"

definition unprintable :: "char \<Rightarrow> bool" where
  "unprintable c \<longleftrightarrow> is_control c \<or> (127 \<le> (of_char c :: int) \<and> (of_char c :: int) < 160) \<or> (of_char c :: int) = 173"

definition hostReason :: "json option \<Rightarrow> string option" where
  "hostReason v = (case jstr v of None \<Rightarrow> None
     | Some t \<Rightarrow> (let s = trim (foldSpaces False t)
         in if length s < 4 \<or> length s > 300 \<or> list_ex unprintable s then None else Some s))"

subsection \<open>A signed request is taken once\<close>

text \<open>What the pool does over time, as far as the nonces go: a signed request at a door, the cron's prune, or any
  other work, which writes no nonce (only these two write host\_nonces).\<close>

datatype host_act = Request request | Prune | OtherWork "db \<Rightarrow> db"

text \<open>The act at a time: which request it took (its host, nonce and time), and the database after it.\<close>

definition serve ::
  "webcrypto \<Rightarrow> (byte list \<Rightarrow> string) \<Rightarrow> nat \<Rightarrow> int \<times> host_act \<Rightarrow> db \<Rightarrow> (string \<times> string \<times> nat) option \<times> db" where
  "serve verify sha256 most a d = (case snd a of
     Request req \<Rightarrow> (case signedHost verify sha256 most (fst a) req d of
         (Inl _, d') \<Rightarrow> (None, d')
       | (Inr h, d') \<Rightarrow> (map_option (\<lambda>hdr. (hr_id h, hh_nonce hdr, hh_ts hdr)) (parseHostHeader (rq_header req)), d'))
   | Prune \<Rightarrow> (None, snd (pruneHosts (fst a) d))
   | OtherWork f \<Rightarrow> (None, (f d)\<lparr>d_nonces := d_nonces d\<rparr>))"

fun takenRequests ::
  "webcrypto \<Rightarrow> (byte list \<Rightarrow> string) \<Rightarrow> nat \<Rightarrow> (int \<times> host_act) list \<Rightarrow> db \<Rightarrow> (string \<times> string \<times> nat) list" where
  "takenRequests verify sha256 most [] d = []"
| "takenRequests verify sha256 most (a # acts) d =
     (let (taken, d') = serve verify sha256 most a d
      in (case taken of None \<Rightarrow> [] | Some x \<Rightarrow> [x]) @ takenRequests verify sha256 most acts d')"

lemma takenRequests_Cons:
  "takenRequests verify sha256 most (a # acts) d =
     (case fst (serve verify sha256 most a d) of None \<Rightarrow> [] | Some x \<Rightarrow> [x])
       @ takenRequests verify sha256 most acts (snd (serve verify sha256 most a d))"
  by (simp add: case_prod_beta Let_def)

lemma signedHost_Inr:
  assumes "signedHost verify sha256 most now req d = (Inr h, d')"
  obtains hdr key where "parseHostHeader (rq_header req) = Some hdr" "hostRow (hh_host hdr) d = Some h"
    "\<bar>int (hh_ts hdr) - now div 1000\<bar> \<le> SIGNED_SKEW_S"
    "hostPublicKey (Some (JStr (hr_pubkey h))) = Some key"
    "verifyHostSignature verify key (hh_sig hdr)
       (signedMessage (hr_id h) (rq_method req) (rq_path req) (sha256 (rq_body req)) (hh_ts hdr) (hh_nonce hdr))"
    "hr_status h \<noteq> ''suspended''" "hr_status h \<noteq> ''retired''" "\<not> nonceSeen (hr_id h) (hh_nonce hdr) d"
    "d' = d\<lparr>d_nonces := \<lparr>hn_host = hr_id h, hn_nonce = hh_nonce hdr, hn_at = now\<rparr> # d_nonces d\<rparr>"
  using assms by (auto simp: signedHost_def insertNonce_def Let_def split: option.splits if_splits)

lemma signedHost_Inl: "signedHost verify sha256 most now req d = (Inl e, d') \<Longrightarrow> d' = d"
  by (auto simp: signedHost_def insertNonce_def Let_def split: option.splits if_splits)

lemma d_nonces_prune: "d_nonces (snd (pruneHosts now d)) = filter (\<lambda>r. \<not> staleNonce now r) (d_nonces d)"
  by (simp add: pruneHosts_def EXPIRE_ALL_HOST_ORDERS_SQL_def Let_def)

text \<open>A nonce taken at \<open>t\<close> is on record, or so long ago that its time is past the skew.\<close>

definition remembered :: "string \<Rightarrow> string \<Rightarrow> int \<Rightarrow> int \<Rightarrow> db \<Rightarrow> bool" where
  "remembered host nonce t now d \<longleftrightarrow>
     list_ex (\<lambda>r. hn_host r = host \<and> hn_nonce r = nonce \<and> t \<le> hn_at r) (d_nonces d) \<or> t < now - NONCE_KEEP_MIN * 60000"

lemma serve_remembers:
  assumes "remembered host nonce t now d" "now \<le> fst a"
  shows "remembered host nonce t (fst a) (snd (serve verify sha256 most a d))"
proof (cases "snd a")
  case (Request req)
  show ?thesis
  proof (cases "signedHost verify sha256 most (fst a) req d")
    case (Pair r d')
    then have "set (d_nonces d) \<subseteq> set (d_nonces d')"
      by (cases r) (auto dest: signedHost_Inl elim: signedHost_Inr)
    with assms Pair Request show ?thesis by (cases r) (auto simp: serve_def remembered_def list_ex_iff)
  qed
next
  case Prune
  with assms show ?thesis
    by (fastforce simp: serve_def remembered_def d_nonces_prune staleNonce_def list_ex_iff)
next
  case (OtherWork f)
  with assms show ?thesis by (auto simp: serve_def remembered_def)
qed

text \<open>The window is wide enough: two times within the skew of one stamp are closer than a nonce is kept.\<close>

lemma skew_within_keep:
  assumes "\<bar>ts - t div 1000\<bar> \<le> SIGNED_SKEW_S" "\<bar>ts - now div 1000\<bar> \<le> SIGNED_SKEW_S"
  shows "now - NONCE_KEEP_MIN * 60000 \<le> t"
proof -
  have "t div 1000 * 1000 \<le> t" "now < now div 1000 * 1000 + 1000" by presburger+
  moreover have "now div 1000 \<le> t div 1000 + 240" using assms unfolding SIGNED_SKEW_S_def by linarith
  ultimately show ?thesis unfolding NONCE_KEEP_MIN_def by linarith
qed

lemma serve_remembered_refused:
  assumes "remembered host nonce t now d" "now \<le> fst a" "\<bar>int ts - t div 1000\<bar> \<le> SIGNED_SKEW_S"
  shows "fst (serve verify sha256 most a d) \<noteq> Some (host, nonce, ts)"
proof
  assume taken: "fst (serve verify sha256 most a d) = Some (host, nonce, ts)"
  then obtain req h d' where r: "signedHost verify sha256 most (fst a) req d = (Inr h, d')"
    "map_option (\<lambda>hdr. (hr_id h, hh_nonce hdr, hh_ts hdr)) (parseHostHeader (rq_header req)) = Some (host, nonce, ts)"
    by (auto simp: serve_def split: host_act.splits sum.splits prod.splits)
  from r(1) obtain hdr where "parseHostHeader (rq_header req) = Some hdr"
    "\<bar>int (hh_ts hdr) - fst a div 1000\<bar> \<le> SIGNED_SKEW_S" "\<not> nonceSeen (hr_id h) (hh_nonce hdr) d"
    by (rule signedHost_Inr)
  with r(2) have "\<bar>int ts - fst a div 1000\<bar> \<le> SIGNED_SKEW_S" "\<not> nonceSeen host nonce d" by auto
  with assms skew_within_keep [OF assms(3)] show False
    by (force simp: remembered_def nonceSeen_def list_ex_iff)
qed

lemma remembered_never_taken:
  assumes "remembered host nonce t now d" "sorted (now # map fst acts)" "\<bar>int ts - t div 1000\<bar> \<le> SIGNED_SKEW_S"
  shows "(host, nonce, ts) \<notin> set (takenRequests verify sha256 most acts d)"
  using assms(1,2)
proof (induction acts arbitrary: now d)
  case (Cons a acts)
  have "remembered host nonce t (fst a) (snd (serve verify sha256 most a d))" using Cons.prems serve_remembers by auto
  then have "(host, nonce, ts) \<notin> set (takenRequests verify sha256 most acts (snd (serve verify sha256 most a d)))"
    using Cons.prems(2) Cons.IH [of "fst a"] by simp
  moreover have "fst (serve verify sha256 most a d) \<noteq> Some (host, nonce, ts)"
    using Cons.prems serve_remembered_refused assms(3) by auto
  ultimately show ?case unfolding takenRequests_Cons by (auto split: option.splits)
qed simp

lemma serve_taken_remembered:
  assumes "fst (serve verify sha256 most a d) = Some (host, nonce, ts)"
  shows "remembered host nonce (fst a) (fst a) (snd (serve verify sha256 most a d)) \<and> \<bar>int ts - fst a div 1000\<bar> \<le> SIGNED_SKEW_S"
proof -
  from assms obtain req h d' where r: "snd a = Request req" "signedHost verify sha256 most (fst a) req d = (Inr h, d')"
    "map_option (\<lambda>hdr. (hr_id h, hh_nonce hdr, hh_ts hdr)) (parseHostHeader (rq_header req)) = Some (host, nonce, ts)"
    by (auto simp: serve_def split: host_act.splits sum.splits prod.splits)
  moreover from r(1,2) have "snd (serve verify sha256 most a d) = d'" by (simp add: serve_def)
  ultimately show ?thesis by (elim signedHost_Inr) (auto simp: remembered_def)
qed

text \<open>
  C16. No signed request is taken twice: over any sequence of requests, of the cron's prunes of old nonces and
  of other work, at times that never go back, the requests the pool takes are pairwise different in their
  host, nonce or time, whatever the database held at the start. A nonce is pruned only when its request's
  time is outside the skew for good.
\<close>

theorem no_replay:
  assumes "sorted (map fst acts)"
  shows "distinct (takenRequests verify sha256 most acts d)"
  using assms
proof (induction acts arbitrary: d)
  case (Cons a acts)
  define s where "s = serve verify sha256 most a d"
  have later: "distinct (takenRequests verify sha256 most acts (snd s))" using Cons by simp
  show ?case
  proof (cases "fst s")
    case None
    with later s_def show ?thesis unfolding takenRequests_Cons by simp
  next
    case (Some x)
    obtain host nonce ts where x: "x = (host, nonce, ts)" by (cases x) auto
    with Some s_def serve_taken_remembered [of verify sha256 most a d host nonce ts]
    have "x \<notin> set (takenRequests verify sha256 most acts (snd s))"
      using remembered_never_taken [of host nonce "fst a" "fst a" "snd s" acts ts] Cons.prems by auto
    with later Some s_def show ?thesis unfolding takenRequests_Cons by simp
  qed
qed simp

definition ex_request :: request where
  "ex_request = \<lparr>rq_header = Some ex_header, rq_method = ''GET'', rq_path = ''/hosts/self/state'', rq_body = []\<rparr>"

definition ex_host_db :: db where
  "ex_host_db = empty_db\<lparr>d_hosts := [ex_host_row\<lparr>hr_id := ''h_0123456789'', hr_pubkey := toB64url (replicate 32 0)\<rparr>],
     d_maintainers := [''ann''], d_contributors := [(''ann'', 7)]\<rparr>"

definition ex_crypto :: webcrypto where
  "ex_crypto alg key sig message = Some True"

lemma ex_signature: "fromB64url (replicate 86 (CHR ''A'')) = Some (replicate 64 0)"
  by code_simp

lemma ex_key: "hostPublicKey (Some (JStr (toB64url (replicate 32 0)))) = Some \<lparr>hk_alg = Ed25519, hk_raw = replicate 32 0\<rparr>"
  by (simp add: hostPublicKey_def publicKeyBytes_def jstr_def b64url_inverse length_toB64url)

lemma ex_taken:
  "takenRequests ex_crypto (\<lambda>_. []) 10 [(17000, Request ex_request), (18000, Request ex_request)] ex_host_db
    = [(''h_0123456789'', replicate 32 (CHR ''a''), 17)]"
proof -
  have v: "verifyHostSignature ex_crypto key (replicate 86 (CHR ''A'')) message" for key message
    by (simp add: verifyHostSignature_def ex_signature ex_crypto_def)
  show ?thesis
    by (simp add: takenRequests_Cons serve_def signedHost_def ex_request_def ex_header_reads ex_parsed_def SIGNED_SKEW_S_def
        hostRow_def ex_host_db_def ex_host_row_def empty_db_def ex_key v insertNonce_def nonceSeen_def del: takenRequests.simps(2))
qed

theorem no_replay_witness:
  "takenRequests ex_crypto (\<lambda>_. []) 10 [(17000, Request ex_request), (18000, Request ex_request)] ex_host_db
    = [(''h_0123456789'', replicate 32 (CHR ''a''), 17)]
   \<and> distinct (takenRequests ex_crypto (\<lambda>_. []) 10 [(17000, Request ex_request), (18000, Request ex_request)] ex_host_db)"
  using ex_taken no_replay [of "[(17000, Request ex_request), (18000, Request ex_request)]" ex_crypto "\<lambda>_. []" 10 ex_host_db] by simp

subsection \<open>The claim's refusal and the lease statement\<close>

text \<open>
  The refusal a claim of a host's registration reads and the check the lease statement makes agree: the
  statement may lease for a host exactly when its row is there and no refusal applies to it - active, its
  owner listed among the maintainers now, and not stopped by the list. (Host ids are the table's key.)
\<close>

theorem claim_refusal_agrees:
  assumes "distinct (map hr_id (d_hosts d))"
  shows "HOST_MAY_LEASE_SQL d i \<longleftrightarrow> (\<exists>r. HOST_CLAIM_SQL d i = Some r \<and> hostClaimRefusal r = None)"
proof -
  have "list_ex (\<lambda>h. hr_id h = i \<and> P h) (d_hosts d) \<longleftrightarrow> (\<exists>h. hostRow i d = Some h \<and> P h)" for P
  proof
    assume "list_ex (\<lambda>h. hr_id h = i \<and> P h) (d_hosts d)"
    then obtain h where "h \<in> set (d_hosts d)" "hr_id h = i" "P h" by (auto simp: list_ex_iff)
    with find_distinct [OF assms, of h] show "\<exists>h. hostRow i d = Some h \<and> P h" by (auto simp: hostRow_def)
  qed (auto simp: hostRow_def list_ex_iff find_Some_iff intro: bexI [OF _ nth_mem])
  then have "HOST_MAY_LEASE_SQL d i \<longleftrightarrow> (\<exists>h. hostRow i d = Some h \<and> hr_status h = ''active'' \<and> hr_owner_removed_at h = None
      \<and> OWNER_LISTED_SQL d (hr_owner_github_id h))" by (simp add: HOST_MAY_LEASE_SQL_def)
  also have "\<dots> \<longleftrightarrow> (\<exists>r. HOST_CLAIM_SQL d i = Some r \<and> hostClaimRefusal r = None)"
    by (cases "hostRow i d") (auto simp: HOST_CLAIM_SQL_def hostClaimRefusal_def split: if_splits option.splits)
  finally show ?thesis .
qed

theorem claim_refusal_agrees_witness:
  "HOST_MAY_LEASE_SQL ex_host_db ''h_0123456789''
    \<and> map_option (\<lambda>r. hostClaimRefusal r = None) (HOST_CLAIM_SQL ex_host_db ''h_0123456789'') = Some True
    \<and> \<not> HOST_MAY_LEASE_SQL (ex_host_db\<lparr>d_maintainers := []\<rparr>) ''h_0123456789''"
proof -
  have ids: "distinct (map hr_id (d_hosts ex_host_db))" "distinct (map hr_id (d_hosts (ex_host_db\<lparr>d_maintainers := []\<rparr>)))"
    by (simp_all add: ex_host_db_def)
  have "HOST_MAY_LEASE_SQL ex_host_db ''h_0123456789''" "\<not> HOST_MAY_LEASE_SQL (ex_host_db\<lparr>d_maintainers := []\<rparr>) ''h_0123456789''"
    by (simp_all add: HOST_MAY_LEASE_SQL_def OWNER_LISTED_SQL_def ex_host_db_def ex_host_row_def empty_db_def)
  with claim_refusal_agrees [OF ids(1)] show ?thesis by auto
qed

end
