(* ===== verification/Host_Settings.thy ===== *)
theory Host_Settings
  imports Host_Keys
begin

text \<open>
  The orders a host takes and what its report says of itself beyond its capacity (worker/src/hosts.ts, second
  half): the kinds of host orders and the agents that take them, a settings order's value, the settings the
  pool keeps, the settings, brake, legacy set and owner's part of a report, the agent's answers, a signed
  widening of the envelope and sealed agent keys. A stored or reported text is the JSON value it parses to,
  None when there is none or it does not parse.
\<close>

subsection \<open>Kinds and agents\<close>

definition HOST_ORDER_KINDS :: "string list" where
  "HOST_ORDER_KINDS = [''retire-legacy'', ''reconcile-now'', ''set-units'', ''set-emulate'', ''rotate-token'', ''retry-release'',
     ''diagnostics'', ''widen-envelope'', ''set-agent-keys'']"

definition isHostOrderKind :: "json option \<Rightarrow> bool" where
  "isHostOrderKind k \<longleftrightarrow> word_in HOST_ORDER_KINDS k \<noteq> None"

definition OWNER_ORDER_KINDS :: "string list" where "OWNER_ORDER_KINDS = [''widen-envelope'', ''set-agent-keys'']"

definition SETTINGS_ORDER_KINDS :: "string list" where
  "SETTINGS_ORDER_KINDS = [''set-units'', ''set-emulate'', ''rotate-token'', ''retry-release'', ''diagnostics'']"

definition HOST_OWNER_AGENT :: string where "HOST_OWNER_AGENT = ''0.4.0''"
definition HOST_SETTINGS_AGENT :: string where "HOST_SETTINGS_AGENT = ''0.4.0''"
definition HOST_ORDERS_AGENT :: string where "HOST_ORDERS_AGENT = ''0.3.0''"
definition HOST_ORDER_TTL_MIN :: int where "HOST_ORDER_TTL_MIN = 60"
definition ORDER_DETAIL_MAX :: nat where "ORDER_DETAIL_MAX = 500"
definition MAX_SETTING_UNITS :: int where "MAX_SETTING_UNITS = 4096"

text \<open>\<^verbatim>\<open>^ho_[0-9a-f]{32}$\<close>.\<close>

definition HOST_ORDER_ID :: "string \<Rightarrow> bool" where
  "HOST_ORDER_ID s \<longleftrightarrow> length s = 35 \<and> starts_with ''ho_'' s \<and> list_all is_hex (drop 3 s)"

text \<open>\<^verbatim>\<open>^(\d{1,4})\.(\d{1,4})\.(\d{1,6})$\<close>.\<close>

definition semver :: "string option \<Rightarrow> (int \<times> int \<times> int) option" where
  "semver v = (case split_on (CHR ''.'') (nvl v []) of
     [a, b, c] \<Rightarrow>
       if digits_word a \<and> length a \<le> 4 \<and> digits_word b \<and> length b \<le> 4 \<and> digits_word c \<and> length c \<le> 6
       then Some (number_of_digits a, number_of_digits b, number_of_digits c) else None
   | _ \<Rightarrow> None)"

definition atLeast :: "string option \<Rightarrow> string \<Rightarrow> bool" where
  "atLeast v want = (case (semver v, semver (Some want)) of
     (Some (h1, h2, h3), Some (w1, w2, w3)) \<Rightarrow>
       if h1 \<noteq> w1 then h1 > w1 else if h2 \<noteq> w2 then h2 > w2 else if h3 \<noteq> w3 then h3 > w3 else True
   | _ \<Rightarrow> False)"

definition agentTakesOrders :: "string option \<Rightarrow> bool" where "agentTakesOrders v = atLeast v HOST_ORDERS_AGENT"
definition agentTakesSettings :: "string option \<Rightarrow> bool" where "agentTakesSettings v = atLeast v HOST_SETTINGS_AGENT"
definition agentTakesOwner :: "string option \<Rightarrow> bool" where "agentTakesOwner v = atLeast v HOST_OWNER_AGENT"

subsection \<open>Settings\<close>

text \<open>An object or an array: \<^verbatim>\<open>x && typeof x === "object"\<close>.\<close>

definition js_object :: "json option \<Rightarrow> bool" where
  "js_object v = (case v of Some (JObj _) \<Rightarrow> True | Some (JArr _) \<Rightarrow> True | _ \<Rightarrow> False)"

text \<open>A list whose every element is an architecture.\<close>

definition archList :: "json option \<Rightarrow> arch list option" where
  "archList v = (case jarr v of None \<Rightarrow> None | Some xs \<Rightarrow> those (map (\<lambda>x. word_in ARCHES (Some x)) xs))"

datatype order_arg = UnitsTo "int option" | EmulateTo "arch list option"
datatype arg_error = BadUnits | BadEmulate

definition orderArg :: "string \<Rightarrow> json option \<Rightarrow> arg_error + order_arg option" where
  "orderArg kind b =
     (if kind = ''set-units'' then
        (if jfield b ''units'' = Some JNull then Inr (Some (UnitsTo None))
         else (case jint_in (jfield b ''units'') 1 (of_int MAX_SETTING_UNITS) of
             None \<Rightarrow> Inl BadUnits
           | Some n \<Rightarrow> Inr (Some (UnitsTo (Some n)))))
      else if kind = ''set-emulate'' then
        (if jfield b ''emulate'' = Some JNull then Inr (Some (EmulateTo None))
         else (case archList (jfield b ''emulate'') of
             None \<Rightarrow> Inl BadEmulate
           | Some xs \<Rightarrow> if length xs > length ARCHES then Inl BadEmulate else Inr (Some (EmulateTo (Some (sort (uniq xs)))))))
      else Inr None)"

record host_settings =
  st_units :: "int option"
  st_emulate :: "arch list option"

definition hostSettingsOf :: "json option \<Rightarrow> host_settings option" where
  "hostSettingsOf v =
     (let units = jint_in (jfield v ''units'') 1 (of_int MAX_SETTING_UNITS); emulate = archList (jfield v ''emulate'')
      in if units = None \<and> emulate = None then None else Some \<lparr>st_units = units, st_emulate = emulate\<rparr>)"

text \<open>The report's texts: at most so long, no control character.\<close>

definition plainText :: "nat \<Rightarrow> json option \<Rightarrow> string option" where
  "plainText most v = (case jstr v of
     Some s \<Rightarrow> if length s \<le> most \<and> \<not> list_ex is_control s then Some s else None
   | None \<Rightarrow> None)"

record envelope_view =
  ev_max_units :: "int option"
  ev_detected_units :: "int option"
  ev_emulate :: "arch list option"
  ev_detected_lanes :: "arch list"
  ev_diagnostics :: "bool option"

record reported_settings =
  rp_units :: "int option"
  rp_emulate :: "arch list option"
  rp_envelope :: envelope_view
  rp_effective_units :: "int option"
  rp_effective_emulated :: "arch list"
  rp_above :: "string list"

definition settingUnits :: "json option \<Rightarrow> int option" where
  "settingUnits v = jint_in v 0 (of_int MAX_SETTING_UNITS)"

definition settingArches :: "json option \<Rightarrow> arch list option" where
  "settingArches v = (case archList v of Some xs \<Rightarrow> if length xs \<le> length ARCHES then Some xs else None | None \<Rightarrow> None)"

definition reportedSettingsOf :: "json option \<Rightarrow> reported_settings option" where
  "reportedSettingsOf report =
     (let s = jfield report ''settings''; e = jfield s ''envelope''; f = jfield s ''effective''
      in if \<not> js_object s then None
         else Some \<lparr>rp_units = settingUnits (jfield s ''units''), rp_emulate = settingArches (jfield s ''emulate''),
           rp_envelope = \<lparr>ev_max_units = settingUnits (jfield e ''max_units''), ev_detected_units = settingUnits (jfield e ''detected_units''),
             ev_emulate = settingArches (jfield e ''emulate''), ev_detected_lanes = nvl (settingArches (jfield e ''detected_lanes'')) [],
             ev_diagnostics = jbool (jfield e ''diagnostics'')\<rparr>,
           rp_effective_units = settingUnits (jfield f ''units''), rp_effective_emulated = nvl (settingArches (jfield f ''emulated'')) [],
           rp_above = take 4 (List.map_filter (\<lambda>a. plainText ORDER_DETAIL_MAX (Some a)) (nvl (jarr (jfield s ''above'')) []))\<rparr>)"

record reported_brake =
  bk_orders_hour :: "int option"
  bk_restarts_hour :: "int option"
  bk_narrowings_hour :: "int option"
  bk_release_change_at :: "string option"

definition reportedBrakeOf :: "json option \<Rightarrow> reported_brake option" where
  "reportedBrakeOf report =
     (let b = jfield report ''brake''; n = (\<lambda>k. jint_in (jfield b k) 0 10000)
      in if \<not> js_object b then None
         else Some \<lparr>bk_orders_hour = n ''orders_hour'', bk_restarts_hour = n ''restarts_hour'', bk_narrowings_hour = n ''narrowings_hour'',
           bk_release_change_at = (case jstr (jfield b ''release_change_at'') of Some s \<Rightarrow> if length s \<le> 40 then Some s else None | None \<Rightarrow> None)\<rparr>)"

subsection \<open>The legacy set\<close>

record legacy_set =
  lg_project :: string
  lg_state :: string
  lg_since :: "string option"
  lg_containers :: "int option"
  lg_running :: "int option"
  lg_dir :: "string option"
  lg_blocked :: "string option"
  lg_order :: "string option"

definition LEGACY_STATES :: "string list" where
  "LEGACY_STATES = [''running'', ''stopped'', ''gone'', ''retiring'', ''retired'', ''unknown'']"

text \<open>\<^verbatim>\<open>^[a-z0-9][a-z0-9_-]{0,63}$\<close>.\<close>

definition project_word :: "string \<Rightarrow> bool" where
  "project_word s = (case s of [] \<Rightarrow> False
     | c # cs \<Rightarrow> alnum_lower c \<and> length cs \<le> 63 \<and> list_all (\<lambda>x. alnum_lower x \<or> x \<in> set ''_-'') cs)"

definition legacyOf :: "json option \<Rightarrow> legacy_set option" where
  "legacyOf report =
     (let l = jfield report ''legacy'';
          count = (\<lambda>k. case jint_in (jfield l k) 0 10000 of Some n \<Rightarrow> if n < 10000 then Some n else None | None \<Rightarrow> None)
      in case jstr (jfield l ''project'') of
           None \<Rightarrow> None
         | Some p \<Rightarrow> if \<not> project_word p then None
             else Some \<lparr>lg_project = p, lg_state = nvl (word_in LEGACY_STATES (jfield l ''state'')) ''unknown'',
               lg_since = plainText 40 (jfield l ''since''), lg_containers = count ''containers'', lg_running = count ''running'',
               lg_dir = plainText 4096 (jfield l ''dir''), lg_blocked = plainText ORDER_DETAIL_MAX (jfield l ''blocked''),
               lg_order = (case jstr (jfield l ''order'') of Some i \<Rightarrow> if HOST_ORDER_ID i then Some i else None | None \<Rightarrow> None)\<rparr>)"

subsection \<open>Answers\<close>

datatype outcome = OutDone | OutRefused | OutFailed

record order_answer =
  an_id :: string
  an_outcome :: outcome
  an_detail :: string

definition answerOutcome :: "json option \<Rightarrow> outcome option" where
  "answerOutcome v = (case jstr v of
     Some s \<Rightarrow> if s = ''done'' then Some OutDone else if s = ''refused'' then Some OutRefused
       else if s = ''failed'' then Some OutFailed else None
   | None \<Rightarrow> None)"

definition orderAnswer :: "json \<Rightarrow> order_answer option" where
  "orderAnswer a = (case (jstr (jfield (Some a) ''id''), answerOutcome (jfield (Some a) ''outcome'')) of
     (Some i, Some outcome) \<Rightarrow>
       if \<not> HOST_ORDER_ID i then None
       else Some \<lparr>an_id = i, an_outcome = outcome,
         an_detail = (case jstr (jfield (Some a) ''detail'') of
             None \<Rightarrow> []
           | Some s \<Rightarrow> take ORDER_DETAIL_MAX (trim (map (\<lambda>c. if is_control c then CHR '' '' else c) s)))\<rparr>
   | _ \<Rightarrow> None)"

definition orderAnswers :: "json option \<Rightarrow> order_answer list" where
  "orderAnswers v = (case jarr v of None \<Rightarrow> [] | Some xs \<Rightarrow> List.map_filter orderAnswer (take 16 xs))"

subsection \<open>The owner's documents\<close>

definition OWNER_DOC_SCHEMA :: string where "OWNER_DOC_SCHEMA = ''omarchy-agent/owner/1''"
definition OWNER_DOC_MAX :: nat where "OWNER_DOC_MAX = 32 * 1024"

definition WIDENABLE :: "string list" where
  "WIDENABLE = [''max_units'', ''max_cpus'', ''max_mem_gb'', ''emulate'', ''agent_slots'', ''agent_budget'', ''diagnostics'', ''paths'']"

definition AGENT_KEY_NAMES :: "string list" where
  "AGENT_KEY_NAMES = [''ANTHROPIC_API_KEY'', ''CLAUDE_CODE_OAUTH_TOKEN'', ''OPENAI_API_KEY'', ''GEMINI_API_KEY'', ''XAI_API_KEY'', ''GITHUB_TOKEN'']"

definition BUDGET_MAX :: "(string \<times> int) list" where
  "BUDGET_MAX = [(''calls_per_task'', 4294967295), (''tokens_per_task'', 1000000000000), (''minutes_per_task'', 1000000000000), (''calls_per_day'', 4294967295)]"

datatype owner_act = PinPasskey | WidenEnvelope | SetAgentKeys

definition act_word :: "owner_act \<Rightarrow> string" where
  "act_word a = (case a of PinPasskey \<Rightarrow> ''pin-passkey'' | WidenEnvelope \<Rightarrow> ''widen-envelope'' | SetAgentKeys \<Rightarrow> ''set-agent-keys'')"

definition act_of :: "json option \<Rightarrow> owner_act option" where
  "act_of v = find (\<lambda>a. v = Some (JStr (act_word a))) [PinPasskey, WidenEnvelope, SetAgentKeys]"

record owner_doc =
  od_act :: owner_act
  od_host :: string
  od_version :: "json option"
  od_issued_at :: string
  od_not_after :: string
  od_by :: string
  od_rp_id :: "json option"
  od_origin :: "json option"
  od_envelope :: "json option"
  od_seal_key :: "json option"
  od_keys :: "json option"

text \<open>A field that is undefined is not written.\<close>

definition doc_field :: "string \<Rightarrow> json option \<Rightarrow> (string \<times> json) list" where
  "doc_field k v = (case v of None \<Rightarrow> [] | Some x \<Rightarrow> [(k, x)])"

text \<open>The document, as the value whose JSON text the passkey signs; the order of its fields is fixed.\<close>

definition ownerDoc :: "owner_doc \<Rightarrow> json" where
  "ownerDoc d = JObj (
     [(''schema'', JStr OWNER_DOC_SCHEMA), (''act'', JStr (act_word (od_act d))), (''host'', JStr (od_host d))]
     @ (if od_act d \<noteq> PinPasskey then doc_field ''version'' (od_version d) else [])
     @ [(''issued_at'', JStr (od_issued_at d)), (''not_after'', JStr (od_not_after d)), (''by'', JStr (od_by d))]
     @ (if od_act d = PinPasskey then doc_field ''rp_id'' (od_rp_id d) @ doc_field ''origin'' (od_origin d) else [])
     @ (if od_act d = WidenEnvelope then doc_field ''envelope'' (od_envelope d) else [])
     @ (if od_act d = SetAgentKeys then doc_field ''seal_key'' (od_seal_key d) @ doc_field ''keys'' (od_keys d) else []))"

text \<open>Read back from the text a page posts; \<open>json_parse\<close> and \<open>json_text\<close> are \<^verbatim>\<open>JSON.parse\<close> and
  \<^verbatim>\<open>JSON.stringify\<close>.\<close>

definition readOwnerDoc :: "(string \<Rightarrow> json option) \<Rightarrow> (json \<Rightarrow> string) \<Rightarrow> json option \<Rightarrow> owner_doc option" where
  "readOwnerDoc json_parse json_text v = (case jstr v of
     None \<Rightarrow> None
   | Some text \<Rightarrow>
       if length text > OWNER_DOC_MAX then None
       else (let d = json_parse text
             in if jfield d ''schema'' \<noteq> Some (JStr OWNER_DOC_SCHEMA) then None
                else (case (act_of (jfield d ''act''), jstr (jfield d ''host''), jstr (jfield d ''issued_at''), jstr (jfield d ''not_after''), jstr (jfield d ''by'')) of
                    (Some act, Some host, Some issued, Some until, Some by') \<Rightarrow>
                      (let doc = \<lparr>od_act = act, od_host = host, od_version = jfield d ''version'', od_issued_at = issued, od_not_after = until,
                             od_by = by', od_rp_id = jfield d ''rp_id'', od_origin = jfield d ''origin'', od_envelope = jfield d ''envelope'',
                             od_seal_key = jfield d ''seal_key'', od_keys = jfield d ''keys''\<rparr>
                       in if json_text (ownerDoc doc) = text then Some doc else None)
                  | _ \<Rightarrow> None)))"

subsection \<open>A widening of the envelope\<close>

datatype widening_error =
    WNotObject | WNoKey | WUnknown string | WNull string | WValue string | WBudgetKey string | WBudgetValue string int

definition plainPath :: "json \<Rightarrow> bool" where
  "plainPath p = (case p of
     JStr s \<Rightarrow> length s \<le> 4096 \<and> s \<noteq> ''/'' \<and> starts_with ''/'' s
       \<and> \<not> list_ex (\<lambda>c. c = [] \<or> c = ''.'' \<or> c = ''..'') (drop 1 (split_on (CHR ''/'') s))
   | _ \<Rightarrow> False)"

text \<open>What is wrong with a table of budgets: its first entry that is no budget key, or no whole number in its range.\<close>

fun budgetError :: "(string \<times> json) list \<Rightarrow> widening_error option" where
  "budgetError [] = None"
| "budgetError ((k, v) # kvs) = (case map_of BUDGET_MAX k of
     None \<Rightarrow> Some (WBudgetKey k)
   | Some m \<Rightarrow> if jint_in (Some v) 1 (of_int m) = None then Some (WBudgetValue k m) else budgetError kvs)"

definition wideningError :: "string \<Rightarrow> json \<Rightarrow> widening_error option" where
  "wideningError k x =
     (if k \<notin> set WIDENABLE then Some (WUnknown k)
      else if x = JNull then
        (if k \<in> {''max_units'', ''max_cpus'', ''max_mem_gb'', ''emulate'', ''agent_budget''} then None else Some (WNull k))
      else if k = ''max_units'' \<or> k = ''max_cpus'' then (if jint_in (Some x) 1 4096 = None then Some (WValue k) else None)
      else if k = ''max_mem_gb'' then (if jint_in (Some x) 1 65536 = None then Some (WValue k) else None)
      else if k = ''agent_slots'' then (if jint_in (Some x) 0 64 = None then Some (WValue k) else None)
      else if k = ''diagnostics'' then (if jbool (Some x) = None then Some (WValue k) else None)
      else if k = ''emulate'' then
        (case archList (Some x) of None \<Rightarrow> Some (WValue k) | Some xs \<Rightarrow> if distinct xs then None else Some (WValue k))
      else if k = ''agent_budget'' then (case x of JObj kvs \<Rightarrow> budgetError kvs | _ \<Rightarrow> Some (WValue k))
      else (case x of
          JArr xs \<Rightarrow> if length xs \<le> 16 \<and> distinct xs \<and> list_all plainPath xs then None else Some (WValue k)
        | _ \<Rightarrow> Some (WValue k)))"

fun wideningLoop :: "(string \<times> json) list \<Rightarrow> widening_error option" where
  "wideningLoop [] = None"
| "wideningLoop ((k, x) # kvs) = (case wideningError k x of Some e \<Rightarrow> Some e | None \<Rightarrow> wideningLoop kvs)"

definition widening :: "json option \<Rightarrow> widening_error + (string \<times> json) list" where
  "widening v = (case v of
     Some (JObj kvs) \<Rightarrow> if kvs = [] then Inl WNoKey else (case wideningLoop kvs of Some e \<Rightarrow> Inl e | None \<Rightarrow> Inr kvs)
   | _ \<Rightarrow> Inl WNotObject)"

subsection \<open>Sealed keys\<close>

datatype sealed_key = Sealed string string string string | Removed string

datatype sealed_error = KeysCount | KeyName | KeyTwice string | KeyBoth string | KeyNotSealed string

fun key_name :: "sealed_key \<Rightarrow> string" where
  "key_name (Sealed n epk nonce ct) = n"
| "key_name (Removed n) = n"

text \<open>A text of base64url of a length within bounds.\<close>

definition b64_field :: "nat \<Rightarrow> nat \<Rightarrow> json option \<Rightarrow> string option" where
  "b64_field lo hi v = (case jstr v of
     Some s \<Rightarrow> if s \<noteq> [] \<and> list_all (\<lambda>c. c \<in> set B64_ALPHABET) s \<and> lo \<le> length s \<and> length s \<le> hi then Some s else None
   | None \<Rightarrow> None)"

definition field_names :: "json \<Rightarrow> string list" where
  "field_names j = (case j of JObj kvs \<Rightarrow> map fst kvs | _ \<Rightarrow> [])"

fun sealedLoop :: "json list \<Rightarrow> sealed_key list \<Rightarrow> sealed_error + sealed_key list" where
  "sealedLoop [] out = Inr out"
| "sealedLoop (k # ks) out = (case word_in AGENT_KEY_NAMES (jfield (Some k) ''name'') of
     None \<Rightarrow> Inl KeyName
   | Some n \<Rightarrow>
       if n \<in> set (map key_name out) then Inl (KeyTwice n)
       else if jfield (Some k) ''remove'' = Some (JBool True) then
         (if set (field_names k) \<subseteq> {''name'', ''remove''} then sealedLoop ks (out @ [Removed n]) else Inl (KeyBoth n))
       else (case (b64_field 43 43 (jfield (Some k) ''epk''), b64_field 16 16 (jfield (Some k) ''nonce''), b64_field 23 1400 (jfield (Some k) ''ct'')) of
           (Some e, Some nc, Some c) \<Rightarrow>
             if set (field_names k) \<subseteq> {''name'', ''epk'', ''nonce'', ''ct''} then sealedLoop ks (out @ [Sealed n e nc c]) else Inl (KeyNotSealed n)
         | _ \<Rightarrow> Inl (KeyNotSealed n)))"

definition sealedKeys :: "json option \<Rightarrow> sealed_error + sealed_key list" where
  "sealedKeys v = (case jarr v of
     None \<Rightarrow> Inl KeysCount
   | Some ks \<Rightarrow> if ks = [] \<or> length ks > length AGENT_KEY_NAMES then Inl KeysCount else sealedLoop ks [])"

definition sealKeyOf :: "json option \<Rightarrow> string option" where
  "sealKeyOf v = (case b64_field 43 43 v of
     None \<Rightarrow> None
   | Some s \<Rightarrow> (case fromB64url s of Some raw \<Rightarrow> if length raw = 32 then Some s else None | None \<Rightarrow> None))"

subsection \<open>The owner's part of a report\<close>

record reported_passkey =
  pk_credential :: string
  pk_alg :: string
  pk_rp_id :: string
  pk_origin :: string
  pk_by :: string
  pk_pinned_at :: string

record reported_owner =
  ro_passkey :: "reported_passkey option"
  ro_version :: "int option"
  ro_seal :: "(string \<times> string) option"
  ro_envelope :: "(string \<times> json) list option"
  ro_agent_keys :: "string list"

text \<open>\<^verbatim>\<open>^[A-Z_][A-Z0-9_]{0,63}$\<close>.\<close>

definition env_name :: "string \<Rightarrow> bool" where
  "env_name s = (case s of [] \<Rightarrow> False
     | c # cs \<Rightarrow> (is_upper c \<or> c = CHR ''_'') \<and> length cs \<le> 63 \<and> list_all (\<lambda>x. is_upper x \<or> is_digit x \<or> x = CHR ''_'') cs)"

definition reportedPasskey :: "json option \<Rightarrow> reported_passkey option" where
  "reportedPasskey p = (case plainText 1400 (jfield p ''credential'') of
     None \<Rightarrow> None
   | Some c \<Rightarrow>
       if c = [] \<or> \<not> list_all (\<lambda>x. x \<in> set B64_ALPHABET) c then None
       else Some \<lparr>pk_credential = c, pk_alg = nvl (plainText 8 (jfield p ''alg'')) ''?'', pk_rp_id = nvl (plainText 253 (jfield p ''rp_id'')) ''?'',
         pk_origin = nvl (plainText 300 (jfield p ''origin'')) ''?'', pk_by = nvl (plainText 39 (jfield p ''by'')) ''?'',
         pk_pinned_at = nvl (plainText 40 (jfield p ''pinned_at'')) ''?''\<rparr>)"

definition reportedEnvelope :: "json option \<Rightarrow> (string \<times> json) list option" where
  "reportedEnvelope v = (case v of
     Some (JObj kvs) \<Rightarrow> Some (map (\<lambda>k. (k, case map_of kvs k of
         None \<Rightarrow> JNull
       | Some x \<Rightarrow> (case widening (Some (JObj [(k, x)])) of Inl _ \<Rightarrow> JNull | Inr _ \<Rightarrow> x))) WIDENABLE)
   | _ \<Rightarrow> None)"

definition reportedOwnerOf :: "json option \<Rightarrow> reported_owner option" where
  "reportedOwnerOf report =
     (let w = jfield report ''owner''
      in if \<not> js_object w then None
         else Some \<lparr>ro_passkey = reportedPasskey (jfield w ''passkey''),
           ro_version = jint_in (jfield w ''version'') 0 9007199254740991,
           ro_seal = (case (sealKeyOf (jfield (jfield w ''seal'') ''key''), plainText 60 (jfield (jfield w ''seal'') ''fingerprint'')) of
               (Some k, Some fp) \<Rightarrow> if fp \<noteq> [] then Some (k, fp) else None
             | _ \<Rightarrow> None),
           ro_envelope = reportedEnvelope (jfield w ''envelope''),
           ro_agent_keys = take 32 (List.map_filter (\<lambda>k. case k of JStr s \<Rightarrow> if env_name s then Some s else None | _ \<Rightarrow> None)
             (nvl (jarr (jfield w ''agent_keys'')) []))\<rparr>)"

subsection \<open>What a widening may set\<close>

lemma jint_in_JNum:
  assumes "jint_in (Some x) lo hi \<noteq> None"
  obtains n where "x = JNum (of_int n)" "lo \<le> of_int n" "of_int n \<le> hi"
proof -
  from assms obtain n where n: "jint_in (Some x) lo hi = Some n" by auto
  then have "x = JNum (of_int n)" by (auto simp: jint_in_def jnum_in_def split: json.splits if_splits)
  with jint_in_bounds [OF n] that show ?thesis by blast
qed

lemma wideningLoop_None: "wideningLoop kvs = None \<longleftrightarrow> list_all (\<lambda>(k, x). wideningError k x = None) kvs"
  by (induction kvs rule: wideningLoop.induct) (auto split: option.splits)

lemma wideningError_units:
  assumes "wideningError k x = None" "k = ''max_units'' \<or> k = ''max_cpus''" "x \<noteq> JNull"
  shows "\<exists>n. x = JNum (of_int n) \<and> 1 \<le> n \<and> n \<le> 4096"
proof -
  from assms have "jint_in (Some x) 1 4096 \<noteq> None" by (auto simp: wideningError_def split: if_splits)
  then show ?thesis by (elim jint_in_JNum) auto
qed

lemma wideningError_slots:
  assumes "wideningError ''agent_slots'' x = None"
  shows "\<exists>n. x = JNum (of_int n) \<and> 0 \<le> n \<and> n \<le> 64"
proof -
  from assms have "jint_in (Some x) 0 64 \<noteq> None" by (auto simp: wideningError_def split: if_splits)
  then show ?thesis by (elim jint_in_JNum) auto
qed

lemma wideningError_paths:
  assumes "wideningError ''paths'' x = None"
  shows "\<exists>ps. x = JArr ps \<and> length ps \<le> 16 \<and> list_all plainPath ps"
  using assms by (auto simp: wideningError_def split: if_splits json.splits)

lemma plainPath_JStr:
  assumes "plainPath p"
  shows "\<exists>s. p = JStr s \<and> starts_with ''/'' s \<and> ''..'' \<notin> set (drop 1 (split_on (CHR ''/'') s))"
  using assms by (auto simp: plainPath_def list_ex_iff split: json.splits)

text \<open>
  A widening the pool relays sets only the keys a signed widening may set, each within the agent's own
  range: units and CPUs none or a whole number from 1 to 4096, agent slots from 0 to 64, at most sixteen
  paths, each absolute and without a parent step; and it is the owner's own object, neither changed nor cut.
\<close>

theorem widening_within:
  assumes "widening v = Inr w" "(k, x) \<in> set w"
  shows "v = Some (JObj w) \<and> k \<in> set WIDENABLE
    \<and> (k = ''max_units'' \<or> k = ''max_cpus'' \<longrightarrow> x = JNull \<or> (\<exists>n. x = JNum (of_int n) \<and> 1 \<le> n \<and> n \<le> 4096))
    \<and> (k = ''agent_slots'' \<longrightarrow> (\<exists>n. x = JNum (of_int n) \<and> 0 \<le> n \<and> n \<le> 64))
    \<and> (k = ''paths'' \<longrightarrow> (\<exists>ps. x = JArr ps \<and> length ps \<le> 16
          \<and> list_all (\<lambda>p. \<exists>s. p = JStr s \<and> starts_with ''/'' s \<and> ''..'' \<notin> set (drop 1 (split_on (CHR ''/'') s))) ps))"
proof -
  from assms(1) have v: "v = Some (JObj w)" "wideningLoop w = None"
    by (auto simp: widening_def split: option.splits json.splits if_splits)
  with assms(2) have ok: "wideningError k x = None" by (auto simp: wideningLoop_None list_all_iff)
  then have "k \<in> set WIDENABLE" by (auto simp: wideningError_def split: if_splits)
  moreover have "\<exists>ps. x = JArr ps \<and> length ps \<le> 16
          \<and> list_all (\<lambda>p. \<exists>s. p = JStr s \<and> starts_with ''/'' s \<and> ''..'' \<notin> set (drop 1 (split_on (CHR ''/'') s))) ps" if "k = ''paths''"
  proof -
    from that ok obtain ps where "x = JArr ps" "length ps \<le> 16" "list_all plainPath ps" using wideningError_paths by blast
    then show ?thesis using plainPath_JStr unfolding list_all_iff by blast
  qed
  ultimately show ?thesis using v wideningError_units [OF ok] wideningError_slots ok by blast
qed

definition ex_widening :: "(string \<times> json) list" where
  "ex_widening = [(''max_units'', JNum 12), (''paths'', JArr [JStr ''/srv/cache''])]"

theorem widening_within_witness:
  "widening (Some (JObj ex_widening)) = Inr ex_widening \<and> ''max_units'' \<in> set WIDENABLE
    \<and> widening (Some (JObj [(''paths'', JArr [JStr ''/srv/../etc''])])) = Inl (WValue ''paths'')"
proof -
  have w: "widening (Some (JObj ex_widening)) = Inr ex_widening" by code_simp
  have refused: "widening (Some (JObj [(''paths'', JArr [JStr ''/srv/../etc''])])) = Inl (WValue ''paths'')" by code_simp
  show ?thesis using widening_within [OF w, of "''max_units''" "JNum 12"] w refused by (simp add: ex_widening_def)
qed

subsection \<open>The owner's document, read strictly\<close>

lemma act_of_Some: "act_of v = Some a \<Longrightarrow> v = Some (JStr (act_word a))"
  by (auto simp: act_of_def split: if_splits)

lemma act_of_word: "act_of (Some (JStr (act_word a))) = Some a"
  by (cases a) (simp_all add: act_of_def act_word_def)

text \<open>What is read is byte for byte what the pool writes of it.\<close>

lemma readOwnerDoc_strict:
  "readOwnerDoc json_parse json_text (Some (JStr t)) = Some d \<Longrightarrow> json_text (ownerDoc d) = t"
  by (auto simp: readOwnerDoc_def Let_def jstr_def split: if_splits option.splits json.splits)

text \<open>A pin's document reads back; the JSON platform is asked for that text only.\<close>

lemma readOwnerDoc_pin:
  assumes "od_act d = PinPasskey" "od_version d = None" "od_envelope d = None" "od_seal_key d = None" "od_keys d = None"
    "json_parse (json_text (ownerDoc d)) = Some (ownerDoc d)" "length (json_text (ownerDoc d)) \<le> OWNER_DOC_MAX"
  shows "readOwnerDoc json_parse json_text (Some (JStr (json_text (ownerDoc d)))) = Some d"
proof -
  have fields: "jfield (Some (ownerDoc d)) ''schema'' = Some (JStr OWNER_DOC_SCHEMA)" "jfield (Some (ownerDoc d)) ''act'' = Some (JStr (act_word (od_act d)))"
    "jfield (Some (ownerDoc d)) ''host'' = Some (JStr (od_host d))" "jfield (Some (ownerDoc d)) ''version'' = None"
    "jfield (Some (ownerDoc d)) ''issued_at'' = Some (JStr (od_issued_at d))" "jfield (Some (ownerDoc d)) ''not_after'' = Some (JStr (od_not_after d))"
    "jfield (Some (ownerDoc d)) ''by'' = Some (JStr (od_by d))" "jfield (Some (ownerDoc d)) ''rp_id'' = od_rp_id d"
    "jfield (Some (ownerDoc d)) ''origin'' = od_origin d" "jfield (Some (ownerDoc d)) ''envelope'' = None"
    "jfield (Some (ownerDoc d)) ''seal_key'' = None" "jfield (Some (ownerDoc d)) ''keys'' = None"
    using assms(1) by (auto simp: ownerDoc_def jfield_def doc_field_def split: option.splits)
  have same: "\<lparr>od_act = od_act d, od_host = od_host d, od_version = None, od_issued_at = od_issued_at d, od_not_after = od_not_after d,
      od_by = od_by d, od_rp_id = od_rp_id d, od_origin = od_origin d, od_envelope = None, od_seal_key = None, od_keys = None\<rparr> = d"
    using assms by (cases d) simp
  show ?thesis unfolding readOwnerDoc_def using assms(6,7) by (simp add: jstr_def fields act_of_word same)
qed

end
