(* ===== verification/Leak.thy ===== *)
theory Leak
  imports Pool_Text
begin

text \<open>
  What a public text must not carry (worker/src/leak.ts): the shapes of secrets, each a matcher of the text that
  starts at a position (with the character before it, for the word boundary and the start of a line), and the
  first of them in a text with its line.
\<close>

datatype leak_kind =
    PoolToken | PoolJobToken | AnthropicKey | ApiKey | GitHubToken | AwsKey | GoogleKey | XaiKey | PrivateKeyBlock
  | BearerToken | UrlCredential | WorkerEnvironment

record leak =
  lk_kind :: leak_kind
  lk_line :: nat

subsection \<open>Matching\<close>

definition alnum :: "char \<Rightarrow> bool" where
  "alnum c \<longleftrightarrow> is_lower c \<or> is_upper c \<or> is_digit c"

definition word_char :: "char \<Rightarrow> bool" where
  "word_char c \<longleftrightarrow> alnum c \<or> c = CHR ''_''"

definition token_char :: "char \<Rightarrow> bool" where
  "token_char c \<longleftrightarrow> alnum c \<or> c = CHR ''_'' \<or> c = CHR ''-''"

text \<open>\<^verbatim>\<open>\b\<close> before a word character: none before it, or one that is no word character.\<close>

definition at_word :: "char option \<Rightarrow> bool" where
  "at_word prev = (case prev of None \<Rightarrow> True | Some c \<Rightarrow> \<not> word_char c)"

text \<open>A prefix, then at least \<open>n\<close> characters of a class.\<close>

definition prefixed :: "string \<Rightarrow> (char \<Rightarrow> bool) \<Rightarrow> nat \<Rightarrow> string \<Rightarrow> bool" where
  "prefixed p cls n s \<longleftrightarrow> starts_with p s \<and> n \<le> length (takeWhile cls (drop (length p) s))"

text \<open>A prefix, then exactly \<open>n\<close> characters of a class and a word boundary.\<close>

definition bounded :: "string \<Rightarrow> (char \<Rightarrow> bool) \<Rightarrow> nat \<Rightarrow> string \<Rightarrow> bool" where
  "bounded p cls n s \<longleftrightarrow> starts_with p s \<and> (let r = drop (length p) s in
     n \<le> length r \<and> list_all cls (take n r)
     \<and> (case drop n r of [] \<Rightarrow> word_char (last (take n r)) | c # _ \<Rightarrow> word_char (last (take n r)) \<noteq> word_char c))"

definition key_block :: "string \<Rightarrow> bool" where
  "key_block s \<longleftrightarrow> starts_with ''-----BEGIN '' s \<and> (let r = drop 11 s in
     list_ex (\<lambda>k. list_all (\<lambda>c. is_upper c \<or> c = CHR '' '') (take k r)
       \<and> (starts_with ''PRIVATE KEY-----'' (drop k r) \<or> starts_with ''PRIVATE KEY BLOCK-----'' (drop k r))) [0..<Suc (length r)])"

definition url_credential :: "string \<Rightarrow> bool" where
  "url_credential s \<longleftrightarrow> starts_with ''//'' s \<and>
     (let r = drop 2 s;
          user = takeWhile (\<lambda>c. c \<noteq> CHR ''/'' \<and> \<not> is_space c \<and> c \<noteq> CHR '':'' \<and> c \<noteq> CHR ''@'') r;
          r1 = drop (length user) r;
          pass = takeWhile (\<lambda>c. c \<noteq> CHR ''/'' \<and> \<not> is_space c \<and> c \<noteq> CHR ''@'') (drop 1 r1);
          r2 = drop (length pass) (drop 1 r1)
      in user \<noteq> [] \<and> starts_with '':'' r1 \<and> 8 \<le> length pass \<and> starts_with ''@'' r2
         \<and> (case drop 1 r2 of [] \<Rightarrow> False | c # _ \<Rightarrow> c \<noteq> CHR ''/'' \<and> \<not> is_space c))"

definition ENV_NAMES :: "string list" where
  "ENV_NAMES = [''OMARCHY_WORKER_TOKEN'', ''FACTORY_TOKEN'', ''CLAUDE_CODE_OAUTH_TOKEN'', ''ANTHROPIC_API_KEY'', ''OPENAI_API_KEY'',
     ''GEMINI_API_KEY'', ''XAI_API_KEY'', ''GITHUB_TOKEN'', ''GITHUB_REPORT_TOKEN'']"

definition at_line :: "char option \<Rightarrow> bool" where
  "at_line prev = (case prev of None \<Rightarrow> True | Some c \<Rightarrow> c = CHR 0x0A \<or> c = CHR 0x0D)"

subsection \<open>The shapes, and the first leak\<close>

fun matches_kind :: "leak_kind \<Rightarrow> char option \<Rightarrow> string \<Rightarrow> bool" where
  "matches_kind PoolToken prev s = (at_word prev \<and>
     list_ex (\<lambda>p. prefixed p token_char 16 s) [''omw_'', ''omc_'', ''oms_'', ''ome_''])"
| "matches_kind PoolJobToken prev s = (at_word prev \<and> prefixed ''omj.'' token_char 16 s)"
| "matches_kind AnthropicKey prev s = (at_word prev \<and> prefixed ''sk-ant-'' token_char 20 s)"
| "matches_kind ApiKey prev s = (at_word prev \<and> prefixed ''sk-'' token_char 40 s)"
| "matches_kind GitHubToken prev s = (at_word prev \<and>
     (list_ex (\<lambda>p. prefixed p alnum 30 s) [''ghp_'', ''gho_'', ''ghu_'', ''ghs_'', ''ghr_''] \<or> prefixed ''github_pat_'' word_char 30 s))"
| "matches_kind AwsKey prev s = (at_word prev \<and> bounded ''AKIA'' (\<lambda>c. is_digit c \<or> is_upper c) 16 s)"
| "matches_kind GoogleKey prev s = (at_word prev \<and> bounded ''AIza'' token_char 35 s)"
| "matches_kind XaiKey prev s = (at_word prev \<and> prefixed ''xai-'' alnum 40 s)"
| "matches_kind PrivateKeyBlock prev s = key_block s"
| "matches_kind BearerToken prev s = (at_word prev \<and> prefixed ''Bearer '' (\<lambda>c. alnum c \<or> c \<in> set ''._~+/=-'') 30 s)"
| "matches_kind UrlCredential prev s = url_credential s"
| "matches_kind WorkerEnvironment prev s = (at_line prev \<and>
     list_ex (\<lambda>n. prefixed (n @ ''='') (\<lambda>c. alnum c \<or> c \<in> set ''._~+/-'') 16 s) ENV_NAMES)"

definition SHAPES :: "leak_kind list" where
  "SHAPES = [PoolToken, PoolJobToken, AnthropicKey, ApiKey, GitHubToken, AwsKey, GoogleKey, XaiKey, PrivateKeyBlock, BearerToken,
     UrlCredential, WorkerEnvironment]"

text \<open>\<^verbatim>\<open>re.exec(text)?.index\<close>: the first position a shape matches at.\<close>

fun firstIndex :: "leak_kind \<Rightarrow> char option \<Rightarrow> nat \<Rightarrow> string \<Rightarrow> nat option" where
  "firstIndex k prev i [] = None"
| "firstIndex k prev i (c # cs) = (if matches_kind k prev (c # cs) then Some i else firstIndex k (Some c) (Suc i) cs)"

definition better :: "string \<Rightarrow> (leak_kind \<times> nat) option \<Rightarrow> leak_kind \<Rightarrow> (leak_kind \<times> nat) option" where
  "better text found k = (case firstIndex k None 0 text of
     None \<Rightarrow> found
   | Some i \<Rightarrow> (case found of None \<Rightarrow> Some (k, i) | Some (_, j) \<Rightarrow> if i < j then Some (k, i) else found))"

definition findLeak :: "string \<Rightarrow> leak option" where
  "findLeak text = map_option
     (\<lambda>(k, i). \<lparr>lk_kind = k, lk_line = 1 + length (filter (\<lambda>c. c = CHR 0x0A) (take i text))\<rparr>) (foldl (better text) None SHAPES)"

subsection \<open>Every shape is found\<close>

lemma firstIndex_match:
  assumes "matches_kind k (if pre = [] then prev else Some (last pre)) s" "s \<noteq> []"
  shows "\<exists>i \<le> j + length pre. firstIndex k prev j (pre @ s) = Some i"
  using assms(1)
proof (induction pre arbitrary: prev j)
  case Nil
  with assms(2) show ?case by (cases s) auto
next
  case (Cons c cs)
  then have "matches_kind k (if cs = [] then Some c else Some (last cs)) s" by (simp split: if_splits)
  from Cons.IH [OF this, of "Suc j"] show ?case by force
qed

lemma better_found: "found \<noteq> None \<Longrightarrow> better text found k \<noteq> None"
  by (auto simp: better_def split: option.splits)

lemma foldl_better_found: "found \<noteq> None \<Longrightarrow> foldl (better text) found ks \<noteq> None"
  by (induction ks arbitrary: found) (simp_all add: better_found del: not_None_eq)

lemma foldl_better:
  assumes "k \<in> set ks" "firstIndex k None 0 text \<noteq> None"
  shows "foldl (better text) found ks \<noteq> None"
proof -
  from assms(1) obtain xs ys where ks: "ks = xs @ k # ys" by (meson split_list)
  have "better text found' k \<noteq> None" for found' using assms(2) by (auto simp: better_def split: option.splits)
  then show ?thesis unfolding ks by (simp only: foldl_append foldl.simps) (rule foldl_better_found)
qed

text \<open>A shape matches the text from a position: after \<open>pre\<close>, where \<open>s\<close> starts.\<close>

definition leak_at :: "leak_kind \<Rightarrow> string \<Rightarrow> string \<Rightarrow> bool" where
  "leak_at k pre s \<longleftrightarrow> s \<noteq> [] \<and> matches_kind k (if pre = [] then None else Some (last pre)) s"

lemma firstIndex_sound:
  assumes "firstIndex k prev j t = Some i"
  shows "\<exists>pre s. t = pre @ s \<and> s \<noteq> [] \<and> i = j + length pre \<and> matches_kind k (if pre = [] then prev else Some (last pre)) s"
  using assms
proof (induction t arbitrary: prev j)
  case (Cons c cs)
  show ?case
  proof (cases "matches_kind k prev (c # cs)")
    case True
    with Cons.prems show ?thesis by (intro exI [of _ "[]"] exI [of _ "c # cs"]) auto
  next
    case False
    with Cons.prems have "firstIndex k (Some c) (Suc j) cs = Some i" by simp
    from Cons.IH [OF this] obtain pre s where
      "cs = pre @ s" "s \<noteq> []" "i = Suc j + length pre" "matches_kind k (if pre = [] then Some c else Some (last pre)) s" by blast
    then show ?thesis by (intro exI [of _ "c # pre"] exI [of _ s]) auto
  qed
qed simp

lemma foldl_better_sound:
  assumes "foldl (better text) found ks = Some (k, i)" "\<And>k i. found = Some (k, i) \<Longrightarrow> firstIndex k None 0 text = Some i"
  shows "firstIndex k None 0 text = Some i"
  using assms
proof (induction ks arbitrary: found)
  case (Cons x ks)
  show ?case
    by (rule Cons.IH [OF Cons.prems(1) [simplified]]) (use Cons.prems(2) in \<open>auto simp: better_def split: option.splits if_splits\<close>)
qed simp

lemma findLeak_found:
  assumes "findLeak text = Some l"
  shows "\<exists>pre s. text = pre @ s \<and> leak_at (lk_kind l) pre s \<and> lk_line l = 1 + length (filter (\<lambda>c. c = CHR 0x0A) pre)"
proof -
  from assms obtain k i where f: "foldl (better text) None SHAPES = Some (k, i)"
    and l: "l = \<lparr>lk_kind = k, lk_line = 1 + length (filter (\<lambda>c. c = CHR 0x0A) (take i text))\<rparr>" by (auto simp: findLeak_def)
  from foldl_better_sound [OF f] have "firstIndex k None 0 text = Some i" by simp
  from firstIndex_sound [OF this] obtain pre s where "text = pre @ s" "s \<noteq> []" "i = length pre"
    "matches_kind k (if pre = [] then None else Some (last pre)) s" by auto
  then show ?thesis using l unfolding leak_at_def by (intro exI [of _ pre] exI [of _ s]) simp
qed

lemma findLeak_all:
  assumes "text = pre @ s" "leak_at k pre s"
  shows "findLeak text \<noteq> None"
proof -
  have "k \<in> set SHAPES" by (cases k) (simp_all add: SHAPES_def)
  moreover have "firstIndex k None 0 text \<noteq> None"
    using firstIndex_match [of k pre None s 0] assms unfolding leak_at_def by auto
  ultimately show ?thesis unfolding findLeak_def using foldl_better by simp
qed


end
