(* ===== verification/Host_Doors.thy ===== *)
theory Host_Doors
  imports Host_Requests Host_Settings Leak
begin

text \<open>
  The doors of a host's life (worker/src/routes/hosts.ts): who may do what (\<open>hostVerdicts\<close>), enrolling with a
  one-time token, confirming, suspending with the bulk fence of its leases, resuming, retiring, the pool's cap, an
  owner removed for cause or stopped by the maintainer list, host orders and the agent's answers. Each handler is
  a function of the person's act, the time and the database; a batch of statements runs as one. Random ids and
  the passkey ceremony are arguments.
\<close>

subsection \<open>Who may do what\<close>

record host_viewer =
  hv_login :: login
  hv_maintainer :: bool
  hv_github_id :: "int option"

definition roleFor :: "db \<Rightarrow> login \<Rightarrow> bool" where
  "roleFor d l \<longleftrightarrow> l \<in> set (d_maintainers d)"

definition githubIdOf :: "db \<Rightarrow> login \<Rightarrow> int option" where
  "githubIdOf d l = map_of (d_contributors d) l"

definition viewerOf :: "db \<Rightarrow> login \<Rightarrow> host_viewer" where
  "viewerOf d l = \<lparr>hv_login = l, hv_maintainer = roleFor d l, hv_github_id = githubIdOf d l\<rparr>"

definition isOwner :: "host_viewer \<Rightarrow> host_row \<Rightarrow> bool" where
  "isOwner v h \<longleftrightarrow> hv_github_id v = Some (hr_owner_github_id h)"

datatype host_right =
    RSuspend | RResume | RRetire | RCap | RReconcile | RRetireLegacy | RSettings | RRotateToken | RRetryRelease
  | RDiagnostics | ROwner | RPins

datatype host_why =
    SignInFirst
  | OwnerOrMaintainer
  | OwnerOnly
  | OwnerNoMaintainer
  | IsRetired
  | SuspendedAlready
  | NotSuspended
  | WaitsForConfirm
  | IsStatus string
  | AgentTooOld "string option" string
  | NoLegacySet
  | LegacyRetired "string option"
  | LegacyRetiring "string option"
  | LegacyBlocked string
  | LegacyGoing string
  | CapIsZero
  | RegistrationDrained

datatype host_verdict = Allowed | Refused int host_why

text \<open>The first refusal of a chain \<^verbatim>\<open>a ?? b ?? { ok: true }\<close>.\<close>

fun firstRefusal :: "host_verdict option list \<Rightarrow> host_verdict" where
  "firstRefusal [] = Allowed"
| "firstRefusal (None # vs) = firstRefusal vs"
| "firstRefusal (Some v # vs) = v"

definition refuseIf :: "bool \<Rightarrow> int \<Rightarrow> host_why \<Rightarrow> host_verdict option" where
  "refuseIf b status why = (if b then Some (Refused status why) else None)"

definition takesOrder :: "host_row \<Rightarrow> host_verdict option" where
  "takesOrder h =
     (if hr_status h \<noteq> ''active'' then
        Some (Refused 409 (if hr_status h = ''pending-owner'' then WaitsForConfirm else IsStatus (hr_status h)))
      else if \<not> agentTakesOrders (hr_agent_version h) then Some (Refused 409 (AgentTooOld (hr_agent_version h) HOST_ORDERS_AGENT))
      else None)"

definition legacyWhy :: "legacy_set option \<Rightarrow> host_verdict option" where
  "legacyWhy legacy = (case legacy of
     None \<Rightarrow> Some (Refused 409 NoLegacySet)
   | Some l \<Rightarrow>
       if lg_state l = ''retired'' then Some (Refused 409 (LegacyRetired (lg_since l)))
       else if lg_state l = ''retiring'' then Some (Refused 409 (LegacyRetiring (lg_order l)))
       else if truthy (lg_blocked l) then Some (Refused 409 (LegacyBlocked (nvl (lg_blocked l) [])))
       else None)"

text \<open>\<open>drained\<close> is when the host's registration was drained, where the row was read with it.\<close>

definition hostVerdicts :: "host_viewer option \<Rightarrow> host_row \<Rightarrow> int option \<Rightarrow> host_right \<Rightarrow> host_verdict" where
  "hostVerdicts vo h drained r = (case vo of
     None \<Rightarrow> Refused 401 SignInFirst
   | Some v \<Rightarrow>
      (let owner = isOwner v h;
           theirs = refuseIf (\<not> owner \<and> \<not> hv_maintainer v) 403 OwnerOrMaintainer;
           gone = refuseIf (hr_status h = ''retired'') 409 IsRetired;
           notOwner = refuseIf (\<not> owner) 403 OwnerOnly;
           notMaintainer = refuseIf (\<not> hv_maintainer v) 403 OwnerNoMaintainer;
           legacy = legacyOf (hr_report h);
           p4 = firstRefusal [theirs, takesOrder h,
                  refuseIf (\<not> agentTakesSettings (hr_agent_version h)) 409 (AgentTooOld (hr_agent_version h) HOST_SETTINGS_AGENT)]
       in (case r of
         RSuspend \<Rightarrow> firstRefusal [theirs, gone,
           (if hr_status h = ''suspended'' then Some (Refused 409 SuspendedAlready)
            else refuseIf (hr_status h \<noteq> ''active'') 409 WaitsForConfirm)]
       | RResume \<Rightarrow> firstRefusal [gone, refuseIf (hr_status h \<noteq> ''suspended'') 409 NotSuspended, notOwner, notMaintainer]
       | RRetire \<Rightarrow> firstRefusal [theirs, gone]
       | RCap \<Rightarrow> firstRefusal [theirs, gone]
       | RReconcile \<Rightarrow> firstRefusal [theirs, takesOrder h]
       | RRetireLegacy \<Rightarrow> firstRefusal [notOwner, notMaintainer, takesOrder h, legacyWhy legacy]
       | RSettings \<Rightarrow> p4
       | RRotateToken \<Rightarrow> p4
       | RRetryRelease \<Rightarrow> p4
       | RDiagnostics \<Rightarrow> p4
       | ROwner \<Rightarrow> firstRefusal [notOwner, notMaintainer, takesOrder h,
           refuseIf (\<not> agentTakesOwner (hr_agent_version h)) 409 (AgentTooOld (hr_agent_version h) HOST_OWNER_AGENT)]
       | RPins \<Rightarrow> firstRefusal [theirs,
           (if hr_status h \<noteq> ''active'' then
              Some (Refused 409 (if hr_status h = ''pending-owner'' then WaitsForConfirm else IsStatus (hr_status h))) else None),
           refuseIf (legacy = None) 409 NoLegacySet,
           (case legacy of
              Some l \<Rightarrow> refuseIf (lg_state l = ''retired'' \<or> lg_state l = ''retiring'') 409 (LegacyGoing (lg_state l))
            | None \<Rightarrow> None),
           refuseIf (hr_pool_cap_units h = Some 0) 409 CapIsZero,
           refuseIf (drained \<noteq> None) 409 RegistrationDrained])))"

subsection \<open>A person's act\<close>

text \<open>Who is signed in, whether the request is the browser's session from the pool's own page, its JSON body (None: it
  does not read), and the passkey the ceremony for this act confirmed (None: it refused).\<close>

record person_act =
  pa_login :: login
  pa_web :: bool
  pa_gate :: bool
  pa_body :: "json option"
  pa_passkey :: "string option"

datatype door_refusal =
    WebOnly
  | NotFromPage
  | NoBody
  | NoHost
  | NotTheirs int host_why
  | BadReason
  | NoPasskey
  | ChangedMeanwhile
  | BadCap
  | MaintainersOnly
  | SecondMaintainer
  | NothingToStop
  | OwnHostsOnly
  | OwnerUnlisted
  | BadKind
  | BadArg arg_error
  | OrderOpen
  | BadDoc
  | DocExpired
  | BadWidening widening_error
  | BadKeys sealed_error
  | SealKey
  | VersionTaken

definition personAct :: "person_act \<Rightarrow> db \<Rightarrow> door_refusal + (host_viewer \<times> json option)" where
  "personAct p d =
     (if \<not> pa_web p then Inl WebOnly
      else if \<not> pa_gate p then Inl NotFromPage
      else if pa_body p = None then Inl NoBody
      else Inr (viewerOf d (pa_login p), pa_body p))"

definition reasonOf :: "json option \<Rightarrow> string option" where
  "reasonOf v = (case hostReason v of Some r \<Rightarrow> if findLeak r \<noteq> None then None else Some r | None \<Rightarrow> None)"

text \<open>The common head of the doors: the session, the host, the verdict.\<close>

definition atDoor :: "person_act \<Rightarrow> string \<Rightarrow> host_right \<Rightarrow> db \<Rightarrow> door_refusal + (host_viewer \<times> json option \<times> host_row)" where
  "atDoor p i r d = (case personAct p d of
     Inl e \<Rightarrow> Inl e
   | Inr (v, b) \<Rightarrow> (case hostRow i d of
       None \<Rightarrow> Inl NoHost
     | Some h \<Rightarrow> (case hostVerdicts (Some v) h None r of
         Refused st why \<Rightarrow> Inl (NotTheirs st why)
       | Allowed \<Rightarrow> Inr (v, b, h))))"

subsection \<open>Suspending: the bulk fence\<close>

definition openOrder :: "order_row \<Rightarrow> bool" where
  "openOrder x \<longleftrightarrow> o_state x = OPending \<or> o_state x = ODelivered"

text \<open>A worker's open orders cancelled, each with a line, and its row's list of them and its open spell cleared.\<close>

definition cancelOrdersOf :: "string list \<Rightarrow> int \<Rightarrow> string \<Rightarrow> db \<Rightarrow> db" where
  "cancelOrdersOf ws now detail d =
     d\<lparr>d_events := map (\<lambda>x. OrderEvent (o_id x) (o_worker x) (o_kind x) OCancelled (DWords detail)) (filter (\<lambda>x. o_worker x \<in> set ws \<and> openOrder x) (d_orders d)) @ d_events d,
       d_orders := sql_update (\<lambda>x. o_worker x \<in> set ws \<and> openOrder x)
         (\<lambda>x. x\<lparr>o_state := OCancelled, o_answered_at := Some now, o_answered_by := Some ''pool'', o_detail := Some (DWords detail)\<rparr>) (d_orders d),
       d_workers := sql_update (\<lambda>w. w_id w \<in> set ws \<and> (w_open_orders w \<noteq> [] \<or> w_agent_error_since w \<noteq> None))
         (\<lambda>w. w\<lparr>w_open_orders := [], w_agent_error_since := None\<rparr>) (d_workers d)\<rparr>"

text \<open>The hosts this act suspended, and their registrations.\<close>

definition justSuspended :: "(host_row \<Rightarrow> bool) \<Rightarrow> int \<Rightarrow> host_row \<Rightarrow> bool" where
  "justSuspended sel now h \<longleftrightarrow> sel h \<and> hr_status h = ''suspended'' \<and> hr_status_at h = Some now"

definition suspendedWorkers :: "(host_row \<Rightarrow> bool) \<Rightarrow> int \<Rightarrow> db \<Rightarrow> string list" where
  "suspendedWorkers sel now d = List.map_filter hr_worker_id (filter (justSuspended sel now) (d_hosts d))"

definition leasedByAny :: "string list \<Rightarrow> task \<Rightarrow> bool" where
  "leasedByAny ws t \<longleftrightarrow> t_status t = Leased \<and> (case t_lease_owner t of None \<Rightarrow> False | Some w \<Rightarrow> w \<in> set ws)"

definition FENCE_ORDERS_SQL :: "string list \<Rightarrow> (int \<Rightarrow> string) \<Rightarrow> login \<Rightarrow> string \<Rightarrow> int \<Rightarrow> string \<Rightarrow> db \<Rightarrow> db" where
  "FENCE_ORDERS_SQL ws fresh who reason now detail d = d\<lparr>d_orders := d_orders d @
     map (\<lambda>t. \<lparr>o_id = fresh (t_id t), o_worker = nvl (t_lease_owner t) [], o_kind = ''stop-task'', o_reason = Some reason, o_issued_by = who,
         o_via = Some ''web'', o_rule = None, o_unless = False, o_task = Some (t_id t), o_site = None, o_issued_at = now, o_expires_at = now,
         o_baseline_at_issue = None, o_state = ODone, o_delivered_at = None, o_delivered_to = None, o_baseline = None, o_accepted_at = None,
         o_answered_at = Some now, o_answered_by = Some ''pool'', o_code = None, o_detail = Some (DWords detail), o_worker_detail = None\<rparr>)
       (filter (leasedByAny ws) (d_tasks d))\<rparr>"

definition fenceOrderOf :: "int \<Rightarrow> db \<Rightarrow> task \<Rightarrow> string option" where
  "fenceOrderOf now d t = map_option o_id (find (\<lambda>x. Some (o_worker x) = t_lease_owner t \<and> o_issued_at x = now
     \<and> o_kind x = ''stop-task'' \<and> o_task x = Some (t_id t)) (d_orders d))"

definition BULK_FENCE_SQL :: "string list \<Rightarrow> int \<Rightarrow> db \<Rightarrow> db" where
  "BULK_FENCE_SQL ws now d = d\<lparr>d_tasks := sql_update (leasedByAny ws) (\<lambda>t. t\<lparr>t_stop_order := fenceOrderOf now d t\<rparr>) (d_tasks d)\<rparr>"

definition FENCED_SQL :: "int \<Rightarrow> login \<Rightarrow> db \<Rightarrow> int list" where
  "FENCED_SQL now who d = map t_id (filter (\<lambda>t. t_status t = Leased \<and> (case t_stop_order t of None \<Rightarrow> False
     | Some s \<Rightarrow> list_ex (\<lambda>x. o_id x = s \<and> o_issued_at x = now \<and> o_kind x = ''stop-task'' \<and> o_issued_by x = who) (d_orders d))) (d_tasks d))"

definition cancelHostOrders :: "(host_order \<Rightarrow> bool) \<Rightarrow> int \<Rightarrow> string \<Rightarrow> db \<Rightarrow> db" where
  "cancelHostOrders which now detail d = d\<lparr>d_host_orders :=
     sql_update (\<lambda>x. ho_state x = HoOpen \<and> which x)
       (\<lambda>x. x\<lparr>ho_state := HoCancelled, ho_answered_at := Some now, ho_detail := Some detail\<rparr>) (d_host_orders d)\<rparr>"

definition suspendStatements ::
  "(host_row \<Rightarrow> bool) \<Rightarrow> (int \<Rightarrow> string) \<Rightarrow> login \<Rightarrow> string \<Rightarrow> int \<Rightarrow> db \<Rightarrow> db" where
  "suspendStatements sel fresh who reason now d =
     (let ws = suspendedWorkers sel now d;
          why = ''its host was suspended by '' @ who;
          d1 = cancelOrdersOf ws now why d;
          d2 = FENCE_ORDERS_SQL ws fresh who reason now
                 (''fenced: its host was suspended by '' @ who @ '' - the task goes back to the queue when its lease ends'') d1;
          d3 = BULK_FENCE_SQL ws now d2
      in cancelHostOrders (\<lambda>x. list_ex (\<lambda>h. hr_id h = ho_host x \<and> justSuspended sel now h) (d_hosts d3)) now why d3)"

definition suspendRow :: "login \<Rightarrow> int \<Rightarrow> string \<Rightarrow> host_row \<Rightarrow> host_row" where
  "suspendRow who now reason h =
     h\<lparr>hr_status := ''suspended'', hr_status_by := Some who, hr_status_at := Some now, hr_status_reason := Some reason\<rparr>"

text \<open>The suspension's batch: the hosts' rows, the statements after, the line with the tasks it fenced.\<close>

definition suspendBatch ::
  "(host_row \<Rightarrow> bool) \<Rightarrow> (host_row \<Rightarrow> bool) \<Rightarrow> event_status \<Rightarrow> string \<Rightarrow> string \<Rightarrow> (int \<Rightarrow> string) \<Rightarrow> login \<Rightarrow> string \<Rightarrow> int \<Rightarrow> db \<Rightarrow> db" where
  "suspendBatch which sel st subject action fresh who reason now d =
     (let d1 = d\<lparr>d_hosts := sql_update which (suspendRow who now reason) (d_hosts d)\<rparr>;
          d2 = suspendStatements sel fresh who reason now d1
      in if list_ex (\<lambda>h. hr_status_at h = Some now \<and> hr_status_by h = Some who) (d_hosts d2)
         then add_event (HostEvent st subject who (Some reason) action (FENCED_SQL now who d2)) d2 else d2)"

definition handleSuspendHost ::
  "(int \<Rightarrow> string) \<Rightarrow> int \<Rightarrow> person_act \<Rightarrow> string \<Rightarrow> db \<Rightarrow> (door_refusal + int list) \<times> db" where
  "handleSuspendHost fresh now p i d = (case atDoor p i RSuspend d of
     Inl e \<Rightarrow> (Inl e, d)
   | Inr (v, b, h) \<Rightarrow> (case reasonOf (jfield b ''reason'') of
       None \<Rightarrow> (Inl BadReason, d)
     | Some reason \<Rightarrow>
         (let which = (\<lambda>h. hr_id h = i \<and> hr_status h = ''active'');
              d' = suspendBatch which (\<lambda>h. hr_id h = i) EvWarn i ''suspend'' fresh (pa_login p) reason now d
          in if list_ex which (d_hosts d) then (Inr (FENCED_SQL now (pa_login p) d'), d') else (Inl ChangedMeanwhile, d'))))"

definition ownerKey :: "db \<Rightarrow> login \<Rightarrow> host_row \<Rightarrow> bool" where
  "ownerKey d l h = (case githubIdOf d l of None \<Rightarrow> hr_owner_login h = l | Some g \<Rightarrow> hr_owner_github_id h = g)"

definition handleRemoveForCause ::
  "(int \<Rightarrow> string) \<Rightarrow> int \<Rightarrow> person_act \<Rightarrow> login \<Rightarrow> db \<Rightarrow> (door_refusal + int list) \<times> db" where
  "handleRemoveForCause fresh now p l d = (case personAct p d of
     Inl e \<Rightarrow> (Inl e, d)
   | Inr (v, b) \<Rightarrow>
       if \<not> hv_maintainer v then (Inl MaintainersOnly, d)
       else if l = pa_login p \<or> (githubIdOf d l \<noteq> None \<and> githubIdOf d l = hv_github_id v) then (Inl SecondMaintainer, d)
       else (let which = (\<lambda>h. ownerKey d l h \<and> (hr_status h = ''active'' \<or> hr_status h = ''suspended''))
         in if \<not> list_ex which (d_hosts d) then (Inl NothingToStop, d)
            else (case reasonOf (jfield b ''reason'') of
              None \<Rightarrow> (Inl BadReason, d)
            | Some reason \<Rightarrow>
                if pa_passkey p = None then (Inl NoPasskey, d)
                else (let d' = suspendBatch which (ownerKey d l) EvError l ''cause'' fresh (pa_login p) (''removed for cause: '' @ reason) now d
                      in (Inr (FENCED_SQL now (pa_login p) d'), d')))))"

subsection \<open>Resuming, retiring, the cap\<close>

definition handleResumeHost :: "int \<Rightarrow> person_act \<Rightarrow> string \<Rightarrow> db \<Rightarrow> (door_refusal + string) \<times> db" where
  "handleResumeHost now p i d = (case atDoor p i RResume d of
     Inl e \<Rightarrow> (Inl e, d)
   | Inr (v, b, h) \<Rightarrow> (case pa_passkey p of
       None \<Rightarrow> (Inl NoPasskey, d)
     | Some key \<Rightarrow>
         (let which = (\<lambda>h. hr_id h = i \<and> hr_status h = ''suspended'');
              d1 = d\<lparr>d_hosts := sql_update which (\<lambda>h. h\<lparr>hr_status := ''active'', hr_status_by := Some (pa_login p), hr_status_at := Some now,
                     hr_status_reason := None\<rparr>) (d_hosts d)\<rparr>;
              d' = (if list_ex (\<lambda>h. hr_id h = i \<and> hr_status_at h = Some now) (d_hosts d1)
                    then add_event (HostEvent EvOk i (pa_login p) None ''resume'' []) d1 else d1)
          in if list_ex which (d_hosts d) then (Inr key, d') else (Inl ChangedMeanwhile, d'))))"

definition handleRetireHost ::
  "int \<Rightarrow> person_act \<Rightarrow> string \<Rightarrow> db \<Rightarrow> (door_refusal + string) \<times> db" where
  "handleRetireHost now p i d = (case atDoor p i RRetire d of
     Inl e \<Rightarrow> (Inl e, d)
   | Inr (v, b, h) \<Rightarrow> (case reasonOf (jfield b ''reason'') of
       None \<Rightarrow> (Inl BadReason, d)
     | Some reason \<Rightarrow>
         if \<not> isOwner v h \<and> pa_passkey p = None then (Inl NoPasskey, d)
         else (let who = pa_login p;
                   worker = nvl (hr_worker_id h) [];
                   why = ''its host was retired by '' @ who;
                   which = (\<lambda>h. hr_id h = i \<and> hr_status h \<noteq> ''retired'');
                   d1 = d\<lparr>d_hosts := sql_update which (\<lambda>h. h\<lparr>hr_status := ''retired'', hr_status_by := Some who, hr_status_at := Some now,
                          hr_status_reason := Some reason, hr_prev_token_hash := None, hr_prev_token_until := None\<rparr>) (d_hosts d)\<rparr>;
                   moved = list_ex (\<lambda>h. hr_id h = i \<and> hr_status_at h = Some now) (d_hosts d1);
                   d2 = d1\<lparr>d_workers := sql_update (\<lambda>w. w_id w = worker \<and> w_host_id w = Some i \<and> w_revoked_at w = None \<and> moved)
                          (\<lambda>w. w\<lparr>w_revoked_at := Some now\<rparr>) (d_workers d1)\<rparr>;
                   d3 = cancelOrdersOf (map w_id (filter (\<lambda>w. w_id w = worker \<and> w_revoked_at w = Some now) (d_workers d2))) now why d2;
                   d4 = d3\<lparr>d_tasks := sql_update (\<lambda>t. t_pinned_to t = Some worker \<and> t_status t = Queued \<and> moved)
                          (\<lambda>t. t\<lparr>t_pinned_to := None\<rparr>) (d_tasks d3)\<rparr>;
                   d5 = cancelHostOrders (\<lambda>x. ho_host x = i \<and> moved) now why d4;
                   d' = (if moved then add_event (HostEvent EvWarn i who (Some reason) ''retire'' []) d5 else d5)
               in if list_ex which (d_hosts d) then (Inr reason, d') else (Inl ChangedMeanwhile, d'))))"

definition POOL_CAP_MAX :: int where "POOL_CAP_MAX = 4096"

definition capUnits :: "json option \<Rightarrow> int option option" where
  "capUnits v = (if v = Some JNull then Some None else map_option Some (jint_in v 0 (of_int POOL_CAP_MAX)))"

definition handleCapHost ::
  "int \<Rightarrow> person_act \<Rightarrow> string \<Rightarrow> db \<Rightarrow> (door_refusal + int option) \<times> db" where
  "handleCapHost now p i d = (case atDoor p i RCap d of
     Inl e \<Rightarrow> (Inl e, d)
   | Inr (v, b, h) \<Rightarrow> (case capUnits (jfield b ''units'') of
       None \<Rightarrow> (Inl BadCap, d)
     | Some units \<Rightarrow>
         if (case (units, hr_units h) of (Some u, Some m) \<Rightarrow> u > m | _ \<Rightarrow> False) then (Inl BadCap, d)
         else (case reasonOf (jfield b ''reason'') of
           None \<Rightarrow> (Inl BadReason, d)
         | Some reason \<Rightarrow>
             (let which = (\<lambda>x. hr_id x = i \<and> hr_status x \<noteq> ''retired'' \<and> hr_pool_cap_units x = hr_pool_cap_units h);
                  d1 = d\<lparr>d_hosts := sql_update which (\<lambda>x. x\<lparr>hr_pool_cap_units := units\<rparr>) (d_hosts d)\<rparr>
              in if list_ex which (d_hosts d)
                 then (Inr units, add_event (HostEvent EvOk i (pa_login p) (Some reason) ''cap'' []) d1)
                 else (Inl ChangedMeanwhile, d1)))))"

subsection \<open>Stopped by the maintainer list, and resumed by the owner\<close>

definition STOP_REMOVED_OWNERS_SQL :: "int \<Rightarrow> db \<Rightarrow> host_row list \<times> db" where
  "STOP_REMOVED_OWNERS_SQL now d =
     (let which = (\<lambda>h. (hr_status h = ''active'' \<or> hr_status h = ''suspended'') \<and> hr_owner_removed_at h = None
            \<and> \<not> OWNER_LISTED_SQL d (hr_owner_github_id h));
          f = (\<lambda>h. h\<lparr>hr_owner_removed_at := Some now\<rparr>)
      in (sql_returning which f (d_hosts d), d\<lparr>d_hosts := sql_update which f (d_hosts d)\<rparr>))"

definition stopHostsOfRemovedOwners :: "int \<Rightarrow> db \<Rightarrow> string list \<times> db" where
  "stopHostsOfRemovedOwners now d =
     (let (rows, d1) = STOP_REMOVED_OWNERS_SQL now d
      in (map hr_name rows, foldl (\<lambda>x h. add_event (HostEvent EvWarn (hr_id h) (hr_owner_login h) None ''owner_removed'' []) x) d1 rows))"

definition handleResumeOwner :: "person_act \<Rightarrow> login \<Rightarrow> db \<Rightarrow> (door_refusal + string list) \<times> db" where
  "handleResumeOwner p l d = (case personAct p d of
     Inl e \<Rightarrow> (Inl e, d)
   | Inr (v, b) \<Rightarrow> (case (l = pa_login p, hv_github_id v) of
       (True, Some g) \<Rightarrow>
         (let stopped = (\<lambda>h. hr_owner_github_id h = g \<and> hr_owner_removed_at h \<noteq> None \<and> hr_status h \<noteq> ''retired'')
          in if \<not> OWNER_LISTED_SQL d g then (Inl OwnerUnlisted, d)
             else if \<not> list_ex stopped (d_hosts d) then (Inl NothingToStop, d)
             else if pa_passkey p = None then (Inl NoPasskey, d)
             else (let d1 = d\<lparr>d_hosts := sql_update stopped (\<lambda>h. h\<lparr>hr_owner_removed_at := None\<rparr>) (d_hosts d)\<rparr>
                   in (Inr (map hr_id (filter stopped (d_hosts d))),
                       if list_ex stopped (d_hosts d1) then d1 else add_event (HostEvent EvOk l l None ''resume_owner'' []) d1)))
     | _ \<Rightarrow> (Inl OwnHostsOnly, d)))"

end
