(* ===== verification/Host_Lifecycle.thy ===== *)
theory Host_Lifecycle
  imports Host_Doors
begin

text \<open>
  How a host comes to be and what its agent sends (worker/src/routes/hosts.ts): the one-time enrollment token,
  the enrollment that burns it, its owner's Confirm and the one registration it makes, the worker token, host
  orders and the agent's answers, and the report. How JSON is read and
  written (\<open>json_parse\<close>, \<open>json_text\<close>) and a time read (\<open>read_stamp\<close>) is the platform's, an argument.
\<close>

subsection \<open>The enrollment\<close>

definition ENROLL_TTL_MIN :: int where "ENROLL_TTL_MIN = 15"
definition OLD_TOKEN_GRACE_MIN :: int where "OLD_TOKEN_GRACE_MIN = 10"
definition HOST_ROW_TOUCH_MIN :: int where "HOST_ROW_TOUCH_MIN = 5"
definition KEY_HELD_MAX :: nat where "KEY_HELD_MAX = 300"

text \<open>\<^verbatim>\<open>^ome_[0-9a-f]{48}$\<close>; \<^verbatim>\<open>^[A-Za-z0-9][A-Za-z0-9.-]{0,62}$\<close>;
  \<^verbatim>\<open>^[a-z0-9](?:[a-z0-9-]{0,30}[a-z0-9])?$\<close>.\<close>

definition enroll_token :: "string \<Rightarrow> bool" where
  "enroll_token s \<longleftrightarrow> length s = 52 \<and> starts_with ''ome_'' s \<and> list_all is_hex (drop 4 s)"

definition hostname_word :: "string \<Rightarrow> bool" where
  "hostname_word s = (case s of [] \<Rightarrow> False | c # cs \<Rightarrow> alnum c \<and> length cs \<le> 62 \<and> list_all (\<lambda>x. alnum x \<or> x \<in> set ''.-'') cs)"

definition HOST_NAME :: "string \<Rightarrow> bool" where
  "HOST_NAME s \<longleftrightarrow> s \<noteq> [] \<and> length s \<le> 32 \<and> alnum_lower (hd s) \<and> alnum_lower (last s)
     \<and> list_all (\<lambda>x. alnum_lower x \<or> x = CHR ''-'') s"

text \<open>Minting: the door's checks on the person are \<open>allowed\<close> (the page's own reason); then the list itself, the name,
  and the GitHub id the token is bound to.\<close>

datatype mint_refusal = MintWebOnly | MintNotMaintainer | MintName | MintWhere | MintNameTaken | MintNoGithub

text \<open>One line of a person's words: None where it is refused, Some None where nothing was said.\<close>

definition oneLine :: "json option \<Rightarrow> nat \<Rightarrow> string option option" where
  "oneLine v most = (if v = None \<or> v = Some JNull \<or> v = Some (JStr []) then Some None
     else (case jstr v of
         None \<Rightarrow> None
       | Some t \<Rightarrow> (let s = trim t
           in if s = [] \<or> length s > most \<or> list_ex is_control s \<or> findLeak s \<noteq> None then None else Some (Some s))))"

definition handleMintEnrollment ::
  "bool \<Rightarrow> string \<Rightarrow> int \<Rightarrow> person_act \<Rightarrow> db \<Rightarrow> (mint_refusal + int) \<times> db" where
  "handleMintEnrollment allowed tokenHash now p d =
     (if \<not> pa_web p \<or> \<not> pa_gate p then (Inl MintWebOnly, d)
      else if \<not> allowed \<or> \<not> roleFor d (pa_login p) then (Inl MintNotMaintainer, d)
      else (case jstr (jfield (pa_body p) ''name'') of
          None \<Rightarrow> (Inl MintName, d)
        | Some name \<Rightarrow>
            if \<not> HOST_NAME name then (Inl MintName, d)
            else if oneLine (jfield (pa_body p) ''where'') 80 = None then (Inl MintWhere, d)
            else if list_ex (\<lambda>h. hr_owner_login h = pa_login p \<and> hr_name h = name \<and> hr_status h \<noteq> ''retired'') (d_hosts d) then (Inl MintNameTaken, d)
            else (case githubIdOf d (pa_login p) of
                None \<Rightarrow> (Inl MintNoGithub, d)
              | Some g \<Rightarrow> (let expires = now + ENROLL_TTL_MIN * 60000
                  in (Inr expires, d\<lparr>d_enrollments := \<lparr>he_token_hash = tokenHash, he_login = pa_login p, he_github_id = g, he_name = name,
                        he_expires_at = expires, he_used_at = None\<rparr> # d_enrollments d\<rparr>)))))"

text \<open>A run of control characters is one space.\<close>

fun foldControls :: "bool \<Rightarrow> string \<Rightarrow> string" where
  "foldControls after [] = []"
| "foldControls after (c # cs) =
     (if is_control c then (if after then foldControls True cs else CHR '' '' # foldControls True cs)
      else c # foldControls False cs)"

definition keyHeldOf :: "json option \<Rightarrow> string option option" where
  "keyHeldOf v = (if v = None \<or> v = Some JNull then Some None
     else (case jstr v of
         None \<Rightarrow> None
       | Some t \<Rightarrow> (let s = trim (foldControls False t)
           in Some (if s = [] then None else Some (take KEY_HELD_MAX s)))))"

definition keyStoreOf :: "json option \<Rightarrow> key_store option" where
  "keyStoreOf v = (if v = None \<or> v = Some JNull then Some KeyFile
     else if v = Some (JStr ''file'') then Some KeyFile
     else if v = Some (JStr ''tpm'') then Some KeyTpm else None)"

datatype enroll_refusal =
    EnrollTooBig | EnrollBody | EnrollToken | EnrollKey | EnrollProof | EnrollStore | EnrollHeld | EnrollCapacity capacity_error | EnrollFields
  | EnrollNativeLane | EnrollRuntime | EnrollLeak | TokenUnknown | TokenUsed | TokenExpired | NoLongerMaintainer | OwnerChanged | BelowMin "short_of list"
  | KeyTaken

text \<open>The fields a machine must say, each checked; what the host's row takes of them.\<close>

record enroll_fields =
  ef_arch :: arch
  ef_isolation :: string
  ef_agent :: string
  ef_dedicated :: "bool option"

definition enrollFields :: "json option \<Rightarrow> enroll_fields option" where
  "enrollFields b =
     (case (jstr (jfield b ''hostname''), word_in [''linux'', ''macos''] (jfield b ''os''), word_in ARCHES (jfield b ''arch''),
            word_in ISOLATIONS (jfield b ''isolation''), jstr (jfield b ''agent_version''), jint_in (jfield b ''page_kb'') 4 64) of
        (Some hostname, Some os, Some arch, Some isolation, Some agent, Some page) \<Rightarrow>
          if hostname_word hostname \<and> semver (Some agent) \<noteq> None
          then Some \<lparr>ef_arch = arch, ef_isolation = isolation, ef_agent = agent, ef_dedicated = jbool (jfield b ''dedicated'')\<rparr> else None
      | _ \<Rightarrow> None)"

definition enrolledHost :: "string \<Rightarrow> enrollment \<Rightarrow> string \<Rightarrow> enroll_fields \<Rightarrow> capacity \<Rightarrow> int \<Rightarrow> host_row" where
  "enrolledHost i e pubkey f c now =
     \<lparr>hr_id = i, hr_name = he_name e, hr_owner_login = he_login e, hr_owner_github_id = he_github_id e, hr_pubkey = pubkey,
      hr_status = ''pending-owner'', hr_status_by = None, hr_status_at = None, hr_status_reason = None, hr_owner_removed_at = None,
      hr_worker_id = None, hr_asleep_at = None, hr_reported_at = None, hr_report = None, hr_agent_version = Some (ef_agent f),
      hr_lanes = map (\<lambda>l. \<lparr>l_arch = l_arch l, l_mode = l_mode l, l_page16k = l_page16k l\<rparr>) (cp_lanes c), hr_pool_cap_units = None,
      hr_reserving_task = None, hr_reserving_since = None, hr_soaking_until = None, hr_soak_quarantine = None, hr_pool_behind_github = None, hr_rolled_back_from = None,
      hr_rolled_back_at = None, hr_release_applied = None, hr_sandbox_applied = None, hr_arch = ef_arch f, hr_isolation = Some (ef_isolation f),
      hr_dedicated = ef_dedicated f, hr_units = Some (hostUnitsOf c), hr_settings = None, hr_enrolled_at = now, hr_confirmed_at = None,
      hr_token_issued_at = None, hr_prev_token_hash = None, hr_prev_token_until = None, hr_last_seen = Some now, hr_report_text = None,
      hr_seal_key = None, hr_seal_confirmed = None\<rparr>"

text \<open>The runtime, when it is said: an object whose text is at most 2 KiB.\<close>

definition runtimeOk :: "(json \<Rightarrow> string) \<Rightarrow> json option \<Rightarrow> bool" where
  "runtimeOk json_text v = (case v of None \<Rightarrow> True | Some JNull \<Rightarrow> True | Some x \<Rightarrow> js_object v \<and> length (json_text x) \<le> 2048)"

text \<open>What is checked of the request before any row is read: its token, the key with its proof, its fields and capacity.\<close>

definition enrollRequest ::
  "webcrypto \<Rightarrow> (json \<Rightarrow> string) \<Rightarrow> string \<Rightarrow> json option \<Rightarrow> enroll_refusal + (string \<times> string \<times> enroll_fields \<times> capacity)" where
  "enrollRequest verify json_text text b =
     (if length text > REPORT_MAX_BYTES then Inl EnrollTooBig
      else if \<not> js_object b then Inl EnrollBody
      else case jstr (jfield b ''token'') of
        None \<Rightarrow> Inl EnrollToken
      | Some token \<Rightarrow> if \<not> enroll_token token then Inl EnrollToken
      else (case (hostPublicKey (jfield b ''pubkey''), jstr (jfield b ''pubkey'')) of
        (Some key, Some pubkey) \<Rightarrow>
          (case jstr (jfield b ''sig'') of
             None \<Rightarrow> Inl EnrollProof
           | Some sig \<Rightarrow>
               if \<not> verifyHostSignature verify key sig (enrollMessage token pubkey) then Inl EnrollProof
               else (case keyStoreOf (jfield b ''key_store'') of
                 None \<Rightarrow> Inl EnrollStore
               | Some store \<Rightarrow>
                   if \<not> keyStoreFits store (hk_alg key) then Inl EnrollStore
                   else if keyHeldOf (jfield b ''key_held'') = None then Inl EnrollHeld
                   else (case parseCapacity (jfield b ''capacity'') of
                     Inl e \<Rightarrow> Inl (EnrollCapacity e)
                   | Inr c \<Rightarrow> (case enrollFields b of
                       None \<Rightarrow> Inl EnrollFields
                     | Some f \<Rightarrow>
                         if \<not> list_ex (\<lambda>l. l_mode l = Native \<and> l_arch l = ef_arch f) (cp_lanes c) then Inl EnrollNativeLane
                         else if \<not> runtimeOk json_text (jfield b ''runtime'') then Inl EnrollRuntime
                         else if findLeak (remove_first token text) \<noteq> None then Inl EnrollLeak
                         else Inr (token, pubkey, f, c)))))
      | _ \<Rightarrow> Inl EnrollKey))"

text \<open>The burn: live, unused, its login listed and still the same GitHub user.\<close>

definition burnable :: "string \<Rightarrow> int \<Rightarrow> db \<Rightarrow> enrollment \<Rightarrow> bool" where
  "burnable hash now d e \<longleftrightarrow> he_token_hash e = hash \<and> he_used_at e = None \<and> he_expires_at e > now
     \<and> he_login e \<in> set (d_maintainers d) \<and> githubIdOf d (he_login e) = Some (he_github_id e)"

definition handleEnroll ::
  "webcrypto \<Rightarrow> (string \<Rightarrow> string) \<Rightarrow> (string \<Rightarrow> json option) \<Rightarrow> (json \<Rightarrow> string) \<Rightarrow> string \<Rightarrow> int \<Rightarrow> string \<Rightarrow> db
     \<Rightarrow> (enroll_refusal + string) \<times> db" where
  "handleEnroll verify hashOf json_parse json_text newId now text d =
     (case enrollRequest verify json_text text (json_parse text) of
        Inl e \<Rightarrow> (Inl e, d)
      | Inr (token, pubkey, f, c) \<Rightarrow>
          (case find (\<lambda>e. he_token_hash e = hashOf token) (d_enrollments d) of
             None \<Rightarrow> (Inl TokenUnknown, d)
           | Some e \<Rightarrow>
               if he_used_at e \<noteq> None then (Inl TokenUsed, d)
               else if he_expires_at e \<le> now then (Inl TokenExpired, d)
               else if \<not> roleFor d (he_login e) then (Inl NoLongerMaintainer, d)
               else if githubIdOf d (he_login e) \<noteq> Some (he_github_id e) then (Inl OwnerChanged, d)
               else (case belowMinimum c MIN_HOST of
                 Some short \<Rightarrow> (Inl (BelowMin short), d)
               | None \<Rightarrow>
                   if list_ex (\<lambda>h. hr_pubkey h = pubkey) (d_hosts d) then (Inl KeyTaken, d)
                   else if \<not> list_ex (burnable (hashOf token) now d) (d_enrollments d) then (Inl TokenUsed, d)
                   else (Inr newId, d\<lparr>d_enrollments := sql_update (burnable (hashOf token) now d) (\<lambda>x. x\<lparr>he_used_at := Some now\<rparr>) (d_enrollments d),
                           d_hosts := enrolledHost newId e pubkey f c now # d_hosts d\<rparr>))))"

subsection \<open>Confirm, and the worker token\<close>

datatype confirm_refusal = ConfirmWebOnly | ConfirmNoHost | ConfirmNotOwner | ConfirmOtherAccount | ConfirmNotMaintainer | NotPending

definition handleConfirmHost :: "string \<Rightarrow> int \<Rightarrow> person_act \<Rightarrow> string \<Rightarrow> db \<Rightarrow> (confirm_refusal + string) \<times> db" where
  "handleConfirmHost short now p i d =
     (if \<not> pa_web p \<or> \<not> pa_gate p then (Inl ConfirmWebOnly, d)
      else (case hostRow i d of
          None \<Rightarrow> (Inl ConfirmNoHost, d)
        | Some h \<Rightarrow>
            if pa_login p \<noteq> hr_owner_login h then (Inl ConfirmNotOwner, d)
            else if githubIdOf d (pa_login p) \<noteq> Some (hr_owner_github_id h) then (Inl ConfirmOtherAccount, d)
            else if \<not> roleFor d (pa_login p) then (Inl ConfirmNotMaintainer, d)
            else if hr_status h \<noteq> ''pending-owner'' then (Inl NotPending, d)
            else (let worker = hr_owner_login h @ ''-'' @ hr_name h @ ''-'' @ short;
                      which = (\<lambda>x. hr_id x = i \<and> hr_status x = ''pending-owner'' \<and> roleFor d (hr_owner_login x));
                      d1 = d\<lparr>d_hosts := sql_update which (\<lambda>x. x\<lparr>hr_status := ''active'', hr_confirmed_at := Some now, hr_worker_id := Some worker\<rparr>) (d_hosts d)\<rparr>;
                      rows = filter (\<lambda>x. hr_id x = i \<and> hr_worker_id x = Some worker \<and> hr_confirmed_at x = Some now) (d_hosts d1);
                      d2 = d1\<lparr>d_workers := map (\<lambda>x. \<lparr>w_id = worker, w_emulated = False, w_current_task = None, w_last_seen = now, w_done = 0, w_failed = 0,
                             w_owner = Some (hr_owner_login x), w_trust = ''project'', w_host_id = Some i, w_token_hash = None, w_revoked_at = None,
                             w_drained_at = None, w_open_orders = [], w_agent_error_since = None, w_drained_by = None, w_drain_reason = None, w_auto_orders = None, w_site = None, w_agent_checked_at = None,
                             w_version = None, w_order_kinds = None, w_conflict_at = None, w_restarts_left = None, w_agent_via = None, w_rollout = None,
                             w_arch = hr_arch x, w_agent = None, w_agent_status = None, w_kinds = None\<rparr>) rows @ d_workers d1\<rparr>
                  in if list_ex which (d_hosts d) then (Inr worker, add_event (HostEvent EvOk i (pa_login p) None ''confirm'' []) d2)
                     else (Inl NotPending, d1))))"

datatype token_refusal = PendingOwner | TokenRevoked

text \<open>The token it replaces keeps working ten minutes, none before the first fetch.\<close>

definition handleHostToken :: "string \<Rightarrow> int \<Rightarrow> host_row \<Rightarrow> db \<Rightarrow> (token_refusal + unit) \<times> db" where
  "handleHostToken hash now h d = (case (hr_status h = ''active'', hr_worker_id h) of
     (True, Some w) \<Rightarrow>
       (let live = (\<lambda>x. w_id x = w \<and> w_revoked_at x = None);
            d1 = (case find live (d_workers d) of
                None \<Rightarrow> d
              | Some x \<Rightarrow> d\<lparr>d_hosts := sql_update (\<lambda>y. hr_id y = hr_id h) (\<lambda>y. y\<lparr>hr_prev_token_hash := w_token_hash x,
                    hr_prev_token_until := (if w_token_hash x = None then None else Some (now + OLD_TOKEN_GRACE_MIN * 60000)),
                    hr_token_issued_at := Some now, hr_last_seen := Some now\<rparr>) (d_hosts d)\<rparr>);
            mine = (\<lambda>x. live x \<and> w_host_id x = Some (hr_id h));
            d2 = d1\<lparr>d_workers := sql_update mine (\<lambda>x. x\<lparr>w_token_hash := Some hash\<rparr>) (d_workers d1)\<rparr>
        in if list_ex mine (d_workers d) then (Inr (), d2) else (Inl TokenRevoked, d2))
   | _ \<Rightarrow> (Inl PendingOwner, d))"

subsection \<open>Host orders\<close>

definition rightOf :: "string \<Rightarrow> host_right" where
  "rightOf kind =
     (if kind = ''reconcile-now'' then RReconcile else if kind = ''retire-legacy'' then RRetireLegacy
      else if kind = ''set-units'' \<or> kind = ''set-emulate'' then RSettings else if kind = ''rotate-token'' then RRotateToken
      else if kind = ''retry-release'' then RRetryRelease else if kind = ''diagnostics'' then RDiagnostics else ROwner)"

definition EXPIRE_HOST_ORDERS_SQL :: "int \<Rightarrow> string \<Rightarrow> db \<Rightarrow> db" where
  "EXPIRE_HOST_ORDERS_SQL now i d = d\<lparr>d_host_orders :=
     sql_update (\<lambda>x. ho_host x = i \<and> ho_state x = HoOpen \<and> ho_not_after x \<le> now)
       (\<lambda>x. x\<lparr>ho_state := HoExpired, ho_answered_at := Some now, ho_detail := Some ORDER_EXPIRED\<rparr>) (d_host_orders d)\<rparr>"

definition arg_json :: "order_arg option \<Rightarrow> (string \<times> json) list option" where
  "arg_json a = (case a of
     None \<Rightarrow> None
   | Some (UnitsTo u) \<Rightarrow> Some [(''units'', case u of None \<Rightarrow> JNull | Some n \<Rightarrow> JNum (of_int n))]
   | Some (EmulateTo e) \<Rightarrow> Some [(''emulate'', case e of None \<Rightarrow> JNull | Some xs \<Rightarrow> JArr (map JStr xs))])"

text \<open>The versions of the owner orders a host was given (\<^verbatim>\<open>json_extract(arg, '$.version')\<close>).\<close>

definition ownerVersions :: "string \<Rightarrow> db \<Rightarrow> int list" where
  "ownerVersions i d = List.map_filter (\<lambda>x. case ho_arg x of None \<Rightarrow> None
       | Some a \<Rightarrow> (case map_of a ''version'' of Some (JNum n) \<Rightarrow> Some \<lfloor>n\<rfloor> | _ \<Rightarrow> None))
     (filter (\<lambda>x. ho_host x = i \<and> ho_kind x \<in> set OWNER_ORDER_KINDS) (d_host_orders d))"

definition nextOwnerVersion :: "host_row \<Rightarrow> db \<Rightarrow> int" where
  "nextOwnerVersion h d = max (foldr max (ownerVersions (hr_id h) d) 0)
     (nvl (Option.bind (reportedOwnerOf (hr_report h)) ro_version) 0) + 1"

definition confirmedSeal :: "host_row \<Rightarrow> string option" where
  "confirmedSeal h = (case sealKeyOf (map_option JStr (hr_seal_key h)) of
     None \<Rightarrow> None
   | Some key \<Rightarrow> if jfield (hr_seal_confirmed h) ''key'' = Some (JStr key) then Some key else None)"

text \<open>The signed document of an owner order: this host's, this act's, this login's, not expired; its version, and the
  value the order's row keeps.\<close>

definition ownerOrder ::
  "(string \<Rightarrow> json option) \<Rightarrow> (json \<Rightarrow> string) \<Rightarrow> (string \<Rightarrow> stamp) \<Rightarrow> int \<Rightarrow> string \<Rightarrow> host_row \<Rightarrow> login \<Rightarrow> json option
     \<Rightarrow> door_refusal + (int \<times> json)" where
  "ownerOrder json_parse json_text read_stamp now kind h l b = (case readOwnerDoc json_parse json_text (jfield b ''doc'') of
     None \<Rightarrow> Inl BadDoc
   | Some dc \<Rightarrow> (case (jint_in (od_version dc) 1 9007199254740991, jfield b ''doc'') of
       (Some ver, Some doc) \<Rightarrow>
         if act_word (od_act dc) \<noteq> kind \<or> od_host dc \<noteq> hr_id h \<or> od_by dc \<noteq> l then Inl BadDoc
         else if \<not> (case date_parse (read_stamp (od_not_after dc)) of Some t \<Rightarrow> t > now | None \<Rightarrow> False) then Inl DocExpired
         else if kind = ''widen-envelope'' then
           (case widening (od_envelope dc) of Inl e \<Rightarrow> Inl (BadWidening e) | Inr w \<Rightarrow> Inr (ver, doc))
         else (case sealedKeys (od_keys dc) of
             Inl e \<Rightarrow> Inl (BadKeys e)
           | Inr k \<Rightarrow> (case confirmedSeal h of
               None \<Rightarrow> Inl SealKey
             | Some seal \<Rightarrow> if od_seal_key dc \<noteq> Some (JStr seal) then Inl SealKey else Inr (ver, doc)))
     | _ \<Rightarrow> Inl BadDoc))"

text \<open>The insert: the host active, no owner order at this version or above, and no open order of its kind (the unique
  index: the batch fails whole, the expiry before it too).\<close>

definition insertHostOrder :: "host_order \<Rightarrow> int option \<Rightarrow> int \<Rightarrow> db \<Rightarrow> (door_refusal + string) \<times> db" where
  "insertHostOrder row ver now d =
     (let d1 = EXPIRE_HOST_ORDERS_SQL now (ho_host row) d;
          may = list_ex (\<lambda>h. hr_id h = ho_host row \<and> hr_status h = ''active'') (d_hosts d1)
                \<and> (case ver of None \<Rightarrow> True | Some v \<Rightarrow> list_all (\<lambda>x. x < v) (ownerVersions (ho_host row) d1))
      in if \<not> may then (Inl ChangedMeanwhile, d1)
         else if list_ex (\<lambda>x. ho_host x = ho_host row \<and> ho_kind x = ho_kind row \<and> ho_state x = HoOpen) (d_host_orders d1) then (Inl OrderOpen, d)
         else (Inr (ho_id row), add_event (HostEvent (if ho_kind row = ''retire-legacy'' \<or> ver \<noteq> None then EvWarn else EvOk)
                 (ho_host row) (ho_issued_by row) None (ho_kind row) []) (d1\<lparr>d_host_orders := row # d_host_orders d1\<rparr>)))"

definition handleHostOrder ::
  "(string \<Rightarrow> json option) \<Rightarrow> (json \<Rightarrow> string) \<Rightarrow> (string \<Rightarrow> stamp) \<Rightarrow> string \<Rightarrow> int \<Rightarrow> person_act \<Rightarrow> string \<Rightarrow> db
     \<Rightarrow> (door_refusal + string) \<times> db" where
  "handleHostOrder json_parse json_text read_stamp newId now p i d = (case personAct p d of
     Inl e \<Rightarrow> (Inl e, d)
   | Inr (v, b) \<Rightarrow> (case hostRow i d of
       None \<Rightarrow> (Inl NoHost, d)
     | Some h \<Rightarrow> (case word_in HOST_ORDER_KINDS (jfield b ''kind'') of
         None \<Rightarrow> (Inl BadKind, d)
       | Some kind \<Rightarrow> (case hostVerdicts (Some v) h None (rightOf kind) of
           Refused st why \<Rightarrow> (Inl (NotTheirs st why), d)
         | Allowed \<Rightarrow> (case orderArg kind b of
             Inl e \<Rightarrow> (Inl (BadArg e), d)
           | Inr arg \<Rightarrow>
               (let row = (\<lambda>a. \<lparr>ho_id = newId, ho_host = i, ho_kind = kind, ho_arg = a, ho_issued_by = pa_login p, ho_issued_at = now,
                      ho_not_after = now + HOST_ORDER_TTL_MIN * 60000, ho_state = HoOpen, ho_answered_at = None, ho_detail = None\<rparr>)
                in if kind \<in> set OWNER_ORDER_KINDS then
                     (case ownerOrder json_parse json_text read_stamp now kind h (pa_login p) b of
                        Inl e \<Rightarrow> (Inl e, d)
                      | Inr (ver, doc) \<Rightarrow>
                          if ver < nextOwnerVersion h d then (Inl VersionTaken, d)
                          else if pa_passkey p = None then (Inl NoPasskey, d)
                          else insertHostOrder (row (Some [(''version'', JNum (of_int ver)), (''doc'', doc)])) (Some ver) now d)
                   else if kind = ''retire-legacy'' \<and> pa_passkey p = None then (Inl NoPasskey, d)
                   else insertHostOrder (row (arg_json arg)) None now d))))))"

subsection \<open>The agent's answers and its report\<close>

definition outcome_state :: "outcome \<Rightarrow> host_order_state" where
  "outcome_state c = (case c of OutDone \<Rightarrow> HoDone | OutRefused \<Rightarrow> HoRefused | OutFailed \<Rightarrow> HoFailed)"

definition answerable :: "string \<Rightarrow> order_answer \<Rightarrow> host_order \<Rightarrow> bool" where
  "answerable i a x \<longleftrightarrow> ho_id x = an_id a \<and> ho_host x = i \<and> (ho_state x = HoOpen \<or> ho_state x = HoExpired)"

definition ANSWER_HOST_ORDER_SQL :: "string \<Rightarrow> int \<Rightarrow> order_answer \<Rightarrow> db \<Rightarrow> db" where
  "ANSWER_HOST_ORDER_SQL i now a d = d\<lparr>d_host_orders := sql_update (answerable i a)
     (\<lambda>x. x\<lparr>ho_state := outcome_state (an_outcome a), ho_answered_at := Some now, ho_detail := Some (an_detail a)\<rparr>) (d_host_orders d)\<rparr>"

text \<open>\<^verbatim>\<open>json_set\<close> of one key of an object, and the value of a settings order's argument (a missing or null one is null).\<close>

definition json_set :: "string \<Rightarrow> json \<Rightarrow> (string \<times> json) list \<Rightarrow> (string \<times> json) list" where
  "json_set k v kvs = (if k \<in> set (map fst kvs) then map (\<lambda>(k', x). (k', if k' = k then v else x)) kvs else kvs @ [(k, v)])"

definition arg_value :: "(string \<times> json) list option \<Rightarrow> json" where
  "arg_value a = (case a of None \<Rightarrow> JNull | Some kvs \<Rightarrow> (case map_of kvs ''units'' of
       Some x \<Rightarrow> if x \<noteq> JNull then x else nvl (map_of kvs ''emulate'') JNull
     | None \<Rightarrow> nvl (map_of kvs ''emulate'') JNull))"

definition settingsOrder :: "string \<Rightarrow> int \<Rightarrow> string \<Rightarrow> host_order \<Rightarrow> bool" where
  "settingsOrder i now orderId x \<longleftrightarrow> ho_id x = orderId \<and> ho_host x = i \<and> (ho_kind x = ''set-units'' \<or> ho_kind x = ''set-emulate'')
     \<and> ho_state x = HoDone \<and> ho_answered_at x = Some now"

definition SETTINGS_FROM_ANSWER_SQL :: "string \<Rightarrow> int \<Rightarrow> string \<Rightarrow> db \<Rightarrow> db" where
  "SETTINGS_FROM_ANSWER_SQL i now orderId d = (case find (\<lambda>x. ho_id x = orderId) (d_host_orders d) of
     None \<Rightarrow> d
   | Some x \<Rightarrow> if \<not> settingsOrder i now orderId x then d
       else d\<lparr>d_hosts := sql_update (\<lambda>h. hr_id h = i) (\<lambda>h. h\<lparr>hr_settings :=
              Some (json_set (if ho_kind x = ''set-units'' then ''units'' else ''emulate'') (arg_value (ho_arg x)) (nvl (hr_settings h) []))\<rparr>) (d_hosts d)\<rparr>)"

text \<open>One answer: the order closed, its line, its settings; and whether it closed one.\<close>

definition takeAnswer :: "string \<Rightarrow> login \<Rightarrow> int \<Rightarrow> nat \<times> db \<Rightarrow> order_answer \<Rightarrow> nat \<times> db" where
  "takeAnswer i owner now s a =
     (let d = snd s; hit = list_ex (answerable i a) (d_host_orders d);
          d1 = ANSWER_HOST_ORDER_SQL i now a d;
          rows = filter (\<lambda>x. ho_id x = an_id a \<and> ho_host x = i \<and> ho_state x = outcome_state (an_outcome a) \<and> ho_answered_at x = Some now) (d_host_orders d1);
          d2 = foldl (\<lambda>y x. add_event (HostEvent (if an_outcome a = OutDone then EvOk else EvWarn) i owner None (ho_kind x) []) y) d1 rows
      in ((if hit then Suc (fst s) else fst s), SETTINGS_FROM_ANSWER_SQL i now (an_id a) d2))"

definition takeAnswers :: "string \<Rightarrow> login \<Rightarrow> int \<Rightarrow> order_answer list \<Rightarrow> db \<Rightarrow> nat \<times> db" where
  "takeAnswers i owner now as d = foldl (takeAnswer i owner now) (0, d) as"

definition hostingShortOf :: "string option \<Rightarrow> bool option \<Rightarrow> bool" where
  "hostingShortOf isolation dedicated \<longleftrightarrow> isolation = Some ''root''
     \<or> (isolation = Some ''user'' \<and> dedicated = Some False) \<or> (isolation = Some ''vm-shared'' \<and> dedicated = Some False)"

datatype report_refusal = ReportBody | ReportLeak | ReportCapacity capacity_error | ReportNativeLane | ReportRuntime

text \<open>A text the report says, when it has the shape.\<close>

definition textOf :: "(string \<Rightarrow> bool) \<Rightarrow> json option \<Rightarrow> string option" where
  "textOf P v = (case jstr v of Some s \<Rightarrow> if P s then Some s else None | None \<Rightarrow> None)"

definition quarantined_json :: "(string \<Rightarrow> stamp) \<Rightarrow> json \<Rightarrow> json option" where
  "quarantined_json read_stamp x = map_option (\<lambda>r. JObj [(''release'', JStr r),
     (''until'', case isoOrNull read_stamp (jfield (Some x) ''until'') of None \<Rightarrow> JNull | Some u \<Rightarrow> JStr u)]) (tagText (jfield (Some x) ''release''))"

text \<open>The soak's two columns, from the report: written when it says one, both empty otherwise.\<close>

definition soakColumns :: "(json \<Rightarrow> string) \<Rightarrow> (string \<Rightarrow> stamp) \<Rightarrow> json option \<Rightarrow> string option \<times> string option" where
  "soakColumns json_text read_stamp r = (case isoOrNull read_stamp (jfield (jfield r ''release'') ''soaking_until'') of
     None \<Rightarrow> (None, None)
   | Some u \<Rightarrow> (Some u, Some (json_text (JArr (take 16 (List.map_filter (quarantined_json read_stamp) (nvl (jarr (jfield r ''quarantine'')) [])))))))"

definition coalesce :: "'a option \<Rightarrow> 'a option \<Rightarrow> 'a option" where
  "coalesce a b = (case a of None \<Rightarrow> b | Some _ \<Rightarrow> a)"

text \<open>The row \<open>x\<close> as a report leaves it; \<open>h\<close> is the row the signed request read.\<close>

definition reportedRow ::
  "(string \<Rightarrow> json option) \<Rightarrow> (json \<Rightarrow> string) \<Rightarrow> (string \<Rightarrow> stamp) \<Rightarrow> stamp \<Rightarrow> int \<Rightarrow> string \<Rightarrow> json \<Rightarrow> capacity option \<Rightarrow> host_row \<Rightarrow> host_row \<Rightarrow> host_row" where
  "reportedRow json_parse json_text read_stamp at_time now text r cap h x =
     (let rep = Some r;
          (iso, ded) = reportedIsolation (jfield rep ''runtime'') (if cap = None then None else jfield rep ''capacity'');
          (from, since) = revertAfter (hr_rolled_back_from h, hr_rolled_back_at h) r at_time;
          (soak, quarantine) = soakColumns json_text read_stamp rep;
          behind = poolBehindOf json_parse read_stamp (jfield (jfield rep ''release'') ''pool_behind_github'')
      in x\<lparr>hr_report := Some r, hr_report_text := Some text, hr_reported_at := Some now, hr_last_seen := Some now,
           hr_agent_version := coalesce (textOf (\<lambda>s. semver (Some s) \<noteq> None) (jfield (jfield rep ''agent'') ''version'')) (hr_agent_version x),
           hr_release_applied := tagText (jfield (jfield rep ''release'') ''applied''),
           hr_rolled_back_from := from, hr_rolled_back_at := since,
           hr_isolation := coalesce iso (hr_isolation h), hr_dedicated := coalesce ded (hr_dedicated h),
           hr_lanes := (case cap of None \<Rightarrow> hr_lanes x | Some c \<Rightarrow> map (\<lambda>l. \<lparr>l_arch = l_arch l, l_mode = l_mode l, l_page16k = l_page16k l\<rparr>) (cp_lanes c)),
           hr_units := coalesce (map_option hostUnitsOf cap) (hr_units x),
           hr_soaking_until := soak, hr_soak_quarantine := quarantine,
           hr_pool_behind_github := map_option (\<lambda>b. json_text (JObj [(''github'', JStr (pb_github b)), (''pool'', JStr (pb_pool b)), (''since'', JStr (pb_since b))])) behind,
           hr_seal_key := coalesce (sealKeyOf (jfield (jfield (jfield rep ''owner'') ''seal'') ''key'')) (hr_seal_key x),
           hr_asleep_at := (if jfield rep ''asleep'' = Some (JBool True) then coalesce (hr_asleep_at x) (Some now) else None)\<rparr>)"

text \<open>The answer: whether the report was written, the units the pool counts, and the orders it closed.\<close>

definition handleHostReport ::
  "(string \<Rightarrow> json option) \<Rightarrow> (json \<Rightarrow> string) \<Rightarrow> (string \<Rightarrow> stamp) \<Rightarrow> stamp \<Rightarrow> int \<Rightarrow> string \<Rightarrow> host_row \<Rightarrow> db
     \<Rightarrow> (report_refusal + (bool \<times> int option \<times> nat)) \<times> db" where
  "handleHostReport json_parse json_text read_stamp at_time now text h d = (case json_parse text of
     Some (JObj kvs) \<Rightarrow>
       (let r = JObj kvs; rep = Some r; said = jfield rep ''capacity'' in
        if findLeak text \<noteq> None then (Inl ReportLeak, d)
        else if hr_report_text h = Some text \<and> (case hr_reported_at h of None \<Rightarrow> False | Some t \<Rightarrow> t > now - HOST_ROW_TOUCH_MIN * 60000)
          then (Inr (False, hr_units h, 0), d)
        else (case (if said = None \<or> said = Some JNull then Inr None else map_sum id Some (parseCapacity said)) of
            Inl e \<Rightarrow> (Inl (ReportCapacity e), d)
          | Inr cap \<Rightarrow>
              if (case cap of None \<Rightarrow> False | Some c \<Rightarrow> \<not> list_ex (\<lambda>l. l_mode l = Native \<and> l_arch l = hr_arch h) (cp_lanes c)) then (Inl ReportNativeLane, d)
              else if js_object (jfield rep ''runtime'') \<and> \<not> runtimeOk json_text (jfield rep ''runtime'') then (Inl ReportRuntime, d)
              else (let row = reportedRow json_parse json_text read_stamp at_time now text r cap h h;
                        d1 = d\<lparr>d_hosts := sql_update (\<lambda>x. hr_id x = hr_id h) (reportedRow json_parse json_text read_stamp at_time now text r cap h) (d_hosts d)\<rparr>;
                        was = poolBehindOf json_parse read_stamp (map_option JStr (hr_pool_behind_github h)) \<noteq> None;
                        nowBehind = poolBehindOf json_parse read_stamp (jfield (jfield rep ''release'') ''pool_behind_github'') \<noteq> None;
                        d2 = (if was \<noteq> nowBehind then add_event (HostEvent (if nowBehind then EvWarn else EvOk) (hr_id h) (hr_owner_login h) None ''pool-behind-github'' []) d1 else d1);
                        d3 = (if hr_isolation row \<noteq> hr_isolation h \<or> hr_dedicated row \<noteq> hr_dedicated h
                              then add_event (HostEvent (if hostingShortOf (hr_isolation row) (hr_dedicated row) then EvWarn else EvOk) (hr_id h) (hr_owner_login h) None ''isolation'' []) d2 else d2);
                        (closed', d4) = takeAnswers (hr_id h) (hr_owner_login h) now (orderAnswers (jfield rep ''orders'')) d3
                    in (Inr (True, hr_units row, closed'), d4))))
   | _ \<Rightarrow> (Inl ReportBody, d))"

subsection \<open>The host state, the diagnostics and the seal key\<close>

text \<open>What a poll is sent: the open orders still to be taken, at most 16, the oldest first; and the touch of its row.\<close>

definition HOST_OPEN_ORDERS_SQL :: "string \<Rightarrow> int \<Rightarrow> db \<Rightarrow> host_order list" where
  "HOST_OPEN_ORDERS_SQL i now d =
     take 16 (sort_key ho_issued_at (filter (\<lambda>x. ho_host x = i \<and> ho_state x = HoOpen \<and> now < ho_not_after x) (d_host_orders d)))"

record host_state =
  hs_status :: string
  hs_worker :: "string option"
  hs_rotate_after :: "int option"
  hs_orders :: "(string \<times> string \<times> int \<times> (string \<times> json) list option) list"
  hs_settings :: "host_settings option"

definition TOKEN_ROTATE_DAYS :: int where "TOKEN_ROTATE_DAYS = 30"

definition handleHostState :: "int \<Rightarrow> host_row \<Rightarrow> db \<Rightarrow> host_state \<times> db" where
  "handleHostState now h d =
     (let d1 = d\<lparr>d_hosts := sql_update (\<lambda>x. hr_id x = hr_id h \<and> (case hr_last_seen x of None \<Rightarrow> True | Some t \<Rightarrow> t < now - HOST_ROW_TOUCH_MIN * 60000))
            (\<lambda>x. x\<lparr>hr_last_seen := Some now\<rparr>) (d_hosts d)\<rparr>
      in (\<lparr>hs_status = hr_status h, hs_worker = hr_worker_id h,
           hs_rotate_after = map_option (\<lambda>t. t + TOKEN_ROTATE_DAYS * 24 * 60 * 60000) (hr_token_issued_at h),
           hs_orders = map (\<lambda>x. (ho_id x, ho_kind x, ho_not_after x, ho_arg x)) (HOST_OPEN_ORDERS_SQL (hr_id h) now d1),
           hs_settings = hostSettingsOf (map_option JObj (hr_settings h))\<rparr>, d1))"

definition DIAGNOSTIC_LINES :: nat where "DIAGNOSTIC_LINES = 500"
definition DIAGNOSTIC_LINE_MAX :: nat where "DIAGNOSTIC_LINE_MAX = 400"

text \<open>\<^verbatim>\<open>[\x00-\x08\x0b-\x1f\x7f]\<close>: every control character but the tab and the line feed.\<close>

definition log_control :: "char \<Rightarrow> bool" where
  "log_control c \<longleftrightarrow> is_control c \<and> (of_char c :: int) \<noteq> 9 \<and> (of_char c :: int) \<noteq> 10"

definition logLine :: "string \<Rightarrow> string" where
  "logLine s = take DIAGNOSTIC_LINE_MAX (map (\<lambda>c. if log_control c then CHR '' '' else c) s)"

datatype diagnostics_refusal = DiagBody | DiagOrder | DiagLines | DiagNoOrder | DiagAnswered

definition handleHostDiagnostics ::
  "(string \<Rightarrow> json option) \<Rightarrow> int \<Rightarrow> string \<Rightarrow> host_row \<Rightarrow> db \<Rightarrow> (diagnostics_refusal + (nat \<times> nat)) \<times> db" where
  "handleHostDiagnostics json_parse now text h d = (case json_parse text of
     None \<Rightarrow> (Inl DiagBody, d)
   | Some b \<Rightarrow> (case jstr (jfield (Some b) ''order'') of
       None \<Rightarrow> (Inl DiagOrder, d)
     | Some i \<Rightarrow>
         if \<not> HOST_ORDER_ID i then (Inl DiagOrder, d)
         else (case Option.bind (jarr (jfield (Some b) ''lines'')) (\<lambda>xs. if length xs > DIAGNOSTIC_LINES then None else those (map (\<lambda>x. jstr (Some x)) xs)) of
           None \<Rightarrow> (Inl DiagLines, d)
         | Some raw \<Rightarrow> (case find (\<lambda>x. ho_id x = i \<and> ho_host x = hr_id h) (d_host_orders d) of
             None \<Rightarrow> (Inl DiagNoOrder, d)
           | Some x \<Rightarrow>
               if ho_kind x \<noteq> ''diagnostics'' then (Inl DiagNoOrder, d)
               else if ho_state x \<noteq> HoOpen \<and> ho_state x \<noteq> HoExpired then (Inl DiagAnswered, d)
               else (let kept = filter (\<lambda>l. findLeak l = None) (map logLine raw);
                         dropped = length raw - length kept;
                         row = \<lparr>hg_order = i, hg_host = hr_id h, hg_at = now, hg_lines = kept, hg_dropped = dropped\<rparr>
                     in (Inr (length kept, dropped),
                         if list_ex (\<lambda>g. hg_order g = i) (d_diagnostics d)
                         then d\<lparr>d_diagnostics := sql_update (\<lambda>g. hg_order g = i) (\<lambda>g. g\<lparr>hg_at := now, hg_lines := kept, hg_dropped := dropped\<rparr>) (d_diagnostics d)\<rparr>
                         else d\<lparr>d_diagnostics := row # d_diagnostics d\<rparr>))))))"

definition handleSealKeyConfirm :: "int \<Rightarrow> person_act \<Rightarrow> string \<Rightarrow> db \<Rightarrow> (door_refusal + string) \<times> db" where
  "handleSealKeyConfirm now p i d = (case atDoor p i ROwner d of
     Inl e \<Rightarrow> (Inl e, d)
   | Inr (v, b, h) \<Rightarrow> (case sealKeyOf (map_option JStr (hr_seal_key h)) of
       None \<Rightarrow> (Inl SealKey, d)
     | Some reported \<Rightarrow>
         if sealKeyOf (jfield b ''key'') \<noteq> Some reported then (Inl SealKey, d)
         else (case pa_passkey p of
           None \<Rightarrow> (Inl NoPasskey, d)
         | Some passkey \<Rightarrow>
             (let which = (\<lambda>x. hr_id x = i \<and> hr_seal_key x = Some reported);
                  d1 = d\<lparr>d_hosts := sql_update which (\<lambda>x. x\<lparr>hr_seal_confirmed := Some (JObj [(''key'', JStr reported), (''by'', JStr (pa_login p)),
                         (''at'', JNum (of_int now)), (''passkey'', JStr passkey)])\<rparr>) (d_hosts d)\<rparr>
              in if list_ex which (d_hosts d) then (Inr reported, add_event (HostEvent EvOk i (pa_login p) None ''seal-key'' []) d1)
                 else (Inl ChangedMeanwhile, d1)))))"

end
