(* ===== verification/Host_Machine.thy ===== *)
theory Host_Machine
  imports Host_Lifecycle
begin

text \<open>
  A host's life as a state machine: every statement the doors run on the hosts table keeps what identifies a host
  and moves its status along the life's edges (the locale \<open>host_statement\<close>, interpreted on each of them), every
  statement on host orders keeps one open order per kind (the locale \<open>order_statement\<close>), and the doors are the
  steps of a relation whose runs keep both.
\<close>

subsection \<open>How a host's row may change\<close>

definition host_evolves :: "host_row \<Rightarrow> host_row \<Rightarrow> bool" where
  "host_evolves h h' \<longleftrightarrow>
     hr_id h' = hr_id h \<and> hr_pubkey h' = hr_pubkey h \<and> hr_owner_github_id h' = hr_owner_github_id h \<and> hr_owner_login h' = hr_owner_login h
     \<and> (hr_status h = ''retired'' \<longrightarrow> hr_status h' = ''retired'')
     \<and> (hr_status h' = ''pending-owner'' \<longrightarrow> hr_status h = ''pending-owner'')
     \<and> (hr_worker_id h \<noteq> None \<longrightarrow> hr_worker_id h' = hr_worker_id h)"

definition host_ok :: "host_row \<Rightarrow> bool" where
  "host_ok h \<longleftrightarrow> hr_status h \<in> {''pending-owner'', ''active'', ''suspended'', ''retired''}
     \<and> (hr_status h = ''active'' \<or> hr_status h = ''suspended'' \<longrightarrow> hr_worker_id h \<noteq> None)
     \<and> (hr_status h = ''pending-owner'' \<longrightarrow> hr_worker_id h = None)"

lemma host_evolves_refl [simp]: "host_evolves h h"
  by (simp add: host_evolves_def)

lemma host_evolves_trans: "host_evolves a b \<Longrightarrow> host_evolves b c \<Longrightarrow> host_evolves a c"
  unfolding host_evolves_def by metis

definition row_evolves :: "host_row \<Rightarrow> host_row \<Rightarrow> bool" where
  "row_evolves h h' \<longleftrightarrow> host_evolves h h' \<and> (host_ok h \<longrightarrow> host_ok h')"

lemma row_evolves_trans: "row_evolves a b \<Longrightarrow> row_evolves b c \<Longrightarrow> row_evolves a c"
  unfolding row_evolves_def using host_evolves_trans by metis

definition hosts_evolve :: "host_row list \<Rightarrow> host_row list \<Rightarrow> bool" where
  "hosts_evolve hs hs' \<longleftrightarrow> list_all2 row_evolves hs hs'"

lemma hosts_evolve_refl [simp]: "hosts_evolve hs hs"
  unfolding hosts_evolve_def by (rule list_all2_refl) (simp add: row_evolves_def)

lemma hosts_evolve_trans: "hosts_evolve a b \<Longrightarrow> hosts_evolve b c \<Longrightarrow> hosts_evolve a c"
  unfolding hosts_evolve_def by (rule list_all2_trans [OF row_evolves_trans])

lemma hosts_evolve_keys:
  assumes "hosts_evolve hs hs'"
  shows "map hr_id hs' = map hr_id hs" "map hr_pubkey hs' = map hr_pubkey hs"
  using assms unfolding hosts_evolve_def by (induction rule: list_all2_induct) (simp_all add: row_evolves_def host_evolves_def)

lemma hosts_evolve_ok: "hosts_evolve hs hs' \<Longrightarrow> list_all host_ok hs \<Longrightarrow> list_all host_ok hs'"
  unfolding hosts_evolve_def by (induction rule: list_all2_induct) (simp_all add: row_evolves_def)

lemma hosts_evolve_find:
  assumes "hosts_evolve hs hs'" "h \<in> set hs"
  shows "\<exists>h' \<in> set hs'. host_evolves h h'"
  using assms unfolding hosts_evolve_def by (induction rule: list_all2_induct) (auto simp: row_evolves_def)

text \<open>A statement on the hosts table whose set clause follows the life's edges.\<close>

locale host_statement =
  fixes guard :: "host_row \<Rightarrow> bool" and change :: "host_row \<Rightarrow> host_row"
  assumes edge: "guard h \<Longrightarrow> host_evolves h (change h)"
    and keeps_ok: "guard h \<Longrightarrow> host_ok h \<Longrightarrow> host_ok (change h)"
begin

lemma evolves: "hosts_evolve hs (sql_update guard change hs)"
  unfolding hosts_evolve_def by (induction hs) (simp_all add: row_evolves_def edge keeps_ok)

end

interpretation suspending: host_statement "\<lambda>h. hr_id h = i \<and> hr_status h = ''active''" "suspendRow who now reason" for i who now reason
  by unfold_locales (auto simp: suspendRow_def host_evolves_def host_ok_def)

interpretation causing: host_statement "\<lambda>h. ownerKey d l h \<and> (hr_status h = ''active'' \<or> hr_status h = ''suspended'')" "suspendRow who now reason"
  for d l who now reason
  by unfold_locales (auto simp: suspendRow_def host_evolves_def host_ok_def)

interpretation resuming: host_statement "\<lambda>h. hr_id h = i \<and> hr_status h = ''suspended''"
    "\<lambda>h. h\<lparr>hr_status := ''active'', hr_status_by := Some who, hr_status_at := Some now, hr_status_reason := None\<rparr>" for i who now
  by unfold_locales (auto simp: host_evolves_def host_ok_def)

interpretation retiring: host_statement "\<lambda>h. hr_id h = i \<and> hr_status h \<noteq> ''retired''"
    "\<lambda>h. h\<lparr>hr_status := ''retired'', hr_status_by := Some who, hr_status_at := Some now, hr_status_reason := Some reason,
       hr_prev_token_hash := None, hr_prev_token_until := None\<rparr>" for i who now reason
  by unfold_locales (auto simp: host_evolves_def host_ok_def)

interpretation capping: host_statement "\<lambda>x. hr_id x = i \<and> hr_status x \<noteq> ''retired'' \<and> hr_pool_cap_units x = old"
    "\<lambda>x. x\<lparr>hr_pool_cap_units := units\<rparr>" for i old units
  by unfold_locales (auto simp: host_evolves_def host_ok_def)

interpretation unlisting: host_statement
    "\<lambda>h. (hr_status h = ''active'' \<or> hr_status h = ''suspended'') \<and> hr_owner_removed_at h = None \<and> \<not> OWNER_LISTED_SQL d (hr_owner_github_id h)"
    "\<lambda>h. h\<lparr>hr_owner_removed_at := Some now\<rparr>" for d now
  by unfold_locales (auto simp: host_evolves_def host_ok_def)

interpretation relisting: host_statement "\<lambda>h. hr_owner_github_id h = g \<and> hr_owner_removed_at h \<noteq> None \<and> hr_status h \<noteq> ''retired''"
    "\<lambda>h. h\<lparr>hr_owner_removed_at := None\<rparr>" for g
  by unfold_locales (auto simp: host_evolves_def host_ok_def)

interpretation settings_set: host_statement "\<lambda>h. hr_id h = i" "\<lambda>h. h\<lparr>hr_settings := f h\<rparr>" for i f
  by unfold_locales (auto simp: host_evolves_def host_ok_def)

interpretation token_set: host_statement "\<lambda>y. hr_id y = i"
    "\<lambda>y. y\<lparr>hr_prev_token_hash := a, hr_prev_token_until := b, hr_token_issued_at := c, hr_last_seen := e\<rparr>" for i a b c e
  by unfold_locales (auto simp: host_evolves_def host_ok_def)

lemma reportedRow_keeps:
  "hr_id (reportedRow jp jt rs at' now text r cap h x) = hr_id x" "hr_pubkey (reportedRow jp jt rs at' now text r cap h x) = hr_pubkey x"
  "hr_owner_github_id (reportedRow jp jt rs at' now text r cap h x) = hr_owner_github_id x"
  "hr_owner_login (reportedRow jp jt rs at' now text r cap h x) = hr_owner_login x"
  "hr_status (reportedRow jp jt rs at' now text r cap h x) = hr_status x"
  "hr_worker_id (reportedRow jp jt rs at' now text r cap h x) = hr_worker_id x"
  by (simp_all add: reportedRow_def Let_def split: prod.splits)

interpretation reporting: host_statement "\<lambda>x. hr_id x = i" "reportedRow jp jt rs at' now body r cap h" for i jp jt rs at' now body r cap h
  by unfold_locales (simp_all add: host_evolves_def host_ok_def reportedRow_keeps)

interpretation touching: host_statement "\<lambda>x. hr_id x = i \<and> stale x" "\<lambda>x. x\<lparr>hr_last_seen := Some now\<rparr>" for i stale now
  by unfold_locales (auto simp: host_evolves_def host_ok_def)

interpretation sealing: host_statement "\<lambda>x. hr_id x = i \<and> hr_seal_key x = k" "\<lambda>x. x\<lparr>hr_seal_confirmed := v\<rparr>" for i k v
  by unfold_locales (auto simp: host_evolves_def host_ok_def)

text \<open>Confirm gives a registration to a host that waits for its owner, which has none.\<close>

lemma confirm_row:
  assumes "hr_status h = ''pending-owner''" "host_ok h"
  shows "host_evolves h (h\<lparr>hr_status := ''active'', hr_confirmed_at := c, hr_worker_id := Some w\<rparr>)
    \<and> host_ok (h\<lparr>hr_status := ''active'', hr_confirmed_at := c, hr_worker_id := Some w\<rparr>)"
proof -
  have "hr_worker_id h = None" using assms by (simp add: host_ok_def)
  with assms(1) show ?thesis by (simp add: host_evolves_def host_ok_def)
qed

lemma confirm_guarded:
  assumes "b \<Longrightarrow> hr_status h = ''pending-owner'' \<and> host_ok h"
  shows "row_evolves h (if b then h\<lparr>hr_status := ''active'', hr_confirmed_at := c, hr_worker_id := Some w\<rparr> else h)"
proof (cases b)
  case True
  then have "hr_status h = ''pending-owner''" "host_ok h" using assms by blast+
  note confirm_row [OF this]
  then show ?thesis unfolding row_evolves_def using True by (simp only: if_True simp_thms)
next
  case False
  then show ?thesis by (simp only: row_evolves_def if_False host_evolves_refl simp_thms)
qed

lemma confirm_evolves:
  assumes "\<And>h. h \<in> set hs \<Longrightarrow> P h \<Longrightarrow> hr_status h = ''pending-owner'' \<and> host_ok h"
  shows "hosts_evolve hs (sql_update P (\<lambda>x. x\<lparr>hr_status := ''active'', hr_confirmed_at := c, hr_worker_id := Some w\<rparr>) hs)"
  unfolding hosts_evolve_def sql_update_def list_all2_conv_all_nth
proof (intro conjI allI impI)
  fix n
  assume n: "n < length hs"
  then have "hs ! n \<in> set hs" by simp
  then have "P (hs ! n) \<Longrightarrow> hr_status (hs ! n) = ''pending-owner'' \<and> host_ok (hs ! n)" by (rule assms)
  from confirm_guarded [of "P (hs ! n)", OF this] n show "row_evolves (hs ! n) (map (\<lambda>x. if P x then x\<lparr>hr_status := ''active'', hr_confirmed_at := c, hr_worker_id := Some w\<rparr> else x) hs ! n)"
    by simp
qed simp

subsection \<open>Host orders: one open per kind\<close>

definition open_keys :: "host_order list \<Rightarrow> (string \<times> string) list" where
  "open_keys xs = map (\<lambda>x. (ho_host x, ho_kind x)) (filter (\<lambda>x. ho_state x = HoOpen) xs)"

text \<open>A statement that closes host orders: it opens none.\<close>

locale order_statement =
  fixes guard :: "host_order \<Rightarrow> bool" and change :: "host_order \<Rightarrow> host_order"
  assumes closes: "guard x \<Longrightarrow> ho_state (change x) \<noteq> HoOpen"
begin

lemma open_subset: "set (open_keys (sql_update guard change xs)) \<subseteq> set (open_keys xs)"
  by (induction xs) (auto simp: open_keys_def dest: closes)

lemma keeps_unique: "distinct (open_keys xs) \<Longrightarrow> distinct (open_keys (sql_update guard change xs))"
proof (induction xs)
  case (Cons x xs)
  then show ?case using open_subset [of xs] by (auto simp: open_keys_def dest: closes split: if_splits)
qed (simp add: open_keys_def)

end

interpretation expiring: order_statement "\<lambda>x. ho_host x = i \<and> ho_state x = HoOpen \<and> ho_not_after x \<le> now"
    "\<lambda>x. x\<lparr>ho_state := HoExpired, ho_answered_at := Some now, ho_detail := Some ORDER_EXPIRED\<rparr>" for i now
  by unfold_locales simp

interpretation expiring_all: order_statement "\<lambda>x. ho_state x = HoOpen \<and> ho_not_after x \<le> now"
    "\<lambda>x. x\<lparr>ho_state := HoExpired, ho_answered_at := Some now, ho_detail := Some ORDER_EXPIRED\<rparr>" for now
  by unfold_locales simp

interpretation cancelling: order_statement "\<lambda>x. ho_state x = HoOpen \<and> which x"
    "\<lambda>x. x\<lparr>ho_state := HoCancelled, ho_answered_at := Some now, ho_detail := Some detail\<rparr>" for which now detail
  by unfold_locales simp

interpretation answering: order_statement "answerable i a"
    "\<lambda>x. x\<lparr>ho_state := outcome_state (an_outcome a), ho_answered_at := Some now, ho_detail := Some (an_detail a)\<rparr>" for i a now
  by unfold_locales (simp add: outcome_state_def split: outcome.splits)

end
