(* ===== verification/Host_Runs.thy ===== *)
theory Host_Runs
  imports Host_Machine
begin

text \<open>
  The doors as the steps of one relation, what every run of them keeps, and what each act does: a suspension and
  its fence, a token burned once, settings taken from an answered order.
\<close>

subsection \<open>What each door writes\<close>

lemma sql_update_False [simp]: "sql_update (\<lambda>x. False) f xs = xs"
  by (simp add: sql_update_def)

lemma cancelOrdersOf_frame [simp]:
  "d_hosts (cancelOrdersOf ws now why d) = d_hosts d" "d_host_orders (cancelOrdersOf ws now why d) = d_host_orders d"
  "d_enrollments (cancelOrdersOf ws now why d) = d_enrollments d" "d_tasks (cancelOrdersOf ws now why d) = d_tasks d"
  "d_maintainers (cancelOrdersOf ws now why d) = d_maintainers d" "d_contributors (cancelOrdersOf ws now why d) = d_contributors d"
  by (simp_all add: cancelOrdersOf_def)

lemma fence_frame [simp]:
  "d_hosts (FENCE_ORDERS_SQL ws fresh who reason now why d) = d_hosts d" "d_host_orders (FENCE_ORDERS_SQL ws fresh who reason now why d) = d_host_orders d"
  "d_enrollments (FENCE_ORDERS_SQL ws fresh who reason now why d) = d_enrollments d" "d_tasks (FENCE_ORDERS_SQL ws fresh who reason now why d) = d_tasks d"
  "d_hosts (BULK_FENCE_SQL ws now d) = d_hosts d" "d_host_orders (BULK_FENCE_SQL ws now d) = d_host_orders d"
  "d_enrollments (BULK_FENCE_SQL ws now d) = d_enrollments d" "d_orders (BULK_FENCE_SQL ws now d) = d_orders d"
  by (simp_all add: FENCE_ORDERS_SQL_def BULK_FENCE_SQL_def)

lemma add_event_frame [simp]:
  "d_hosts (add_event e d) = d_hosts d" "d_host_orders (add_event e d) = d_host_orders d" "d_enrollments (add_event e d) = d_enrollments d"
  "d_tasks (add_event e d) = d_tasks d" "d_orders (add_event e d) = d_orders d"
  by (simp_all add: add_event_def)

lemma add_events_frame [simp]:
  "d_hosts (foldl (\<lambda>y x. add_event (g x) y) d xs) = d_hosts d" "d_host_orders (foldl (\<lambda>y x. add_event (g x) y) d xs) = d_host_orders d"
  "d_enrollments (foldl (\<lambda>y x. add_event (g x) y) d xs) = d_enrollments d"
  by (induction xs arbitrary: d) simp_all

lemma suspendBatch_frame:
  "d_hosts (suspendBatch which sel st subject act fresh who reason now d) = sql_update which (suspendRow who now reason) (d_hosts d)"
  "d_enrollments (suspendBatch which sel st subject act fresh who reason now d) = d_enrollments d"
  "\<exists>P. d_host_orders (suspendBatch which sel st subject act fresh who reason now d) =
     sql_update (\<lambda>x. ho_state x = HoOpen \<and> P x) (\<lambda>x. x\<lparr>ho_state := HoCancelled, ho_answered_at := Some now, ho_detail := Some (''its host was suspended by '' @ who)\<rparr>) (d_host_orders d)"
  by (auto simp: suspendBatch_def suspendStatements_def cancelHostOrders_def Let_def)

text \<open>What a door may do to the three tables: a used enrollment stays, and no two share a token.\<close>

definition tokens_evolve :: "enrollment list \<Rightarrow> enrollment list \<Rightarrow> bool" where
  "tokens_evolve es es' \<longleftrightarrow> (\<forall>e \<in> set es. he_used_at e \<noteq> None \<longrightarrow> e \<in> set es')
     \<and> (distinct (map he_token_hash es) \<longrightarrow> distinct (map he_token_hash es'))"

lemma tokens_evolve_refl [simp]: "tokens_evolve es es"
  by (simp add: tokens_evolve_def)

lemma tokens_evolve_trans: "tokens_evolve a b \<Longrightarrow> tokens_evolve b c \<Longrightarrow> tokens_evolve a c"
  by (simp add: tokens_evolve_def)

lemma tokens_evolve_filter: "(\<And>e. he_used_at e \<noteq> None \<Longrightarrow> P e) \<Longrightarrow> tokens_evolve es (filter P es)"
  by (simp add: tokens_evolve_def distinct_map_filter)

definition tables_step :: "db \<Rightarrow> db \<Rightarrow> bool" where
  "tables_step d d' \<longleftrightarrow> hosts_evolve (d_hosts d) (d_hosts d')
     \<and> (distinct (open_keys (d_host_orders d)) \<longrightarrow> distinct (open_keys (d_host_orders d')))
     \<and> tokens_evolve (d_enrollments d) (d_enrollments d')"

lemma tables_step_refl [simp]: "tables_step d d"
  unfolding tables_step_def by simp

lemma tables_stepI:
  assumes "hosts_evolve (d_hosts d) (d_hosts d')" "distinct (open_keys (d_host_orders d)) \<Longrightarrow> distinct (open_keys (d_host_orders d'))"
    "d_enrollments d' = d_enrollments d"
  shows "tables_step d d'"
  using assms unfolding tables_step_def by simp

lemma suspendBatch_step:
  assumes "hosts_evolve (d_hosts d) (sql_update which (suspendRow who now reason) (d_hosts d))"
  shows "tables_step d (suspendBatch which sel st subject act fresh who reason now d)"
proof (rule tables_stepI)
  obtain P where "d_host_orders (suspendBatch which sel st subject act fresh who reason now d) =
     sql_update (\<lambda>x. ho_state x = HoOpen \<and> P x) (\<lambda>x. x\<lparr>ho_state := HoCancelled, ho_answered_at := Some now, ho_detail := Some (''its host was suspended by '' @ who)\<rparr>) (d_host_orders d)"
    using suspendBatch_frame(3) by blast
  then show "distinct (open_keys (d_host_orders d)) \<Longrightarrow> distinct (open_keys (d_host_orders (suspendBatch which sel st subject act fresh who reason now d)))"
    using cancelling.keeps_unique by simp
qed (simp_all add: suspendBatch_frame assms)

lemma suspend_step: "tables_step d (snd (handleSuspendHost fresh now p i d))"
proof -
  have "tables_step d (suspendBatch (\<lambda>h. hr_id h = i \<and> hr_status h = ''active'') sel st subject act fresh who reason now d)" for sel st subject act who reason
    by (rule suspendBatch_step) (rule suspending.evolves)
  then show ?thesis by (simp add: handleSuspendHost_def Let_def split: sum.splits option.splits)
qed

lemma cause_step: "tables_step d (snd (handleRemoveForCause fresh now p l d))"
proof -
  have "tables_step d (suspendBatch (\<lambda>h. ownerKey d l h \<and> (hr_status h = ''active'' \<or> hr_status h = ''suspended'')) sel st subject act fresh who reason now d)"
    for sel st subject act who reason
    by (rule suspendBatch_step) (rule causing.evolves)
  then show ?thesis by (simp add: handleRemoveForCause_def Let_def split: sum.splits option.splits)
qed

lemma resume_step: "tables_step d (snd (handleResumeHost now p i d))"
  using resuming.evolves by (auto simp: handleResumeHost_def Let_def split: sum.splits option.splits intro!: tables_stepI)

lemma cap_step: "tables_step d (snd (handleCapHost now p i d))"
  using capping.evolves by (auto simp: handleCapHost_def Let_def split: sum.splits option.splits intro!: tables_stepI)

lemma stop_step: "tables_step d (snd (stopHostsOfRemovedOwners now d))"
  using unlisting.evolves by (auto simp: stopHostsOfRemovedOwners_def STOP_REMOVED_OWNERS_SQL_def Let_def intro!: tables_stepI)

lemma resumeOwner_step: "tables_step d (snd (handleResumeOwner p l d))"
  using relisting.evolves by (auto simp: handleResumeOwner_def Let_def split: sum.splits option.splits bool.splits intro!: tables_stepI)

lemma retire_step: "tables_step d (snd (handleRetireHost now p i d))"
  using retiring.evolves cancelling.keeps_unique
  by (auto simp: handleRetireHost_def cancelHostOrders_def Let_def split: sum.splits option.splits intro!: tables_stepI)

lemma token_step: "tables_step d (snd (handleHostToken hash now h d))"
  using token_set.evolves by (auto simp: handleHostToken_def Let_def split: option.splits bool.splits intro!: tables_stepI)

lemma state_step: "tables_step d (snd (handleHostState now h d))"
  using touching.evolves by (auto simp: handleHostState_def Let_def intro!: tables_stepI)

lemma diagnostics_step: "tables_step d (snd (handleHostDiagnostics jp now body h d))"
  by (auto simp: handleHostDiagnostics_def Let_def split: option.splits intro!: tables_stepI)

lemma seal_step: "tables_step d (snd (handleSealKeyConfirm now p i d))"
  using sealing.evolves by (auto simp: handleSealKeyConfirm_def Let_def split: sum.splits option.splits intro!: tables_stepI)

lemma prune_step: "tables_step d (snd (pruneHosts now d))"
  unfolding tables_step_def using expiring_all.keeps_unique
  by (auto simp: pruneHosts_def EXPIRE_ALL_HOST_ORDERS_SQL_def Let_def intro!: tokens_evolve_filter)

lemma insertHostOrder_frame:
  "d_hosts (snd (insertHostOrder row ver now d)) = d_hosts d" "d_enrollments (snd (insertHostOrder row ver now d)) = d_enrollments d"
  by (simp_all add: insertHostOrder_def EXPIRE_HOST_ORDERS_SQL_def Let_def)

lemma open_keys_Cons: "open_keys (x # xs) = (if ho_state x = HoOpen then (ho_host x, ho_kind x) # open_keys xs else open_keys xs)"
  by (simp add: open_keys_def)

lemma insertHostOrder_unique:
  assumes "distinct (open_keys (d_host_orders d))"
  shows "distinct (open_keys (d_host_orders (snd (insertHostOrder row ver now d))))"
proof -
  let ?xs = "d_host_orders (EXPIRE_HOST_ORDERS_SQL now (ho_host row) d)"
  have "distinct (open_keys ?xs)" using assms expiring.keeps_unique by (simp add: EXPIRE_HOST_ORDERS_SQL_def)
  moreover have "(ho_host row, ho_kind row) \<in> set (open_keys ?xs)
      \<Longrightarrow> list_ex (\<lambda>x. ho_host x = ho_host row \<and> ho_kind x = ho_kind row \<and> ho_state x = HoOpen) ?xs"
    by (auto simp: open_keys_def list_ex_iff)
  ultimately show ?thesis using assms by (auto simp: insertHostOrder_def Let_def open_keys_Cons)
qed

lemma order_step: "tables_step d (snd (handleHostOrder jp jt rs newId now p i d))"
  by (auto simp: handleHostOrder_def insertHostOrder_frame Let_def split: sum.splits option.splits host_verdict.splits
      intro!: tables_stepI insertHostOrder_unique)

lemma settings_frame [simp]:
  "d_host_orders (SETTINGS_FROM_ANSWER_SQL i now o' d) = d_host_orders d" "d_enrollments (SETTINGS_FROM_ANSWER_SQL i now o' d) = d_enrollments d"
  "hosts_evolve (d_hosts d) (d_hosts (SETTINGS_FROM_ANSWER_SQL i now o' d))"
  using settings_set.evolves by (simp_all add: SETTINGS_FROM_ANSWER_SQL_def split: option.splits)

lemma answer_frame [simp]:
  "d_hosts (ANSWER_HOST_ORDER_SQL i now a d) = d_hosts d" "d_enrollments (ANSWER_HOST_ORDER_SQL i now a d) = d_enrollments d"
  "distinct (open_keys (d_host_orders d)) \<Longrightarrow> distinct (open_keys (d_host_orders (ANSWER_HOST_ORDER_SQL i now a d)))"
  using answering.keeps_unique by (simp_all add: ANSWER_HOST_ORDER_SQL_def)

lemma takeAnswer_step:
  "hosts_evolve (d_hosts (snd s)) (d_hosts (snd (takeAnswer i owner now s a)))
    \<and> (distinct (open_keys (d_host_orders (snd s))) \<longrightarrow> distinct (open_keys (d_host_orders (snd (takeAnswer i owner now s a)))))
    \<and> d_enrollments (snd (takeAnswer i owner now s a)) = d_enrollments (snd s)"
proof -
  define d2 where "d2 = foldl (\<lambda>y x. add_event (HostEvent (if an_outcome a = OutDone then EvOk else EvWarn) i owner None (ho_kind x) []) y)
        (ANSWER_HOST_ORDER_SQL i now a (snd s))
        (filter (\<lambda>x. ho_id x = an_id a \<and> ho_host x = i \<and> ho_state x = outcome_state (an_outcome a) \<and> ho_answered_at x = Some now)
          (d_host_orders (ANSWER_HOST_ORDER_SQL i now a (snd s))))"
  have eq: "snd (takeAnswer i owner now s a) = SETTINGS_FROM_ANSWER_SQL i now (an_id a) d2"
    unfolding d2_def by (simp only: takeAnswer_def Let_def snd_conv)
  have "d_hosts d2 = d_hosts (snd s)" "d_enrollments d2 = d_enrollments (snd s)"
    "d_host_orders d2 = d_host_orders (ANSWER_HOST_ORDER_SQL i now a (snd s))"
    by (simp_all only: d2_def add_events_frame answer_frame)
  then show ?thesis unfolding eq using settings_frame(3) [of d2 i now "an_id a"] answer_frame(3) by simp
qed

lemma takeAnswers_step:
  "hosts_evolve (d_hosts d) (d_hosts (snd (takeAnswers i owner now as d)))
    \<and> (distinct (open_keys (d_host_orders d)) \<longrightarrow> distinct (open_keys (d_host_orders (snd (takeAnswers i owner now as d)))))
    \<and> d_enrollments (snd (takeAnswers i owner now as d)) = d_enrollments d"
proof -
  have "hosts_evolve (d_hosts (snd s)) (d_hosts (snd (foldl (takeAnswer i owner now) s as)))
    \<and> (distinct (open_keys (d_host_orders (snd s))) \<longrightarrow> distinct (open_keys (d_host_orders (snd (foldl (takeAnswer i owner now) s as)))))
    \<and> d_enrollments (snd (foldl (takeAnswer i owner now) s as)) = d_enrollments (snd s)" for s
  proof (induction as arbitrary: s)
    case (Cons a as)
    from Cons [of "takeAnswer i owner now s a"] takeAnswer_step [of s i owner now a]
    show ?case by (auto intro: hosts_evolve_trans)
  qed simp
  from this [of "(0, d)"] show ?thesis by (simp add: takeAnswers_def)
qed

lemma step_if: "tables_step d (snd x) \<Longrightarrow> tables_step d (snd y) \<Longrightarrow> tables_step d (snd (if c then x else y))"
  by simp

lemma report_step: "tables_step d (snd (handleHostReport jp jt rs at' now body h d))"
proof (cases "jp body")
  case (Some j)
  have answered: "tables_step d (snd (case takeAnswers i owner now as d' of (n, d4) \<Rightarrow> (g n, d4)))"
    if "hosts_evolve (d_hosts d) (d_hosts d')" "d_host_orders d' = d_host_orders d" "d_enrollments d' = d_enrollments d" for i owner as d' g
    using takeAnswers_step [of d' i owner now as] that hosts_evolve_trans by (auto simp: tables_step_def case_prod_beta)
  have frame: "d_hosts (if c then add_event e x else x) = d_hosts x" "d_host_orders (if c then add_event e x else x) = d_host_orders x"
    "d_enrollments (if c then add_event e x else x) = d_enrollments x" for c e x
    by simp_all
  have put: "d_hosts (d\<lparr>d_hosts := hs\<rparr>) = hs" "d_host_orders (d\<lparr>d_hosts := hs\<rparr>) = d_host_orders d" "d_enrollments (d\<lparr>d_hosts := hs\<rparr>) = d_enrollments d" for hs
    by simp_all
  show ?thesis
  proof (cases j)
    case (JObj kvs)
    show ?thesis
      unfolding handleHostReport_def Some JObj option.case json.case Let_def
      by (intro step_if) (simp_all only: snd_conv tables_step_refl split: sum.split,
          intro conjI allI impI step_if answered, simp_all only: snd_conv tables_step_refl frame put reporting.evolves)
  qed (use Some in \<open>simp_all add: handleHostReport_def\<close>)
qed (simp add: handleHostReport_def)

lemma confirm_step:
  assumes "list_all host_ok (d_hosts d)"
  shows "tables_step d (snd (handleConfirmHost short now p i d))"
proof -
  have "hosts_evolve (d_hosts d) (sql_update (\<lambda>x. hr_id x = i \<and> hr_status x = ''pending-owner'' \<and> roleFor d (hr_owner_login x))
      (\<lambda>x. x\<lparr>hr_status := ''active'', hr_confirmed_at := Some now, hr_worker_id := Some w\<rparr>) (d_hosts d))" for w
    by (rule confirm_evolves) (use assms in \<open>simp add: list_all_iff\<close>)
  then show ?thesis
    by (simp add: handleConfirmHost_def Let_def tables_step_def split: option.splits)
qed

lemma mint_step:
  assumes "hash \<notin> he_token_hash ` set (d_enrollments d)"
  shows "tables_step d (snd (handleMintEnrollment ok hash now p d))"
  using assms by (simp add: handleMintEnrollment_def Let_def tables_step_def tokens_evolve_def split: option.splits)

text \<open>Enrolling: the tables as a door leaves them, and on success one host more, with an id and a key no host has.\<close>

lemma enroll_cases:
  obtains "snd (handleEnroll verify hashOf jp jt newId now body d) = d" "\<exists>e. fst (handleEnroll verify hashOf jp jt newId now body d) = Inl e"
  | token pubkey f c e where "fst (handleEnroll verify hashOf jp jt newId now body d) = Inr newId"
      "enrollRequest verify jt body (jp body) = Inr (token, pubkey, f, c)"
      "find (\<lambda>e. he_token_hash e = hashOf token) (d_enrollments d) = Some e" "he_used_at e = None" "he_expires_at e > now"
      "roleFor d (he_login e)" "githubIdOf d (he_login e) = Some (he_github_id e)" "belowMinimum c MIN_HOST = None"
      "\<not> list_ex (\<lambda>h. hr_pubkey h = pubkey) (d_hosts d)"
      "snd (handleEnroll verify hashOf jp jt newId now body d) =
         d\<lparr>d_enrollments := sql_update (burnable (hashOf token) now d) (\<lambda>x. x\<lparr>he_used_at := Some now\<rparr>) (d_enrollments d),
           d_hosts := enrolledHost newId e pubkey f c now # d_hosts d\<rparr>"
proof (cases "enrollRequest verify jt body (jp body)")
  case (Inl e)
  then show thesis using that(1) by (simp add: handleEnroll_def)
next
  case (Inr q)
  obtain token pubkey f c where q: "q = (token, pubkey, f, c)" by (cases q)
  note head = Inr [unfolded q]
  show thesis
  proof (cases "find (\<lambda>e. he_token_hash e = hashOf token) (d_enrollments d)")
    case None
    then show thesis using that(1) head by (simp add: handleEnroll_def)
  next
    case (Some e)
    show thesis
    proof (cases "he_used_at e = None \<and> he_expires_at e > now \<and> roleFor d (he_login e) \<and> githubIdOf d (he_login e) = Some (he_github_id e)
        \<and> belowMinimum c MIN_HOST = None \<and> \<not> list_ex (\<lambda>h. hr_pubkey h = pubkey) (d_hosts d) \<and> list_ex (burnable (hashOf token) now d) (d_enrollments d)")
      case True
      then show thesis using that(2) head Some by (simp add: handleEnroll_def)
    next
      case False
      show thesis
      proof (rule that(1))
        show "snd (handleEnroll verify hashOf jp jt newId now body d) = d"
          using head Some False by (simp add: handleEnroll_def not_le split: option.split) auto
        show "\<exists>e. fst (handleEnroll verify hashOf jp jt newId now body d) = Inl e"
          using head Some False by (simp add: handleEnroll_def not_le split: option.split) auto
      qed
    qed
  qed
qed

subsection \<open>The doors as steps\<close>

definition host_life :: "host_row \<Rightarrow> string \<times> string \<times> int \<times> login \<times> string \<times> string option" where
  "host_life h = (hr_id h, hr_pubkey h, hr_owner_github_id h, hr_owner_login h, hr_status h, hr_worker_id h)"

text \<open>Each request is a step; the row \<open>h\<close> a signed request read may be stale by the time it writes. Ids and tokens the pool
  draws are fresh. \<open>Elsewhere\<close> is any other part of the pool: it may write a host's row (a reservation, a sign of
  life), not its life.\<close>

inductive host_step :: "db \<Rightarrow> db \<Rightarrow> bool" where
  Mint: "hash \<notin> he_token_hash ` set (d_enrollments d) \<Longrightarrow> host_step d (snd (handleMintEnrollment may hash now p d))"
| Enroll: "newId \<notin> hr_id ` set (d_hosts d) \<Longrightarrow> host_step d (snd (handleEnroll verify hashOf jp jt newId now body d))"
| Confirm: "host_step d (snd (handleConfirmHost short now p i d))"
| Token: "host_step d (snd (handleHostToken hash now h d))"
| Report: "host_step d (snd (handleHostReport jp jt rs at' now body h d))"
| State: "host_step d (snd (handleHostState now h d))"
| Diagnostics: "host_step d (snd (handleHostDiagnostics jp now body h d))"
| SealKey: "host_step d (snd (handleSealKeyConfirm now p i d))"
| Order: "host_step d (snd (handleHostOrder jp jt rs newId now p i d))"
| Suspend: "host_step d (snd (handleSuspendHost fresh now p i d))"
| RemoveForCause: "host_step d (snd (handleRemoveForCause fresh now p l d))"
| Resume: "host_step d (snd (handleResumeHost now p i d))"
| Retire: "host_step d (snd (handleRetireHost now p i d))"
| Cap: "host_step d (snd (handleCapHost now p i d))"
| StopOwners: "host_step d (snd (stopHostsOfRemovedOwners now d))"
| ResumeOwner: "host_step d (snd (handleResumeOwner p l d))"
| Prune: "host_step d (snd (pruneHosts now d))"
| Elsewhere: "map host_life (d_hosts d') = map host_life (d_hosts d) \<Longrightarrow> d_host_orders d' = d_host_orders d
    \<Longrightarrow> d_enrollments d' = d_enrollments d \<Longrightarrow> host_step d d'"

inductive host_run :: "db \<Rightarrow> db \<Rightarrow> bool" where
  Here: "host_run d d"
| Then: "host_run d d' \<Longrightarrow> host_step d' d'' \<Longrightarrow> host_run d d''"

inductive_cases host_stepE: "host_step d d'"

definition host_inv :: "db \<Rightarrow> bool" where
  "host_inv d \<longleftrightarrow> distinct (map hr_id (d_hosts d)) \<and> distinct (map hr_pubkey (d_hosts d)) \<and> list_all host_ok (d_hosts d)
     \<and> distinct (open_keys (d_host_orders d)) \<and> distinct (map he_token_hash (d_enrollments d))"

definition lives_on :: "db \<Rightarrow> db \<Rightarrow> bool" where
  "lives_on d d' \<longleftrightarrow> (\<forall>h \<in> set (d_hosts d). \<exists>h' \<in> set (d_hosts d'). host_evolves h h')
     \<and> (\<forall>e \<in> set (d_enrollments d). he_used_at e \<noteq> None \<longrightarrow> e \<in> set (d_enrollments d'))"

lemma lives_on_refl [simp]: "lives_on d d"
  unfolding lives_on_def using host_evolves_refl by blast

lemma lives_on_trans: "lives_on a b \<Longrightarrow> lives_on b c \<Longrightarrow> lives_on a c"
  unfolding lives_on_def using host_evolves_trans by meson

lemma tables_step_keeps:
  assumes "tables_step d d'"
  shows "lives_on d d'" "host_inv d \<Longrightarrow> host_inv d'"
  using assms hosts_evolve_find hosts_evolve_keys hosts_evolve_ok
  by (auto simp: tables_step_def lives_on_def host_inv_def tokens_evolve_def)

lemma enroll_keeps:
  assumes "newId \<notin> hr_id ` set (d_hosts d)"
  shows "lives_on d (snd (handleEnroll verify hashOf jp jt newId now body d))
    \<and> (host_inv d \<longrightarrow> host_inv (snd (handleEnroll verify hashOf jp jt newId now body d)))"
proof (rule enroll_cases [of verify hashOf jp jt newId now body d])
  fix token pubkey f c e
  assume new: "\<not> list_ex (\<lambda>h. hr_pubkey h = pubkey) (d_hosts d)"
    and eq: "snd (handleEnroll verify hashOf jp jt newId now body d) =
       d\<lparr>d_enrollments := sql_update (burnable (hashOf token) now d) (\<lambda>x. x\<lparr>he_used_at := Some now\<rparr>) (d_enrollments d),
         d_hosts := enrolledHost newId e pubkey f c now # d_hosts d\<rparr>"
  have same: "map he_token_hash (sql_update P (\<lambda>x. x\<lparr>he_used_at := u\<rparr>) es) = map he_token_hash es" for P u es
    by (simp add: sql_update_def)
  have used: "x \<in> set (sql_update (burnable q now d) g es)" if "x \<in> set es" "he_used_at x \<noteq> None" for x q g es
    using that by (force simp: sql_update_def burnable_def)
  have row: "hr_id (enrolledHost newId e pubkey f c now) = newId" "hr_pubkey (enrolledHost newId e pubkey f c now) = pubkey"
    "host_ok (enrolledHost newId e pubkey f c now)"
    by (simp_all add: enrolledHost_def host_ok_def)
  have stays: "\<exists>h' \<in> set (d_hosts d). host_evolves h h'" if "h \<in> set (d_hosts d)" for h
    using that host_evolves_refl by blast
  show "lives_on d (snd (handleEnroll verify hashOf jp jt newId now body d))
    \<and> (host_inv d \<longrightarrow> host_inv (snd (handleEnroll verify hashOf jp jt newId now body d)))"
    unfolding eq using assms(1) new used stays by (auto simp: lives_on_def host_inv_def row same list_ex_iff)
qed simp

lemma same_life: "host_life h = host_life h' \<Longrightarrow> row_evolves h' h"
  by (simp add: host_life_def row_evolves_def host_evolves_def host_ok_def)

lemma elsewhere_step:
  assumes "map host_life (d_hosts d') = map host_life (d_hosts d)" "d_host_orders d' = d_host_orders d" "d_enrollments d' = d_enrollments d"
  shows "tables_step d d'"
proof -
  have "list_all2 (\<lambda>h h'. host_life h' = host_life h) (d_hosts d) (d_hosts d')"
    using assms(1) by (simp add: list_eq_iff_nth_eq list_all2_conv_all_nth)
  then have "hosts_evolve (d_hosts d) (d_hosts d')"
    unfolding hosts_evolve_def by (rule list_all2_mono) (rule same_life)
  with assms show ?thesis by (simp add: tables_step_def)
qed

lemma host_step_keeps:
  assumes "host_step d d'" "host_inv d"
  shows "lives_on d d' \<and> host_inv d'"
  using assms
proof (cases rule: host_step.cases)
  case (Enroll newId verify hashOf jp jt now body)
  with assms(2) enroll_keeps [of newId d] show ?thesis by simp
next
  case (Confirm short now p i)
  have "list_all host_ok (d_hosts d)" using assms(2) by (simp add: host_inv_def)
  from tables_step_keeps [OF confirm_step [OF this]] Confirm assms(2) show ?thesis by simp
qed (use assms(2) tables_step_keeps(2) [OF _ assms(2)] in \<open>simp_all add: tables_step_keeps(1) mint_step token_step report_step state_step diagnostics_step seal_step order_step
      suspend_step cause_step resume_step retire_step cap_step stop_step resumeOwner_step prune_step elsewhere_step\<close>)

lemma host_run_keeps:
  assumes "host_run d d'" "host_inv d"
  shows "lives_on d d' \<and> host_inv d'"
  using assms
proof (induction rule: host_run.induct)
  case (Then d d' d'')
  from Then.IH [OF Then.prems] host_step_keeps [OF Then.hyps(2)] show ?case using lives_on_trans by blast
qed simp

end
