(* ===== verification/Lease_Reports.thy ===== *)
theory Lease_Reports
  imports Leases
begin

text \<open>
  What the holder of a lease sends (worker/src/routes/factory.ts): who may act on a task, its heartbeat, its
  completion and its failure; and what maintainers do to one: a Stop that fences it, a cancel, a retry
  at another size. The upload of evidence and the seal of a completion are not modelled; of a
  completion, the statements that end the lease are.
\<close>

subsection \<open>Whose the task is\<close>

datatype actor = WorkerActor string | JobActor job_claims

datatype refusal =
    WrongToken int
  | NoSuchTask
  | NotYours task_status
  | OtherLease
  | Stopping
  | RevokedStop
  | MovedMeanwhile

definition workerName :: "actor \<Rightarrow> string" where
  "workerName a = (case a of WorkerActor w \<Rightarrow> w | JobActor c \<Rightarrow> jc_w c)"

definition actorGen :: "actor \<Rightarrow> string option" where
  "actorGen a = (case a of WorkerActor _ \<Rightarrow> None | JobActor c \<Rightarrow> jc_g c)"

definition owned :: "int \<Rightarrow> actor \<Rightarrow> db \<Rightarrow> refusal + task" where
  "owned i a d =
     (if (case a of JobActor c \<Rightarrow> (''task:'' @ idText i) \<notin> set (jc_s c) | WorkerActor _ \<Rightarrow> False)
      then Inl (WrongToken (case a of JobActor c \<Rightarrow> jc_t c | WorkerActor _ \<Rightarrow> 0))
      else case row_of i d of
        None \<Rightarrow> Inl NoSuchTask
      | Some t \<Rightarrow>
          if t_status t \<noteq> Leased \<or> t_lease_owner t \<noteq> Some (workerName a) then Inl (NotYours (t_status t))
          else if t_lease_gen t \<noteq> actorGen a then Inl OtherLease
          else if t_stop_order t \<noteq> None then Inl Stopping
          else Inr t)"

text \<open>\<^verbatim>\<open>LEASE_HELD\<close>: the guard of every write that ends or renews a lease.\<close>

definition LEASE_HELD :: "int \<Rightarrow> string \<Rightarrow> string option \<Rightarrow> task \<Rightarrow> bool" where
  "LEASE_HELD i who gen t \<longleftrightarrow>
     t_id t = i \<and> t_status t = Leased \<and> t_lease_owner t = Some who \<and> t_lease_gen t = gen \<and> t_stop_order t = None"

definition leaseMoved :: "int \<Rightarrow> actor \<Rightarrow> db \<Rightarrow> refusal" where
  "leaseMoved i a d = (case owned i a d of Inl r \<Rightarrow> r | Inr _ \<Rightarrow> MovedMeanwhile)"

subsection \<open>The heartbeat\<close>

text \<open>The parameters of a row as its token's scopes read them.\<close>

definition paramsOf :: "task \<Rightarrow> params" where
  "paramsOf t = (case t_review t of Some r \<Rightarrow> [(''review'', JNum (of_int r))] | None \<Rightarrow> []) @ t_params t"

definition tokenOf :: "(string \<Rightarrow> json option) \<Rightarrow> task \<Rightarrow> string \<Rightarrow> int \<Rightarrow> job_claims" where
  "tokenOf parse t who now =
     \<lparr>jc_t = t_id t, jc_k = t_kind t, jc_s = scopesFor parse (t_kind t) (t_id t) (t_trust t) (paramsOf t) (t_publish t),
      jc_e = now div 1000 + LEASE_MINUTES * 60, jc_w = who, jc_g = t_lease_gen t\<rparr>"

definition renewStatement :: "int \<Rightarrow> int \<Rightarrow> string \<Rightarrow> string option \<Rightarrow> db \<Rightarrow> task option \<times> db" where
  "renewStatement until i who gen = update_tasks (LEASE_HELD i who gen) (renewSet until)"

definition seenHolding :: "task \<Rightarrow> string \<Rightarrow> int \<Rightarrow> db \<Rightarrow> db" where
  "seenHolding t who now d =
     d\<lparr>d_workers := sql_update (\<lambda>w. w_id w = who)
         (\<lambda>w. if t_lease_gen t = None then w\<lparr>w_last_seen := now, w_current_task := Some (t_id t)\<rparr> else w\<lparr>w_last_seen := now\<rparr>)
         (d_workers d)\<rparr>"

definition handleHeartbeat ::
  "(string \<Rightarrow> json option) \<Rightarrow> release_policy \<Rightarrow> int \<Rightarrow> actor \<Rightarrow> int \<Rightarrow> db \<Rightarrow> (refusal + int \<times> job_claims) \<times> db" where
  "handleHeartbeat parse policy i a now d = (case owned i a d of
     Inl r \<Rightarrow> (Inl r, d)
   | Inr t \<Rightarrow>
       if revokedRefusal policy t then (Inl RevokedStop, d)
       else let who = workerName a; until = plusMinutes LEASE_MINUTES now
            in case renewStatement until i who (t_lease_gen t) d of
                 (None, d') \<Rightarrow> (Inl (leaseMoved i a d'), d')
               | (Some _, d') \<Rightarrow> (Inr (until, tokenOf parse t who now), seenHolding t who now d'))"

subsection \<open>The end of a lease\<close>

definition doneSet :: "int \<Rightarrow> task_status \<Rightarrow> task \<Rightarrow> task" where
  "doneSet now st t = t\<lparr>t_status := st, t_finished_at := Some now, t_lease_expires := None\<rparr>"

text \<open>A completion: a pool job and a published build are done, a build that stages waits for a decision.\<close>

definition completeStatement :: "int \<Rightarrow> task_status \<Rightarrow> int \<Rightarrow> string \<Rightarrow> string option \<Rightarrow> db \<Rightarrow> task option \<times> db" where
  "completeStatement now st i who gen = update_tasks (LEASE_HELD i who gen) (doneSet now st)"

definition workerFinished :: "string \<Rightarrow> task \<Rightarrow> bool \<Rightarrow> int \<Rightarrow> db \<Rightarrow> db" where
  "workerFinished who t failed now d =
     d\<lparr>d_workers := sql_update (\<lambda>w. w_id w = who)
         (\<lambda>w. w\<lparr>w_last_seen := now,
               w_current_task := (if t_lease_gen t = None then None else w_current_task w),
               w_failed := w_failed w + (if failed then 1 else 0), w_done := w_done w + (if failed then 0 else 1)\<rparr>) (d_workers d)\<rparr>"

subsection \<open>A failure\<close>

text \<open>The report as it is sent; \<open>f_said\<close> is its error after what looks like a secret was withheld.\<close>

record fail_report =
  f_said :: string
  f_final :: bool
  f_needs_native :: bool
  f_lost :: bool
  f_oom :: bool

record fail_decision =
  fd_oom :: bool
  fd_lost :: bool
  fd_lostSpent :: bool
  fd_needsNative :: bool
  fd_nativeRefused :: bool
  fd_refused4k :: bool
  fd_exhausted :: bool

text \<open>Whether a registration's host reports an emulated lane of the architecture on 4K pages, and whether a
  legacy registration said it emulates; \<open>host_of\<close> names a registration's host.\<close>

definition emulatedOn4k :: "(string \<Rightarrow> string option) \<Rightarrow> string \<Rightarrow> arch \<Rightarrow> db \<Rightarrow> bool" where
  "emulatedOn4k host_of who ar d = (case host_of who of
     None \<Rightarrow> False
   | Some h \<Rightarrow> (case find (\<lambda>x. hr_id x = h) (d_hosts d) of
       None \<Rightarrow> False
     | Some x \<Rightarrow> list_ex (\<lambda>l. l_arch l = ar \<and> l_mode l = Emulated \<and> l_page16k l = Some False) (hr_lanes x)))"

definition emulated :: "string \<Rightarrow> db \<Rightarrow> bool" where
  "emulated who d = (case find (\<lambda>w. w_id w = who) (d_workers d) of Some w \<Rightarrow> w_emulated w | None \<Rightarrow> False)"

definition failDecision :: "task \<Rightarrow> fail_report \<Rightarrow> bool \<Rightarrow> bool \<Rightarrow> fail_decision" where
  "failDecision t b emulatedReg on4k =
     (let hostLease = t_lease_gen t \<noteq> None;
          lost = hostLease \<and> f_lost b \<and> t_host_losses t < HOST_LOSSES_MAX;
          emulatedLane = t_lane t = Some Emulated \<or> (t_lane t = None \<and> t_lease_gen t = None \<and> emulatedReg);
          needsNative = \<not> lost \<and> f_needs_native b \<and> emulatedLane \<and> \<not> t_refused_4k t
      in \<lparr>fd_oom = hostLease \<and> f_oom b, fd_lost = lost, fd_lostSpent = hostLease \<and> f_lost b \<and> \<not> lost,
          fd_needsNative = needsNative,
          fd_nativeRefused = \<not> lost \<and> f_needs_native b \<and> (\<not> emulatedLane \<or> t_refused_4k t),
          fd_refused4k = needsNative \<and> (t_needs_native t \<or> (hostLease \<and> on4k)),
          fd_exhausted = \<not> needsNative \<and> \<not> lost \<and> (f_final b \<or> t_attempts t \<ge> t_max_attempts t)\<rparr>)"

definition failError :: "task \<Rightarrow> fail_report \<Rightarrow> fail_decision \<Rightarrow> task_error" where
  "failError t b f =
     (if fd_oom f then OutOfMemory (of_int (nvl (t_units t) 1) * res_mem_gb UNIT)
        (if t_kind t = ''build'' then Some (nvl (t_size t) 1) else None) (f_said b)
      else if fd_lostSpent f then LostSpent (f_said b) else Said (f_said b))"

text \<open>The statement of a failure; \<open>t0\<close> is the task as it was read.\<close>

definition failSet :: "fail_decision \<Rightarrow> task_error \<Rightarrow> task \<Rightarrow> int \<Rightarrow> task \<Rightarrow> task" where
  "failSet f err t0 now t =
     t\<lparr>t_status := (if fd_exhausted f then Failed else Queued),
       t_finished_at := (if fd_exhausted f then Some now else None), t_error := Some err,
       t_lease_owner := (if fd_exhausted f then t_lease_owner t0 else None), t_lease_expires := None,
       t_priority := t_priority t + 10,
       t_independent := (if fd_exhausted f then t_independent t else None),
       t_attempts := (if fd_needsNative f \<or> fd_lost f then t_attempts t - 1 else t_attempts t),
       t_pinned_to := (if fd_needsNative f then None else t_pinned_to t),
       t_needs_native := (t_needs_native t \<or> fd_needsNative f),
       t_refused_4k := (t_refused_4k t \<or> fd_refused4k f),
       t_host_losses := (if fd_lost f then t_host_losses t + 1 else t_host_losses t)\<rparr>"

definition failStatement :: "fail_decision \<Rightarrow> task_error \<Rightarrow> task \<Rightarrow> int \<Rightarrow> string \<Rightarrow> db \<Rightarrow> task option \<times> db" where
  "failStatement f err t0 now who = update_tasks (LEASE_HELD (t_id t0) who (t_lease_gen t0)) (failSet f err t0 now)"

subsection \<open>What a report teaches of a package's size\<close>

definition learnsSize :: "task \<Rightarrow> bool" where
  "learnsSize t \<longleftrightarrow> t_kind t = ''build'' \<and> t_lease_gen t \<noteq> None
     \<and> \<not> (t_trust t = ''project'' \<and> \<not> t_publish t \<and> t_review t = None)"

text \<open>Compare-and-set on the row read, three times at most.\<close>

fun moveLearned :: "nat \<Rightarrow> task \<Rightarrow> (learned \<Rightarrow> learned option) \<Rightarrow> db \<Rightarrow> db" where
  "moveLearned 0 t step d = d"
| "moveLearned (Suc n) t step d = (case find (\<lambda>p. p_name p = t_name t) (d_packages d) of
     None \<Rightarrow> d
   | Some row \<Rightarrow>
       let cur = learnedOf (p_learned row)
       in case step cur of
            None \<Rightarrow> d
          | Some nxt \<Rightarrow>
              let P = (\<lambda>p. p_name p = t_name t \<and> lr_size (p_learned p) = lr_size (p_learned row)
                        \<and> lr_lower (p_learned p) \<noteq> None \<and> lr_lower (p_learned p) = lr_lower (p_learned row)
                        \<and> lr_task (p_learned p) = lr_task (p_learned row) \<and> lr_at (p_learned p) = lr_at (p_learned row))
              in if \<not> list_ex P (d_packages d) then moveLearned n t step d
                 else let d' = d\<lparr>d_packages := sql_update P (\<lambda>p. p\<lparr>p_learned := rowOfLearned nxt\<rparr>) (d_packages d)\<rparr>
                      in if le_size nxt = le_size cur then d'
                         else add_event (SizeEvent (if le_why nxt = Some WhyOom then EvWarn else EvOk) (t_name t)
                                (nvl (le_size nxt) 1) (nvl (le_size cur) 1)) d')"

definition learnSize :: "task \<Rightarrow> (learned \<Rightarrow> learned option) \<Rightarrow> db \<Rightarrow> db" where
  "learnSize t step d = moveLearned 3 t step d"

definition learnFromPeak :: "task \<Rightarrow> rat option \<Rightarrow> int \<Rightarrow> db \<Rightarrow> db" where
  "learnFromPeak t peak now d = (case peak of
     None \<Rightarrow> d
   | Some p \<Rightarrow> if learnsSize t then learnSize t (\<lambda>cur. afterBuild cur p (t_id t) now) d else d)"

definition setDetail :: "string \<Rightarrow> (pkg_status option) \<Rightarrow> pkg_status option \<Rightarrow> pkg_detail \<Rightarrow> db \<Rightarrow> db" where
  "setDetail name to only detail d =
     d\<lparr>d_packages := sql_update (\<lambda>p. p_name p = name \<and> (case only of None \<Rightarrow> True | Some s \<Rightarrow> p_status p = s))
         (\<lambda>p. p\<lparr>p_status := nvl to (p_status p), p_detail := detail\<rparr>) (d_packages d)\<rparr>"

text \<open>What follows a failure the pool took.\<close>

definition afterFail :: "fail_decision \<Rightarrow> task_error \<Rightarrow> task \<Rightarrow> string \<Rightarrow> int \<Rightarrow> db \<Rightarrow> db" where
  "afterFail f err t who now d =
     (let review = (if t_kind t = ''build'' then t_review t else None);
          d0 = (if fd_oom f \<and> learnsSize t
                then learnSize t (\<lambda>cur. afterOom cur (nvl (t_size t) 1) (t_trust t) (review \<noteq> None) (t_id t) now) d else d);
          d1 = workerFinished who t True now d0;
          d2 = (if fd_exhausted f \<and> t_kind t = ''build'' then snd (reclaimStagingPackages [t_id t] d1) else d1);
          d3 = (if t_trust t = ''community'' \<and> fd_exhausted f
                then packageAfterFailure (t_name t) Registered (BuildFailed who err False) None d2
                else if t_trust t = ''community'' \<and> fd_needsNative f
                then setDetail (t_name t) (Some Waiting) (Some Building) (WaitsForNative (t_arch t) (t_id t)) d2
                else if review \<noteq> None \<and> fd_exhausted f
                then setDetail (t_name t) None None (ProjectBuildFailed (t_id t) who err) d2
                else if review \<noteq> None \<and> fd_needsNative f
                then setDetail (t_name t) None None (ProjectWaitsForNative (t_id t) (t_arch t)) d2
                else d2);
          d4 = (if t_kind t = ''build'' then settleTargets d3 [t_name t] else d3);
          attempts = (if fd_needsNative f \<or> fd_lost f then t_attempts t - 1 else t_attempts t)
      in add_event (TaskEvent \<lparr>ev_status = (if fd_exhausted f then EvError else EvWarn), ev_task = t_id t, ev_worker = who,
           ev_error = Some err, ev_attempts = attempts, ev_failed = fd_exhausted f\<rparr>) d4)"

datatype fail_answer = FailAnswer task_status int | RequeuedRevoked int

definition handleFail ::
  "(string \<Rightarrow> string option) \<Rightarrow> release_policy \<Rightarrow> string \<Rightarrow> int \<Rightarrow> actor \<Rightarrow> fail_report \<Rightarrow> int \<Rightarrow> db \<Rightarrow> (refusal + fail_answer) \<times> db" where
  "handleFail host_of policy pool i a b now d = (case owned i a d of
     Inl r \<Rightarrow> (Inl r, d)
   | Inr t \<Rightarrow>
       (let who = workerName a
        in if t_release t \<noteq> None \<and> isRevoked (t_release t) policy
           then (case requeueRevoked t (nvl (t_release t) []) pool d of
                   (False, d') \<Rightarrow> (Inl (leaseMoved i a d'), d')
                 | (True, d') \<Rightarrow> (Inr (RequeuedRevoked (max (t_attempts t - 1) 0)), d'))
           else let f = failDecision t b (emulated who d) (emulatedOn4k host_of who (t_arch t) d);
                    err = failError t b f
                in case failStatement f err t now who d of
                     (None, d') \<Rightarrow> (Inl (leaseMoved i a d'), d')
                   | (Some _, d') \<Rightarrow>
                       (Inr (FailAnswer (if fd_exhausted f then Failed else Queued)
                          (if fd_needsNative f \<or> fd_lost f then t_attempts t - 1 else t_attempts t)),
                        afterFail f err t who now d')))"

subsection \<open>A Stop, a cancel, a retry\<close>

definition fenceGuard :: "int \<Rightarrow> string \<Rightarrow> task \<Rightarrow> bool" where
  "fenceGuard i who t \<longleftrightarrow> t_id t = i \<and> t_status t = Leased \<and> t_lease_owner t = Some who \<and> t_stop_order t = None"

definition fenceStatement :: "string \<Rightarrow> int \<Rightarrow> string \<Rightarrow> db \<Rightarrow> task option \<times> db" where
  "fenceStatement order i who = update_tasks (fenceGuard i who) (\<lambda>t. t\<lparr>t_stop_order := Some order\<rparr>)"

definition is_oom :: "task_error option \<Rightarrow> bool" where
  "is_oom e = (case e of Some (OutOfMemory _ _ _) \<Rightarrow> True | _ \<Rightarrow> False)"

definition cancelGuard :: "int \<Rightarrow> task \<Rightarrow> bool" where
  "cancelGuard i t \<longleftrightarrow> t_id t = i \<and> t_status t \<in> {Queued, Leased}"

definition cancelSet :: "int \<Rightarrow> task \<Rightarrow> task" where
  "cancelSet now t = t\<lparr>t_status := Cancelled, t_finished_at := Some now\<rparr>"

definition retryGuard :: "int \<Rightarrow> task \<Rightarrow> bool" where
  "retryGuard i x \<longleftrightarrow> t_id x = i \<and> t_kind x = ''build'' \<and> t_status x \<in> {Failed, Queued} \<and> is_oom (t_error x)"

definition retrySet :: "int \<Rightarrow> task \<Rightarrow> task" where
  "retrySet sz x = x\<lparr>t_status := Queued, t_finished_at := None, t_lease_owner := None, t_lease_expires := None,
     t_attempts := min (t_attempts x) (t_max_attempts x - 1), t_own_size := Some sz\<rparr>"

definition handleCancelTask :: "int \<Rightarrow> int \<Rightarrow> db \<Rightarrow> bool \<times> db" where
  "handleCancelTask i now d =
     (case update_tasks (cancelGuard i) (cancelSet now) d of
        (None, d') \<Rightarrow> (False, d')
      | (Some row, d') \<Rightarrow>
          let d1 = snd (reclaimStagingPackages [i] d')
          in (True, if t_kind row = ''build'' then settleTargets d1 [t_name row] else d1))"

datatype retry_answer = NotOom | BadSizeAsked int | TooLarge int | RetryMoved | Retried int int

text \<open>Retry at size, for a maintainer; \<open>largest\<close> is the largest size a registration alive runs.\<close>

definition handleRetryAtSize :: "int \<Rightarrow> json option \<Rightarrow> int \<Rightarrow> db \<Rightarrow> retry_answer option \<times> db" where
  "handleRetryAtSize i asked largest d = (case row_of i d of
     None \<Rightarrow> (None, d)
   | Some t \<Rightarrow>
       if t_kind t \<noteq> ''build'' \<or> \<not> is_oom (t_error t) \<or> (t_status t \<noteq> Failed \<and> t_status t \<noteq> Queued) then (Some NotOom, d)
       else let cap = (if t_trust t = ''community'' then COMMUNITY_MAX_SIZE else MAX_SIZE)
            in case jint_in asked 1 (of_int cap) of
                 None \<Rightarrow> (Some (BadSizeAsked cap), d)
               | Some sz \<Rightarrow>
                   if sz > largest then (Some (TooLarge largest), d)
                   else (case update_tasks (retryGuard i) (retrySet sz) d of
                           (None, d') \<Rightarrow> (Some RetryMoved, d')
                         | (Some back, d') \<Rightarrow>
                             let was = (case t_own_size t of Some z \<Rightarrow> z | None \<Rightarrow> nvl (t_size t) 1);
                                 d1 = (if t_trust t = ''community''
                                       then packageAfterFailure (t_name t) Waiting (QueuedAtSize sz was) None d'
                                       else if t_review t \<noteq> None then setDetail (t_name t) None None (QueuedAtSize sz was) d'
                                       else d');
                                 d2 = settleTargets d1 [t_name t]
                             in (Some (Retried sz (t_attempts back)),
                                 add_event (TaskEvent \<lparr>ev_status = EvOk, ev_task = i, ev_worker = [], ev_error = t_error back,
                                   ev_attempts = t_attempts back, ev_failed = False\<rparr>) d2)))"

end
