(* ===== verification/Lease_Machine.thy ===== *)
theory Lease_Machine
  imports Lease_Reports
begin

text \<open>
  The leases under concurrency. Requests run side by side and D1 serialises their statements, so a state of
  the machine is the database, the rows requests in flight have read (a read may be old when its write
  arrives) and the lease generations handed out; a step is one statement of one request. The laws a
  statement keeps are two locales, interpreted on every statement of \<open>Leases\<close> and \<open>Lease_Reports\<close>; the
  invariants of the reachable states follow from them.
\<close>

subsection \<open>The invariant of a row\<close>

definition row_ok :: "task \<Rightarrow> bool" where
  "row_ok t \<longleftrightarrow>
     (t_status t = Queued \<longrightarrow> t_lease_owner t = None \<and> t_lease_expires t = None \<and> t_stop_order t = None \<and> t_finished_at t = None)
     \<and> (t_status t = Leased \<longrightarrow> t_lease_owner t \<noteq> None \<and> t_lease_expires t \<noteq> None \<and> t_finished_at t = None \<and> 1 \<le> t_attempts t)
     \<and> (t_stop_order t \<noteq> None \<longrightarrow> t_status t = Leased \<or> t_status t = Cancelled)
     \<and> 0 \<le> t_attempts t \<and> 1 \<le> t_max_attempts t \<and> 0 \<le> rowUnits t \<and> 0 \<le> t_host_losses t
     \<and> (t_refused_4k t \<longrightarrow> t_needs_native t)"

text \<open>What one lease is, beside its expiry and its fence: fixed from the claim that took it.\<close>

definition lease_core where
  "lease_core t = (t_lease_owner t, t_attempts t, t_max_attempts t, t_host_losses t, t_lane t, t_size t, t_units t,
     t_release t, t_started_at t, (t_needs_native t, t_refused_4k t))"

subsection \<open>The laws of a statement\<close>

locale task_statement =
  fixes P :: "task \<Rightarrow> bool" and f :: "task \<Rightarrow> task"
  assumes keeps_key: "P t \<Longrightarrow> t_id (f t) = t_id t \<and> t_kind (f t) = t_kind t"
    and keeps_ok: "row_ok t \<Longrightarrow> P t \<Longrightarrow> row_ok (f t)"
begin

lemma ids: "map t_id (sql_update P f ts) = map t_id ts"
  by (rule sql_update_keys) (simp add: keeps_key)

lemma rows_ok: "list_all row_ok ts \<Longrightarrow> list_all row_ok (sql_update P f ts)"
  by (induction ts) (auto intro: keeps_ok)

end

text \<open>A statement that leases nothing: a row it leaves leased was leased, and is the same lease.\<close>

locale releasing_statement = task_statement +
  assumes keeps_gen: "P t \<Longrightarrow> t_lease_gen (f t) = t_lease_gen t"
    and releases: "P t \<Longrightarrow> t_status (f t) = Leased \<Longrightarrow> t_status t = Leased \<and> lease_core (f t) = lease_core t"

definition taskPart :: "string \<Rightarrow> task \<Rightarrow> int" where
  "taskPart who t = (if t_status t = Leased \<and> t_lease_owner t = Some who \<and> t_kind t \<in> set TASK_KINDS then rowUnits t else 0)"

definition jobPart :: "string \<Rightarrow> task \<Rightarrow> int" where
  "jobPart who t = (if t_status t = Leased \<and> t_lease_owner t = Some who \<and> t_kind t \<notin> set TASK_KINDS then rowUnits t else 0)"

lemma tasksHeld_sum: "tasksHeld who ts = sum_list (map (taskPart who) ts)"
  unfolding tasksHeld_def leasedBy_def by (induction ts) (auto simp: taskPart_def)

lemma jobsHeld_sum: "jobsHeld who ts = sum_list (map (jobPart who) ts)"
  unfolding jobsHeld_def leasedBy_def by (induction ts) (auto simp: jobPart_def)

lemma parts_nonneg: "row_ok t \<Longrightarrow> 0 \<le> taskPart who t \<and> 0 \<le> jobPart who t"
  by (simp add: taskPart_def jobPart_def row_ok_def)

text \<open>A row leased by a lease of its own is the same row of a capacity sum.\<close>

lemma parts_core:
  assumes "t_status u = Leased \<Longrightarrow> t_status t = Leased \<and> lease_core u = lease_core t" "t_kind u = t_kind t" "row_ok t"
  shows "taskPart who u \<le> taskPart who t \<and> jobPart who u \<le> jobPart who t"
  using assms by (auto simp: taskPart_def jobPart_def lease_core_def row_ok_def rowUnits_def)

lemma sum_sql_update_le:
  fixes g :: "'r \<Rightarrow> int"
  assumes "\<And>x. x \<in> set xs \<Longrightarrow> P x \<Longrightarrow> g (f x) \<le> g x"
  shows "sum_list (map g (sql_update P f xs)) \<le> sum_list (map g xs)"
  using assms by (induction xs) (auto intro: add_mono)

text \<open>A statement on one key raises a sum by what it adds to one row.\<close>

lemma sum_sql_update_one:
  fixes g :: "'r \<Rightarrow> int"
  assumes "distinct (map k xs)" "\<And>x. x \<in> set xs \<Longrightarrow> P x \<Longrightarrow> k x = i \<and> g (f x) \<le> g x + c" "0 \<le> c"
  shows "sum_list (map g (sql_update P f xs)) \<le> sum_list (map g xs) + c"
  using assms(1,2)
proof (induction xs)
  case (Cons x xs)
  show ?case
  proof (cases "P x")
    case True
    with Cons.prems(2) [of x] have x: "k x = i" "g (f x) \<le> g x + c" by auto
    have "\<not> P y" if "y \<in> set xs" for y
    proof
      assume "P y"
      with Cons.prems(2) [of y] that x(1) have "k y = k x" by simp
      moreover have "k y \<in> k ` set xs" using that by blast
      ultimately show False using Cons.prems(1) by simp
    qed
    then have "sql_update P f xs = xs" by (rule sql_update_none)
    with True x(2) show ?thesis by simp
  next
    case False
    with Cons.IH Cons.prems show ?thesis by simp
  qed
qed (use assms(3) in simp)

context releasing_statement
begin

lemma held_le:
  assumes "list_all row_ok ts"
  shows "tasksHeld who (sql_update P f ts) \<le> tasksHeld who ts" "jobsHeld who (sql_update P f ts) \<le> jobsHeld who ts"
proof -
  have part: "taskPart who (f t) \<le> taskPart who t \<and> jobPart who (f t) \<le> jobPart who t" if "t \<in> set ts" "P t" for t
    by (rule parts_core) (use that assms keeps_key releases in \<open>auto simp: list_all_iff\<close>)
  show "tasksHeld who (sql_update P f ts) \<le> tasksHeld who ts"
    unfolding tasksHeld_sum by (rule sum_sql_update_le) (simp add: part)
  show "jobsHeld who (sql_update P f ts) \<le> jobsHeld who ts"
    unfolding jobsHeld_sum by (rule sum_sql_update_le) (simp add: part)
qed

end

subsection \<open>The statements keep the laws\<close>

lemmas statement_defs =
  requeueGuard_def requeueSet_def revokedGuard_def revokedSet_def lostSet_def missedGuard_def replayGuard_def renewSet_def
  LEASE_HELD_def doneSet_def failSet_def fenceGuard_def Let_def rowUnits_def

interpretation requeue: releasing_statement "requeueGuard i owner stop eb" "requeueSet now err" for i owner stop eb now err
  by unfold_locales (auto simp: row_ok_def statement_defs)

interpretation revoked: releasing_statement "revokedGuard i owner gen" "revokedSet err" for i owner gen err
  by unfold_locales (auto simp: row_ok_def statement_defs)

interpretation lost: releasing_statement "revokedGuard i owner gen" "lostSet e1 e2 now" for i owner gen e1 e2 now
  by unfold_locales (auto simp: row_ok_def statement_defs)

interpretation missed: releasing_statement "missedGuard i owner gen" "\<lambda>x. x\<lparr>t_lease_missed := m\<rparr>" for i owner gen m
  by unfold_locales (auto simp: row_ok_def statement_defs lease_core_def)

interpretation replay: releasing_statement "replayGuard owner claim" "renewSet until" for owner claim until
  by unfold_locales (auto simp: row_ok_def statement_defs lease_core_def)

interpretation renew: releasing_statement "LEASE_HELD i who gen" "renewSet until" for i who gen until
  by unfold_locales (auto simp: row_ok_def statement_defs lease_core_def)

interpretation fence: releasing_statement "fenceGuard i who" "\<lambda>t. t\<lparr>t_stop_order := Some order\<rparr>" for i who order
  by unfold_locales (auto simp: row_ok_def statement_defs lease_core_def)

interpretation completed: releasing_statement "LEASE_HELD i who gen" "doneSet now (if staged then Staged else Done)" for i who gen now staged
  by unfold_locales (auto simp: row_ok_def statement_defs split: if_splits)

lemma failDecision_refused: "fd_refused4k (failDecision t b e o4) \<Longrightarrow> fd_needsNative (failDecision t b e o4)"
  by (simp add: failDecision_def Let_def)

interpretation fail: releasing_statement "LEASE_HELD i who gen" "failSet (failDecision t0 b e o4) err t0 now"
  for i who gen t0 b e o4 err now
  by unfold_locales (auto simp: row_ok_def statement_defs dest: failDecision_refused)

interpretation cancel: releasing_statement "cancelGuard i" "cancelSet now" for i now
  by unfold_locales (auto simp: row_ok_def statement_defs cancelGuard_def cancelSet_def)

interpretation retry: releasing_statement "retryGuard i" "retrySet sz" for i sz
  by unfold_locales (auto simp: row_ok_def statement_defs retryGuard_def retrySet_def)

interpretation lease: task_statement
  "\<lambda>t. t_id t = ch_id c \<and> t_status t = Queued \<and> 0 \<le> ch_units c \<and> G" "lease_set k c gen now" for c G k gen now
  by unfold_locales (auto simp: row_ok_def lease_set_def rowUnits_def)

subsection \<open>The machine\<close>

record machine =
  mc_db :: db
  mc_snaps :: "task set"
  mc_gens :: "string set"

abbreviation mc_tasks :: "machine \<Rightarrow> task list" where
  "mc_tasks s \<equiv> d_tasks (mc_db s)"

definition run :: "(task \<Rightarrow> bool) \<Rightarrow> (task \<Rightarrow> task) \<Rightarrow> machine \<Rightarrow> machine" where
  "run P f s = s\<lparr>mc_db := snd (update_tasks P f (mc_db s))\<rparr>"

text \<open>
  One step of one request, on a fleet whose registrations are hosts or not (\<open>is_host\<close>), each claiming with at
  most \<open>U\<close> units, under the rules \<open>r\<close>: a row read; a claim's lease, replay or fence that ends; a heartbeat,
  a completion, a failure; the scheduler's requeue of a lease it read as expired; a reconciliation's count,
  loss or revocation; a Stop, a cancel, a retry; a new task; and anything that leaves the tasks alone.
\<close>

inductive step :: "(string \<Rightarrow> bool) \<Rightarrow> (string \<Rightarrow> int) \<Rightarrow> rules \<Rightarrow> machine \<Rightarrow> machine \<Rightarrow> bool"
  for is_host U r where
  Read: "t \<in> set (mc_tasks s) \<Longrightarrow> step is_host U r s (s\<lparr>mc_snaps := insert t (mc_snaps s)\<rparr>)"
| Lease: "gen \<notin> mc_gens s \<Longrightarrow> k_units k \<le> U (k_workerId k) \<Longrightarrow> (k_host k \<noteq> None) = is_host (k_workerId k)
    \<Longrightarrow> 0 \<le> ch_units c \<Longrightarrow> \<forall>t \<in> set (mc_tasks s). t_id t = ch_id c \<longrightarrow> t_kind t = kind
    \<Longrightarrow> step is_host U r s (s\<lparr>mc_db := snd (leaseStatement k r kind c gen now (mc_db s)), mc_gens := insert gen (mc_gens s)\<rparr>)"
| Cron: "t \<in> mc_snaps s \<Longrightarrow> t_lease_owner t = Some owner
    \<Longrightarrow> step is_host U r s (run (requeueGuard (t_id t) owner (t_stop_order t) (Some now)) (requeueSet now err) s)"
| FenceEnd: "step is_host U r s (run (requeueGuard i owner (Some order) None) (requeueSet now err) s)"
| Revoked: "t \<in> mc_snaps s \<Longrightarrow> t_lease_owner t = Some owner
    \<Longrightarrow> step is_host U r s (run (revokedGuard (t_id t) owner (t_lease_gen t)) (revokedSet err) s)"
| Lost: "t \<in> mc_snaps s \<Longrightarrow> t_lease_owner t = Some owner \<Longrightarrow> t_lease_gen t = Some gen
    \<Longrightarrow> step is_host U r s (run (revokedGuard (t_id t) owner (Some gen)) (lostSet (LostByHost owner True) (LostByHost owner False) now) s)"
| Missed: "t \<in> mc_snaps s \<Longrightarrow> t_lease_owner t = Some owner
    \<Longrightarrow> step is_host U r s (run (missedGuard (t_id t) owner (t_lease_gen t)) (\<lambda>x. x\<lparr>t_lease_missed := m\<rparr>) s)"
| Replay: "step is_host U r s (run (replayGuard owner claim) (renewSet until) s)"
| Renew: "t \<in> mc_snaps s \<Longrightarrow> step is_host U r s (run (LEASE_HELD (t_id t) who (t_lease_gen t)) (renewSet until) s)"
| Complete: "t \<in> mc_snaps s
    \<Longrightarrow> step is_host U r s (run (LEASE_HELD (t_id t) who (t_lease_gen t)) (doneSet now (if staged then Staged else Done)) s)"
| Fail: "t \<in> mc_snaps s
    \<Longrightarrow> step is_host U r s (run (LEASE_HELD (t_id t) who (t_lease_gen t)) (failSet (failDecision t b e o4) err t now) s)"
| Fence: "step is_host U r s (run (fenceGuard i who) (\<lambda>t. t\<lparr>t_stop_order := Some order\<rparr>) s)"
| Cancel: "step is_host U r s (run (cancelGuard i) (cancelSet now) s)"
| Retry: "step is_host U r s (run (retryGuard i) (retrySet sz) s)"
| Enqueue: "row_ok t \<Longrightarrow> t_status t = Queued \<Longrightarrow> t_lease_gen t = None \<Longrightarrow> t_id t \<notin> t_id ` set (mc_tasks s)
    \<Longrightarrow> step is_host U r s (s\<lparr>mc_db := (mc_db s)\<lparr>d_tasks := mc_tasks s @ [t]\<rparr>\<rparr>)"
| Other: "d_tasks d = mc_tasks s \<Longrightarrow> step is_host U r s (s\<lparr>mc_db := d\<rparr>)"

inductive_cases stepE: "step is_host U r s s'"

inductive reachable :: "(string \<Rightarrow> bool) \<Rightarrow> (string \<Rightarrow> int) \<Rightarrow> rules \<Rightarrow> machine \<Rightarrow> bool"
  for is_host U r where
  Start: "mc_tasks s = [] \<Longrightarrow> mc_snaps s = {} \<Longrightarrow> reachable is_host U r s"
| Step: "reachable is_host U r s \<Longrightarrow> step is_host U r s s' \<Longrightarrow> reachable is_host U r s'"

subsection \<open>The invariant of the machine\<close>

definition within_units :: "(string \<Rightarrow> bool) \<Rightarrow> (string \<Rightarrow> int) \<Rightarrow> rules \<Rightarrow> task list \<Rightarrow> bool" where
  "within_units is_host U r ts \<longleftrightarrow> (\<forall>who. is_host who \<longrightarrow>
     tasksHeld who ts + jobsHeld who ts \<le> max 0 (U who) \<and> tasksHeld who ts \<le> max 0 (U who - r_job_reserved r))"

definition gens_known :: "machine \<Rightarrow> bool" where
  "gens_known s \<longleftrightarrow> (\<forall>t \<in> set (mc_tasks s) \<union> mc_snaps s. \<forall>g. t_lease_gen t = Some g \<longrightarrow> g \<in> mc_gens s)"

text \<open>A row read under a generation is still that lease while the row carries the generation.\<close>

definition snaps_fresh :: "machine \<Rightarrow> bool" where
  "snaps_fresh s \<longleftrightarrow> (\<forall>t0 \<in> mc_snaps s. \<forall>t \<in> set (mc_tasks s).
     t_id t = t_id t0 \<and> t_status t0 = Leased \<and> t_status t = Leased \<and> t_lease_gen t0 \<noteq> None \<and> t_lease_gen t = t_lease_gen t0
       \<longrightarrow> lease_core t = lease_core t0)"

definition good :: "(string \<Rightarrow> bool) \<Rightarrow> (string \<Rightarrow> int) \<Rightarrow> rules \<Rightarrow> machine \<Rightarrow> bool" where
  "good is_host U r s \<longleftrightarrow>
     distinct (map t_id (mc_tasks s)) \<and> list_all row_ok (mc_tasks s) \<and> within_units is_host U r (mc_tasks s)
     \<and> gens_known s \<and> snaps_fresh s"

lemma mc_tasks_run [simp]:
  "mc_tasks (run P f s) = sql_update P f (mc_tasks s)" "mc_snaps (run P f s) = mc_snaps s" "mc_gens (run P f s) = mc_gens s"
  by (simp_all add: run_def update_tasks_def)

context releasing_statement
begin

lemma good_run:
  assumes "good is_host U r s"
  shows "good is_host U r (run P f s)"
proof -
  have ok: "list_all row_ok (mc_tasks s)" using assms by (simp add: good_def)
  have units: "within_units is_host U r (mc_tasks (run P f s))"
    using assms held_le [OF ok] unfolding good_def within_units_def mc_tasks_run
    by (meson add_mono order_trans)
  have gens: "gens_known (run P f s)"
    using assms unfolding good_def gens_known_def mc_tasks_run set_sql_update
    by (auto simp: keeps_gen split: if_splits) blast
  have "snaps_fresh (run P f s)"
    unfolding snaps_fresh_def mc_tasks_run set_sql_update
  proof (intro ballI impI, elim imageE conjE)
    fix t0 u t
    assume t0: "t0 \<in> mc_snaps s" and t: "t \<in> set (mc_tasks s)" and u: "u = (if P t then f t else t)"
      and h: "t_id u = t_id t0" "t_status t0 = Leased" "t_status u = Leased" "t_lease_gen t0 \<noteq> None" "t_lease_gen u = t_lease_gen t0"
    have "t_status t = Leased \<and> lease_core u = lease_core t \<and> t_id u = t_id t \<and> t_lease_gen u = t_lease_gen t"
      using u h(3) releases keeps_key keeps_gen by (cases "P t") auto
    then show "lease_core u = lease_core t0"
      using assms t0 t h unfolding good_def snaps_fresh_def by simp
  qed
  then show ?thesis using assms units gens by (simp add: good_def ids rows_ok)
qed

end

text \<open>The claim's lease: the units within the count, a generation of its own.\<close>

lemma snd_leaseStatement:
  "d_tasks (snd (leaseStatement k r kind c gen now d)) =
     sql_update (\<lambda>t. t_id t = ch_id c \<and> t_status t = Queued \<and> leaseGuard k r kind (ch_units c) now d) (lease_set k c gen now) (d_tasks d)"
  by (simp add: leaseStatement_def update_tasks_def)

lemma lease_parts:
  assumes "t_status t = Queued" "0 \<le> ch_units c"
  shows "taskPart who (lease_set k c gen now t) =
      taskPart who t + (if who = k_workerId k \<and> t_kind t \<in> set TASK_KINDS then ch_units c else 0)"
    "jobPart who (lease_set k c gen now t) =
      jobPart who t + (if who = k_workerId k \<and> t_kind t \<notin> set TASK_KINDS then ch_units c else 0)"
  using assms by (auto simp: taskPart_def jobPart_def lease_set_def rowUnits_def)

lemma lease_within_units:
  assumes "within_units is_host U r (d_tasks d)" "distinct (map t_id (d_tasks d))" "list_all row_ok (d_tasks d)"
    and "k_units k \<le> U (k_workerId k)" "(k_host k \<noteq> None) = is_host (k_workerId k)" "0 \<le> ch_units c"
    and kind: "\<forall>t \<in> set (d_tasks d). t_id t = ch_id c \<longrightarrow> t_kind t = kind"
  shows "within_units is_host U r (d_tasks (snd (leaseStatement k r kind c gen now d)))"
proof (cases "leaseGuard k r kind (ch_units c) now d")
  case False
  then show ?thesis using assms(1) by (simp add: snd_leaseStatement sql_update_def)
next
  case True
  let ?P = "\<lambda>t. t_id t = ch_id c \<and> t_status t = Queued" and ?ts = "d_tasks d" and ?w = "k_workerId k"
  let ?ts' = "sql_update ?P (lease_set k c gen now) ?ts"
  have eq: "d_tasks (snd (leaseStatement k r kind c gen now d)) = ?ts'" using True by (simp add: snd_leaseStatement)
  have T: "tasksHeld who ?ts' \<le> tasksHeld who ?ts + (if who = ?w \<and> kind \<in> set TASK_KINDS then ch_units c else 0)" for who
    unfolding tasksHeld_sum
    by (rule sum_sql_update_one [where k = t_id and i = "ch_id c", OF assms(2)]) (use assms(6) kind lease_parts(1) in auto)
  have J: "jobsHeld who ?ts' \<le> jobsHeld who ?ts + (if who = ?w \<and> kind \<notin> set TASK_KINDS then ch_units c else 0)" for who
    unfolding jobsHeld_sum
    by (rule sum_sql_update_one [where k = t_id and i = "ch_id c", OF assms(2)]) (use assms(6) kind lease_parts(2) in auto)
  show ?thesis
    unfolding within_units_def eq
  proof (intro allI impI)
    fix who assume w: "is_host who"
    have old: "tasksHeld who ?ts + jobsHeld who ?ts \<le> max 0 (U who)" "tasksHeld who ?ts \<le> max 0 (U who - r_job_reserved r)"
      using assms(1) w by (auto simp: within_units_def)
    show "tasksHeld who ?ts' + jobsHeld who ?ts' \<le> max 0 (U who) \<and> tasksHeld who ?ts' \<le> max 0 (U who - r_job_reserved r)"
    proof (cases "who = ?w")
      case False
      then show ?thesis using old T [of who] J [of who] by simp
    next
      case True
      then have g: "unitsGuard k r kind (ch_units c) ?ts"
        using \<open>leaseGuard k r kind (ch_units c) now d\<close> assms(5) w by (auto simp: leaseGuard_def split: option.splits)
      show ?thesis
        using g old T [of who] J [of who] assms(4) True
        by (auto simp: unitsGuard_def Let_def max_def split: if_splits)
    qed
  qed
qed

lemma lease_good:
  assumes "good is_host U r s" "gen \<notin> mc_gens s" "k_units k \<le> U (k_workerId k)"
    and "(k_host k \<noteq> None) = is_host (k_workerId k)" "0 \<le> ch_units c"
    and "\<forall>t \<in> set (mc_tasks s). t_id t = ch_id c \<longrightarrow> t_kind t = kind"
  shows "good is_host U r (s\<lparr>mc_db := snd (leaseStatement k r kind c gen now (mc_db s)), mc_gens := insert gen (mc_gens s)\<rparr>)"
proof -
  let ?P = "\<lambda>t. t_id t = ch_id c \<and> t_status t = Queued \<and> 0 \<le> ch_units c \<and> leaseGuard k r kind (ch_units c) now (mc_db s)"
  let ?f = "lease_set k c gen now"
  have eq: "d_tasks (snd (leaseStatement k r kind c gen now (mc_db s))) = sql_update ?P ?f (mc_tasks s)"
    using assms(5) by (simp add: snd_leaseStatement)
  have known: "t_lease_gen t = Some g \<Longrightarrow> g \<in> mc_gens s" if "t \<in> set (mc_tasks s) \<union> mc_snaps s" for t g
    using assms(1) that unfolding good_def gens_known_def by blast
  have gen_f: "t_lease_gen (?f t) = Some g \<Longrightarrow> g = gen" for t g by (simp add: lease_set_def split: if_splits)
  have fresh: "lease_core u = lease_core t0"
    if t0: "t0 \<in> mc_snaps s" and u: "u \<in> set (sql_update ?P ?f (mc_tasks s))"
      and h: "t_id u = t_id t0" "t_status t0 = Leased" "t_status u = Leased" "t_lease_gen t0 \<noteq> None" "t_lease_gen u = t_lease_gen t0" for t0 u
  proof -
    from u obtain t where t: "t \<in> set (mc_tasks s)" "u = (if ?P t then ?f t else t)" by (auto simp: set_sql_update)
    have "\<not> ?P t"
      using gen_f [of t] h(4,5) t(2) known [of t0] t0 assms(2) by (cases "?P t") auto
    with t(2) have ut: "u = t" by (rule trans [OF _ if_not_P])
    show ?thesis using assms(1) t(1) t0 h unfolding good_def snaps_fresh_def ut by blast
  qed
  have "gens_known (s\<lparr>mc_db := snd (leaseStatement k r kind c gen now (mc_db s)), mc_gens := insert gen (mc_gens s)\<rparr>)"
    unfolding gens_known_def
    using known gen_f by (auto simp: eq set_sql_update split: if_splits)
  moreover have "within_units is_host U r (d_tasks (snd (leaseStatement k r kind c gen now (mc_db s))))"
    by (rule lease_within_units) (use assms in \<open>auto simp: good_def\<close>)
  ultimately show ?thesis
    using assms(1) fresh by (auto simp: good_def eq lease.ids lease.rows_ok snaps_fresh_def)
qed

lemma enqueue_good:
  assumes "good is_host U r s" "row_ok t" "t_status t = Queued" "t_lease_gen t = None" "t_id t \<notin> t_id ` set (mc_tasks s)"
  shows "good is_host U r (s\<lparr>mc_db := (mc_db s)\<lparr>d_tasks := mc_tasks s @ [t]\<rparr>\<rparr>)"
  using assms
  by (auto simp: good_def within_units_def tasksHeld_def jobsHeld_def leasedBy_def gens_known_def snaps_fresh_def)

lemma read_good:
  assumes "good is_host U r s" "t \<in> set (mc_tasks s)"
  shows "good is_host U r (s\<lparr>mc_snaps := insert t (mc_snaps s)\<rparr>)"
proof -
  have "t' = t" if "t' \<in> set (mc_tasks s)" "t_id t' = t_id t" for t'
    using assms that by (auto simp: good_def distinct_map dest: inj_onD)
  then show ?thesis using assms by (auto simp: good_def gens_known_def snaps_fresh_def)
qed

lemmas run_good =
  requeue.good_run revoked.good_run lost.good_run missed.good_run replay.good_run renew.good_run completed.good_run
  fail.good_run fence.good_run cancel.good_run retry.good_run

lemma step_good: "step is_host U r s s' \<Longrightarrow> good is_host U r s \<Longrightarrow> good is_host U r s'"
proof (induction rule: step.induct)
  case (Other d s)
  then show ?case by (simp add: good_def gens_known_def snaps_fresh_def)
qed (blast intro: run_good lease_good enqueue_good read_good)+

lemma reachable_good: "reachable is_host U r s \<Longrightarrow> good is_host U r s"
proof (induction rule: reachable.induct)
  case (Start s)
  then show ?case
    by (simp add: good_def within_units_def tasksHeld_def jobsHeld_def leasedBy_def gens_known_def snaps_fresh_def)
next
  case (Step s s')
  then show ?case by (blast intro: step_good)
qed

end
