(* ===== verification/Lease_Props.thy ===== *)
theory Lease_Props
  imports Lease_Machine Selection_Props
begin

text \<open>
  What holds of the leases: the capacity of a host in every reachable state, the rows' own invariant, a
  stopped task's fence, what a generation is worth, the scheduler's requeue, the claim's own checks, the
  attempts a task is given back, and reconciliation.
\<close>

subsection \<open>Frames\<close>

lemma afterRequeue_frame [simp]:
  "d_tasks (afterRequeue t failed err stopped d) = d_tasks d"
  "d_orders (afterRequeue t failed err stopped d) = d_orders d"
  "d_hosts (afterRequeue t failed err stopped d) = d_hosts d"
  by (simp_all add: afterRequeue_def Let_def add_event_def emptyHand_def packageAfterFailure_def)

lemma update_tasks_frame [simp]:
  "d_tasks (snd (update_tasks P f d)) = sql_update P f (d_tasks d)"
  "d_orders (snd (update_tasks P f d)) = d_orders d" "d_hosts (snd (update_tasks P f d)) = d_hosts d"
  by (simp_all add: update_tasks_def)

lemma update_tasks_None:
  "fst (update_tasks P f d) = None \<Longrightarrow> sql_update P f (d_tasks d) = d_tasks d"
  using sql_returning_None [of P f "d_tasks d"]
  by (auto simp: update_tasks_def simp del: first_of_eq_None intro: sql_update_none)

lemma requeueLease_tasks:
  "d_tasks (snd (requeueLease t err so now eb d)) =
     sql_update (requeueGuard (t_id t) (nvl (t_lease_owner t) []) so eb) (requeueSet now err) (d_tasks d)"
  "d_orders (snd (requeueLease t err so now eb d)) = d_orders d"
  by (auto simp: requeueLease_def REQUEUE_SQL_def split: prod.splits option.splits) (auto simp: update_tasks_def)

subsection \<open>A small store for the witnesses\<close>

definition ex_task :: task where
  "ex_task = \<lparr>t_id = 1, t_name = ''vim'', t_arch = ''x86_64'', t_kind = ''build'', t_trust = ''community'', t_owner = Some ''bob'',
     t_publish = True, t_review = None, t_version = None, t_pkgbuild_ref = ''abc'', t_status = Queued, t_priority = 100, t_attempts = 0, t_max_attempts = 3,
     t_lease_owner = None, t_lease_expires = None, t_started_at = None, t_finished_at = None, t_error = None,
     t_stop_order = None, t_lease_gen = None, t_lane = None, t_size = None, t_units = None, t_disk_gb = None,
     t_release = None, t_claim_id = None, t_lease_missed = 0, t_host_losses = 0, t_reserved_at = None,
     t_independent = None, t_pinned_to = None, t_needs_native = False, t_refused_4k = False, t_own_size = None, t_params = []\<rparr>"

definition ex_db :: db where
  "ex_db = empty_db\<lparr>
     d_workers := [ex_worker],
     d_hosts := [ex_host_row], d_maintainers := [''ann''], d_contributors := [(''ann'', 7)]\<rparr>"

definition ex_claimer :: claimer where
  "ex_claimer = \<lparr>k_workerId = ''h1'', k_host = Some ''h_1'', k_units = 5, k_version = Some ''v1.0.8'', k_claimId = Some ''c_12345678''\<rparr>"

definition ex_choice :: choice where
  "ex_choice = \<lparr>ch_id = 1, ch_lane = Some Native, ch_size = Some 2, ch_asked = None, ch_units = 4, ch_disk_gb = Some 40,
     ch_share = False, ch_independent = None\<rparr>"

text \<open>The store with one queued build, and with the build leased to the host.\<close>

definition ex_queued :: db where
  "ex_queued = ex_db\<lparr>d_tasks := [ex_task]\<rparr>"

definition ex_leased :: db where
  "ex_leased = snd (leaseStatement ex_claimer (selectionRules 4) ''build'' ex_choice ''g_1'' 1000 ex_queued)"

abbreviation ex_hosts :: "string \<Rightarrow> bool" where "ex_hosts \<equiv> (\<lambda>w. w = ''h1'')"
abbreviation ex_units :: "string \<Rightarrow> int" where "ex_units \<equiv> (\<lambda>w. 5)"

lemma ex_leased_tasks: "d_tasks ex_leased = [lease_set ex_claimer ex_choice ''g_1'' 1000 ex_task]"
  unfolding ex_leased_def snd_leaseStatement by code_simp

lemma ex_reachable:
  "reachable ex_hosts ex_units (selectionRules 4) \<lparr>mc_db = ex_leased, mc_snaps = {}, mc_gens = {''g_1''}\<rparr>"
proof -
  let ?r = "selectionRules 4"
  let ?s0 = "\<lparr>mc_db = ex_db, mc_snaps = {}, mc_gens = {}\<rparr>" and ?s1 = "\<lparr>mc_db = ex_queued, mc_snaps = {}, mc_gens = {}\<rparr>"
  have 0: "reachable ex_hosts ex_units ?r ?s0" by (rule reachable.Start) (simp_all add: ex_db_def empty_db_def)
  have "row_ok ex_task" "t_status ex_task = Queued" "t_lease_gen ex_task = None" by code_simp+
  then have "step ex_hosts ex_units ?r ?s0 (?s0\<lparr>mc_db := (mc_db ?s0)\<lparr>d_tasks := mc_tasks ?s0 @ [ex_task]\<rparr>\<rparr>)"
    by (intro step.Enqueue) (simp_all add: ex_db_def empty_db_def)
  then have 1: "step ex_hosts ex_units ?r ?s0 ?s1" by (simp add: ex_queued_def ex_db_def empty_db_def)
  have "step ex_hosts ex_units ?r ?s1 (?s1\<lparr>mc_db := snd (leaseStatement ex_claimer ?r ''build'' ex_choice ''g_1'' 1000 (mc_db ?s1)),
      mc_gens := insert ''g_1'' (mc_gens ?s1)\<rparr>)"
    by (rule step.Lease) (simp_all add: ex_claimer_def ex_choice_def ex_queued_def ex_task_def)
  then have 2: "step ex_hosts ex_units ?r ?s1 \<lparr>mc_db = ex_leased, mc_snaps = {}, mc_gens = {''g_1''}\<rparr>"
    by (simp add: ex_leased_def)
  show ?thesis by (rule reachable.Step [OF reachable.Step [OF 0 1] 2])
qed

subsection \<open>Every reachable state\<close>

text \<open>
  C3. A host never holds more than its units. In every reachable state of the factory, whatever claims,
  reports, stops and requeues interleave and however old the rows they read, the units of the tasks
  and pool jobs leased to a host's registration are within the most it ever claimed with, and its
  builds, trials and audits leave the unit kept for pool jobs.
\<close>

theorem lease_capacity:
  assumes "reachable is_host U r s" "is_host who"
  shows "tasksHeld who (mc_tasks s) + jobsHeld who (mc_tasks s) \<le> max 0 (U who)
    \<and> tasksHeld who (mc_tasks s) \<le> max 0 (U who - r_job_reserved r)"
  using reachable_good [OF assms(1)] assms(2) by (auto simp: good_def within_units_def)

theorem lease_capacity_witness:
  "tasksHeld ''h1'' (d_tasks ex_leased) = 4 \<and> tasksHeld ''h1'' (d_tasks ex_leased) \<le> max 0 (5 - 1)"
proof -
  have "r_job_reserved (selectionRules 4) = 1" by code_simp
  moreover have "tasksHeld ''h1'' (d_tasks ex_leased) = 4" unfolding ex_leased_tasks by code_simp
  ultimately show ?thesis using lease_capacity [OF ex_reachable, of "''h1''"] by simp
qed

text \<open>
  The rows keep their shape. In every reachable state each task has its own id; a queued task carries no
  lease, no expiry, no fence and no end; a leased one has an owner, an expiry and at least one attempt
  counted; a fence is only on a leased or cancelled task; counters stay at or above zero; and a task
  a 4K-page lane refused is marked \<^verbatim>\<open>needs_native\<close> too.
\<close>

theorem rows_keep_shape:
  assumes "reachable is_host U r s"
  shows "distinct (map t_id (mc_tasks s)) \<and> (\<forall>t \<in> set (mc_tasks s). row_ok t)"
  using reachable_good [OF assms] by (simp add: good_def list_all_iff)

theorem rows_keep_shape_witness: "distinct (map t_id (d_tasks ex_leased)) \<and> list_all row_ok (d_tasks ex_leased)"
  using rows_keep_shape [OF ex_reachable] by (simp add: list_all_iff)

text \<open>
  A report acts on the very lease it was read under. When a request that read a host's lease (its row at
  the time, under generation g) gets to write, and the row still carries g, it is the same lease: same
  owner, attempt, losses, lane, size, units and release, so what was decided from the old read is what
  the current row decides; a later lease of the task, on the same host too, carries another generation
  and the write changes nothing.
\<close>

theorem generation_pins_lease:
  assumes "reachable is_host U r s" "t0 \<in> mc_snaps s" "t_status t0 = Leased" "t_lease_gen t0 \<noteq> None"
    and "t \<in> set (mc_tasks s)" "LEASE_HELD (t_id t0) who (t_lease_gen t0) t"
  shows "lease_core t = lease_core t0 \<and> failDecision t b e o4 = failDecision t0 b e o4"
proof -
  have "lease_core t = lease_core t0"
    using reachable_good [OF assms(1)] assms(2-6) unfolding good_def snaps_fresh_def LEASE_HELD_def by blast
  moreover have "t_lease_gen t = t_lease_gen t0" using assms(6) by (simp add: LEASE_HELD_def)
  ultimately show ?thesis by (simp add: lease_core_def failDecision_def)
qed

theorem generation_pins_lease_witness:
  "failDecision (lease_set ex_claimer ex_choice ''g_1'' 1000 ex_task) \<lparr>f_said = [], f_final = False, f_needs_native = False, f_lost = True, f_oom = False\<rparr> False False
   = failDecision (hd (d_tasks ex_leased)) \<lparr>f_said = [], f_final = False, f_needs_native = False, f_lost = True, f_oom = False\<rparr> False False"
proof -
  let ?t = "lease_set ex_claimer ex_choice ''g_1'' 1000 ex_task"
  let ?s = "\<lparr>mc_db = ex_leased, mc_snaps = {}, mc_gens = {''g_1''}\<rparr>"
  have tasks: "mc_tasks ?s = [?t]" by (simp add: ex_leased_tasks)
  have "step ex_hosts ex_units (selectionRules 4) ?s (?s\<lparr>mc_snaps := insert ?t (mc_snaps ?s)\<rparr>)"
    by (rule step.Read) (simp add: ex_leased_tasks)
  from reachable.Step [OF ex_reachable this]
  have r: "reachable ex_hosts ex_units (selectionRules 4) (?s\<lparr>mc_snaps := {?t}\<rparr>)" by simp
  have "t_status ?t = Leased" "t_lease_gen ?t \<noteq> None" "LEASE_HELD (t_id ?t) ''h1'' (t_lease_gen ?t) ?t"
    by code_simp+
  then show ?thesis
    using generation_pins_lease [OF r, of ?t ?t "''h1''"] by (simp add: tasks ex_leased_tasks)
qed

subsection \<open>A stopped task\<close>

definition same_fence :: "task \<Rightarrow> task \<Rightarrow> bool" where
  "same_fence t u \<longleftrightarrow> t_id u = t_id t \<and> t_status u = Leased \<and> t_lease_owner u = t_lease_owner t \<and> t_stop_order u = t_stop_order t
     \<and> t_lease_expires u = t_lease_expires t \<and> t_lease_gen u = t_lease_gen t \<and> t_attempts u = t_attempts t"

text \<open>A fence's end: its own requeue, or the task cancelled.\<close>

definition fence_ended :: "task \<Rightarrow> task \<Rightarrow> bool" where
  "fence_ended t u \<longleftrightarrow> t_id u = t_id t \<and> ((\<exists>now err. u = requeueSet now err t) \<or> t_status u = Cancelled)"

definition fence_law :: "(task \<Rightarrow> bool) \<Rightarrow> (task \<Rightarrow> task) \<Rightarrow> bool" where
  "fence_law P f \<longleftrightarrow> (\<forall>t. t_status t = Leased \<and> t_stop_order t \<noteq> None \<and> P t \<longrightarrow> same_fence t (f t) \<or> fence_ended t (f t))"

lemma fence_laws:
  "fence_law (requeueGuard i owner so eb) (requeueSet now err)"
  "fence_law (revokedGuard i owner gen) f"
  "fence_law (missedGuard i owner gen) (\<lambda>x. x\<lparr>t_lease_missed := m\<rparr>)"
  "fence_law (replayGuard owner claim) f"
  "fence_law (LEASE_HELD i who gen) f"
  "fence_law (fenceGuard i who) f"
  "fence_law (cancelGuard i) (cancelSet now)"
  "fence_law (retryGuard i) f"
  "fence_law (\<lambda>t. t_id t = j \<and> t_status t = Queued \<and> G) f"
  by (auto simp: fence_law_def same_fence_def fence_ended_def statement_defs cancelGuard_def cancelSet_def retryGuard_def
      intro!: exI)

lemma fence_run:
  assumes "fence_law P f" "t \<in> set ts" "t_status t = Leased" "t_stop_order t \<noteq> None"
  shows "\<exists>u \<in> set (sql_update P f ts). same_fence t u \<or> fence_ended t u"
proof -
  have "(if P t then f t else t) \<in> set (sql_update P f ts)" using assms(2) by (auto simp: set_sql_update)
  moreover have "same_fence t (if P t then f t else t) \<or> fence_ended t (if P t then f t else t)"
    using assms by (auto simp: fence_law_def same_fence_def)
  ultimately show ?thesis by blast
qed

lemma fence_kept: "t \<in> set ts \<Longrightarrow> t_status t = Leased \<Longrightarrow> \<exists>u \<in> set ts. same_fence t u \<or> fence_ended t u"
  by (rule bexI) (auto simp: same_fence_def)



subsection \<open>The scheduler\<close>

definition expiredNow :: "int \<Rightarrow> task \<Rightarrow> bool" where
  "expiredNow now t \<longleftrightarrow> t_status t = Leased \<and> (case t_lease_expires t of None \<Rightarrow> False | Some e \<Rightarrow> e < now)"

lemma expiredError_cong: "d_orders d' = d_orders d \<Longrightarrow> expiredError d' x = expiredError d x"
  by (cases "t_stop_order x") (simp_all add: expiredError_def Let_def)

lemma requeue_one_row:
  assumes "distinct (map t_id ts)" "t \<in> set ts" "expiredNow now t" "t_lease_owner t = Some owner"
  shows "sql_update (requeueGuard (t_id t) (nvl (t_lease_owner t) []) (t_stop_order t) (Some now)) (requeueSet now err) ts
    = map (\<lambda>x. if x = t then requeueSet now err x else x) ts"
  unfolding sql_update_def
proof (rule map_cong [OF refl])
  fix x assume "x \<in> set ts"
  then have "t_id x = t_id t \<longleftrightarrow> x = t" using assms(1,2) by (auto simp: distinct_map dest: inj_onD)
  then show "(if requeueGuard (t_id t) (nvl (t_lease_owner t) []) (t_stop_order t) (Some now) x then requeueSet now err x else x)
      = (if x = t then requeueSet now err x else x)"
    using assms(3,4) by (auto simp: requeueGuard_def expiredNow_def)
qed

lemma requeue_fold:
  assumes "distinct (map t_id (d_tasks d))" "distinct es" "set es \<subseteq> set (d_tasks d)"
    and "\<And>t. t \<in> set es \<Longrightarrow> expiredNow now t \<and> t_lease_owner t \<noteq> None"
  shows "d_tasks (foldl (\<lambda>d t. snd (requeueLease t (expiredError d t) (t_stop_order t) now (Some now) d)) d es)
    = map (\<lambda>x. if x \<in> set es then requeueSet now (expiredError d x) x else x) (d_tasks d)"
  using assms
proof (induction es arbitrary: d)
  case (Cons t es)
  from Cons.prems obtain owner where own: "t_lease_owner t = Some owner" "expiredNow now t" "t \<in> set (d_tasks d)" by auto
  let ?e = "expiredError d t" and ?d = "snd (requeueLease t (expiredError d t) (t_stop_order t) now (Some now) d)"
  have tasks: "d_tasks ?d = map (\<lambda>x. if x = t then requeueSet now ?e x else x) (d_tasks d)"
    unfolding requeueLease_tasks(1) by (rule requeue_one_row [OF Cons.prems(1) own(3,2,1)])
  have errs: "expiredError ?d x = expiredError d x" for x by (rule expiredError_cong) (rule requeueLease_tasks)
  have ids: "map t_id (d_tasks ?d) = map t_id (d_tasks d)" by (simp add: tasks requeueSet_def Let_def)
  have same: "requeueSet now ?e t \<notin> set es"
    using Cons.prems(4) [of "requeueSet now ?e t"] by (auto simp: expiredNow_def requeueSet_def Let_def split: if_splits)
  have "set es \<subseteq> set (d_tasks ?d)" using Cons.prems(2,3) by (auto simp: tasks)
  then have "d_tasks (foldl (\<lambda>d t. snd (requeueLease t (expiredError d t) (t_stop_order t) now (Some now) d)) ?d es)
      = map (\<lambda>x. if x \<in> set es then requeueSet now (expiredError ?d x) x else x) (d_tasks ?d)"
    by (intro Cons.IH) (use Cons.prems ids in auto)
  also have "\<dots> = map (\<lambda>x. if x \<in> set (t # es) then requeueSet now (expiredError d x) x else x) (d_tasks d)"
    using same Cons.prems(2) by (simp add: tasks errs comp_def)
  finally show ?case by simp
qed simp

text \<open>
  C11. The scheduler takes back what expired, and only that. After its round no lease is left past its time:
  each expired one went back to the queue behind its peers, or failed when that was its last attempt
  (keeping who held it); every other task, a lease renewed in time included, is as it was.
\<close>

theorem cron_requeues_expired:
  assumes "distinct (map t_id (d_tasks d))" "\<forall>t \<in> set (d_tasks d). row_ok t"
  shows "d_tasks (snd (requeueExpiredLeases now d))
      = map (\<lambda>t. if expiredNow now t then requeueSet now (expiredError d t) t else t) (d_tasks d)
    \<and> (\<forall>t \<in> set (d_tasks (snd (requeueExpiredLeases now d))). \<not> expiredNow now t)
    \<and> fst (requeueExpiredLeases now d) = int (length (filter (expiredNow now) (d_tasks d)))"
proof -
  have es: "expiredLeases now d = filter (expiredNow now) (d_tasks d)"
    by (simp add: expiredLeases_def expiredNow_def [abs_def])
  have "d_tasks (snd (requeueExpiredLeases now d))
      = map (\<lambda>x. if x \<in> set (filter (expiredNow now) (d_tasks d)) then requeueSet now (expiredError d x) x else x) (d_tasks d)"
    unfolding requeueExpiredLeases_def es snd_conv
    by (rule requeue_fold) (use assms in \<open>auto simp: distinct_map expiredNow_def row_ok_def intro: distinct_filter\<close>)
  then have 1: "d_tasks (snd (requeueExpiredLeases now d))
      = map (\<lambda>t. if expiredNow now t then requeueSet now (expiredError d t) t else t) (d_tasks d)"
    by (simp cong: map_cong)
  then show ?thesis
    by (auto simp: requeueExpiredLeases_def es expiredNow_def requeueSet_def Let_def split: if_splits)
qed

theorem cron_requeues_expired_witness:
  "map (\<lambda>t. (t_status t, t_priority t)) (d_tasks (snd (requeueExpiredLeases 1801001 ex_leased))) = [(Queued, 110)]
   \<and> d_tasks (snd (requeueExpiredLeases 1801000 ex_leased)) = d_tasks ex_leased"
proof -
  have ok: "distinct (map t_id (d_tasks ex_leased))" "\<forall>t \<in> set (d_tasks ex_leased). row_ok t"
    unfolding ex_leased_tasks by code_simp+
  let ?t = "lease_set ex_claimer ex_choice ''g_1'' 1000 ex_task"
  have "expiredNow 1801001 ?t" "\<not> expiredNow 1801000 ?t" by code_simp+
  moreover have "t_status (requeueSet 1801001 e ?t) = Queued \<and> t_priority (requeueSet 1801001 e ?t) = 110" for e
    by (simp add: requeueSet_def Let_def lease_set_def ex_task_def)
  ultimately show ?thesis
    unfolding cron_requeues_expired [OF ok, THEN conjunct1] unfolding ex_leased_tasks by simp
qed

subsection \<open>The claim's own checks\<close>

text \<open>The leases of a registration as selection counts them are those the statement sums.\<close>

definition hostHeld :: "rules \<Rightarrow> string \<Rightarrow> db \<Rightarrow> held list" where
  "hostHeld r who d = filter (\<lambda>l. h_by l = who) (LEASES_HELD_SQL r d)"

definition units_written :: "db \<Rightarrow> bool" where
  "units_written d \<longleftrightarrow> (\<forall>t \<in> set (d_tasks d). row_ok t \<and> (t_status t = Leased \<longrightarrow> t_units t \<noteq> None))"

lemma hostHeld_eq:
  assumes "units_written d"
  shows "hostHeld r who d = map (heldOf r) (leasedBy who (d_tasks d))"
proof -
  have "(t_status t = Leased \<and> h_by (heldOf r t) = who) = (t_status t = Leased \<and> t_lease_owner t = Some who)"
    if "t \<in> set (d_tasks d)" for t
    using assms that by (auto simp: units_written_def row_ok_def heldOf_def)
  then show ?thesis
    by (simp add: hostHeld_def LEASES_HELD_SQL_def leasedBy_def filter_map comp_def conj_commute cong: filter_cong)
qed

lemma heldOf_sums:
  assumes "\<And>t. t \<in> set ts \<Longrightarrow> h_units (heldOf r t) = rowUnits t"
  shows "sum_list (map h_units (filter (\<lambda>l. h_kind l \<in> K) (map (heldOf r) ts))) = sum_list (map (\<lambda>t. if t_kind t \<in> K then rowUnits t else 0) ts)"
    "sum_list (map h_units (filter (\<lambda>l. h_kind l \<notin> K) (map (heldOf r) ts))) = sum_list (map (\<lambda>t. if t_kind t \<in> K then 0 else rowUnits t) ts)"
proof -
  have k: "h_kind (heldOf r t) = t_kind t" for t by (simp add: heldOf_def)
  show "sum_list (map h_units (filter (\<lambda>l. h_kind l \<in> K) (map (heldOf r) ts))) = sum_list (map (\<lambda>t. if t_kind t \<in> K then rowUnits t else 0) ts)"
    using assms by (induction ts) (auto simp: k)
  show "sum_list (map h_units (filter (\<lambda>l. h_kind l \<notin> K) (map (heldOf r) ts))) = sum_list (map (\<lambda>t. if t_kind t \<in> K then 0 else rowUnits t) ts)"
    using assms by (induction ts) (auto simp: k)
qed

lemma hostHeld_units:
  assumes "units_written d"
  shows "taskUnits (hostHeld r who d) = tasksHeld who (d_tasks d)" "jobUnits (hostHeld r who d) = jobsHeld who (d_tasks d)"
proof -
  have u: "h_units (heldOf r t) = rowUnits t" if "t \<in> set (leasedBy who (d_tasks d))" for t
    using assms that by (auto simp: units_written_def leasedBy_def heldOf_def rowUnits_def split: option.splits)
  show "taskUnits (hostHeld r who d) = tasksHeld who (d_tasks d)" "jobUnits (hostHeld r who d) = jobsHeld who (d_tasks d)"
    unfolding hostHeld_eq [OF assms] taskUnits_def tasksHeld_def jobUnits_def jobsHeld_def
    by (rule heldOf_sums, rule u, assumption)+
qed

lemma jobsHeld_nonneg: "units_written d \<Longrightarrow> 0 \<le> jobsHeld who (d_tasks d)"
  unfolding jobsHeld_def units_written_def leasedBy_def
  by (intro sum_list_nonneg) (auto simp: row_ok_def)

lemma unitsGuard_roomOf:
  assumes "units_written d" "m_units m = k_units k" "0 \<le> r_job_reserved r"
  shows "unitsGuard k r kind units (d_tasks d) \<longleftrightarrow>
    units \<le> (if kind \<in> set TASK_KINDS then fst (roomOf m (hostHeld r (k_workerId k) d) r)
              else snd (roomOf m (hostHeld r (k_workerId k) d) r))"
  using hostHeld_units [OF assms(1), of r "k_workerId k"] jobsHeld_nonneg [OF assms(1), of "k_workerId k"] assms(2,3)
  by (auto simp: unitsGuard_def roomOf_def Let_def max_def)

text \<open>
  C12. The lease statement refuses what selection's view may have missed. When it leases a task to a host's
  registration, at that very moment the task is queued, the host is active and its owner a listed
  maintainer the list did not stop, no fresh report says it sleeps, and the task's units fit the room
  that selection computes from the leases now held.
\<close>

theorem lease_statement_checks:
  assumes "fst (leaseStatement k r kind c gen now d) = Some t'" "k_host k = Some h"
    and "units_written d" "m_units m = k_units k" "0 \<le> r_job_reserved r"
  shows "(\<exists>t \<in> set (d_tasks d). t_id t = ch_id c \<and> t_status t = Queued \<and> t' = lease_set k c gen now t)
    \<and> (\<exists>x \<in> set (d_hosts d). hr_id x = h \<and> hr_status x = ''active'' \<and> hr_owner_removed_at x = None
        \<and> (\<exists>login \<in> set (d_maintainers d). (login, hr_owner_github_id x) \<in> set (d_contributors d)))
    \<and> (\<forall>x \<in> set (d_hosts d). hr_id x = h \<longrightarrow> \<not> asleepNow x now)
    \<and> ch_units c \<le> (if kind \<in> set TASK_KINDS then fst (roomOf m (hostHeld r (k_workerId k) d) r)
        else snd (roomOf m (hostHeld r (k_workerId k) d) r))"
proof -
  from sql_returning_Some [OF assms(1) [unfolded leaseStatement_def update_tasks_def fst_conv]]
  obtain t where t: "t \<in> set (d_tasks d)" "t_id t = ch_id c" "t_status t = Queued" "t' = lease_set k c gen now t"
    and g: "leaseGuard k r kind (ch_units c) now d" by auto
  have h: "HOST_MAY_LEASE_SQL d h" "HOST_AWAKE_SQL d h (freshSince now)" "unitsGuard k r kind (ch_units c) (d_tasks d)"
    using g assms(2) by (simp_all add: leaseGuard_def)
  have may: "\<exists>x \<in> set (d_hosts d). hr_id x = h \<and> hr_status x = ''active'' \<and> hr_owner_removed_at x = None
        \<and> (\<exists>login \<in> set (d_maintainers d). (login, hr_owner_github_id x) \<in> set (d_contributors d))"
    using h(1) by (fastforce simp: HOST_MAY_LEASE_SQL_def OWNER_LISTED_SQL_def list_ex_iff)
  have awake: "\<forall>x \<in> set (d_hosts d). hr_id x = h \<longrightarrow> \<not> asleepNow x now"
    using h(2) by (auto simp: HOST_AWAKE_SQL_def list_ex_iff asleepNow_def freshSince_def)
  show ?thesis
    using t may awake h(3) unitsGuard_roomOf [OF assms(3-5), of kind "ch_units c"] by blast
qed

theorem lease_statement_checks_witness:
  "\<exists>x \<in> set (d_hosts ex_queued). hr_id x = ''h_1'' \<and> \<not> asleepNow x 1000
   \<and> ch_units ex_choice \<le> fst (roomOf (ex_host\<lparr>m_units := 5\<rparr>) (hostHeld (selectionRules 4) ''h1'' ex_queued) (selectionRules 4))"
proof -
  have "fst (leaseStatement ex_claimer (selectionRules 4) ''build'' ex_choice ''g_1'' 1000 ex_queued)
      = Some (lease_set ex_claimer ex_choice ''g_1'' 1000 ex_task)" by code_simp
  moreover have "units_written ex_queued" by code_simp
  moreover have "k_host ex_claimer = Some ''h_1''" "k_workerId ex_claimer = ''h1''" "m_units (ex_host\<lparr>m_units := 5\<rparr>) = k_units ex_claimer"
    "0 \<le> r_job_reserved (selectionRules 4)" "''build'' \<in> set TASK_KINDS"
    by (simp_all add: ex_claimer_def signed_defs TASK_KINDS_def)
  ultimately show ?thesis
    using lease_statement_checks [of ex_claimer "selectionRules 4" "''build''" ex_choice "''g_1''" 1000 ex_queued _ "''h_1''" "ex_host\<lparr>m_units := 5\<rparr>"]
    by auto
qed

subsection \<open>Attempts given back\<close>

text \<open>How often a task's attempt may still be given back: host losses, and the two pages of emulation.\<close>

definition giveback :: "task \<Rightarrow> int" where
  "giveback t = (HOST_LOSSES_MAX - min HOST_LOSSES_MAX (t_host_losses t)) + (if t_needs_native t then 0 else 1) + (if t_refused_4k t then 0 else 1)"

lemma moveLearned_tasks [simp]: "d_tasks (moveLearned n t sf d) = d_tasks d"
  by (induction n arbitrary: d) (auto simp: Let_def add_event_def split: option.splits)

lemma afterFail_tasks [simp]: "d_tasks (afterFail f err t who now d) = d_tasks d"
  by (simp add: afterFail_def Let_def add_event_def learnSize_def workerFinished_def packageAfterFailure_def setDetail_def)

lemma ownedD:
  assumes "owned i a d = Inr t"
  shows "row_of i d = Some t" "LEASE_HELD i (workerName a) (t_lease_gen t) t" "t \<in> set (d_tasks d)"
  using assms
  by (auto simp: owned_def LEASE_HELD_def row_of_def find_Some_iff split: option.splits if_splits actor.splits)

lemma row_of_update:
  assumes "row_of i d = Some t" "P t" "t_id (f t) = i" "\<And>x. P x \<Longrightarrow> t_id (f x) = t_id x"
  shows "row_of i (d\<lparr>d_tasks := sql_update P f (d_tasks d)\<rparr>) = Some (f t)"
proof -
  have "find (\<lambda>x. t_id x = i) ts = Some t \<Longrightarrow> find (\<lambda>x. t_id x = i) (sql_update P f ts) = Some (f t)" for ts
    using assms(2-4) by (induction ts) (auto split: if_splits)
  then show ?thesis using assms(1) by (simp add: row_of_def)
qed

lemma failSet_giveback:
  assumes "row_ok t" "u = failSet (failDecision t b e o4) err t now t"
  shows "t_attempts u = t_attempts t \<and> giveback u \<le> giveback t
    \<or> t_attempts u = t_attempts t - 1 \<and> giveback u < giveback t \<and> t_status u = Queued"
  using assms(1)
  by (auto simp: assms(2) failSet_def failDecision_def giveback_def Let_def row_ok_def HOST_LOSSES_MAX_def)

text \<open>
  A failure spends its attempt, or gives it back a bounded number of times. When the pool takes a report, the
  row's attempts either stay as counted, or drop by exactly one with the task back in the queue, and
  then what may still be given back (two host losses, one refusal of emulation on 16K pages and one on
  4K pages) is strictly less: a crash-looping host or a build that cannot start emulated never
  requeues a task for ever. The answer is the row's: failed or queued, with its attempts.
\<close>

theorem fail_gives_back_bounded:
  assumes "handleFail host_of policy pool i a b now d = (Inr (FailAnswer st n), d')" "\<forall>t \<in> set (d_tasks d). row_ok t"
  shows "\<exists>t u. row_of i d = Some t \<and> row_of i d' = Some u \<and> t_status u = st \<and> t_attempts u = n \<and> 0 \<le> giveback u
    \<and> (n = t_attempts t \<and> giveback u \<le> giveback t \<or> n = t_attempts t - 1 \<and> giveback u < giveback t \<and> st = Queued)"
proof -
  from assms(1) obtain t where t: "owned i a d = Inr t" by (auto simp: handleFail_def split: sum.splits)
  note o = ownedD [OF t]
  let ?f = "failDecision t b (emulated (workerName a) d) (emulatedOn4k host_of (workerName a) (t_arch t) d)"
  let ?err = "failError t b ?f"
  let ?P = "LEASE_HELD (t_id t) (workerName a) (t_lease_gen t)" and ?F = "failSet ?f ?err t now"
  have id: "t_id t = i" using o(2) by (simp add: LEASE_HELD_def)
  have st: "st = (if fd_exhausted ?f then Failed else Queued)" "n = (if fd_needsNative ?f \<or> fd_lost ?f then t_attempts t - 1 else t_attempts t)"
    and d': "d_tasks d' = sql_update ?P ?F (d_tasks d)"
    using assms(1) unfolding handleFail_def t failStatement_def update_tasks_def
    by (auto simp: Let_def split: if_splits option.splits prod.splits bool.splits)
  have "row_of i (d\<lparr>d_tasks := sql_update ?P ?F (d_tasks d)\<rparr>) = Some (?F t)"
    by (rule row_of_update [OF o(1)]) (use o(2) id in \<open>auto simp: LEASE_HELD_def failSet_def\<close>)
  then have row: "row_of i d' = Some (?F t)" by (simp add: row_of_def d')
  have ok: "row_ok t" using assms(2) o(3) by blast
  have u: "t_status (?F t) = st" "t_attempts (?F t) = n" by (simp_all add: st failSet_def)
  have "0 \<le> giveback (?F t)" by (simp add: giveback_def)
  then show ?thesis using o(1) row u failSet_giveback [OF ok refl, of b] by metis
qed

theorem fail_gives_back_bounded_witness:
  "\<exists>u. row_of 1 (snd (handleFail (\<lambda>_. Some ''h_1'') RELEASE_POLICY ''v1.0.8'' 1
       (JobActor \<lparr>jc_t = 1, jc_k = ''build'', jc_s = [''task:1''], jc_e = 99, jc_w = ''h1'', jc_g = Some ''g_1''\<rparr>)
       \<lparr>f_said = ''rebooted'', f_final = False, f_needs_native = False, f_lost = True, f_oom = False\<rparr> 2000 ex_leased)) = Some u
     \<and> t_status u = Queued \<and> t_attempts u = 0 \<and> 0 \<le> giveback u"
proof -
  let ?a = "JobActor \<lparr>jc_t = 1, jc_k = ''build'', jc_s = [''task:1''], jc_e = 99, jc_w = ''h1'', jc_g = Some ''g_1''\<rparr>"
  let ?b = "\<lparr>f_said = ''rebooted'', f_final = False, f_needs_native = False, f_lost = True, f_oom = False\<rparr>"
  let ?h = "handleFail (\<lambda>_. Some ''h_1'') RELEASE_POLICY ''v1.0.8'' 1 ?a ?b 2000 ex_leased"
  have "fst ?h = Inr (FailAnswer Queued 0)" by code_simp
  then have h: "?h = (Inr (FailAnswer Queued 0), snd ?h)" by (metis prod.collapse)
  have "\<forall>t \<in> set (d_tasks ex_leased). row_ok t" unfolding ex_leased_tasks by code_simp
  from fail_gives_back_bounded [OF h this] show ?thesis by blast
qed

subsection \<open>Reconciliation\<close>

text \<open>What a claim of the host says of one of its unfenced leases: how often it was missed since it was last
  listed, and whether that gives it back.\<close>

definition missedNow :: "(int \<times> string) list \<Rightarrow> string \<Rightarrow> task \<Rightarrow> int" where
  "missedNow leases gen t = (if (t_id t, gen) \<in> set leases then 0 else t_lease_missed t + 1)"

definition givenBack :: "(int \<times> string) list \<Rightarrow> int \<Rightarrow> string \<Rightarrow> task \<Rightarrow> bool" where
  "givenBack leases now gen t \<longleftrightarrow>
     (t_id t, gen) \<notin> set leases \<and> 2 \<le> missedNow leases gen t \<and> nvl (t_started_at t) now \<le> now - HOST_LEASE_GRACE_MIN * 60000"

lemma row_of_other:
  assumes "\<And>x. P x \<Longrightarrow> t_id x = j \<and> t_id (f x) = j" "j \<noteq> i"
  shows "row_of i (snd (update_tasks P f d)) = row_of i d"
proof -
  have "find (\<lambda>x. t_id x = i) (sql_update P f ts) = find (\<lambda>x. t_id x = i) ts" for ts
    using assms by (induction ts) auto
  then show ?thesis by (simp add: row_of_def)
qed

lemma row_of_afterRequeue [simp]: "row_of i (afterRequeue t failed err stopped d) = row_of i d"
  by (simp add: row_of_def)

lemma row_of_reclaim [simp]: "row_of i (snd (reclaimStagingPackages ids d)) = row_of i d"
  by (simp add: row_of_def)

lemma requeueRevoked_other: "t_id t \<noteq> i \<Longrightarrow> row_of i (snd (requeueRevoked t rel pool d)) = row_of i d"
  using row_of_other [of "revokedGuard (t_id t) (nvl (t_lease_owner t) []) (t_lease_gen t)" "t_id t" "revokedSet (revokedError rel pool)" i d]
  by (auto simp: requeueRevoked_def REVOKED_REQUEUE_SQL_def revokedGuard_def revokedSet_def Let_def split: prod.splits option.splits)

lemma lost_other: "j \<noteq> i \<Longrightarrow> row_of i (snd (LOST_LEASE_SQL j owner gen now d)) = row_of i d"
  unfolding LOST_LEASE_SQL_def by (rule row_of_other) (auto simp: revokedGuard_def lostSet_def Let_def)

lemma reconcileOne_other:
  assumes "t_id x \<noteq> i" "reconcileOne policy pool who leases now (d, n, cs) x = (d', n', cs')"
  shows "row_of i d' = row_of i d \<and> (\<exists>ys. cs' = cs @ ys \<and> (\<forall>y \<in> set ys. fst y = x))"
proof -
  have L: "row_of i (snd (LOST_LEASE_SQL (t_id x) who gen now d)) = row_of i d" for gen by (rule lost_other [OF assms(1)])
  have R: "row_of i (snd (requeueRevoked x (nvl (t_release x) []) pool d)) = row_of i d" by (rule requeueRevoked_other [OF assms(1)])
  show ?thesis
  proof (cases "t_stop_order x = None \<and> t_lease_gen x \<noteq> None")
    case False
    then show ?thesis using assms(2) by (auto simp: reconcileOne_def split: option.splits)
  next
    case True
    then obtain gen where g: "t_stop_order x = None" "t_lease_gen x = Some gen" by auto
    show ?thesis
      using assms(2) L [of gen] R
      by (auto simp: reconcileOne_def g Let_def split: if_splits prod.splits option.splits)
  qed
qed

lemma reconcileOne_kept:
  assumes "t_stop_order t = None" "t_lease_gen t = Some gen" "\<not> givenBack leases now gen t"
  shows "reconcileOne policy pool who leases now (d, n, cs) t
    = (d, n, if missedNow leases gen t \<noteq> t_lease_missed t then cs @ [(t, missedNow leases gen t)] else cs)"
  using assms by (auto simp: reconcileOne_def givenBack_def missedNow_def Let_def)

text \<open>The first pass leaves a kept lease's row alone, and counts it once.\<close>

lemma reconcile_fold:
  assumes "t_stop_order t = None" "t_lease_gen t = Some gen" "\<not> givenBack leases now gen t"
    and "\<forall>x \<in> set hs. t_id x = t_id t \<longrightarrow> x = t" "row_of (t_id t) d = Some t"
    and "foldl (reconcileOne policy pool who leases now) (d, n, cs) hs = (d', n', cs')"
  shows "row_of (t_id t) d' = Some t
    \<and> (\<exists>ys. cs' = cs @ ys \<and> (\<forall>y \<in> set ys. t_id (fst y) = t_id t \<longrightarrow> y = (t, missedNow leases gen t))
        \<and> (t \<in> set hs \<and> missedNow leases gen t \<noteq> t_lease_missed t \<longrightarrow> (t, missedNow leases gen t) \<in> set ys))"
  using assms(4-6)
proof (induction hs arbitrary: d n cs)
  case (Cons x hs)
  obtain d1 n1 cs1 where one: "reconcileOne policy pool who leases now (d, n, cs) x = (d1, n1, cs1)" by (metis prod_cases3)
  have rest: "foldl (reconcileOne policy pool who leases now) (d1, n1, cs1) hs = (d', n', cs')" using Cons.prems(3) one by simp
  show ?case
  proof (cases "x = t")
    case True
    have one': "d1 = d" "cs1 = (if missedNow leases gen t \<noteq> t_lease_missed t then cs @ [(t, missedNow leases gen t)] else cs)"
      using one reconcileOne_kept [OF assms(1-3), of policy pool who d n cs] unfolding True by auto
    from Cons.IH [OF _ _ rest] Cons.prems(1,2) one'(1)
    obtain ys where ys: "row_of (t_id t) d' = Some t" "cs' = cs1 @ ys" "\<forall>y \<in> set ys. t_id (fst y) = t_id t \<longrightarrow> y = (t, missedNow leases gen t)"
      by auto
    show ?thesis
      by (rule conjI [OF ys(1)], rule exI [of _ "(if missedNow leases gen t \<noteq> t_lease_missed t then [(t, missedNow leases gen t)] else []) @ ys"])
        (use ys(2,3) one'(2) in auto)
  next
    case False
    with Cons.prems(1) have ne: "t_id x \<noteq> t_id t" by auto
    from reconcileOne_other [OF ne one] obtain ys1 where o: "row_of (t_id t) d1 = row_of (t_id t) d" "cs1 = cs @ ys1" "\<forall>y \<in> set ys1. fst y = x" by blast
    from Cons.IH [OF _ _ rest] Cons.prems(1,2) o(1)
    obtain ys where ys: "row_of (t_id t) d' = Some t" "cs' = cs1 @ ys" "\<forall>y \<in> set ys. t_id (fst y) = t_id t \<longrightarrow> y = (t, missedNow leases gen t)"
      "t \<in> set hs \<and> missedNow leases gen t \<noteq> t_lease_missed t \<longrightarrow> (t, missedNow leases gen t) \<in> set ys"
      by auto
    show ?thesis
      by (rule conjI [OF ys(1)], rule exI [of _ "ys1 @ ys"]) (use ys(2-4) o(2,3) ne False in auto)
  qed
qed simp

lemma countMissed_fold:
  assumes "t_status t = Leased" "t_lease_owner t = Some who"
    and "\<forall>y \<in> set ys. t_id (fst y) = t_id t \<longrightarrow> y = (t, m)" "row_of (t_id t) d = Some (t\<lparr>t_lease_missed := k\<rparr>)"
  shows "row_of (t_id t) (foldl (countMissed who) d ys) = Some (t\<lparr>t_lease_missed := (if \<exists>y \<in> set ys. t_id (fst y) = t_id t then m else k)\<rparr>)"
  using assms(3,4)
proof (induction ys arbitrary: d k)
  case (Cons y ys)
  let ?P = "missedGuard (t_id (fst y)) who (t_lease_gen (fst y))" and ?f = "\<lambda>x. x\<lparr>t_lease_missed := snd y\<rparr>"
  have c: "countMissed who d y = snd (update_tasks ?P ?f d)" by (simp add: countMissed_def case_prod_beta)
  show ?case
  proof (cases "t_id (fst y) = t_id t")
    case False
    have "row_of (t_id t) (countMissed who d y) = row_of (t_id t) d"
      unfolding c by (rule row_of_other) (use False in \<open>auto simp: missedGuard_def\<close>)
    then show ?thesis using Cons False by simp
  next
    case True
    with Cons.prems(1) have y: "y = (t, m)" by auto
    have "row_of (t_id t) (d\<lparr>d_tasks := sql_update ?P ?f (d_tasks d)\<rparr>) = Some (?f (t\<lparr>t_lease_missed := k\<rparr>))"
      by (rule row_of_update [OF Cons.prems(2)]) (use assms(1,2) in \<open>auto simp: y missedGuard_def\<close>)
    then have "row_of (t_id t) (countMissed who d y) = Some (t\<lparr>t_lease_missed := m\<rparr>)"
      unfolding c by (simp add: y row_of_def)
    with Cons.IH [of "countMissed who d y" m] Cons.prems(1) True show ?thesis by simp
  qed
qed simp

text \<open>
  Reconciliation gives a lease back only after two misses. At a host's claim, an unfenced lease the claim
  lists, one not listed for the first time, or one younger than the grace keeps its row as it is but
  for the count: zero when listed, one more when not. So a lease the dispatcher holds and lists is
  never taken from it, and one lost answer costs no lease.
\<close>

theorem reconcile_keeps_lease:
  assumes "distinct (map t_id (d_tasks d))" "t \<in> set (d_tasks d)" "t_status t = Leased" "t_lease_owner t = Some who"
    and "t_stop_order t = None" "t_lease_gen t = Some gen" "\<not> givenBack leases now gen t"
  shows "row_of (t_id t) (snd (reconcileHost policy pool who leases now d)) = Some (t\<lparr>t_lease_missed := missedNow leases gen t\<rparr>)"
proof -
  let ?hs = "HOST_LEASES_SQL who d"
  obtain d1 n1 cs where fold: "foldl (reconcileOne policy pool who leases now) (d, 0, []) ?hs = (d1, n1, cs)" by (metis prod_cases3)
  have row: "row_of (t_id t) d = Some t" unfolding row_of_def by (rule find_distinct [OF assms(1,2)])
  have hs: "\<forall>x \<in> set ?hs. t_id x = t_id t \<longrightarrow> x = t"
    using assms(1,2) by (auto simp: HOST_LEASES_SQL_def leasedBy_def distinct_map dest: inj_onD)
  have "t \<in> set ?hs" using assms(2-4) by (simp add: HOST_LEASES_SQL_def leasedBy_def)
  with reconcile_fold [OF assms(5-7) hs row fold] have
    r: "row_of (t_id t) d1 = Some (t\<lparr>t_lease_missed := t_lease_missed t\<rparr>)" "\<forall>y \<in> set cs. t_id (fst y) = t_id t \<longrightarrow> y = (t, missedNow leases gen t)"
      "missedNow leases gen t \<noteq> t_lease_missed t \<Longrightarrow> (t, missedNow leases gen t) \<in> set cs" by auto
  have "snd (reconcileHost policy pool who leases now d) = foldl (countMissed who) d1 cs"
    by (simp add: reconcileHost_def fold)
  then show ?thesis
    using countMissed_fold [OF assms(3,4) r(2,1)] r(3) by force
qed

theorem reconcile_keeps_lease_witness:
  "map_option t_lease_missed (row_of 1 (snd (reconcileHost RELEASE_POLICY ''v1.0.8'' ''h1'' [(1, ''g_1'')] 900000 ex_leased))) = Some 0
   \<and> map_option t_lease_missed (row_of 1 (snd (reconcileHost RELEASE_POLICY ''v1.0.8'' ''h1'' [] 900000 ex_leased))) = Some 1"
proof -
  let ?t = "lease_set ex_claimer ex_choice ''g_1'' 1000 ex_task"
  have t: "distinct (map t_id (d_tasks ex_leased))" "?t \<in> set (d_tasks ex_leased)" "t_status ?t = Leased" "t_lease_owner ?t = Some ''h1''"
    "t_stop_order ?t = None" "t_lease_gen ?t = Some ''g_1''" "\<not> givenBack [(1, ''g_1'')] 900000 ''g_1'' ?t" "\<not> givenBack [] 900000 ''g_1'' ?t"
    unfolding ex_leased_tasks by code_simp+
  have m: "missedNow [(1, ''g_1'')] ''g_1'' ?t = 0" "missedNow [] ''g_1'' ?t = 1" "t_id ?t = 1" by code_simp+
  show ?thesis
    using reconcile_keeps_lease [OF t(1-7)] reconcile_keeps_lease [OF t(1-6) t(8)] by (simp add: m)
qed

end
