(* ===== verification/Host_Props.thy ===== *)
theory Host_Props
  imports Host_Runs Lease_Props
begin

text \<open>
  What the doors of a host's life promise: over every run a host keeps its id, its key and its owner and never leaves
  retirement; an enrollment token makes one host; a suspension fences every lease of its host in the same batch; a
  refused door writes nothing; who may do what; a setting the agent answered reads back.
\<close>

subsection \<open>Runs\<close>

lemma hostRow_unique:
  assumes "host_inv d" "h \<in> set (d_hosts d)"
  shows "hostRow (hr_id h) d = Some h"
  using assms find_distinct [of hr_id "d_hosts d" h] by (simp add: hostRow_def host_inv_def)

lemma hostRow_in: "hostRow i d = Some h \<Longrightarrow> h \<in> set (d_hosts d) \<and> hr_id h = i"
  by (auto simp: hostRow_def find_Some_iff)

text \<open>
  C14. Over every run of the doors, with any other part of the pool between them, a host the registry has stays in it
  under its id with the same public key and the same owner, its registration never changes once it has one, a
  retired host stays retired, and a host never goes back to waiting for its owner; and the registry keeps its
  shape: no two hosts share an id or a key, every status is one of the four and the active and the suspended have a
  registration, a host has at most one open order of a kind, no two enrollments share a token.
\<close>

theorem host_identity:
  assumes "host_inv d" "host_run d d'" "hostRow i d = Some h"
  shows "host_inv d' \<and> (\<exists>h'. hostRow i d' = Some h' \<and> hr_pubkey h' = hr_pubkey h \<and> hr_owner_github_id h' = hr_owner_github_id h
    \<and> (hr_worker_id h = None \<or> hr_worker_id h' = hr_worker_id h)
    \<and> (hr_status h = ''retired'' \<longrightarrow> hr_status h' = ''retired'')
    \<and> (hr_status h' = ''pending-owner'' \<longrightarrow> hr_status h = ''pending-owner''))"
proof -
  from host_run_keeps [OF assms(2,1)] have kept: "lives_on d d'" "host_inv d'" by blast+
  from hostRow_in [OF assms(3)] have h: "h \<in> set (d_hosts d)" "hr_id h = i" by blast+
  from kept(1) h(1) obtain h' where h': "h' \<in> set (d_hosts d')" "host_evolves h h'" by (auto simp: lives_on_def)
  then have "hr_id h' = i" using h(2) by (simp add: host_evolves_def)
  with hostRow_unique [OF kept(2) h'(1)] have "hostRow i d' = Some h'" by simp
  with kept(2) h'(2) show ?thesis by (auto simp: host_evolves_def)
qed

text \<open>The studio of ann, retired by ann; then bob's token is minted.\<close>

definition ex_host_pool :: db where
  "ex_host_pool = empty_db\<lparr>d_hosts := [ex_host_row], d_workers := [ex_worker], d_maintainers := [''ann'', ''bob''],
     d_contributors := [(''ann'', 7), (''bob'', 8)]\<rparr>"

definition ex_act :: "login \<Rightarrow> (string \<times> json) list \<Rightarrow> person_act" where
  "ex_act l kvs = \<lparr>pa_login = l, pa_web = True, pa_gate = True, pa_body = Some (JObj kvs), pa_passkey = Some ''k1''\<rparr>"

definition ex_retired :: db where
  "ex_retired = snd (handleRetireHost 5 (ex_act ''ann'' [(''reason'', JStr ''the machine is sold'')]) ''h_1'' ex_host_pool)"

definition ex_minted :: db where
  "ex_minted = snd (handleMintEnrollment True ''hash'' 9 (ex_act ''bob'' [(''name'', JStr ''attic'')]) ex_retired)"

lemma ex_host_pool_inv: "host_inv ex_host_pool"
  by (simp add: host_inv_def host_ok_def ex_host_pool_def ex_host_row_def empty_db_def open_keys_def)

lemma ex_retired_row: "map_option hr_status (hostRow ''h_1'' ex_retired) = Some ''retired''" "d_enrollments ex_retired = []"
  by code_simp+

theorem host_identity_witness:
  "length (d_enrollments ex_minted) = 1 \<and> map_option hr_status (hostRow ''h_1'' ex_minted) = Some ''retired''
    \<and> map_option hr_owner_github_id (hostRow ''h_1'' ex_minted) = Some 7"
proof -
  have first: "host_run ex_host_pool ex_retired"
    unfolding ex_retired_def by (rule Then [OF Here Retire])
  have second: "host_run ex_retired ex_minted"
    unfolding ex_minted_def by (rule Then [OF Here Mint]) (simp add: ex_retired_row)
  have start: "hostRow ''h_1'' ex_host_pool = Some ex_host_row"
    by (simp add: hostRow_def ex_host_pool_def ex_host_row_def)
  have owner: "hr_owner_github_id ex_host_row = 7" by (simp add: ex_host_row_def)
  from host_identity [OF ex_host_pool_inv first start] obtain h where h: "host_inv ex_retired" "hostRow ''h_1'' ex_retired = Some h" "hr_owner_github_id h = 7"
    using owner by auto
  then have "hr_status h = ''retired''" using ex_retired_row(1) by simp
  with host_identity [OF h(1) second h(2)] h(3)
  have "map_option hr_status (hostRow ''h_1'' ex_minted) = Some ''retired'' \<and> map_option hr_owner_github_id (hostRow ''h_1'' ex_minted) = Some 7" by auto
  moreover have "length (d_enrollments ex_minted) = 1" by code_simp
  ultimately show ?thesis by blast
qed

subsection \<open>A token makes one host\<close>

lemma enroll_success:
  assumes "handleEnroll verify hashOf jp jt newId now body d = (Inr i, d')"
  obtains token pubkey f c e where "enrollRequest verify jt body (jp body) = Inr (token, pubkey, f, c)" "i = newId"
    "e \<in> set (d_enrollments d)" "he_token_hash e = hashOf token" "he_used_at e = None" "he_expires_at e > now"
    "he_login e \<in> set (d_maintainers d)" "belowMinimum c MIN_HOST = None"
    "d_hosts d' = enrolledHost newId e pubkey f c now # d_hosts d" "e\<lparr>he_used_at := Some now\<rparr> \<in> set (d_enrollments d')"
proof (rule enroll_cases [of verify hashOf jp jt newId now body d])
  fix token pubkey f c e
  assume req: "enrollRequest verify jt body (jp body) = Inr (token, pubkey, f, c)"
    and e: "find (\<lambda>e. he_token_hash e = hashOf token) (d_enrollments d) = Some e" "he_used_at e = None" "he_expires_at e > now"
      "roleFor d (he_login e)" "githubIdOf d (he_login e) = Some (he_github_id e)"
    and min: "belowMinimum c MIN_HOST = None" and ok: "fst (handleEnroll verify hashOf jp jt newId now body d) = Inr newId"
    and eq: "snd (handleEnroll verify hashOf jp jt newId now body d) =
         d\<lparr>d_enrollments := sql_update (burnable (hashOf token) now d) (\<lambda>x. x\<lparr>he_used_at := Some now\<rparr>) (d_enrollments d),
           d_hosts := enrolledHost newId e pubkey f c now # d_hosts d\<rparr>"
  from e(1) have e': "e \<in> set (d_enrollments d)" "he_token_hash e = hashOf token" by (auto simp: find_Some_iff)
  then have "burnable (hashOf token) now d e" using e by (simp add: burnable_def roleFor_def)
  then have "e\<lparr>he_used_at := Some now\<rparr> \<in> set (d_enrollments d')"
    using eq assms e'(1) by (force simp: set_sql_update)
  moreover have "d_hosts d' = enrolledHost newId e pubkey f c now # d_hosts d" using eq assms by simp
  ultimately show thesis using that req e e' min assms ok by (simp add: roleFor_def)
qed (use assms in auto)

text \<open>
  C15. An enrollment that makes a host is of a live, unused token minted for a login on the maintainer list, and of a machine
  at least as large as the minimum; it makes exactly one host, which waits for the owner the token names; and after
  any run of the doors the same token makes no second one: the request is refused as used and writes nothing.
\<close>

theorem token_burned_once:
  assumes "host_inv d" "newId \<notin> hr_id ` set (d_hosts d)" "handleEnroll verify hashOf jp jt newId now body d = (Inr i, d1)"
    "enrollRequest verify jt body (jp body) = Inr (token, pubkey, f, c)"
  shows "(\<exists>e \<in> set (d_enrollments d). he_token_hash e = hashOf token \<and> he_used_at e = None \<and> now < he_expires_at e
      \<and> he_login e \<in> set (d_maintainers d) \<and> belowMinimum c MIN_HOST = None
      \<and> (\<exists>h. d_hosts d1 = h # d_hosts d \<and> hr_id h = i \<and> hr_status h = ''pending-owner'' \<and> hr_owner_login h = he_login e
          \<and> hr_owner_github_id h = he_github_id e \<and> hr_pubkey h = pubkey))
    \<and> (host_run d1 d2 \<and> enrollRequest verify2 jt body2 (jp body2) = Inr (token2, rest2) \<and> hashOf token2 = hashOf token
        \<longrightarrow> handleEnroll verify2 hashOf jp jt newId2 now2 body2 d2 = (Inl TokenUsed, d2))"
proof -
  from assms(3) obtain e where e: "i = newId" "e \<in> set (d_enrollments d)" "he_token_hash e = hashOf token" "he_used_at e = None" "he_expires_at e > now"
    "he_login e \<in> set (d_maintainers d)" "belowMinimum c MIN_HOST = None"
    "d_hosts d1 = enrolledHost newId e pubkey f c now # d_hosts d" "e\<lparr>he_used_at := Some now\<rparr> \<in> set (d_enrollments d1)"
    by (rule enroll_success) (use assms(4) in auto)
  have burnt: "handleEnroll verify2 hashOf jp jt newId2 now2 body2 d2 = (Inl TokenUsed, d2)"
    if "host_run d1 d2" "enrollRequest verify2 jt body2 (jp body2) = Inr (token2, rest2)" "hashOf token2 = hashOf token"
  proof -
    have "host_inv d1" using enroll_keeps [OF assms(2), of verify hashOf jp jt now body] assms(1,3) by simp
    from host_run_keeps [OF that(1) this] have kept: "lives_on d1 d2" "host_inv d2" by blast+
    have "e\<lparr>he_used_at := Some now\<rparr> \<in> set (d_enrollments d2)" using kept(1) e(9) by (force simp: lives_on_def)
    with kept(2) have "find (\<lambda>x. he_token_hash x = he_token_hash (e\<lparr>he_used_at := Some now\<rparr>)) (d_enrollments d2) = Some (e\<lparr>he_used_at := Some now\<rparr>)"
      by (intro find_distinct) (simp_all add: host_inv_def)
    then show ?thesis using that(2,3) e(3) by (cases rest2) (simp add: handleEnroll_def)
  qed
  have "\<exists>h. d_hosts d1 = h # d_hosts d \<and> hr_id h = i \<and> hr_status h = ''pending-owner'' \<and> hr_owner_login h = he_login e
      \<and> hr_owner_github_id h = he_github_id e \<and> hr_pubkey h = pubkey"
    using e(1,8) by (simp add: enrolledHost_def)
  with e burnt show ?thesis by blast
qed

definition ex_token :: string where "ex_token = ''ome_'' @ replicate 48 (CHR ''0'')"

definition ex_enroll :: json where
  "ex_enroll = JObj [(''token'', JStr ex_token), (''pubkey'', JStr (toB64url (replicate 32 0))), (''sig'', JStr (replicate 86 (CHR ''A''))),
     (''capacity'', ex_report), (''hostname'', JStr ''attic''), (''os'', JStr ''linux''), (''arch'', JStr ''aarch64''), (''isolation'', JStr ''vm''),
     (''agent_version'', JStr ''0.4.0''), (''page_kb'', JNum 16), (''dedicated'', JBool True)]"

definition ex_enroll_db :: db where
  "ex_enroll_db = empty_db\<lparr>d_maintainers := [''bob''], d_contributors := [(''bob'', 8)],
     d_enrollments := [\<lparr>he_token_hash = ex_token, he_login = ''bob'', he_github_id = 8, he_name = ''attic'', he_expires_at = 900000, he_used_at = None\<rparr>]\<rparr>"

definition ex_fields :: enroll_fields where
  "ex_fields = \<lparr>ef_arch = ''aarch64'', ef_isolation = ''vm'', ef_agent = ''0.4.0'', ef_dedicated = Some True\<rparr>"

lemma ex_enroll_fields:
  "jfield (Some ex_enroll) ''token'' = Some (JStr ex_token)" "jfield (Some ex_enroll) ''pubkey'' = Some (JStr (toB64url (replicate 32 0)))"
  "jfield (Some ex_enroll) ''sig'' = Some (JStr (replicate 86 (CHR ''A'')))" "jfield (Some ex_enroll) ''key_store'' = None"
  "jfield (Some ex_enroll) ''key_held'' = None" "jfield (Some ex_enroll) ''capacity'' = Some ex_report" "jfield (Some ex_enroll) ''runtime'' = None"
  "js_object (Some ex_enroll)"
  by (simp_all add: ex_enroll_def jfield_def js_object_def)

lemma ex_enroll_reads:
  "enrollRequest ex_crypto (\<lambda>_. []) [] (Some ex_enroll) = Inr (ex_token, toB64url (replicate 32 0), ex_fields, ex_capacity)"
proof -
  have "enrollFields (Some ex_enroll) = Some ex_fields" "enroll_token ex_token" "findLeak (remove_first ex_token []) = None" by code_simp+
  moreover have "list_ex (\<lambda>l. l_mode l = Native \<and> l_arch l = ef_arch ex_fields) (cp_lanes ex_capacity)"
    by (simp add: ex_capacity_def ex_fields_def)
  ultimately show ?thesis
    by (simp add: enrollRequest_def ex_enroll_fields ex_key ex_report_reads jstr_def keyStoreOf_def keyStoreFits_def keyHeldOf_def runtimeOk_def
        verifyHostSignature_def ex_signature ex_crypto_def)
qed

theorem token_burned_once_witness:
  "fst (handleEnroll ex_crypto id (\<lambda>_. Some ex_enroll) (\<lambda>_. []) ''h_2'' 1000 [] ex_enroll_db) = Inr ''h_2''
    \<and> fst (handleEnroll ex_crypto id (\<lambda>_. Some ex_enroll) (\<lambda>_. []) ''h_3'' 2000 []
        (snd (handleEnroll ex_crypto id (\<lambda>_. Some ex_enroll) (\<lambda>_. []) ''h_2'' 1000 [] ex_enroll_db))) = Inl TokenUsed"
proof -
  have inv: "host_inv ex_enroll_db" by (simp add: host_inv_def ex_enroll_db_def empty_db_def open_keys_def)
  have min: "belowMinimum ex_capacity MIN_HOST = None" by code_simp
  obtain d1 where d1: "handleEnroll ex_crypto id (\<lambda>_. Some ex_enroll) (\<lambda>_. []) ''h_2'' 1000 [] ex_enroll_db = (Inr ''h_2'', d1)"
    by (simp add: handleEnroll_def ex_enroll_reads min burnable_def roleFor_def githubIdOf_def ex_enroll_db_def empty_db_def)
  have "''h_2'' \<notin> hr_id ` set (d_hosts ex_enroll_db)" by (simp add: ex_enroll_db_def empty_db_def)
  from token_burned_once [OF inv this d1 ex_enroll_reads, of d1 ex_crypto "[]" ex_token "(toB64url (replicate 32 0), ex_fields, ex_capacity)" "''h_3''" 2000]
  have "handleEnroll ex_crypto id (\<lambda>_. Some ex_enroll) (\<lambda>_. []) ''h_3'' 2000 [] d1 = (Inl TokenUsed, d1)"
    using ex_enroll_reads Here by blast
  with d1 show ?thesis by simp
qed

subsection \<open>A suspension fences\<close>

text \<open>The order a fenced task carries: a stop of this task for the worker that holds it, issued in this act.\<close>

definition fencing :: "int \<Rightarrow> string \<Rightarrow> task \<Rightarrow> order_row \<Rightarrow> bool" where
  "fencing now w t x \<longleftrightarrow> o_worker x = w \<and> o_kind x = ''stop-task'' \<and> o_task x = Some (t_id t) \<and> o_issued_at x = now"

lemma fenceOrderOf_Some:
  assumes "x \<in> set (d_orders d)" "fencing now w t x" "t_lease_owner t = Some w"
  shows "\<exists>s. fenceOrderOf now d t = Some s \<and> (\<exists>y \<in> set (d_orders d). o_id y = s \<and> fencing now w t y)"
proof -
  let ?P = "\<lambda>x. Some (o_worker x) = t_lease_owner t \<and> o_issued_at x = now \<and> o_kind x = ''stop-task'' \<and> o_task x = Some (t_id t)"
  have "find ?P (d_orders d) \<noteq> None" using assms by (auto simp: find_None_iff fencing_def)
  then obtain y where y: "find ?P (d_orders d) = Some y" by blast
  then have "y \<in> set (d_orders d)" "?P y" by (auto simp: find_Some_iff)
  with y assms(3) show ?thesis by (auto simp: fenceOrderOf_def fencing_def)
qed

lemma fence_issues:
  assumes "t \<in> set (d_tasks d)" "leasedByAny ws t" "t_lease_owner t = Some w"
  shows "\<exists>x \<in> set (d_orders (FENCE_ORDERS_SQL ws fresh who reason now why d)). fencing now w t x"
proof -
  let ?row = "\<lambda>t. \<lparr>o_id = fresh (t_id t), o_worker = nvl (t_lease_owner t) [], o_kind = ''stop-task'', o_reason = Some reason, o_issued_by = who,
         o_via = Some ''web'', o_rule = None, o_unless = False, o_task = Some (t_id t), o_site = None, o_issued_at = now, o_expires_at = now,
         o_baseline_at_issue = None, o_state = ODone, o_delivered_at = None, o_delivered_to = None, o_baseline = None, o_accepted_at = None,
         o_answered_at = Some now, o_answered_by = Some ''pool'', o_code = None, o_detail = Some (DWords why), o_worker_detail = None\<rparr>"
  have "?row t \<in> set (d_orders (FENCE_ORDERS_SQL ws fresh who reason now why d))"
    using assms(1,2) by (simp add: FENCE_ORDERS_SQL_def)
  moreover have "fencing now w t (?row t)" using assms(3) by (simp add: fencing_def)
  ultimately show ?thesis by (rule rev_bexI)
qed

lemma suspendStatements_tasks:
  fixes fresh :: "int \<Rightarrow> string" and who reason :: string
  assumes "suspendedWorkers sel now d = [w]" "t \<in> set (d_tasks d)"
  defines "d' \<equiv> suspendStatements sel fresh who reason now d"
  shows "leasedByAny [w] t \<Longrightarrow> \<exists>x \<in> set (d_orders d'). fencing now w t x \<and> t\<lparr>t_stop_order := Some (o_id x)\<rparr> \<in> set (d_tasks d')"
    and "\<not> leasedByAny [w] t \<Longrightarrow> t \<in> set (d_tasks d')"
proof -
  define why where "why = ''its host was suspended by '' @ who"
  define d2 where "d2 = FENCE_ORDERS_SQL [w] fresh who reason now
      (''fenced: its host was suspended by '' @ who @ '' - the task goes back to the queue when its lease ends'') (cancelOrdersOf [w] now why d)"
  have d': "d_tasks d' = sql_update (leasedByAny [w]) (\<lambda>t. t\<lparr>t_stop_order := fenceOrderOf now d2 t\<rparr>) (d_tasks d)" "d_orders d' = d_orders d2"
    by (simp_all add: d'_def suspendStatements_def assms(1) Let_def d2_def why_def cancelHostOrders_def BULK_FENCE_SQL_def)
  {
    assume t: "leasedByAny [w] t"
    then have w: "t_lease_owner t = Some w" by (simp add: leasedByAny_def split: option.splits)
    have "\<exists>x \<in> set (d_orders d2). fencing now w t x"
      unfolding d2_def using assms(2) t w by (intro fence_issues) simp_all
    from fenceOrderOf_Some [OF _ _ w] this obtain y where "fenceOrderOf now d2 t = Some (o_id y)" "y \<in> set (d_orders d2)" "fencing now w t y" by blast
    then show "\<exists>x \<in> set (d_orders d'). fencing now w t x \<and> t\<lparr>t_stop_order := Some (o_id x)\<rparr> \<in> set (d_tasks d')"
      unfolding d' set_sql_update using assms(2) t by (intro bexI [of _ y]) (auto intro!: image_eqI [of _ _ t])
  }
  show "\<not> leasedByAny [w] t \<Longrightarrow> t \<in> set (d_tasks d')"
    unfolding d' set_sql_update using assms(2) by (auto intro!: image_eqI [of _ _ t])
qed

lemma filter_unique:
  assumes "distinct (map k xs)" "x \<in> set xs" "P x"
  shows "filter (\<lambda>y. k y = k x \<and> P y) xs = [x]"
  using assms
proof (induction xs)
  case (Cons a xs)
  show ?case
  proof (cases "a = x")
    case True
    then have "filter (\<lambda>y. k y = k x \<and> P y) xs = []" using Cons.prems(1) by (auto simp: filter_empty_conv image_iff)
    with True Cons.prems(3) show ?thesis by simp
  next
    case False
    then have "x \<in> set xs" "k a \<noteq> k x" using Cons.prems(1,2) by (auto simp: image_iff)
    with Cons show ?thesis by simp
  qed
qed simp

lemma suspendBatch_tables:
  "d_tasks (suspendBatch which sel st subject act fresh who reason now d) =
     d_tasks (suspendStatements sel fresh who reason now (d\<lparr>d_hosts := sql_update which (suspendRow who now reason) (d_hosts d)\<rparr>))"
  "d_orders (suspendBatch which sel st subject act fresh who reason now d) =
     d_orders (suspendStatements sel fresh who reason now (d\<lparr>d_hosts := sql_update which (suspendRow who now reason) (d_hosts d)\<rparr>))"
  "d_host_orders (suspendBatch which sel st subject act fresh who reason now d) =
     d_host_orders (suspendStatements sel fresh who reason now (d\<lparr>d_hosts := sql_update which (suspendRow who now reason) (d_hosts d)\<rparr>))"
  by (simp_all add: suspendBatch_def Let_def)

lemma suspendStatements_host_orders:
  assumes "x \<in> set (d_host_orders (suspendStatements sel fresh who reason now d))" "ho_host x = hr_id h" "h \<in> set (d_hosts d)" "justSuspended sel now h"
  shows "ho_state x \<noteq> HoOpen"
  using assms by (auto simp: suspendStatements_def cancelHostOrders_def Let_def set_sql_update list_ex_iff split: if_splits)

lemma atDoor_Inr: "atDoor p i r d = Inr (v, b, h) \<Longrightarrow> hostRow i d = Some h \<and> hostVerdicts (Some v) h None r = Allowed \<and> v = viewerOf d (pa_login p)"
  by (auto simp: atDoor_def personAct_def split: sum.splits option.splits host_verdict.splits if_splits)

lemma suspend_success:
  assumes "handleSuspendHost fresh now p i d = (Inr ts, d')"
  obtains reason h where "hostRow i d = Some h" "hostVerdicts (Some (viewerOf d (pa_login p))) h None RSuspend = Allowed"
    "d' = suspendBatch (\<lambda>h. hr_id h = i \<and> hr_status h = ''active'') (\<lambda>h. hr_id h = i) EvWarn i ''suspend'' fresh (pa_login p) reason now d"
  using assms atDoor_Inr
  by (auto simp: handleSuspendHost_def Let_def split: sum.splits option.splits if_splits)

text \<open>
  C13. A suspension that succeeds is by the host's owner or a maintainer, and in the one batch the host stops leasing, every
  task its registration holds is fenced (it carries a stop order of this act for this task and worker), every other
  task is left as it is, and no order of the host is left open.
\<close>

theorem suspend_fences:
  assumes "host_inv d" "hostRow i d = Some h" "hr_worker_id h = Some w" "handleSuspendHost fresh now p i d = (Inr ts, d')"
  shows "(isOwner (viewerOf d (pa_login p)) h \<or> pa_login p \<in> set (d_maintainers d))
    \<and> map_option hr_status (hostRow i d') = Some ''suspended'' \<and> \<not> HOST_MAY_LEASE_SQL d' i
    \<and> (\<forall>t \<in> set (d_tasks d). if t_status t = Leased \<and> t_lease_owner t = Some w
         then \<exists>x \<in> set (d_orders d'). fencing now w t x \<and> t\<lparr>t_stop_order := Some (o_id x)\<rparr> \<in> set (d_tasks d')
         else t \<in> set (d_tasks d'))
    \<and> (\<forall>x \<in> set (d_host_orders d'). ho_host x = i \<longrightarrow> ho_state x \<noteq> HoOpen)"
proof -
  from assms(4) obtain reason where verdict: "hostVerdicts (Some (viewerOf d (pa_login p))) h None RSuspend = Allowed"
    and d': "d' = suspendBatch (\<lambda>h. hr_id h = i \<and> hr_status h = ''active'') (\<lambda>h. hr_id h = i) EvWarn i ''suspend'' fresh (pa_login p) reason now d"
    by (rule suspend_success) (use assms(2) in simp)
  define d1 where "d1 = d\<lparr>d_hosts := sql_update (\<lambda>h. hr_id h = i \<and> hr_status h = ''active'') (suspendRow (pa_login p) now reason) (d_hosts d)\<rparr>"
  define h1 where "h1 = suspendRow (pa_login p) now reason h"
  from verdict have may: "isOwner (viewerOf d (pa_login p)) h \<or> pa_login p \<in> set (d_maintainers d)" "hr_status h = ''active''"
    by (auto simp: hostVerdicts_def refuseIf_def Let_def viewerOf_def roleFor_def split: if_splits)
  from hostRow_in [OF assms(2)] have h: "h \<in> set (d_hosts d)" "hr_id h = i" by blast+
  have h1: "h1 \<in> set (d_hosts d1)" "hr_id h1 = i" "justSuspended (\<lambda>h. hr_id h = i) now h1" "hr_worker_id h1 = Some w" "hr_status h1 = ''suspended''"
    using h may(2) assms(3) by (auto simp: d1_def set_sql_update h1_def suspendRow_def justSuspended_def intro!: image_eqI [of _ _ h])
  have hosts: "d_hosts d' = d_hosts d1" by (simp add: d' suspendBatch_frame(1) d1_def)
  have ids: "distinct (map hr_id (d_hosts d1))"
    using assms(1) hosts_evolve_keys(1) [OF suspending.evolves] by (simp add: d1_def host_inv_def)
  have "filter (justSuspended (\<lambda>h. hr_id h = i) now) (d_hosts d1) = [h1]"
    using filter_unique [OF ids h1(1), of "\<lambda>h. hr_status h = ''suspended'' \<and> hr_status_at h = Some now"] h1
    by (simp add: justSuspended_def [abs_def])
  then have ws: "suspendedWorkers (\<lambda>h. hr_id h = i) now d1 = [w]"
    using h1(4) by (simp add: suspendedWorkers_def List.map_filter_def)
  have row: "hostRow i d' = Some h1"
    using find_distinct [OF ids h1(1)] h1(2) by (simp add: hostRow_def hosts)
  have "x = h1" if "x \<in> set (d_hosts d1)" "hr_id x = i" for x
    using ids that h1(1,2) by (auto simp: distinct_map dest: inj_onD)
  then have "\<not> HOST_MAY_LEASE_SQL d' i"
    using h1(5) by (auto simp: HOST_MAY_LEASE_SQL_def hosts list_ex_iff)
  moreover have "if t_status t = Leased \<and> t_lease_owner t = Some w
         then \<exists>x \<in> set (d_orders d'). fencing now w t x \<and> t\<lparr>t_stop_order := Some (o_id x)\<rparr> \<in> set (d_tasks d')
         else t \<in> set (d_tasks d')" if t: "t \<in> set (d_tasks d)" for t
  proof -
    have "t \<in> set (d_tasks d1)" using t by (simp add: d1_def)
    have held: "leasedByAny [w] t \<longleftrightarrow> t_status t = Leased \<and> t_lease_owner t = Some w"
      by (auto simp: leasedByAny_def split: option.splits)
    from suspendStatements_tasks [OF ws \<open>t \<in> set (d_tasks d1)\<close>, of fresh "pa_login p" reason]
    show ?thesis unfolding d' suspendBatch_tables d1_def [symmetric] held [symmetric] by simp
  qed
  moreover have "ho_state x \<noteq> HoOpen" if "x \<in> set (d_host_orders d')" "ho_host x = i" for x
    using that h1(2) unfolding d' suspendBatch_tables d1_def [symmetric] by (intro suspendStatements_host_orders [OF _ _ h1(1,3)]) simp_all
  ultimately show ?thesis using may(1) row h1(5) by simp
qed

text \<open>Ann's studio holds task 1; bob, a maintainer, suspends it.\<close>

definition ex_suspend_pool :: db where
  "ex_suspend_pool = ex_host_pool\<lparr>d_tasks := [ex_task\<lparr>t_status := Leased, t_lease_owner := Some ''h1''\<rparr>]\<rparr>"

theorem suspend_fences_witness:
  "map_option hr_status (hostRow ''h_1'' (snd (handleSuspendHost (\<lambda>_. ''o_1'') 5 (ex_act ''bob'' [(''reason'', JStr ''disk failing'')]) ''h_1'' ex_suspend_pool))) = Some ''suspended''
    \<and> t_stop_order (hd (d_tasks (snd (handleSuspendHost (\<lambda>_. ''o_1'') 5 (ex_act ''bob'' [(''reason'', JStr ''disk failing'')]) ''h_1'' ex_suspend_pool)))) = Some ''o_1''
    \<and> \<not> HOST_MAY_LEASE_SQL (snd (handleSuspendHost (\<lambda>_. ''o_1'') 5 (ex_act ''bob'' [(''reason'', JStr ''disk failing'')]) ''h_1'' ex_suspend_pool)) ''h_1''"
proof -
  have "fst (handleSuspendHost (\<lambda>_. ''o_1'') 5 (ex_act ''bob'' [(''reason'', JStr ''disk failing'')]) ''h_1'' ex_suspend_pool) = Inr [t_id ex_task]"
    by code_simp
  then obtain d' where run: "handleSuspendHost (\<lambda>_. ''o_1'') 5 (ex_act ''bob'' [(''reason'', JStr ''disk failing'')]) ''h_1'' ex_suspend_pool = (Inr [t_id ex_task], d')"
    by (metis prod.collapse)
  have inv: "host_inv ex_suspend_pool" using ex_host_pool_inv by (simp add: ex_suspend_pool_def host_inv_def)
  have row: "hostRow ''h_1'' ex_suspend_pool = Some ex_host_row" by (simp add: hostRow_def ex_suspend_pool_def ex_host_pool_def ex_host_row_def)
  have worker: "hr_worker_id ex_host_row = Some ''h1''" by (simp add: ex_host_row_def)
  have "t_stop_order (hd (d_tasks (snd (handleSuspendHost (\<lambda>_. ''o_1'') 5 (ex_act ''bob'' [(''reason'', JStr ''disk failing'')]) ''h_1'' ex_suspend_pool)))) = Some ''o_1''"
    by code_simp
  with suspend_fences [OF inv row worker run] run show ?thesis by simp
qed

subsection \<open>Who may do what, and a refusal\<close>

text \<open>
  C17. Every right on a host needs a person signed in who is its owner or a maintainer, and a host that is not retired; resuming
  it, retiring its legacy set and the owner's orders need its owner, who is still a maintainer; every order needs
  the host active with an agent that takes orders.
\<close>

theorem host_rights:
  assumes "hostVerdicts vo h drained r = Allowed"
  shows "\<exists>v. vo = Some v \<and> (isOwner v h \<or> hv_maintainer v) \<and> hr_status h \<noteq> ''retired''
    \<and> (r \<in> {RResume, RRetireLegacy, ROwner} \<longrightarrow> isOwner v h \<and> hv_maintainer v)
    \<and> (r \<in> {RReconcile, RRetireLegacy, RSettings, RRotateToken, RRetryRelease, RDiagnostics, ROwner}
        \<longrightarrow> hr_status h = ''active'' \<and> agentTakesOrders (hr_agent_version h))
    \<and> (r = RResume \<longrightarrow> hr_status h = ''suspended'') \<and> (r \<in> {RSuspend, RPins} \<longrightarrow> hr_status h = ''active'')"
proof (cases vo)
  case None
  with assms show ?thesis by (simp add: hostVerdicts_def)
next
  case (Some v)
  note simps = hostVerdicts_def refuseIf_def takesOrder_def Let_def
  from assms Some show ?thesis by (cases r) (simp_all add: simps split: if_splits option.splits)
qed

text \<open>A handler's answer is quiet when, refusing, it left the database as it was; every branch of the doors is one of these.\<close>

definition quiet :: "db \<Rightarrow> (door_refusal + 'a) \<times> db \<Rightarrow> bool" where
  "quiet d r \<longleftrightarrow> (\<forall>e. fst r = Inl e \<and> e \<noteq> ChangedMeanwhile \<longrightarrow> snd r = d)"

lemma quiet_leaf [simp, intro]: "quiet d (Inl e, d)" "quiet d (Inr x, d')" "quiet d (Inl ChangedMeanwhile, d')"
  by (simp_all add: quiet_def)

lemma quiet_branch:
  "quiet d x \<Longrightarrow> quiet d y \<Longrightarrow> quiet d (if c then x else y)"
  "(\<And>a. quiet d (f a)) \<Longrightarrow> (\<And>b. quiet d (g b)) \<Longrightarrow> quiet d (case s of Inl a \<Rightarrow> f a | Inr b \<Rightarrow> g b)"
  "quiet d n \<Longrightarrow> (\<And>q'. quiet d (u q')) \<Longrightarrow> quiet d (case q of None \<Rightarrow> n | Some q' \<Rightarrow> u q')"
  "quiet d n \<Longrightarrow> (\<And>a b. quiet d (k a b)) \<Longrightarrow> quiet d (case v of Allowed \<Rightarrow> n | Refused a b \<Rightarrow> k a b)"
  "(\<And>a' b'. quiet d (m a' b')) \<Longrightarrow> quiet d (case z of (a', b') \<Rightarrow> m a' b')"
  "quiet d x \<Longrightarrow> quiet d y \<Longrightarrow> quiet d (case c of True \<Rightarrow> x | False \<Rightarrow> y)"
  by (simp_all split: sum.split option.split host_verdict.split prod.split bool.split)

lemma doors_quiet:
  "quiet d (handleSuspendHost fresh now p i d)" "quiet d (handleRemoveForCause fresh now p l d)" "quiet d (handleResumeHost now p i d)"
  "quiet d (handleRetireHost now p i d)" "quiet d (handleCapHost now p i d)" "quiet d (handleResumeOwner p l d)"
  "quiet d (handleSealKeyConfirm now p i d)"
  unfolding handleSuspendHost_def handleRemoveForCause_def handleResumeHost_def handleRetireHost_def handleCapHost_def handleResumeOwner_def handleSealKeyConfirm_def Let_def
  by (intro quiet_branch quiet_leaf)+

lemma order_quiet: "quiet d (handleHostOrder jp jt rs newId now p i d)"
proof -
  have "quiet d (insertHostOrder row ver now d)" for row ver
    unfolding insertHostOrder_def Let_def by (intro quiet_branch quiet_leaf)
  then show ?thesis unfolding handleHostOrder_def Let_def by (intro quiet_branch quiet_leaf)
qed

text \<open>
  A refused act writes nothing: whatever door refuses it and why, the database is as it was, unless the row changed
  under it between its read and its guarded statement.
\<close>

theorem refused_writes_nothing:
  assumes "e \<noteq> ChangedMeanwhile"
  shows "(fst (handleSuspendHost fresh now p i d) = Inl e \<longrightarrow> snd (handleSuspendHost fresh now p i d) = d)
    \<and> (fst (handleRemoveForCause fresh now p l d) = Inl e \<longrightarrow> snd (handleRemoveForCause fresh now p l d) = d)
    \<and> (fst (handleResumeHost now p i d) = Inl e \<longrightarrow> snd (handleResumeHost now p i d) = d)
    \<and> (fst (handleRetireHost now p i d) = Inl e \<longrightarrow> snd (handleRetireHost now p i d) = d)
    \<and> (fst (handleCapHost now p i d) = Inl e \<longrightarrow> snd (handleCapHost now p i d) = d)
    \<and> (fst (handleResumeOwner p l d) = Inl e \<longrightarrow> snd (handleResumeOwner p l d) = d)
    \<and> (fst (handleSealKeyConfirm now p i d) = Inl e \<longrightarrow> snd (handleSealKeyConfirm now p i d) = d)
    \<and> (fst (handleHostOrder jp jt rs newId now p i d) = Inl e \<longrightarrow> snd (handleHostOrder jp jt rs newId now p i d) = d)"
  using assms doors_quiet order_quiet unfolding quiet_def by simp

theorem host_rights_witness:
  "hostVerdicts (Some (viewerOf ex_host_pool ''bob'')) ex_host_row None RSuspend = Allowed
    \<and> hostVerdicts (Some (viewerOf ex_host_pool ''bob'')) (ex_host_row\<lparr>hr_status := ''suspended''\<rparr>) None RResume \<noteq> Allowed
    \<and> hostVerdicts (Some (viewerOf ex_host_pool ''carol'')) ex_host_row None RCap \<noteq> Allowed"
proof -
  have "hostVerdicts (Some (viewerOf ex_host_pool ''bob'')) ex_host_row None RSuspend = Allowed" by code_simp
  moreover have "\<not> isOwner (viewerOf ex_host_pool ''bob'') (ex_host_row\<lparr>hr_status := ''suspended''\<rparr>)"
    "\<not> isOwner (viewerOf ex_host_pool ''carol'') ex_host_row" "\<not> hv_maintainer (viewerOf ex_host_pool ''carol'')" by code_simp+
  ultimately show ?thesis
    using host_rights [of "Some (viewerOf ex_host_pool ''bob'')" "ex_host_row\<lparr>hr_status := ''suspended''\<rparr>" None RResume]
      host_rights [of "Some (viewerOf ex_host_pool ''carol'')" ex_host_row None RCap] by auto
qed

theorem refused_writes_nothing_witness:
  "fst (handleSuspendHost (\<lambda>_. ''o_1'') 5 (ex_act ''bob'' []) ''h_1'' ex_suspend_pool) = Inl BadReason
    \<and> snd (handleSuspendHost (\<lambda>_. ''o_1'') 5 (ex_act ''bob'' []) ''h_1'' ex_suspend_pool) = ex_suspend_pool"
proof -
  have "fst (handleSuspendHost (\<lambda>_. ''o_1'') 5 (ex_act ''bob'' []) ''h_1'' ex_suspend_pool) = Inl BadReason" by code_simp
  then show ?thesis using refused_writes_nothing [of BadReason "\<lambda>_. ''o_1''" 5 "ex_act ''bob'' []" "''h_1''" ex_suspend_pool] by simp
qed

subsection \<open>A setting the agent answered\<close>

definition unitsSet :: "host_row \<Rightarrow> int option" where
  "unitsSet h = Option.bind (hostSettingsOf (map_option JObj (hr_settings h))) st_units"

definition emulateSet :: "host_row \<Rightarrow> arch list option" where
  "emulateSet h = Option.bind (hostSettingsOf (map_option JObj (hr_settings h))) st_emulate"

lemma settings_read:
  "unitsSet h = jint_in (jfield (map_option JObj (hr_settings h)) ''units'') 1 (of_int MAX_SETTING_UNITS)"
  "emulateSet h = archList (jfield (map_option JObj (hr_settings h)) ''emulate'')"
  by (auto simp: unitsSet_def emulateSet_def hostSettingsOf_def Let_def)

lemma map_of_json_set: "map_of (json_set k v kvs) = (map_of kvs)(k \<mapsto> v)"
proof -
  have new: "map_of (kvs @ [(k, v)]) = (map_of kvs)(k \<mapsto> v)" if "k \<notin> fst ` set kvs"
    using that by (induction kvs) (auto simp: fun_eq_iff)
  have "map_of (map (\<lambda>(k', x). (k', if k' = k then v else x)) kvs) q = (if q = k then map_option (\<lambda>_. v) (map_of kvs k) else map_of kvs q)" for q
    by (induction kvs) auto
  moreover have "map_of kvs k \<noteq> None" if "k \<in> fst ` set kvs" using that by (simp add: map_of_eq_None_iff)
  ultimately have old: "map_of (map (\<lambda>(k', x). (k', if k' = k then v else x)) kvs) = (map_of kvs)(k \<mapsto> v)" if "k \<in> fst ` set kvs"
    using that by (auto simp: fun_eq_iff)
  show ?thesis using new old by (auto simp: json_set_def)
qed

lemma jint_in_again: "jint_in v lo hi = Some n \<Longrightarrow> jint_in (Some (JNum (of_int n))) lo hi = Some n"
  by (auto simp: jint_in_def jnum_in_def split: option.splits json.splits if_splits)

lemma archList_words: "set xs \<subseteq> set ARCHES \<Longrightarrow> archList (Some (JArr (map JStr xs))) = Some xs"
  by (induction xs) (simp_all add: archList_def jarr_def word_in_def jstr_def)

lemma archList_in: "archList v = Some xs \<Longrightarrow> set xs \<subseteq> set ARCHES"
proof -
  have "those (map (\<lambda>x. word_in ARCHES (Some x)) ys) = Some zs \<Longrightarrow> set zs \<subseteq> set ARCHES" for ys zs
    by (induction ys arbitrary: zs) (auto simp: word_in_def split: option.splits if_splits)
  then show "archList v = Some xs \<Longrightarrow> set xs \<subseteq> set ARCHES" by (auto simp: archList_def split: option.splits)
qed

lemma orderArg_units:
  assumes "orderArg kind b = Inr (Some (UnitsTo u))"
  shows "kind = ''set-units'' \<and> jint_in (Some (arg_value (arg_json (Some (UnitsTo u))))) 1 (of_int MAX_SETTING_UNITS) = u"
  using assms
  by (auto simp: orderArg_def arg_value_def arg_json_def jint_in_again split: if_splits option.splits)
    (simp_all add: jint_in_def jnum_in_def)

lemma orderArg_emulate:
  assumes "orderArg kind b = Inr (Some (EmulateTo e))"
  shows "kind = ''set-emulate'' \<and> archList (Some (arg_value (arg_json (Some (EmulateTo e))))) = e"
proof -
  have "archList (Some (JArr (map JStr (sort (uniq xs))))) = Some (sort (uniq xs))" if "archList v = Some xs" for v xs
    using archList_in [OF that] by (intro archList_words) (simp add: uniq_def)
  with assms show ?thesis
    by (auto simp: orderArg_def arg_value_def arg_json_def split: if_splits option.splits) (simp_all add: archList_def jarr_def)
qed

lemma find_sql_update: "(\<And>x. P x \<Longrightarrow> P (f x)) \<Longrightarrow> find P (sql_update P f xs) = map_option f (find P xs)"
  by (induction xs) simp_all

text \<open>
  A setting reads back: when the agent answers a settings order as done, the host's settings hold the value the order was
  asked for (none, where it was set back to the owner's own), and the other setting is as it was.
\<close>

theorem setting_reads_back:
  assumes "hostRow i d = Some h" "distinct (map ho_id (d_host_orders d))" "x \<in> set (d_host_orders d)" "ho_host x = i" "ho_state x = HoOpen"
    "orderArg (ho_kind x) b = Inr (Some arg)" "ho_arg x = arg_json (Some arg)" "an_id a = ho_id x" "an_outcome a = OutDone"
  shows "\<exists>h'. hostRow i (snd (takeAnswers i owner now [a] d)) = Some h'
    \<and> (case arg of UnitsTo u \<Rightarrow> unitsSet h' = u \<and> emulateSet h' = emulateSet h
       | EmulateTo e \<Rightarrow> emulateSet h' = e \<and> unitsSet h' = unitsSet h)"
proof -
  define x' where "x' = x\<lparr>ho_state := HoDone, ho_answered_at := Some now, ho_detail := Some (an_detail a)\<rparr>"
  define d2 where "d2 = foldl (\<lambda>y x. add_event (HostEvent (if an_outcome a = OutDone then EvOk else EvWarn) i owner None (ho_kind x) []) y)
        (ANSWER_HOST_ORDER_SQL i now a d)
        (filter (\<lambda>x. ho_id x = an_id a \<and> ho_host x = i \<and> ho_state x = outcome_state (an_outcome a) \<and> ho_answered_at x = Some now)
          (d_host_orders (ANSWER_HOST_ORDER_SQL i now a d)))"
  have d': "snd (takeAnswers i owner now [a] d) = SETTINGS_FROM_ANSWER_SQL i now (an_id a) d2"
    unfolding d2_def by (simp add: takeAnswers_def takeAnswer_def Let_def)
  have orders: "d_host_orders d2 = d_host_orders (ANSWER_HOST_ORDER_SQL i now a d)" and hosts: "d_hosts d2 = d_hosts d"
    by (simp_all only: d2_def add_events_frame answer_frame)
  have "x' \<in> set (d_host_orders d2)"
    using assms(3-5,8,9) by (auto simp: orders ANSWER_HOST_ORDER_SQL_def set_sql_update answerable_def outcome_state_def x'_def intro!: image_eqI [of _ _ x])
  moreover have "distinct (map ho_id (d_host_orders d2))"
    using assms(2) by (simp add: orders ANSWER_HOST_ORDER_SQL_def sql_update_keys)
  ultimately have found: "find (\<lambda>y. ho_id y = an_id a) (d_host_orders d2) = Some x'"
    using find_distinct [of ho_id "d_host_orders d2" x'] assms(8) by (simp add: x'_def)
  define k where "k = (case arg of UnitsTo u \<Rightarrow> ''units'' | EmulateTo e \<Rightarrow> ''emulate'')"
  have k: "k = (if ho_kind x = ''set-units'' then ''units'' else ''emulate'')" "ho_kind x = ''set-units'' \<or> ho_kind x = ''set-emulate''"
    using assms(6) orderArg_units [of "ho_kind x" b] orderArg_emulate [of "ho_kind x" b] by (cases arg; simp add: k_def)+
  have "settingsOrder i now (an_id a) x'" using assms(4,8) k(2) by (simp add: settingsOrder_def x'_def)
  then have rows: "d_hosts (snd (takeAnswers i owner now [a] d)) = sql_update (\<lambda>h. hr_id h = i)
      (\<lambda>h. h\<lparr>hr_settings := Some (json_set k (arg_value (arg_json (Some arg))) (nvl (hr_settings h) []))\<rparr>) (d_hosts d)"
    unfolding d' using found k(1) assms(7) by (simp add: SETTINGS_FROM_ANSWER_SQL_def hosts x'_def)
  let ?h = "h\<lparr>hr_settings := Some (json_set k (arg_value (arg_json (Some arg))) (nvl (hr_settings h) []))\<rparr>"
  have row: "hostRow i (snd (takeAnswers i owner now [a] d)) = Some ?h"
    unfolding hostRow_def rows by (subst find_sql_update) (use assms(1) in \<open>simp_all add: hostRow_def\<close>)
  have "map_of (nvl (hr_settings h) []) q = jfield (map_option JObj (hr_settings h)) q" for q
    by (cases "hr_settings h") (simp_all add: jfield_def)
  then have reads: "jfield (Some (JObj (json_set k' v (nvl (hr_settings h) [])))) q = (if q = k' then Some v else jfield (map_option JObj (hr_settings h)) q)" for k' v q
    by (simp add: jfield_def [of "Some _"] map_of_json_set)
  show ?thesis
    using row assms(6) orderArg_units [of "ho_kind x" b] orderArg_emulate [of "ho_kind x" b]
    by (intro exI [of _ ?h]) (cases arg; simp add: settings_read reads k_def)
qed

definition ex_order :: host_order where
  "ex_order = \<lparr>ho_id = ''ho_1'', ho_host = ''h_1'', ho_kind = ''set-units'', ho_arg = Some [(''units'', JNum 3)], ho_issued_by = ''ann'', ho_issued_at = 1,
     ho_not_after = 9, ho_state = HoOpen, ho_answered_at = None, ho_detail = None\<rparr>"

theorem setting_reads_back_witness:
  "map_option unitsSet (hostRow ''h_1'' (snd (takeAnswers ''h_1'' ''ann'' 5 [\<lparr>an_id = ''ho_1'', an_outcome = OutDone, an_detail = []\<rparr>]
      (ex_host_pool\<lparr>d_host_orders := [ex_order]\<rparr>)))) = Some (Some 3)"
proof -
  have row: "hostRow ''h_1'' (ex_host_pool\<lparr>d_host_orders := [ex_order]\<rparr>) = Some ex_host_row"
    by (simp add: hostRow_def ex_host_pool_def ex_host_row_def)
  have "orderArg (ho_kind ex_order) (Some (JObj [(''units'', JNum 3)])) = Inr (Some (UnitsTo (Some 3)))" by code_simp
  moreover have "ho_arg ex_order = arg_json (Some (UnitsTo (Some 3)))" by (simp add: ex_order_def arg_json_def)
  ultimately show ?thesis
    using setting_reads_back [OF row, of ex_order "Some (JObj [(''units'', JNum 3)])" "UnitsTo (Some 3)"
        "\<lparr>an_id = ''ho_1'', an_outcome = OutDone, an_detail = []\<rparr>" "''ann''" 5]
    by (simp add: ex_order_def) blast
qed

end
