(* ===== verification/Order_Claims.thy ===== *)
theory Order_Claims
  imports Release_Gate Leak
begin

text \<open>
  What a worker's claim says for the orders path (worker/src/orders.ts, its first part): the kinds of orders and their
  groups, the claim's words checked one by one, text hygiene, what rolls a worker's set out, the site a worker is
  on, and the class of an agent's error. The pool's own times are milliseconds; a worker's own stamp is its text,
  read by \<open>read_stamp\<close> (\<^verbatim>\<open>Date.parse\<close>), an argument.
\<close>

subsection \<open>Kinds and bounds\<close>

datatype order_kind = KRecheck | KRestart | KRestartAgent | KDrain | KResume | KUpdate | KStop

definition ORDER_KINDS :: "order_kind list" where
  "ORDER_KINDS = [KRecheck, KRestart, KRestartAgent, KDrain, KResume, KUpdate, KStop]"

fun kind_name :: "order_kind \<Rightarrow> string" where
  "kind_name KRecheck = ''recheck-agent''"
| "kind_name KRestart = ''restart''"
| "kind_name KRestartAgent = ''restart-agent''"
| "kind_name KDrain = ''drain''"
| "kind_name KResume = ''resume''"
| "kind_name KUpdate = ''update''"
| "kind_name KStop = ''stop-task''"

definition kind_of :: "string \<Rightarrow> order_kind option" where
  "kind_of s = find (\<lambda>k. kind_name k = s) ORDER_KINDS"

definition DECLARABLE :: "order_kind list" where
  "DECLARABLE = [KDrain, KRecheck, KRestart, KRestartAgent, KStop]"

definition LIVE_KINDS :: "order_kind list" where
  "LIVE_KINDS = [KRecheck, KRestart, KRestartAgent, KDrain, KResume, KStop]"

definition POOL_KINDS :: "order_kind list" where
  "POOL_KINDS = [KDrain, KResume, KStop]"

definition RESTART_GROUP :: "order_kind list" where
  "RESTART_GROUP = [KRestart, KRestartAgent, KUpdate, KStop]"

definition HOST_RESTART_GROUP :: "order_kind list" where
  "HOST_RESTART_GROUP = filter (\<lambda>k. k \<noteq> KStop) RESTART_GROUP"

definition POOL_RESTARTS :: "order_kind list" where
  "POOL_RESTARTS = [KRestart, KRestartAgent]"

text \<open>Minutes, and counts.\<close>

definition RECHECK_AFTER_MIN :: int where "RECHECK_AFTER_MIN = 5"
definition RESTART_AFTER_MIN :: int where "RESTART_AFTER_MIN = 10"
definition RESTART_SPACING_MIN :: int where "RESTART_SPACING_MIN = 30"
definition GIVE_UP_AFTER_MIN :: int where "GIVE_UP_AFTER_MIN = 30"
definition SITE_SPACING_MIN :: int where "SITE_SPACING_MIN = 5"
definition MIN_UPTIME_S :: int where "MIN_UPTIME_S = 120"
definition MAX_POOL_RESTARTS_PER_SPELL :: nat where "MAX_POOL_RESTARTS_PER_SPELL = 2"
definition MAX_POOL_RESTARTS_PER_DAY :: nat where "MAX_POOL_RESTARTS_PER_DAY = 3"
definition MAX_POOL_RECHECKS_PER_SPELL :: nat where "MAX_POOL_RECHECKS_PER_SPELL = 1"
definition MAX_POOL_RECHECKS_PER_DAY :: nat where "MAX_POOL_RECHECKS_PER_DAY = 3"
definition MAX_RESTARTS_PER_HOUR :: nat where "MAX_RESTARTS_PER_HOUR = 6"
definition MAX_RECHECKS_PER_HOUR :: nat where "MAX_RECHECKS_PER_HOUR = 6"
definition MAX_ORDERS_PER_LOGIN_HOUR :: nat where "MAX_ORDERS_PER_LOGIN_HOUR = 20"
definition MAX_STOPS_PER_LOGIN_HOUR :: nat where "MAX_STOPS_PER_LOGIN_HOUR = 30"
definition MAX_POOL_RESTARTS_PER_HOUR :: nat where "MAX_POOL_RESTARTS_PER_HOUR = 10"
definition MAX_POOL_ORDERS_PER_DAY :: nat where "MAX_POOL_ORDERS_PER_DAY = 60"
definition MAX_POOL_COMMUNITY_ORDERS_PER_DAY :: nat where "MAX_POOL_COMMUNITY_ORDERS_PER_DAY = 40"
definition MAX_POOL_COMMUNITY_RESTARTS_PER_HOUR :: nat where "MAX_POOL_COMMUNITY_RESTARTS_PER_HOUR = 6"
definition BREAKER_SITES :: nat where "BREAKER_SITES = 3"
definition BREAKER_CLEAR_BELOW :: nat where "BREAKER_CLEAR_BELOW = 2"
definition BREAKER_CLEAR_MIN :: int where "BREAKER_CLEAR_MIN = 15"
definition TTL_PERSON_MIN :: int where "TTL_PERSON_MIN = 360"
definition TTL_POOL_MIN :: int where "TTL_POOL_MIN = 30"
definition TTL_UPDATE_MIN :: int where "TTL_UPDATE_MIN = 360"
definition ANSWER_WITHIN_MIN :: int where "ANSWER_WITHIN_MIN = 30"
definition CHURN_WINDOW_MIN :: int where "CHURN_WINDOW_MIN = 10"
definition CHURN_CLEAR_MIN :: int where "CHURN_CLEAR_MIN = 30"
definition CRASH_LOOP_AT :: int where "CRASH_LOOP_AT = 3"
definition CONFLICT_WINDOW_MIN :: int where "CONFLICT_WINDOW_MIN = 10"
definition WATCHDOG_RESET_H :: int where "WATCHDOG_RESET_H = 24"
definition TOUCH_MINUTES :: int where "TOUCH_MINUTES = 3"
definition HOUR :: int where "HOUR = 60 * 60000"
definition DAY :: int where "DAY = 24 * HOUR"

definition POOL_PROJECT :: string where "POOL_PROJECT = ''pool:project''"
definition POOL_COMMUNITY :: string where "POOL_COMMUNITY = ''pool:community''"

definition isPool :: "string \<Rightarrow> bool" where
  "isPool who \<longleftrightarrow> who = POOL_PROJECT \<or> who = POOL_COMMUNITY"

definition poolFor :: "string option \<Rightarrow> string" where
  "poolFor trust = (if trust = Some ''project'' then POOL_PROJECT else POOL_COMMUNITY)"

subsection \<open>Text hygiene\<close>

text \<open>An escape sequence at the start of a text (after \<^verbatim>\<open>ESC [\<close>: parameters, intermediates, a final; after \<^verbatim>\<open>ESC ]\<close>: up to
  a BEL or \<^verbatim>\<open>ESC \\<close>), as the text left after it. The classes follow one another without overlap.\<close>

definition code_in :: "int \<Rightarrow> int \<Rightarrow> char \<Rightarrow> bool" where
  "code_in a b c \<longleftrightarrow> a \<le> (of_char c :: int) \<and> (of_char c :: int) \<le> b"

definition after_csi :: "string \<Rightarrow> string option" where
  "after_csi s = (case dropWhile (code_in 32 47) (dropWhile (code_in 48 63) s) of
     c # r \<Rightarrow> if code_in 64 126 c then Some r else None
   | [] \<Rightarrow> None)"

definition after_osc :: "string \<Rightarrow> string option" where
  "after_osc s = (case dropWhile (\<lambda>c. \<not> code_in 7 7 c \<and> \<not> code_in 27 27 c) s of
     c # r \<Rightarrow> if code_in 7 7 c then Some r else (case r of x # r' \<Rightarrow> if x = CHR 0x5C then Some r' else None | [] \<Rightarrow> None)
   | [] \<Rightarrow> None)"

definition after_escape :: "string \<Rightarrow> string option" where
  "after_escape s = (case s of
     e # b # r \<Rightarrow> if \<not> code_in 27 27 e then None
       else if b = CHR ''['' then after_csi r
       else if b = CHR '']'' then after_osc r else None
   | _ \<Rightarrow> None)"

lemma after_escape_shorter: "after_escape s = Some r \<Longrightarrow> length r < length s"
proof -
  have csi: "after_csi q = Some r \<Longrightarrow> length r < length q" for q
    using length_dropWhile_le [of "code_in 32 47" "dropWhile (code_in 48 63) q"] length_dropWhile_le [of "code_in 48 63" q]
    by (auto simp: after_csi_def split: list.splits if_splits)
  have osc: "after_osc q = Some r \<Longrightarrow> length r < length q" for q
    using length_dropWhile_le [of "\<lambda>c. \<not> code_in 7 7 c \<and> \<not> code_in 27 27 c" q]
    by (auto simp: after_osc_def split: list.splits if_splits)
  show "after_escape s = Some r \<Longrightarrow> length r < length s"
    by (auto simp: after_escape_def dest!: csi osc split: list.splits if_splits)
qed

function stripAnsi :: "string \<Rightarrow> string" where
  "stripAnsi [] = []"
| "stripAnsi (c # cs) = (case after_escape (c # cs) of Some r \<Rightarrow> stripAnsi r | None \<Rightarrow> c # stripAnsi cs)"
  by pat_completeness auto
termination
proof (relation "measure length")
  fix c cs r
  assume "after_escape (c # cs) = Some r"
  then show "(r, c # cs) \<in> measure length" using after_escape_shorter by fastforce
qed auto

text \<open>Removed of a line: \<^verbatim>\<open>[\x00-\x1f\x7f-\x9f]\<close>; with lines the line feed stays. The bidi overrides are past code 255.\<close>

definition text_control :: "char \<Rightarrow> bool" where
  "text_control c \<longleftrightarrow> code_in 0 31 c \<or> code_in 127 159 c"

fun foldRuns :: "(char \<Rightarrow> bool) \<Rightarrow> bool \<Rightarrow> string \<Rightarrow> string" where
  "foldRuns P after [] = []"
| "foldRuns P after (c # cs) = (if P c then (if after then foldRuns P True cs else CHR '' '' # foldRuns P True cs) else c # foldRuns P False cs)"

text \<open>\<^verbatim>\<open>\s{2,}\<close> to one space: a run of one stays as it is.\<close>

function foldSpaces2 :: "string \<Rightarrow> string" where
  "foldSpaces2 [] = []"
| "foldSpaces2 [c] = [c]"
| "foldSpaces2 (c # d # cs) = (if is_space c \<and> is_space d then CHR '' '' # foldSpaces2 (dropWhile is_space cs)
     else c # foldSpaces2 (d # cs))"
  by pat_completeness auto
termination
  by (relation "measure length") (auto simp: less_Suc_eq_le le_SucI length_dropWhile_le)

fun crlf :: "string \<Rightarrow> string" where
  "crlf [] = []"
| "crlf (c # cs) = (if code_in 13 13 c then CHR 0x0A # (case cs of d # ds \<Rightarrow> if code_in 10 10 d then crlf ds else crlf cs | [] \<Rightarrow> []) else c # crlf cs)"

definition cleanText :: "json option \<Rightarrow> nat \<Rightarrow> bool \<Rightarrow> string option" where
  "cleanText v most lines = (case jstr v of
     None \<Rightarrow> Some []
   | Some s \<Rightarrow>
      (let t = stripAnsi s;
           t1 = (if lines then filter (\<lambda>c. \<not> (text_control c \<and> \<not> code_in 10 10 c)) (crlf t)
                 else foldSpaces2 (filter (\<lambda>c. \<not> text_control c) (foldRuns (\<lambda>c. code_in 13 13 c \<or> code_in 9 10 c) False t)));
           t2 = take most (trim t1)
       in if findLeak t2 \<noteq> None then None else Some t2))"

subsection \<open>What a claim says\<close>

datatype exit_why = ExIdle | ExDrain | ExRestart | ExWatchdog
datatype stuck_in = InClaim | InTask | InOrder
datatype agent_via = ViaDirect | ViaSibling | ViaBroker | ViaNone

record previous_exit =
  pe_why :: exit_why
  pe_at :: "int option"
  pe_stuck_in :: "stuck_in option"
  pe_n :: "int option"

text \<open>A word of a closed set.\<close>

definition one_of :: "(string \<times> 'a) list \<Rightarrow> json option \<Rightarrow> 'a option" where
  "one_of ws v = Option.bind (jstr v) (map_of ws)"

definition EXIT_WORDS :: "(string \<times> exit_why) list" where
  "EXIT_WORDS = [(''idle'', ExIdle), (''drain'', ExDrain), (''restart'', ExRestart), (''watchdog'', ExWatchdog)]"
definition STUCK_WORDS :: "(string \<times> stuck_in) list" where
  "STUCK_WORDS = [(''claim'', InClaim), (''task'', InTask), (''order'', InOrder)]"
definition VIA_WORDS :: "(string \<times> agent_via) list" where
  "VIA_WORDS = [(''direct'', ViaDirect), (''sibling'', ViaSibling), (''broker'', ViaBroker), (''none'', ViaNone)]"

definition parsePreviousExit :: "(string \<Rightarrow> stamp) \<Rightarrow> json option \<Rightarrow> previous_exit option" where
  "parsePreviousExit read_stamp v = (case one_of EXIT_WORDS (jfield v ''why'') of
     None \<Rightarrow> None
   | Some why \<Rightarrow> Some \<lparr>pe_why = why, pe_at = Option.bind (jstr (jfield v ''at'')) (\<lambda>s. date_parse (read_stamp s)),
       pe_stuck_in = (if why = ExWatchdog then one_of STUCK_WORDS (jfield v ''stuck_in'') else None),
       pe_n = (if why = ExWatchdog then jint_in (jfield v ''n'') 1 999 else None)\<rparr>)"

definition canonicalKinds :: "json option \<Rightarrow> order_kind list option" where
  "canonicalKinds v = map_option
     (\<lambda>xs. sort_key kind_name (uniq (filter (\<lambda>k. k \<in> set DECLARABLE) (List.map_filter (\<lambda>x. Option.bind (jstr (Some x)) kind_of) xs)))) (jarr v)"

datatype probe_status = ProbeOk | ProbeError

record probe =
  pb_status :: "probe_status option"
  pb_error :: "string option"
  pb_checked_at :: "string option"

subsection \<open>What rolls a set out\<close>

datatype host_script = ScriptKick | ScriptOld | ScriptNone
datatype unknown_set = Bare | Unidentified
datatype rollout_report = SetReport "(string option \<times> bool) option" host_script | SetUnknown unknown_set
datatype set_rollout = Follows | OldUpdater | BothRollouts | TimerOnly | StoppedUpdater | NoUpdater | UnknownSet

definition SCRIPT_WORDS :: "(string \<times> host_script) list" where
  "SCRIPT_WORDS = [(''kick-v1'', ScriptKick), (''old'', ScriptOld), (''none'', ScriptNone)]"
definition UNKNOWN_WORDS :: "(string \<times> unknown_set) list" where
  "UNKNOWN_WORDS = [(''bare'', Bare), (''unidentified'', Unidentified)]"

text \<open>\<^verbatim>\<open>^[A-Za-z0-9._+-]{1,40}$\<close>\<close>

definition image_word :: "string \<Rightarrow> bool" where
  "image_word s \<longleftrightarrow> s \<noteq> [] \<and> length s \<le> 40 \<and> list_all (\<lambda>c. alnum c \<or> c \<in> set ''._+-'') s"

definition parseUpdater :: "json option \<Rightarrow> (string option \<times> bool) option" where
  "parseUpdater u = (case jbool (jfield u ''follows'') of
     None \<Rightarrow> None
   | Some f \<Rightarrow> Some ((case jstr (jfield u ''image'') of Some s \<Rightarrow> if image_word s then Some s else None | None \<Rightarrow> None), f))"

definition parseRollout :: "json option \<Rightarrow> rollout_report option" where
  "parseRollout v = (case one_of UNKNOWN_WORDS (jfield v ''unknown'') of
     Some u \<Rightarrow> Some (SetUnknown u)
   | None \<Rightarrow> (case (one_of SCRIPT_WORDS (jfield v ''host_script''), jfield v ''updater'') of
       (Some script, Some u) \<Rightarrow>
         if u = JNull then Some (SetReport None script) else map_option (\<lambda>x. SetReport (Some x) script) (parseUpdater (Some u))
     | _ \<Rightarrow> None))"

fun script_word :: "host_script \<Rightarrow> string" where
  "script_word ScriptKick = ''kick-v1''"
| "script_word ScriptOld = ''old''"
| "script_word ScriptNone = ''none''"

fun unknown_word :: "unknown_set \<Rightarrow> string" where
  "unknown_word Bare = ''bare''"
| "unknown_word Unidentified = ''unidentified''"

text \<open>The report as the row keeps it, as the value whose JSON text it is.\<close>

definition rolloutJson :: "rollout_report option \<Rightarrow> json option" where
  "rolloutJson r = (case r of
     None \<Rightarrow> None
   | Some (SetUnknown u) \<Rightarrow> Some (JObj [(''unknown'', JStr (unknown_word u))])
   | Some (SetReport u s) \<Rightarrow> Some (JObj [(''updater'', case u of None \<Rightarrow> JNull
         | Some (img, f) \<Rightarrow> JObj [(''image'', case img of None \<Rightarrow> JNull | Some i \<Rightarrow> JStr i), (''follows'', JBool f)]),
       (''host_script'', JStr (script_word s))]))"

definition rolloutOf :: "json option \<Rightarrow> rollout_report option" where
  "rolloutOf v = parseRollout v"

fun setRollout :: "rollout_report option \<Rightarrow> set_rollout" where
  "setRollout (Some (SetReport u s)) =
     (if s = ScriptOld then (if u \<noteq> None then BothRollouts else TimerOnly)
      else (case u of
          None \<Rightarrow> if s = ScriptKick then StoppedUpdater else NoUpdater
        | Some (img, f) \<Rightarrow> if f then Follows else OldUpdater))"
| "setRollout _ = UnknownSet"

text \<open>Why Update is refused to a project worker: every word but that of an updater that follows.\<close>

definition rolloutRefusal :: "rollout_report option \<Rightarrow> set_rollout option" where
  "rolloutRefusal r = (if setRollout r = Follows then None else Some (setRollout r))"

definition hostRolloutRefusal :: "int option \<Rightarrow> int \<Rightarrow> int option option" where
  "hostRolloutRefusal reportedAt now = (case reportedAt of
     Some t \<Rightarrow> if now - t < 15 * 60000 then None else Some (Some t)
   | None \<Rightarrow> Some None)"

definition versionWord :: "string option \<Rightarrow> tag option" where
  "versionWord v = parseTag v"

definition runsRelease :: "string option \<Rightarrow> running_version \<Rightarrow> int \<Rightarrow> release_policy \<Rightarrow> bool" where
  "runsRelease v pool now policy \<longleftrightarrow> (truthy v \<and> v = Some (pv_version pool))
     \<or> (parseTag v \<noteq> None \<and> parseTag (Some (pv_version pool)) \<noteq> None \<and> \<not> u_outdated (updateState v pool now None None policy))"

subsection \<open>The claim's facts\<close>

record claim_facts =
  cf_takes :: "order_kind list option"
  cf_instance :: "string option"
  cf_started_at :: "int option"
  cf_agent_via :: "agent_via option"
  cf_site :: "string option"
  cf_restarts_left :: "int option"
  cf_previous_exit :: "previous_exit option"
  cf_version :: "string option"
  cf_probe :: "probe option"
  cf_pair_restart :: bool
  cf_rollout :: "json option"

definition hex_word :: "nat \<Rightarrow> string \<Rightarrow> bool" where
  "hex_word n s \<longleftrightarrow> length s = n \<and> list_all is_hex s"

definition claimFacts :: "(string \<Rightarrow> stamp) \<Rightarrow> json \<Rightarrow> string option \<Rightarrow> probe option \<Rightarrow> int \<Rightarrow> claim_facts" where
  "claimFacts read_stamp b takesHeader pr now =
     (let f = jfield (Some b);
          shaped = (\<lambda>n v. case jstr v of Some s \<Rightarrow> if hex_word n s then Some s else None | None \<Rightarrow> None);
          inst = shaped 32 (f ''instance'')
      in \<lparr>cf_takes = (if inst = None then None else canonicalKinds (f ''orders'')),
          cf_instance = inst,
          cf_started_at = (case Option.bind (jstr (f ''started_at'')) (\<lambda>s. date_parse (read_stamp s)) of
              Some t \<Rightarrow> if t \<le> now + 5 * 60000 then Some t else None | None \<Rightarrow> None),
          cf_agent_via = one_of VIA_WORDS (f ''agent_via''),
          cf_site = shaped 16 (f ''site''),
          cf_restarts_left = jint_in (f ''restarts_left'') 0 9999,
          cf_previous_exit = parsePreviousExit read_stamp (f ''previous_exit''),
          cf_version = jstr (f ''version''),
          cf_probe = pr,
          cf_pair_restart = (''pair-restart'' \<in> set (map trim (split_on (CHR '','') (nvl takesHeader [])))),
          cf_rollout = rolloutJson (parseRollout (f ''rollout''))\<rparr>)"

subsection \<open>The class of an error\<close>

text \<open>A pattern: a word boundary before it, a sequence of pieces each one of its alternatives, a word boundary after it.\<close>

fun pieces :: "string list list \<Rightarrow> bool \<Rightarrow> string \<Rightarrow> bool" where
  "pieces [] b s = (\<not> b \<or> s = [] \<or> \<not> word_char (hd s))"
| "pieces (alts # rest) b s = list_ex (\<lambda>a. starts_with a s \<and> pieces rest b (drop (length a) s)) alts"

fun pattern_in :: "bool \<Rightarrow> string list list \<Rightarrow> bool \<Rightarrow> char option \<Rightarrow> string \<Rightarrow> bool" where
  "pattern_in a p b prev [] = False"
| "pattern_in a p b prev (c # cs) = (((\<not> a \<or> at_word prev) \<and> pieces p b (c # cs)) \<or> pattern_in a p b (Some c) cs)"

definition says :: "string \<Rightarrow> string \<Rightarrow> bool" where
  "says e w = pattern_in False [[w]] False None e"

definition saysNumber :: "string \<Rightarrow> string list \<Rightarrow> bool" where
  "saysNumber e ns = pattern_in True [ns] True None e"

definition SEP :: "string list" where "SEP = [[], '' '', ''_'', ''-'']"

datatype error_class = CAuth | CCredit | CRate | CRemote | CRefused | CDns | CInstall | CSibling | CUnknown

definition NOTHING_CLASSES :: "error_class list" where "NOTHING_CLASSES = [CAuth, CCredit, CRate, CRemote]"
definition RESTART_CLASSES :: "error_class list" where "RESTART_CLASSES = [CRefused, CDns, CInstall, CSibling]"

definition authWords :: "string \<Rightarrow> bool" where
  "authWords e \<longleftrightarrow> saysNumber e [''401'', ''403'']
     \<or> pattern_in False [[''invalid''], SEP, [[], ''x-''], [[], ''api'', ''api '', ''api_'', ''api-''], [''key'']] False None e
     \<or> pattern_in False [[''unauthori''], [''s'', ''z''], [''ed'']] False None e
     \<or> list_ex (says e) [''forbidden'', ''authentication'', ''permission denied'']"

definition creditWords :: "string \<Rightarrow> bool" where
  "creditWords e \<longleftrightarrow> saysNumber e [''402''] \<or> pattern_in False [[''insufficient''], SEP, [''funds'']] False None e
     \<or> list_ex (says e) [''credit'', ''quota'', ''billing'', ''payment required'', ''hit your limit'']"

definition rateWords :: "string \<Rightarrow> bool" where
  "rateWords e \<longleftrightarrow> saysNumber e [''429''] \<or> pattern_in False [[''rate''], SEP, [''limit'']] False None e \<or> says e ''too many requests''"

definition installWords :: "string \<Rightarrow> bool" where
  "installWords e \<longleftrightarrow> pattern_in False [[''no ''], [[], [CHR 0x60]], [''claude''], [[], [CHR 0x60]], ['' binary'']] False None e
     \<or> list_ex (says e) [''did not install'', ''not installed'', ''command not found'', ''missing agent binary'']"

definition refusedWords :: "string \<Rightarrow> bool" where
  "refusedWords e \<longleftrightarrow> pattern_in False [[''errno 61'']] True None e
     \<or> list_ex (says e) [''connection refused'', ''errno 111'', ''econnrefused'', ''connection reset'', ''errno 104'', ''econnreset'']"

definition dnsWords :: "string \<Rightarrow> bool" where
  "dnsWords e \<longleftrightarrow> pattern_in False [[''errno -''], [''2'', ''3'']] True None e
     \<or> list_ex (says e) [''name or service not known'', ''nodename nor servname'', ''getaddrinfo'', ''name resolution'', ''could not resolve'', ''enotfound'']"

definition statusWords :: "string \<Rightarrow> bool" where
  "statusWords e \<longleftrightarrow> saysNumber e [''500'', ''503'', ''504'', ''529'']
     \<or> list_ex (says e) [''overloaded'', ''internal server error'', ''service unavailable'', ''gateway timeout'']"

definition timeoutWords :: "string \<Rightarrow> bool" where
  "timeoutWords e \<longleftrightarrow> pattern_in False [[''time''], [[], ''d''], [[], '' ''], [''out'']] False None e
     \<or> list_ex (says e) [''timeout'', ''did not answer'', ''no answer'']"

definition gatewayWords :: "string \<Rightarrow> bool" where
  "gatewayWords e \<longleftrightarrow> saysNumber e [''502''] \<or> says e ''bad gateway''"

definition errorClass :: "string option \<Rightarrow> agent_via option \<Rightarrow> error_class" where
  "errorClass error via =
     (let e = map to_lower (nvl error [])
      in if trim e = [] then CUnknown
         else if authWords e then CAuth
         else if creditWords e then CCredit
         else if rateWords e then CRate
         else if installWords e then CInstall
         else if refusedWords e then CRefused
         else if dnsWords e then CDns
         else if via = Some ViaSibling \<or> via = Some ViaBroker then
           (if statusWords e then CRemote else if gatewayWords e \<or> timeoutWords e then CSibling else CUnknown)
         else if statusWords e \<or> timeoutWords e \<or> gatewayWords e then CRemote
         else CUnknown)"

subsection \<open>The site, and the probe's age\<close>

definition siteKey :: "string \<Rightarrow> login option \<Rightarrow> string option \<Rightarrow> string option" where
  "siteKey trust owner site = (if \<not> truthy site then None
     else Some ((if trust = ''project'' then ''project/'' else nvl owner ''?'' @ ''/'') @ nvl site []))"

text \<open>Infinite, None, when the pool never saw a probe.\<close>

definition probeAge :: "string option \<Rightarrow> int option \<Rightarrow> probe option \<Rightarrow> int \<Rightarrow> int option" where
  "probeAge rowCheckedAt rowProbedAt pr now =
     (case pr of
        Some p \<Rightarrow> if pb_checked_at p \<noteq> rowCheckedAt then Some 0 else map_option (\<lambda>t. now - t) rowProbedAt
      | None \<Rightarrow> map_option (\<lambda>t. now - t) rowProbedAt)"

subsection \<open>What is stored is safe and canonical\<close>

lemma set_foldSpaces2: "set (foldSpaces2 s) \<subseteq> set s \<union> {CHR '' ''}"
  by (induction s rule: foldSpaces2.induct) (auto dest: set_dropWhileD)

lemma set_trim: "set (trim s) \<subseteq> set s"
  unfolding trim_def by (auto dest!: set_dropWhileD)

text \<open>
  Text a person or a worker gave is stored without a control character (a line feed only where lines are kept, so no escape
  sequence is left to steer a terminal), no longer than its bound, and without anything that looks like a secret.
\<close>

theorem cleanText_safe:
  assumes "cleanText v most lines = Some t"
  shows "length t \<le> most \<and> findLeak t = None \<and> (\<forall>c \<in> set t. text_control c \<longrightarrow> lines \<and> c = CHR 0x0A)"
proof (cases "jstr v")
  case None
  moreover have "findLeak [] = None" by code_simp
  ultimately show ?thesis using assms by (auto simp: cleanText_def)
next
  case (Some s)
  define t1 where "t1 = (if lines then filter (\<lambda>c. \<not> (text_control c \<and> \<not> code_in 10 10 c)) (crlf (stripAnsi s))
       else foldSpaces2 (filter (\<lambda>c. \<not> text_control c) (foldRuns (\<lambda>c. code_in 13 13 c \<or> code_in 9 10 c) False (stripAnsi s))))"
  have t: "t = take most (trim t1)" "findLeak t = None"
    using assms Some by (auto simp: cleanText_def t1_def Let_def split: if_splits)
  have space: "\<not> text_control (CHR '' '')" by (simp add: text_control_def code_in_def)
  have line: "c = CHR 0x0A" if "code_in 10 10 c" for c
  proof -
    have "(of_char c :: int) = of_char (CHR 0x0A)" using that by (simp add: code_in_def)
    then show ?thesis by (simp only: of_char_eq_iff)
  qed
  have "lines \<and> c = CHR 0x0A" if c: "c \<in> set t1" "text_control c" for c
  proof (cases lines)
    case True
    with c have "code_in 10 10 c" by (simp add: t1_def)
    with True line show ?thesis by blast
  next
    case False
    with c(1) have "c \<in> set (foldSpaces2 (filter (\<lambda>c. \<not> text_control c) (foldRuns (\<lambda>c. code_in 13 13 c \<or> code_in 9 10 c) False (stripAnsi s))))"
      by (simp only: t1_def if_False)
    then have "c \<in> set (filter (\<lambda>c. \<not> text_control c) (foldRuns (\<lambda>c. code_in 13 13 c \<or> code_in 9 10 c) False (stripAnsi s))) \<union> {CHR '' ''}"
      using set_foldSpaces2 by fast
    with c(2) space show ?thesis by auto
  qed
  moreover have "set t \<subseteq> set t1" using t(1) set_trim set_take_subset by fast
  ultimately show ?thesis using t by auto
qed

theorem cleanText_safe_witness:
  "cleanText (Some (JStr ([CHR 0x1B] @ ''[31mred'' @ [CHR 0x0A] @ ''x  y''))) 6 False = Some ''red x ''
    \<and> length ''red x '' \<le> 6 \<and> findLeak ''red x '' = None"
proof -
  have "cleanText (Some (JStr ([CHR 0x1B] @ ''[31mred'' @ [CHR 0x0A] @ ''x  y''))) 6 False = Some ''red x ''" by code_simp
  then show ?thesis using cleanText_safe [of _ 6 False "''red x ''"] by simp
qed

lemma image_of_parseUpdater: "parseUpdater u = Some (Some i, f) \<Longrightarrow> image_word i"
  by (auto simp: parseUpdater_def split: option.splits if_splits)

text \<open>
  C26. A worker's report of its set is stored in one form and reads back as it was: whatever the claim's words, what the row keeps
  of them parses to the same report, so the same words never write the row again.
\<close>

theorem rollout_roundtrip: "rolloutOf (rolloutJson (parseRollout v)) = parseRollout v"
proof (cases "parseRollout v")
  case None
  then show ?thesis by (simp add: rolloutOf_def rolloutJson_def parseRollout_def one_of_def jfield_def jstr_def)
next
  case (Some r)
  show ?thesis
  proof (cases r)
    case (SetUnknown u)
    with Some show ?thesis
      by (cases u) (simp_all add: rolloutOf_def rolloutJson_def parseRollout_def one_of_def UNKNOWN_WORDS_def jfield_def jstr_def)
  next
    case (SetReport u s)
    have "\<forall>i f. u = Some (Some i, f) \<longrightarrow> image_word i"
      using Some SetReport by (auto simp: parseRollout_def dest!: image_of_parseUpdater split: option.splits if_splits)
    then have img: "\<And>i f. u = Some (Some i, f) \<Longrightarrow> image_word i" by blast
    have script: "one_of SCRIPT_WORDS (Some (JStr (script_word s))) = Some s"
      by (cases s) (simp_all add: one_of_def SCRIPT_WORDS_def jstr_def)
    show ?thesis
    proof (cases u)
      case None
      with Some SetReport script show ?thesis
        by (simp add: rolloutOf_def rolloutJson_def parseRollout_def one_of_def [of UNKNOWN_WORDS] jfield_def jstr_def [of None])
    next
      case (Some p)
      obtain i f where p: "p = (i, f)" by (cases p)
      have "parseUpdater (Some (JObj [(''image'', case i of None \<Rightarrow> JNull | Some i \<Rightarrow> JStr i), (''follows'', JBool f)])) = Some (i, f)"
        using img [of _ f] Some p by (cases i) (simp_all add: parseUpdater_def jfield_def jbool_def jstr_def)
      with \<open>parseRollout v = Some r\<close> SetReport script Some p show ?thesis
        by (simp add: rolloutOf_def rolloutJson_def parseRollout_def one_of_def [of UNKNOWN_WORDS] jfield_def jstr_def [of None])
    qed
  qed
qed

lemma kind_name_inj: "kind_name a = kind_name b \<Longrightarrow> a = b"
  by (cases a; cases b) simp_all

lemma sort_key_by_set:
  assumes "distinct xs" "distinct ys" "set xs = set ys" "\<And>a b. f a = f b \<Longrightarrow> a = b"
  shows "sort_key f xs = sort_key (f :: 'a \<Rightarrow> string) ys"
proof -
  have inj: "inj_on f A" for A using assms(4) by (auto simp: inj_on_def)
  have "map f (sort_key f xs) = map f (sort_key f ys)"
    by (rule sorted_distinct_set_unique) (use assms(1-3) inj in \<open>auto simp: distinct_map\<close>)
  moreover have "inj f" using assms(4) by (auto simp: inj_def)
  ultimately show ?thesis by (simp add: inj_map_eq_map)
qed

text \<open>The kinds a claim declares, whatever the order and the repetitions they came in.\<close>

lemma canonicalKinds_by_set:
  assumes "set xs = set ys"
  shows "canonicalKinds (Some (JArr xs)) = canonicalKinds (Some (JArr ys))"
proof -
  let ?k = "\<lambda>xs. uniq (filter (\<lambda>k. k \<in> set DECLARABLE) (List.map_filter (\<lambda>x. Option.bind (jstr (Some x)) kind_of) xs))"
  have "set (List.map_filter (\<lambda>x. Option.bind (jstr (Some x)) kind_of) xs) = set (List.map_filter (\<lambda>x. Option.bind (jstr (Some x)) kind_of) ys)"
    using assms by (simp add: List.map_filter_def)
  then have "set (?k xs) = set (?k ys)" by (simp add: uniq_def)
  moreover have "distinct (?k zs)" for zs by (simp add: uniq_def)
  ultimately show ?thesis by (simp add: canonicalKinds_def jarr_def sort_key_by_set [OF _ _ _ kind_name_inj])
qed

end
