(* ===== verification/Worker_Process.thy ===== *)
theory Worker_Process
  imports Order_Claims Pool_Store
begin

text \<open>
  The process behind a worker's token (worker/src/orders.ts \<open>instanceStep\<close>): one process that goes on, a new one, or two on one
  token, and the churn a crash loop shows as. The row's columns the pool alone writes are the values their texts
  hold (a text that does not read is absent). The step's write is the row with it applied.
\<close>

subsection \<open>The worker's row\<close>

record open_order =
  oo_id :: string
  oo_kind :: order_kind
  oo_delivered :: bool
  oo_by :: string
  oo_at :: int
  oo_task :: "int option"

record watchdog_exits =
  wx_n :: int
  wx_since :: int
  wx_last :: int
  wx_stuck_in :: "stuck_in option"

record orders_row =
  or_id :: string
  or_owner :: "login option"
  or_trust :: string
  or_version :: "string option"
  or_agent_checked_at :: "string option"
  or_last_task :: "int option"
  or_open_orders :: "open_order list"
  or_order_kinds :: "order_kind list option"
  or_instance :: "string option"
  or_instance_prev :: "string option"
  or_instance_since :: "int option"
  or_conflict_at :: "int option"
  or_other_at :: "int option"
  or_churn :: "int option"
  or_finished :: "string option"
  or_crash_loop_since :: "int option"
  or_watchdog :: "watchdog_exits option"
  or_started_at :: "int option"
  or_agent_via :: "agent_via option"
  or_site :: "string option"
  or_restarts_left :: "int option"
  or_probed_at :: "int option"
  or_drained_at :: "int option"
  or_auto_orders :: "auto_state option"

subsection \<open>The step\<close>

datatype step_line =
    OneProcessAgain "string option"
  | StaysUp "string option"
  | TwoProcesses "string option" "string option"
  | WatchdogRestarted "stuck_in option"
  | WatchdogThrice int
  | WorksAgain "int option"
  | CrashLooping int "tag option"

record instance_step =
  is_row :: orders_row
  is_journal :: "step_line list"
  is_conflict :: bool
  is_instance :: "string option"
  is_since :: "int option"

definition recent :: "int option \<Rightarrow> int \<Rightarrow> int \<Rightarrow> bool" where
  "recent since now ms = (case since of None \<Rightarrow> False | Some t \<Rightarrow> now - t < ms)"

text \<open>What explains a process's end, and the count of those nothing explains.\<close>

definition explained :: "orders_row \<Rightarrow> claim_facts \<Rightarrow> bool" where
  "explained row c \<longleftrightarrow> cf_previous_exit c \<noteq> None
     \<or> list_ex (\<lambda>x. (oo_kind x = KRestart \<and> oo_delivered x) \<or> oo_kind x = KStop) (or_open_orders row)
     \<or> or_version row \<noteq> cf_version c"

definition finishedTask :: "orders_row \<Rightarrow> bool" where
  "finishedTask row \<longleftrightarrow> or_instance row \<noteq> None \<and> or_finished row = or_instance row"

definition unexplainedEnd :: "orders_row \<Rightarrow> claim_facts \<Rightarrow> int \<Rightarrow> bool" where
  "unexplainedEnd row c now \<longleftrightarrow> or_instance row \<noteq> None \<and> recent (or_instance_since row) now (CHURN_WINDOW_MIN * 60000)
     \<and> \<not> finishedTask row \<and> \<not> explained row c"

definition watchdogNext :: "orders_row \<Rightarrow> stuck_in option \<Rightarrow> int \<Rightarrow> watchdog_exits" where
  "watchdogNext row stuck now = (case or_watchdog row of
     Some w \<Rightarrow> if now - wx_since w < WATCHDOG_RESET_H * HOUR
       then \<lparr>wx_n = wx_n w + 1, wx_since = wx_since w, wx_last = now, wx_stuck_in = stuck\<rparr>
       else \<lparr>wx_n = 1, wx_since = now, wx_last = now, wx_stuck_in = stuck\<rparr>
   | None \<Rightarrow> \<lparr>wx_n = 1, wx_since = now, wx_last = now, wx_stuck_in = stuck\<rparr>)"

text \<open>A new process: the fields it declares once, its watchdog's exits and the churn.\<close>

definition newProcess :: "orders_row \<Rightarrow> claim_facts \<Rightarrow> int \<Rightarrow> bool \<Rightarrow> step_line list \<Rightarrow> instance_step" where
  "newProcess row c now conflict journal =
     (let r1 = row\<lparr>or_instance_prev := or_instance row, or_instance := cf_instance c, or_instance_since := Some now, or_order_kinds := cf_takes c,
              or_agent_via := cf_agent_via c, or_site := siteKey (or_trust row) (or_owner row) (cf_site c), or_restarts_left := cf_restarts_left c,
              or_started_at := (case cf_started_at c of None \<Rightarrow> or_started_at row
                 | Some s \<Rightarrow> (case or_started_at row of Some r \<Rightarrow> if r > s then Some r else Some s | None \<Rightarrow> Some s))\<rparr>;
          churn1 = (if unexplainedEnd row c now then nvl (or_churn row) 0 + 1 else 0);
          watchdog = (case cf_previous_exit c of Some p \<Rightarrow> if pe_why p = ExWatchdog then Some (watchdogNext row (pe_stuck_in p) now) else None | None \<Rightarrow> None);
          churn2 = (if watchdog = None then churn1 else 0);
          r2 = (case watchdog of None \<Rightarrow> r1 | Some w \<Rightarrow> r1\<lparr>or_watchdog := Some w\<rparr>);
          j2 = journal @ (case watchdog of None \<Rightarrow> []
                 | Some w \<Rightarrow> if wx_n w = 1 then [WatchdogRestarted (wx_stuck_in w)] else if wx_n w = 3 then [WatchdogThrice (wx_n w)] else [])
      in if or_crash_loop_since row \<noteq> None \<and> finishedTask row
         then \<lparr>is_row = r2\<lparr>or_crash_loop_since := None, or_churn := Some 0\<rparr>, is_journal = j2 @ [WorksAgain (or_last_task row)],
                is_conflict = conflict, is_instance = cf_instance c, is_since = Some now\<rparr>
         else if churn2 \<ge> CRASH_LOOP_AT \<and> or_crash_loop_since row = None
         then \<lparr>is_row = r2\<lparr>or_crash_loop_since := Some now, or_churn := Some churn2\<rparr>, is_journal = j2 @ [CrashLooping churn2 (versionWord (cf_version c))],
                is_conflict = conflict, is_instance = cf_instance c, is_since = Some now\<rparr>
         else \<lparr>is_row = r2\<lparr>or_churn := Some churn2\<rparr>, is_journal = j2, is_conflict = conflict, is_instance = cf_instance c, is_since = Some now\<rparr>)"

text \<open>The process the row names goes on: a crash loop ends with one that stays up.\<close>

definition sameProcess :: "orders_row \<Rightarrow> claim_facts \<Rightarrow> int \<Rightarrow> bool \<Rightarrow> step_line list \<Rightarrow> instance_step" where
  "sameProcess row c now conflict journal =
     (let up = \<not> conflict \<and> or_crash_loop_since row \<noteq> None \<and> or_instance_since row \<noteq> None \<and> \<not> recent (or_instance_since row) now (CHURN_CLEAR_MIN * 60000);
          r1 = (if up then row\<lparr>or_crash_loop_since := None, or_churn := Some 0\<rparr> else row)
      in \<lparr>is_row = r1\<lparr>or_order_kinds := cf_takes c\<rparr>, is_journal = journal @ (if up then [StaysUp (cf_instance c)] else []),
          is_conflict = conflict, is_instance = or_instance row, is_since = or_instance_since row\<rparr>)"

definition afterConflict :: "orders_row \<Rightarrow> claim_facts \<Rightarrow> int \<Rightarrow> step_line list \<Rightarrow> instance_step" where
  "afterConflict row c now journal =
     (if cf_instance c = or_instance row then sameProcess row c now False journal
      else if cf_instance c \<noteq> None \<and> truthy (or_instance_prev row) \<and> cf_instance c = or_instance_prev row
           \<and> recent (or_instance_since row) now (CONFLICT_WINDOW_MIN * 60000)
      then \<lparr>is_row = row\<lparr>or_conflict_at := Some now, or_instance_prev := or_instance row, or_instance := cf_instance c, or_other_at := Some now,
               or_order_kinds := cf_takes c\<rparr>, is_journal = journal @ [TwoProcesses (or_instance row) (cf_instance c)],
             is_conflict = True, is_instance = cf_instance c, is_since = or_instance_since row\<rparr>
      else newProcess row c now False journal)"

definition instanceStep :: "orders_row \<Rightarrow> claim_facts \<Rightarrow> int \<Rightarrow> instance_step" where
  "instanceStep row c now =
     (if or_conflict_at row \<noteq> None then
        (if cf_instance c \<noteq> or_instance row then
           (if \<not> recent (or_other_at row) now (TOUCH_MINUTES * 60000)
            then \<lparr>is_row = row\<lparr>or_instance_prev := or_instance row, or_instance := cf_instance c, or_other_at := Some now, or_order_kinds := cf_takes c\<rparr>,
                   is_journal = [], is_conflict = True, is_instance = cf_instance c, is_since = or_instance_since row\<rparr>
            else \<lparr>is_row = row, is_journal = [], is_conflict = True, is_instance = or_instance row, is_since = or_instance_since row\<rparr>)
         else if recent (or_other_at row) now ((CONFLICT_WINDOW_MIN + TOUCH_MINUTES) * 60000)
         then \<lparr>is_row = row, is_journal = [], is_conflict = True, is_instance = or_instance row, is_since = or_instance_since row\<rparr>
         else afterConflict (row\<lparr>or_conflict_at := None, or_other_at := None\<rparr>) c now [OneProcessAgain (cf_instance c)])
      else afterConflict row c now [])"

subsection \<open>Runs of claims\<close>

text \<open>The columns only the step writes, and two ghosts: when a process other than the one the row named last claimed, and how many
  changes of process in a row nothing explained.\<close>

definition process_cols :: "orders_row \<Rightarrow> string option \<times> string option \<times> int option \<times> int option \<times> int option \<times> int option \<times> int option" where
  "process_cols r = (or_instance r, or_instance_prev r, or_instance_since r, or_conflict_at r, or_other_at r, or_churn r, or_crash_loop_since r)"

definition comesBack :: "orders_row \<Rightarrow> claim_facts \<Rightarrow> int \<Rightarrow> bool" where
  "comesBack row c now \<longleftrightarrow> cf_instance c \<noteq> None \<and> truthy (or_instance_prev row) \<and> cf_instance c = or_instance_prev row
     \<and> recent (or_instance_since row) now (CONFLICT_WINDOW_MIN * 60000)"

definition changesProcess :: "orders_row \<Rightarrow> claim_facts \<Rightarrow> int \<Rightarrow> bool" where
  "changesProcess row c now \<longleftrightarrow> or_conflict_at row = None \<and> cf_instance c \<noteq> or_instance row \<and> \<not> comesBack row c now"

inductive process_run :: "orders_row \<Rightarrow> int option \<Rightarrow> nat \<Rightarrow> bool" where
  Registered: "or_conflict_at row = None \<Longrightarrow> or_churn row = None \<Longrightarrow> process_run row None 0"
| Claims: "process_run row other n \<Longrightarrow> process_run (is_row (instanceStep row c now)) (if cf_instance c \<noteq> or_instance row then Some now else other)
    (if changesProcess row c now then if unexplainedEnd row c now then Suc n else 0 else n)"
| Elsewhere: "process_run row other n \<Longrightarrow> process_cols row' = process_cols row \<Longrightarrow> process_run row' other n"

lemma newProcess_row:
  "or_conflict_at (is_row (newProcess row c now b j)) = or_conflict_at row" "or_other_at (is_row (newProcess row c now b j)) = or_other_at row"
  "is_conflict (newProcess row c now b j) = b"
  "nvl (or_churn (is_row (newProcess row c now b j))) 0 \<le> (if unexplainedEnd row c now then max 0 (nvl (or_churn row) 0 + 1) else 0)"
  by (auto simp: newProcess_def Let_def CRASH_LOOP_AT_def split: option.splits)

lemma newProcess_loops:
  assumes "or_crash_loop_since row = None" "or_crash_loop_since (is_row (newProcess row c now b j)) \<noteq> None"
  shows "unexplainedEnd row c now \<and> CRASH_LOOP_AT \<le> nvl (or_churn row) 0 + 1"
proof -
  let ?watchdog = "case cf_previous_exit c of Some p \<Rightarrow> if pe_why p = ExWatchdog then Some (watchdogNext row (pe_stuck_in p) now) else None | None \<Rightarrow> None"
  let ?churn = "if ?watchdog = None then if unexplainedEnd row c now then nvl (or_churn row) 0 + 1 else 0 else 0"
  have "CRASH_LOOP_AT \<le> ?churn"
  proof (rule ccontr)
    assume "\<not> CRASH_LOOP_AT \<le> ?churn"
    with assms show False unfolding newProcess_def Let_def by (cases ?watchdog) simp_all
  qed
  then show ?thesis by (simp add: CRASH_LOOP_AT_def split: if_splits)
qed

lemma sameProcess_row:
  "or_conflict_at (is_row (sameProcess row c now b j)) = or_conflict_at row" "or_other_at (is_row (sameProcess row c now b j)) = or_other_at row"
  "is_conflict (sameProcess row c now b j) = b"
  "or_churn (is_row (sameProcess row c now b j)) \<in> {or_churn row, Some 0}"
  "or_crash_loop_since row = None \<Longrightarrow> or_crash_loop_since (is_row (sameProcess row c now b j)) = None"
  by (auto simp: sameProcess_def Let_def)

lemma step_conflict:
  assumes "or_conflict_at row = None"
  shows "or_conflict_at (is_row (instanceStep row c now)) = (if comesBack row c now \<and> cf_instance c \<noteq> or_instance row then Some now else None)"
    "or_conflict_at (is_row (instanceStep row c now)) \<noteq> None \<Longrightarrow> or_other_at (is_row (instanceStep row c now)) = Some now"
  using assms by (auto simp: instanceStep_def afterConflict_def comesBack_def newProcess_row sameProcess_row split: if_splits)

lemma step_in_conflict:
  assumes "or_conflict_at row \<noteq> None" "or_conflict_at (is_row (instanceStep row c now)) \<noteq> None"
  shows "or_other_at (is_row (instanceStep row c now)) =
      (if cf_instance c \<noteq> or_instance row \<and> \<not> recent (or_other_at row) now (TOUCH_MINUTES * 60000) then Some now else or_other_at row)"
    "or_churn (is_row (instanceStep row c now)) = or_churn row"
  using assms by (auto simp: instanceStep_def afterConflict_def newProcess_row sameProcess_row split: if_splits)

lemma step_clears:
  assumes "or_conflict_at row \<noteq> None" "or_conflict_at (is_row (instanceStep row c now)) = None"
  shows "cf_instance c = or_instance row" "\<not> recent (or_other_at row) now ((CONFLICT_WINDOW_MIN + TOUCH_MINUTES) * 60000)"
  using assms by (auto simp: instanceStep_def afterConflict_def newProcess_row sameProcess_row split: if_splits)

lemma step_churn:
  "nvl (or_churn (is_row (instanceStep row c now))) 0 \<le>
     (if changesProcess row c now then if unexplainedEnd row c now then max 0 (nvl (or_churn row) 0 + 1) else 0 else max 0 (nvl (or_churn row) 0))"
proof -
  have same: "nvl (or_churn (is_row (sameProcess r c now b j))) 0 \<le> max 0 (nvl (or_churn r) 0)" for r b j
    using sameProcess_row(4) [of r c now b j] by auto
  have cleared: "unexplainedEnd (row\<lparr>or_conflict_at := None, or_other_at := None\<rparr>) c now = unexplainedEnd row c now"
    by (simp add: unexplainedEnd_def finishedTask_def explained_def)
  show ?thesis
    using newProcess_row(4) [of row c now False "[]"] same [of row False "[]"] same [of "row\<lparr>or_conflict_at := None, or_other_at := None\<rparr>" False "[OneProcessAgain (cf_instance c)]"]
    by (auto simp: instanceStep_def afterConflict_def changesProcess_def comesBack_def)
qed

lemma process_run_inv:
  assumes "process_run row other n"
  shows "(or_conflict_at row \<noteq> None \<longrightarrow> (\<exists>a l. or_other_at row = Some a \<and> other = Some l \<and> l - a < TOUCH_MINUTES * 60000))
    \<and> nvl (or_churn row) 0 \<le> int n"
  using assms
proof (induction rule: process_run.induct)
  case (Claims row other n c now)
  let ?row = "is_row (instanceStep row c now)"
  have churn: "nvl (or_churn ?row) 0 \<le> int (if changesProcess row c now then if unexplainedEnd row c now then Suc n else 0 else n)"
    using step_churn [of row c now] Claims.IH by (auto split: if_splits)
  have "\<exists>a l. or_other_at ?row = Some a \<and> (if cf_instance c \<noteq> or_instance row then Some now else other) = Some l \<and> l - a < TOUCH_MINUTES * 60000"
    if held: "or_conflict_at ?row \<noteq> None"
  proof (cases "or_conflict_at row")
    case None
    from step_conflict [OF None, of c now] held show ?thesis by (auto simp: TOUCH_MINUTES_def split: if_splits)
  next
    case (Some k)
    then have was: "or_conflict_at row \<noteq> None" by simp
    with Claims.IH obtain a l where al: "or_other_at row = Some a" "other = Some l" "l - a < TOUCH_MINUTES * 60000" by blast
    from step_in_conflict(1) [OF was held] al show ?thesis by (auto simp: recent_def TOUCH_MINUTES_def split: if_splits)
  qed
  with churn show ?case by blast
next
  case (Elsewhere row other n row')
  then show ?case by (simp add: process_cols_def)
qed simp

text \<open>
  Two processes on one token are told apart from one for as long as both claim: the mark is lifted only by a claim of the process
  the row names, and only when no other process has claimed for more than ten minutes, whatever the other parts of
  the pool wrote meanwhile.
\<close>

theorem conflict_ends_alone:
  assumes "process_run row other n" "or_conflict_at row \<noteq> None" "or_conflict_at (is_row (instanceStep row c now)) = None"
  shows "cf_instance c = or_instance row \<and> (\<exists>l. other = Some l \<and> now - l > CONFLICT_WINDOW_MIN * 60000)"
proof -
  from process_run_inv [OF assms(1)] assms(2) obtain a l where al: "or_other_at row = Some a" "other = Some l" "l - a < TOUCH_MINUTES * 60000"
    by blast
  from step_clears [OF assms(2,3)] al show ?thesis
    by (auto simp: recent_def CONFLICT_WINDOW_MIN_def TOUCH_MINUTES_def)
qed

text \<open>
  A crash loop is said only of a worker whose last three changes of process nothing explained: each process lived under ten
  minutes, finished no task, and no delivered restart, stop, new version or deliberate exit accounts for its end.
\<close>

theorem crash_loop_means_three:
  assumes "process_run row other n" "or_crash_loop_since row = None" "or_crash_loop_since (is_row (instanceStep row c now)) \<noteq> None"
  shows "changesProcess row c now \<and> unexplainedEnd row c now \<and> 2 \<le> n"
proof -
  have same: "or_crash_loop_since (is_row (sameProcess r c now b j)) = None" if "or_crash_loop_since r = None" for r b j
    using that by (rule sameProcess_row(5))
  have "changesProcess row c now \<and> or_crash_loop_since (is_row (newProcess row c now False [])) \<noteq> None"
    using assms(2,3) same by (auto simp: instanceStep_def afterConflict_def changesProcess_def comesBack_def split: if_splits)
  moreover from this newProcess_loops [OF assms(2)] have "unexplainedEnd row c now \<and> CRASH_LOOP_AT \<le> nvl (or_churn row) 0 + 1" by blast
  moreover have "nvl (or_churn row) 0 \<le> int n" using process_run_inv [OF assms(1)] by blast
  ultimately show ?thesis by (simp add: CRASH_LOOP_AT_def)
qed

subsection \<open>A run to witness them\<close>

definition ex_orders_row :: orders_row where
  "ex_orders_row = \<lparr>or_id = ''w1'', or_owner = Some ''ann'', or_trust = ''project'', or_version = Some ''v1.0.0'', or_agent_checked_at = None, or_last_task = None,
     or_open_orders = [], or_order_kinds = None, or_instance = None, or_instance_prev = None, or_instance_since = None, or_conflict_at = None, or_other_at = None,
     or_churn = None, or_finished = None, or_crash_loop_since = None, or_watchdog = None, or_started_at = None, or_agent_via = None, or_site = None,
     or_restarts_left = None, or_probed_at = None, or_drained_at = None, or_auto_orders = None\<rparr>"

definition ex_facts :: "string \<Rightarrow> claim_facts" where
  "ex_facts i = \<lparr>cf_takes = Some [KDrain, KRecheck, KRestart], cf_instance = Some i, cf_started_at = None, cf_agent_via = Some ViaDirect, cf_site = None,
     cf_restarts_left = None, cf_previous_exit = None, cf_version = Some ''v1.0.0'', cf_probe = None, cf_pair_restart = False, cf_rollout = None\<rparr>"

text \<open>Claims of processes at minutes, one after the other: the row, the other's last claim and the streak.\<close>

fun ex_claims :: "(string \<times> int) list \<Rightarrow> orders_row \<times> int option \<times> nat \<Rightarrow> orders_row \<times> int option \<times> nat" where
  "ex_claims [] s = s"
| "ex_claims ((i, m) # cs) (row, other, n) = ex_claims cs
     (is_row (instanceStep row (ex_facts i) (m * 60000)), (if Some i \<noteq> or_instance row then Some (m * 60000) else other),
      (if changesProcess row (ex_facts i) (m * 60000) then if unexplainedEnd row (ex_facts i) (m * 60000) then Suc n else 0 else n))"

lemma ex_claims_run: "process_run row other n \<Longrightarrow> (case ex_claims cs (row, other, n) of (r, l, k) \<Rightarrow> process_run r l k)"
proof (induction cs arbitrary: row other n)
  case (Cons x cs)
  obtain i m where x: "x = (i, m)" by (cases x)
  have "cf_instance (ex_facts i) = Some i" by (simp add: ex_facts_def)
  with Claims [OF Cons.prems, of "ex_facts i" "m * 60000"] Cons.IH show ?case by (simp add: x)
qed simp

lemma ex_registered: "process_run ex_orders_row None 0"
  by (rule Registered) (simp_all add: ex_orders_row_def)

theorem conflict_ends_alone_witness:
  "is_journal (instanceStep (fst (ex_claims [(''a'', 0), (''b'', 1), (''a'', 2), (''b'', 6)] (ex_orders_row, None, 0))) (ex_facts ''b'') (20 * 60000))
      = [OneProcessAgain (Some ''b'')]
    \<and> 20 * 60000 - 6 * 60000 > CONFLICT_WINDOW_MIN * 60000"
proof -
  obtain r l k where e: "ex_claims [(''a'', 0), (''b'', 1), (''a'', 2), (''b'', 6)] (ex_orders_row, None, 0) = (r, l, k)" by (metis prod.collapse)
  have run: "process_run r l k" using ex_claims_run [OF ex_registered, of "[(''a'', 0), (''b'', 1), (''a'', 2), (''b'', 6)]"] e by simp
  have facts: "or_conflict_at (fst (ex_claims [(''a'', 0), (''b'', 1), (''a'', 2), (''b'', 6)] (ex_orders_row, None, 0))) \<noteq> None"
    "fst (snd (ex_claims [(''a'', 0), (''b'', 1), (''a'', 2), (''b'', 6)] (ex_orders_row, None, 0))) = Some (6 * 60000)"
    "or_conflict_at (is_row (instanceStep (fst (ex_claims [(''a'', 0), (''b'', 1), (''a'', 2), (''b'', 6)] (ex_orders_row, None, 0))) (ex_facts ''b'') (20 * 60000))) = None"
    "is_journal (instanceStep (fst (ex_claims [(''a'', 0), (''b'', 1), (''a'', 2), (''b'', 6)] (ex_orders_row, None, 0))) (ex_facts ''b'') (20 * 60000)) = [OneProcessAgain (Some ''b'')]"
    by code_simp+
  note facts' = facts [unfolded e fst_conv snd_conv]
  from conflict_ends_alone [OF run facts'(1,3)] facts'(2) have "20 * 60000 - 6 * 60000 > CONFLICT_WINDOW_MIN * 60000" by simp
  with facts'(4) show ?thesis unfolding e fst_conv by blast
qed

theorem crash_loop_means_three_witness:
  "or_crash_loop_since (fst (ex_claims [(''a'', 0), (''b'', 1), (''c'', 2), (''d'', 3)] (ex_orders_row, None, 0))) = Some (3 * 60000)
    \<and> 2 \<le> snd (snd (ex_claims [(''a'', 0), (''b'', 1), (''c'', 2)] (ex_orders_row, None, 0)))"
proof -
  obtain r l k where e: "ex_claims [(''a'', 0), (''b'', 1), (''c'', 2)] (ex_orders_row, None, 0) = (r, l, k)" by (metis prod.collapse)
  have run: "process_run r l k" using ex_claims_run [OF ex_registered, of "[(''a'', 0), (''b'', 1), (''c'', 2)]"] e by simp
  have facts: "or_crash_loop_since (fst (ex_claims [(''a'', 0), (''b'', 1), (''c'', 2)] (ex_orders_row, None, 0))) = None"
    "or_crash_loop_since (is_row (instanceStep (fst (ex_claims [(''a'', 0), (''b'', 1), (''c'', 2)] (ex_orders_row, None, 0))) (ex_facts ''d'') (3 * 60000))) = Some (3 * 60000)"
    "or_crash_loop_since (fst (ex_claims [(''a'', 0), (''b'', 1), (''c'', 2), (''d'', 3)] (ex_orders_row, None, 0))) = Some (3 * 60000)"
    by code_simp+
  note facts' = facts(1,2) [unfolded e fst_conv snd_conv]
  have "or_crash_loop_since (is_row (instanceStep r (ex_facts ''d'') (3 * 60000))) \<noteq> None" using facts'(2) by simp
  from crash_loop_means_three [OF run facts'(1) this] have "2 \<le> k" by blast
  with facts(3) show ?thesis unfolding e snd_conv by blast
qed

end
