(* ===== verification/Order_Rules.thy ===== *)
theory Order_Rules
  imports Worker_Process
begin

text \<open>
  The pool's own rules (worker/src/orders.ts): what it orders a worker whose agent does not answer, pure over the claim and the row
  (\<open>decideAuto\<close>), the site's word on a restart (\<open>siteVerdict\<close>), and the fleet breaker's counts. The rules'
  timings are divided by a scale, one in a release: \<open>past x m scale\<close> is \<^verbatim>\<open>x >= m * MIN / scale\<close> multiplied out.
\<close>

subsection \<open>The rules' state\<close>

definition autoOf :: "auto_state option \<Rightarrow> int option \<Rightarrow> int \<Rightarrow> auto_state" where
  "autoOf v spell now =
     (let day = (case v of None \<Rightarrow> [] | Some a \<Rightarrow> filter (\<lambda>d. now - snd d < DAY) (au_day a));
          fresh = \<lparr>au_spell = spell, au_rechecks = 0, au_restarts = 0, au_last_recheck = None, au_last_restart = None, au_gave_up = None, au_day = day\<rparr>
      in case v of
           None \<Rightarrow> fresh
         | Some a \<Rightarrow> if au_spell a \<noteq> spell then fresh else a\<lparr>au_day := day\<rparr>)"

text \<open>\<^verbatim>\<open>WORKER_RULES_SCALE\<close> as a number where it is a whole one, and whether it is set but ignored.\<close>

definition rulesScale :: "string option \<Rightarrow> int option \<Rightarrow> nat \<times> bool" where
  "rulesScale poolVersion n =
     (let asked = (case n of Some k \<Rightarrow> if 1 \<le> k \<and> k \<le> 60 then nat k else 1 | None \<Rightarrow> 1)
      in if parseTag poolVersion \<noteq> None then (1, asked \<noteq> 1) else (asked, False))"

definition rulesOn :: "string option \<Rightarrow> bool" where
  "rulesOn v \<longleftrightarrow> map to_lower (trim (nvl v [])) \<noteq> ''off''"

subsection \<open>The decision\<close>

datatype nothing_why =
    NoReason
  | CannotHelp error_class
  | GaveUpAt int nat
  | HostOnlyRechecked
  | UnknownError
  | WaitsToSee nat
  | OldBroker
  | NoRestartDeclared
  | TooYoung
  | RestartedThreeTimes

datatype auto_decision =
    DOrder order_kind nat bool auto_state error_class
  | DGiveUp auto_state error_class
  | DNothing nothing_why "error_class option"

record rule_input =
  ri_row :: orders_row
  ri_claim :: claim_facts
  ri_status :: "probe_status option"
  ri_error :: "string option"
  ri_spell :: "int option"
  ri_instance_since :: "int option"
  ri_conflict :: bool
  ri_needs_agent :: bool
  ri_sibling_answers :: bool
  ri_host :: bool

definition past :: "int \<Rightarrow> int \<Rightarrow> nat \<Rightarrow> bool" where
  "past x m scale \<longleftrightarrow> m * 60000 \<le> x * int scale"

definition dayOf :: "issue_kind \<Rightarrow> auto_state \<Rightarrow> nat" where
  "dayOf k a = length (filter (\<lambda>d. fst d = k) (au_day a))"

definition helpingKind :: "agent_via option \<Rightarrow> claim_facts \<Rightarrow> bool \<Rightarrow> auto_state \<Rightarrow> order_kind option" where
  "helpingKind via c siblingAnswers a =
     (if via = Some ViaSibling then
        (if KRestartAgent \<in> set (nvl (cf_takes c) []) \<and> \<not> siblingAnswers then (if au_restarts a \<ge> 1 then Some KRestart else Some KRestartAgent) else Some KRestart)
      else if via = Some ViaBroker then (if cf_pair_restart c then Some KRestart else None)
      else Some KRestart)"

definition recheckDue :: "rule_input \<Rightarrow> auto_state \<Rightarrow> int \<Rightarrow> int \<Rightarrow> nat \<Rightarrow> bool" where
  "recheckDue x a spell now scale \<longleftrightarrow>
     past (now - spell) RECHECK_AFTER_MIN scale \<and> au_restarts a = 0 \<and> au_rechecks a < MAX_POOL_RECHECKS_PER_SPELL
     \<and> KRecheck \<in> set (nvl (cf_takes (ri_claim x)) []) \<and> dayOf IssueRecheck a < MAX_POOL_RECHECKS_PER_DAY
     \<and> (case probeAge (or_agent_checked_at (ri_row x)) (or_probed_at (ri_row x)) (cf_probe (ri_claim x)) now of
          None \<Rightarrow> True | Some age \<Rightarrow> past age RECHECK_AFTER_MIN scale)"

text \<open>The restart's turn: which helps, whether it may, and when.\<close>

definition decideRestart :: "rule_input \<Rightarrow> auto_state \<Rightarrow> error_class \<Rightarrow> agent_via option \<Rightarrow> int \<Rightarrow> int \<Rightarrow> nat \<Rightarrow> auto_decision" where
  "decideRestart x a cls via spell now scale =
     (if au_restarts a \<ge> MAX_POOL_RESTARTS_PER_SPELL then
        (if (case au_last_restart a of None \<Rightarrow> False | Some t \<Rightarrow> past (now - t) GIVE_UP_AFTER_MIN scale)
         then DGiveUp (a\<lparr>au_gave_up := Some now\<rparr>) cls else DNothing (WaitsToSee (au_restarts a)) (Some cls))
      else (case helpingKind via (ri_claim x) (ri_sibling_answers x) a of
          None \<Rightarrow> DNothing OldBroker (Some cls)
        | Some kind \<Rightarrow>
            if kind \<notin> set (nvl (cf_takes (ri_claim x)) []) then DNothing (if kind = KRestart then NoRestartDeclared else NoReason) (Some cls)
            else if (if au_restarts a = 0
                then \<not> past (now - spell) RESTART_AFTER_MIN scale
                     \<or> (case au_last_recheck a of None \<Rightarrow> False | Some t \<Rightarrow> \<not> past (now - t) RECHECK_AFTER_MIN scale)
                else (case au_last_restart a of None \<Rightarrow> True | Some t \<Rightarrow> \<not> past (now - t) RESTART_SPACING_MIN scale))
            then DNothing NoReason (Some cls)
            else if (case ri_instance_since x of None \<Rightarrow> True | Some t \<Rightarrow> now - t < MIN_UPTIME_S * 1000) then DNothing TooYoung (Some cls)
            else if dayOf IssueRestart a \<ge> MAX_POOL_RESTARTS_PER_DAY then DNothing RestartedThreeTimes (Some cls)
            else DOrder kind (au_restarts a + 1) True
                   (a\<lparr>au_restarts := au_restarts a + 1, au_last_restart := Some now, au_day := au_day a @ [(IssueRestart, now)]\<rparr>) cls))"

definition decideAuto :: "rule_input \<Rightarrow> int \<Rightarrow> nat \<Rightarrow> auto_decision" where
  "decideAuto x now scale =
     (let row = ri_row x; c = ri_claim x in
      if cf_takes c = None \<or> ri_conflict x \<or> or_drained_at row \<noteq> None \<or> \<not> ri_needs_agent x then DNothing NoReason None
      else (case ri_spell x of
          None \<Rightarrow> DNothing NoReason None
        | Some spell \<Rightarrow>
           if ri_status x \<noteq> Some ProbeError \<or> or_open_orders row \<noteq> [] then DNothing NoReason None
           else (let via = (case cf_agent_via c of None \<Rightarrow> or_agent_via row | v \<Rightarrow> v);
                     cls = errorClass (ri_error x) via;
                     a = autoOf (or_auto_orders row) (Some spell) now
                 in if cls \<in> set NOTHING_CLASSES then DNothing (CannotHelp cls) (Some cls)
                    else (case au_gave_up a of
                        Some t \<Rightarrow> DNothing (GaveUpAt t (au_restarts a)) (Some cls)
                      | None \<Rightarrow>
                          if recheckDue x a spell now scale
                          then DOrder KRecheck 0 False
                                 (a\<lparr>au_rechecks := au_rechecks a + 1, au_last_recheck := Some now, au_day := au_day a @ [(IssueRecheck, now)]\<rparr>) cls
                          else if ri_host x then DNothing HostOnlyRechecked (Some cls)
                          else if cls = CUnknown then DNothing UnknownError (Some cls)
                          else decideRestart x a cls via spell now scale))))"

subsection \<open>The site and the breaker\<close>

record site_worker =
  sw_id :: string
  sw_via :: "agent_via option"
  sw_status :: "probe_status option"
  sw_kinds :: "order_kind list"
  sw_error_since :: "int option"
  sw_auto :: "auto_state option"

record site_read =
  sr_live :: "site_worker list"
  sr_last :: "int option"
  sr_open :: nat

definition siblingsAnswering :: "string \<Rightarrow> site_worker list \<Rightarrow> string list" where
  "siblingsAnswering self live = sort (map sw_id (filter (\<lambda>s. sw_id s \<noteq> self \<and> sw_via s = Some ViaSibling \<and> sw_status s = Some ProbeOk) live))"

datatype site_verdict =
    SiteOk "string list"
  | SharedGaveUp "string list" string
  | SharedThrough "string list" string
  | RestartOpen
  | RestartRecent int

definition siblingsInError :: "site_worker list \<Rightarrow> site_worker list" where
  "siblingsInError live = filter (\<lambda>s. sw_via s = Some ViaSibling \<and> sw_status s = Some ProbeError) live"

definition electedOf :: "site_worker list \<Rightarrow> site_worker option" where
  "electedOf live = first_of (sort_key sw_id (filter (\<lambda>s. KRestartAgent \<in> set (sw_kinds s)) (siblingsInError live)))"

definition siteVerdict :: "string \<Rightarrow> order_kind \<Rightarrow> site_read \<Rightarrow> int \<Rightarrow> nat \<Rightarrow> site_verdict" where
  "siteVerdict self kind read now scale =
     (let others = sort (filter (\<lambda>i. i \<noteq> self) (map sw_id (siblingsInError (sr_live read))));
          rest = (if sr_open read > 0 then RestartOpen
                  else (case sr_last read of
                      Some t \<Rightarrow> if \<not> past (now - t) SITE_SPACING_MIN scale then RestartRecent t else SiteOk others
                    | None \<Rightarrow> SiteOk others))
      in if kind = KRestartAgent then
           (case electedOf (sr_live read) of
              Some e \<Rightarrow> if sw_id e \<noteq> self then
                  (if (case sw_error_since e of Some s \<Rightarrow> au_gave_up (autoOf (sw_auto e) (Some s) now) \<noteq> None | None \<Rightarrow> False)
                   then SharedGaveUp others (sw_id e) else SharedThrough others (sw_id e))
                else rest
            | None \<Rightarrow> rest)
         else rest)"

definition providerOf :: "string option \<Rightarrow> string" where
  "providerOf agent = (if \<not> truthy agent then ''unknown'' else takeWhile (\<lambda>c. c \<noteq> CHR ''/'') (nvl agent []))"

datatype breaker_scope = ScopeProject | ScopeAll

definition breakerScope :: "string option \<Rightarrow> breaker_scope" where
  "breakerScope trust = (if trust = Some ''project'' then ScopeProject else ScopeAll)"

definition breakerKey :: "string \<Rightarrow> breaker_scope \<Rightarrow> string" where
  "breakerKey provider sc = ''worker-breaker:'' @ provider @ (if sc = ScopeProject then '':project'' else [])"

definition breakerOfKey :: "string \<Rightarrow> string \<times> breaker_scope" where
  "breakerOfKey key = (let rest = drop 15 key
     in if ends_with '':project'' rest then (take (length rest - 8) rest, ScopeProject) else (rest, ScopeAll))"

record spell_row =
  sp_id :: string
  sp_site :: "string option"
  sp_agent :: "string option"
  sp_trust :: "string option"

text \<open>The distinct sites of a provider with an open spell, in a scope: a worker's site, or its own when it has none.\<close>

definition sitesOf :: "spell_row list \<Rightarrow> breaker_scope \<Rightarrow> string \<Rightarrow> string set" where
  "sitesOf rows sc provider = (\<lambda>r. case sp_site r of Some s \<Rightarrow> s | None \<Rightarrow> ''worker:'' @ sp_id r) `
     set (filter (\<lambda>r. (sc = ScopeProject \<longrightarrow> sp_trust r = Some ''project'') \<and> providerOf (sp_agent r) = provider) rows)"

record breaker =
  br_since :: int
  br_peak :: nat
  br_below_since :: "int option"

text \<open>At a claim: a standing breaker, or one tripped now when enough sites are in a spell, the claiming worker's counted by what the
  claim says.\<close>

definition breakerHolds :: "breaker option \<Rightarrow> spell_row list \<Rightarrow> spell_row \<Rightarrow> error_class \<Rightarrow> int \<Rightarrow> breaker option" where
  "breakerHolds held rows self cls now = (case held of
     Some b \<Rightarrow> Some b
   | None \<Rightarrow>
      (let rs = filter (\<lambda>r. sp_id r \<noteq> sp_id self) rows @ (if cls \<in> set RESTART_CLASSES then [self] else []);
           n = card (sitesOf rs (breakerScope (sp_trust self)) (providerOf (sp_agent self)))
       in if n < BREAKER_SITES then None else Some \<lparr>br_since = now, br_peak = n, br_below_since = None\<rparr>))"

text \<open>At the cron's sweep: the breaker after it, None once it clears.\<close>

definition breakerSweep :: "breaker \<Rightarrow> nat \<Rightarrow> int \<Rightarrow> breaker option" where
  "breakerSweep b n now =
     (if n \<ge> BREAKER_CLEAR_BELOW then Some (b\<lparr>br_peak := max (br_peak b) n, br_below_since := None\<rparr>)
      else (case br_below_since b of
          None \<Rightarrow> Some (b\<lparr>br_below_since := Some now\<rparr>)
        | Some t \<Rightarrow> if now - t \<ge> BREAKER_CLEAR_MIN * 60000 then None else Some b))"

subsection \<open>What the rules never do\<close>

lemmas decide_defs = decideAuto_def decideRestart_def recheckDue_def helpingKind_def Let_def

lemma decideAuto_order:
  assumes "decideAuto x now scale = DOrder kind n unless next' cls"
  obtains spell via a where "ri_spell x = Some spell" "cf_takes (ri_claim x) \<noteq> None" "\<not> ri_conflict x" "or_drained_at (ri_row x) = None" "ri_needs_agent x"
    "ri_status x = Some ProbeError" "or_open_orders (ri_row x) = []" "cls = errorClass (ri_error x) via" "cls \<notin> set NOTHING_CLASSES"
    "a = autoOf (or_auto_orders (ri_row x)) (Some spell) now" "au_gave_up a = None"
    "kind = KRecheck \<and> recheckDue x a spell now scale
       \<and> next' = a\<lparr>au_rechecks := au_rechecks a + 1, au_last_recheck := Some now, au_day := au_day a @ [(IssueRecheck, now)]\<rparr>
     \<or> \<not> ri_host x \<and> cls \<noteq> CUnknown \<and> decideRestart x a cls via spell now scale = DOrder kind n unless next' cls"
proof -
  obtain spell where sp: "ri_spell x = Some spell" using assms by (cases "ri_spell x") (auto simp: decideAuto_def Let_def split: if_splits)
  define via where "via = (case cf_agent_via (ri_claim x) of None \<Rightarrow> or_agent_via (ri_row x) | v \<Rightarrow> v)"
  define a where "a = autoOf (or_auto_orders (ri_row x)) (Some spell) now"
  define c where "c = errorClass (ri_error x) via"
  have guards: "cf_takes (ri_claim x) \<noteq> None" "\<not> ri_conflict x" "or_drained_at (ri_row x) = None" "ri_needs_agent x"
    "ri_status x = Some ProbeError" "or_open_orders (ri_row x) = []"
    using assms sp by (simp_all add: decideAuto_def Let_def split: if_splits)
  from guards(1) obtain ks where ks: "cf_takes (ri_claim x) = Some ks" by blast
  have eq: "(if c \<in> set NOTHING_CLASSES then DNothing (CannotHelp c) (Some c)
      else (case au_gave_up a of Some t \<Rightarrow> DNothing (GaveUpAt t (au_restarts a)) (Some c)
        | None \<Rightarrow> if recheckDue x a spell now scale
            then DOrder KRecheck 0 False (a\<lparr>au_rechecks := au_rechecks a + 1, au_last_recheck := Some now, au_day := au_day a @ [(IssueRecheck, now)]\<rparr>) c
            else if ri_host x then DNothing HostOnlyRechecked (Some c)
            else if c = CUnknown then DNothing UnknownError (Some c)
            else decideRestart x a c via spell now scale)) = DOrder kind n unless next' cls"
    using assms sp guards ks unfolding decideAuto_def Let_def via_def a_def c_def by simp
  then have more: "c \<notin> set NOTHING_CLASSES" "au_gave_up a = None" by (auto split: if_splits option.splits)
  have restart_cls: "decideRestart x a c via spell now scale = DOrder kind n unless next' cls \<Longrightarrow> c = cls"
    by (auto simp: decideRestart_def split: if_splits option.splits)
  show thesis
  proof (rule that [OF sp guards _ _ a_def more(2)])
    show "cls = errorClass (ri_error x) via" "cls \<notin> set NOTHING_CLASSES"
      "kind = KRecheck \<and> recheckDue x a spell now scale
         \<and> next' = a\<lparr>au_rechecks := au_rechecks a + 1, au_last_recheck := Some now, au_day := au_day a @ [(IssueRecheck, now)]\<rparr>
       \<or> \<not> ri_host x \<and> cls \<noteq> CUnknown \<and> decideRestart x a cls via spell now scale = DOrder kind n unless next' cls"
      using eq more restart_cls by (auto simp: c_def [symmetric] split: if_splits)
  qed
qed

lemma decideRestart_order:
  assumes "decideRestart x a cls via spell now scale = DOrder kind n unless next' cls'"
  shows "au_restarts a < MAX_POOL_RESTARTS_PER_SPELL" "kind \<in> set POOL_RESTARTS" "kind \<in> set (nvl (cf_takes (ri_claim x)) [])"
    "au_restarts a = 0 \<Longrightarrow> past (now - spell) RESTART_AFTER_MIN scale"
    "au_restarts a \<noteq> 0 \<Longrightarrow> \<exists>t. au_last_restart a = Some t \<and> past (now - t) RESTART_SPACING_MIN scale"
    "\<exists>t. ri_instance_since x = Some t \<and> MIN_UPTIME_S * 1000 \<le> now - t" "dayOf IssueRestart a < MAX_POOL_RESTARTS_PER_DAY"
    "n = au_restarts a + 1" "unless" "next' = a\<lparr>au_restarts := au_restarts a + 1, au_last_restart := Some now, au_day := au_day a @ [(IssueRestart, now)]\<rparr>"
  using assms by (auto simp: decideRestart_def helpingKind_def POOL_RESTARTS_def split: if_splits option.splits)

text \<open>
  The pool restarts a worker only on its own declared word and only where a restart can help: the process declares the order, is
  alone on its token and not drained, has no order open and no host behind it, its agent fails in a class a restart
  may mend, the spell or the last restart is old enough, the process has been up two minutes on the pool's clock,
  the order carries its condition (none, if the agent answers by then), and the spell and the day have one left.
\<close>

theorem restart_only_where_it_helps:
  assumes "decideAuto x now 1 = DOrder kind n unless next' cls" "kind \<noteq> KRecheck"
  shows "kind \<in> set POOL_RESTARTS \<and> kind \<in> set (nvl (cf_takes (ri_claim x)) []) \<and> \<not> ri_host x \<and> \<not> ri_conflict x \<and> unless
    \<and> or_drained_at (ri_row x) = None \<and> or_open_orders (ri_row x) = [] \<and> ri_status x = Some ProbeError \<and> cls \<in> set RESTART_CLASSES
    \<and> (\<exists>t. ri_instance_since x = Some t \<and> 120000 \<le> now - t)
    \<and> (\<exists>spell. ri_spell x = Some spell \<and> (let a = autoOf (or_auto_orders (ri_row x)) (Some spell) now in
         au_gave_up a = None \<and> au_restarts a < 2 \<and> dayOf IssueRestart a < 3
         \<and> (if au_restarts a = 0 then 10 * 60000 \<le> now - spell else \<exists>t. au_last_restart a = Some t \<and> 30 * 60000 \<le> now - t)))"
proof -
  from assms(1) obtain spell via a where x: "ri_spell x = Some spell" "\<not> ri_conflict x" "or_drained_at (ri_row x) = None"
    "ri_status x = Some ProbeError" "or_open_orders (ri_row x) = []" "cls \<notin> set NOTHING_CLASSES"
    "a = autoOf (or_auto_orders (ri_row x)) (Some spell) now" "au_gave_up a = None" "\<not> ri_host x" "cls \<noteq> CUnknown"
    "decideRestart x a cls via spell now 1 = DOrder kind n unless next' cls"
    by (rule decideAuto_order) (use assms(2) in blast)
  have cls: "cls \<in> set RESTART_CLASSES"
    using x(6,10) by (cases cls) (simp_all add: NOTHING_CLASSES_def RESTART_CLASSES_def)
  show ?thesis
    using x cls decideRestart_order [OF x(11)]
    by (auto simp: Let_def past_def MIN_UPTIME_S_def RESTART_AFTER_MIN_def RESTART_SPACING_MIN_def MAX_POOL_RESTARTS_PER_SPELL_def MAX_POOL_RESTARTS_PER_DAY_def)
qed

subsection \<open>Over a worker's life\<close>

text \<open>The rules' state of one worker as the claims leave it, with the orders issued: each with its time and spell, the newest first. Time
  goes on, and so do the spells (a spell is when its error began).\<close>

definition issueOf :: "order_kind \<Rightarrow> issue_kind" where
  "issueOf kind = (if kind = KRecheck then IssueRecheck else IssueRestart)"

definition goes_on :: "auto_state option \<Rightarrow> int \<Rightarrow> bool" where
  "goes_on v spell = (case v of None \<Rightarrow> True | Some a \<Rightarrow> (case au_spell a of None \<Rightarrow> True | Some s \<Rightarrow> s \<le> spell))"

inductive rules_run :: "nat \<Rightarrow> auto_state option \<Rightarrow> (issue_kind \<times> int \<times> int) list \<Rightarrow> int \<Rightarrow> bool" for scale where
  Nothing: "rules_run scale None [] t"
| Issue: "rules_run scale v iss t \<Longrightarrow> t \<le> now \<Longrightarrow> or_auto_orders (ri_row x) = v \<Longrightarrow> ri_spell x = Some spell
    \<Longrightarrow> goes_on v spell \<Longrightarrow> decideAuto x now scale = DOrder kind n unless next' cls
    \<Longrightarrow> rules_run scale (Some next') ((issueOf kind, now, spell) # iss) now"
| GiveUp: "rules_run scale v iss t \<Longrightarrow> t \<le> now \<Longrightarrow> or_auto_orders (ri_row x) = v \<Longrightarrow> ri_spell x = Some spell
    \<Longrightarrow> goes_on v spell \<Longrightarrow> decideAuto x now scale = DGiveUp next' cls
    \<Longrightarrow> rules_run scale (Some next') iss now"
| SiteGivesUp: "rules_run scale v iss t \<Longrightarrow> t \<le> now \<Longrightarrow> or_auto_orders (ri_row x) = v \<Longrightarrow> ri_spell x = Some spell
    \<Longrightarrow> goes_on v spell \<Longrightarrow> decideAuto x now scale = DOrder kind n unless next' cls \<Longrightarrow> siteVerdict (or_id (ri_row x)) kind2 site now scale = SharedGaveUp others told
    \<Longrightarrow> rules_run scale (Some ((autoOf v (Some spell) now)\<lparr>au_gave_up := Some now\<rparr>)) iss now"

definition issuedIn :: "issue_kind \<Rightarrow> int \<Rightarrow> (issue_kind \<times> int \<times> int) list \<Rightarrow> nat" where
  "issuedIn k spell iss = length (filter (\<lambda>i. fst i = k \<and> snd (snd i) = spell) iss)"

definition issuedOver :: "issue_kind \<Rightarrow> int \<Rightarrow> (issue_kind \<times> int \<times> int) list \<Rightarrow> nat" where
  "issuedOver k w iss = length (filter (\<lambda>i. fst i = k \<and> w \<le> fst (snd i) \<and> fst (snd i) < w + DAY) iss)"

text \<open>How the state and the history agree.\<close>

definition rules_inv :: "auto_state option \<Rightarrow> (issue_kind \<times> int \<times> int) list \<Rightarrow> int \<Rightarrow> bool" where
  "rules_inv v iss t \<longleftrightarrow> (\<forall>(k, u, s) \<in> set iss. u \<le> t)
     \<and> (\<forall>k now. t \<le> now \<longrightarrow> length (filter (\<lambda>i. fst i = k \<and> now - fst (snd i) < DAY) iss)
           = length (filter (\<lambda>d. fst d = k \<and> now - snd d < DAY) (case v of None \<Rightarrow> [] | Some a \<Rightarrow> au_day a)))
     \<and> (case v of None \<Rightarrow> iss = []
        | Some a \<Rightarrow> (\<exists>spell. au_spell a = Some spell \<and> (\<forall>(k, u, s) \<in> set iss. s \<le> spell)
            \<and> issuedIn IssueRestart spell iss = au_restarts a \<and> issuedIn IssueRecheck spell iss = au_rechecks a))"

lemma autoOf_counts:
  assumes "rules_inv v iss t" "t \<le> now" "goes_on v spell"
  defines "a \<equiv> autoOf v (Some spell) now"
  shows "au_spell a = Some spell" "\<forall>(k, u, s) \<in> set iss. s \<le> spell"
    "issuedIn IssueRestart spell iss = au_restarts a" "issuedIn IssueRecheck spell iss = au_rechecks a"
    "dayOf k a = length (filter (\<lambda>i. fst i = k \<and> now - fst (snd i) < DAY) iss)"
    "au_day a = filter (\<lambda>d. now - snd d < DAY) (case v of None \<Rightarrow> [] | Some a \<Rightarrow> au_day a)"
proof -
  show day: "au_day a = filter (\<lambda>d. now - snd d < DAY) (case v of None \<Rightarrow> [] | Some a \<Rightarrow> au_day a)"
    by (simp add: a_def autoOf_def Let_def split: option.splits)
  show "au_spell a = Some spell" by (simp add: a_def autoOf_def Let_def split: option.splits)
  show "dayOf k a = length (filter (\<lambda>i. fst i = k \<and> now - fst (snd i) < DAY) iss)"
    using assms(1,2) by (simp add: dayOf_def day rules_inv_def conj_commute)
  have "(\<forall>(k, u, s) \<in> set iss. s \<le> spell) \<and> issuedIn IssueRestart spell iss = au_restarts a \<and> issuedIn IssueRecheck spell iss = au_rechecks a"
  proof (cases v)
    case None
    then show ?thesis using assms(1) by (simp add: a_def autoOf_def rules_inv_def issuedIn_def)
  next
    case (Some b)
    then obtain old where old: "au_spell b = Some old" "\<forall>(k, u, s) \<in> set iss. s \<le> old"
      "issuedIn IssueRestart old iss = au_restarts b" "issuedIn IssueRecheck old iss = au_rechecks b"
      using assms(1) by (auto simp: rules_inv_def)
    have le: "old \<le> spell" using assms(3) Some old(1) by (simp add: goes_on_def)
    show ?thesis
    proof (cases "old = spell")
      case True
      with Some old show ?thesis by (simp add: a_def autoOf_def Let_def)
    next
      case False
      then have "issuedIn k spell iss = 0" for k using old(2) le by (fastforce simp: issuedIn_def filter_empty_conv)
      with False Some old le show ?thesis by (force simp: a_def autoOf_def Let_def)
    qed
  qed
  then show "\<forall>(k, u, s) \<in> set iss. s \<le> spell" "issuedIn IssueRestart spell iss = au_restarts a" "issuedIn IssueRecheck spell iss = au_rechecks a"
    by blast+
qed

lemma autoOf_day:
  assumes "rules_inv v iss t" "t \<le> now" "goes_on v spell" "now \<le> later"
  shows "length (filter (\<lambda>i. fst i = q \<and> later - fst (snd i) < DAY) iss)
    = length (filter (\<lambda>d. fst d = q \<and> later - snd d < DAY) (au_day (autoOf v (Some spell) now)))"
proof -
  have "(fst d = q \<and> later - snd d < DAY \<and> now - snd d < DAY) \<longleftrightarrow> (fst d = q \<and> later - snd d < DAY)" for d :: "issue_kind \<times> int"
    using assms(4) by auto
  then have recent: "length (filter (\<lambda>d. fst d = q \<and> later - snd d < DAY) (filter (\<lambda>d. now - snd d < DAY) day))
      = length (filter (\<lambda>d. fst d = q \<and> later - snd d < DAY) day)" for day
    by (simp add: conj_commute conj_left_commute)
  have "length (filter (\<lambda>i. fst i = q \<and> later - fst (snd i) < DAY) iss)
      = length (filter (\<lambda>d. fst d = q \<and> later - snd d < DAY) (case v of None \<Rightarrow> [] | Some a \<Rightarrow> au_day a))"
    using assms(1,2,4) by (simp add: rules_inv_def)
  with recent show ?thesis unfolding autoOf_counts(6) [OF assms(1-3)] by simp
qed

lemma rules_inv_push:
  assumes "rules_inv v iss t" "t \<le> now" "goes_on v spell" "a = autoOf v (Some spell) now"
    "au_spell b = Some spell" "au_day b = au_day a @ [(k, now)]"
    "au_restarts b = au_restarts a + (if k = IssueRestart then 1 else 0)" "au_rechecks b = au_rechecks a + (if k = IssueRecheck then 1 else 0)"
  shows "rules_inv (Some b) ((k, now, spell) # iss) now"
proof -
  have "\<forall>(k, u, s) \<in> set iss. u \<le> now" using assms(1,2) by (force simp: rules_inv_def)
  then show ?thesis
    using autoOf_day [OF assms(1-3)] autoOf_counts(2-4) [OF assms(1-3)] assms(4-8) by (auto simp: rules_inv_def issuedIn_def)
qed

lemma rules_inv_keep:
  assumes "rules_inv v iss t" "t \<le> now" "goes_on v spell" "b = (autoOf v (Some spell) now)\<lparr>au_gave_up := Some now\<rparr>"
  shows "rules_inv (Some b) iss now"
proof -
  have "\<forall>(k, u, s) \<in> set iss. u \<le> now" using assms(1,2) by (force simp: rules_inv_def)
  then show ?thesis
    using autoOf_day [OF assms(1-3)] autoOf_counts(1-4) [OF assms(1-3)] assms(4) by (auto simp: rules_inv_def)
qed

definition per_day :: "issue_kind \<Rightarrow> nat" where
  "per_day k = (case k of IssueRestart \<Rightarrow> MAX_POOL_RESTARTS_PER_DAY | IssueRecheck \<Rightarrow> MAX_POOL_RECHECKS_PER_DAY)"

definition per_spell :: "issue_kind \<Rightarrow> nat" where
  "per_spell k = (case k of IssueRestart \<Rightarrow> MAX_POOL_RESTARTS_PER_SPELL | IssueRecheck \<Rightarrow> MAX_POOL_RECHECKS_PER_SPELL)"

definition budgets :: "(issue_kind \<times> int \<times> int) list \<Rightarrow> bool" where
  "budgets iss \<longleftrightarrow> (\<forall>k w. issuedOver k w iss \<le> per_day k) \<and> (\<forall>k s. issuedIn k s iss \<le> per_spell k)"

lemma length_filter_mono: "(\<And>x. x \<in> set xs \<Longrightarrow> P x \<Longrightarrow> Q x) \<Longrightarrow> length (filter P xs) \<le> length (filter Q xs)"
  by (induction xs) (auto simp: le_SucI)

lemma budgets_push:
  assumes "budgets iss" "rules_inv v iss t" "t \<le> now" "goes_on v spell" "a = autoOf v (Some spell) now"
    "dayOf k a < per_day k" "issuedIn k spell iss < per_spell k"
  shows "budgets ((k, now, spell) # iss)"
proof -
  have "issuedOver q w ((k, now, spell) # iss) \<le> per_day q" for q w
  proof (cases "q = k \<and> w \<le> now \<and> now < w + DAY")
    case True
    have "length (filter (\<lambda>i. fst i = k \<and> w \<le> fst (snd i) \<and> fst (snd i) < w + DAY) iss) \<le> length (filter (\<lambda>i. fst i = k \<and> now - fst (snd i) < DAY) iss)"
    proof (rule length_filter_mono)
      fix i assume "fst i = k \<and> w \<le> fst (snd i) \<and> fst (snd i) < w + DAY"
      with True show "fst i = k \<and> now - fst (snd i) < DAY" by auto
    qed
    also have "\<dots> < per_day k" using autoOf_counts(5) [OF assms(2-4), of k] assms(5,6) by simp
    finally show ?thesis using True by (simp add: issuedOver_def)
  next
    case False
    then show ?thesis using assms(1) by (auto simp: budgets_def issuedOver_def)
  qed
  moreover have "issuedIn q s ((k, now, spell) # iss) \<le> per_spell q" for q s
    using assms(1,7) by (auto simp: budgets_def issuedIn_def Suc_le_eq)
  ultimately show ?thesis by (simp add: budgets_def)
qed

lemma decideAuto_gives_up:
  assumes "decideAuto x now scale = DGiveUp next' cls" "ri_spell x = Some spell" "or_auto_orders (ri_row x) = v"
  shows "next' = (autoOf v (Some spell) now)\<lparr>au_gave_up := Some now\<rparr>"
proof -
  have "decideRestart x a c via s now scale = DGiveUp next' cls \<Longrightarrow> next' = a\<lparr>au_gave_up := Some now\<rparr>" for a c via s
    by (auto simp: decideRestart_def split: if_splits option.splits)
  with assms show ?thesis by (auto simp: decideAuto_def Let_def split: if_splits option.splits)
qed

lemma issue_pushes:
  assumes "decideAuto x now scale = DOrder kind n unless next' cls" "ri_spell x = Some spell" "or_auto_orders (ri_row x) = v" "rules_inv v iss t" "t \<le> now" "goes_on v spell"
  defines "a \<equiv> autoOf v (Some spell) now"
  shows "au_spell next' = Some spell" "au_day next' = au_day a @ [(issueOf kind, now)]"
    "au_restarts next' = au_restarts a + (if issueOf kind = IssueRestart then 1 else 0)"
    "au_rechecks next' = au_rechecks a + (if issueOf kind = IssueRecheck then 1 else 0)"
    "dayOf (issueOf kind) a < per_day (issueOf kind)" "issuedIn (issueOf kind) spell iss < per_spell (issueOf kind)"
proof -
  from assms(1) obtain via where d: "kind = KRecheck \<and> recheckDue x a spell now scale
       \<and> next' = a\<lparr>au_rechecks := au_rechecks a + 1, au_last_recheck := Some now, au_day := au_day a @ [(IssueRecheck, now)]\<rparr>
     \<or> decideRestart x a cls via spell now scale = DOrder kind n unless next' cls"
    by (rule decideAuto_order) (use assms(2,3) a_def in auto)
  note counts = autoOf_counts [OF assms(4-6), folded a_def]
  have recheck: "issueOf KRecheck = IssueRecheck" and restart: "issueOf k = IssueRestart" if "k \<in> set POOL_RESTARTS" for k
    using that by (auto simp: issueOf_def POOL_RESTARTS_def)
  from d show "au_spell next' = Some spell" "au_day next' = au_day a @ [(issueOf kind, now)]"
    "au_restarts next' = au_restarts a + (if issueOf kind = IssueRestart then 1 else 0)"
    "au_rechecks next' = au_rechecks a + (if issueOf kind = IssueRecheck then 1 else 0)"
    "dayOf (issueOf kind) a < per_day (issueOf kind)" "issuedIn (issueOf kind) spell iss < per_spell (issueOf kind)"
    using counts restart [of kind] decideRestart_order(1,2,7,10) [of x a cls via spell now scale kind n unless next' cls]
    by (auto simp: recheckDue_def issueOf_def per_day_def per_spell_def)
qed

lemma rules_run_inv: "rules_run scale v iss t \<Longrightarrow> rules_inv v iss t \<and> budgets iss"
proof (induction rule: rules_run.induct)
  case (Nothing t)
  show ?case by (simp add: rules_inv_def budgets_def issuedOver_def issuedIn_def)
next
  case (Issue v iss t now x spell kind n unless next' cls)
  then have inv: "rules_inv v iss t" and b: "budgets iss" by blast+
  note push = issue_pushes [OF Issue.hyps(6,4,3) inv Issue.hyps(2,5)]
  show ?case
    using rules_inv_push [OF inv Issue.hyps(2,5) refl push(1-4)] budgets_push [OF b inv Issue.hyps(2,5) refl push(5,6)] by blast
next
  case (GiveUp v iss t now x spell next' cls)
  then have "next' = (autoOf v (Some spell) now)\<lparr>au_gave_up := Some now\<rparr>" by (blast intro: decideAuto_gives_up)
  with GiveUp show ?case using rules_inv_keep by blast
next
  case (SiteGivesUp v iss t now x spell)
  then show ?case using rules_inv_keep by blast
qed

text \<open>
  C25. However a worker's agent fails and recovers, the pool's rules order at most three restarts and three re-checks of it in any
  24 hours, and at most two restarts and one re-check in one spell of errors.
\<close>

theorem pool_orders_bounded:
  assumes "rules_run scale v iss t"
  shows "issuedOver IssueRestart w iss \<le> 3 \<and> issuedOver IssueRecheck w iss \<le> 3 \<and> issuedIn IssueRestart spell iss \<le> 2 \<and> issuedIn IssueRecheck spell iss \<le> 1"
proof -
  have "budgets iss" using rules_run_inv [OF assms] ..
  then have "issuedOver k w iss \<le> per_day k" "issuedIn k spell iss \<le> per_spell k" for k by (simp_all add: budgets_def)
  from this [of IssueRestart] this [of IssueRecheck] show ?thesis
    by (simp add: per_day_def per_spell_def MAX_POOL_RESTARTS_PER_DAY_def MAX_POOL_RECHECKS_PER_DAY_def MAX_POOL_RESTARTS_PER_SPELL_def MAX_POOL_RECHECKS_PER_SPELL_def)
qed

subsection \<open>One restart through a shared service\<close>

text \<open>
  Workers that share one agent service restart it through one of them: of the siblings of a site whose service fails and who
  declare the order, the site lets exactly one restart it, and every other is told which one, or that that one gave up.
\<close>

theorem one_restarts_the_service:
  assumes "s \<in> set (sr_live read)" "sw_via s = Some ViaSibling" "sw_status s = Some ProbeError" "KRestartAgent \<in> set (sw_kinds s)"
    "sr_open read = 0" "sr_last read = None"
  shows "\<exists>e \<in> set (sr_live read). electedOf (sr_live read) = Some e \<and> sw_id e \<le> sw_id s
    \<and> (\<forall>self. (\<exists>others. siteVerdict self KRestartAgent read now scale = SiteOk others) \<longleftrightarrow> self = sw_id e)
    \<and> (\<forall>self others told. siteVerdict self KRestartAgent read now scale \<in> {SharedGaveUp others told, SharedThrough others told} \<longrightarrow> told = sw_id e)"
proof -
  let ?cand = "filter (\<lambda>s. KRestartAgent \<in> set (sw_kinds s)) (siblingsInError (sr_live read))"
  have s: "s \<in> set ?cand" using assms(1-4) by (simp add: siblingsInError_def)
  then obtain e rest where e: "sort_key sw_id ?cand = e # rest" by (metis list.exhaust empty_iff set_empty set_sort)
  then have el: "electedOf (sr_live read) = Some e" by (simp add: electedOf_def)
  have "e \<in> set ?cand" by (metis e list.set_intros(1) set_sort)
  then have mem: "e \<in> set (sr_live read)" by (simp add: siblingsInError_def)
  have "sorted (map sw_id (e # rest))" by (metis e sorted_sort_key)
  moreover have "s \<in> set (e # rest)" by (metis e s set_sort)
  ultimately have least: "sw_id e \<le> sw_id s" by auto
  have ok: "(\<exists>others. siteVerdict self KRestartAgent read now scale = SiteOk others) \<longleftrightarrow> self = sw_id e" for self
    using assms(5,6) by (auto simp: siteVerdict_def el Let_def)
  have told: "siteVerdict self KRestartAgent read now scale \<in> {SharedGaveUp others told, SharedThrough others told} \<Longrightarrow> told = sw_id e" for self others told
    using assms(5,6) by (auto simp: siteVerdict_def el Let_def split: if_splits)
  show ?thesis using mem el least ok told by blast
qed

subsection \<open>The breaker's key and its hysteresis\<close>

lemma breakerKey_read:
  assumes "\<not> ends_with '':project'' p"
  shows "breakerOfKey (breakerKey p sc) = (p, sc)"
proof (cases sc)
  case ScopeProject
  have "ends_with '':project'' (p @ '':project'')" by (simp add: ends_with_def)
  with ScopeProject show ?thesis by (simp add: breakerOfKey_def breakerKey_def)
next
  case ScopeAll
  with assms show ?thesis by (simp add: breakerOfKey_def breakerKey_def)
qed

fun sweeps :: "breaker option \<Rightarrow> (nat \<times> int) list \<Rightarrow> breaker option" where
  "sweeps None xs = None"
| "sweeps (Some b) [] = Some b"
| "sweeps (Some b) ((n, t) # xs) = sweeps (breakerSweep b n t) xs"

lemma sweeps_below:
  assumes "sweeps (Some b) xs = None"
  shows "\<exists>ys zs u n t. (xs = ys @ (n, t) # zs \<and> n < BREAKER_CLEAR_BELOW \<and> BREAKER_CLEAR_MIN * 60000 \<le> t - u
    \<and> (br_below_since b = Some u \<and> (\<forall>(m, w) \<in> set ys. m < BREAKER_CLEAR_BELOW)
       \<or> (\<exists>ys1 ys2 m. ys = ys1 @ (m, u) # ys2 \<and> m < BREAKER_CLEAR_BELOW \<and> (\<forall>(m, w) \<in> set ys2. m < BREAKER_CLEAR_BELOW))))"
  using assms
proof (induction xs arbitrary: b)
  case Nil
  then show ?case by simp
next
  case (Cons x xs)
  obtain n t where x: "x = (n, t)" by fastforce
  show ?case
  proof (cases "breakerSweep b n t")
    case None
    then obtain u where "n < BREAKER_CLEAR_BELOW" "br_below_since b = Some u" "BREAKER_CLEAR_MIN * 60000 \<le> t - u"
      by (auto simp: breakerSweep_def split: if_splits option.splits)
    then show ?thesis using x by (intro exI [of _ "[]"] exI [of _ xs] exI [of _ u] exI [of _ n] exI [of _ t]) simp
  next
    case (Some b')
    with Cons.prems x have "sweeps (Some b') xs = None" by simp
    from Cons.IH [OF this] obtain ys zs u n' t' where ih: "xs = ys @ (n', t') # zs" "n' < BREAKER_CLEAR_BELOW" "BREAKER_CLEAR_MIN * 60000 \<le> t' - u"
      "br_below_since b' = Some u \<and> (\<forall>(m, w) \<in> set ys. m < BREAKER_CLEAR_BELOW)
       \<or> (\<exists>ys1 ys2 m. ys = ys1 @ (m, u) # ys2 \<and> m < BREAKER_CLEAR_BELOW \<and> (\<forall>(m, w) \<in> set ys2. m < BREAKER_CLEAR_BELOW))" by blast
    have step: "br_below_since b' = Some u \<Longrightarrow> n < BREAKER_CLEAR_BELOW \<and> (br_below_since b = Some u \<or> t = u)"
      using Some by (auto simp: breakerSweep_def split: if_splits option.splits)
    from ih(4) have "br_below_since b = Some u \<and> (\<forall>(m, w) \<in> set (x # ys). m < BREAKER_CLEAR_BELOW)
       \<or> (\<exists>ys1 ys2 m. x # ys = ys1 @ (m, u) # ys2 \<and> m < BREAKER_CLEAR_BELOW \<and> (\<forall>(m, w) \<in> set ys2. m < BREAKER_CLEAR_BELOW))"
    proof
      assume below: "br_below_since b' = Some u \<and> (\<forall>(m, w) \<in> set ys. m < BREAKER_CLEAR_BELOW)"
      with step have n: "n < BREAKER_CLEAR_BELOW" "br_below_since b = Some u \<or> t = u" by blast+
      from n(2) show ?thesis
      proof
        assume "t = u"
        with below n(1) x have "x # ys = [] @ (n, u) # ys \<and> n < BREAKER_CLEAR_BELOW \<and> (\<forall>(m, w) \<in> set ys. m < BREAKER_CLEAR_BELOW)" by simp
        then show ?thesis by blast
      qed (use below n(1) x in simp)
    next
      assume "\<exists>ys1 ys2 m. ys = ys1 @ (m, u) # ys2 \<and> m < BREAKER_CLEAR_BELOW \<and> (\<forall>(m, w) \<in> set ys2. m < BREAKER_CLEAR_BELOW)"
      then show ?thesis by (metis append_Cons)
    qed
    with ih(1-3) show ?thesis by (metis append_Cons)
  qed
qed

subsection \<open>Inputs to witness them\<close>

definition ex_rule_input :: "auto_state option \<Rightarrow> rule_input" where
  "ex_rule_input a = \<lparr>ri_row = ex_orders_row\<lparr>or_auto_orders := a\<rparr>, ri_claim = ex_facts ''a'', ri_status = Some ProbeError,
     ri_error = Some ''connect ECONNREFUSED 127.0.0.1:9'', ri_spell = Some 0, ri_instance_since = Some 0, ri_conflict = False, ri_needs_agent = True,
     ri_sibling_answers = False, ri_host = False\<rparr>"

definition ex_auto :: "nat \<Rightarrow> nat \<Rightarrow> int option \<Rightarrow> int option \<Rightarrow> (issue_kind \<times> int) list \<Rightarrow> auto_state" where
  "ex_auto c r lc lr day = \<lparr>au_spell = Some 0, au_rechecks = c, au_restarts = r, au_last_recheck = lc, au_last_restart = lr, au_gave_up = None, au_day = day\<rparr>"

lemma ex_decisions:
  "decideAuto (ex_rule_input None) 300000 1 = DOrder KRecheck 0 False (ex_auto 1 0 (Some 300000) None [(IssueRecheck, 300000)]) CRefused"
  "decideAuto (ex_rule_input (Some (ex_auto 1 0 (Some 300000) None [(IssueRecheck, 300000)]))) 600000 1
     = DOrder KRestart 1 True (ex_auto 1 1 (Some 300000) (Some 600000) [(IssueRecheck, 300000), (IssueRestart, 600000)]) CRefused"
  by code_simp+

theorem restart_only_where_it_helps_witness:
  "KRestart \<in> set POOL_RESTARTS \<and> \<not> ri_host (ex_rule_input (Some (ex_auto 1 0 (Some 300000) None [(IssueRecheck, 300000)]))) \<and> CRefused \<in> set RESTART_CLASSES"
  using restart_only_where_it_helps [OF ex_decisions(2)] by simp

lemma ex_rules_run: "rules_run 1 (Some (ex_auto 1 1 (Some 300000) (Some 600000) [(IssueRecheck, 300000), (IssueRestart, 600000)]))
  [(IssueRestart, 600000, 0), (IssueRecheck, 300000, 0)] 600000"
proof -
  have "rules_run 1 (Some (ex_auto 1 0 (Some 300000) None [(IssueRecheck, 300000)])) [(issueOf KRecheck, 300000, 0)] 300000"
    by (rule Issue [OF Nothing [where t = 0] _ _ _ _ ex_decisions(1)]) (simp_all add: ex_rule_input_def goes_on_def)
  from Issue [OF this _ _ _ _ ex_decisions(2), of 0] show ?thesis by (simp add: ex_rule_input_def ex_auto_def goes_on_def issueOf_def)
qed

theorem pool_orders_bounded_witness:
  "issuedOver IssueRestart 0 [(IssueRestart, 600000, 0), (IssueRecheck, 300000, 0)] = 1
   \<and> issuedOver IssueRestart 0 [(IssueRestart, 600000, 0), (IssueRecheck, 300000, 0)] \<le> 3"
  using pool_orders_bounded [OF ex_rules_run, of 0] by (simp add: issuedOver_def DAY_def HOUR_def)

definition ex_site :: site_read where
  "ex_site = \<lparr>sr_live = map (\<lambda>i. \<lparr>sw_id = i, sw_via = Some ViaSibling, sw_status = Some ProbeError, sw_kinds = [KRestartAgent], sw_error_since = None, sw_auto = None\<rparr>) [''w2'', ''w1''],
     sr_last = None, sr_open = 0\<rparr>"

theorem one_restarts_the_service_witness:
  "\<exists>e \<in> set (sr_live ex_site). electedOf (sr_live ex_site) = Some e \<and> siteVerdict (sw_id e) KRestartAgent ex_site 0 1 \<noteq> RestartOpen"
proof -
  let ?s = "sr_live ex_site ! 0"
  have s: "?s \<in> set (sr_live ex_site)" "sw_via ?s = Some ViaSibling" "sw_status ?s = Some ProbeError" "KRestartAgent \<in> set (sw_kinds ?s)"
    "sr_open ex_site = 0" "sr_last ex_site = None" by (simp_all add: ex_site_def)
  from one_restarts_the_service [OF this, of 0 1] show ?thesis by (metis site_verdict.distinct(5))
qed

end
