(* ===== verification/Order_Rights.thy ===== *)
theory Order_Rights
  imports Order_Rules Host_Doors
begin

text \<open>
  Who may press what on a worker's page (worker/src/orders.ts \<open>orderVerdicts\<close>), one predicate for the door and for the page's grey buttons,
  the counts it reads, how a stopped task stops, and the closed codes of a worker's answer.
\<close>

subsection \<open>What the predicate reads\<close>

datatype order_right = RtRecheck | RtRestart | RtRestartAgent | RtDrain | RtResume | RtStopTask | RtUpdate | RtCancel

fun rightOfKind :: "order_kind \<Rightarrow> order_right" where
  "rightOfKind KRecheck = RtRecheck"
| "rightOfKind KRestart = RtRestart"
| "rightOfKind KRestartAgent = RtRestartAgent"
| "rightOfKind KDrain = RtDrain"
| "rightOfKind KResume = RtResume"
| "rightOfKind KStop = RtStopTask"
| "rightOfKind KUpdate = RtUpdate"

record order_worker =
  ow_id :: string
  ow_owner :: "login option"
  ow_revoked_at :: "int option"
  ow_version :: "string option"
  ow_order_kinds :: "string list option"
  ow_open :: "open_order list"
  ow_conflict_at :: "int option"
  ow_restarts_left :: "int option"
  ow_agent_via :: "string option"
  ow_trust :: string
  ow_drained_at :: "int option"
  ow_drained_by :: "string option"
  ow_drain_reason :: "string option"
  ow_current_task :: "int option"
  ow_rollout :: "json option"
  ow_host :: bool
  ow_host_reported_at :: "int option"
  ow_host_release :: "string option"

text \<open>The task a Stop reads: without a status when the one it names does not exist.\<close>

record held_task =
  ht_id :: int
  ht_status :: "task_status option"
  ht_lease_owner :: "string option"
  ht_stop_order :: "string option"
  ht_kind :: string
  ht_attempts :: int
  ht_max_attempts :: int

record order_facts =
  of_now :: int
  of_restarts :: nat
  of_rechecks :: nat
  of_logins :: nat
  of_drains :: nat
  of_stops :: nat
  of_restarts_free :: "int option"
  of_rechecks_free :: "int option"
  of_logins_free :: "int option"
  of_drains_free :: "int option"
  of_stops_free :: "int option"
  of_task :: "held_task option"
  of_pool :: "running_version option"

definition openOrdersOf :: "open_entry list \<Rightarrow> open_order list" where
  "openOrdersOf es = List.map_filter (\<lambda>(i, k, s, b, at', t). map_option (\<lambda>kind.
     \<lparr>oo_id = i, oo_kind = kind, oo_delivered = (s = ODelivered), oo_by = b, oo_at = at', oo_task = t\<rparr>) (kind_of k)) es"

subsection \<open>The predicate\<close>

datatype order_why =
    SignIn
  | RevokedAlready
  | OnlyOwnerOr "login option"
  | LoginCap login "int option"
  | TwoProcessesHeld int
  | RestartsCap "int option"
  | RechecksCap "int option"
  | DrainsCap "int option"
  | StopsCap login "int option"
  | WaitingAlready order_kind open_order
  | DrainedAlready "string option" "int option" "string option"
  | NotDrained
  | OwnerDrainedHost login
  | DrainerOrOwner "string option" "login option"
  | ProjectDrain "string option"
  | OwnerDrainedIt login
  | NoTaskNamed
  | DoesNotHold int
  | StoppedAlready int
  | IdleNoTask
  | PoolRunsNoRelease "string option"
  | ReportsNoRelease "string option"
  | RunsLatest
  | RunsNewer
  | HostSilent "int option"
  | SetRefuses set_rollout
  | TakesNoOrders "string option"
  | NoAgent
  | NoRestartPolicy
  | NoAgentService "string option"
  | FewRestartsLeft int

datatype order_verdict = May | MayNot nat order_why

fun firstNo :: "order_verdict option list \<Rightarrow> order_verdict" where
  "firstNo [] = May"
| "firstNo (None # vs) = firstNo vs"
| "firstNo (Some v # vs) = v"

definition noIf :: "bool \<Rightarrow> nat \<Rightarrow> order_why \<Rightarrow> order_verdict option" where
  "noIf b status why = (if b then Some (MayNot status why) else None)"

text \<open>Anyone's first gate: signed in, a worker not revoked, its owner or a maintainer.\<close>

definition ownsWorker :: "person \<Rightarrow> order_worker \<Rightarrow> bool" where
  "ownsWorker c w \<longleftrightarrow> ow_owner w = Some (fst c)"

definition firstGate :: "person option \<Rightarrow> order_worker \<Rightarrow> order_verdict option" where
  "firstGate c w = (case c of
     None \<Rightarrow> Some (MayNot 401 SignIn)
   | Some p \<Rightarrow> if ow_revoked_at w \<noteq> None then Some (MayNot 404 RevokedAlready)
       else noIf (\<not> snd p \<and> \<not> ownsWorker p w) 403 (OnlyOwnerOr (ow_owner w)))"

definition waitingFor :: "order_worker \<Rightarrow> order_kind \<Rightarrow> order_verdict option" where
  "waitingFor w kind = map_option (\<lambda>x. MayNot 409 (WaitingAlready kind x)) (find (\<lambda>x. oo_kind x = kind) (ow_open w))"

definition loginNo :: "person option \<Rightarrow> order_facts \<Rightarrow> order_verdict option" where
  "loginNo c f = noIf (of_logins f \<ge> MAX_ORDERS_PER_LOGIN_HOUR) 409 (LoginCap (case c of None \<Rightarrow> ''you'' | Some p \<Rightarrow> fst p) (of_logins_free f))"

definition conflictNo :: "order_worker \<Rightarrow> order_verdict option" where
  "conflictNo w = map_option (\<lambda>t. MayNot 409 (TwoProcessesHeld t)) (ow_conflict_at w)"

definition restartsNo :: "order_facts \<Rightarrow> order_verdict option" where
  "restartsNo f = noIf (of_restarts f \<ge> MAX_RESTARTS_PER_HOUR) 409 (RestartsCap (of_restarts_free f))"

definition drainVerdict :: "person \<Rightarrow> order_worker \<Rightarrow> order_facts \<Rightarrow> order_verdict" where
  "drainVerdict c w f =
     (if ow_drained_at w \<noteq> None then MayNot 409 (DrainedAlready (ow_drained_by w) (ow_drained_at w) (ow_drain_reason w))
      else firstNo [waitingFor w KDrain, noIf (of_drains f \<ge> MAX_RESTARTS_PER_HOUR) 409 (DrainsCap (of_drains_free f)), loginNo (Some c) f])"

definition resumeVerdict :: "person \<Rightarrow> order_worker \<Rightarrow> order_verdict" where
  "resumeVerdict c w =
     (if ow_drained_at w = None then MayNot 409 NotDrained
      else if ow_host w then
        (if ow_drained_by w = ow_owner w \<and> \<not> ownsWorker c w then MayNot 403 (OwnerDrainedHost (nvl (ow_owner w) []))
         else if ow_drained_by w \<noteq> ow_owner w \<and> \<not> ownsWorker c w \<and> Some (fst c) \<noteq> ow_drained_by w then MayNot 403 (DrainerOrOwner (ow_drained_by w) (ow_owner w))
         else May)
      else if ow_trust w = ''project'' \<and> \<not> snd c \<and> ow_drained_by w \<noteq> Some (fst c) then MayNot 403 (ProjectDrain (ow_drained_by w))
      else if ow_trust w \<noteq> ''project'' \<and> \<not> ownsWorker c w \<and> ow_owner w \<noteq> None \<and> ow_drained_by w = ow_owner w then MayNot 403 (OwnerDrainedIt (nvl (ow_owner w) []))
      else May)"

definition heldByWorker :: "held_task \<Rightarrow> order_worker \<Rightarrow> bool" where
  "heldByWorker t w \<longleftrightarrow> ht_status t = Some Leased \<and> ht_lease_owner t = Some (ow_id w)"

definition stopVerdict :: "person \<Rightarrow> order_worker \<Rightarrow> order_facts \<Rightarrow> order_verdict" where
  "stopVerdict c w f =
     (if ow_host w then (case of_task f of
          None \<Rightarrow> MayNot 409 NoTaskNamed
        | Some t \<Rightarrow> if \<not> heldByWorker t w then MayNot 409 (DoesNotHold (ht_id t))
            else if ht_stop_order t \<noteq> None then MayNot 409 (StoppedAlready (ht_id t))
            else firstNo [noIf (of_stops f \<ge> MAX_STOPS_PER_LOGIN_HOUR) 409 (StopsCap (fst c) (of_stops_free f))])
      else (case of_task f of
          None \<Rightarrow> MayNot 409 IdleNoTask
        | Some t \<Rightarrow> if ow_current_task w \<noteq> Some (ht_id t) \<or> \<not> heldByWorker t w then MayNot 409 IdleNoTask
            else if ht_stop_order t \<noteq> None then MayNot 409 (StoppedAlready (ht_id t))
            else firstNo [waitingFor w KStop, restartsNo f, loginNo (Some c) f]))"

definition runsVersion :: "order_worker \<Rightarrow> string option" where
  "runsVersion w = (case ow_version w of Some v \<Rightarrow> Some v | None \<Rightarrow> if ow_host w then ow_host_release w else None)"

definition updateVerdict :: "person option \<Rightarrow> order_worker \<Rightarrow> order_facts \<Rightarrow> release_policy \<Rightarrow> order_verdict" where
  "updateVerdict c w f policy = (case of_pool f of
     None \<Rightarrow> MayNot 409 (PoolRunsNoRelease None)
   | Some pool \<Rightarrow>
      if parseTag (Some (pv_version pool)) = None then MayNot 409 (PoolRunsNoRelease (Some (pv_version pool)))
      else if parseTag (runsVersion w) = None then MayNot 409 (ReportsNoRelease (runsVersion w))
      else if \<not> u_outdated (updateState (runsVersion w) pool (of_now f) None None policy)
      then MayNot 409 (if versionWord (runsVersion w) = versionWord (Some (pv_version pool)) then RunsLatest else RunsNewer)
      else firstNo [
        (if ow_host w then map_option (\<lambda>t. MayNot 409 (HostSilent t)) (hostRolloutRefusal (ow_host_reported_at w) (of_now f))
         else if ow_trust w = ''project'' then map_option (\<lambda>s. MayNot 409 (SetRefuses s)) (rolloutRefusal (rolloutOf (ow_rollout w)))
         else None),
        waitingFor w KUpdate, conflictNo w, restartsNo f, loginNo c f])"

text \<open>What the worker's own process carries out: a kind it takes, with restarts enough left.\<close>

definition takenVerdict :: "person option \<Rightarrow> order_worker \<Rightarrow> order_facts \<Rightarrow> order_kind \<Rightarrow> order_verdict" where
  "takenVerdict c w f kind = (case ow_order_kinds w of
     None \<Rightarrow> MayNot 409 (TakesNoOrders (ow_version w))
   | Some ks \<Rightarrow>
      if kind_name kind \<notin> set ks then MayNot 409 (if kind = KRecheck then NoAgent else if kind = KRestart then NoRestartPolicy else NoAgentService (ow_agent_via w))
      else firstNo [
        (if kind = KRestart then (case ow_restarts_left w of Some n \<Rightarrow> noIf (n < 3) 409 (FewRestartsLeft n) | None \<Rightarrow> None) else None),
        waitingFor w kind, conflictNo w,
        noIf (kind = KRecheck \<and> of_rechecks f \<ge> MAX_RECHECKS_PER_HOUR) 409 (RechecksCap (of_rechecks_free f)),
        (if kind \<in> set RESTART_GROUP then restartsNo f else None),
        loginNo c f])"

definition kindVerdict :: "person option \<Rightarrow> order_worker \<Rightarrow> order_facts \<Rightarrow> release_policy \<Rightarrow> order_kind \<Rightarrow> order_verdict" where
  "kindVerdict c w f policy kind = (case firstGate c w of
     Some no \<Rightarrow> no
   | None \<Rightarrow> (case c of
       None \<Rightarrow> MayNot 401 SignIn
     | Some p \<Rightarrow>
        if kind = KUpdate then updateVerdict c w f policy
        else if kind = KDrain then drainVerdict p w f
        else if kind = KResume then resumeVerdict p w
        else if kind = KStop then stopVerdict p w f
        else takenVerdict c w f kind))"

definition orderVerdicts :: "person option \<Rightarrow> order_worker \<Rightarrow> order_facts \<Rightarrow> release_policy \<Rightarrow> order_right \<Rightarrow> order_verdict" where
  "orderVerdicts c w f policy r = (case r of
     RtCancel \<Rightarrow> firstNo [firstGate c w]
   | RtRecheck \<Rightarrow> kindVerdict c w f policy KRecheck
   | RtRestart \<Rightarrow> kindVerdict c w f policy KRestart
   | RtRestartAgent \<Rightarrow> kindVerdict c w f policy KRestartAgent
   | RtDrain \<Rightarrow> kindVerdict c w f policy KDrain
   | RtResume \<Rightarrow> kindVerdict c w f policy KResume
   | RtStopTask \<Rightarrow> kindVerdict c w f policy KStop
   | RtUpdate \<Rightarrow> kindVerdict c w f policy KUpdate)"

subsection \<open>How a stopped task stops, and the codes of an answer\<close>

datatype stop_way = WayChild | WayChildOrCall | WayNextCall | WayLeaseEnd

definition stopWay :: "string \<Rightarrow> string list option \<Rightarrow> stop_way" where
  "stopWay kind orderKinds =
     (if ''stop-task'' \<notin> set (nvl orderKinds []) then WayLeaseEnd
      else if kind = ''audit'' \<or> kind = ''health'' then WayChild
      else if kind = ''build'' \<or> kind = ''trial'' then WayChildOrCall
      else WayNextCall)"

datatype order_outcome = Accepted | OutcomeDone | OutcomeRefused | OutcomeFailed

definition OUTCOMES :: "(string \<times> order_outcome) list" where
  "OUTCOMES = [(''accepted'', Accepted), (''done'', OutcomeDone), (''refused'', OutcomeRefused), (''failed'', OutcomeFailed)]"

definition CODES :: "(string \<times> (string \<times> order_outcome) list) list" where
  "CODES =
     [(''recheck-agent'', [(''probed'', OutcomeDone), (''probe-failed'', OutcomeFailed)]),
      (''restart'', [(''exiting'', Accepted), (''agent-ok'', OutcomeRefused), (''too-young'', OutcomeRefused), (''no-policy'', OutcomeRefused),
         (''no-retries'', OutcomeRefused)]),
      (''restart-agent'', [(''restarting'', Accepted), (''restarted'', OutcomeDone), (''not-answering'', OutcomeFailed),
         (''not-a-sibling'', OutcomeRefused), (''agent-ok'', OutcomeRefused), (''docker-error'', OutcomeFailed)])]"

definition codeOutcome :: "string \<Rightarrow> string \<Rightarrow> order_outcome option" where
  "codeOutcome kind code = Option.bind (map_of CODES kind) (\<lambda>cs. map_of cs code)"

definition answerCode :: "string \<Rightarrow> order_outcome \<Rightarrow> json option \<Rightarrow> string" where
  "answerCode kind oc code = (case jstr code of
     None \<Rightarrow> ''other''
   | Some s \<Rightarrow> if s = ''unknown-kind'' \<and> oc = OutcomeRefused then ''unknown-kind''
       else if codeOutcome kind s = Some oc then s else ''other'')"

text \<open>The public sentence: the version as a release tag, a service of the pool's own list, whole seconds within 0 and 600.\<close>

definition saidSeconds :: "rat option \<Rightarrow> int option" where
  "saidSeconds n = (case n of Some s \<Rightarrow> if 0 \<le> s \<and> s \<le> 600 then Some (floor (s + 1 / 2)) else None | None \<Rightarrow> None)"

definition saidService :: "string option \<Rightarrow> string option" where
  "saidService s = (if s = Some ''agent-proxy'' \<or> s = Some ''broker'' then s else None)"

definition codeSentence :: "string \<Rightarrow> string \<Rightarrow> order_outcome \<Rightarrow> string option \<Rightarrow> string option \<Rightarrow> rat option \<Rightarrow> order_detail" where
  "codeSentence kind code oc version service seconds =
     (if code = ''unknown-kind'' then DUnknownKind version
      else if codeOutcome kind code = None then DAnswered (case oc of Accepted \<Rightarrow> ''accepted'' | OutcomeDone \<Rightarrow> ''done'' | OutcomeRefused \<Rightarrow> ''refused'' | OutcomeFailed \<Rightarrow> ''failed'')
      else if kind = ''restart-agent'' \<and> (code = ''restarted'' \<or> code = ''not-answering'') then DServiceCode code (saidService service) (saidSeconds seconds)
      else DCode kind code)"

end
