(* ===== verification/Order_Life.thy ===== *)
theory Order_Life
  imports Order_Rights Host_Lifecycle Lease_Reports
begin

text \<open>
  A worker order from its issue to its end (worker/src/orders.ts): the one INSERT under every cap with what it does in the same batch, the
  claim's delivery, the cron's sweep, and the list of open orders a worker's row carries. D1 runs a batch in one
  transaction: a batch here is one function of the database. What a handler read before its batch is an argument of it, so another
  writer may come between.
\<close>

subsection \<open>The row's list of open orders\<close>

definition OPEN_ORDERS_SQL :: "string \<Rightarrow> db \<Rightarrow> order_row list" where
  "OPEN_ORDERS_SQL worker d = sort_key o_kind (filter (\<lambda>x. o_worker x = worker \<and> openOrder x) (d_orders d))"

definition entryOfOrder :: "order_row \<Rightarrow> open_entry" where
  "entryOfOrder x = (o_id x, o_kind x, o_state x, o_issued_by x, o_issued_at x, o_task x)"

definition REFRESH_OPEN_SQL :: "string \<Rightarrow> db \<Rightarrow> db" where
  "REFRESH_OPEN_SQL worker d = (let v = map entryOfOrder (OPEN_ORDERS_SQL worker d)
     in d\<lparr>d_workers := sql_update (\<lambda>w. w_id w = worker \<and> w_open_orders w \<noteq> v) (\<lambda>w. w\<lparr>w_open_orders := v\<rparr>) (d_workers d)\<rparr>)"

subsection \<open>The issue\<close>

record issue_ask =
  ia_worker :: string
  ia_kind :: order_kind
  ia_reason :: string
  ia_by :: string
  ia_via :: "string option"
  ia_rule :: "string option"
  ia_unless :: bool
  ia_site :: "string option"
  ia_baseline :: "string option"
  ia_auto :: "(auto_state option \<times> auto_state) option"
  ia_deliver :: "(string \<times> string option) option"
  ia_task :: "int option"
  ia_host :: bool
  ia_resumed :: "(order_detail \<times> order_detail) option"
  ia_now :: int
  ia_line :: string

datatype issue_refusal = WhyOpen | WhySite | WhyCap | IssueThrows

definition countOrders :: "(order_row \<Rightarrow> bool) \<Rightarrow> int \<Rightarrow> db \<Rightarrow> nat" where
  "countOrders P since d = length (filter (\<lambda>x. P x \<and> since < o_issued_at x) (d_orders d))"

definition workerOf :: "string \<Rightarrow> db \<Rightarrow> worker option" where
  "workerOf i d = find (\<lambda>w. w_id w = i) (d_workers d)"

definition ofWorkerKinds :: "string \<Rightarrow> order_kind list \<Rightarrow> order_row \<Rightarrow> bool" where
  "ofWorkerKinds worker kinds x \<longleftrightarrow> o_worker x = worker \<and> o_kind x \<in> set (map kind_name kinds)"

definition ofIssuer :: "string \<Rightarrow> order_row \<Rightarrow> bool" where
  "ofIssuer who x \<longleftrightarrow> o_issued_by x = who \<and> o_kind x \<noteq> ''resume''"

definition stopsOf :: "string \<Rightarrow> order_row \<Rightarrow> bool" where
  "stopsOf who x \<longleftrightarrow> o_issued_by x = who \<and> o_kind x = ''stop-task''"

definition poolOrder :: "order_row \<Rightarrow> bool" where
  "poolOrder x \<longleftrightarrow> isPool (o_issued_by x)"

definition communityOrder :: "order_row \<Rightarrow> bool" where
  "communityOrder x \<longleftrightarrow> o_issued_by x = POOL_COMMUNITY"

definition restartType :: "order_row \<Rightarrow> bool" where
  "restartType x \<longleftrightarrow> o_kind x = ''restart'' \<or> o_kind x = ''restart-agent''"

definition groupOf :: "issue_ask \<Rightarrow> order_kind list" where
  "groupOf a = (if ia_host a \<and> ia_kind a = KStop then []
     else if ia_kind a \<in> set RESTART_GROUP then (if ia_host a then HOST_RESTART_GROUP else RESTART_GROUP) else [ia_kind a])"

definition capOf :: "issue_ask \<Rightarrow> nat" where
  "capOf a = (if ia_kind a = KRecheck then MAX_RECHECKS_PER_HOUR else MAX_RESTARTS_PER_HOUR)"

text \<open>The caps, each a count of the table in the statement's own WHERE.\<close>

definition loginCapOk :: "issue_ask \<Rightarrow> db \<Rightarrow> bool" where
  "loginCapOk a d = (if ia_kind a = KStop \<and> (case workerOf (ia_worker a) d of Some w \<Rightarrow> w_host_id w \<noteq> None | None \<Rightarrow> False)
     then countOrders (stopsOf (ia_by a)) (ia_now a - HOUR) d < MAX_STOPS_PER_LOGIN_HOUR
     else countOrders (ofIssuer (ia_by a)) (ia_now a - HOUR) d < MAX_ORDERS_PER_LOGIN_HOUR)"

definition capsOk :: "issue_ask \<Rightarrow> db \<Rightarrow> bool" where
  "capsOk a d \<longleftrightarrow>
     (ia_kind a = KResume \<or> countOrders (ofWorkerKinds (ia_worker a) (groupOf a)) (ia_now a - HOUR) d < capOf a)
   \<and> (isPool (ia_by a) \<or> ia_kind a = KResume \<or> loginCapOk a d)
   \<and> (isPool (ia_by a) \<and> ia_kind a \<in> set POOL_RESTARTS \<longrightarrow>
        countOrders (\<lambda>x. poolOrder x \<and> restartType x) (ia_now a - HOUR) d < MAX_POOL_RESTARTS_PER_HOUR)
   \<and> (ia_by a = POOL_COMMUNITY \<and> ia_kind a \<in> set POOL_RESTARTS \<longrightarrow>
        countOrders (\<lambda>x. communityOrder x \<and> restartType x) (ia_now a - HOUR) d < MAX_POOL_COMMUNITY_RESTARTS_PER_HOUR)
   \<and> (isPool (ia_by a) \<longrightarrow> countOrders poolOrder (ia_now a - DAY) d < MAX_POOL_ORDERS_PER_DAY)
   \<and> (ia_by a = POOL_COMMUNITY \<longrightarrow> countOrders communityOrder (ia_now a - DAY) d < MAX_POOL_COMMUNITY_ORDERS_PER_DAY)"

text \<open>And the state the order acts on.\<close>

definition stateOk :: "issue_ask \<Rightarrow> db \<Rightarrow> bool" where
  "stateOk a d \<longleftrightarrow>
     (let w = workerOf (ia_worker a) d in
      (ia_rule a = None \<or> Option.bind w w_auto_orders = (case ia_auto a of Some (old, _) \<Rightarrow> old | None \<Rightarrow> None))
    \<and> (ia_kind a = KDrain \<longrightarrow> Option.bind w w_drained_at = None)
    \<and> (ia_kind a = KResume \<longrightarrow> Option.bind w w_drained_at \<noteq> None)
    \<and> (ia_kind a = KStop \<longrightarrow> (case ia_task a of None \<Rightarrow> False | Some i \<Rightarrow> list_ex (fenceGuard i (ia_worker a)) (d_tasks d))))"

definition newOrder :: "string \<Rightarrow> issue_ask \<Rightarrow> order_row" where
  "newOrder i a = \<lparr>o_id = i, o_worker = ia_worker a, o_kind = kind_name (ia_kind a), o_reason = Some (ia_reason a), o_issued_by = ia_by a,
     o_via = ia_via a, o_rule = ia_rule a, o_unless = ia_unless a, o_task = (if ia_kind a = KStop then ia_task a else None), o_site = ia_site a,
     o_issued_at = ia_now a,
     o_expires_at = ia_now a + (if ia_kind a = KUpdate then TTL_UPDATE_MIN else if isPool (ia_by a) then TTL_POOL_MIN else TTL_PERSON_MIN) * 60000,
     o_baseline_at_issue = ia_baseline a, o_state = (if ia_deliver a = None then OPending else ODelivered),
     o_delivered_at = map_option (\<lambda>_. ia_now a) (ia_deliver a), o_delivered_to = map_option fst (ia_deliver a),
     o_baseline = Option.bind (ia_deliver a) snd, o_accepted_at = None, o_answered_at = None, o_answered_by = None, o_code = None,
     o_detail = None, o_worker_detail = None\<rparr>"

text \<open>The unique indexes of the open orders: one per worker, kind and task, and one restart of an agent service per site.\<close>

definition openKey :: "order_row \<Rightarrow> string \<times> string \<times> int" where
  "openKey x = (o_worker x, o_kind x, nvl (o_task x) 0)"

definition siteKeyed :: "order_row \<Rightarrow> bool" where
  "siteKeyed x \<longleftrightarrow> openOrder x \<and> o_kind x = ''restart-agent'' \<and> o_site x \<noteq> None"

definition openTaken :: "order_row \<Rightarrow> db \<Rightarrow> bool" where
  "openTaken row d \<longleftrightarrow> list_ex (\<lambda>x. openOrder x \<and> openKey x = openKey row) (d_orders d)"

definition siteTaken :: "order_row \<Rightarrow> db \<Rightarrow> bool" where
  "siteTaken row d \<longleftrightarrow> siteKeyed row \<and> list_ex (\<lambda>x. siteKeyed x \<and> o_site x = o_site row) (d_orders d)"

text \<open>What the batch does beside the INSERT: the rules' state by compare-and-set, a drain that holds at once, a stop's fence, a resume that ends
  the drain and closes the drain's own order while it waits.\<close>

definition autoStatement :: "issue_ask \<Rightarrow> db \<Rightarrow> db" where
  "autoStatement a d = (case ia_auto a of
     None \<Rightarrow> d
   | Some (old, next') \<Rightarrow> d\<lparr>d_workers := sql_update (\<lambda>w. w_id w = ia_worker a \<and> w_auto_orders w = old) (\<lambda>w. w\<lparr>w_auto_orders := Some next'\<rparr>) (d_workers d)\<rparr>)"

definition drainStatement :: "issue_ask \<Rightarrow> db \<Rightarrow> db" where
  "drainStatement a d = (if ia_kind a = KDrain then d\<lparr>d_workers := sql_update (\<lambda>w. w_id w = ia_worker a \<and> w_drained_at w = None)
       (\<lambda>w. w\<lparr>w_drained_at := Some (ia_now a), w_drained_by := Some (ia_by a), w_drain_reason := Some (ia_reason a)\<rparr>) (d_workers d)\<rparr> else d)"

definition stopStatement :: "string \<Rightarrow> issue_ask \<Rightarrow> db \<Rightarrow> db" where
  "stopStatement i a d = (if ia_kind a = KStop then (case ia_task a of None \<Rightarrow> d | Some t \<Rightarrow> snd (fenceStatement i t (ia_worker a) d)) else d)"

definition waitingDrain :: "string \<Rightarrow> order_row \<Rightarrow> bool" where
  "waitingDrain worker x \<longleftrightarrow> o_worker x = worker \<and> o_kind x = ''drain'' \<and> o_state x = OPending"

definition poolCloses :: "order_state \<Rightarrow> int \<Rightarrow> order_detail \<Rightarrow> order_row \<Rightarrow> order_row" where
  "poolCloses s now det x = x\<lparr>o_state := s, o_answered_at := Some now, o_answered_by := Some ''pool'', o_detail := Some det\<rparr>"

definition resumeStatements :: "string \<Rightarrow> issue_ask \<Rightarrow> db \<Rightarrow> db" where
  "resumeStatements i a d = (case (ia_kind a, ia_resumed a) of
     (KResume, Some (det, drainDet)) \<Rightarrow>
       (let lines = map (\<lambda>x. OrderEvent (o_id x) (o_worker x) (o_kind x) ODone drainDet) (filter (waitingDrain (ia_worker a)) (d_orders d))
        in d\<lparr>d_events := lines @ d_events d,
             d_orders := sql_update (\<lambda>x. o_id x = i \<and> o_state x = OPending) (poolCloses ODone (ia_now a) det)
               (sql_update (waitingDrain (ia_worker a)) (poolCloses ODone (ia_now a) drainDet) (d_orders d)),
             d_workers := sql_update (\<lambda>w. w_id w = ia_worker a \<and> w_drained_at w \<noteq> None)
               (\<lambda>w. w\<lparr>w_drained_at := None, w_drained_by := None, w_drain_reason := None\<rparr>) (d_workers d)\<rparr>)
   | _ \<Rightarrow> d)"

definition issueLines :: "string \<Rightarrow> issue_ask \<Rightarrow> db \<Rightarrow> db" where
  "issueLines i a d =
     (let d1 = add_event (OrderEvent i (ia_worker a) (kind_name (ia_kind a)) (if ia_deliver a = None then OPending else ODelivered) (DWords (ia_line a))) d
      in case (ia_kind a, ia_resumed a) of
           (KResume, Some (det, _)) \<Rightarrow> if list_ex (\<lambda>x. o_id x = i \<and> o_state x = ODone \<and> o_answered_at x = Some (ia_now a)) (d_orders d1)
             then add_event (OrderEvent i (ia_worker a) (kind_name (ia_kind a)) ODone det) d1 else d1
         | _ \<Rightarrow> d1)"

text \<open>The issue: \<^term>\<open>i\<close> is the random id. An INSERT that meets a unique index, or an id that is taken, fails the batch; one the WHERE
  refuses leaves the other statements nothing to act on but the list's refresh.\<close>

definition issueOrder :: "string \<Rightarrow> issue_ask \<Rightarrow> db \<Rightarrow> (issue_refusal + string \<times> int \<times> int) \<times> db" where
  "issueOrder i a d =
     (let row = newOrder i a in
      if list_ex (\<lambda>x. o_id x = i) (d_orders d) then (Inl IssueThrows, d)
      else if \<not> (capsOk a d \<and> stateOk a d) then (Inl WhyCap, REFRESH_OPEN_SQL (ia_worker a) d)
      else if openTaken row d then (Inl WhyOpen, d)
      else if siteTaken row d then (Inl WhySite, d)
      else (Inr (i, o_issued_at row, o_expires_at row),
            issueLines i a (REFRESH_OPEN_SQL (ia_worker a)
              (resumeStatements i a (stopStatement i a (drainStatement a (autoStatement a (d\<lparr>d_orders := row # d_orders d\<rparr>))))))))"

subsection \<open>Closing an order\<close>

definition closeOrder :: "order_row \<Rightarrow> order_state \<Rightarrow> int \<Rightarrow> order_detail \<Rightarrow> db \<Rightarrow> db" where
  "closeOrder r s now det d = d\<lparr>d_orders := sql_update (\<lambda>x. o_id x = o_id r \<and> o_state x = o_state r) (poolCloses s now det) (d_orders d)\<rparr>"

text \<open>Its one final line, only when the row holds what this close wrote.\<close>

definition finalLine :: "order_row \<Rightarrow> order_state \<Rightarrow> int \<Rightarrow> order_detail \<Rightarrow> db \<Rightarrow> db" where
  "finalLine r s now det d =
     (if list_ex (\<lambda>x. o_id x = o_id r \<and> o_state x = s \<and> o_answered_at x = Some now \<and> o_answered_by x = Some ''pool'' \<and> o_detail x = Some det) (d_orders d)
      then add_event (OrderEvent (o_id r) (o_worker r) (o_kind r) s det) d else d)"

definition closeWithLine :: "int \<Rightarrow> order_row \<times> order_state \<times> order_detail \<Rightarrow> db \<Rightarrow> db" where
  "closeWithLine now c d = (case c of (r, s, det) \<Rightarrow> finalLine r s now det (closeOrder r s now det d))"

text \<open>A stop whose task it no longer fences: the lease ended first, or the task was cancelled.\<close>

definition stopEnded :: "(int \<times> task_status) option \<Rightarrow> int \<Rightarrow> order_state \<times> order_detail" where
  "stopEnded t issuedAt = (case t of
     Some (i, Cancelled) \<Rightarrow> (ODone, DStopCancelled i)
   | _ \<Rightarrow> (OFailed, DLeaseEnded (issuedAt + LEASE_MINUTES * 60000) t))"

subsection \<open>The claim's delivery\<close>

record after_claim =
  ac_worker :: string
  ac_open :: bool
  ac_takes :: "string list option"
  ac_via :: "string option"
  ac_version :: "string option"
  ac_instance :: "string option"
  ac_instance_since :: "int option"
  ac_conflict :: bool
  ac_status :: "string option"
  ac_checked_at :: "string option"
  ac_listed :: "(int \<times> string option) list option"

record order_out =
  oo_order :: string
  oo_out_kind :: string
  oo_unless_ok :: bool
  oo_notice :: bool

definition outOf :: "order_row \<Rightarrow> order_out" where
  "outOf r = \<lparr>oo_order = o_id r, oo_out_kind = o_kind r, oo_unless_ok = o_unless r, oo_notice = (o_kind r = ''drain'')\<rparr>"

datatype order_plan = PSkip | PClose order_state order_detail | PNotice order_detail | PStop | PDeliver

text \<open>What a claim shows of an order delivered before.\<close>

definition planDelivered :: "after_claim \<Rightarrow> int \<Rightarrow> order_row \<Rightarrow> order_plan" where
  "planDelivered x now r =
     (let mine = ac_instance x \<noteq> None \<and> ac_instance x = o_delivered_to r;
          other = truthy (ac_instance x) \<and> \<not> mine;
          k = kind_of (o_kind r)
      in if ac_conflict x then PSkip
         else if k = Some KRestart \<and> other then PClose ODone (DBackAfter ((now - o_issued_at r + 500) div 1000))
         else if (k = Some KRecheck \<or> k = Some KRestartAgent) \<and> other then PClose (if k = Some KRecheck then OExpired else OFailed) DEndedUnanswered
         else if mine \<and> k = Some KRecheck \<and> ac_checked_at x \<noteq> o_baseline r then PClose ODone (DRechecked (ac_status x))
         else if mine \<and> k = Some KRestartAgent \<and> ac_checked_at x \<noteq> o_baseline r \<and> ac_status x = Some ''ok'' then PClose ODone DAnswersAgain
         else PSkip)"

text \<open>A waiting order this process may carry out: closed when the claim shows it is done or cannot be taken, handed out otherwise.\<close>

definition planLive :: "after_claim \<Rightarrow> order_kind \<Rightarrow> order_row \<Rightarrow> order_plan" where
  "planLive x k r = (case ac_takes x of
     None \<Rightarrow> PClose ORefused (DTakesNone (ac_version x))
   | Some ks \<Rightarrow>
      if kind_name k \<notin> set ks then PClose ORefused (DCannotTake (kind_name k) (ac_via x))
      else if k = KRestart \<and> (case ac_instance_since x of Some t \<Rightarrow> t > o_issued_at r | None \<Rightarrow> False)
        then PClose ODone (DRestartedSince (nvl (ac_instance_since x) 0))
      else if k = KRecheck \<and> ac_checked_at x \<noteq> o_baseline_at_issue r then PClose ODone (DProbedSince (ac_status x))
      else if ((k = KRestart \<and> o_unless r) \<or> k = KRestartAgent) \<and> ac_status x = Some ''ok'' then PClose ODone DAnswersNow
      else if \<not> truthy (ac_instance x) then PSkip
      else PDeliver)"

definition planPending :: "after_claim \<Rightarrow> int \<Rightarrow> bool \<Rightarrow> order_row \<Rightarrow> order_plan" where
  "planPending x now onRelease r = (case kind_of (o_kind r) of
     None \<Rightarrow> PSkip
   | Some k \<Rightarrow>
      if k = KDrain then
        (if o_expires_at r \<le> now then PClose ODone DDrainedUnheard
         else if ac_conflict x then PSkip
         else if ac_takes x \<noteq> None then PNotice DDrainedHeard else PClose ODone DDrainedHeard)
      else if k = KStop then (if ac_conflict x then PSkip else PStop)
      else if o_expires_at r \<le> now then PClose OExpired (if k = KUpdate then DUpdateExpired else DNotDelivered)
      else if k = KUpdate then (if \<not> ac_conflict x \<and> onRelease then PClose ODone (DNowRuns (ac_version x)) else PSkip)
      else if ac_conflict x then PSkip
      else planLive x k r)"

definition planOf :: "after_claim \<Rightarrow> int \<Rightarrow> bool \<Rightarrow> order_row \<Rightarrow> order_plan" where
  "planOf x now onRelease r = (if o_state r = ODelivered then planDelivered x now r else planPending x now onRelease r)"

definition planCloses :: "after_claim \<Rightarrow> int \<Rightarrow> bool \<Rightarrow> order_row list \<Rightarrow> (order_row \<times> order_state \<times> order_detail) list" where
  "planCloses x now rel rows = List.map_filter (\<lambda>r. case planOf x now rel r of PClose s det \<Rightarrow> Some (r, s, det) | PNotice det \<Rightarrow> Some (r, ODone, det) | _ \<Rightarrow> None) rows"

definition deliveryRank :: "order_row \<Rightarrow> nat" where
  "deliveryRank r = (if o_kind r = ''drain'' then 0 else if o_kind r = ''recheck-agent'' then 1 else if o_kind r = ''restart-agent'' then 2
     else if o_kind r = ''restart'' then 3 else 9)"

definition planDeliver :: "after_claim \<Rightarrow> int \<Rightarrow> bool \<Rightarrow> order_row list \<Rightarrow> order_row list" where
  "planDeliver x now rel rows = sort_key deliveryRank (filter (\<lambda>r. planOf x now rel r = PDeliver) rows)"

definition planStops :: "after_claim \<Rightarrow> int \<Rightarrow> bool \<Rightarrow> order_row list \<Rightarrow> order_row list" where
  "planStops x now rel rows = filter (\<lambda>r. planOf x now rel r = PStop) rows"

definition planNotices :: "after_claim \<Rightarrow> int \<Rightarrow> bool \<Rightarrow> order_row list \<Rightarrow> order_row list" where
  "planNotices x now rel rows = filter (\<lambda>r. case planOf x now rel r of PNotice _ \<Rightarrow> True | _ \<Rightarrow> False) rows"

text \<open>A stop's task as it was read: still fenced by this order; one a host's claim still lists keeps its fence.\<close>

definition fencedBy :: "after_claim \<Rightarrow> order_row \<Rightarrow> task \<Rightarrow> bool" where
  "fencedBy x r t \<longleftrightarrow> t_status t = Leased \<and> t_lease_owner t = Some (ac_worker x) \<and> t_stop_order t = Some (o_id r)"

definition stillListed :: "after_claim \<Rightarrow> task \<Rightarrow> bool" where
  "stillListed x t \<longleftrightarrow> (case ac_listed x of None \<Rightarrow> False | Some ls \<Rightarrow> (t_id t, t_lease_gen t) \<in> set ls)"

text \<open>One stop in the claim's batch: the fenced task back to the queue, and the order closed only by the requeue that happened; and the
  task to settle after the batch.\<close>

definition takeStop :: "after_claim \<Rightarrow> int \<Rightarrow> (int \<Rightarrow> task option) \<Rightarrow> order_row \<Rightarrow> db \<Rightarrow> (task \<times> bool \<times> task_error) option \<times> db" where
  "takeStop x now taskOf r d =
     (let t = (case o_task r of None \<Rightarrow> None | Some i \<Rightarrow> taskOf i)
      in if (case t of Some t' \<Rightarrow> fencedBy x r t' | None \<Rightarrow> False) then
           (let t' = the t in
            if stillListed x t' then (None, d)
            else (let err = stopError (ac_worker x) (o_issued_by r) (o_reason r) False;
                      det = DStopped (max 0 ((now - o_issued_at r + 30000) div 60000)) (t_id t') (t_attempts t' \<ge> t_max_attempts t');
                      (back, d1) = REQUEUE_SQL now err (t_id t') (ac_worker x) (Some (o_id r)) None d;
                      d2 = d1\<lparr>d_orders := sql_update (\<lambda>y. o_id y = o_id r \<and> o_state y = OPending
                             \<and> list_ex (\<lambda>u. t_id u = t_id t' \<and> t_stop_order u = None \<and> t_error u = Some err) (d_tasks d1)) (poolCloses ODone now det) (d_orders d1)\<rparr>
                  in (map_option (\<lambda>row. (t', t_status row = Failed, err)) back, finalLine r ODone now det d2)))
         else (let (s, det) = stopEnded (map_option (\<lambda>u. (t_id u, t_status u)) t) (o_issued_at r)
               in (None, finalLine r s now det
                     (d\<lparr>d_orders := sql_update (\<lambda>y. o_id y = o_id r \<and> o_state y = OPending) (poolCloses s now det) (d_orders d)\<rparr>))))"

fun takeStops :: "after_claim \<Rightarrow> int \<Rightarrow> (int \<Rightarrow> task option) \<Rightarrow> order_row list \<Rightarrow> db \<Rightarrow> (task \<times> bool \<times> task_error) list \<times> db" where
  "takeStops x now taskOf [] d = ([], d)"
| "takeStops x now taskOf (r # rs) d =
     (let (b, d1) = takeStop x now taskOf r d; (bs, d2) = takeStops x now taskOf rs d1
      in (case b of None \<Rightarrow> bs | Some q \<Rightarrow> q # bs, d2))"

text \<open>One delivery, and whether the order was still waiting.\<close>

definition deliverOne :: "after_claim \<Rightarrow> int \<Rightarrow> order_row \<Rightarrow> db \<Rightarrow> bool \<times> db" where
  "deliverOne x now r d =
     (let P = (\<lambda>y. o_id y = o_id r \<and> o_state y = OPending)
      in (list_ex P (d_orders d), d\<lparr>d_orders := sql_update P (\<lambda>y. y\<lparr>o_state := ODelivered, o_delivered_at := Some now, o_delivered_to := ac_instance x,
             o_baseline := (if o_kind r = ''restart'' then ac_instance x else ac_checked_at x)\<rparr>) (d_orders d)\<rparr>))"

fun deliverAll :: "after_claim \<Rightarrow> int \<Rightarrow> order_row list \<Rightarrow> db \<Rightarrow> order_row list \<times> db" where
  "deliverAll x now [] d = ([], d)"
| "deliverAll x now (r # rs) d =
     (let (ok, d1) = deliverOne x now r d; (hs, d2) = deliverAll x now rs d1
      in (if ok then r # hs else hs, d2))"

definition takeOrders :: "after_claim \<Rightarrow> int \<Rightarrow> bool \<Rightarrow> order_row list \<Rightarrow> (int \<Rightarrow> task option) \<Rightarrow> db \<Rightarrow> order_out list \<times> db" where
  "takeOrders x now rel rows taskOf d =
     (let closes = planCloses x now rel rows; deliver = planDeliver x now rel rows; stops = planStops x now rel rows
      in if \<not> ac_open x \<or> (closes = [] \<and> deliver = [] \<and> stops = []) then ([], d)
         else (let d1 = fold (closeWithLine now) closes d;
                   (back, d2) = takeStops x now taskOf stops d1;
                   (handed, d3) = deliverAll x now deliver d2;
                   d4 = REFRESH_OPEN_SQL (ac_worker x) d3
               in (map outOf (planNotices x now rel rows) @ map outOf handed,
                   fold (\<lambda>(t, failed, err). afterRequeue (t\<lparr>t_lease_owner := Some (ac_worker x)\<rparr>) failed err True) back d4)))"

text \<open>Read and batch with nothing between.\<close>

definition takeOrdersNow :: "after_claim \<Rightarrow> int \<Rightarrow> running_version \<Rightarrow> release_policy \<Rightarrow> db \<Rightarrow> order_out list \<times> db" where
  "takeOrdersNow x now pool policy d =
     takeOrders x now (runsRelease (ac_version x) pool now policy) (OPEN_ORDERS_SQL (ac_worker x) d) (\<lambda>i. row_of i d) d"

end
