(* ===== verification/Order_Doors.thy ===== *)
theory Order_Doors
  imports Order_Life
begin

text \<open>
  The doors of the orders (worker/src/routes/orders.ts), the cap a refused INSERT met, the cron's sweep and the removal of old orders, and
  the pool's own order at a claim (worker/src/routes/factory.ts \<open>autoOrder\<close>). A time an answer or a key writes as text is the text
  of \<open>isoText\<close>, an argument; what a handler answers beside the order (notes for a page) is left out.
\<close>

subsection \<open>The counts\<close>

definition oldestOrder :: "(order_row \<Rightarrow> bool) \<Rightarrow> int \<Rightarrow> db \<Rightarrow> int option" where
  "oldestOrder P since d = first_of (sort (map o_issued_at (filter (\<lambda>x. P x \<and> since < o_issued_at x) (d_orders d))))"

definition freeAt :: "(order_row \<Rightarrow> bool) \<Rightarrow> int \<Rightarrow> db \<Rightarrow> int option" where
  "freeAt P now d = map_option (\<lambda>t. t + HOUR) (oldestOrder P (now - HOUR) d)"

definition orderFacts :: "string \<Rightarrow> login option \<Rightarrow> int \<Rightarrow> bool \<Rightarrow> running_version \<Rightarrow> db \<Rightarrow> order_facts" where
  "orderFacts worker login now host pool d =
     (let restarts = ofWorkerKinds worker (if host then HOST_RESTART_GROUP else RESTART_GROUP);
          rechecks = ofWorkerKinds worker [KRecheck]; drains = ofWorkerKinds worker [KDrain];
          mine = (\<lambda>x. case login of None \<Rightarrow> False | Some l \<Rightarrow> ofIssuer l x);
          stops = (\<lambda>x. case login of None \<Rightarrow> False | Some l \<Rightarrow> host \<and> stopsOf l x)
      in \<lparr>of_now = now, of_restarts = countOrders restarts (now - HOUR) d, of_rechecks = countOrders rechecks (now - HOUR) d,
          of_logins = countOrders mine (now - HOUR) d, of_drains = countOrders drains (now - HOUR) d, of_stops = countOrders stops (now - HOUR) d,
          of_restarts_free = freeAt restarts now d, of_rechecks_free = freeAt rechecks now d, of_logins_free = freeAt mine now d,
          of_drains_free = freeAt drains now d, of_stops_free = freeAt stops now d, of_task = None, of_pool = Some pool\<rparr>)"

text \<open>The counts Drain and Resume decide on, for several workers at once.\<close>

definition drainFacts :: "string list \<Rightarrow> login \<Rightarrow> int \<Rightarrow> db \<Rightarrow> (string \<times> order_facts) list" where
  "drainFacts workers login now d = map (\<lambda>i. (i,
     \<lparr>of_now = now, of_restarts = 0, of_rechecks = 0, of_logins = countOrders (ofIssuer login) (now - HOUR) d,
      of_drains = countOrders (ofWorkerKinds i [KDrain]) (now - HOUR) d, of_stops = 0, of_restarts_free = None, of_rechecks_free = None,
      of_logins_free = freeAt (ofIssuer login) now d, of_drains_free = freeAt (ofWorkerKinds i [KDrain]) now d, of_stops_free = None,
      of_task = None, of_pool = None\<rparr>)) workers"

text \<open>After an INSERT the caps refused: which cap, journaled once per window when it is the login's or the pool's (the settings key decides).\<close>

datatype cap_refusal =
    CapStops login "int option"
  | LeaseMoved
  | CapLogin login "int option"
  | BudgetSpent "int option"
  | CommunitySpent "int option"
  | PoolRestartsSpent
  | CommunityRestartsSpent
  | CapRechecks "int option"
  | CapRestarts "int option"
  | CapDrains "int option"
  | StateMoved

definition capLine :: "string \<Rightarrow> string \<Rightarrow> db \<Rightarrow> db" where
  "capLine key summary d = (if key \<in> set (map fst (d_settings d)) then d
     else add_event (CapEvent key summary) (d\<lparr>d_settings := d_settings d @ [(key, summary)]\<rparr>))"

definition capRefusal :: "(int \<Rightarrow> string) \<Rightarrow> string \<Rightarrow> order_kind \<Rightarrow> string \<Rightarrow> int \<Rightarrow> bool \<Rightarrow> running_version \<Rightarrow> db \<Rightarrow> cap_refusal \<times> db" where
  "capRefusal isoText worker kind who now host pool d =
     (let f = orderFacts worker (if isPool who then None else Some who) now host pool d;
          hour = take 13 (isoText now); day = take 10 (isoText now);
          free = (\<lambda>P. map_option (\<lambda>t. t + DAY) (oldestOrder P (now - DAY) d))
      in if host \<and> kind = KStop then ((if of_stops f \<ge> MAX_STOPS_PER_LOGIN_HOUR then CapStops who (of_stops_free f) else LeaseMoved), d)
         else if \<not> isPool who \<and> of_logins f \<ge> MAX_ORDERS_PER_LOGIN_HOUR then (CapLogin who (of_logins_free f), capLine (''order-cap:'' @ who @ '':'' @ hour) who d)
         else if isPool who \<and> countOrders poolOrder (now - DAY) d \<ge> MAX_POOL_ORDERS_PER_DAY then (BudgetSpent (free poolOrder), capLine (''order-budget:'' @ day) who d)
         else if who = POOL_COMMUNITY \<and> countOrders (ofIssuer POOL_COMMUNITY) (now - DAY) d \<ge> MAX_POOL_COMMUNITY_ORDERS_PER_DAY
         then (CommunitySpent (free (ofIssuer POOL_COMMUNITY)), capLine (''order-budget:community:'' @ day) who d)
         else if isPool who \<and> kind \<in> set POOL_RESTARTS \<and> countOrders (\<lambda>x. poolOrder x \<and> restartType x) (now - HOUR) d \<ge> MAX_POOL_RESTARTS_PER_HOUR
         then (PoolRestartsSpent, capLine (''order-cap:pool:all:'' @ hour) who d)
         else if who = POOL_COMMUNITY \<and> kind \<in> set POOL_RESTARTS
           \<and> countOrders (\<lambda>x. communityOrder x \<and> restartType x) (now - HOUR) d \<ge> MAX_POOL_COMMUNITY_RESTARTS_PER_HOUR
         then (CommunityRestartsSpent, capLine (''order-cap:pool:community:'' @ hour) who d)
         else if kind = KRecheck \<and> of_rechecks f \<ge> MAX_RECHECKS_PER_HOUR then (CapRechecks (of_rechecks_free f), d)
         else if kind \<in> set RESTART_GROUP \<and> of_restarts f \<ge> MAX_RESTARTS_PER_HOUR then (CapRestarts (of_restarts_free f), d)
         else if kind = KDrain \<and> of_drains f \<ge> MAX_RESTARTS_PER_HOUR then (CapDrains (of_drains_free f), d)
         else (StateMoved, d))"

subsection \<open>A person's order\<close>

text \<open>The worker's row with its host's last report, and the task a Stop acts on: a legacy registration's one task, on a host the task the stop names
  or its one lease.\<close>

definition orderWorkerOf :: "db \<Rightarrow> worker \<Rightarrow> order_worker" where
  "orderWorkerOf d w =
     (let h = Option.bind (w_host_id w) (\<lambda>i. find (\<lambda>x. hr_id x = i) (d_hosts d))
      in \<lparr>ow_id = w_id w, ow_owner = w_owner w, ow_revoked_at = w_revoked_at w, ow_version = w_version w, ow_order_kinds = w_order_kinds w,
          ow_open = openOrdersOf (w_open_orders w), ow_conflict_at = w_conflict_at w, ow_restarts_left = w_restarts_left w,
          ow_agent_via = w_agent_via w, ow_trust = w_trust w, ow_drained_at = w_drained_at w, ow_drained_by = w_drained_by w,
          ow_drain_reason = w_drain_reason w, ow_current_task = w_current_task w, ow_rollout = w_rollout w, ow_host = (w_host_id w \<noteq> None),
          ow_host_reported_at = Option.bind h hr_reported_at, ow_host_release = Option.bind h hr_release_applied\<rparr>)"

definition WORKER_ROW_SQL :: "string \<Rightarrow> db \<Rightarrow> (worker \<times> order_worker) option" where
  "WORKER_ROW_SQL i d = map_option (\<lambda>w. (w, orderWorkerOf d w)) (workerOf i d)"

definition heldOfTask :: "task \<Rightarrow> held_task" where
  "heldOfTask t = \<lparr>ht_id = t_id t, ht_status = Some (t_status t), ht_lease_owner = t_lease_owner t, ht_stop_order = t_stop_order t, ht_kind = t_kind t,
     ht_attempts = t_attempts t, ht_max_attempts = t_max_attempts t\<rparr>"

definition heldTasks :: "worker \<Rightarrow> db \<Rightarrow> held_task list" where
  "heldTasks w d = (if w_host_id w \<noteq> None
     then map heldOfTask (sort_key t_id (filter (\<lambda>t. t_status t = Leased \<and> t_lease_owner t = Some (w_id w)) (d_tasks d)))
     else (case w_current_task w of None \<Rightarrow> [] | Some i \<Rightarrow> (case row_of i d of None \<Rightarrow> [] | Some t \<Rightarrow> [heldOfTask t])))"

definition heldTask :: "worker \<Rightarrow> int option \<Rightarrow> db \<Rightarrow> held_task option" where
  "heldTask w named d =
     (if w_host_id w \<noteq> None then
        (case named of
           Some i \<Rightarrow> (case row_of i d of Some t \<Rightarrow> Some (heldOfTask t)
             | None \<Rightarrow> Some \<lparr>ht_id = i, ht_status = None, ht_lease_owner = None, ht_stop_order = None, ht_kind = [], ht_attempts = 0, ht_max_attempts = 0\<rparr>)
         | None \<Rightarrow> (case heldTasks w d of [t] \<Rightarrow> Some t | _ \<Rightarrow> None))
      else first_of (heldTasks w d))"

text \<open>A write from the page: with the session it is JSON and from the pool's own origin; with a token JSON when it has a body.\<close>

record order_request =
  rq_web :: bool
  rq_json :: bool
  rq_own_origin :: bool
  rq_body :: "json option"
  rq_task_given :: bool
  rq_task :: "int option"

definition writeGate :: "order_request \<Rightarrow> bool \<Rightarrow> bool" where
  "writeGate rq withBody \<longleftrightarrow> (if rq_web rq then rq_json rq \<and> rq_own_origin rq else withBody \<longrightarrow> rq_json rq)"

datatype order_refusal =
    NotFromThePage
  | NoJsonBody
  | UnknownKind
  | NoSuchWorker
  | Refuses nat order_why
  | HoldsAnother int
  | ReasonLeaks
  | StopOpenAlready int
  | OpenAlready order_kind
  | SiteOpenAlready
  | DrainedMeanwhile
  | NotDrainedNow
  | IdleNow
  | HoldsAnotherNow int int
  | StoppedMeanwhile int
  | AtCap cap_refusal

text \<open>What it says of a refusal once the INSERT was refused: the state as it is now, or the cap.\<close>

definition refusedIssue :: "(int \<Rightarrow> string) \<Rightarrow> issue_refusal \<Rightarrow> issue_ask \<Rightarrow> running_version \<Rightarrow> db \<Rightarrow> order_refusal \<times> db" where
  "refusedIssue isoText why a pool d =
     (let kind = ia_kind a; again = workerOf (ia_worker a) d;
          held = Option.bind again (\<lambda>w. heldTask w None d);
          cap = (let (c, d') = capRefusal isoText (ia_worker a) kind (ia_by a) (ia_now a) (ia_host a) pool d in (AtCap c, d'))
      in if why = WhyOpen \<and> kind = KStop \<and> ia_host a then (StopOpenAlready (nvl (ia_task a) 0), d)
         else if why = WhyOpen then (OpenAlready kind, d)
         else if why = WhySite then (SiteOpenAlready, d)
         else if kind = KDrain \<and> Option.bind again w_drained_at \<noteq> None then (DrainedMeanwhile, d)
         else if kind = KResume \<and> again \<noteq> None \<and> Option.bind again w_drained_at = None then (NotDrainedNow, d)
         else if kind = KStop \<and> \<not> ia_host a then
           (case held of
              None \<Rightarrow> (IdleNow, d)
            | Some t \<Rightarrow> if ht_status t \<noteq> Some Leased \<or> ht_lease_owner t \<noteq> Some (ia_worker a) then (IdleNow, d)
                else if Some (ht_id t) \<noteq> ia_task a then (HoldsAnotherNow (ht_id t) (nvl (ia_task a) 0), d)
                else if ht_stop_order t \<noteq> None then (StoppedMeanwhile (ht_id t), d)
                else cap)
         else cap)"

text \<open>The body's reason, cleaned; the door's own words when there is none.\<close>

definition orderReason :: "json option \<Rightarrow> string \<Rightarrow> string option" where
  "orderReason v label = (case (if v = None \<or> v = Some JNull then Some [] else cleanText v 300 False) of
     None \<Rightarrow> None
   | Some r \<Rightarrow> Some (if r = [] then label else r))"

definition askOf :: "person \<Rightarrow> order_request \<Rightarrow> order_kind \<Rightarrow> string \<Rightarrow> worker \<Rightarrow> held_task option \<Rightarrow> int \<Rightarrow> string \<Rightarrow> issue_ask" where
  "askOf c rq kind reason w held now line =
     \<lparr>ia_worker = w_id w, ia_kind = kind, ia_reason = reason, ia_by = fst c, ia_via = Some (if rq_web rq then ''web'' else ''token''), ia_rule = None,
      ia_unless = (kind = KRestart \<and> jbool (jfield (rq_body rq) ''unless_agent_ok'') = Some True), ia_site = w_site w,
      ia_baseline = w_agent_checked_at w, ia_auto = None, ia_deliver = None,
      ia_task = (if kind = KStop then map_option ht_id held else None), ia_host = (w_host_id w \<noteq> None),
      ia_resumed = (if kind = KResume then Some (DResumedBy (fst c), DDrainResumedBy (fst c)) else None), ia_now = now, ia_line = line\<rparr>"

fun KIND_LABEL :: "order_kind \<Rightarrow> string" where
  "KIND_LABEL KRecheck = ''Re-check agent''"
| "KIND_LABEL KRestart = ''Restart''"
| "KIND_LABEL KRestartAgent = ''Restart agent service''"
| "KIND_LABEL KDrain = ''Drain''"
| "KIND_LABEL KResume = ''Resume''"
| "KIND_LABEL KStop = ''Stop its task''"
| "KIND_LABEL KUpdate = ''Update''"

text \<open>\<^term>\<open>rq_task rq\<close> is the task the body names, read by \<^verbatim>\<open>Number\<close> where it is a positive whole number, \<^term>\<open>rq_task_given rq\<close> whether it
  names one at all; \<open>line\<close> is the summary of the order's line.\<close>

definition handleIssueOrder :: "(int \<Rightarrow> string) \<Rightarrow> string \<Rightarrow> string \<Rightarrow> person \<Rightarrow> string \<Rightarrow> order_request \<Rightarrow> int \<Rightarrow> running_version
     \<Rightarrow> release_policy \<Rightarrow> db \<Rightarrow> (order_refusal + string \<times> int \<times> int) \<times> db" where
  "handleIssueOrder isoText newId line c i rq now pool policy d =
     (if \<not> writeGate rq True then (Inl NotFromThePage, d)
      else if rq_body rq = None then (Inl NoJsonBody, d)
      else (case Option.bind (jstr (jfield (rq_body rq) ''kind'')) kind_of of
          None \<Rightarrow> (Inl UnknownKind, d)
        | Some kind \<Rightarrow> (case WORKER_ROW_SQL i d of
            None \<Rightarrow> (Inl NoSuchWorker, d)
          | Some (w, ow) \<Rightarrow>
             (let host = ow_host ow;
                  held = (if kind = KStop then heldTask w (rq_task rq) d else None);
                  f = (orderFacts (w_id w) (Some (fst c)) now host pool d)\<lparr>of_task := held\<rparr>
              in case orderVerdicts (Some c) ow f policy (rightOfKind kind) of
                   MayNot status why \<Rightarrow>
                     (if (case why of LoginCap _ _ \<Rightarrow> True | _ \<Rightarrow> False) \<and> of_logins f \<ge> MAX_ORDERS_PER_LOGIN_HOUR
                      then (let (r, d') = capRefusal isoText (w_id w) kind (fst c) now host pool d in (Inl (AtCap r), d'))
                      else (Inl (Refuses status why), d))
                 | May \<Rightarrow>
                     (if kind = KStop \<and> rq_task_given rq \<and> rq_task rq \<noteq> map_option ht_id held then (Inl (HoldsAnother (case held of Some t \<Rightarrow> ht_id t | None \<Rightarrow> 0)), d)
                      else (case orderReason (jfield (rq_body rq) ''reason'') (KIND_LABEL kind @ '' from the worker'' @ [CHR 0x27] @ ''s page'') of
                          None \<Rightarrow> (Inl ReasonLeaks, d)
                        | Some reason \<Rightarrow>
                            (let a = askOf c rq kind reason w held now line
                             in case issueOrder newId a d of
                                  (Inr out, d') \<Rightarrow> (Inr out, d')
                                | (Inl why, d') \<Rightarrow> (let (r, d'') = refusedIssue isoText why a pool d' in (Inl r, d'')))))))))"

subsection \<open>Cancel and answer\<close>

datatype cancel_refusal = CancelNotFromPage | CancelNoWorker | CancelRefused nat order_why | CancelNoOrder | CancelNotWaiting order_state | StopNotCancelled | DrainNotCancelled
  | CancelMeanwhile

definition noFacts :: "int \<Rightarrow> order_facts" where
  "noFacts now = \<lparr>of_now = now, of_restarts = 0, of_rechecks = 0, of_logins = 0, of_drains = 0, of_stops = 0, of_restarts_free = None,
     of_rechecks_free = None, of_logins_free = None, of_drains_free = None, of_stops_free = None, of_task = None, of_pool = None\<rparr>"

definition cancelBatch :: "order_row \<Rightarrow> login \<Rightarrow> int \<Rightarrow> db \<Rightarrow> db" where
  "cancelBatch r who now d =
     (let d1 = d\<lparr>d_orders := sql_update (\<lambda>x. o_id x = o_id r \<and> o_state x = OPending) (poolCloses OCancelled now (DCancelledBy who)) (d_orders d)\<rparr>;
          d2 = (if list_ex (\<lambda>x. o_id x = o_id r \<and> o_state x = OCancelled \<and> o_answered_at x = Some now) (d_orders d1)
                then add_event (OrderEvent (o_id r) (o_worker r) (o_kind r) OCancelled (DCancelledBy who)) d1 else d1)
      in REFRESH_OPEN_SQL (o_worker r) d2)"

definition handleCancelOrder :: "person \<Rightarrow> string \<Rightarrow> string \<Rightarrow> order_request \<Rightarrow> int \<Rightarrow> release_policy \<Rightarrow> db \<Rightarrow> (cancel_refusal + string) \<times> db" where
  "handleCancelOrder c i oid rq now policy d =
     (if \<not> writeGate rq False then (Inl CancelNotFromPage, d)
      else (case WORKER_ROW_SQL i d of
          None \<Rightarrow> (Inl CancelNoWorker, d)
        | Some (w, ow) \<Rightarrow> (case orderVerdicts (Some c) ow (noFacts now) policy RtCancel of
            MayNot status why \<Rightarrow> (Inl (CancelRefused status why), d)
          | May \<Rightarrow> (case find (\<lambda>x. o_id x = oid \<and> o_worker x = i) (d_orders d) of
              None \<Rightarrow> (Inl CancelNoOrder, d)
            | Some r \<Rightarrow>
                if o_state r \<noteq> OPending then (Inl (CancelNotWaiting (o_state r)), d)
                else if o_kind r = ''stop-task'' then (Inl StopNotCancelled, d)
                else if o_kind r = ''drain'' then (Inl DrainNotCancelled, d)
                else (let d' = cancelBatch r (fst c) now d
                      in if list_ex (\<lambda>x. o_id x = oid \<and> o_state x = OPending) (d_orders d) then (Inr oid, d') else (Inl CancelMeanwhile, d'))))))"

datatype answer_refusal = AnswerNoOrder | BadOutcome | NotAnswered string | NotWaiting order_state | OtherProcess | AcceptedAlready | ClosedMeanwhile

fun outcomeState :: "order_outcome \<Rightarrow> order_state" where
  "outcomeState Accepted = ODelivered"
| "outcomeState OutcomeDone = ODone"
| "outcomeState OutcomeRefused = ORefused"
| "outcomeState OutcomeFailed = OFailed"

text \<open>The worker's own words: private, cleaned, withheld when they look like a secret. \<open>said\<close> is the answer's detail with its agent's words.\<close>

definition workerWords :: "string \<Rightarrow> string option" where
  "workerWords said = (case cleanText (Some (JStr said)) 500 True of
     None \<Rightarrow> Some ''[withheld: the answer carried what looks like a secret]''
   | Some t \<Rightarrow> if t = [] then None else Some t)"

record worker_answer =
  wa_instance :: "string option"
  wa_outcome :: "string option"
  wa_code :: "json option"
  wa_said :: string
  wa_service :: "string option"
  wa_seconds :: "rat option"

definition waitsFor :: "string \<Rightarrow> string \<Rightarrow> string option \<Rightarrow> order_row \<Rightarrow> bool" where
  "waitsFor oid worker inst x \<longleftrightarrow> o_id x = oid \<and> o_worker x = worker \<and> inst \<noteq> None \<and> o_delivered_to x = inst \<and> o_state x = ODelivered"

definition acceptStatement :: "string \<Rightarrow> string \<Rightarrow> string option \<Rightarrow> string \<Rightarrow> string option \<Rightarrow> order_detail \<Rightarrow> int \<Rightarrow> db \<Rightarrow> bool \<times> db" where
  "acceptStatement oid worker inst code said det now d =
     (let P = (\<lambda>x. waitsFor oid worker inst x \<and> o_accepted_at x = None)
      in (list_ex P (d_orders d), d\<lparr>d_orders := sql_update P (\<lambda>x. x\<lparr>o_accepted_at := Some now, o_code := Some code, o_worker_detail := said, o_detail := Some det\<rparr>) (d_orders d)\<rparr>))"

definition answerBatch :: "order_row \<Rightarrow> string option \<Rightarrow> order_state \<Rightarrow> string \<Rightarrow> string option \<Rightarrow> order_detail \<Rightarrow> int \<Rightarrow> db \<Rightarrow> bool \<times> db" where
  "answerBatch r inst s code said det now d =
     (let P = waitsFor (o_id r) (o_worker r) inst;
          d1 = d\<lparr>d_orders := sql_update P (\<lambda>x. x\<lparr>o_state := s, o_answered_at := Some now, o_answered_by := Some ''worker'', o_code := Some code,
                 o_detail := Some det, o_worker_detail := said\<rparr>) (d_orders d)\<rparr>;
          d2 = (if list_ex (\<lambda>x. o_id x = o_id r \<and> o_state x = s \<and> o_answered_at x = Some now \<and> o_answered_by x = Some ''worker'') (d_orders d1)
                then add_event (OrderEvent (o_id r) (o_worker r) (o_kind r) s det) d1 else d1)
      in (list_ex P (d_orders d), REFRESH_OPEN_SQL (o_worker r) d2))"

text \<open>\<open>seen\<close> is the order as it was read, by its id.\<close>

definition handleAnswerOrder :: "string \<Rightarrow> string option \<Rightarrow> string \<Rightarrow> worker_answer \<Rightarrow> int \<Rightarrow> order_row option \<Rightarrow> db \<Rightarrow> (answer_refusal + order_state) \<times> db" where
  "handleAnswerOrder worker version oid b now seen d =
     (case seen of
        None \<Rightarrow> (Inl AnswerNoOrder, d)
      | Some r \<Rightarrow>
         if o_worker r \<noteq> worker then (Inl AnswerNoOrder, d)
         else (case Option.bind (wa_outcome b) (map_of OUTCOMES) of
             None \<Rightarrow> (Inl BadOutcome, d)
           | Some oc \<Rightarrow>
              if o_kind r \<in> {''drain'', ''resume'', ''update'', ''stop-task''} then (Inl (NotAnswered (o_kind r)), d)
              else if o_state r \<noteq> ODelivered then (Inl (NotWaiting (o_state r)), d)
              else if wa_instance b = None \<or> wa_instance b \<noteq> o_delivered_to r then (Inl OtherProcess, d)
              else if oc = Accepted \<and> o_accepted_at r \<noteq> None then (Inl AcceptedAlready, d)
              else (let code = answerCode (o_kind r) oc (wa_code b);
                        det = codeSentence (o_kind r) code oc version (wa_service b) (wa_seconds b);
                        said = workerWords (wa_said b)
                    in if oc = Accepted then
                         (case acceptStatement (o_id r) worker (wa_instance b) code said det now d of
                            (True, d') \<Rightarrow> (Inr ODelivered, d') | (False, d') \<Rightarrow> (Inl AcceptedAlready, d'))
                       else
                         (case answerBatch r (wa_instance b) (outcomeState oc) code said det now d of
                            (True, d') \<Rightarrow> (Inr (outcomeState oc), d') | (False, d') \<Rightarrow> (Inl ClosedMeanwhile, d')))))"

subsection \<open>The sweep\<close>

definition DUE_ORDERS_SQL :: "int \<Rightarrow> db \<Rightarrow> order_row list" where
  "DUE_ORDERS_SQL now d = filter (\<lambda>x. openOrder x \<and> ((o_state x = OPending \<and> o_expires_at x \<le> now)
     \<or> (case o_delivered_at x of Some t \<Rightarrow> t \<le> now - ANSWER_WITHIN_MIN * 60000 | None \<Rightarrow> False))) (d_orders d)"

definition fences :: "order_row \<Rightarrow> task \<Rightarrow> bool" where
  "fences x t \<longleftrightarrow> Some (t_id t) = o_task x \<and> t_status t = Leased \<and> t_lease_owner t = Some (o_worker x) \<and> t_stop_order t = Some (o_id x)"

definition STOPS_DUE_SQL :: "db \<Rightarrow> order_row list" where
  "STOPS_DUE_SQL d = filter (\<lambda>x. openOrder x \<and> o_kind x = ''stop-task'' \<and> \<not> list_ex (fences x) (d_tasks d)) (d_orders d)"

definition dueClose :: "order_row \<Rightarrow> order_row \<times> order_state \<times> order_detail" where
  "dueClose x =
     (if o_kind x = ''drain'' \<and> o_state x = OPending then (x, ODone, DDrainedUnheard)
      else if o_state x = OPending then (x, OExpired, if o_kind x = ''update'' then DUpdateExpired else DNotDelivered)
      else (x, if o_kind x = ''recheck-agent'' then OExpired else OFailed, DNoAnswer))"

definition stopClose :: "db \<Rightarrow> order_row \<Rightarrow> order_row \<times> order_state \<times> order_detail" where
  "stopClose d x = (let (s, det) = stopEnded (Option.bind (o_task x) (\<lambda>i. map_option (\<lambda>t. (i, t_status t)) (row_of i d))) (o_issued_at x) in (x, s, det))"

text \<open>A close of the sweep: its line asks for the state and the time only.\<close>

definition sweepClose :: "int \<Rightarrow> order_row \<times> order_state \<times> order_detail \<Rightarrow> db \<Rightarrow> db" where
  "sweepClose now c d = (case c of (r, s, det) \<Rightarrow>
     (let d1 = closeOrder r s now det d
      in if list_ex (\<lambda>x. o_id x = o_id r \<and> o_answered_at x = Some now \<and> o_state x = s) (d_orders d1)
         then add_event (OrderEvent (o_id r) (o_worker r) (o_kind r) s det) d1 else d1))"

definition sweepBatch :: "int \<Rightarrow> (order_row \<times> order_state \<times> order_detail) list \<Rightarrow> db \<Rightarrow> db" where
  "sweepBatch now closes d = fold REFRESH_OPEN_SQL (remdups (map (o_worker \<circ> fst) closes)) (fold (sweepClose now) closes d)"

definition UNPIN_AFTER_DRAIN_MINUTES :: int where "UNPIN_AFTER_DRAIN_MINUTES = 3"

definition drainedFor :: "int \<Rightarrow> worker \<Rightarrow> bool" where
  "drainedFor now w \<longleftrightarrow> (case w_drained_at w of Some t \<Rightarrow> t \<le> now - UNPIN_AFTER_DRAIN_MINUTES * 60000 | None \<Rightarrow> False)"

definition pinnedTo :: "string \<Rightarrow> task \<Rightarrow> bool" where
  "pinnedTo worker t \<longleftrightarrow> t_status t = Queued \<and> t_pinned_to t = Some worker"

definition UNPIN_DRAINED_SQL :: "string \<Rightarrow> int \<Rightarrow> db \<Rightarrow> db" where
  "UNPIN_DRAINED_SQL worker now d = d\<lparr>d_tasks := sql_update (pinnedTo worker)
     (\<lambda>t. t\<lparr>t_pinned_to := None, t_params := json_set ''unpinned'' (JObj [(''from'', JStr worker), (''at'', JNum (of_int now))]) (t_params t)\<rparr>) (d_tasks d)\<rparr>"

definition DRAINED_PINS_SQL :: "int \<Rightarrow> db \<Rightarrow> (string \<times> int list) list" where
  "DRAINED_PINS_SQL now d = filter (\<lambda>p. snd p \<noteq> []) (map (\<lambda>w. (w_id w, map t_id (filter (pinnedTo (w_id w)) (d_tasks d)))) (filter (drainedFor now) (d_workers d)))"

definition sweepPins :: "int \<Rightarrow> db \<Rightarrow> db" where
  "sweepPins now d = fold (\<lambda>(w, ts) y. add_event (UnpinEvent w ts) (UNPIN_DRAINED_SQL w now y)) (DRAINED_PINS_SQL now d) d"

text \<open>The breakers that stand, by their settings key, each with the sites of its provider in an open spell.\<close>

definition sweepBreakers :: "int \<Rightarrow> spell_row list \<Rightarrow> (string \<times> breaker) list \<Rightarrow> (string \<times> breaker) list" where
  "sweepBreakers now spells bs = List.map_filter (\<lambda>(key, b).
     let (provider, sc) = breakerOfKey key in map_option (Pair key) (breakerSweep b (card (sitesOf spells sc provider)) now)) bs"

definition sweepOrders :: "int \<Rightarrow> db \<Rightarrow> db" where
  "sweepOrders now d =
     (let due = filter (\<lambda>x. o_kind x \<noteq> ''stop-task'') (DUE_ORDERS_SQL now d)
      in sweepPins now (sweepBatch now (map (stopClose d) (STOPS_DUE_SQL d) @ map dueClose due) d))"

text \<open>Closed orders past ninety days are removed (worker/src/routes/gc.ts).\<close>

definition OLD_ORDERS_SQL :: "int \<Rightarrow> db \<Rightarrow> db" where
  "OLD_ORDERS_SQL before d = d\<lparr>d_orders := filter (\<lambda>x. \<not> (o_worker x \<in> set (map w_id (d_workers d)) \<and> o_issued_at x < before \<and> \<not> openOrder x)) (d_orders d)\<rparr>"

subsection \<open>The pool's own order at a claim\<close>

definition giveUp :: "string \<Rightarrow> auto_state option \<Rightarrow> auto_state \<Rightarrow> string \<Rightarrow> db \<Rightarrow> db" where
  "giveUp worker old next' summary d =
     (let d1 = d\<lparr>d_workers := sql_update (\<lambda>w. w_id w = worker \<and> w_auto_orders w = old) (\<lambda>w. w\<lparr>w_auto_orders := Some next'\<rparr>) (d_workers d)\<rparr>
      in if Option.bind (workerOf worker d1) w_auto_orders = Some next' then add_event (CapEvent worker summary) d1 else d1)"

text \<open>What it reads when the rules propose a restart: the breaker as it stands after \<open>breakerHolds\<close>, and the site.\<close>

record rule_reads =
  rr_breaker :: "breaker option"
  rr_site :: "site_read option"

definition ruleName :: "order_kind \<Rightarrow> nat \<Rightarrow> string" where
  "ruleName kind n = (if kind = KRecheck then ''recheck-stale'' else kind_name kind @ ''-'' @ show_nat n @ ''of'' @ show_nat MAX_POOL_RESTARTS_PER_SPELL)"

definition autoAsk :: "rule_input \<Rightarrow> after_claim \<Rightarrow> int \<Rightarrow> string \<Rightarrow> order_kind \<Rightarrow> nat \<Rightarrow> bool \<Rightarrow> auto_state \<Rightarrow> issue_ask" where
  "autoAsk x ac now reason kind n unless next' =
     \<lparr>ia_worker = or_id (ri_row x), ia_kind = kind, ia_reason = take 300 reason, ia_by = poolFor (Some (or_trust (ri_row x))), ia_via = None,
      ia_rule = Some (ruleName kind n), ia_unless = unless, ia_site = or_site (ri_row x), ia_baseline = ac_checked_at ac,
      ia_auto = Some (or_auto_orders (ri_row x), next'),
      ia_deliver = Some (nvl (ac_instance ac) [], if kind = KRestart then ac_instance ac else ac_checked_at ac), ia_task = None, ia_host = ri_host x,
      ia_resumed = None, ia_now = now, ia_line = reason\<rparr>"

datatype auto_word = AutoNothing | AutoGaveUp auto_state | AutoOrder order_kind nat bool auto_state error_class

text \<open>The proposal after the breaker and the site spoke.\<close>

definition siteStep :: "rule_input \<Rightarrow> int \<Rightarrow> nat \<Rightarrow> rule_reads \<Rightarrow> order_kind \<Rightarrow> nat \<Rightarrow> bool \<Rightarrow> auto_state \<Rightarrow> error_class \<Rightarrow> auto_word" where
  "siteStep x now scale rr kind n unless next' cls =
     (case (or_site (ri_row x), rr_site rr) of
        (Some _, Some site) \<Rightarrow>
          (let self = or_id (ri_row x);
               d = (if kind = KRestartAgent \<and> siblingsAnswering self (sr_live site) \<noteq> []
                    then (case decideAuto (x\<lparr>ri_sibling_answers := True\<rparr>) now scale of
                        DOrder KRestart n2 un2 next2 cls2 \<Rightarrow> AutoOrder KRestart n2 un2 next2 cls2
                      | _ \<Rightarrow> AutoNothing)
                    else AutoOrder kind n unless next' cls)
           in case d of
                AutoOrder k2 n2 un2 next2 cls2 \<Rightarrow> (case siteVerdict self k2 site now scale of
                    SiteOk _ \<Rightarrow> d
                  | SharedGaveUp _ _ \<Rightarrow> AutoGaveUp ((autoOf (or_auto_orders (ri_row x)) (ri_spell x) now)\<lparr>au_gave_up := Some now\<rparr>)
                  | _ \<Rightarrow> AutoNothing)
              | _ \<Rightarrow> AutoNothing)
      | _ \<Rightarrow> AutoOrder kind n unless next' cls)"

definition autoWord :: "rule_input \<Rightarrow> int \<Rightarrow> nat \<Rightarrow> rule_reads \<Rightarrow> auto_word" where
  "autoWord x now scale rr = (case decideAuto x now scale of
     DNothing _ _ \<Rightarrow> AutoNothing
   | DGiveUp next' _ \<Rightarrow> AutoGaveUp next'
   | DOrder kind n unless next' cls \<Rightarrow>
       if ri_host x \<and> kind \<noteq> KRecheck then AutoNothing
       else if kind = KRecheck then AutoOrder kind n unless next' cls
       else if rr_breaker rr \<noteq> None then AutoNothing
       else siteStep x now scale rr kind n unless next' cls)"

definition autoOrder :: "(int \<Rightarrow> string) \<Rightarrow> string \<Rightarrow> string \<Rightarrow> rule_input \<Rightarrow> after_claim \<Rightarrow> int \<Rightarrow> nat \<Rightarrow> rule_reads \<Rightarrow> running_version \<Rightarrow> db \<Rightarrow> order_out option \<times> db" where
  "autoOrder isoText newId reason x ac now scale rr pool d = (case autoWord x now scale rr of
     AutoNothing \<Rightarrow> (None, d)
   | AutoGaveUp next' \<Rightarrow> (None, giveUp (or_id (ri_row x)) (or_auto_orders (ri_row x)) next' reason d)
   | AutoOrder kind n unless next' cls \<Rightarrow>
       (let a = autoAsk x ac now reason kind n unless next'
        in case issueOrder newId a d of
             (Inr _, d') \<Rightarrow> (Some (outOf (newOrder newId a)), d')
           | (Inl why, d') \<Rightarrow> (None, if why = WhyCap then snd (capRefusal isoText (ia_worker a) kind (ia_by a) now (ri_host x) pool d') else d')))"

end
