(* ===== verification/Order_Machine.thy ===== *)
theory Order_Machine
  imports Order_Doors Lease_Props
begin

text \<open>
  How a worker order evolves: every statement on the table takes an order forward (waiting, delivered to one process, closed) and never
  touches a closed one; every close writes its one final line; and every batch leaves each worker's list of open orders as the table has it.
  What a handler read before its batch may be stale: a row as it was at some earlier time.
\<close>

subsection \<open>An order's evolution\<close>

definition order_fixed :: "order_row \<Rightarrow> string \<times> string \<times> string \<times> string option \<times> string \<times> string option \<times> bool \<times> int option \<times> string option \<times> int \<times> int" where
  "order_fixed x = (o_id x, o_worker x, o_kind x, o_reason x, o_issued_by x, o_rule x, o_unless x, o_task x, o_site x, o_issued_at x, o_expires_at x)"

definition order_evolves :: "order_row \<Rightarrow> order_row \<Rightarrow> bool" where
  "order_evolves x y \<longleftrightarrow> order_fixed y = order_fixed x
     \<and> (\<not> openOrder x \<longrightarrow> y = x)
     \<and> (o_state x = ODelivered \<longrightarrow> o_state y \<noteq> OPending \<and> o_delivered_to y = o_delivered_to x)
     \<and> (o_state y = OPending \<longrightarrow> y = x)
     \<and> (openOrder y \<longrightarrow> o_answered_at y = o_answered_at x)"

lemma evolves_fixed:
  assumes "order_evolves x y"
  shows "o_id y = o_id x" "o_worker y = o_worker x" "o_kind y = o_kind x" "o_issued_by y = o_issued_by x" "o_task y = o_task x" "o_site y = o_site x"
    "o_issued_at y = o_issued_at x"
proof -
  have "order_fixed y = order_fixed x" using assms unfolding order_evolves_def by (elim conjE)
  then show "o_id y = o_id x" "o_worker y = o_worker x" "o_kind y = o_kind x" "o_issued_by y = o_issued_by x" "o_task y = o_task x" "o_site y = o_site x"
    "o_issued_at y = o_issued_at x"
    by (simp_all add: order_fixed_def)
qed

lemma evolves_refl [simp]: "order_evolves x x"
  by (simp add: order_evolves_def)

lemma evolves_trans: "order_evolves x y \<Longrightarrow> order_evolves y z \<Longrightarrow> order_evolves x z"
  unfolding order_evolves_def openOrder_def by metis

lemma evolves_closed: "order_evolves x y \<Longrightarrow> \<not> openOrder x \<Longrightarrow> y = x"
  by (simp add: order_evolves_def)

lemma evolves_open: "order_evolves x y \<Longrightarrow> openOrder y \<Longrightarrow> openOrder x"
  using evolves_closed by blast

text \<open>A table taken forward, only the orders of some workers moved.\<close>

definition row_moves :: "string set \<Rightarrow> order_row \<Rightarrow> order_row \<Rightarrow> bool" where
  "row_moves W x y \<longleftrightarrow> order_evolves x y \<and> (o_worker x \<in> W \<or> y = x)"

definition table_moves :: "string set \<Rightarrow> order_row list \<Rightarrow> order_row list \<Rightarrow> bool" where
  "table_moves W xs ys \<longleftrightarrow> list_all2 (row_moves W) xs ys"

definition owned_by :: "string set \<Rightarrow> string \<Rightarrow> order_row list \<Rightarrow> bool" where
  "owned_by W i xs \<longleftrightarrow> (\<forall>x \<in> set xs. o_id x = i \<longrightarrow> o_worker x \<in> W)"

lemma table_refl [simp]: "table_moves W xs xs"
  by (simp add: table_moves_def row_moves_def list.rel_refl)

lemma row_moves_trans: "row_moves W x y \<Longrightarrow> row_moves W y z \<Longrightarrow> row_moves W x z"
  unfolding row_moves_def by (metis evolves_trans evolves_fixed(2))

lemma table_trans [trans]: "table_moves W xs ys \<Longrightarrow> table_moves W ys zs \<Longrightarrow> table_moves W xs zs"
  unfolding table_moves_def by (rule list_all2_trans [OF row_moves_trans])

lemma table_ids: "table_moves W xs ys \<Longrightarrow> map o_id ys = map o_id xs"
  unfolding table_moves_def by (induction rule: list_all2_induct) (auto simp: row_moves_def dest: evolves_fixed(1))

lemma table_row:
  assumes "table_moves W xs ys" "y \<in> set ys"
  shows "\<exists>x \<in> set xs. row_moves W x y"
proof -
  from assms(2) obtain n where "n < length ys" "ys ! n = y" by (auto simp: in_set_conv_nth)
  with assms(1) show ?thesis unfolding table_moves_def by (auto simp: list_all2_conv_all_nth intro!: bexI [of _ "xs ! n"])
qed

lemma table_row':
  assumes "table_moves W xs ys" "x \<in> set xs"
  shows "\<exists>y \<in> set ys. row_moves W x y"
proof -
  from assms(2) obtain n where "n < length xs" "xs ! n = x" by (auto simp: in_set_conv_nth)
  with assms(1) show ?thesis unfolding table_moves_def by (auto simp: list_all2_conv_all_nth intro!: bexI [of _ "ys ! n"])
qed

lemma row_moves_fixed: "row_moves W x y \<Longrightarrow> o_id y = o_id x" "row_moves W x y \<Longrightarrow> o_worker y = o_worker x"
  by (simp_all add: row_moves_def evolves_fixed)

lemma owned_by_moves: "table_moves W xs ys \<Longrightarrow> owned_by V i ys \<longleftrightarrow> owned_by V i xs"
proof -
  assume m: "table_moves W xs ys"
  have "o_worker y \<in> V" if "\<forall>x \<in> set xs. o_id x = i \<longrightarrow> o_worker x \<in> V" "y \<in> set ys" "o_id y = i" for y
  proof -
    from table_row [OF m that(2)] obtain x where "x \<in> set xs" "row_moves W x y" by blast
    then show ?thesis using that row_moves_fixed [of W x y] by simp
  qed
  moreover have "o_worker x \<in> V" if "\<forall>y \<in> set ys. o_id y = i \<longrightarrow> o_worker y \<in> V" "x \<in> set xs" "o_id x = i" for x
  proof -
    from table_row' [OF m that(2)] obtain y where "y \<in> set ys" "row_moves W x y" by blast
    then show ?thesis using that row_moves_fixed [of W x y] by metis
  qed
  ultimately show ?thesis unfolding owned_by_def by blast
qed

lemma table_moves_update:
  assumes "\<And>x. x \<in> set xs \<Longrightarrow> P x \<Longrightarrow> order_evolves x (f x) \<and> o_worker x \<in> W"
  shows "table_moves W xs (sql_update P f xs)"
  using assms unfolding table_moves_def row_moves_def by (induction xs) auto

subsection \<open>Final lines\<close>

definition final_of :: "string \<Rightarrow> event \<Rightarrow> bool" where
  "final_of i e = (case e of OrderEvent j _ _ s _ \<Rightarrow> j = i \<and> s \<noteq> OPending \<and> s \<noteq> ODelivered | _ \<Rightarrow> False)"

definition finalLines :: "string \<Rightarrow> db \<Rightarrow> nat" where
  "finalLines i d = length (filter (final_of i) (d_events d))"

text \<open>An open order has no final line, a closed one has its one (a fence of a suspended host's lease, an order with no time of its own, has none),
  and what was answered by now was answered before, or it is among \<open>K\<close>.\<close>

definition lines_due :: "order_row \<Rightarrow> nat \<Rightarrow> bool" where
  "lines_due x n \<longleftrightarrow> (if openOrder x then n = 0 else o_issued_at x < o_expires_at x \<longrightarrow> n = 1)"

definition accounted :: "int \<Rightarrow> string set \<Rightarrow> db \<Rightarrow> bool" where
  "accounted now K d \<longleftrightarrow> distinct (map o_id (d_orders d))
     \<and> (\<forall>x \<in> set (d_orders d). lines_due x (finalLines (o_id x) d))
     \<and> (\<forall>i. finalLines i d \<le> 1)
     \<and> (\<forall>x \<in> set (d_orders d). \<forall>s. o_answered_at x = Some s \<longrightarrow> s \<le> now \<and> (s = now \<longrightarrow> o_id x \<in> K))"

lemma accounted_cong: "d_orders d' = d_orders d \<Longrightarrow> d_events d' = d_events d \<Longrightarrow> accounted now K d' \<longleftrightarrow> accounted now K d"
  by (simp add: accounted_def finalLines_def)

lemma accounted_open: "accounted now K d \<Longrightarrow> x \<in> set (d_orders d) \<Longrightarrow> openOrder x \<Longrightarrow> finalLines (o_id x) d = 0"
  by (auto simp: accounted_def lines_due_def)

lemma accounted_later: "accounted now K d \<Longrightarrow> now < now' \<Longrightarrow> accounted now' {} d"
  by (fastforce simp: accounted_def)

lemma accounted_mono: "accounted now K d \<Longrightarrow> K \<subseteq> L \<Longrightarrow> accounted now L d"
  by (auto simp: accounted_def)

lemma distinct_same_id: "distinct (map o_id xs) \<Longrightarrow> x \<in> set xs \<Longrightarrow> y \<in> set xs \<Longrightarrow> o_id x = o_id y \<Longrightarrow> x = y"
  by (metis distinct_map inj_onD)

text \<open>One close with its line: the statement, then the line if the row holds what a close of now wrote.\<close>

definition closing :: "string \<Rightarrow> (order_row \<Rightarrow> bool) \<Rightarrow> (order_row \<Rightarrow> order_row) \<Rightarrow> (order_row \<Rightarrow> bool) \<Rightarrow> event \<Rightarrow> db \<Rightarrow> db" where
  "closing i Q f R e d =
     (let d1 = d\<lparr>d_orders := sql_update (\<lambda>x. o_id x = i \<and> Q x) f (d_orders d)\<rparr>
      in if list_ex (\<lambda>x. o_id x = i \<and> R x) (d_orders d1) then add_event e d1 else d1)"

lemma add_event_orders [simp]: "d_orders (add_event e d) = d_orders d" "d_workers (add_event e d) = d_workers d" "d_events (add_event e d) = e # d_events d"
  "d_tasks (add_event e d) = d_tasks d"
  by (simp_all add: add_event_def)

lemma closing_frame [simp]: "d_workers (closing i Q f R e d) = d_workers d"
  "d_orders (closing i Q f R e d) = sql_update (\<lambda>x. o_id x = i \<and> Q x) f (d_orders d)"
  by (simp_all add: closing_def Let_def)

locale order_close =
  fixes Q :: "order_row \<Rightarrow> bool" and f :: "order_row \<Rightarrow> order_row" and R :: "order_row \<Rightarrow> bool" and now :: int
  assumes opens: "Q x \<Longrightarrow> openOrder x"
    and forward: "Q x \<Longrightarrow> order_evolves x (f x)"
    and says: "Q x \<Longrightarrow> R (f x)"
    and closes: "R x \<Longrightarrow> \<not> openOrder x \<and> o_answered_at x = Some now"
begin

lemma moves: "owned_by W i (d_orders d) \<Longrightarrow> table_moves W (d_orders d) (d_orders (closing i Q f R e d))"
  by (auto intro!: table_moves_update forward simp: owned_by_def)

lemma keeps_account:
  assumes acc: "accounted now K d" and fresh: "i \<notin> K" and e: "\<And>j. final_of j e \<longleftrightarrow> j = i"
  shows "accounted now (insert i K) (closing i Q f R e d)"
proof (cases "\<exists>x \<in> set (d_orders d). o_id x = i \<and> Q x")
  case False
  then have same: "sql_update (\<lambda>x. o_id x = i \<and> Q x) f (d_orders d) = d_orders d" by (auto intro: sql_update_none)
  have "\<not> list_ex (\<lambda>x. o_id x = i \<and> R x) (d_orders d)"
    using acc fresh closes by (auto simp: accounted_def list_ex_iff)
  then have "closing i Q f R e d = d" by (simp add: closing_def same)
  with accounted_mono [OF acc, of "insert i K"] show ?thesis by auto
next
  case True
  then obtain x where x: "x \<in> set (d_orders d)" "o_id x = i" "Q x" by blast
  let ?xs = "sql_update (\<lambda>x. o_id x = i \<and> Q x) f (d_orders d)"
  have ids: "map o_id ?xs = map o_id (d_orders d)"
    by (rule sql_update_keys) (simp add: evolves_fixed(1) [OF forward])
  have new: "y = f x \<or> (y \<in> set (d_orders d) \<and> o_id y \<noteq> i)" if "y \<in> set ?xs" for y
    using that x acc distinct_same_id [of "d_orders d"] by (auto simp: set_sql_update accounted_def)
  have fx: "f x \<in> set ?xs" using x by (auto simp: set_sql_update)
  have fid: "o_id (f x) = i" using evolves_fixed(1) [OF forward [OF x(3)]] x(2) by simp
  then have line: "closing i Q f R e d = add_event e (d\<lparr>d_orders := ?xs\<rparr>)"
    using fx says [OF x(3)] by (auto simp: closing_def Let_def list_ex_iff)
  have none: "finalLines i d = 0" using accounted_open [OF acc x(1)] opens [OF x(3)] x(2) by simp
  have count: "finalLines j (closing i Q f R e d) = (if j = i then 1 else finalLines j d)" for j
    using none e by (simp add: line finalLines_def)
  have shut: "\<not> openOrder (f x)" using closes says [OF x(3)] by blast
  show ?thesis
    unfolding accounted_def
  proof (intro conjI ballI allI impI)
    show "distinct (map o_id (d_orders (closing i Q f R e d)))" using ids acc by (simp add: accounted_def)
    show "finalLines j (closing i Q f R e d) \<le> 1" for j using acc by (simp add: count accounted_def)
  next
    fix y assume y: "y \<in> set (d_orders (closing i Q f R e d))"
    then have y': "y = f x \<or> (y \<in> set (d_orders d) \<and> o_id y \<noteq> i)" using new by simp
    show "lines_due y (finalLines (o_id y) (closing i Q f R e d))"
      using y' shut fid acc by (auto simp: count accounted_def lines_due_def)
    fix s assume a: "o_answered_at y = Some s"
    show "s \<le> now" using y' a acc closes [OF says [OF x(3)]] by (auto simp: accounted_def)
    show "o_id y \<in> insert i K" if "s = now" using y' a that fid acc by (auto simp: accounted_def)
  qed
qed

end

lemma poolCloses_evolves: "openOrder x \<Longrightarrow> s \<notin> {OPending, ODelivered} \<Longrightarrow> order_evolves x (poolCloses s now det x)"
  by (auto simp: order_evolves_def order_fixed_def poolCloses_def openOrder_def)

text \<open>The pool's closes, each asking its line for what it wrote.\<close>

lemma pool_close:
  assumes "s \<notin> {OPending, ODelivered}" "\<And>x. Q x \<Longrightarrow> openOrder x"
    "\<And>x. R x \<longleftrightarrow> o_state x = s \<and> o_answered_at x = Some now \<and> S x" "\<And>x. S (poolCloses s now det x)"
  shows "order_close Q (poolCloses s now det) R now"
  using assms by unfold_locales (auto simp: poolCloses_evolves openOrder_def, auto simp: poolCloses_def)

interpretation cancelled: order_close "\<lambda>x. o_state x = OPending" "poolCloses OCancelled now det"
    "\<lambda>x. o_state x = OCancelled \<and> o_answered_at x = Some now" now for now det
  by (rule pool_close [where S = "\<lambda>_. True"]) (simp_all add: openOrder_def)

lemma worker_close:
  assumes "s \<notin> {OPending, ODelivered}"
  shows "order_close (\<lambda>x. o_worker x = w \<and> inst \<noteq> None \<and> o_delivered_to x = inst \<and> o_state x = ODelivered)
    (\<lambda>x. x\<lparr>o_state := s, o_answered_at := Some now, o_answered_by := Some ''worker'', o_code := Some code, o_detail := Some det, o_worker_detail := said\<rparr>)
    (\<lambda>x. o_state x = s \<and> o_answered_at x = Some now \<and> o_answered_by x = Some ''worker'') now"
  using assms by unfold_locales (auto simp: order_evolves_def order_fixed_def openOrder_def)

subsection \<open>The batches as closes\<close>

lemma closeWithLine_closing:
  "closeWithLine now (r, s, det) d = closing (o_id r) (\<lambda>x. o_state x = o_state r) (poolCloses s now det)
     (\<lambda>x. o_state x = s \<and> o_answered_at x = Some now \<and> o_answered_by x = Some ''pool'' \<and> o_detail x = Some det) (OrderEvent (o_id r) (o_worker r) (o_kind r) s det) d"
  by (simp add: closeWithLine_def closing_def finalLine_def closeOrder_def Let_def)

lemma sweepClose_closing:
  "sweepClose now (r, s, det) d = closing (o_id r) (\<lambda>x. o_state x = o_state r) (poolCloses s now det)
     (\<lambda>x. o_answered_at x = Some now \<and> o_state x = s) (OrderEvent (o_id r) (o_worker r) (o_kind r) s det) d"
  by (simp add: sweepClose_def closing_def closeOrder_def Let_def)

lemma cancelBatch_closing:
  "cancelBatch r who now d = REFRESH_OPEN_SQL (o_worker r) (closing (o_id r) (\<lambda>x. o_state x = OPending) (poolCloses OCancelled now (DCancelledBy who))
     (\<lambda>x. o_state x = OCancelled \<and> o_answered_at x = Some now) (OrderEvent (o_id r) (o_worker r) (o_kind r) OCancelled (DCancelledBy who)) d)"
  by (simp add: cancelBatch_def closing_def Let_def)

lemma answerBatch_closing:
  "snd (answerBatch r inst s code said det now d) = REFRESH_OPEN_SQL (o_worker r) (closing (o_id r)
     (\<lambda>x. o_worker x = o_worker r \<and> inst \<noteq> None \<and> o_delivered_to x = inst \<and> o_state x = ODelivered)
     (\<lambda>x. x\<lparr>o_state := s, o_answered_at := Some now, o_answered_by := Some ''worker'', o_code := Some code, o_detail := Some det, o_worker_detail := said\<rparr>)
     (\<lambda>x. o_state x = s \<and> o_answered_at x = Some now \<and> o_answered_by x = Some ''worker'') (OrderEvent (o_id r) (o_worker r) (o_kind r) s det) d)"
  by (simp add: answerBatch_def closing_def Let_def waitsFor_def [abs_def])

lemma stopEnded_closed: "stopEnded t u = (s, det) \<Longrightarrow> s \<notin> {OPending, ODelivered}"
  by (auto simp: stopEnded_def split: option.splits prod.splits task_status.splits)

definition closable :: "order_row \<times> order_state \<times> order_detail \<Rightarrow> bool" where
  "closable c \<longleftrightarrow> openOrder (fst c) \<and> fst (snd c) \<notin> {OPending, ODelivered}"

lemma final_of_order: "s \<notin> {OPending, ODelivered} \<Longrightarrow> final_of j (OrderEvent i w k s det) \<longleftrightarrow> j = i"
  by (auto simp: final_of_def)

text \<open>What a batch does to the table and the lines, from an account with the keys in \<open>K\<close> to one with those in \<open>L\<close>.\<close>

definition batch_ok :: "int \<Rightarrow> string set \<Rightarrow> string set \<Rightarrow> string set \<Rightarrow> db \<Rightarrow> db \<Rightarrow> bool" where
  "batch_ok now W K L d d' \<longleftrightarrow> table_moves W (d_orders d) (d_orders d') \<and> map (\<lambda>w. (w_id w, w_open_orders w)) (d_workers d') = map (\<lambda>w. (w_id w, w_open_orders w)) (d_workers d)
     \<and> (accounted now K d \<longrightarrow> accounted now L d')"

lemma batch_refl: "K \<subseteq> L \<Longrightarrow> batch_ok now W K L d d"
  by (auto simp: batch_ok_def intro: accounted_mono)

lemma batch_trans: "batch_ok now W K L d d1 \<Longrightarrow> batch_ok now W L M d1 d2 \<Longrightarrow> batch_ok now W K M d d2"
  unfolding batch_ok_def using table_trans by fastforce

lemma closing_batch:
  assumes "order_close Q f R now" "s \<notin> {OPending, ODelivered}" "owned_by W i (d_orders d)" "i \<notin> K"
  shows "batch_ok now W K (insert i K) d (closing i Q f R (OrderEvent i w k s det) d)"
  using order_close.moves [OF assms(1,3)] order_close.keeps_account [OF assms(1) _ assms(4), where e = "OrderEvent i w k s det"] final_of_order [OF assms(2)]
  by (simp add: batch_ok_def)

lemma closeWithLine_batch:
  assumes "closable c" "owned_by W (o_id (fst c)) (d_orders d)" "o_id (fst c) \<notin> K"
  shows "batch_ok now W K (insert (o_id (fst c)) K) d (closeWithLine now c d)"
    and "batch_ok now W K (insert (o_id (fst c)) K) d (sweepClose now c d)"
proof -
  obtain r s det where c: "c = (r, s, det)" by (cases c) auto
  with assms have s: "s \<notin> {OPending, ODelivered}" "openOrder r" by (simp_all add: closable_def)
  have "order_close (\<lambda>x. o_state x = o_state r) (poolCloses s now det)
      (\<lambda>x. o_state x = s \<and> o_answered_at x = Some now \<and> o_answered_by x = Some ''pool'' \<and> o_detail x = Some det) now"
    by (rule pool_close [OF s(1), where S = "\<lambda>x. o_answered_by x = Some ''pool'' \<and> o_detail x = Some det"])
      (use s(2) in \<open>auto simp: openOrder_def poolCloses_def\<close>)
  from closing_batch [OF this s(1), of W "o_id r"] assms c
  show "batch_ok now W K (insert (o_id (fst c)) K) d (closeWithLine now c d)" by (simp add: closeWithLine_closing)
  have "order_close (\<lambda>x. o_state x = o_state r) (poolCloses s now det) (\<lambda>x. o_answered_at x = Some now \<and> o_state x = s) now"
    by (rule pool_close [OF s(1), where S = "\<lambda>_. True"]) (use s(2) in \<open>auto simp: openOrder_def\<close>)
  from closing_batch [OF this s(1), of W "o_id r"] assms c
  show "batch_ok now W K (insert (o_id (fst c)) K) d (sweepClose now c d)" by (simp add: sweepClose_closing)
qed

lemma batch_owned: "batch_ok now W K L d d' \<Longrightarrow> owned_by V i (d_orders d') \<longleftrightarrow> owned_by V i (d_orders d)"
  unfolding batch_ok_def using owned_by_moves by blast

lemma fold_batch:
  assumes step: "\<And>c d K. c \<in> set cs \<Longrightarrow> owned_by W (key c) (d_orders d) \<Longrightarrow> key c \<notin> K \<Longrightarrow> batch_ok now W K (insert (key c) K) d (g c d)"
    and "distinct (map key cs)" "\<forall>c \<in> set cs. owned_by W (key c) (d_orders d) \<and> key c \<notin> K"
  shows "batch_ok now W K (key ` set cs \<union> K) d (fold g cs d)"
  using assms
proof (induction cs arbitrary: d K)
  case Nil
  then show ?case by (simp add: batch_refl)
next
  case (Cons c cs)
  have one: "batch_ok now W K (insert (key c) K) d (g c d)" using Cons.prems by simp
  have "batch_ok now W (insert (key c) K) (key ` set cs \<union> insert (key c) K) (g c d) (fold g cs (g c d))"
    by (rule Cons.IH) (use Cons.prems batch_owned [OF one] in \<open>auto simp: image_iff\<close>)
  from batch_trans [OF one this] show ?case by simp
qed

lemma batch_mono: "batch_ok now W K L d d' \<Longrightarrow> L \<subseteq> M \<Longrightarrow> batch_ok now W K M d d'"
  by (auto simp: batch_ok_def intro: accounted_mono)

lemma batch_frame:
  assumes "d_orders d' = d_orders d" "d_events d' = d_events d" "map (\<lambda>w. (w_id w, w_open_orders w)) (d_workers d') = map (\<lambda>w. (w_id w, w_open_orders w)) (d_workers d)"
  shows "batch_ok now W K K d d'"
  using assms accounted_cong [of d' d] by (simp add: batch_ok_def)

subsection \<open>The claim's batch\<close>

lemma takeStop_batch:
  assumes "owned_by W (o_id r) (d_orders d)" "o_id r \<notin> K"
  shows "batch_ok now W K (insert (o_id r) K) d (snd (takeStop x now taskOf r d))"
proof -
  define t where "t = (case o_task r of None \<Rightarrow> None | Some i \<Rightarrow> taskOf i)"
  show ?thesis
  proof (cases "case t of Some t' \<Rightarrow> fencedBy x r t' | None \<Rightarrow> False")
    case True
    then obtain t' where t': "t = Some t'" "fencedBy x r t'" by (auto split: option.splits)
    show ?thesis
    proof (cases "stillListed x t'")
      case True
      with t' show ?thesis by (simp add: takeStop_def t_def [symmetric] batch_refl subset_insertI)
    next
      case False
      define err where "err = stopError (ac_worker x) (o_issued_by r) (o_reason r) False"
      define det where "det = DStopped (max 0 ((now - o_issued_at r + 30000) div 60000)) (t_id t') (t_attempts t' \<ge> t_max_attempts t')"
      obtain bk d1 where rq: "REQUEUE_SQL now err (t_id t') (ac_worker x) (Some (o_id r)) None d = (bk, d1)" by fastforce
      have f: "d_orders d1 = d_orders d" "d_workers d1 = d_workers d" "d_events d1 = d_events d"
        using rq by (auto simp: REQUEUE_SQL_def update_tasks_def)
      define b where "b = list_ex (\<lambda>u. t_id u = t_id t' \<and> t_stop_order u = None \<and> t_error u = Some err) (d_tasks d1)"
      have eq: "snd (takeStop x now taskOf r d) = closing (o_id r) (\<lambda>y. o_state y = OPending \<and> b) (poolCloses ODone now det)
          (\<lambda>y. o_state y = ODone \<and> o_answered_at y = Some now \<and> o_answered_by y = Some ''pool'' \<and> o_detail y = Some det)
          (OrderEvent (o_id r) (o_worker r) (o_kind r) ODone det) d1"
        using False t' rq by (simp add: takeStop_def t_def [symmetric] err_def [symmetric] det_def [symmetric] b_def [symmetric] closing_def finalLine_def Let_def)
      have "order_close (\<lambda>y. o_state y = OPending \<and> b) (poolCloses ODone now det)
          (\<lambda>y. o_state y = ODone \<and> o_answered_at y = Some now \<and> o_answered_by y = Some ''pool'' \<and> o_detail y = Some det) now"
        by (rule pool_close [where S = "\<lambda>y. o_answered_by y = Some ''pool'' \<and> o_detail y = Some det"]) (auto simp: openOrder_def poolCloses_def)
      from closing_batch [OF this, of ODone W "o_id r" d1 K] assms f
      have "batch_ok now W K (insert (o_id r) K) d1 (snd (takeStop x now taskOf r d))" by (simp add: eq)
      with batch_trans [OF batch_frame [of d1 d]] f show ?thesis by simp
    qed
  next
    case False
    obtain s det where e: "stopEnded (map_option (\<lambda>u. (t_id u, t_status u)) t) (o_issued_at r) = (s, det)" by fastforce
    have eq: "snd (takeStop x now taskOf r d) = closing (o_id r) (\<lambda>y. o_state y = OPending) (poolCloses s now det)
        (\<lambda>y. o_state y = s \<and> o_answered_at y = Some now \<and> o_answered_by y = Some ''pool'' \<and> o_detail y = Some det)
        (OrderEvent (o_id r) (o_worker r) (o_kind r) s det) d"
      using False e by (simp add: takeStop_def t_def [symmetric] closing_def finalLine_def Let_def)
    have "order_close (\<lambda>y. o_state y = OPending) (poolCloses s now det)
        (\<lambda>y. o_state y = s \<and> o_answered_at y = Some now \<and> o_answered_by y = Some ''pool'' \<and> o_detail y = Some det) now"
      by (rule pool_close [OF stopEnded_closed [OF e], where S = "\<lambda>y. o_answered_by y = Some ''pool'' \<and> o_detail y = Some det"])
        (auto simp: openOrder_def poolCloses_def)
    from closing_batch [OF this stopEnded_closed [OF e] assms] show ?thesis by (simp add: eq)
  qed
qed

lemma takeStops_batch:
  assumes "distinct (map o_id rs)" "\<forall>r \<in> set rs. owned_by W (o_id r) (d_orders d) \<and> o_id r \<notin> K"
  shows "batch_ok now W K (o_id ` set rs \<union> K) d (snd (takeStops x now taskOf rs d))"
proof -
  have "snd (takeStops x now taskOf rs d) = fold (\<lambda>r y. snd (takeStop x now taskOf r y)) rs d" for d
    by (induction rs arbitrary: d) (simp_all add: Let_def case_prod_unfold)
  then show ?thesis using fold_batch [of rs W o_id now, OF takeStop_batch assms] by simp
qed

lemma deliverOne_batch:
  assumes "owned_by W (o_id r) (d_orders d)"
  shows "batch_ok now' W K K d (snd (deliverOne x now r d))"
proof -
  let ?f = "\<lambda>y. y\<lparr>o_state := ODelivered, o_delivered_at := Some now, o_delivered_to := ac_instance x,
             o_baseline := (if o_kind r = ''restart'' then ac_instance x else ac_checked_at x)\<rparr>"
  let ?P = "\<lambda>y. o_id y = o_id r \<and> o_state y = OPending"
  have fwd: "?P y \<Longrightarrow> order_evolves y (?f y)" for y by (simp add: order_evolves_def order_fixed_def openOrder_def)
  have d': "snd (deliverOne x now r d) = d\<lparr>d_orders := sql_update ?P ?f (d_orders d)\<rparr>" by (simp add: deliverOne_def Let_def)
  have "table_moves W (d_orders d) (sql_update ?P ?f (d_orders d))"
    by (rule table_moves_update) (use assms fwd in \<open>auto simp: owned_by_def\<close>)
  moreover have "accounted now' K (d\<lparr>d_orders := sql_update ?P ?f (d_orders d)\<rparr>)" if acc: "accounted now' K d"
  proof -
    have ids: "map o_id (sql_update ?P ?f (d_orders d)) = map o_id (d_orders d)" by (rule sql_update_keys) simp
    have rows: "\<exists>z \<in> set (d_orders d). o_id z = o_id y \<and> lines_due y = lines_due z \<and> o_answered_at y = o_answered_at z"
      if "y \<in> set (sql_update ?P ?f (d_orders d))" for y
    proof -
      from that obtain z where z: "z \<in> set (d_orders d)" "y = (if ?P z then ?f z else z)" by (auto simp: sql_update_def)
      have "lines_due (?f z) = lines_due z" if "?P z" using that by (simp add: lines_due_def [abs_def] openOrder_def)
      then show ?thesis using z by (intro bexI [of _ z]) auto
    qed
    show ?thesis
      unfolding accounted_def
    proof (intro conjI ballI allI impI)
      show "distinct (map o_id (d_orders (d\<lparr>d_orders := sql_update ?P ?f (d_orders d)\<rparr>)))" using acc ids by (simp add: accounted_def)
      show "finalLines i (d\<lparr>d_orders := sql_update ?P ?f (d_orders d)\<rparr>) \<le> 1" for i using acc by (simp add: accounted_def finalLines_def)
    next
      fix y assume "y \<in> set (d_orders (d\<lparr>d_orders := sql_update ?P ?f (d_orders d)\<rparr>))"
      then obtain z where z: "z \<in> set (d_orders d)" "o_id z = o_id y" "lines_due y = lines_due z" "o_answered_at y = o_answered_at z" using rows [of y] by auto
      show "lines_due y (finalLines (o_id y) (d\<lparr>d_orders := sql_update ?P ?f (d_orders d)\<rparr>))"
        using acc z by (auto simp: accounted_def finalLines_def)
      fix s assume "o_answered_at y = Some s"
      then show "s \<le> now'" "s = now' \<Longrightarrow> o_id y \<in> K" using acc z by (auto simp: accounted_def)
    qed
  qed
  ultimately show ?thesis by (simp add: batch_ok_def d')
qed

lemma deliverAll_batch:
  assumes "\<forall>r \<in> set rs. owned_by W (o_id r) (d_orders d)"
  shows "batch_ok now' W K K d (snd (deliverAll x now rs d))"
  using assms
proof (induction rs arbitrary: d)
  case Nil
  then show ?case by (simp add: batch_refl)
next
  case (Cons r rs)
  have one: "batch_ok now' W K K d (snd (deliverOne x now r d))" using Cons.prems deliverOne_batch by simp
  have "batch_ok now' W K K (snd (deliverOne x now r d)) (snd (deliverAll x now rs (snd (deliverOne x now r d))))"
    by (rule Cons.IH) (use Cons.prems batch_owned [OF one] in simp)
  from batch_trans [OF one this] show ?case by (simp add: Let_def case_prod_unfold)
qed

end
