(* ===== verification/Order_Steps.thy ===== *)
theory Order_Steps
  imports Order_Machine
begin

text \<open>
  The steps of the orders' database and what each keeps: the table taken forward, each worker's list of open orders as the table has it, one
  final line per order, one open order per worker, kind and task, and the caps.
\<close>

subsection \<open>A worker's list of open orders\<close>

definition in_sync_but :: "string set \<Rightarrow> db \<Rightarrow> bool" where
  "in_sync_but W d \<longleftrightarrow> (\<forall>w \<in> set (d_workers d). w_id w \<notin> W \<longrightarrow> w_open_orders w = map entryOfOrder (OPEN_ORDERS_SQL (w_id w) d))"

abbreviation in_sync :: "db \<Rightarrow> bool" where
  "in_sync \<equiv> in_sync_but {}"

abbreviation open_lists :: "db \<Rightarrow> (string \<times> open_entry list) list" where
  "open_lists d \<equiv> map (\<lambda>w. (w_id w, w_open_orders w)) (d_workers d)"

lemma in_sync_but_lists:
  "in_sync_but W d \<longleftrightarrow> (\<forall>(i, es) \<in> set (open_lists d). i \<notin> W \<longrightarrow> es = map entryOfOrder (OPEN_ORDERS_SQL i d))"
  by (auto simp: in_sync_but_def)

lemma open_rows_moved:
  assumes "table_moves W xs ys" "i \<notin> W"
  shows "filter (\<lambda>x. o_worker x = i \<and> openOrder x) ys = filter (\<lambda>x. o_worker x = i \<and> openOrder x) xs"
  using assms(1) unfolding table_moves_def
proof (induction rule: list_all2_induct)
  case (Cons x xs y ys)
  then show ?case using assms(2) row_moves_fixed(2) [OF Cons.hyps(1)] by (auto simp: row_moves_def)
qed simp

lemma batch_sync:
  assumes "batch_ok now W K L d d'" "in_sync_but V d"
  shows "in_sync_but (W \<union> V) d'"
proof -
  have m: "table_moves W (d_orders d) (d_orders d')" and l: "open_lists d' = open_lists d" using assms(1) by (simp_all add: batch_ok_def)
  have "OPEN_ORDERS_SQL i d' = OPEN_ORDERS_SQL i d" if "i \<notin> W" for i
    using open_rows_moved [OF m that] by (simp add: OPEN_ORDERS_SQL_def)
  with assms(2) l show ?thesis by (simp only: in_sync_but_lists) fastforce
qed

lemma OPEN_ORDERS_refresh [simp]: "OPEN_ORDERS_SQL i (REFRESH_OPEN_SQL w d) = OPEN_ORDERS_SQL i d"
  by (simp add: OPEN_ORDERS_SQL_def REFRESH_OPEN_SQL_def Let_def)

lemma REFRESH_frame [simp]: "d_orders (REFRESH_OPEN_SQL w d) = d_orders d" "d_events (REFRESH_OPEN_SQL w d) = d_events d" "d_tasks (REFRESH_OPEN_SQL w d) = d_tasks d"
  by (simp_all add: REFRESH_OPEN_SQL_def Let_def)

lemma refresh_sync: "in_sync_but (insert w W) d \<Longrightarrow> in_sync_but W (REFRESH_OPEN_SQL w d)"
  unfolding in_sync_but_def OPEN_ORDERS_refresh
  by (auto simp: REFRESH_OPEN_SQL_def Let_def set_sql_update)

lemma refresh_all_sync: "in_sync_but (set ws \<union> W) d \<Longrightarrow> in_sync_but W (fold REFRESH_OPEN_SQL ws d)"
  by (induction ws arbitrary: d) (simp_all add: refresh_sync)

lemma refresh_all_frame [simp]: "d_orders (fold REFRESH_OPEN_SQL ws d) = d_orders d" "d_events (fold REFRESH_OPEN_SQL ws d) = d_events d"
  by (induction ws arbitrary: d) simp_all

text \<open>What leaves orders, lists and final lines as they are.\<close>

definition orders_quiet :: "db \<Rightarrow> db \<Rightarrow> bool" where
  "orders_quiet d d' \<longleftrightarrow> d_orders d' = d_orders d \<and> open_lists d' = open_lists d \<and> (\<forall>i. finalLines i d' = finalLines i d)"

lemma quiet_refl [simp]: "orders_quiet d d" by (simp add: orders_quiet_def)

lemma quiet_trans: "orders_quiet d d1 \<Longrightarrow> orders_quiet d1 d2 \<Longrightarrow> orders_quiet d d2" by (simp add: orders_quiet_def)

lemma quiet_sync: "orders_quiet d d' \<Longrightarrow> in_sync_but W d \<Longrightarrow> in_sync_but W d'"
  by (simp add: orders_quiet_def in_sync_but_lists OPEN_ORDERS_SQL_def)

lemma accounted_by: "d_orders d' = d_orders d \<Longrightarrow> (\<And>i. finalLines i d' = finalLines i d) \<Longrightarrow> accounted now K d' \<longleftrightarrow> accounted now K d"
  by (simp add: accounted_def)

lemma quiet_account: "orders_quiet d d' \<Longrightarrow> accounted now K d' \<longleftrightarrow> accounted now K d"
  by (rule accounted_by) (simp_all add: orders_quiet_def)

lemma quiet_fold: "(\<And>c d. c \<in> set cs \<Longrightarrow> orders_quiet d (g c d)) \<Longrightarrow> orders_quiet d (fold g cs d)"
proof (induction cs arbitrary: d)
  case (Cons c cs)
  have "orders_quiet d (g c d)" using Cons.prems by simp
  moreover have "orders_quiet (g c d) (fold g cs (g c d))" using Cons by simp
  ultimately show ?case using quiet_trans by simp
qed simp

lemma quiet_afterRequeue: "orders_quiet d (afterRequeue t failed err stopped d)"
proof -
  have "open_lists (emptyHand who i d) = open_lists d" for who i
    by (auto simp: emptyHand_def sql_update_def)
  then show ?thesis
    by (simp add: orders_quiet_def afterRequeue_def Let_def packageAfterFailure_def finalLines_def final_of_def emptyHand_def)
qed

lemma quiet_sweepPins: "orders_quiet d (sweepPins now d)"
  unfolding sweepPins_def
  by (rule quiet_fold) (auto simp: orders_quiet_def UNPIN_DRAINED_SQL_def finalLines_def final_of_def split: prod.splits)

subsection \<open>A step that takes the table forward\<close>

definition step_ok :: "int \<Rightarrow> db \<Rightarrow> db \<Rightarrow> bool" where
  "step_ok now d d' \<longleftrightarrow> table_moves UNIV (d_orders d) (d_orders d') \<and> (in_sync d \<longrightarrow> in_sync d') \<and> (accounted now {} d \<longrightarrow> (\<exists>L. accounted now L d'))"

lemma table_moves_UNIV: "table_moves W xs ys \<Longrightarrow> table_moves UNIV xs ys"
  unfolding table_moves_def by (erule list_all2_mono) (auto simp: row_moves_def)

lemma batch_step:
  assumes "batch_ok now (set ws) {} L d d1" "orders_quiet (fold REFRESH_OPEN_SQL ws d1) d'"
  shows "step_ok now d d'"
proof -
  have "table_moves UNIV (d_orders d) (d_orders d')"
    using assms table_moves_UNIV [of "set ws" "d_orders d" "d_orders d1"] by (simp add: batch_ok_def orders_quiet_def)
  moreover have "in_sync d'" if "in_sync d"
    using batch_sync [OF assms(1) that] refresh_all_sync [of ws "{}" d1] quiet_sync [OF assms(2)] by simp
  moreover have "accounted now L d'" if "accounted now {} d"
  proof -
    have "accounted now L d1" using assms(1) that by (simp add: batch_ok_def)
    then have "accounted now L (fold REFRESH_OPEN_SQL ws d1)" using accounted_cong [of "fold REFRESH_OPEN_SQL ws d1" d1] by simp
    then show ?thesis using quiet_account [OF assms(2)] by blast
  qed
  ultimately show ?thesis unfolding step_ok_def by blast
qed

lemma batch_step1: "batch_ok now {w} {} L d d1 \<Longrightarrow> step_ok now d (REFRESH_OPEN_SQL w d1)"
  using batch_step [of now "[w]" L d d1] by simp

lemma step_refl: "step_ok now d d"
  using batch_step [OF batch_refl [of "{}" "{}" now "set []" d], of d] by simp

text \<open>Rows a handler read earlier, of workers it acts for.\<close>

definition stale :: "string set \<Rightarrow> order_row \<Rightarrow> db \<Rightarrow> bool" where
  "stale W r d \<longleftrightarrow> o_worker r \<in> W \<and> (\<forall>y \<in> set (d_orders d). o_id y = o_id r \<longrightarrow> order_evolves r y)"

lemma stale_owned: "stale W r d \<Longrightarrow> owned_by W (o_id r) (d_orders d)"
  by (auto simp: stale_def owned_by_def evolves_fixed(2))

definition reads :: "string set \<Rightarrow> order_row list \<Rightarrow> db \<Rightarrow> bool" where
  "reads W rows d \<longleftrightarrow> distinct (map o_id rows) \<and> (\<forall>r \<in> set rows. openOrder r \<and> stale W r d)"

lemma planOf_close: "planOf x now rel r = PClose s det \<Longrightarrow> s \<notin> {OPending, ODelivered}"
  by (auto simp: planOf_def planDelivered_def planPending_def planLive_def Let_def split: if_splits option.splits)

lemma planCloses_rows:
  "c \<in> set (planCloses x now rel rows) \<Longrightarrow> fst c \<in> set rows \<and> fst (snd c) \<notin> {OPending, ODelivered} \<and> planOf x now rel (fst c) \<notin> {PStop, PDeliver, PSkip}"
  using planOf_close [of x now rel "fst c"]
  by (auto simp: planCloses_def map_filter_def split: order_plan.splits)

lemma map_fst_planCloses:
  "map fst (planCloses x now rel rows) = filter (\<lambda>r. planOf x now rel r \<notin> {PStop, PDeliver, PSkip}) rows"
  by (induction rows) (auto simp: planCloses_def List.map_filter_simps split: order_plan.splits)

lemma takeOrders_step:
  assumes rows: "reads {ac_worker x} rows d"
  shows "step_ok now d (snd (takeOrders x now rel rows taskOf d))"
proof -
  define closes where "closes = planCloses x now rel rows"
  define stops where "stops = planStops x now rel rows"
  define dl where "dl = planDeliver x now rel rows"
  let ?W = "{ac_worker x}"
  have ids: "distinct (map o_id rows)" and own: "\<forall>r \<in> set rows. owned_by ?W (o_id r) (d_orders d)" and opn: "\<forall>r \<in> set rows. openOrder r"
    using rows stale_owned by (auto simp: reads_def)
  have close_ids: "map (\<lambda>c. o_id (fst c)) closes = map o_id (filter (\<lambda>r. planOf x now rel r \<notin> {PStop, PDeliver, PSkip}) rows)"
    unfolding closes_def map_fst_planCloses [symmetric] by simp
  have closable: "\<forall>c \<in> set closes. closable c \<and> fst c \<in> set rows" using planCloses_rows [of _ x now rel rows] opn by (auto simp: closes_def closable_def)
  define d1 where "d1 = fold (closeWithLine now) closes d"
  define K where "K = o_id ` fst ` set closes"
  have b1: "batch_ok now ?W {} K d d1"
  proof -
    have "batch_ok now ?W {} ((\<lambda>c. o_id (fst c)) ` set closes \<union> {}) d (fold (closeWithLine now) closes d)"
      by (rule fold_batch) (use closable own closeWithLine_batch(1) ids close_ids distinct_map_filter in \<open>auto\<close>)
    then show ?thesis by (simp add: K_def d1_def image_image)
  qed
  obtain bk d2 where t2: "takeStops x now taskOf stops d1 = (bk, d2)" by fastforce
  have stop_new: "o_id r \<notin> K" if r: "r \<in> set stops" for r
  proof
    assume "o_id r \<in> K"
    then obtain c where c: "c \<in> set closes" "o_id (fst c) = o_id r" by (auto simp: K_def)
    from r have "r \<in> set rows" "planOf x now rel r = PStop" by (auto simp: stops_def planStops_def)
    moreover have "fst c \<in> set rows" "planOf x now rel (fst c) \<noteq> PStop" using planCloses_rows c(1) by (auto simp: closes_def)
    ultimately show False using c(2) distinct_same_id [OF ids] by metis
  qed
  have b2: "batch_ok now ?W K (o_id ` set stops \<union> K) d1 d2"
  proof -
    have "distinct (map o_id stops)" using ids distinct_map_filter by (auto simp: stops_def planStops_def)
    moreover have "\<forall>r \<in> set stops. owned_by ?W (o_id r) (d_orders d1) \<and> o_id r \<notin> K"
      using stop_new own batch_owned [OF b1] by (auto simp: stops_def planStops_def)
    ultimately show ?thesis using takeStops_batch [of stops ?W d1 K now x taskOf] t2 by simp
  qed
  obtain handed d3 where t3: "deliverAll x now dl d2 = (handed, d3)" by fastforce
  have "\<forall>r \<in> set dl. owned_by ?W (o_id r) (d_orders d2)"
    using own batch_owned [OF b1] batch_owned [OF b2] by (auto simp: dl_def planDeliver_def)
  from deliverAll_batch [OF this, of now "o_id ` set stops \<union> K" x now] t3
  have b3: "batch_ok now ?W (o_id ` set stops \<union> K) (o_id ` set stops \<union> K) d2 d3" by simp
  have b: "batch_ok now (set [ac_worker x]) {} (o_id ` set stops \<union> K) d d3"
    using batch_trans [OF batch_trans [OF b1 b2] b3] by simp
  have q: "orders_quiet (fold REFRESH_OPEN_SQL [ac_worker x] d3)
      (fold (\<lambda>(t, failed, err). afterRequeue (t\<lparr>t_lease_owner := Some (ac_worker x)\<rparr>) failed err True) bk (REFRESH_OPEN_SQL (ac_worker x) d3))"
    by (simp, rule quiet_fold) (auto simp: quiet_afterRequeue split: prod.splits)
  have "snd (takeOrders x now rel rows taskOf d) = d
      \<or> snd (takeOrders x now rel rows taskOf d) =
        fold (\<lambda>(t, failed, err). afterRequeue (t\<lparr>t_lease_owner := Some (ac_worker x)\<rparr>) failed err True) bk (REFRESH_OPEN_SQL (ac_worker x) d3)"
    by (simp add: takeOrders_def Let_def closes_def [symmetric] stops_def [symmetric] dl_def [symmetric] d1_def [symmetric] t2 t3)
  then show ?thesis using batch_step [OF b q] step_refl by auto
qed

lemma accounted_same:
  assumes "\<And>x. o_id (g x) = o_id x" "\<And>x. lines_due (g x) = lines_due x" "\<And>x. o_answered_at (g x) = o_answered_at x"
  shows "accounted now K (d\<lparr>d_orders := map g (d_orders d)\<rparr>) \<longleftrightarrow> accounted now K d"
  by (simp add: accounted_def finalLines_def assms o_def)

lemma sort_key_map_same:
  assumes "\<And>x. k (g x) = k x"
  shows "sort_key k (map g xs) = map g (sort_key k xs)"
proof -
  have "insort_key k (g x) (map g ys) = map g (insort_key k x ys)" for x ys by (induction ys) (simp_all add: assms)
  then show ?thesis by (induction xs) simp_all
qed

lemma handleAnswer_step:
  assumes "\<forall>r. seen = Some r \<longrightarrow> stale UNIV r d"
  shows "step_ok now d (snd (handleAnswerOrder worker version oid b now seen d))"
proof -
  have accept: "step_ok now d (snd (acceptStatement i w inst code said det now d))" for i w inst code said det
  proof -
    let ?P = "\<lambda>x. waitsFor i w inst x \<and> o_accepted_at x = None"
    let ?f = "\<lambda>x. x\<lparr>o_accepted_at := Some now, o_code := Some code, o_worker_detail := said, o_detail := Some det\<rparr>"
    have fwd: "?P x \<Longrightarrow> order_evolves x (?f x)" for x by (simp add: order_evolves_def order_fixed_def waitsFor_def openOrder_def)
    have "table_moves UNIV (d_orders d) (sql_update ?P ?f (d_orders d))" by (rule table_moves_update) (use fwd in auto)
    moreover have entries: "map entryOfOrder (OPEN_ORDERS_SQL j (d\<lparr>d_orders := sql_update ?P ?f xs\<rparr>)) = map entryOfOrder (OPEN_ORDERS_SQL j (d\<lparr>d_orders := xs\<rparr>))" for j xs
    proof -
      let ?g = "\<lambda>x. if ?P x then ?f x else x"
      have f: "o_worker (?g x) = o_worker x" "openOrder (?g x) = openOrder x" "entryOfOrder (?g x) = entryOfOrder x" "o_kind (?g x) = o_kind x" for x
        by (simp_all add: openOrder_def entryOfOrder_def)
      have "filter (\<lambda>x. o_worker x = j \<and> openOrder x) (map ?g xs) = map ?g (filter (\<lambda>x. o_worker x = j \<and> openOrder x) xs)"
        by (simp only: filter_map o_def f)
      then have "OPEN_ORDERS_SQL j (d\<lparr>d_orders := sql_update ?P ?f xs\<rparr>) = map ?g (OPEN_ORDERS_SQL j (d\<lparr>d_orders := xs\<rparr>))"
        using sort_key_map_same [of o_kind ?g] f(4) by (simp add: OPEN_ORDERS_SQL_def sql_update_def)
      then show ?thesis by (simp only: map_map o_def f(3))
    qed
    moreover have "accounted now {} (d\<lparr>d_orders := sql_update ?P ?f (d_orders d)\<rparr>) \<longleftrightarrow> accounted now {} d"
      unfolding sql_update_def by (rule accounted_same) (simp_all add: openOrder_def lines_due_def [abs_def])
    ultimately show ?thesis by (auto simp: step_ok_def acceptStatement_def Let_def in_sync_but_def)
  qed
  have answer: "step_ok now d (snd (answerBatch r inst (outcomeState oc) code said det now d))" if "oc \<noteq> Accepted" "stale UNIV r d" for r inst oc code said det
  proof -
    have s: "outcomeState oc \<notin> {OPending, ODelivered}" using that(1) by (cases oc) simp_all
    have "owned_by {o_worker r} (o_id r) (d_orders d)" using that(2) by (auto simp: owned_by_def stale_def evolves_fixed(2))
    then show ?thesis
      unfolding answerBatch_closing by (intro batch_step1 [OF closing_batch [OF worker_close [OF s] s]]) simp_all
  qed
  show ?thesis using assms step_refl accept answer
    by (auto simp: handleAnswerOrder_def Let_def split: option.splits prod.splits bool.splits) (metis snd_conv)+
qed

lemma cancelBatch_step: "stale UNIV r d \<Longrightarrow> step_ok now d (cancelBatch r who now d)"
proof -
  assume "stale UNIV r d"
  then have "owned_by {o_worker r} (o_id r) (d_orders d)" by (auto simp: owned_by_def stale_def evolves_fixed(2))
  then show ?thesis
    unfolding cancelBatch_closing by (intro batch_step1 [OF closing_batch [OF cancelled.order_close_axioms]]) simp_all
qed

lemma sweepBatch_step:
  assumes "distinct (map (o_id \<circ> fst) closes)" "\<forall>c \<in> set closes. closable c \<and> stale UNIV (fst c) d"
  shows "step_ok now d (sweepPins now (sweepBatch now closes d))"
proof -
  let ?ws = "remdups (map (o_worker \<circ> fst) closes)"
  have "owned_by (set ?ws) (o_id (fst c)) (d_orders d)" if "c \<in> set closes" for c
    using assms(2) that by (force simp: owned_by_def stale_def evolves_fixed(2))
  moreover have "batch_ok now (set ?ws) K (insert ((o_id \<circ> fst) c) K) y (sweepClose now c y)"
    if "c \<in> set closes" "owned_by (set ?ws) ((o_id \<circ> fst) c) (d_orders y)" "(o_id \<circ> fst) c \<notin> K" for c y K
    using closeWithLine_batch(2) that assms(2) by simp
  ultimately have "batch_ok now (set ?ws) {} ((o_id \<circ> fst) ` set closes \<union> {}) d (fold (sweepClose now) closes d)"
    by (intro fold_batch assms(1)) auto
  then show ?thesis by (rule batch_step) (simp add: sweepBatch_def quiet_sweepPins)
qed

text \<open>Orders closed all at once, each with its line.\<close>

lemma distinct_count:
  "distinct (map k xs) \<Longrightarrow> length (filter (\<lambda>x. P x \<and> i = k x) xs) = (if \<exists>x \<in> set xs. P x \<and> k x = i then 1 else 0)"
proof (induction xs)
  case (Cons a xs)
  show ?case
  proof (cases "P a \<and> k a = i")
    case True
    then have "filter (\<lambda>x. P x \<and> i = k x) xs = []" using Cons.prems by (auto simp: filter_empty_conv)
    with True show ?thesis by auto
  next
    case False
    then have "filter (\<lambda>x. P x \<and> i = k x) (a # xs) = filter (\<lambda>x. P x \<and> i = k x) xs" by auto
    moreover have "(\<exists>x \<in> set (a # xs). P x \<and> k x = i) \<longleftrightarrow> (\<exists>x \<in> set xs. P x \<and> k x = i)" using False by auto
    ultimately show ?thesis using Cons by (simp only: distinct.simps list.map)
  qed
qed simp

lemma bulk_batch:
  assumes P: "\<And>x. x \<in> set (d_orders d) \<Longrightarrow> P x \<Longrightarrow> openOrder x \<and> o_worker x \<in> W" and s: "s \<notin> {OPending, ODelivered}"
    and d': "d_orders d' = sql_update P (poolCloses s now det) (d_orders d)" "open_lists d' = open_lists d"
      "d_events d' = map (\<lambda>x. OrderEvent (o_id x) (o_worker x) (o_kind x) s det') (filter P (d_orders d)) @ d_events d"
    and new: "\<forall>x \<in> set (d_orders d). P x \<longrightarrow> o_id x \<notin> K"
  shows "batch_ok now W K (o_id ` set (filter P (d_orders d)) \<union> K) d d'"
proof -
  let ?f = "poolCloses s now det"
  have m: "table_moves W (d_orders d) (d_orders d')" unfolding d' by (rule table_moves_update) (use P poolCloses_evolves [OF _ s] in blast)
  have count: "finalLines i d' = length (filter (\<lambda>x. P x \<and> i = o_id x) (d_orders d)) + finalLines i d" for i
    using final_of_order [OF s] by (simp add: finalLines_def d' filter_map o_def conj_commute)
  have "accounted now (o_id ` set (filter P (d_orders d)) \<union> K) d'" if acc: "accounted now K d"
  proof -
    have dis: "distinct (map o_id (d_orders d))" using acc by (simp add: accounted_def)
    have lines: "finalLines i d' = (if \<exists>x \<in> set (d_orders d). P x \<and> o_id x = i then 1 else finalLines i d)" for i
    proof (cases "\<exists>x \<in> set (d_orders d). P x \<and> o_id x = i")
      case True
      then obtain x where "x \<in> set (d_orders d)" "openOrder x" "o_id x = i" using P by blast
      then have "finalLines i d = 0" using accounted_open [OF acc, of x] by simp
      with True show ?thesis unfolding count distinct_count [OF dis, of P i] by (simp only: if_True add_0_right)
    next
      case False
      then show ?thesis unfolding count distinct_count [OF dis, of P i] by (simp only: if_False add_0)
    qed
    have rows: "(\<exists>x \<in> set (d_orders d). P x \<and> y = ?f x) \<or> y \<in> set (d_orders d) \<and> \<not> P y" if "y \<in> set (d_orders d')" for y
      using that unfolding d' by (auto simp: set_sql_update)
    have f: "o_id (?f x) = o_id x" "\<not> openOrder (?f x)" for x using s by (simp_all add: poolCloses_def openOrder_def)
    show ?thesis
      unfolding accounted_def
    proof (intro conjI ballI allI impI)
      show "distinct (map o_id (d_orders d'))" using dis table_ids [OF m] by simp
      show "finalLines i d' \<le> 1" for i using acc by (simp add: lines accounted_def)
    next
      fix y assume y: "y \<in> set (d_orders d')"
      show "lines_due y (finalLines (o_id y) d')"
        using rows [OF y]
      proof
        assume "\<exists>x \<in> set (d_orders d). P x \<and> y = ?f x"
        then obtain x where "x \<in> set (d_orders d)" "P x" "y = ?f x" by blast
        then show ?thesis using f lines by (auto simp: lines_due_def)
      next
        assume y': "y \<in> set (d_orders d) \<and> \<not> P y"
        then have "\<not> (\<exists>x \<in> set (d_orders d). P x \<and> o_id x = o_id y)" using distinct_same_id [OF dis] by blast
        then have "finalLines (o_id y) d' = finalLines (o_id y) d" by (simp only: lines if_False)
        then show ?thesis using acc y' by (simp add: accounted_def)
      qed
      fix u assume a: "o_answered_at y = Some u"
      show "u \<le> now" using rows [OF y] a acc by (auto simp: accounted_def poolCloses_def)
      show "o_id y \<in> o_id ` set (filter P (d_orders d)) \<union> K" if "u = now"
        using rows [OF y]
      proof
        assume "\<exists>x \<in> set (d_orders d). P x \<and> y = ?f x"
        then show ?thesis using f(1) by auto
      next
        assume "y \<in> set (d_orders d) \<and> \<not> P y"
        then show ?thesis using acc that a by (auto simp: accounted_def)
      qed
    qed
  qed
  then show ?thesis using m d'(2) by (simp add: batch_ok_def)
qed

lemma revoke_step: "step_ok now d (cancelOrdersOf ws now detail d)"
proof -
  let ?P = "\<lambda>x. o_worker x \<in> set ws \<and> openOrder x"
  let ?d1 = "(cancelOrdersOf ws now detail d)\<lparr>d_workers := d_workers d\<rparr>"
  have c: "d_orders (cancelOrdersOf ws now detail d) = sql_update ?P (poolCloses OCancelled now (DWords detail)) (d_orders d)"
    by (simp add: cancelOrdersOf_def poolCloses_def [abs_def])
  have b: "batch_ok now (set ws) {} (o_id ` set (filter ?P (d_orders d)) \<union> {}) d ?d1"
    by (rule bulk_batch [where s = OCancelled and det = "DWords detail" and det' = "DWords detail"]) (simp_all add: c, simp add: cancelOrdersOf_def)
  have none: "OPEN_ORDERS_SQL i (cancelOrdersOf ws now detail d) = []" if "i \<in> set ws" for i
  proof -
    have "\<not> (o_worker x = i \<and> openOrder x)" if "x \<in> set (sql_update ?P (poolCloses OCancelled now (DWords detail)) (d_orders d))" for x
      using that \<open>i \<in> set ws\<close> by (auto simp: set_sql_update poolCloses_def openOrder_def split: if_splits)
    then show ?thesis by (auto simp: OPEN_ORDERS_SQL_def c filter_empty_conv)
  qed
  have sync: "in_sync (cancelOrdersOf ws now detail d)" if "in_sync d"
    unfolding in_sync_but_def
  proof (intro ballI impI)
    fix w assume "w \<in> set (d_workers (cancelOrdersOf ws now detail d))"
    then obtain v where v: "v \<in> set (d_workers d)" "w_id w = w_id v"
      "w_open_orders w = (if w_id v \<in> set ws then [] else w_open_orders v)"
      by (fastforce simp: cancelOrdersOf_def set_sql_update)
    show "w_open_orders w = map entryOfOrder (OPEN_ORDERS_SQL (w_id w) (cancelOrdersOf ws now detail d))"
    proof (cases "w_id v \<in> set ws")
      case True
      with v none show ?thesis by simp
    next
      case False
      have "w_open_orders v = map entryOfOrder (OPEN_ORDERS_SQL (w_id v) ?d1)"
        using batch_sync [OF b that] v(1) False by (simp add: in_sync_but_def)
      with False v show ?thesis by (simp add: OPEN_ORDERS_SQL_def)
    qed
  qed
  show ?thesis
    using b table_moves_UNIV sync accounted_cong [of ?d1 "cancelOrdersOf ws now detail d"]
    unfolding step_ok_def batch_ok_def by auto
qed

subsection \<open>A step that inserts\<close>

text \<open>An INSERT of an order: new in the table and in the journal, and not answered.\<close>

lemma insert_account:
  assumes "accounted now K d" "o_id row \<notin> o_id ` set (d_orders d)" "finalLines (o_id row) d = 0" "openOrder row" "o_answered_at row = None"
  shows "accounted now K (d\<lparr>d_orders := row # d_orders d\<rparr>)"
  using assms by (auto simp: accounted_def finalLines_def lines_due_def)

lemma newOrder_sel [simp]:
  "o_id (newOrder i a) = i" "o_worker (newOrder i a) = ia_worker a" "o_answered_at (newOrder i a) = None" "openOrder (newOrder i a)"
  "o_issued_at (newOrder i a) = ia_now a" "o_issued_by (newOrder i a) = ia_by a" "o_kind (newOrder i a) = kind_name (ia_kind a)"
  by (simp_all add: newOrder_def openOrder_def)

lemma statements_quiet:
  "orders_quiet d (autoStatement a d)" "orders_quiet d (drainStatement a d)" "orders_quiet d (stopStatement i a d)"
  by (auto simp: orders_quiet_def autoStatement_def drainStatement_def stopStatement_def sql_update_def finalLines_def fenceStatement_def update_tasks_def split: option.splits)

definition issued_table :: "string \<Rightarrow> issue_ask \<Rightarrow> db \<Rightarrow> db" where
  "issued_table i a d = stopStatement i a (drainStatement a (autoStatement a (d\<lparr>d_orders := newOrder i a # d_orders d\<rparr>)))"

lemma issued_table_quiet: "orders_quiet (d\<lparr>d_orders := newOrder i a # d_orders d\<rparr>) (issued_table i a d)"
  unfolding issued_table_def using statements_quiet quiet_trans by meson

text \<open>The rest of the batch closes what a resume ends, and writes the lines.\<close>

lemma resume_batch:
  assumes "i \<notin> o_id ` set (filter (waitingDrain (ia_worker a)) (d_orders d))" "owned_by {ia_worker a} i (d_orders d)"
  shows "\<exists>L d1. batch_ok (ia_now a) {ia_worker a} {} L d d1 \<and> orders_quiet (REFRESH_OPEN_SQL (ia_worker a) d1) (issueLines i a (REFRESH_OPEN_SQL (ia_worker a) (resumeStatements i a d)))"
proof (cases "\<exists>det drainDet. ia_kind a = KResume \<and> ia_resumed a = Some (det, drainDet)")
  case False
  then have "resumeStatements i a d = d" by (auto simp: resumeStatements_def split: order_kind.splits option.splits)
  moreover have "orders_quiet d (issueLines i a d)" for d
    using False by (auto simp: issueLines_def Let_def orders_quiet_def finalLines_def final_of_def split: order_kind.splits option.splits)
  ultimately show ?thesis using batch_refl [of "{}" "{}" "ia_now a" "{ia_worker a}" d] by auto
next
  case True
  then obtain det drainDet where r: "ia_kind a = KResume" "ia_resumed a = Some (det, drainDet)" by blast
  let ?P = "waitingDrain (ia_worker a)"
  define dB where "dB = d\<lparr>d_events := map (\<lambda>x. OrderEvent (o_id x) (o_worker x) (o_kind x) ODone drainDet) (filter ?P (d_orders d)) @ d_events d,
    d_orders := sql_update ?P (poolCloses ODone (ia_now a) drainDet) (d_orders d)\<rparr>"
  have b1: "batch_ok (ia_now a) {ia_worker a} {} (o_id ` set (filter ?P (d_orders d)) \<union> {}) d dB"
    by (rule bulk_batch [where s = ODone and det = drainDet and det' = drainDet]) (simp_all add: dB_def waitingDrain_def openOrder_def)
  define d1 where "d1 = closing i (\<lambda>x. o_state x = OPending) (poolCloses ODone (ia_now a) det)
    (\<lambda>x. o_state x = ODone \<and> o_answered_at x = Some (ia_now a)) (OrderEvent i (ia_worker a) (kind_name (ia_kind a)) ODone det) dB"
  have oc: "order_close (\<lambda>x. o_state x = OPending) (poolCloses ODone (ia_now a) det) (\<lambda>x. o_state x = ODone \<and> o_answered_at x = Some (ia_now a)) (ia_now a)"
    by (rule pool_close [where S = "\<lambda>_. True"]) (simp_all add: openOrder_def)
  have "batch_ok (ia_now a) {ia_worker a} (o_id ` set (filter ?P (d_orders d)) \<union> {}) (insert i (o_id ` set (filter ?P (d_orders d)) \<union> {})) dB d1"
    unfolding d1_def by (rule closing_batch [OF oc]) (use assms batch_owned [OF b1] in simp_all)
  from batch_trans [OF b1 this] have b: "batch_ok (ia_now a) {ia_worker a} {} (insert i (o_id ` set (filter ?P (d_orders d)) \<union> {})) d d1" .
  define dR where "dR = resumeStatements i a d"
  have dR: "d_orders dR = d_orders d1" "open_lists dR = open_lists d1" "d_events dR = d_events dB"
    by (auto simp: dR_def resumeStatements_def r d1_def dB_def sql_update_def)
  have ex: "list_ex (\<lambda>x. o_id x = i \<and> o_state x = ODone \<and> o_answered_at x = Some (ia_now a)) (d_orders d1)
      \<longleftrightarrow> d_events d1 = OrderEvent i (ia_worker a) (kind_name (ia_kind a)) ODone det # d_events dB"
    by (auto simp: d1_def closing_def Let_def)
  have ev: "d_events d1 = d_events dB \<or> d_events d1 = OrderEvent i (ia_worker a) (kind_name (ia_kind a)) ODone det # d_events dB"
    by (auto simp: d1_def closing_def Let_def)
  have lists: "OPEN_ORDERS_SQL j dR = OPEN_ORDERS_SQL j d1" for j by (simp add: OPEN_ORDERS_SQL_def dR)
  have "orders_quiet (REFRESH_OPEN_SQL (ia_worker a) d1) (issueLines i a (REFRESH_OPEN_SQL (ia_worker a) dR))"
    unfolding orders_quiet_def
  proof (intro conjI allI)
    show "d_orders (issueLines i a (REFRESH_OPEN_SQL (ia_worker a) dR)) = d_orders (REFRESH_OPEN_SQL (ia_worker a) d1)"
      using dR by (simp add: issueLines_def r Let_def)
    show "open_lists (issueLines i a (REFRESH_OPEN_SQL (ia_worker a) dR)) = open_lists (REFRESH_OPEN_SQL (ia_worker a) d1)"
    proof -
      have g: "open_lists (REFRESH_OPEN_SQL w y) = map (\<lambda>(j, es). (j, if j = w then map entryOfOrder (OPEN_ORDERS_SQL w y) else es)) (open_lists y)" for w y
        by (auto simp: REFRESH_OPEN_SQL_def Let_def sql_update_def)
      have il: "open_lists (issueLines i a y) = open_lists y" for y by (simp add: issueLines_def r Let_def)
      show ?thesis unfolding il g lists dR(2) ..
    qed
    show "finalLines j (issueLines i a (REFRESH_OPEN_SQL (ia_worker a) dR)) = finalLines j (REFRESH_OPEN_SQL (ia_worker a) d1)" for j
      using ev ex dR by (auto simp: issueLines_def r Let_def finalLines_def final_of_def)
  qed
  with b show ?thesis unfolding dR_def by blast
qed

text \<open>The issue as a whole: the table with the new order, taken forward, or as it was.\<close>

definition insert_ok :: "int \<Rightarrow> order_row list \<Rightarrow> db \<Rightarrow> db \<Rightarrow> bool" where
  "insert_ok now new d d' \<longleftrightarrow> table_moves UNIV (new @ d_orders d) (d_orders d') \<and> (in_sync d \<longrightarrow> in_sync d')
     \<and> (accounted now {} d \<longrightarrow> (\<forall>r \<in> set new. o_id r \<notin> o_id ` set (d_orders d) \<and> finalLines (o_id r) d = 0) \<longrightarrow> (\<exists>L. accounted now L d'))"

definition mayInsert :: "string \<Rightarrow> issue_ask \<Rightarrow> db \<Rightarrow> bool" where
  "mayInsert i a d \<longleftrightarrow> i \<notin> o_id ` set (d_orders d) \<and> capsOk a d \<and> stateOk a d \<and> \<not> openTaken (newOrder i a) d \<and> \<not> siteTaken (newOrder i a) d"

lemma issueOrder_cases:
  "mayInsert i a d \<Longrightarrow> snd (issueOrder i a d) = issueLines i a (REFRESH_OPEN_SQL (ia_worker a) (resumeStatements i a (issued_table i a d)))"
  "\<not> mayInsert i a d \<Longrightarrow> snd (issueOrder i a d) = d \<or> snd (issueOrder i a d) = REFRESH_OPEN_SQL (ia_worker a) d"
  "fst (issueOrder i a d) = Inr r \<Longrightarrow> mayInsert i a d"
  by (auto simp: issueOrder_def mayInsert_def Let_def issued_table_def list_ex_iff split: if_splits)

lemma refresh_step: "step_ok now d (REFRESH_OPEN_SQL w d)"
  by (rule batch_step1 [OF batch_refl]) simp

lemma step_insert: "step_ok now d d' \<Longrightarrow> insert_ok now [] d d'"
  by (auto simp: step_ok_def insert_ok_def)

lemma issue_step:
  "insert_ok (ia_now a) (if mayInsert i a d then [newOrder i a] else []) d (snd (issueOrder i a d))"
proof (cases "mayInsert i a d")
  case False
  then show ?thesis using issueOrder_cases(2) [OF False] step_insert step_refl refresh_step by auto
next
  case True
  let ?d0 = "d\<lparr>d_orders := newOrder i a # d_orders d\<rparr>" and ?dT = "issued_table i a d"
  have q: "orders_quiet ?d0 ?dT" by (rule issued_table_quiet)
  have T: "d_orders ?dT = newOrder i a # d_orders d" using q by (simp add: orders_quiet_def)
  have i: "i \<notin> o_id ` set (d_orders d)" using True by (simp add: mayInsert_def)
  have nodrain: "i \<notin> o_id ` set (filter (waitingDrain (ia_worker a)) (d_orders ?dT)) \<or> ia_kind a \<noteq> KResume"
    using i by (auto simp: T waitingDrain_def image_iff split: if_splits)
  have own: "owned_by {ia_worker a} i (d_orders ?dT)" using i by (auto simp: owned_by_def T image_iff)
  have "\<exists>L d1. batch_ok (ia_now a) {ia_worker a} {} L ?dT d1 \<and> orders_quiet (REFRESH_OPEN_SQL (ia_worker a) d1) (snd (issueOrder i a d))"
  proof (cases "ia_kind a = KResume")
    case True
    with nodrain resume_batch [OF _ own] show ?thesis unfolding issueOrder_cases(1) [OF \<open>mayInsert i a d\<close>] by blast
  next
    case False
    then have "orders_quiet (REFRESH_OPEN_SQL (ia_worker a) ?dT) (snd (issueOrder i a d))"
      unfolding issueOrder_cases(1) [OF \<open>mayInsert i a d\<close>]
      by (auto simp: resumeStatements_def issueLines_def Let_def orders_quiet_def finalLines_def final_of_def split: order_kind.splits option.splits)
    then show ?thesis using batch_refl [of "{}" "{}" "ia_now a" "{ia_worker a}" ?dT] by auto
  qed
  then obtain L d1 where b: "batch_ok (ia_now a) {ia_worker a} {} L ?dT d1" "orders_quiet (REFRESH_OPEN_SQL (ia_worker a) d1) (snd (issueOrder i a d))" by blast
  have "table_moves UNIV ([newOrder i a] @ d_orders d) (d_orders (snd (issueOrder i a d)))"
    using b T table_moves_UNIV [of "{ia_worker a}" "d_orders ?dT" "d_orders d1"] by (simp add: batch_ok_def orders_quiet_def)
  moreover have "in_sync (snd (issueOrder i a d))" if "in_sync d"
  proof -
    have "OPEN_ORDERS_SQL j ?d0 = OPEN_ORDERS_SQL j d" if "j \<noteq> ia_worker a" for j using that by (simp add: OPEN_ORDERS_SQL_def)
    with that have "in_sync_but {ia_worker a} ?d0" by (simp add: in_sync_but_def)
    then have "in_sync_but {ia_worker a} ?dT" by (rule quiet_sync [OF q])
    from batch_sync [OF b(1) this] have "in_sync_but {ia_worker a} d1" by simp
    then show ?thesis using refresh_sync [of "ia_worker a" "{}" d1] quiet_sync [OF b(2)] by simp
  qed
  moreover have "accounted (ia_now a) L (snd (issueOrder i a d))" if "accounted (ia_now a) {} d" "finalLines i d = 0"
  proof -
    have "accounted (ia_now a) {} ?d0" using insert_account [OF that(1), of "newOrder i a"] i that(2) by simp
    then have "accounted (ia_now a) {} ?dT" using quiet_account [OF q] by simp
    then have "accounted (ia_now a) L d1" using b(1) by (simp add: batch_ok_def)
    then have "accounted (ia_now a) L (REFRESH_OPEN_SQL (ia_worker a) d1)" using accounted_cong [of "REFRESH_OPEN_SQL (ia_worker a) d1" d1] by simp
    then show ?thesis using quiet_account [OF b(2)] by simp
  qed
  ultimately show ?thesis using True by (auto simp: insert_ok_def)
qed

end
