(* ===== verification/Order_Runs.thy ===== *)
theory Order_Runs
  imports Order_Steps "HOL-Library.Multiset"
begin

text \<open>
  The runs of the orders' database: every door, the claim, the cron and the acts on a host as steps of one relation, each with what it read at
  some earlier moment; and what every run keeps.
\<close>

subsection \<open>What a step does to the table\<close>

text \<open>New orders added, some removed, the rest taken forward.\<close>

definition moved :: "order_row list \<Rightarrow> db \<Rightarrow> db \<Rightarrow> bool" where
  "moved new d d' \<longleftrightarrow> (\<exists>xs. table_moves UNIV xs (d_orders d') \<and> mset xs \<subseteq># mset new + mset (d_orders d))"

lemma moved_same: "d_orders d' = d_orders d \<Longrightarrow> moved [] d d'"
  unfolding moved_def by (intro exI [of _ "d_orders d"]) simp

lemma insert_moved: "insert_ok now new d d' \<Longrightarrow> moved new d d'"
  unfolding moved_def insert_ok_def by (intro exI [of _ "new @ d_orders d"]) simp

lemma step_moved: "step_ok now d d' \<Longrightarrow> moved [] d d'"
  by (rule insert_moved [OF step_insert])

lemma moved_row:
  assumes "moved new d d'" "y \<in> set (d_orders d')"
  shows "\<exists>x \<in> set (new @ d_orders d). order_evolves x y"
proof -
  from assms(1) obtain xs where xs: "table_moves UNIV xs (d_orders d')" "mset xs \<subseteq># mset new + mset (d_orders d)" unfolding moved_def by blast
  from table_row [OF xs(1) assms(2)] obtain x where "x \<in> set xs" "order_evolves x y" by (auto simp: row_moves_def)
  moreover have "x \<in> set (new @ d_orders d)" using \<open>x \<in> set xs\<close> mset_subset_eqD [OF xs(2), of x] by simp
  ultimately show ?thesis by blast
qed

lemma distinct_sub:
  assumes "mset xs \<subseteq># mset ys" "distinct ys"
  shows "distinct xs"
  unfolding distinct_count_atmost_1
proof
  fix a
  have "count (mset xs) a \<le> count (mset ys) a" by (rule mset_subset_eq_count [OF assms(1)])
  also have "\<dots> \<le> 1" using assms(2) by (simp add: distinct_count_atmost_1)
  finally show "count (mset xs) a = (if a \<in> set xs then 1 else 0)"
    using count_greater_zero_iff [of "mset xs" a] by (cases "a \<in> set xs") (simp_all add: le_antisym Suc_le_eq)
qed

lemma moved_distinct:
  assumes "moved new d d'" "distinct (map o_id (new @ d_orders d))"
  shows "distinct (map o_id (d_orders d'))"
proof -
  from assms(1) obtain xs where xs: "table_moves UNIV xs (d_orders d')" "mset xs \<subseteq># mset (new @ d_orders d)" unfolding moved_def by auto
  from image_mset_subseteq_mono [OF xs(2), of o_id] have "mset (map o_id xs) \<subseteq># mset (map o_id (new @ d_orders d))" by simp
  from distinct_sub [OF this assms(2)] table_ids [OF xs(1)] show ?thesis by simp
qed

text \<open>A count of what an order keeps, and the keys of the open ones, grow only by what is new.\<close>

lemma moved_count:
  assumes "moved new d d'" and fixed: "\<And>x y. order_evolves x y \<Longrightarrow> P y \<longleftrightarrow> P x"
  shows "length (filter P (d_orders d')) \<le> length (filter P new) + length (filter P (d_orders d))"
proof -
  from assms(1) obtain xs where xs: "table_moves UNIV xs (d_orders d')" "mset xs \<subseteq># mset (new @ d_orders d)" unfolding moved_def by auto
  have "length (filter P (d_orders d')) = length (filter P xs)"
    using xs(1) fixed unfolding table_moves_def by (induction rule: list_all2_induct) (simp_all add: row_moves_def)
  moreover have "size (filter_mset P (mset xs)) \<le> size (filter_mset P (mset (new @ d_orders d)))"
    by (rule size_mset_mono [OF multiset_filter_mono [OF xs(2)]])
  ultimately show ?thesis by (simp add: mset_filter [symmetric] del: mset_filter)
qed

definition open_keys_of :: "(order_row \<Rightarrow> bool) \<Rightarrow> (order_row \<Rightarrow> 'k) \<Rightarrow> order_row list \<Rightarrow> 'k list" where
  "open_keys_of P k xs = map k (filter P xs)"

lemma moved_keys:
  assumes "moved new d d'" and keep: "\<And>x y. order_evolves x y \<Longrightarrow> P y \<Longrightarrow> P x \<and> k y = k x"
    and "distinct (open_keys_of P k (new @ d_orders d))"
  shows "distinct (open_keys_of P k (d_orders d'))"
proof -
  from assms(1) obtain xs where xs: "table_moves UNIV xs (d_orders d')" "mset xs \<subseteq># mset (new @ d_orders d)" unfolding moved_def by auto
  have "mset (open_keys_of P k (d_orders d')) \<subseteq># mset (open_keys_of P k xs)"
    using xs(1) unfolding table_moves_def open_keys_of_def
  proof (induction rule: list_all2_induct)
    case (Cons x xs y ys)
    then have "order_evolves x y" by (simp add: row_moves_def)
    with keep [of x y] Cons show ?case by (auto intro: subset_mset.order_trans)
  qed simp
  also have "\<dots> \<subseteq># mset (open_keys_of P k (new @ d_orders d))"
    using image_mset_subseteq_mono [OF multiset_filter_mono [OF xs(2), of P], of k] by (simp add: open_keys_of_def)
  finally show ?thesis using distinct_sub assms(3) by blast
qed

subsection \<open>The remaining steps\<close>

text \<open>Old closed orders removed.\<close>

lemma old_moved: "moved [] d (OLD_ORDERS_SQL before d)"
  unfolding moved_def OLD_ORDERS_SQL_def by (intro exI conjI) (rule table_refl, simp add: mset_filter)

lemma old_open: "openOrder x \<Longrightarrow> x \<in> set (d_orders (OLD_ORDERS_SQL before d)) \<longleftrightarrow> x \<in> set (d_orders d)"
  by (simp add: OLD_ORDERS_SQL_def)

lemma old_sync: "in_sync d \<Longrightarrow> in_sync (OLD_ORDERS_SQL before d)"
  unfolding in_sync_but_def OPEN_ORDERS_SQL_def OLD_ORDERS_SQL_def by (auto intro!: arg_cong [where f = "map entryOfOrder"] arg_cong [where f = "sort_key o_kind"] filter_cong)

lemma old_account: "accounted now K d \<Longrightarrow> accounted now K (OLD_ORDERS_SQL before d)"
  by (auto simp: accounted_def OLD_ORDERS_SQL_def finalLines_def distinct_map_filter)

text \<open>The suspension of hosts: their registrations' orders cancelled, and a closed order for each lease it fences.\<close>

definition fence_row :: "order_row \<Rightarrow> bool" where
  "fence_row x \<longleftrightarrow> o_kind x = ''stop-task'' \<and> \<not> openOrder x \<and> o_expires_at x = o_issued_at x"

definition fence_rows :: "string list \<Rightarrow> (int \<Rightarrow> string) \<Rightarrow> login \<Rightarrow> string \<Rightarrow> int \<Rightarrow> string \<Rightarrow> db \<Rightarrow> order_row list" where
  "fence_rows ws fresh who reason now why d = drop (length (d_orders d)) (d_orders (FENCE_ORDERS_SQL ws fresh who reason now why d))"

lemma fence_orders:
  "d_orders (FENCE_ORDERS_SQL ws fresh who reason now why d) = d_orders d @ fence_rows ws fresh who reason now why d"
  "map o_id (fence_rows ws fresh who reason now why d) = map (fresh \<circ> t_id) (filter (leasedByAny ws) (d_tasks d))"
  "x \<in> set (fence_rows ws fresh who reason now why d) \<Longrightarrow> fence_row x \<and> o_issued_by x = who \<and> o_answered_at x = Some now"
  by (auto simp: fence_rows_def FENCE_ORDERS_SQL_def fence_row_def openOrder_def)

lemma fence_moved: "moved (fence_rows ws fresh who reason now why d) d (FENCE_ORDERS_SQL ws fresh who reason now why d)"
  unfolding moved_def fence_orders(1) by (intro exI conjI) (rule table_refl, simp add: union_commute)

lemma fence_sync:
  assumes "in_sync d"
  shows "in_sync (FENCE_ORDERS_SQL ws fresh who reason now why d)"
proof -
  have "filter (\<lambda>x. o_worker x = i \<and> openOrder x) (fence_rows ws fresh who reason now why d) = []" for i
    using fence_orders(3) by (force simp: filter_empty_conv fence_row_def)
  then have "OPEN_ORDERS_SQL i (FENCE_ORDERS_SQL ws fresh who reason now why d) = OPEN_ORDERS_SQL i d" for i
    by (simp add: OPEN_ORDERS_SQL_def fence_orders(1))
  moreover have "d_workers (FENCE_ORDERS_SQL ws fresh who reason now why d) = d_workers d" by (simp add: FENCE_ORDERS_SQL_def)
  ultimately show ?thesis using assms by (simp add: in_sync_but_def)
qed

lemma fence_account:
  assumes "accounted now K d" "distinct (map o_id (fence_rows ws fresh who reason now why d @ d_orders d))"
  shows "\<exists>L. accounted now L (FENCE_ORDERS_SQL ws fresh who reason now why d)"
proof -
  let ?new = "fence_rows ws fresh who reason now why d"
  have l: "finalLines i (FENCE_ORDERS_SQL ws fresh who reason now why d) = finalLines i d" for i by (simp add: finalLines_def FENCE_ORDERS_SQL_def)
  have new: "lines_due x n \<and> o_answered_at x = Some now" if "x \<in> set ?new" for x n
    using fence_orders(3) [OF that] by (auto simp: lines_due_def fence_row_def)
  have "accounted now (K \<union> o_id ` set ?new) (FENCE_ORDERS_SQL ws fresh who reason now why d)"
    using assms new unfolding accounted_def fence_orders(1) l by (auto simp: Int_commute)
  then show ?thesis ..
qed

text \<open>What other parts of the program do: the orders, the lists and the final lines as they are; a new registration has no order.\<close>

definition elsewhere :: "db \<Rightarrow> db \<Rightarrow> bool" where
  "elsewhere d d' \<longleftrightarrow> d_orders d' = d_orders d \<and> (\<forall>i. finalLines i d' = finalLines i d)
     \<and> (\<forall>p \<in> set (open_lists d'). p \<in> set (open_lists d) \<or> snd p = [] \<and> OPEN_ORDERS_SQL (fst p) d = [])"

lemma elsewhere_sync: "elsewhere d d' \<Longrightarrow> in_sync d \<Longrightarrow> in_sync d'"
proof -
  assume e: "elsewhere d d'" and s: "in_sync d"
  have same: "OPEN_ORDERS_SQL i d' = OPEN_ORDERS_SQL i d" for i using e by (simp add: elsewhere_def OPEN_ORDERS_SQL_def)
  have "es = map entryOfOrder (OPEN_ORDERS_SQL i d')" if p: "(i, es) \<in> set (open_lists d')" for i es
  proof -
    have "(i, es) \<in> set (open_lists d) \<or> es = [] \<and> OPEN_ORDERS_SQL i d = []" using e p unfolding elsewhere_def by fastforce
    then show ?thesis using s unfolding in_sync_but_lists same by auto
  qed
  then show ?thesis unfolding in_sync_but_lists by fastforce
qed

subsection \<open>The runs\<close>

text \<open>The databases so far, the present one first, and the time of the last write. A handler's reads are of one of them. \<open>strict\<close> says that no two
  writes have the same millisecond; without it the clock may even go back.\<close>

definition later :: "bool \<Rightarrow> int \<Rightarrow> int \<Rightarrow> bool" where
  "later strict t now \<longleftrightarrow> (strict \<longrightarrow> t < now)"

text \<open>A random id that is in no database so far, as an order or in a line of one.\<close>

definition fresh_id :: "string \<Rightarrow> db list \<Rightarrow> bool" where
  "fresh_id i h \<longleftrightarrow> (\<forall>d \<in> set h. i \<notin> o_id ` set (d_orders d) \<and> finalLines i d = 0)"

definition sweepCloses :: "int \<Rightarrow> db \<Rightarrow> db \<Rightarrow> (order_row \<times> order_state \<times> order_detail) list" where
  "sweepCloses now d0 d1 = map (stopClose d1) (STOPS_DUE_SQL d1) @ map dueClose (filter (\<lambda>x. o_kind x \<noteq> ''stop-task'') (DUE_ORDERS_SQL now d0))"

inductive order_run :: "bool \<Rightarrow> db list \<Rightarrow> int \<Rightarrow> bool" for strict :: bool where
  Start: "d_orders d = [] \<Longrightarrow> list_all (\<lambda>w. w_open_orders w = []) (d_workers d) \<Longrightarrow> (\<forall>i. finalLines i d = 0) \<Longrightarrow> order_run strict [d] t"
| Issue: "order_run strict (d # h) t \<Longrightarrow> later strict t (ia_now a) \<Longrightarrow> fresh_id i (d # h)
    \<Longrightarrow> order_run strict (snd (issueOrder i a d) # d # h) (ia_now a)"
| Take: "order_run strict (d # h) t \<Longrightarrow> later strict t now \<Longrightarrow> d0 \<in> set (d # h)
    \<Longrightarrow> order_run strict (snd (takeOrders x now rel (OPEN_ORDERS_SQL (ac_worker x) d0) taskOf d) # d # h) now"
| Answer: "order_run strict (d # h) t \<Longrightarrow> later strict t now \<Longrightarrow> d0 \<in> set (d # h) \<Longrightarrow> seen = find (\<lambda>r. o_id r = oid) (d_orders d0)
    \<Longrightarrow> order_run strict (snd (handleAnswerOrder worker version oid b now seen d) # d # h) now"
| Cancel: "order_run strict (d # h) t \<Longrightarrow> later strict t now \<Longrightarrow> d0 \<in> set (d # h) \<Longrightarrow> r \<in> set (d_orders d0)
    \<Longrightarrow> order_run strict (cancelBatch r who now d # d # h) now"
| Sweep: "order_run strict (d # h) t \<Longrightarrow> later strict t now \<Longrightarrow> d0 \<in> set (d # h) \<Longrightarrow> d1 \<in> set (d # h)
    \<Longrightarrow> order_run strict (sweepPins now (sweepBatch now (sweepCloses now d0 d1) d) # d # h) now"
| Revoke: "order_run strict (d # h) t \<Longrightarrow> later strict t now \<Longrightarrow> order_run strict (cancelOrdersOf ws now why d # d # h) now"
| Suspend: "order_run strict (d # h) t \<Longrightarrow> later strict t now \<Longrightarrow> \<not> isPool who
    \<Longrightarrow> distinct (map (fresh \<circ> t_id) (filter (leasedByAny ws) (d_tasks d))) \<Longrightarrow> (\<forall>n. fresh_id (fresh n) (d # h))
    \<Longrightarrow> order_run strict (FENCE_ORDERS_SQL ws fresh who reason now why2 (cancelOrdersOf ws now why d) # d # h) now"
| Old: "order_run strict (d # h) t \<Longrightarrow> order_run strict (OLD_ORDERS_SQL before d # d # h) t"
| Elsewhere: "order_run strict (d # h) t \<Longrightarrow> elsewhere d d' \<Longrightarrow> order_run strict (d' # d # h) t"

subsection \<open>What every step is\<close>

text \<open>A row read earlier evolved into the present one, an id has one kind, and no database has it twice.\<close>

definition history_ok :: "db list \<Rightarrow> bool" where
  "history_ok h \<longleftrightarrow> (\<forall>d0 \<in> set h. distinct (map o_id (d_orders d0)))
     \<and> (\<forall>d0 \<in> set h. \<forall>r \<in> set (d_orders d0). \<forall>y \<in> set (d_orders (hd h)). o_id y = o_id r \<longrightarrow> order_evolves r y)
     \<and> (\<forall>d0 \<in> set h. \<forall>d1 \<in> set h. \<forall>r \<in> set (d_orders d0). \<forall>y \<in> set (d_orders d1). o_id y = o_id r \<longrightarrow> o_kind y = o_kind r)"

definition admitted :: "db \<Rightarrow> order_row list \<Rightarrow> bool" where
  "admitted d new \<longleftrightarrow> (\<exists>i a. new = [newOrder i a] \<and> mayInsert i a d) \<or> (\<forall>x \<in> set new. fence_row x \<and> \<not> isPool (o_issued_by x))"

definition good_step :: "bool \<Rightarrow> int \<Rightarrow> int \<Rightarrow> order_row list \<Rightarrow> db list \<Rightarrow> db \<Rightarrow> bool" where
  "good_step strict t t' new h d' \<longleftrightarrow> moved new (hd h) d' \<and> admitted (hd h) new \<and> distinct (map o_id new) \<and> (\<forall>r \<in> set new. fresh_id (o_id r) h)
     \<and> (in_sync (hd h) \<longrightarrow> in_sync d') \<and> (strict \<longrightarrow> (\<exists>K. accounted t K (hd h)) \<longrightarrow> (\<exists>L. accounted t' L d'))"

lemma good_of_step:
  assumes "step_ok now d d'" "later strict t now"
  shows "good_step strict t now [] (d # h) d'"
  using assms step_moved accounted_later unfolding good_step_def step_ok_def later_def admitted_def by (auto; blast)

lemma history_stale: "history_ok (d # h) \<Longrightarrow> d0 \<in> set (d # h) \<Longrightarrow> r \<in> set (d_orders d0) \<Longrightarrow> o_worker r \<in> W \<Longrightarrow> stale W r d"
  unfolding history_ok_def stale_def list.sel by blast

lemma history_reads:
  assumes "history_ok (d # h)" "d0 \<in> set (d # h)"
  shows "reads {w} (OPEN_ORDERS_SQL w d0) d"
proof -
  have "distinct (map o_id (d_orders d0))" using assms unfolding history_ok_def by blast
  then have "distinct (map o_id (OPEN_ORDERS_SQL w d0))" by (auto simp: OPEN_ORDERS_SQL_def distinct_map intro: inj_on_subset)
  moreover have "openOrder r \<and> stale {w} r d" if "r \<in> set (OPEN_ORDERS_SQL w d0)" for r
    using that history_stale [OF assms, of r "{w}"] by (simp add: OPEN_ORDERS_SQL_def)
  ultimately show ?thesis by (simp add: reads_def)
qed

lemma history_sweep:
  assumes h: "history_ok (d # h)" "d0 \<in> set (d # h)" "d1 \<in> set (d # h)"
  shows "distinct (map (o_id \<circ> fst) (sweepCloses now d0 d1))" "\<forall>c \<in> set (sweepCloses now d0 d1). closable c \<and> stale UNIV (fst c) d"
proof -
  let ?due = "filter (\<lambda>x. o_kind x \<noteq> ''stop-task'') (DUE_ORDERS_SQL now d0)"
  have fst: "fst (stopClose d1 x) = x" "fst (dueClose x) = x" for x by (simp_all add: stopClose_def dueClose_def split: prod.splits)
  have st: "fst (snd (stopClose d1 x)) \<notin> {OPending, ODelivered}" "fst (snd (dueClose x)) \<notin> {OPending, ODelivered}" for x
    using stopEnded_closed [OF surjective_pairing] by (auto simp: stopClose_def dueClose_def case_prod_unfold)
  have ids: "map (o_id \<circ> fst) (sweepCloses now d0 d1) = map o_id (STOPS_DUE_SQL d1) @ map o_id ?due"
    by (simp add: sweepCloses_def fst o_def)
  have dis: "distinct (map o_id (d_orders y))" if "y \<in> set (d # h)" for y using h(1) that unfolding history_ok_def by blast
  have apart: "o_id x \<noteq> o_id y" if "x \<in> set (STOPS_DUE_SQL d1)" "y \<in> set ?due" for x y
  proof
    assume "o_id x = o_id y"
    moreover have "x \<in> set (d_orders d1)" "y \<in> set (d_orders d0)" using that by (simp_all add: STOPS_DUE_SQL_def DUE_ORDERS_SQL_def)
    ultimately have "o_kind x = o_kind y" using h unfolding history_ok_def by blast
    with that show False by (simp add: STOPS_DUE_SQL_def)
  qed
  show "distinct (map (o_id \<circ> fst) (sweepCloses now d0 d1))"
    unfolding ids using dis [OF h(2)] dis [OF h(3)] apart by (auto simp: STOPS_DUE_SQL_def DUE_ORDERS_SQL_def distinct_map_filter)
  show "\<forall>c \<in> set (sweepCloses now d0 d1). closable c \<and> stale UNIV (fst c) d"
    using history_stale [OF h(1,2), of _ UNIV] history_stale [OF h(1,3), of _ UNIV] st
    by (auto simp: sweepCloses_def closable_def fst STOPS_DUE_SQL_def DUE_ORDERS_SQL_def)
qed

lemma suspend_good:
  assumes "history_ok (d # h)" "later strict t now" "\<not> isPool who"
    and ids: "distinct (map (fresh \<circ> t_id) (filter (leasedByAny ws) (d_tasks d)))" "\<forall>n. fresh_id (fresh n) (d # h)"
  shows "\<exists>new. good_step strict t now new (d # h) (FENCE_ORDERS_SQL ws fresh who reason now why2 (cancelOrdersOf ws now why d))"
proof -
  define d1 where "d1 = cancelOrdersOf ws now why d"
  define new where "new = fence_rows ws fresh who reason now why2 d1"
  have c: "step_ok now d d1" unfolding d1_def by (rule revoke_step)
  have rows: "fence_row x \<and> o_issued_by x = who" if "x \<in> set new" for x using fence_orders(3) that unfolding new_def by blast
  have new_ids: "map o_id new = map (fresh \<circ> t_id) (filter (leasedByAny ws) (d_tasks d))"
    unfolding new_def fence_orders(2) by (simp add: d1_def cancelOrdersOf_def)
  have fresh: "fresh_id (o_id r) (d # h)" if "r \<in> set new" for r
  proof -
    from that have "o_id r \<in> set (map o_id new)" by simp
    then show ?thesis unfolding new_ids using ids(2) by auto
  qed
  have m: "table_moves UNIV (d_orders d) (d_orders d1)" using c by (simp add: step_ok_def)
  have apart: "distinct (map o_id (new @ d_orders d1))"
    using ids(1) fresh table_ids [OF m] assms(1) unfolding history_ok_def map_append new_ids [symmetric] distinct_append by (auto simp: fresh_id_def)
  have d': "d_orders (FENCE_ORDERS_SQL ws fresh who reason now why2 d1) = d_orders d1 @ new" unfolding new_def by (rule fence_orders(1))
  have "moved new d (FENCE_ORDERS_SQL ws fresh who reason now why2 d1)"
    unfolding moved_def d'
    by (rule exI [of _ "d_orders d @ new"]) (use m in \<open>auto simp: table_moves_def row_moves_def union_commute intro!: list_all2_appendI list.rel_refl\<close>)
  moreover have "\<exists>L. accounted now L (FENCE_ORDERS_SQL ws fresh who reason now why2 d1)" if "strict" "accounted t K d" for K
  proof -
    have "accounted now {} d" using that assms(2) accounted_later by (auto simp: later_def)
    then obtain L where "accounted now L d1" using c by (auto simp: step_ok_def)
    from fence_account [OF this] apart show ?thesis unfolding new_def by blast
  qed
  ultimately have "good_step strict t now new (d # h) (FENCE_ORDERS_SQL ws fresh who reason now why2 d1)"
    using ids(1) rows fresh assms(3) c fence_sync [of d1] unfolding good_step_def admitted_def step_ok_def new_ids list.sel by blast
  then show ?thesis unfolding d1_def by blast
qed

lemma issue_good:
  assumes "later strict t (ia_now a)" "fresh_id i (d # h)"
  shows "\<exists>new. good_step strict t (ia_now a) new (d # h) (snd (issueOrder i a d))"
proof -
  let ?new = "if mayInsert i a d then [newOrder i a] else []"
  have ok: "insert_ok (ia_now a) ?new d (snd (issueOrder i a d))" by (rule issue_step)
  have "admitted d ?new" by (auto simp: admitted_def)
  moreover have fresh: "\<forall>r \<in> set ?new. fresh_id (o_id r) (d # h)" using assms(2) by simp
  moreover have "\<exists>L. accounted (ia_now a) L (snd (issueOrder i a d))" if "strict" "accounted t K d" for K
  proof -
    have "accounted (ia_now a) {} d" using that assms(1) accounted_later by (auto simp: later_def)
    then show ?thesis using ok fresh unfolding insert_ok_def by (auto simp: fresh_id_def split: if_splits)
  qed
  ultimately have "good_step strict t (ia_now a) ?new (d # h) (snd (issueOrder i a d))"
    using insert_moved [OF ok] ok unfolding good_step_def insert_ok_def by auto
  then show ?thesis by blast
qed

lemma run_good_step:
  assumes "order_run strict (d' # d # h) t'" "history_ok (d # h)"
  shows "\<exists>new t. order_run strict (d # h) t \<and> good_step strict t t' new (d # h) d'"
  using assms(1)
proof cases
  case (Issue t a i)
  then show ?thesis using issue_good by blast
next
  case (Take t d0 x rel taskOf)
  then show ?thesis using good_of_step [OF takeOrders_step [OF history_reads [OF assms(2)]]] by blast
next
  case (Answer t d0 seen oid worker version b)
  have "\<forall>r. seen = Some r \<longrightarrow> stale UNIV r d"
    using Answer history_stale [OF assms(2), of d0 _ UNIV] by (auto simp: find_Some_iff)
  from good_of_step [OF handleAnswer_step [OF this]] Answer show ?thesis by blast
next
  case (Cancel t d0 r who)
  then show ?thesis using good_of_step [OF cancelBatch_step [OF history_stale [OF assms(2), of d0 r UNIV]]] by blast
next
  case (Sweep t d0 d1)
  then show ?thesis using good_of_step [OF sweepBatch_step [OF history_sweep [OF assms(2)]]] by blast
next
  case (Revoke t ws why)
  then show ?thesis using good_of_step [OF revoke_step] by blast
next
  case (Suspend t who fresh ws reason why2 why)
  then show ?thesis using suspend_good [OF assms(2)] by blast
next
  case (Old before)
  have acc: "\<exists>L. accounted t' L d'" if "\<exists>K. accounted t' K d" using that old_account [of t' _ d before] Old(1) by blast
  from Old have "good_step strict t' t' [] (d # h) d'"
    using old_moved old_sync acc unfolding good_step_def admitted_def list.sel by simp
  then show ?thesis using Old by blast
next
  case Elsewhere
  then have "good_step strict t' t' [] (d # h) d'"
    using moved_same elsewhere_sync accounted_by [of d' d] unfolding good_step_def admitted_def by (auto simp: elsewhere_def)
  then show ?thesis using Elsewhere by blast
qed

lemma good_history:
  assumes h: "history_ok (d # h)" and g: "good_step strict t t' new (d # h) d'"
  shows "history_ok (d' # d # h)"
proof -
  have m: "moved new d d'" and fresh: "\<And>r. r \<in> set new \<Longrightarrow> fresh_id (o_id r) (d # h)" and dn: "distinct (map o_id new)"
    using g unfolding good_step_def by auto
  have dd: "distinct (map o_id (d_orders d))" using h unfolding history_ok_def by simp
  have dis: "distinct (map o_id (d_orders d'))"
    by (rule moved_distinct [OF m]) (use dn dd fresh in \<open>auto simp: fresh_id_def\<close>)
  have from_d: "\<exists>x \<in> set (d_orders d). o_id x = o_id r \<and> order_evolves x y"
    if y: "y \<in> set (d_orders d')" and r: "d0 \<in> set (d # h)" "r \<in> set (d_orders d0)" "o_id y = o_id r" for y d0 r
  proof -
    from moved_row [OF m y] obtain x where x: "x \<in> set (new @ d_orders d)" "order_evolves x y" by blast
    have "x \<notin> set new" using fresh [of x] r evolves_fixed(1) [OF x(2)] unfolding fresh_id_def by force
    then show ?thesis using x r(3) evolves_fixed(1) [OF x(2)] by auto
  qed
  have old: "order_evolves r y" if "y \<in> set (d_orders d')" "d0 \<in> set (d # h)" "r \<in> set (d_orders d0)" "o_id y = o_id r" for y d0 r
  proof -
    from from_d [OF that] obtain x where x: "x \<in> set (d_orders d)" "o_id x = o_id r" "order_evolves x y" by blast
    moreover have "order_evolves r x" using h that x unfolding history_ok_def list.sel by blast
    ultimately show ?thesis using evolves_trans by blast
  qed
  have self: "y = r" if "y \<in> set (d_orders d')" "r \<in> set (d_orders d')" "o_id y = o_id r" for y r
    by (rule distinct_same_id [OF dis]) (use that in auto)
  have now: "order_evolves r y" if "d0 \<in> set (d' # d # h)" "r \<in> set (d_orders d0)" "y \<in> set (d_orders d')" "o_id y = o_id r" for d0 r y
  proof (cases "d0 = d'")
    case True
    then have "y = r" using self [of y r] that by blast
    then show ?thesis by simp
  next
    case False
    then show ?thesis using old that by simp
  qed
  have kind: "o_kind y = o_kind r" if "d0 \<in> set (d' # d # h)" "d1 \<in> set (d' # d # h)" "r \<in> set (d_orders d0)" "y \<in> set (d_orders d1)" "o_id y = o_id r" for d0 d1 r y
  proof -
    consider "d1 = d'" | "d0 = d'" | "d0 \<in> set (d # h)" "d1 \<in> set (d # h)" using \<open>d0 \<in> _\<close> \<open>d1 \<in> _\<close> by auto
    then show ?thesis
    proof cases
      case 1
      with now [of d0 r y] that have "order_evolves r y" by blast
      then show ?thesis by (rule evolves_fixed(3))
    next
      case 2
      with now [of d1 y r] that have "order_evolves y r" by simp
      then show ?thesis by (rule evolves_fixed(3) [symmetric])
    next
      case 3
      then show ?thesis using h that(3-5) unfolding history_ok_def by blast
    qed
  qed
  have each: "distinct (map o_id (d_orders d0))" if "d0 \<in> set (d' # d # h)" for d0
    using dis h that unfolding history_ok_def by auto
  show ?thesis
    unfolding history_ok_def list.sel
    by (intro conjI ballI impI) (rule each now kind; assumption)+
qed

lemma run_hd: "order_run strict h t \<Longrightarrow> \<exists>d r. h = d # r"
  by (cases rule: order_run.cases) auto

text \<open>What holds of every run: the history, the lists, and with a strict clock the account of the lines.\<close>

lemma run_history:
  assumes "order_run strict h t"
  shows "history_ok h \<and> in_sync (hd h) \<and> (strict \<longrightarrow> (\<exists>K. accounted t K (hd h)))"
  using assms
proof (induction h arbitrary: t)
  case Nil
  then show ?case using run_hd by blast
next
  case (Cons d' h)
  show ?case
  proof (cases h)
    case Nil
    with Cons.prems have "d_orders d' = []" "list_all (\<lambda>w. w_open_orders w = []) (d_workers d')" "\<forall>i. finalLines i d' = 0"
      by (auto elim: order_run.cases)
    then show ?thesis using Nil by (auto simp: history_ok_def in_sync_but_def OPEN_ORDERS_SQL_def accounted_def list_all_iff)
  next
    case (Cons d r)
    have h: "history_ok (d # r)"
    proof -
      have "\<exists>u. order_run strict (d # r) u" using Cons.prems [unfolded Cons] by cases auto
      with Cons.IH Cons show ?thesis by blast
    qed
    from run_good_step [OF Cons.prems [unfolded Cons] h] obtain new u
      where u: "order_run strict (d # r) u" "good_step strict u t new (d # r) d'" by blast
    have "in_sync d \<and> (strict \<longrightarrow> (\<exists>K. accounted u K d))" using Cons.IH u(1) Cons by force
    with u(2) good_history [OF h u(2)] show ?thesis unfolding Cons good_step_def by auto
  qed
qed

text \<open>The induction the table's invariants go by.\<close>

lemma run_table_induct [consumes 1, case_names Empty Step]:
  assumes "order_run strict h t"
    and "\<And>d. d_orders d = [] \<Longrightarrow> Q d"
    and "\<And>d d' new. Q d \<Longrightarrow> moved new d d' \<Longrightarrow> admitted d new \<Longrightarrow> Q d'"
  shows "Q (hd h)"
  using assms(1)
proof (induction h arbitrary: t)
  case Nil
  then show ?case using run_hd by blast
next
  case (Cons d' h)
  show ?case
  proof (cases h)
    case Nil
    with Cons.prems have "d_orders d' = []" by (auto elim: order_run.cases)
    then show ?thesis using assms(2) by simp
  next
    case (Cons d r)
    obtain u where "order_run strict (d # r) u" using Cons.prems [unfolded Cons] by cases auto
    from run_good_step [OF Cons.prems [unfolded Cons]] run_history [OF this]
    obtain new u where u: "order_run strict (d # r) u" "good_step strict u t new (d # r) d'" by blast
    have "Q d" using Cons.IH u(1) Cons by force
    then show ?thesis using assms(3) u(2) unfolding good_step_def by auto
  qed
qed

end
