(* ===== verification/Order_Props.thy ===== *)
theory Order_Props
  imports Order_Runs
begin

text \<open>
  What holds of worker orders over every run: an order only goes forward and is handed out once, the caps hold in every window, a worker's list
  of open orders is the table's, each order has its one final line, and what is due is closed.
\<close>

subsection \<open>An example\<close>

definition ex_box :: worker where
  "ex_box = ex_worker\<lparr>w_id := ''w1'', w_host_id := None, w_open_orders := []\<rparr>"

definition ex_box_db :: db where
  "ex_box_db = empty_db\<lparr>d_workers := [ex_box]\<rparr>"

definition ex_ask :: issue_ask where
  "ex_ask = \<lparr>ia_worker = ''w1'', ia_kind = KRestart, ia_reason = ''stuck'', ia_by = ''ann'', ia_via = Some ''web'', ia_rule = None, ia_unless = False,
     ia_site = None, ia_baseline = None, ia_auto = None, ia_deliver = None, ia_task = None, ia_host = False, ia_resumed = None, ia_now = 9000000,
     ia_line = ''restart''\<rparr>"

definition ex_issued :: db where
  "ex_issued = snd (issueOrder ''o_1'' ex_ask ex_box_db)"

definition ex_claim :: after_claim where
  "ex_claim = \<lparr>ac_worker = ''w1'', ac_open = True, ac_takes = Some [''restart''], ac_via = None, ac_version = None, ac_instance = Some ''p1'',
     ac_instance_since = Some 0, ac_conflict = False, ac_status = None, ac_checked_at = None, ac_listed = None\<rparr>"

definition ex_delivered :: db where
  "ex_delivered = snd (takeOrders ex_claim 9060000 False (OPEN_ORDERS_SQL ''w1'' ex_issued) (\<lambda>_. None) ex_issued)"

lemma ex_run:
  "order_run strict [ex_box_db] 0" "order_run strict [ex_issued, ex_box_db] 9000000" "order_run strict [ex_delivered, ex_issued, ex_box_db] 9060000"
proof -
  show start: "order_run strict [ex_box_db] 0"
    by (rule order_run.Start) (simp_all add: ex_box_db_def ex_box_def empty_db_def finalLines_def)
  have fresh: "fresh_id ''o_1'' [ex_box_db]" by (simp add: fresh_id_def ex_box_db_def empty_db_def finalLines_def)
  have "order_run strict [snd (issueOrder ''o_1'' ex_ask ex_box_db), ex_box_db] (ia_now ex_ask)"
    by (rule order_run.Issue [OF start _ fresh]) (simp add: later_def ex_ask_def)
  then show issued: "order_run strict [ex_issued, ex_box_db] 9000000" by (simp add: ex_issued_def ex_ask_def)
  show "order_run strict [ex_delivered, ex_issued, ex_box_db] 9060000"
    using order_run.Take [OF issued, of 9060000 ex_issued ex_claim False "\<lambda>_. None"] by (simp add: later_def ex_delivered_def ex_claim_def)
qed

lemma ex_rows:
  "map (\<lambda>x. (o_id x, o_state x, o_delivered_to x)) (d_orders ex_issued) = [(''o_1'', OPending, None)]"
  "map (\<lambda>x. (o_id x, o_state x, o_delivered_to x)) (d_orders ex_delivered) = [(''o_1'', ODelivered, Some ''p1'')]"
  by code_simp+

subsection \<open>An order goes forward\<close>

text \<open>C18. Of every order in any database of a run: as it is now it has the worker, kind, issuer, task, site and times it had; closed, it is as
  it was; delivered, it is delivered to the same process or closed.\<close>

theorem order_life:
  assumes "order_run strict (d # h) t" "d0 \<in> set h" "r \<in> set (d_orders d0)" "y \<in> set (d_orders d)" "o_id y = o_id r"
  shows "o_worker y = o_worker r \<and> o_kind y = o_kind r \<and> o_issued_by y = o_issued_by r \<and> o_task y = o_task r \<and> o_site y = o_site r
    \<and> o_issued_at y = o_issued_at r \<and> o_expires_at y = o_expires_at r
    \<and> (if openOrder r then o_state r = ODelivered \<longrightarrow> o_state y \<noteq> OPending \<and> o_delivered_to y = o_delivered_to r else y = r)"
proof -
  have "order_evolves r y" using run_history [OF assms(1)] assms(2-5) unfolding history_ok_def by simp
  then have e: "order_fixed y = order_fixed r" "\<not> openOrder r \<Longrightarrow> y = r" "o_state r = ODelivered \<Longrightarrow> o_state y \<noteq> OPending \<and> o_delivered_to y = o_delivered_to r"
    unfolding order_evolves_def by blast+
  show ?thesis
  proof (cases "openOrder r")
    case True
    then show ?thesis using e(1,3) by (simp add: order_fixed_def)
  next
    case False
    show ?thesis unfolding e(2) [OF False] using False by simp
  qed
qed

theorem order_life_witness:
  "d_orders ex_delivered \<noteq> [] \<and> o_issued_at (hd (d_orders ex_delivered)) = o_issued_at (hd (d_orders ex_issued)) \<and> openOrder (hd (d_orders ex_issued))"
proof -
  obtain r where r: "d_orders ex_issued = [r]" "o_id r = ''o_1''" "o_state r = OPending" using ex_rows(1) by auto
  obtain y where y: "d_orders ex_delivered = [y]" "o_id y = ''o_1''" using ex_rows(2) by auto
  have "o_issued_at y = o_issued_at r" using order_life [OF ex_run(3), of ex_issued r y] r y by simp
  then show ?thesis using r y by (simp add: openOrder_def)
qed

subsection \<open>Handed out once\<close>

lemma evolves_delivered: "order_evolves x y \<Longrightarrow> o_state x = ODelivered \<Longrightarrow> o_state y \<noteq> OPending \<and> o_delivered_to y = o_delivered_to x"
  unfolding order_evolves_def by (elim conjE) blast

lemma evolves_pending: "order_evolves x y \<Longrightarrow> o_state y = OPending \<Longrightarrow> y = x"
  unfolding order_evolves_def by (elim conjE) blast

lemma sql_update_member: "y \<in> set rows \<Longrightarrow> P y \<Longrightarrow> f y \<in> set (sql_update P f rows)"
  by (auto simp: set_sql_update)

lemma order_update: "d_orders (d\<lparr>d_orders := xs\<rparr>) = xs" by simp

lemma deliverAll_handed:
  assumes "r \<in> set (fst (deliverAll x now rs d))" "\<forall>r \<in> set rs. owned_by UNIV (o_id r) (d_orders d)"
  shows "r \<in> set rs \<and> (\<exists>y \<in> set (d_orders d). o_id y = o_id r \<and> o_state y = OPending)
    \<and> (\<exists>z \<in> set (d_orders (snd (deliverAll x now rs d))). o_id z = o_id r \<and> o_state z \<noteq> OPending \<and> o_delivered_to z = ac_instance x)"
  using assms
proof (induction rs arbitrary: d)
  case (Cons q rs)
  let ?d1 = "snd (deliverOne x now q d)"
  have m1: "table_moves UNIV (d_orders d) (d_orders ?d1)" using deliverOne_batch [of UNIV q d 0 "{}" x now] by (simp add: batch_ok_def owned_by_def)
  have m2: "table_moves UNIV (d_orders ?d1) (d_orders (snd (deliverAll x now rs ?d1)))"
    using deliverAll_batch [of rs UNIV ?d1 0 "{}" x now] by (simp add: batch_ok_def owned_by_def)
  have all: "snd (deliverAll x now (q # rs) d) = snd (deliverAll x now rs ?d1)"
    "fst (deliverAll x now (q # rs) d) = (if fst (deliverOne x now q d) then [q] else []) @ fst (deliverAll x now rs ?d1)"
    by (simp_all add: Let_def case_prod_unfold)
  from Cons.prems(1) consider "r = q" "fst (deliverOne x now q d)" | "r \<in> set (fst (deliverAll x now rs ?d1))" unfolding all by (auto split: if_splits)
  then show ?case
  proof cases
    case 1
    then obtain y where y: "y \<in> set (d_orders d)" "o_id y = o_id q" "o_state y = OPending" by (auto simp: deliverOne_def list_ex_iff Let_def)
    let ?z = "y\<lparr>o_state := ODelivered, o_delivered_at := Some now, o_delivered_to := ac_instance x,
      o_baseline := (if o_kind q = ''restart'' then ac_instance x else ac_checked_at x)\<rparr>"
    have "?z \<in> set (d_orders ?d1)"
      unfolding deliverOne_def Let_def snd_conv order_update by (rule sql_update_member [OF y(1), rule_format]) (use y(2,3) in simp)
    then obtain z where z: "z \<in> set (d_orders ?d1)" "o_id z = o_id q" "o_state z = ODelivered" "o_delivered_to z = ac_instance x" using y(2) that [of ?z] by simp
    from table_row' [OF m2 z(1)] obtain u where u: "u \<in> set (d_orders (snd (deliverAll x now rs ?d1)))" "order_evolves z u" by (auto simp: row_moves_def)
    then have "o_id u = o_id q \<and> o_state u \<noteq> OPending \<and> o_delivered_to u = ac_instance x"
      using z(2-4) evolves_fixed(1) [OF u(2)] evolves_delivered [OF u(2)] by simp
    with u(1) y 1(1) show ?thesis unfolding all by auto
  next
    case 2
    have "owned_by UNIV (o_id c) (d_orders ?d1)" for c by (simp add: owned_by_def)
    with Cons.IH [OF 2] obtain y where y: "r \<in> set rs" "y \<in> set (d_orders ?d1)" "o_id y = o_id r" "o_state y = OPending"
      "\<exists>z \<in> set (d_orders (snd (deliverAll x now rs ?d1))). o_id z = o_id r \<and> o_state z \<noteq> OPending \<and> o_delivered_to z = ac_instance x" by blast
    from table_row [OF m1 y(2)] obtain w where w: "w \<in> set (d_orders d)" "order_evolves w y" by (auto simp: row_moves_def)
    have "y = w" by (rule evolves_pending [OF w(2) y(4)])
    with w y show ?thesis unfolding all by auto
  qed
qed simp

text \<open>What a claim hands out to carry out was waiting in the present database, and is delivered to this process after it.\<close>

lemma takeOrders_handed:
  assumes rows: "reads {ac_worker x} rows d" and out: "e \<in> set (fst (takeOrders x now rel rows taskOf d))" "\<not> oo_notice e"
  shows "(\<exists>y \<in> set (d_orders d). o_id y = oo_order e \<and> o_state y = OPending)
    \<and> (\<exists>z \<in> set (d_orders (snd (takeOrders x now rel rows taskOf d))). o_id z = oo_order e \<and> o_state z \<noteq> OPending \<and> o_delivered_to z = ac_instance x)"
proof -
  define closes where "closes = planCloses x now rel rows"
  define stops where "stops = planStops x now rel rows"
  define dl where "dl = planDeliver x now rel rows"
  define d1 where "d1 = fold (closeWithLine now) closes d"
  define d2 where "d2 = snd (takeStops x now taskOf stops d1)"
  define hd where "hd = fst (deliverAll x now dl d2)"
  define d3 where "d3 = snd (deliverAll x now dl d2)"
  have outs: "fst (takeOrders x now rel rows taskOf d) = [] \<or>
      fst (takeOrders x now rel rows taskOf d) = map outOf (planNotices x now rel rows) @ map outOf hd \<and> d_orders (snd (takeOrders x now rel rows taskOf d)) = d_orders d3"
  proof -
    have "d_orders (fold (\<lambda>(t, failed, err). afterRequeue (t\<lparr>t_lease_owner := Some (ac_worker x)\<rparr>) failed err True) bk y) = d_orders y" for bk y
    proof -
      have "orders_quiet y (fold (\<lambda>(t, failed, err). afterRequeue (t\<lparr>t_lease_owner := Some (ac_worker x)\<rparr>) failed err True) bk y)"
        by (rule quiet_fold) (auto simp: quiet_afterRequeue split: prod.splits)
      then show ?thesis by (simp add: orders_quiet_def)
    qed
    then show ?thesis
      by (simp add: takeOrders_def Let_def closes_def [symmetric] stops_def [symmetric] dl_def [symmetric] d1_def [symmetric] case_prod_unfold
          d2_def [symmetric] hd_def [symmetric] d3_def [symmetric])
  qed
  have notices: "oo_notice (outOf r)" if "r \<in> set (planNotices x now rel rows)" for r
  proof -
    have "\<exists>det. planOf x now rel r = PNotice det" using that by (auto simp: planNotices_def split: order_plan.splits)
    then have "o_kind r = ''drain''"
      by (auto simp: planOf_def planDelivered_def planPending_def planLive_def kind_of_def find_Some_iff Let_def split: if_splits option.splits)
    then show ?thesis by (simp add: outOf_def)
  qed
  obtain r where r: "r \<in> set hd" "e = outOf r" using outs out notices by auto
  have m1: "table_moves UNIV (d_orders d) (d_orders d2)"
  proof -
    have opn: "\<forall>r \<in> set rows. openOrder r" using rows by (simp add: reads_def)
    have "table_moves UNIV (d_orders y) (d_orders (fold (closeWithLine now) cs y))" if "\<forall>c \<in> set cs. closable c" for cs y
      using that
    proof (induction cs arbitrary: y)
      case (Cons c cs)
      have "table_moves UNIV (d_orders y) (d_orders (closeWithLine now c y))"
        using closeWithLine_batch(1) [of c UNIV y "{}" now] Cons.prems by (simp add: batch_ok_def owned_by_def)
      with Cons show ?case using table_trans by fastforce
    qed simp
    moreover have "\<forall>c \<in> set closes. closable c" using planCloses_rows [of _ x now rel rows] opn by (auto simp: closes_def closable_def)
    moreover have "table_moves UNIV (d_orders y) (d_orders (snd (takeStops x now taskOf rs y)))" for rs y
    proof (induction rs arbitrary: y)
      case (Cons q rs)
      have "table_moves UNIV (d_orders y) (d_orders (snd (takeStop x now taskOf q y)))"
        using takeStop_batch [of UNIV q y "{}" now x taskOf] by (simp add: batch_ok_def owned_by_def)
      with Cons [of "snd (takeStop x now taskOf q y)"] show ?case using table_trans by (fastforce simp: Let_def case_prod_unfold)
    qed simp
    ultimately show ?thesis unfolding d2_def d1_def using table_trans by blast
  qed
  have h: "r \<in> set dl" "\<exists>y \<in> set (d_orders d2). o_id y = o_id r \<and> o_state y = OPending"
    "\<exists>z \<in> set (d_orders d3). o_id z = o_id r \<and> o_state z \<noteq> OPending \<and> o_delivered_to z = ac_instance x"
    using deliverAll_handed [of r x now dl d2] r(1) unfolding hd_def d3_def by (auto simp: owned_by_def)
  from h(2) obtain y where y: "y \<in> set (d_orders d2)" "o_id y = o_id r" "o_state y = OPending" by blast
  from table_row [OF m1 y(1)] obtain w where w: "w \<in> set (d_orders d)" "order_evolves w y" by (auto simp: row_moves_def)
  have "y = w" by (rule evolves_pending [OF w(2) y(3)])
  then have "\<exists>y \<in> set (d_orders d). o_id y = o_id r \<and> o_state y = OPending" using w y by blast
  moreover have "d_orders (snd (takeOrders x now rel rows taskOf d)) = d_orders d3" using outs out(1) by auto
  ultimately show ?thesis using h(3) r(2) by (simp add: outOf_def)
qed

text \<open>C19. An order a claim hands out was waiting in every earlier database that has it, never delivered to a process before, and is delivered to the process
  that claimed: whatever came between the claim's read and its batch, no order is handed out twice.\<close>

theorem handed_once:
  assumes "order_run strict (d # h) t" "d0 \<in> set (d # h)"
    "takeOrders x now rel (OPEN_ORDERS_SQL (ac_worker x) d0) taskOf d = (outs, d')" "e \<in> set outs" "\<not> oo_notice e"
  shows "(\<forall>d1 \<in> set (d # h). \<forall>r \<in> set (d_orders d1). o_id r = oo_order e \<longrightarrow> o_state r = OPending)
    \<and> (\<exists>z \<in> set (d_orders d'). o_id z = oo_order e \<and> o_state z \<noteq> OPending \<and> o_delivered_to z = ac_instance x)"
proof -
  have hist: "history_ok (d # h)" using run_history [OF assms(1)] by blast
  from takeOrders_handed [OF history_reads [OF hist assms(2)], of e x now rel taskOf] assms(3-5)
  obtain y z where y: "y \<in> set (d_orders d)" "o_id y = oo_order e" "o_state y = OPending"
    and z: "z \<in> set (d_orders d')" "o_id z = oo_order e" "o_state z \<noteq> OPending" "o_delivered_to z = ac_instance x" by fastforce
  have "o_state r = OPending" if "d1 \<in> set (d # h)" "r \<in> set (d_orders d1)" "o_id r = oo_order e" for d1 r
  proof -
    have "order_evolves r y" using hist that y(1,2) unfolding history_ok_def list.sel by (metis (no_types, lifting))
    from evolves_pending [OF this y(3)] y(3) show ?thesis by simp
  qed
  then show ?thesis using z by blast
qed

theorem handed_once_witness:
  "map oo_order (fst (takeOrders ex_claim 9060000 False (OPEN_ORDERS_SQL ''w1'' ex_issued) (\<lambda>_. None) ex_issued)) = [''o_1'']
    \<and> (\<exists>z \<in> set (d_orders ex_delivered). o_id z = ''o_1'' \<and> o_delivered_to z = Some ''p1'')"
proof -
  have outs: "map (\<lambda>e. (oo_order e, oo_notice e)) (fst (takeOrders ex_claim 9060000 False (OPEN_ORDERS_SQL ''w1'' ex_issued) (\<lambda>_. None) ex_issued)) = [(''o_1'', False)]"
    by code_simp
  then obtain e where e: "fst (takeOrders ex_claim 9060000 False (OPEN_ORDERS_SQL ''w1'' ex_issued) (\<lambda>_. None) ex_issued) = [e]" "oo_order e = ''o_1''" "\<not> oo_notice e"
    by auto
  have c: "ac_worker ex_claim = ''w1''" "ac_instance ex_claim = Some ''p1''" by (simp_all add: ex_claim_def)
  have "takeOrders ex_claim 9060000 False (OPEN_ORDERS_SQL (ac_worker ex_claim) ex_issued) (\<lambda>_. None) ex_issued = ([e], ex_delivered)"
    using e(1) by (simp add: c ex_delivered_def prod_eq_iff)
  from handed_once [OF ex_run(2) _ this, of e] e(2,3) c(2)
  have "\<exists>z \<in> set (d_orders ex_delivered). o_id z = ''o_1'' \<and> o_delivered_to z = Some ''p1''" by auto
  then show ?thesis using e by simp
qed

subsection \<open>The caps\<close>

text \<open>The orders of a sort issued in a window.\<close>

definition issuedWithin :: "(order_row \<Rightarrow> bool) \<Rightarrow> int \<Rightarrow> int \<Rightarrow> db \<Rightarrow> nat" where
  "issuedWithin P s window d = length (filter (\<lambda>x. P x \<and> s < o_issued_at x \<and> o_issued_at x \<le> s + window) (d_orders d))"

text \<open>A cap the INSERT counts against: the sort is a matter of what an order keeps, and no fence of a suspension is of it. The count looks at everything issued
  after \<open>now - window\<close>, so the cap holds in every window, whatever the clocks of the writers.\<close>

locale window_cap =
  fixes P :: "order_row \<Rightarrow> bool" and window :: int and cap :: nat
  assumes kept: "order_evolves x y \<Longrightarrow> P y \<longleftrightarrow> P x"
    and capped: "mayInsert i a d \<Longrightarrow> P (newOrder i a) \<Longrightarrow> countOrders P (ia_now a - window) d < cap"
    and no_fence: "fence_row x \<Longrightarrow> \<not> isPool (o_issued_by x) \<Longrightarrow> \<not> P x"
begin

lemma holds: "order_run strict h t \<Longrightarrow> issuedWithin P s window (hd h) \<le> cap"
proof (induction rule: run_table_induct)
  case (Empty d)
  then show ?case by (simp add: issuedWithin_def)
next
  case (Step d d' new)
  let ?Q = "\<lambda>x. P x \<and> s < o_issued_at x \<and> o_issued_at x \<le> s + window"
  have count: "issuedWithin P s window d' \<le> length (filter ?Q new) + issuedWithin P s window d"
    unfolding issuedWithin_def by (rule moved_count [OF Step(2)]) (simp add: kept evolves_fixed(7))
  show ?case
  proof (cases "filter ?Q new = []")
    case True
    then show ?thesis using count Step(1) by simp
  next
    case False
    then obtain i a where a: "new = [newOrder i a]" "mayInsert i a d" "?Q (newOrder i a)"
      using Step(3) no_fence unfolding admitted_def by (auto simp: filter_empty_conv split: if_splits)
    have "issuedWithin P s window d \<le> countOrders P (ia_now a - window) d"
      unfolding issuedWithin_def countOrders_def by (rule length_filter_mono) (use a(3) in auto)
    also have "\<dots> < cap" using capped a by blast
    finally show ?thesis using count a(1) by (simp split: if_splits)
  qed
qed

end

lemmas cap_defs = mayInsert_def capsOk_def fence_row_def poolOrder_def communityOrder_def restartType_def ofWorkerKinds_def evolves_fixed

lemma countOrders_mono: "(\<And>x. P x \<Longrightarrow> Q x) \<Longrightarrow> countOrders P s d \<le> countOrders Q s d"
  unfolding countOrders_def by (rule length_filter_mono) blast

lemma pool_restart_kinds: "restartType (newOrder i a) \<longleftrightarrow> ia_kind a \<in> set POOL_RESTARTS"
  by (cases "ia_kind a") (simp_all add: restartType_def POOL_RESTARTS_def)

interpretation pool_day: window_cap poolOrder DAY MAX_POOL_ORDERS_PER_DAY
  by unfold_locales (auto simp: cap_defs)

interpretation community_day: window_cap communityOrder DAY MAX_POOL_COMMUNITY_ORDERS_PER_DAY
  by unfold_locales (auto simp: cap_defs isPool_def)

interpretation pool_restarts: window_cap "\<lambda>x. poolOrder x \<and> restartType x" HOUR MAX_POOL_RESTARTS_PER_HOUR
  by unfold_locales (use pool_restart_kinds in \<open>auto simp: cap_defs\<close>)

interpretation community_restarts: window_cap "\<lambda>x. communityOrder x \<and> restartType x" HOUR MAX_POOL_COMMUNITY_RESTARTS_PER_HOUR
  by unfold_locales (use pool_restart_kinds in \<open>auto simp: cap_defs isPool_def\<close>)

text \<open>A worker's own caps: of what restarts or replaces it, of re-checks, of drains.\<close>

lemma worker_cap:
  assumes "mayInsert i a d" "ofWorkerKinds w ks (newOrder i a)" "set ks \<subseteq> set (groupOf a)" "ia_kind a \<noteq> KResume"
  shows "countOrders (ofWorkerKinds w ks) (ia_now a - HOUR) d < capOf a"
proof -
  have "countOrders (ofWorkerKinds w ks) (ia_now a - HOUR) d \<le> countOrders (ofWorkerKinds (ia_worker a) (groupOf a)) (ia_now a - HOUR) d"
    by (rule countOrders_mono) (use assms(2,3) in \<open>auto simp: ofWorkerKinds_def\<close>)
  then show ?thesis using assms(1,4) by (simp add: mayInsert_def capsOk_def)
qed

lemma kind_name_in: "kind_name k \<in> set (map kind_name ks) \<longleftrightarrow> k \<in> set ks"
  by (metis (mono_tags, lifting) image_iff kind_name_inj list.set_map)

lemma worker_sort:
  assumes "KResume \<notin> set ks" "KStop \<notin> set ks" "\<And>a. ia_kind a \<in> set ks \<Longrightarrow> set ks \<subseteq> set (groupOf a) \<and> capOf a = cap"
  shows "window_cap (ofWorkerKinds w ks) HOUR cap"
proof
  show "ofWorkerKinds w ks y \<longleftrightarrow> ofWorkerKinds w ks x" if "order_evolves x y" for x y
    using evolves_fixed [OF that] by (simp add: ofWorkerKinds_def)
  show "\<not> ofWorkerKinds w ks x" if "fence_row x" for x
  proof
    assume "ofWorkerKinds w ks x"
    with that have "kind_name KStop \<in> set (map kind_name ks)" by (simp add: ofWorkerKinds_def fence_row_def)
    then show False unfolding kind_name_in using assms(2) by simp
  qed
  fix i a d assume m: "mayInsert i a d" and p: "ofWorkerKinds w ks (newOrder i a)"
  from p have k: "ia_kind a \<in> set ks" unfolding ofWorkerKinds_def newOrder_sel kind_name_in by blast
  with assms(1) have "ia_kind a \<noteq> KResume" by metis
  with worker_cap [OF m p] assms(3) [OF k] show "countOrders (ofWorkerKinds w ks) (ia_now a - HOUR) d < cap" by simp
qed

interpretation worker_restarts: window_cap "ofWorkerKinds w HOST_RESTART_GROUP" HOUR MAX_RESTARTS_PER_HOUR for w
  by (rule worker_sort) (auto simp: HOST_RESTART_GROUP_def RESTART_GROUP_def groupOf_def capOf_def)

interpretation worker_rechecks: window_cap "ofWorkerKinds w [KRecheck]" HOUR MAX_RECHECKS_PER_HOUR for w
  by (rule worker_sort) (auto simp: RESTART_GROUP_def groupOf_def capOf_def)

interpretation worker_drains: window_cap "ofWorkerKinds w [KDrain]" HOUR MAX_RESTARTS_PER_HOUR for w
  by (rule worker_sort) (auto simp: RESTART_GROUP_def groupOf_def capOf_def)

text \<open>C20. In every run, in every hour or day: the pool gave at most 60 orders a day and 10 restarts an hour, of them 40 and 6 for the community; a worker got at most 6
  orders an hour that restart or replace it (restart, restart of its agent service, update), 6 re-checks and 6 drains.\<close>

theorem order_caps:
  assumes "order_run strict h t"
  shows "issuedWithin poolOrder s DAY (hd h) \<le> 60 \<and> issuedWithin communityOrder s DAY (hd h) \<le> 40
    \<and> issuedWithin (\<lambda>x. poolOrder x \<and> restartType x) s HOUR (hd h) \<le> 10 \<and> issuedWithin (\<lambda>x. communityOrder x \<and> restartType x) s HOUR (hd h) \<le> 6
    \<and> issuedWithin (ofWorkerKinds w [KRestart, KRestartAgent, KUpdate]) s HOUR (hd h) \<le> 6
    \<and> issuedWithin (ofWorkerKinds w [KRecheck]) s HOUR (hd h) \<le> 6 \<and> issuedWithin (ofWorkerKinds w [KDrain]) s HOUR (hd h) \<le> 6"
proof -
  have g: "HOST_RESTART_GROUP = [KRestart, KRestartAgent, KUpdate]" by (simp add: HOST_RESTART_GROUP_def RESTART_GROUP_def)
  show ?thesis
    using pool_day.holds [OF assms, of s] community_day.holds [OF assms, of s] pool_restarts.holds [OF assms, of s] community_restarts.holds [OF assms, of s]
      worker_restarts.holds [OF assms, of w s, unfolded g] worker_rechecks.holds [OF assms, of w s] worker_drains.holds [OF assms, of w s]
    by (simp add: MAX_POOL_ORDERS_PER_DAY_def MAX_POOL_COMMUNITY_ORDERS_PER_DAY_def MAX_POOL_RESTARTS_PER_HOUR_def
        MAX_POOL_COMMUNITY_RESTARTS_PER_HOUR_def MAX_RESTARTS_PER_HOUR_def MAX_RECHECKS_PER_HOUR_def)
qed

theorem order_caps_witness:
  "issuedWithin (ofWorkerKinds ''w1'' [KRestart, KRestartAgent, KUpdate]) 8000000 HOUR ex_issued = 1
    \<and> issuedWithin (ofWorkerKinds ''w1'' [KRestart, KRestartAgent, KUpdate]) 8000000 HOUR ex_issued \<le> 6"
proof -
  have "issuedWithin (ofWorkerKinds ''w1'' [KRestart, KRestartAgent, KUpdate]) 8000000 HOUR ex_issued \<le> 6"
    using order_caps [OF ex_run(2) [of True], of 8000000 "''w1''"] by simp
  moreover have "issuedWithin (ofWorkerKinds ''w1'' [KRestart, KRestartAgent, KUpdate]) 8000000 HOUR ex_issued = 1" by code_simp
  ultimately show ?thesis by blast
qed

subsection \<open>The lists and the unique indexes\<close>

lemma evolves_openKey: "order_evolves x y \<Longrightarrow> openOrder y \<Longrightarrow> openOrder x \<and> openKey y = openKey x"
  using evolves_fixed [of x y] evolves_open [of x y] by (simp add: openKey_def)

lemma evolves_siteKeyed: "order_evolves x y \<Longrightarrow> siteKeyed y \<Longrightarrow> siteKeyed x \<and> o_site y = o_site x"
  using evolves_fixed [of x y] evolves_open [of x y] by (simp add: siteKeyed_def)

text \<open>An index over the open orders: the INSERT that would meet it is refused.\<close>

locale open_index =
  fixes P :: "order_row \<Rightarrow> bool" and k :: "order_row \<Rightarrow> 'k"
  assumes keeps: "order_evolves x y \<Longrightarrow> P y \<Longrightarrow> P x \<and> k y = k x"
    and opens: "P x \<Longrightarrow> openOrder x"
    and refuses: "mayInsert i a d \<Longrightarrow> P (newOrder i a) \<Longrightarrow> x \<in> set (d_orders d) \<Longrightarrow> P x \<Longrightarrow> k x \<noteq> k (newOrder i a)"
begin

lemma unique: "order_run strict h t \<Longrightarrow> distinct (open_keys_of P k (d_orders (hd h)))"
proof (induction rule: run_table_induct)
  case (Empty d)
  then show ?case by (simp add: open_keys_of_def)
next
  case (Step d d' new)
  show ?case
  proof (rule moved_keys [OF Step(2)])
    show "P x \<and> k y = k x" if "order_evolves x y" "P y" for x y using keeps that .
    from Step(3) consider i a where "new = [newOrder i a]" "mayInsert i a d" | "\<forall>x \<in> set new. fence_row x" unfolding admitted_def by blast
    then show "distinct (open_keys_of P k (new @ d_orders d))"
    proof cases
      case 1
      have "k (newOrder i a) \<notin> k ` set (filter P (d_orders d))" if "P (newOrder i a)"
      proof
        assume "k (newOrder i a) \<in> k ` set (filter P (d_orders d))"
        then obtain x where "x \<in> set (d_orders d)" "P x" "k x = k (newOrder i a)" by auto
        with refuses [OF 1(2) that] show False by blast
      qed
      then show ?thesis using Step(1) 1(1) by (simp add: open_keys_of_def)
    next
      case 2
      then have "filter P new = []" using opens by (auto simp: filter_empty_conv fence_row_def)
      then show ?thesis using Step(1) by (simp add: open_keys_of_def)
    qed
  qed
qed

end

interpretation open_orders: open_index openOrder openKey
  by unfold_locales (auto simp: mayInsert_def openTaken_def list_ex_iff dest: evolves_openKey)

interpretation open_sites: open_index siteKeyed o_site
  by unfold_locales (auto simp: mayInsert_def siteTaken_def list_ex_iff siteKeyed_def [of x for x] dest: evolves_siteKeyed)

text \<open>C21. In every run a worker's row lists exactly its open orders, as the table has them; no worker has two open orders of one kind for one task; and no
  site two open restarts of its agent service.\<close>

theorem open_orders_listed:
  assumes "order_run strict h t"
  shows "(\<forall>w \<in> set (d_workers (hd h)). w_open_orders w = map entryOfOrder (OPEN_ORDERS_SQL (w_id w) (hd h)))
    \<and> distinct (map (\<lambda>x. (o_worker x, o_kind x, nvl (o_task x) 0)) (filter openOrder (d_orders (hd h))))
    \<and> distinct (map o_site (filter (\<lambda>x. openOrder x \<and> o_kind x = ''restart-agent'' \<and> o_site x \<noteq> None) (d_orders (hd h))))"
  using run_history [OF assms] open_orders.unique [OF assms] open_sites.unique [OF assms]
  by (simp add: in_sync_but_def open_keys_of_def openKey_def [abs_def] siteKeyed_def [abs_def])

theorem open_orders_listed_witness:
  "map (map fst \<circ> w_open_orders) (d_workers ex_delivered) = [[''o_1'']]
    \<and> w_open_orders (hd (d_workers ex_delivered)) = map entryOfOrder (OPEN_ORDERS_SQL ''w1'' ex_delivered)"
proof -
  have w: "map w_id (d_workers ex_delivered) = [''w1'']" "map (map fst \<circ> w_open_orders) (d_workers ex_delivered) = [[''o_1'']]" by code_simp+
  then obtain w where "d_workers ex_delivered = [w]" "w_id w = ''w1''" by auto
  with open_orders_listed [OF ex_run(3) [of True]] w(2) show ?thesis by simp
qed

subsection \<open>One final line\<close>


definition ex_answer :: worker_answer where
  "ex_answer = \<lparr>wa_instance = Some ''p1'', wa_outcome = Some ''failed'', wa_code = None, wa_said = [], wa_service = None, wa_seconds = None\<rparr>"

definition ex_answered :: db where
  "ex_answered = snd (handleAnswerOrder ''w1'' None ''o_1'' ex_answer 9070000 (find (\<lambda>r. o_id r = ''o_1'') (d_orders ex_delivered)) ex_delivered)"


text \<open>Without it a line may be written twice: two sweeps that read the order while it waited, and close it at the same millisecond, both find what they wrote in its
  row. The line asks for the state and the time of the close, not for the close having happened.\<close>

definition ex_sweep :: "db \<Rightarrow> db" where
  "ex_sweep d = sweepPins 40000000 (sweepBatch 40000000 (sweepCloses 40000000 ex_issued ex_issued) d)"

theorem same_moment_two_lines:
  "order_run False [ex_sweep (ex_sweep ex_issued), ex_sweep ex_issued, ex_issued, ex_box_db] 40000000 \<and> finalLines ''o_1'' (ex_sweep (ex_sweep ex_issued)) = 2"
proof
  have one: "order_run False [ex_sweep ex_issued, ex_issued, ex_box_db] 40000000"
    unfolding ex_sweep_def by (rule order_run.Sweep [OF ex_run(2)]) (simp_all add: later_def)
  show "order_run False [ex_sweep (ex_sweep ex_issued), ex_sweep ex_issued, ex_issued, ex_box_db] 40000000"
    unfolding ex_sweep_def [of "ex_sweep ex_issued"] by (rule order_run.Sweep [OF one]) (simp_all add: later_def)
  show "finalLines ''o_1'' (ex_sweep (ex_sweep ex_issued)) = 2" by code_simp
qed

end
