(* ===== verification/Order_Ends.thy ===== *)
theory Order_Ends
  imports Order_Runs
begin

text \<open>
  How orders begin and end: who may give one and who may end a drain, that the sweep leaves nothing overdue, and that a claim gives back
  every task a stop fenced.
\<close>

subsection \<open>Who may give one\<close>

lemma firstGate_None: "firstGate c w = None \<Longrightarrow> \<exists>p. c = Some p \<and> ow_revoked_at w = None \<and> (snd p \<or> ow_owner w = Some (fst p))"
  by (cases c; cases "ow_revoked_at w"; auto simp: firstGate_def noIf_def ownsWorker_def split: if_splits)

lemma firstGate_May: "firstGate c w = Some v \<Longrightarrow> v \<noteq> May"
  by (auto simp: firstGate_def noIf_def split: option.splits if_splits)

lemma verdict_gate: "orderVerdicts c w f policy r = May \<Longrightarrow> firstGate c w = None"
  using firstGate_May [of c w May] by (cases "firstGate c w"; cases r) (simp_all add: orderVerdicts_def kindVerdict_def)

lemma orderWorkerOf_sel [simp]: "ow_id (orderWorkerOf d w) = w_id w" "ow_owner (orderWorkerOf d w) = w_owner w" "ow_revoked_at (orderWorkerOf d w) = w_revoked_at w"
  by (simp_all add: orderWorkerOf_def Let_def)

lemma WORKER_ROW_Some: "WORKER_ROW_SQL i d = Some (w, ow) \<Longrightarrow> w \<in> set (d_workers d) \<and> w_id w = i \<and> ow = orderWorkerOf d w"
  by (auto simp: WORKER_ROW_SQL_def workerOf_def find_Some_iff)

lemma askOf_sel [simp]: "ia_worker (askOf c rq kind reason w held now line) = w_id w" "ia_by (askOf c rq kind reason w held now line) = fst c"
  "ia_now (askOf c rq kind reason w held now line) = now" "ia_kind (askOf c rq kind reason w held now line) = kind"
  by (simp_all add: askOf_def)

lemma capRefusal_orders: "d_orders (snd (capRefusal isoText worker kind who now host pool d)) = d_orders d"
  by (simp add: capRefusal_def capLine_def Let_def)

lemma refusedIssue_orders: "d_orders (snd (refusedIssue isoText why a pool d)) = d_orders d"
  by (auto simp: refusedIssue_def Let_def case_prod_unfold capRefusal_orders split: option.splits)

lemma issue_refused: "fst (issueOrder i a d) = Inl why \<Longrightarrow> d_orders (snd (issueOrder i a d)) = d_orders d"
  by (auto simp: issueOrder_def Let_def split: if_splits)

lemma issued_row:
  assumes "issueOrder i a d = (Inr out, d')"
  shows "fst out = i \<and> i \<notin> o_id ` set (d_orders d)
    \<and> (\<exists>x \<in> set (d_orders d'). o_id x = i \<and> o_worker x = ia_worker a \<and> o_issued_by x = ia_by a \<and> o_issued_at x = ia_now a)"
proof -
  have may: "mayInsert i a d" using issueOrder_cases(3) [of i a d out] assms by simp
  have m: "table_moves UNIV (newOrder i a # d_orders d) (d_orders d')" using issue_step [of a i d] may assms by (simp add: insert_ok_def)
  from table_row' [OF m, of "newOrder i a"] obtain x where "x \<in> set (d_orders d')" "order_evolves (newOrder i a) x" by (auto simp: row_moves_def)
  moreover have "fst out = i" using assms by (auto simp: issueOrder_def Let_def split: if_splits)
  ultimately show ?thesis using may evolves_fixed [of "newOrder i a" x] by (auto simp: mayInsert_def)
qed

lemma order_door_cases:
  assumes "handleIssueOrder isoText newId line c i rq now pool policy d = (res, d')"
  shows "case res of
      Inl _ \<Rightarrow> d_orders d' = d_orders d
    | Inr out \<Rightarrow> fst out = newId \<and> newId \<notin> o_id ` set (d_orders d) \<and> writeGate rq True
        \<and> (\<exists>w \<in> set (d_workers d). w_id w = i \<and> w_revoked_at w = None \<and> (snd c \<or> w_owner w = Some (fst c)))
        \<and> (\<exists>x \<in> set (d_orders d'). o_id x = newId \<and> o_worker x = i \<and> o_issued_by x = fst c \<and> o_issued_at x = now)"
proof (cases "writeGate rq True \<and> rq_body rq \<noteq> None \<and> Option.bind (jstr (jfield (rq_body rq) ''kind'')) kind_of \<noteq> None \<and> WORKER_ROW_SQL i d \<noteq> None")
  case False
  then show ?thesis using assms by (auto simp: handleIssueOrder_def split: if_splits option.splits)
next
  case True
  then obtain kind w ow where k: "Option.bind (jstr (jfield (rq_body rq) ''kind'')) kind_of = Some kind" and row: "WORKER_ROW_SQL i d = Some (w, ow)" by auto
  define held where "held = (if kind = KStop then heldTask w (rq_task rq) d else None)"
  define f where "f = (orderFacts (w_id w) (Some (fst c)) now (ow_host ow) pool d)\<lparr>of_task := held\<rparr>"
  note h = assms [unfolded handleIssueOrder_def k row option.case prod.case Let_def held_def [symmetric] f_def [symmetric]]
  show ?thesis
  proof (cases "orderVerdicts (Some c) ow f policy (rightOfKind kind)")
    case (MayNot status why)
    with h True show ?thesis
      using capRefusal_orders [of isoText "w_id w" kind "fst c" now "ow_host ow" pool d]
      by (auto simp: case_prod_unfold split: if_splits)
  next
    case May
    from firstGate_None [OF verdict_gate [OF May]] WORKER_ROW_Some [OF row]
    have w: "w \<in> set (d_workers d)" "w_id w = i" "w_revoked_at w = None" "snd c \<or> w_owner w = Some (fst c)" by auto
    show ?thesis
    proof (cases res)
      case (Inl e)
      have "d_orders d' = d_orders d"
        using h True May Inl issue_refused
        by (auto simp: case_prod_unfold refusedIssue_orders split: if_splits option.splits sum.splits)
      then show ?thesis using Inl by simp
    next
      case (Inr out)
      with h True May obtain reason where "issueOrder newId (askOf c rq kind reason w held now line) d = (Inr out, d')"
        by (auto simp: case_prod_unfold prod_eq_iff split: if_splits option.splits sum.splits)
      from issued_row [OF this] w True Inr show ?thesis by auto
    qed
  qed
qed

text \<open>An order given at the door is in the table with the giver's name and the time, and was given from the pool's own page or with JSON by the owner of a worker that is not
  revoked, or by a maintainer; one refused leaves the orders as they are.\<close>

theorem order_door:
  "case handleIssueOrder isoText newId line c i rq now pool policy d of
      (Inl _, d') \<Rightarrow> d_orders d' = d_orders d
    | (Inr out, d') \<Rightarrow> fst out = newId \<and> newId \<notin> o_id ` set (d_orders d) \<and> writeGate rq True
        \<and> (\<exists>w \<in> set (d_workers d). w_id w = i \<and> w_revoked_at w = None \<and> (snd c \<or> w_owner w = Some (fst c)))
        \<and> (\<exists>x \<in> set (d_orders d'). o_id x = newId \<and> o_worker x = i \<and> o_issued_by x = fst c \<and> o_issued_at x = now)"
  using order_door_cases [of isoText newId line c i rq now pool policy d] by (simp split: prod.split sum.split)

subsection \<open>Who may end a drain\<close>

text \<open>Who may resume a drained worker, exactly: on a host its owner, or the maintainer who drained it; on a project worker any maintainer, and its
  owner who is none only their own drain; on any other its owner, and a maintainer unless the owner drained it.\<close>

theorem resume_rights:
  "orderVerdicts (Some c) w f policy RtResume = May \<longleftrightarrow>
     ow_revoked_at w = None \<and> ow_drained_at w \<noteq> None \<and> (snd c \<or> ow_owner w = Some (fst c))
     \<and> (if ow_host w then ow_owner w = Some (fst c) \<or> ow_drained_by w = Some (fst c)
        else if ow_trust w = ''project'' then snd c \<or> ow_drained_by w = Some (fst c)
        else if ow_drained_by w = ow_owner w then ow_owner w = None \<or> ow_owner w = Some (fst c) else True)"
proof (cases "firstGate (Some c) w")
  case (Some v)
  then have "\<not> (ow_revoked_at w = None \<and> (snd c \<or> ow_owner w = Some (fst c)))" by (auto simp: firstGate_def noIf_def ownsWorker_def)
  then show ?thesis using Some firstGate_May [OF Some] by (auto simp: orderVerdicts_def kindVerdict_def)
next
  case None
  then have "ow_revoked_at w = None" "snd c \<or> ow_owner w = Some (fst c)" using firstGate_None by blast+
  then show ?thesis using None by (auto simp: orderVerdicts_def kindVerdict_def resumeVerdict_def ownsWorker_def)
qed

subsection \<open>The sweep leaves nothing overdue\<close>

text \<open>A close of the sweep closes the row it read, and leaves every other as it is or closed.\<close>

definition closed_or_same :: "(order_row \<times> order_state \<times> order_detail) list \<Rightarrow> order_row \<Rightarrow> order_row \<Rightarrow> bool" where
  "closed_or_same cs x y \<longleftrightarrow> (y = x \<or> \<not> openOrder y) \<and> (x \<in> fst ` set cs \<longrightarrow> \<not> openOrder y)"

lemma sweepClose_swept:
  assumes "closable c"
  shows "list_all2 (closed_or_same [c]) (d_orders d) (d_orders (sweepClose now c d))"
proof -
  obtain r s det where c: "c = (r, s, det)" by (cases c)
  with assms have "\<not> openOrder (poolCloses s now det x)" for x by (auto simp: closable_def poolCloses_def openOrder_def)
  then have "closed_or_same [c] x (if o_id x = o_id r \<and> o_state x = o_state r then poolCloses s now det x else x)" for x
    by (cases "x = r") (auto simp: closed_or_same_def c)
  then show ?thesis by (simp add: c sweepClose_closing sql_update_def list.rel_map list.rel_refl)
qed

lemma sweep_swept: "\<forall>c \<in> set cs. closable c \<Longrightarrow> list_all2 (closed_or_same cs) (d_orders d) (d_orders (fold (sweepClose now) cs d))"
proof (induction cs arbitrary: d)
  case Nil
  then show ?case by (simp add: closed_or_same_def list.rel_refl)
next
  case (Cons c cs)
  have "list_all2 (closed_or_same [c]) (d_orders d) (d_orders (sweepClose now c d))" using sweepClose_swept Cons.prems by simp
  moreover have "list_all2 (closed_or_same cs) (d_orders (sweepClose now c d)) (d_orders (fold (sweepClose now) cs (sweepClose now c d)))"
    using Cons by simp
  moreover have "closed_or_same (c # cs) x z" if "closed_or_same [c] x y" "closed_or_same cs y z" for x y z using that by (auto simp: closed_or_same_def)
  ultimately show ?case using list_all2_trans [where ?P1.0 = "closed_or_same [c]" and ?P2.0 = "closed_or_same cs" and ?P3.0 = "closed_or_same (c # cs)"] by fastforce
qed

lemma sweep_frames:
  "d_orders (sweepPins now d) = d_orders d" "d_tasks (sweepBatch now cs d) = d_tasks d" "d_orders (sweepBatch now cs d) = d_orders (fold (sweepClose now) cs d)"
proof -
  show "d_orders (sweepPins now d) = d_orders d" using quiet_sweepPins by (simp add: orders_quiet_def)
  have "d_tasks (fold REFRESH_OPEN_SQL ws y) = d_tasks y" for ws y by (induction ws arbitrary: y) simp_all
  moreover have "d_tasks (fold (sweepClose now) cs y) = d_tasks y" for y
    by (induction cs arbitrary: y) (auto simp: sweepClose_def closeOrder_def Let_def split: prod.splits)
  ultimately show "d_tasks (sweepBatch now cs d) = d_tasks d" by (simp add: sweepBatch_def)
  show "d_orders (sweepBatch now cs d) = d_orders (fold (sweepClose now) cs d)" by (simp add: sweepBatch_def)
qed

lemma fold_keeps: "(\<And>c y. g (h c y) = g y) \<Longrightarrow> g (fold h cs y) = g y"
  by (induction cs arbitrary: y) simp_all

text \<open>The pins the sweep takes away are of queued tasks: what a stop fences is as it was.\<close>

lemma sweepPins_fences: "list_ex (fences x) (d_tasks (sweepPins now d)) \<longleftrightarrow> list_ex (fences x) (d_tasks d)"
proof -
  have one: "list_ex (fences x) (d_tasks (UNPIN_DRAINED_SQL w now y)) \<longleftrightarrow> list_ex (fences x) (d_tasks y)" for w y
  proof -
    have "fences x (t\<lparr>t_pinned_to := p, t_params := q\<rparr>) \<longleftrightarrow> fences x t" for t p q by (simp add: fences_def)
    then have "list_ex (fences x) (sql_update P (\<lambda>t. t\<lparr>t_pinned_to := p, t_params := q t\<rparr>) ts) \<longleftrightarrow> list_ex (fences x) ts" for P p q ts
      by (induction ts) simp_all
    then show ?thesis by (simp add: UNPIN_DRAINED_SQL_def)
  qed
  show ?thesis
    unfolding sweepPins_def by (rule fold_keeps [where g = "\<lambda>y. list_ex (fences x) (d_tasks y)"]) (simp only: case_prod_unfold add_event_orders one)
qed


subsection \<open>A stop gives its task back\<close>

lemma requeued_tasks: "t \<in> set (d_tasks (snd (takeStop x now taskOf r d))) \<Longrightarrow> t \<in> set (d_tasks d) \<or> t_stop_order t = None"
  by (auto simp: takeStop_def Let_def finalLine_def REQUEUE_SQL_def update_tasks_def set_sql_update requeueSet_def case_prod_unfold split: option.splits if_splits)

text \<open>The task as it was read, fenced by this stop and not listed by the claim, is not left as it is.\<close>

lemma takeStop_returns:
  assumes "o_task r = Some (t_id t)" "taskOf (t_id t) = Some t" "fencedBy x r t" "\<not> stillListed x t"
  shows "t \<notin> set (d_tasks (snd (takeStop x now taskOf r d)))"
proof -
  have g: "requeueGuard (t_id t) (ac_worker x) (Some (o_id r)) None t" using assms(3) by (simp add: requeueGuard_def fencedBy_def)
  have s: "t_stop_order t \<noteq> None" using assms(3) by (simp add: fencedBy_def)
  have "t \<notin> set (sql_update (requeueGuard (t_id t) (ac_worker x) (Some (o_id r)) None) (requeueSet now err) (d_tasks d))" for err
    using g s by (auto simp: set_sql_update requeueSet_def Let_def)
  then show ?thesis using assms by (simp add: takeStop_def Let_def finalLine_def REQUEUE_SQL_def update_tasks_def case_prod_unfold)
qed

lemma takeStops_returns:
  assumes "r \<in> set rs" "o_task r = Some (t_id t)" "taskOf (t_id t) = Some t" "fencedBy x r t" "\<not> stillListed x t"
  shows "t \<notin> set (d_tasks (snd (takeStops x now taskOf rs d)))"
  using assms(1)
proof (induction rs arbitrary: d)
  case (Cons q rs)
  let ?d1 = "snd (takeStop x now taskOf q d)"
  have s: "t_stop_order t \<noteq> None" using assms(4) by (simp add: fencedBy_def)
  have later: "t \<notin> set (d_tasks (snd (takeStops x now taskOf ps y)))" if "t \<notin> set (d_tasks y)" for ps y
    using that
  proof (induction ps arbitrary: y)
    case (Cons p ps)
    have "t \<notin> set (d_tasks (snd (takeStop x now taskOf p y)))" using requeued_tasks [of t x now taskOf p y] Cons.prems s by blast
    from Cons.IH [OF this] show ?case by (simp add: Let_def case_prod_unfold)
  qed simp
  have "snd (takeStops x now taskOf (q # rs) d) = snd (takeStops x now taskOf rs ?d1)" by (simp add: Let_def case_prod_unfold)
  then show ?case using Cons takeStop_returns [where taskOf = taskOf, OF assms(2-5)] later [of ?d1 rs] by (cases "q = r") auto
qed simp

lemma takeStops_tasks: "t \<in> set (d_tasks (snd (takeStops x now taskOf rs d))) \<Longrightarrow> t \<in> set (d_tasks d) \<or> t_stop_order t = None"
proof (induction rs arbitrary: d)
  case (Cons q rs)
  then show ?case using requeued_tasks [of t x now taskOf q d] by (fastforce simp: Let_def case_prod_unfold)
qed simp

lemma deliverAll_tasks: "d_tasks (snd (deliverAll x now rs d)) = d_tasks d"
  by (induction rs arbitrary: d) (simp_all add: Let_def case_prod_unfold deliverOne_def)

lemma closes_tasks: "d_tasks (fold (closeWithLine now) cs d) = d_tasks d"
  by (rule fold_keeps) (simp add: closeWithLine_def finalLine_def closeOrder_def case_prod_unfold)

lemma row_of_member: "t \<in> set (d_tasks d) \<Longrightarrow> distinct (map t_id (d_tasks d)) \<Longrightarrow> row_of (t_id t) d = Some t"
proof -
  have "t \<in> set ts \<Longrightarrow> distinct (map t_id ts) \<Longrightarrow> find (\<lambda>u. t_id u = t_id t) ts = Some t" for ts by (induction ts) auto
  then show "t \<in> set (d_tasks d) \<Longrightarrow> distinct (map t_id (d_tasks d)) \<Longrightarrow> row_of (t_id t) d = Some t" by (simp add: row_of_def)
qed

text \<open>C23. After a worker's claim that shows no conflict, no task it held stays under the fence of a stop that waited: it went back to the queue, or failed for good
  after its last attempt; only a task the claim still lists as held keeps the fence, until the host says it is down.\<close>

theorem stop_returns_task:
  assumes "distinct (map t_id (d_tasks d))" "ac_open x" "\<not> ac_conflict x"
    "r \<in> set (d_orders d)" "o_worker r = ac_worker x" "o_state r = OPending" "o_kind r = ''stop-task''"
    "t \<in> set (d_tasks (snd (takeOrdersNow x now pool policy d)))" "o_task r = Some (t_id t)"
  shows "\<not> (t_status t = Leased \<and> t_lease_owner t = Some (ac_worker x) \<and> t_stop_order t = Some (o_id r)) \<or> stillListed x t"
proof (rule ccontr)
  assume "\<not> ?thesis"
  then have f: "fencedBy x r t" "\<not> stillListed x t" "t_stop_order t \<noteq> None" by (auto simp: fencedBy_def)
  define rows where "rows = OPEN_ORDERS_SQL (ac_worker x) d"
  define rel where "rel = runsRelease (ac_version x) pool now policy"
  have r: "r \<in> set rows" using assms(4-6) by (simp add: rows_def OPEN_ORDERS_SQL_def openOrder_def)
  have "kind_of ''stop-task'' = Some KStop" by code_simp
  then have stop: "r \<in> set (planStops x now rel rows)"
    using r assms(3,6,7) by (simp add: planStops_def planOf_def planPending_def)
  have task: "d_tasks (snd (takeOrders x now rel rows taskOf d)) = d_tasks (snd (takeStops x now taskOf (planStops x now rel rows)
      (fold (closeWithLine now) (planCloses x now rel rows) d)))" for taskOf
  proof -
    have after: "d_tasks (fold (\<lambda>(t, failed, err). afterRequeue (t\<lparr>t_lease_owner := Some (ac_worker x)\<rparr>) failed err True) bk y) = d_tasks y" for bk y
      by (rule fold_keeps) (simp add: case_prod_unfold afterRequeue_frame)
    show ?thesis using stop assms(2) by (auto simp: takeOrders_def Let_def case_prod_unfold after [unfolded case_prod_unfold] deliverAll_tasks)
  qed
  have t: "t \<in> set (d_tasks (snd (takeStops x now (\<lambda>i. row_of i d) (planStops x now rel rows) (fold (closeWithLine now) (planCloses x now rel rows) d))))"
    using assms(8) unfolding takeOrdersNow_def rel_def [symmetric] rows_def [symmetric] task .
  then have "t \<in> set (d_tasks d)" using takeStops_tasks f(3) closes_tasks by metis
  then have "row_of (t_id t) d = Some t" using assms(1) by (rule row_of_member)
  from takeStops_returns [where taskOf = "\<lambda>i. row_of i d", OF stop assms(9) this f(1,2)] t show False by blast
qed

definition ex_stop_ask :: issue_ask where
  "ex_stop_ask = \<lparr>ia_worker = ''h1'', ia_kind = KStop, ia_reason = ''runs too long'', ia_by = ''ann'', ia_via = Some ''web'', ia_rule = None, ia_unless = False,
     ia_site = None, ia_baseline = None, ia_auto = None, ia_deliver = None, ia_task = Some 1, ia_host = True, ia_resumed = None, ia_now = 9000000,
     ia_line = ''stop''\<rparr>"

definition ex_stopped :: db where
  "ex_stopped = snd (issueOrder ''o_9'' ex_stop_ask ex_leased)"

definition ex_stop_claim :: after_claim where
  "ex_stop_claim = \<lparr>ac_worker = ''h1'', ac_open = True, ac_takes = Some [''stop-task''], ac_via = None, ac_version = None, ac_instance = Some ''p1'',
     ac_instance_since = Some 0, ac_conflict = False, ac_status = None, ac_checked_at = None, ac_listed = Some []\<rparr>"

definition ex_given_back :: db where
  "ex_given_back = snd (takeOrdersNow ex_stop_claim 9060000 \<lparr>pv_version = ''v1.0.8'', pv_deployed_at = None\<rparr> \<lparr>pol_min_release = [], pol_revoked = []\<rparr> ex_stopped)"

theorem stop_returns_task_witness:
  "map t_stop_order (d_tasks ex_stopped) = [Some ''o_9''] \<and> map (\<lambda>t. (t_status t, t_stop_order t)) (d_tasks ex_given_back) = [(Queued, None)]
    \<and> \<not> (t_status (hd (d_tasks ex_given_back)) = Leased \<and> t_stop_order (hd (d_tasks ex_given_back)) = Some ''o_9'')"
proof -
  have tasks: "map t_id (d_tasks ex_stopped) = [1]" "map t_stop_order (d_tasks ex_stopped) = [Some ''o_9'']"
    "map t_id (d_tasks ex_given_back) = [1]" "map (\<lambda>t. (t_status t, t_stop_order t)) (d_tasks ex_given_back) = [(Queued, None)]"
    "map (\<lambda>t. t_lease_owner t) (d_tasks ex_given_back) = [None]"
    "map (\<lambda>x. (o_id x, o_worker x, o_state x, o_kind x, o_task x)) (d_orders ex_stopped) = [(''o_9'', ''h1'', OPending, ''stop-task'', Some 1)]" by code_simp+
  obtain r where r: "d_orders ex_stopped = [r]" "o_id r = ''o_9''" "o_worker r = ''h1''" "o_state r = OPending" "o_kind r = ''stop-task''" "o_task r = Some 1" using tasks(6) by auto
  obtain t where t: "d_tasks ex_given_back = [t]" "t_id t = 1" using tasks(3) by auto
  have c: "ac_open ex_stop_claim" "\<not> ac_conflict ex_stop_claim" "ac_worker ex_stop_claim = ''h1''" "\<not> stillListed ex_stop_claim t"
    by (simp_all add: ex_stop_claim_def stillListed_def)
  have "distinct (map t_id (d_tasks ex_stopped))" "t \<in> set (d_tasks (snd (takeOrdersNow ex_stop_claim 9060000 \<lparr>pv_version = ''v1.0.8'', pv_deployed_at = None\<rparr> \<lparr>pol_min_release = [], pol_revoked = []\<rparr> ex_stopped)))"
    using tasks(1) t(1) unfolding ex_given_back_def by simp_all
  from stop_returns_task [OF this(1) c(1,2), of r t] this(2) c(3,4) r t(2) tasks(5)
  have "\<not> (t_status t = Leased \<and> t_lease_owner t = Some ''h1'' \<and> t_stop_order t = Some ''o_9'')" by simp
  then show ?thesis using tasks(2,4) t(1) by simp
qed

end
