(* ===== verification/Review_Rules.thy ===== *)
theory Review_Rules
  imports Targets
begin

text \<open>
  What a maintainer may decide on a package's builds (worker/src/routes/review.ts, routes/story.ts): the chains of a package's story, the
  facts one of its rows is weighed by (\<open>packageFacts\<close>), the seven verdicts (\<open>decisions\<close>), the solo-maintainer exception and the
  package's place in Review's queue. The theorems: nobody decides on a package they brought but under the exception, an approval covers
  every architecture the request names, and the row that speaks for a package is one that waits for a maintainer.
\<close>

subsection \<open>A package's story, as chains\<close>

definition stands :: "decision \<Rightarrow> bool" where
  "stands a \<longleftrightarrow> a_approved a \<and> a_withdrawn_at a = None"

record chain =
  ch_contributor :: "task option"
  ch_project :: "task option"
  ch_audit :: "task option"
  ch_project_audit :: "task option"
  ch_trial :: "task option"
  ch_publish :: "task option"
  ch_approval :: "decision option"
  ch_withdrawn :: "decision option"

text \<open>A number under a key of a task's other params.\<close>

definition paramIs :: "string \<Rightarrow> int \<Rightarrow> task \<Rightarrow> bool" where
  "paramIs key i t \<longleftrightarrow> map_of (t_params t) key = Some (JNum (of_int i))"

definition ofTask :: "task list \<Rightarrow> string \<Rightarrow> int \<Rightarrow> task option" where
  "ofTask tasks kind i = find (\<lambda>t. t_kind t = kind \<and> paramIs ''task'' i t) tasks"

definition idsOf :: "task option \<Rightarrow> int list" where
  "idsOf t = (case t of Some x \<Rightarrow> [t_id x] | None \<Rightarrow> [])"

definition onBuilds :: "int list \<Rightarrow> decision \<Rightarrow> bool" where
  "onBuilds ids a \<longleftrightarrow> a_task_id a \<in> set ids \<or> (case a_rebuild_task a of Some r \<Rightarrow> r \<in> set ids | None \<Rightarrow> False)"

definition orElse :: "'a option \<Rightarrow> 'a option \<Rightarrow> 'a option" where
  "orElse a b = (case a of Some _ \<Rightarrow> a | None \<Rightarrow> b)"

text \<open>The chain of a contributor's build and the project's build of it; its decision is the approval that stands, whatever was written
  beside it.\<close>

definition makeChain :: "task list \<Rightarrow> decision list \<Rightarrow> task option \<Rightarrow> task option \<Rightarrow> chain" where
  "makeChain tasks approvals contributor project =
     (let tid = (\<lambda>kind x. Option.bind x (\<lambda>t. ofTask tasks kind (t_id t)));
          mine = filter (onBuilds (idsOf contributor @ idsOf project)) approvals
      in \<lparr>ch_contributor = contributor, ch_project = project, ch_audit = tid ''audit'' contributor, ch_project_audit = tid ''audit'' project,
          ch_trial = tid ''trial'' project, ch_publish = tid ''publish'' (if project = None then contributor else project),
          ch_approval = orElse (find stands mine) (find (\<lambda>a. a_withdrawn_at a = None) mine),
          ch_withdrawn = find (\<lambda>a. a_withdrawn_at a \<noteq> None) mine\<rparr>)"

definition rebuildOf :: "task list \<Rightarrow> task \<Rightarrow> task option" where
  "rebuildOf projects c = find (\<lambda>x. t_review x = Some (t_id c)) projects"

definition chains :: "task list \<Rightarrow> decision list \<Rightarrow> chain list" where
  "chains tasks approvals =
     (let builds = filter (\<lambda>t. t_kind t = ''build'') tasks;
          contributors = filter (\<lambda>t. t_trust t = ''community'') builds;
          projects = filter (\<lambda>t. t_trust t = ''project'') builds;
          used = concat (map (\<lambda>c. idsOf (rebuildOf projects c)) contributors)
      in map (\<lambda>c. makeChain tasks approvals (Some c) (rebuildOf projects c)) contributors
         @ map (\<lambda>p. makeChain tasks approvals None (Some p)) (filter (\<lambda>p. t_id p \<notin> set used) projects))"

definition chainTasks :: "chain \<Rightarrow> int list" where
  "chainTasks ch = concat (map idsOf [ch_contributor ch, ch_project ch, ch_audit ch, ch_project_audit ch, ch_trial ch, ch_publish ch])"

definition chainOf :: "chain list \<Rightarrow> int \<Rightarrow> chain option" where
  "chainOf cs i = find (\<lambda>ch. i \<in> set (chainTasks ch)) cs"

text \<open>What a story is made of: the name's newest 120 tasks of four kinds, its newest 40 decisions.\<close>

definition storyTasks :: "db \<Rightarrow> string \<Rightarrow> task list" where
  "storyTasks d name = take 120 (sort_key (\<lambda>t. - t_id t)
     (filter (\<lambda>t. t_name t = name \<and> t_kind t \<in> {''build'', ''audit'', ''trial'', ''publish''}) (d_tasks d)))"

definition storyApprovals :: "db \<Rightarrow> string \<Rightarrow> decision list" where
  "storyApprovals d name = take 40 (sort_key (\<lambda>a. - a_id a) (filter (\<lambda>a. a_name a = name) (d_decisions d)))"

definition storyChains :: "db \<Rightarrow> string \<Rightarrow> chain list" where
  "storyChains d name = chains (storyTasks d name) (storyApprovals d name)"

definition standingApproval :: "db \<Rightarrow> string \<Rightarrow> int \<Rightarrow> decision option" where
  "standingApproval d name i = (case chainOf (storyChains d name) i of
     None \<Rightarrow> None
   | Some ch \<Rightarrow> (case ch_approval ch of Some a \<Rightarrow> if stands a then Some a else None | None \<Rightarrow> None))"

subsection \<open>The package's builds, as a decision reads them\<close>

record staged_build =
  sb_id :: int
  sb_arch :: arch
  sb_version :: "string option"

record rebuild =
  rb_id :: int
  rb_arch :: arch
  rb_status :: task_status
  rb_review :: int

record package_builds =
  pb_building :: "(int \<times> arch) list"
  pb_staged :: "staged_build list"
  pb_project :: "rebuild list"

record package_facts =
  pf_building :: "(int \<times> arch) option"
  pf_rebuilding :: "rebuild option"
  pf_unbuilt :: "staged_build option"
  pf_superseded :: "(arch \<times> int option \<times> target_state) option"
  pf_missing :: "(arch \<times> target_state \<times> int option \<times> string option) option"
  pf_alone :: "arch list"

type_synonym served = "arch \<times> string option"

definition servedOf :: "decision list \<Rightarrow> served list" where
  "servedOf decisions = map (\<lambda>a. (a_arch a, a_version a)) (filter stands decisions)"

definition namedOf :: "arch list \<Rightarrow> arch list" where
  "namedOf arches = filter (\<lambda>x. x \<in> set arches) REPO_ARCHES"

definition reviewedFrom :: "target option \<Rightarrow> package_builds \<Rightarrow> int option" where
  "reviewedFrom x p = (case x of None \<Rightarrow> None | Some tg \<Rightarrow> (case tg_task tg of
     None \<Rightarrow> None
   | Some k \<Rightarrow>
       if tg_status tg = Built then Some k
       else if tg_status tg \<in> {Reviewing, Reviewed, NotSupported} then map_option rb_review (find (\<lambda>b. rb_id b = k) (pb_project p))
       else None))"

definition standingBuild :: "package_builds \<Rightarrow> targets \<Rightarrow> arch \<Rightarrow> staged_build option" where
  "standingBuild p tgs a = Option.bind (reviewedFrom (map_of tgs a) p) (\<lambda>from. find (\<lambda>s. sb_id s = from) (pb_staged p))"

definition othersOf :: "arch \<Rightarrow> string option \<Rightarrow> package_builds \<Rightarrow> targets \<Rightarrow> staged_build list" where
  "othersOf ar version p tgs =
     filter (\<lambda>s. sb_version s = version) (List.map_filter (standingBuild p tgs) (filter (\<lambda>a. a \<noteq> ar) REPO_ARCHES))"

definition shippedAt :: "string option \<Rightarrow> served list \<Rightarrow> arch \<Rightarrow> bool" where
  "shippedAt version srv a \<longleftrightarrow> version \<noteq> None \<and> list_ex (\<lambda>s. fst s = a \<and> snd s = version) srv"

definition rebuiltIn :: "task_status list \<Rightarrow> package_builds \<Rightarrow> staged_build \<Rightarrow> bool" where
  "rebuiltIn sts p s \<longleftrightarrow> list_ex (\<lambda>b. rb_review b = sb_id s \<and> rb_status b \<in> set sts) (pb_project p)"

text \<open>A row a decision is asked on: its id, architecture, trust and version.\<close>

record reviewed_row =
  rr_id :: int
  rr_arch :: arch
  rr_trust :: string
  rr_version :: "string option"

definition coveredArches :: "reviewed_row \<Rightarrow> package_builds \<Rightarrow> targets \<Rightarrow> arch list \<Rightarrow> served list \<Rightarrow> arch list" where
  "coveredArches t p tgs named srv = rr_arch t
     # map sb_arch (filter (rebuiltIn [Staged] p) (othersOf (rr_arch t) (rr_version t) p tgs))
     @ filter (shippedAt (rr_version t) srv) named"

definition packageFacts :: "reviewed_row \<Rightarrow> package_builds \<Rightarrow> targets \<Rightarrow> arch list \<Rightarrow> served list \<Rightarrow> package_facts" where
  "packageFacts t p tgs named srv =
     (let own = map_of tgs (rr_arch t);
          current = (case own of
              None \<Rightarrow> True
            | Some tg \<Rightarrow> if rr_trust t = ''project'' then tg_task tg = Some (rr_id t) else reviewedFrom own p = Some (rr_id t));
          left = find (\<lambda>a. a \<notin> set (coveredArches t p tgs named srv)) named
      in \<lparr>pf_building = find (\<lambda>b. fst b \<noteq> rr_id t) (pb_building p),
          pf_rebuilding = find (\<lambda>b. rb_id b \<noteq> rr_id t \<and> rb_status b \<in> {Queued, Leased}) (pb_project p),
          pf_unbuilt = find (\<lambda>s. \<not> rebuiltIn [Queued, Leased, Staged, Failed] p s) (othersOf (rr_arch t) (rr_version t) p tgs),
          pf_superseded = (if current then None else map_option (\<lambda>tg. (rr_arch t, tg_task tg, tg_status tg)) own),
          pf_missing = map_option (\<lambda>a. (a, case map_of tgs a of Some tg \<Rightarrow> tg_status tg | None \<Rightarrow> TWaiting,
              Option.bind (map_of tgs a) tg_task, Option.bind (find (\<lambda>s. fst s = a) srv) snd)) left,
          pf_alone = filter (\<lambda>a. a \<noteq> rr_arch t \<and> \<not> shippedAt (rr_version t) srv a) named\<rparr>)"

definition standsOnTask :: "decision list \<Rightarrow> int \<Rightarrow> bool" where
  "standsOnTask decisions i \<longleftrightarrow> list_ex (\<lambda>a. stands a \<and> a_task_id a = i) decisions"

definition undecidedBuild :: "target_build list \<Rightarrow> decision list \<Rightarrow> int \<Rightarrow> bool" where
  "undecidedBuild builds decisions i \<longleftrightarrow> \<not> standsOnTask decisions i
     \<and> \<not> list_ex (\<lambda>r. tb_trust r = ''project'' \<and> tb_review r = Some i \<and> standsOnTask decisions (tb_id r)) builds"

definition buildsOfPackage :: "target_build list \<Rightarrow> decision list \<Rightarrow> package_builds" where
  "buildsOfPackage builds decisions =
     (let newest = sort_key (\<lambda>b. - tb_id b) builds
      in \<lparr>pb_building = map (\<lambda>b. (tb_id b, tb_arch b)) (filter (\<lambda>b. tb_trust b = ''community'' \<and> tb_status b \<in> {Queued, Leased}) newest),
          pb_staged = map (\<lambda>b. \<lparr>sb_id = tb_id b, sb_arch = tb_arch b, sb_version = tb_version b\<rparr>)
            (filter (\<lambda>b. tb_trust b = ''community'' \<and> tb_status b = Staged \<and> undecidedBuild newest decisions (tb_id b)) newest),
          pb_project = List.map_filter (\<lambda>b. if tb_trust b = ''project'' \<and> tb_status b \<noteq> Cancelled
              then map_option (\<lambda>r. \<lparr>rb_id = tb_id b, rb_arch = tb_arch b, rb_status = tb_status b, rb_review = r\<rparr>) (tb_review b) else None) newest\<rparr>)"

text \<open>The claim a release lets go: the rebuilds queued or running, and those staged beside them.\<close>

definition rebuildLive :: "rebuild \<Rightarrow> bool" where
  "rebuildLive b \<longleftrightarrow> rb_status b = Queued \<or> rb_status b = Leased"

definition claimOf :: "package_builds \<Rightarrow> int list" where
  "claimOf p = (if \<not> list_ex rebuildLive (pb_project p) then []
     else map rb_id (filter (\<lambda>b. rebuildLive b \<or> (rb_status b = Staged \<and> rb_review b \<in> sb_id ` set (pb_staged p))) (pb_project p)))"

subsection \<open>The verdicts\<close>

record facts = package_facts +
  f_owner :: "login option"
  f_requesters :: "login list"
  f_already :: bool
  f_in_flight :: "(int \<times> task_status) option"
  f_standing :: bool
  f_packaged :: bool
  f_claim :: "int list"
  f_solo :: "solo option"
  f_named :: "arch list"

definition requestersOf :: "login option list \<Rightarrow> login list" where
  "requestersOf logins = uniq (filter (\<lambda>l. l \<noteq> []) (List.map_filter id logins))"

definition brought :: "login \<Rightarrow> ('a facts_scheme) \<Rightarrow> bool" where
  "brought l f \<longleftrightarrow> f_owner f = Some l \<or> l \<in> set (f_requesters f)"

definition selfReview :: "person option \<Rightarrow> ('a facts_scheme) \<Rightarrow> solo option" where
  "selfReview c f = (case (c, f_solo f) of
     (Some p, Some s) \<Rightarrow> if snd p \<and> fst p = sl_maintainer s \<and> brought (fst p) f then Some s else None
   | _ \<Rightarrow> None)"

definition soloHostOf :: "('a facts_scheme) \<Rightarrow> login option" where
  "soloHostOf f = (case f_solo f of Some s \<Rightarrow> if sl_maintainer s \<in> set (f_requesters f) then Some (sl_maintainer s) else None | None \<Rightarrow> None)"

datatype review_decision = RvApprove | RvReject | RvBuild | RvWithdraw | RvChanges | RvRelease | RvApproveOnly

definition DECISIONS :: "review_decision list" where
  "DECISIONS = [RvApprove, RvReject, RvBuild, RvWithdraw, RvChanges, RvRelease, RvApproveOnly]"

datatype review_why =
    NotSignedIn
  | MaintainerDecides
  | NotStagedYet int task_status
  | YouBrought string
  | StillBuilding arch int
  | NotWhereItStands int arch "int option" target_state
  | IsEvidence
  | AlreadyApproved
  | NoPackageStaged
  | StillRebuilding arch int task_status
  | NotRebuilt arch int
  | LeavesOut arch target_state "int option" "string option" arch
  | WithdrawFirst
  | ProjectsOwn
  | ProjectOnIt int task_status
  | NothingStanding
  | NothingToRelease string
  | NamesAlone string arch
  | ShippedAlready "arch list"

datatype review_code = CodeSignIn | CodeMaintainerOnly | CodeConflict

datatype verdict = Grant | Deny int review_why

fun verdictCode :: "verdict \<Rightarrow> review_code option" where
  "verdictCode (Deny _ NotSignedIn) = Some CodeSignIn"
| "verdictCode (Deny _ MaintainerDecides) = Some CodeMaintainerOnly"
| "verdictCode (Deny _ (YouBrought _)) = Some CodeConflict"
| "verdictCode _ = None"

text \<open>A chain \<^verbatim>\<open>a ?? b ?? allow\<close>.\<close>

fun firstDeny :: "(int \<times> review_why) option list \<Rightarrow> verdict" where
  "firstDeny [] = Grant"
| "firstDeny (None # xs) = firstDeny xs"
| "firstDeny (Some (st, why) # xs) = Deny st why"

definition denyIf :: "bool \<Rightarrow> int \<Rightarrow> review_why \<Rightarrow> (int \<times> review_why) option" where
  "denyIf b st why = (if b then Some (st, why) else None)"

text \<open>The row a decision is on, as the predicate reads it.\<close>

record decidable = reviewed_row +
  dc_name :: string
  dc_status :: task_status

definition personDeny :: "person option \<Rightarrow> (int \<times> review_why) option" where
  "personDeny c = (case c of None \<Rightarrow> Some (401, NotSignedIn) | Some p \<Rightarrow> denyIf (\<not> snd p) 403 MaintainerDecides)"

definition ownerDeny :: "person option \<Rightarrow> string \<Rightarrow> ('a facts_scheme) \<Rightarrow> (int \<times> review_why) option" where
  "ownerDeny c name f = denyIf (case c of None \<Rightarrow> False | Some p \<Rightarrow> brought (fst p) f \<and> selfReview c f = None) 403 (YouBrought name)"

definition notStagedDeny :: "decidable \<Rightarrow> (int \<times> review_why) option" where
  "notStagedDeny t = denyIf (dc_status t \<noteq> Staged) 409 (NotStagedYet (rr_id t) (dc_status t))"

definition buildingDeny :: "('a facts_scheme) \<Rightarrow> (int \<times> review_why) option" where
  "buildingDeny f = map_option (\<lambda>(i, ar). (409, StillBuilding ar i)) (pf_building f)"

definition supersededDeny :: "decidable \<Rightarrow> ('a facts_scheme) \<Rightarrow> (int \<times> review_why) option" where
  "supersededDeny t f = map_option (\<lambda>(ar, task, st). (409, NotWhereItStands (rr_id t) ar task st)) (pf_superseded f)"

text \<open>The steps both approvals share.\<close>

definition approvable :: "person option \<Rightarrow> decidable \<Rightarrow> ('a facts_scheme) \<Rightarrow> (int \<times> review_why) option list" where
  "approvable c t f =
     [personDeny c, notStagedDeny t, denyIf (rr_trust t \<noteq> ''project'') 409 IsEvidence, ownerDeny c (dc_name t) f,
      denyIf (f_already f) 409 AlreadyApproved, denyIf (\<not> f_packaged f) 409 NoPackageStaged]"

definition namedOthers :: "decidable \<Rightarrow> ('a facts_scheme) \<Rightarrow> arch list" where
  "namedOthers t f = filter (\<lambda>a. a \<noteq> rr_arch t) (f_named f)"

fun decisions :: "person option \<Rightarrow> decidable \<Rightarrow> ('a facts_scheme) \<Rightarrow> review_decision \<Rightarrow> verdict" where
  "decisions c t f RvApprove = firstDeny (approvable c t f @
     [buildingDeny f, supersededDeny t f,
      map_option (\<lambda>b. (409, StillRebuilding (rb_arch b) (rb_id b) (rb_status b))) (pf_rebuilding f),
      map_option (\<lambda>s. (409, NotRebuilt (sb_arch s) (sb_id s))) (pf_unbuilt f),
      map_option (\<lambda>(ar, st, task, kept). (409, LeavesOut ar st task kept (rr_arch t))) (pf_missing f)])"
| "decisions c t f RvReject = firstDeny [personDeny c, notStagedDeny t, ownerDeny c (dc_name t) f, denyIf (f_standing f) 409 WithdrawFirst]"
| "decisions c t f RvBuild = firstDeny
     [personDeny c, notStagedDeny t, denyIf (rr_trust t \<noteq> ''community'') 409 ProjectsOwn, ownerDeny c (dc_name t) f,
      map_option (\<lambda>(i, st). (409, ProjectOnIt i st)) (f_in_flight f), buildingDeny f, supersededDeny t f]"
| "decisions c t f RvWithdraw = firstDeny [personDeny c, denyIf (\<not> f_standing f) 404 NothingStanding]"
| "decisions c t f RvChanges = firstDeny [personDeny c, notStagedDeny t, ownerDeny c (dc_name t) f, denyIf (f_standing f) 409 WithdrawFirst]"
| "decisions c t f RvRelease = firstDeny [personDeny c, ownerDeny c (dc_name t) f, denyIf (f_claim f = []) 409 (NothingToRelease (dc_name t))]"
| "decisions c t f RvApproveOnly = firstDeny (approvable c t f @
     [supersededDeny t f, denyIf (namedOthers t f = []) 409 (NamesAlone (dc_name t) (rr_arch t)),
      denyIf (pf_alone f = []) 409 (ShippedAlready (filter (\<lambda>a. a \<notin> set (pf_alone f)) (namedOthers t f)))])"

text \<open>The verdicts as a page reads them: what the caller may, and why not.\<close>

definition can :: "(review_decision \<Rightarrow> verdict) \<Rightarrow> (review_decision \<times> bool) list \<times> (review_decision \<times> review_why) list" where
  "can v = (map (\<lambda>x. (x, v x = Grant)) DECISIONS,
     List.map_filter (\<lambda>x. case v x of Deny _ why \<Rightarrow> Some (x, why) | Grant \<Rightarrow> None) DECISIONS)"

subsection \<open>A package's place in Review's queue\<close>

record queue_row =
  q_id :: int
  q_project :: bool
  q_ready :: bool
  q_already :: bool
  q_project_build :: "task_status option"
  q_claim :: bool

datatype queue_place = QReady | QInReview

record queue_state =
  qs_lead :: "int option"
  qs_state :: "queue_place option"

definition waitsForMaintainer :: "bool \<Rightarrow> queue_row \<Rightarrow> bool" where
  "waitsForMaintainer lead t \<longleftrightarrow> lead \<and> \<not> q_already t \<and> (q_project t \<or> q_project_build t = None \<or> q_project_build t = Some Failed)"

definition leadOf :: "queue_row list \<Rightarrow> queue_row option" where
  "leadOf rows = (let speaks = (\<lambda>p t. q_project t = p \<and> q_ready t \<and> waitsForMaintainer True t)
     in orElse (find (speaks True) rows) (find (speaks False) rows))"

definition queueOf :: "queue_row list \<Rightarrow> queue_state" where
  "queueOf rows = \<lparr>qs_lead = map_option q_id (leadOf rows),
     qs_state = (if list_ex q_claim rows then Some QInReview else if leadOf rows \<noteq> None then Some QReady else None)\<rparr>"

definition rowReady :: "string \<Rightarrow> ('a package_facts_scheme) \<Rightarrow> bool" where
  "rowReady trust f \<longleftrightarrow> pf_building f = None \<and> pf_rebuilding f = None \<and> pf_superseded f = None \<and> \<not> (trust = ''project'' \<and> pf_unbuilt f \<noteq> None)"

definition storyRow :: "decision list \<Rightarrow> package_builds \<Rightarrow> targets \<Rightarrow> target_build \<Rightarrow> queue_row" where
  "storyRow approvals p tgs r =
     (let f = packageFacts \<lparr>rr_id = tb_id r, rr_arch = tb_arch r, rr_trust = tb_trust r, rr_version = tb_version r\<rparr> p tgs [] [];
          pb = (if tb_trust r = ''community'' then find (\<lambda>b. rb_review b = tb_id r) (pb_project p) else None)
      in \<lparr>q_id = tb_id r, q_project = (tb_trust r = ''project''), q_ready = rowReady (tb_trust r) f,
          q_already = list_ex (\<lambda>a. a_arch a = tb_arch r \<and> a_version a = tb_version r \<and> a_task_id a \<noteq> tb_id r \<and> a_rebuild_task a \<noteq> Some (tb_id r))
            (filter stands approvals),
          q_project_build = map_option rb_status pb,
          q_claim = (tb_trust r = ''project'' \<or> (case pb of Some b \<Rightarrow> rb_status b \<in> {Queued, Leased, Staged} | None \<Rightarrow> False))\<rparr>)"

definition queueOfStory :: "task list \<Rightarrow> decision list \<Rightarrow> targets \<Rightarrow> queue_state option" where
  "queueOfStory tasks approvals tgs =
     (let builds = map targetBuildOf (filter (\<lambda>t. t_kind t = ''build'') tasks);
          p = buildsOfPackage builds approvals;
          rows = map (storyRow approvals p tgs)
            (sort_key (\<lambda>b. - tb_id b) (filter (\<lambda>b. tb_status b = Staged \<and> undecidedBuild builds approvals (tb_id b)) builds))
      in if rows = [] then None else Some (queueOf rows))"

end
