(* ===== verification/Review_Doors.thy ===== *)
theory Review_Doors
  imports Review_Rules Staging
begin

text \<open>
  The doors of a review (worker/src/routes/review.ts): the facts of a decision read live, a claim's rebuilds (\<open>handleProjectBuild\<close>), an
  approval of the package or of one architecture of it (\<open>handleApprove\<close>), a round closed (\<open>closeRound\<close>), a claim released, a copy
  released to any host. A handler that reads before it writes takes two databases: the one it read the task and its facts from, and the
  one its statements run on; a door with nobody else at it is the case where they are the same. The passkey ceremony, the trial's
  verdict and the package's descriptive columns are arguments or left out; the signed record in the bucket is not part of the tables.
\<close>

subsection \<open>The facts, read for a decision\<close>

record full_facts = facts +
  ff_approval :: "decision option"
  ff_builds :: package_builds
  ff_targets :: targets
  ff_served :: "served list"

definition lowerChar :: "char \<Rightarrow> char" where
  "lowerChar c = (if CHR ''A'' \<le> c \<and> c \<le> CHR ''Z'' then char_of (of_char c + 32 :: nat) else c)"

text \<open>\<^verbatim>\<open>key LIKE '%.pkg.tar.zst'\<close>: SQLite's LIKE ignores the case of ASCII letters.\<close>

definition isPackageKey :: "string \<Rightarrow> bool" where
  "isPackageKey k \<longleftrightarrow> (let s = ''.pkg.tar.zst'' in length s \<le> length k \<and> map lowerChar (drop (length k - length s) k) = s)"

definition packageFiles :: "db \<Rightarrow> int \<Rightarrow> string list" where
  "packageFiles d i = map (basename \<circ> s_key) (filter (\<lambda>s. s_task_id s = Some i \<and> isPackageKey (s_key s)) (d_staging d))"

definition packageRow :: "db \<Rightarrow> string \<Rightarrow> package option" where
  "packageRow d name = find (\<lambda>p. p_name p = name) (d_packages d)"

definition ownerOf :: "db \<Rightarrow> string \<Rightarrow> login option \<Rightarrow> login option" where
  "ownerOf d name fallback = (case packageRow d name of Some p \<Rightarrow> Some (p_owner p) | None \<Rightarrow> fallback)"

definition decidableOf :: "task \<Rightarrow> decidable" where
  "decidableOf t = \<lparr>rr_id = t_id t, rr_arch = t_arch t, rr_trust = t_trust t, rr_version = t_version t, dc_name = t_name t, dc_status = t_status t\<rparr>"

definition liveRebuild :: "int \<Rightarrow> rebuild \<Rightarrow> bool" where
  "liveRebuild i b \<longleftrightarrow> rb_review b = i \<and> rb_status b \<in> {Queued, Leased, Staged}"

definition factsOf :: "db \<Rightarrow> task \<Rightarrow> full_facts" where
  "factsOf d t =
     (let from = (if t_trust t = ''project'' then t_review t else None);
          owner = ownerOf d (t_name t) (t_owner t);
          approval = standingApproval d (t_name t) (t_id t);
          rows = the (packageRows d (t_name t) True);
          asked = Option.bind from (\<lambda>i. Option.bind (row_of i d) t_owner);
          builds = buildsOfPackage (pr_builds rows) (pr_decisions rows);
          tgs = targetsOf (pr_arches rows) (pr_builds rows) (pr_decisions rows) (pr_closedThrough rows) (pr_notShipping rows);
          named = namedOf (pr_arches rows);
          srv = servedOf (pr_decisions rows);
          pf = packageFacts (reviewed_row.truncate (decidableOf t)) builds tgs named srv
      in \<lparr>pf_building = pf_building pf, pf_rebuilding = pf_rebuilding pf, pf_unbuilt = pf_unbuilt pf, pf_superseded = pf_superseded pf,
          pf_missing = pf_missing pf, pf_alone = pf_alone pf,
          f_owner = owner, f_requesters = requestersOf [owner, t_owner t, asked],
          f_already = list_ex (\<lambda>a. a_task_id a = t_id t \<and> stands a) (d_decisions d),
          f_in_flight = map_option (\<lambda>b. (rb_id b, rb_status b)) (find (liveRebuild (t_id t)) (pb_project builds)),
          f_standing = (approval \<noteq> None), f_packaged = (if t_trust t = ''project'' then packageFiles d (t_id t) \<noteq> [] else True),
          f_claim = claimOf builds, f_solo = d_solo d, f_named = named,
          ff_approval = approval, ff_builds = builds, ff_targets = tgs, ff_served = srv\<rparr>)"

definition handleTaskCan :: "person option \<Rightarrow> int \<Rightarrow> db \<Rightarrow> ((review_decision \<times> bool) list \<times> (review_decision \<times> review_why) list) option" where
  "handleTaskCan c i d = map_option (\<lambda>t. can (decisions c (decidableOf t) (factsOf d t))) (row_of i d)"

subsection \<open>Rows a decision adds\<close>

text \<open>An \<^verbatim>\<open>AUTOINCREMENT\<close> id of a table no row is deleted from.\<close>

definition nextId :: "int list \<Rightarrow> int" where
  "nextId ids = foldr max ids 0 + 1"

record task_ask =
  ta_name :: string
  ta_arch :: arch
  ta_version :: "string option"
  ta_ref :: string
  ta_priority :: int
  ta_publish :: bool
  ta_owner :: "login option"
  ta_kind :: string
  ta_review :: "int option"
  ta_params :: params
  ta_pinned :: "string option"

definition newTask :: "int \<Rightarrow> task_ask \<Rightarrow> task" where
  "newTask i a = \<lparr>t_id = i, t_name = ta_name a, t_arch = ta_arch a, t_kind = ta_kind a, t_trust = ''project'', t_owner = ta_owner a,
     t_publish = ta_publish a, t_review = ta_review a, t_version = ta_version a, t_pkgbuild_ref = ta_ref a, t_status = Queued,
     t_priority = ta_priority a, t_attempts = 0, t_max_attempts = 3, t_lease_owner = None, t_lease_expires = None, t_started_at = None,
     t_finished_at = None, t_error = None, t_stop_order = None, t_lease_gen = None, t_lane = None, t_size = None, t_units = None,
     t_disk_gb = None, t_release = None, t_claim_id = None, t_lease_missed = 0, t_host_losses = 0, t_reserved_at = None,
     t_independent = None, t_pinned_to = ta_pinned a, t_needs_native = False, t_refused_4k = False, t_own_size = None, t_params = ta_params a\<rparr>"

definition insertTask :: "task_ask \<Rightarrow> db \<Rightarrow> int \<times> db" where
  "insertTask a d = (let i = nextId (map t_id (d_tasks d)) in (i, d\<lparr>d_tasks := newTask i a # d_tasks d\<rparr>))"

definition soloMark :: "solo \<Rightarrow> login \<times> string" where
  "soloMark s = (sl_maintainer s, sl_since s)"

definition archIndex :: "arch \<Rightarrow> int" where
  "archIndex a = (case find_index (\<lambda>x. x = a) REPO_ARCHES of Some n \<Rightarrow> int n | None \<Rightarrow> -1)"

definition setPackage :: "string \<Rightarrow> (package \<Rightarrow> package) \<Rightarrow> db \<Rightarrow> db" where
  "setPackage name f d = d\<lparr>d_packages := sql_update (\<lambda>p. p_name p = name) f (d_packages d)\<rparr>"

text \<open>A decision ends the audit and the trial of the build that have not started.\<close>

definition cancelPending :: "string \<Rightarrow> int \<Rightarrow> db \<Rightarrow> db" where
  "cancelPending kind i d = d\<lparr>d_tasks := sql_update (\<lambda>t. t_kind t = kind \<and> t_status t = Queued \<and> paramIs ''task'' i t)
     (\<lambda>t. t\<lparr>t_status := Cancelled, t_error := Some (DecidedFirst kind)\<rparr>) (d_tasks d)\<rparr>"

definition cancelPendingAudit :: "int \<Rightarrow> db \<Rightarrow> db" where
  "cancelPendingAudit i d = cancelPending ''trial'' i (cancelPending ''audit'' i d)"

subsection \<open>A claim: the project builds it again\<close>

definition WORKER_ALIVE_MINUTES :: int where
  "WORKER_ALIVE_MINUTES = 10"

definition SAME_AGENT_SQL :: "arch \<Rightarrow> string \<Rightarrow> int \<Rightarrow> login list \<Rightarrow> db \<Rightarrow> string option" where
  "SAME_AGENT_SQL ar ag since keptOff d = map_option w_id (first_of (sort_key (\<lambda>w. (w_current_task w \<noteq> None, - w_last_seen w))
     (filter (\<lambda>w. w_arch w = ar \<and> w_trust w = ''project'' \<and> w_revoked_at w = None \<and> w_drained_at w = None \<and> w_agent w = Some ag
        \<and> w_agent_status w = Some ''ok'' \<and> w_last_seen w > since \<and> (case w_kinds w of None \<Rightarrow> True | Some ks \<Rightarrow> ''build'' \<in> set ks)
        \<and> (case w_owner w of None \<Rightarrow> True | Some l \<Rightarrow> l \<notin> set keptOff)) (d_workers d))))"

definition isRebuild :: "string \<Rightarrow> int list \<Rightarrow> task \<Rightarrow> bool" where
  "isRebuild name ids r \<longleftrightarrow> t_name r = name \<and> t_kind r = ''build'' \<and> t_trust r = ''project'' \<and> t_status r \<in> {Queued, Leased, Staged}
     \<and> (case t_review r of Some i \<Rightarrow> i \<in> set ids | None \<Rightarrow> False)"

definition CLAIM_SQL :: "task_ask \<Rightarrow> int list \<Rightarrow> db \<Rightarrow> int option \<times> db" where
  "CLAIM_SQL a ids d = (if list_ex (isRebuild (ta_name a) ids) (d_tasks d) then (None, d)
     else let (i, d') = insertTask a d in (Some i, d'))"

record build_ask =
  ba_note :: "string option"
  ba_worker :: "string option"
  ba_through :: "string option"

datatype build_refusal =
    BuildNoTask
  | BuildDenied int review_why
  | NotARegistration string arch
  | RequesterHost string login
  | DrainedHost string
  | TakesNoBuilds string "string list"
  | NoAgentAnswers string
  | ClaimedAlready string

definition keptOffHosts :: "('a facts_scheme) \<Rightarrow> login list" where
  "keptOffHosts f = filter (\<lambda>r. Some r \<noteq> soloHostOf f) (f_requesters f)"

text \<open>The worker the maintainer names for this architecture: its registration and its agent.\<close>

definition pinOf :: "task \<Rightarrow> login list \<Rightarrow> string option \<Rightarrow> db \<Rightarrow> build_refusal + (string option \<times> string option)" where
  "pinOf t keptOff asked d = (case asked of
     None \<Rightarrow> Inr (None, None)
   | Some name \<Rightarrow> (case find (\<lambda>w. w_id w = name \<and> w_revoked_at w = None \<and> w_trust w = ''project'') (d_workers d) of
       None \<Rightarrow> Inl (NotARegistration name (t_arch t))
     | Some w \<Rightarrow>
         if w_arch w \<noteq> t_arch t then Inl (NotARegistration name (t_arch t))
         else if (case w_owner w of Some l \<Rightarrow> l \<noteq> [] \<and> l \<in> set keptOff | None \<Rightarrow> False) then Inl (RequesterHost (w_id w) (the (w_owner w)))
         else if w_drained_at w \<noteq> None then Inl (DrainedHost (w_id w))
         else if nvl (w_kinds w) [] \<noteq> [] \<and> ''build'' \<notin> set (nvl (w_kinds w) []) then Inl (TakesNoBuilds (w_id w) (nvl (w_kinds w) []))
         else if w_agent_status w \<noteq> Some ''ok'' then Inl (NoAgentAnswers (w_id w))
         else Inr (Some (w_id w), w_agent w)))"

definition optJson :: "string option \<Rightarrow> json" where
  "optJson s = (case s of Some x \<Rightarrow> JStr x | None \<Rightarrow> JNull)"

text \<open>What the rebuild is told of the claim; the request's own facts beside them (project, source, release, description, license: columns of the
  registration no rule here reads) are left out.\<close>

definition claimParams :: "login \<Rightarrow> build_ask \<Rightarrow> int option \<Rightarrow> login option \<Rightarrow> string option \<Rightarrow> solo option \<Rightarrow> params" where
  "claimParams l b rq owner ag self =
     [(''request'', case rq of Some i \<Rightarrow> JNum (of_int i) | None \<Rightarrow> JNull), (''owner'', optJson owner), (''by'', JStr l)]
     @ (case ba_through b of Some x \<Rightarrow> [(''through'', JStr x)] | None \<Rightarrow> [])
     @ [(''agent'', optJson ag), (''note'', optJson (ba_note b)),
        (''hint'', if ba_through b = None then optJson (map_option (take 600) (ba_note b)) else JNull)]
     @ (case self of Some s \<Rightarrow> [(''solo_exception'', JObj [(''maintainer'', JStr (sl_maintainer s)), (''since'', JStr (sl_since s))])] | None \<Rightarrow> [])"

record claim_round =
  cr_login :: login
  cr_ask :: build_ask
  cr_name :: string
  cr_request :: "int option"
  cr_owner :: "login option"
  cr_self :: "solo option"
  cr_agent :: "string option"

definition claimAsk :: "claim_round \<Rightarrow> string option \<Rightarrow> staged_build \<Rightarrow> task_ask" where
  "claimAsk r pin s = \<lparr>ta_name = cr_name r, ta_arch = sb_arch s, ta_version = sb_version s, ta_ref = ''review:'' @ show_nat (nat (sb_id s)), ta_priority = 30,
     ta_publish = False, ta_owner = cr_owner r, ta_kind = ''build'', ta_review = Some (sb_id s),
     ta_params = claimParams (cr_login r) (cr_ask r) (cr_request r) (cr_owner r) (if pin = None then None else cr_agent r) (cr_self r), ta_pinned = pin\<rparr>"

text \<open>The rebuilds of the other architectures, each queued while none of that build is.\<close>

fun claimOthers :: "claim_round \<Rightarrow> int \<Rightarrow> login list \<Rightarrow> staged_build list \<Rightarrow> db \<Rightarrow> (int \<times> arch \<times> int) list \<times> db" where
  "claimOthers r since keptOff [] d = ([], d)"
| "claimOthers r since keptOff (s # ss) d =
     (let pin = Option.bind (cr_agent r) (\<lambda>ag. SAME_AGENT_SQL (sb_arch s) ag since keptOff d);
          (row, d1) = CLAIM_SQL (claimAsk r pin s) [sb_id s] d;
          (queued, d2) = claimOthers r since keptOff ss d1
      in ((case row of Some i \<Rightarrow> [(i, sb_arch s, sb_id s)] | None \<Rightarrow> []) @ queued, d2))"

definition claimedFrom :: "task \<Rightarrow> full_facts \<Rightarrow> staged_build list" where
  "claimedFrom t f = sort_key (archIndex \<circ> sb_arch)
     (filter (\<lambda>s. \<not> list_ex (liveRebuild (sb_id s)) (pb_project (ff_builds f))) (othersOf (t_arch t) (t_version t) (ff_builds f) (ff_targets f)))"

definition ownBuild :: "task \<Rightarrow> staged_build" where
  "ownBuild t = \<lparr>sb_id = t_id t, sb_arch = t_arch t, sb_version = t_version t\<rparr>"

definition afterClaim :: "claim_round \<Rightarrow> task \<Rightarrow> (int \<times> arch \<times> int) list \<Rightarrow> db \<Rightarrow> db" where
  "afterClaim r t queued d =
     (let d1 = setPackage (t_name t) (\<lambda>p. p\<lparr>p_detail :=
            ProjectBuilds (t_version t) (map (fst \<circ> snd) queued) (map fst queued) (cr_login r) (cr_self r \<noteq> None)\<rparr>) d;
          d2 = add_event (ReviewEvent EvOk (t_name t) (cr_login r) ''claim'' (map fst queued) (map_option soloMark (cr_self r))) d1
      in settleTargets d2 [t_name t])"

definition claimWith :: "claim_round \<Rightarrow> task \<Rightarrow> string option \<Rightarrow> staged_build list \<Rightarrow> login list \<Rightarrow> int \<Rightarrow> db
    \<Rightarrow> (build_refusal + (int \<times> arch \<times> int) list) \<times> db" where
  "claimWith r t pin others keptOff now d = (case CLAIM_SQL (claimAsk r pin (ownBuild t)) (t_id t # map sb_id others) d of
     (None, d1) \<Rightarrow> (Inl (ClaimedAlready (t_name t)), d1)
   | (Some lead, d1) \<Rightarrow>
       (let (rest, d2) = claimOthers r (now - WORKER_ALIVE_MINUTES * 60000) keptOff others d1;
            queued = sort_key (archIndex \<circ> fst \<circ> snd) ((lead, t_arch t, t_id t) # rest)
        in (Inr queued, afterClaim r t queued d2)))"

definition handleProjectBuild :: "person \<Rightarrow> int \<Rightarrow> build_ask \<Rightarrow> int \<Rightarrow> db \<Rightarrow> db \<Rightarrow> (build_refusal + (int \<times> arch \<times> int) list) \<times> db" where
  "handleProjectBuild c i b now d0 d = (case row_of i d0 of
     None \<Rightarrow> (Inl BuildNoTask, d)
   | Some t \<Rightarrow> (let f = factsOf d0 t; keptOff = keptOffHosts f
      in case decisions (Some c) (decidableOf t) f RvBuild of
        Deny st why \<Rightarrow> (Inl (BuildDenied st why), d)
      | Grant \<Rightarrow> (case pinOf t keptOff (ba_worker b) d of
          Inl e \<Rightarrow> (Inl e, d)
        | Inr (pin, ag) \<Rightarrow> claimWith \<lparr>cr_login = fst c, cr_ask = b, cr_name = t_name t, cr_request = Option.bind (packageRow d (t_name t)) p_request_id,
            cr_owner = f_owner f, cr_self = selfReview (Some c) f, cr_agent = ag\<rparr> t pin (claimedFrom t f) keptOff now d)))"

subsection \<open>A decision taken\<close>

record round_row =
  ro_task :: int
  ro_arch :: arch
  ro_version :: "string option"
  ro_rebuild :: "int option"

record round =
  rd_name :: string
  rd_version :: "string option"
  rd_approved :: bool
  rd_by :: login
  rd_note :: "string option"
  rd_arches :: "arch list"
  rd_not_supported :: "(arch \<times> int option) list"
  rd_only_reason :: "string option"
  rd_not_shipping :: "(arch \<times> int option) list"
  rd_released :: bool
  rd_changes :: bool
  rd_through :: "string option"
  rd_solo :: "solo option"
  rd_rows :: "round_row list"
  rd_aside :: "int list"
  rd_aside_why :: task_error

definition guardOf :: "round \<Rightarrow> int list" where
  "guardOf r = map ro_task (rd_rows r) @ rd_aside r"

definition UNDECIDED :: "int list \<Rightarrow> db \<Rightarrow> bool" where
  "UNDECIDED ids d \<longleftrightarrow> \<not> list_ex (\<lambda>a. a_task_id a \<in> set ids \<and> a_withdrawn_at a = None) (d_decisions d)"

definition inReview :: "task \<Rightarrow> bool" where
  "inReview t \<longleftrightarrow> t_status t \<in> {Queued, Leased, Staged}"

definition asideGuard :: "int list \<Rightarrow> int list \<Rightarrow> db \<Rightarrow> task \<Rightarrow> bool" where
  "asideGuard ids guard d t \<longleftrightarrow> t_id t \<in> set ids \<and> inReview t \<and> UNDECIDED [t_id t] d \<and> UNDECIDED guard d"

definition stopSet :: "task_error \<Rightarrow> int \<Rightarrow> task \<Rightarrow> task" where
  "stopSet why now t = t\<lparr>t_status := Cancelled, t_error := Some why, t_lease_expires := None, t_finished_at := Some (nvl (t_finished_at t) now)\<rparr>"

definition SET_ASIDE_SQL :: "task_error \<Rightarrow> int list \<Rightarrow> int list \<Rightarrow> int \<Rightarrow> db \<Rightarrow> int list \<times> db" where
  "SET_ASIDE_SQL why ids guard now d =
     (map t_id (filter (asideGuard ids guard d) (d_tasks d)), d\<lparr>d_tasks := sql_update (asideGuard ids guard d) (stopSet why now) (d_tasks d)\<rparr>)"

definition notShippingJson :: "(arch \<times> int option) list \<Rightarrow> json" where
  "notShippingJson xs = JObj (map (\<lambda>(ar, n). (ar, case n of Some i \<Rightarrow> JNum (of_int i) | None \<Rightarrow> JNull)) xs)"

definition newReview :: "int \<Rightarrow> round \<Rightarrow> review" where
  "newReview i r = \<lparr>v_id = i, v_name = rd_name r, v_version = rd_version r, v_approved = rd_approved r, v_by = rd_by r, v_note = rd_note r,
     v_arches = rd_arches r, v_not_supported = rd_not_supported r, v_released = rd_released r, v_changes = rd_changes r,
     v_only_reason = rd_only_reason r, v_not_shipping = notShippingJson (rd_not_shipping r), v_solo_since = None, v_withdrawn_at = None\<rparr>"

definition REVIEW_SQL :: "round \<Rightarrow> db \<Rightarrow> int option \<times> db" where
  "REVIEW_SQL r d = (if UNDECIDED (guardOf r) d
     then let i = nextId (map v_id (d_reviews d)) in (Some i, d\<lparr>d_reviews := newReview i r # d_reviews d\<rparr>) else (None, d))"

definition newestReview :: "string \<Rightarrow> db \<Rightarrow> int option" where
  "newestReview name d = map_option v_id (first_of (sort_key (\<lambda>v. - v_id v) (filter (\<lambda>v. v_name v = name) (d_reviews d))))"

definition newDecision :: "round \<Rightarrow> int option \<Rightarrow> int \<Rightarrow> round_row \<Rightarrow> decision" where
  "newDecision r rvid i x = \<lparr>a_id = i, a_name = rd_name r, a_arch = ro_arch x, a_task_id = ro_task x, a_rebuild_task = ro_rebuild x,
     a_approved = rd_approved r, a_withdrawn_at = None, a_version = ro_version x, a_by = rd_by r, a_note = rd_note r, a_review_id = rvid,
     a_through = rd_through r\<rparr>"

fun addRows :: "round \<Rightarrow> int option \<Rightarrow> round_row list \<Rightarrow> decision list \<Rightarrow> decision list" where
  "addRows r rvid [] as = as"
| "addRows r rvid (x # xs) as = addRows r rvid xs (newDecision r rvid (nextId (map a_id as)) x # as)"

definition ROWS_SQL :: "round \<Rightarrow> db \<Rightarrow> nat \<times> db" where
  "ROWS_SQL r d = (if UNDECIDED (guardOf r) d
     then (length (rd_rows r), d\<lparr>d_decisions := addRows r (newestReview (rd_name r) d) (rd_rows r) (d_decisions d)\<rparr>) else (0, d))"

definition SOLO_REVIEW_SQL :: "string \<Rightarrow> string \<Rightarrow> nat \<Rightarrow> db \<Rightarrow> db" where
  "SOLO_REVIEW_SQL since name changes d = (if changes > 0
     then d\<lparr>d_reviews := sql_update (\<lambda>v. Some (v_id v) = newestReview name d) (\<lambda>v. v\<lparr>v_solo_since := Some since\<rparr>) (d_reviews d)\<rparr> else d)"

text \<open>The batch: the builds set aside, the review, its rows, the mark of the exception. None: decided already.\<close>

definition takeRound :: "round \<Rightarrow> int \<Rightarrow> db \<Rightarrow> (int \<times> int list) option \<times> db" where
  "takeRound r now d =
     (let (gone, d1) = (if rd_aside r = [] then ([], d) else SET_ASIDE_SQL (rd_aside_why r) (rd_aside r) (guardOf r) now d);
          (rvid, d2) = REVIEW_SQL r d1;
          (n, d3) = ROWS_SQL r d2;
          d4 = (case rd_solo r of Some s \<Rightarrow> SOLO_REVIEW_SQL (sl_since s) (rd_name r) n d3 | None \<Rightarrow> d3)
      in (map_option (\<lambda>i. (i, gone)) rvid, d4))"

subsection \<open>Approve\<close>

record approve_ask =
  ap_note :: "string option"
  ap_only :: "json option"
  ap_reason :: "string option"
  ap_through :: "(string \<times> bool) option"
  ap_gate :: "bool option"

text \<open>The passkey: the one the draft was confirmed with, else the door's own gate; a door without one decides nothing.\<close>

definition decidedWith :: "(string \<times> bool) option \<Rightarrow> bool option \<Rightarrow> bool" where
  "decidedWith through gate = (case through of Some (_, True) \<Rightarrow> True | _ \<Rightarrow> gate = Some True)"

datatype review_refusal =
    ReviewNoTask
  | ReviewDenied int review_why
  | OnlyItsOwn arch
  | ReasonRequired "arch list"
  | NoteRequired bool
  | PasskeyRefused
  | LeftNoPackage int arch
  | DecidedAlready "(bool \<times> login) option"
  | NothingLeftToRelease string

record approved_out =
  ao_review :: int
  ao_arches :: "arch list"
  ao_publishes :: "(arch \<times> int) list"
  ao_aside :: "int list"
  ao_not_supported :: "(arch \<times> int option) list"
  ao_not_shipping :: "(arch \<times> int option) list"
  ao_kept :: "(arch \<times> string option) list"

text \<open>The builds of a package's chains no standing approval decided, in flight or staged.\<close>

definition undecidedChain :: "chain \<Rightarrow> bool" where
  "undecidedChain ch \<longleftrightarrow> (case ch_approval ch of Some a \<Rightarrow> \<not> stands a | None \<Rightarrow> True)"

definition chainBuilds :: "chain \<Rightarrow> task list" where
  "chainBuilds ch = List.map_filter id [ch_contributor ch, ch_project ch]"

definition roundBuilds :: "db \<Rightarrow> string \<Rightarrow> task list" where
  "roundBuilds d name = filter inReview (concat (map chainBuilds (filter undecidedChain (storyChains d name))))"

definition inReviewOf :: "db \<Rightarrow> string \<Rightarrow> arch list \<Rightarrow> int list" where
  "inReviewOf d name arches = map t_id (filter (\<lambda>t. t_arch t \<in> set arches) (roundBuilds d name))"

definition decidedBy :: "int list \<Rightarrow> db \<Rightarrow> (bool \<times> login) option" where
  "decidedBy ids d = map_option (\<lambda>a. (a_approved a, a_by a))
     (first_of (sort_key (\<lambda>a. - a_id a) (filter (\<lambda>a. a_task_id a \<in> set ids \<and> a_withdrawn_at a = None) (d_decisions d))))"

text \<open>The rebuilds of the other architectures the review covers: of each contributor's build, the newest.\<close>

definition otherRebuilds :: "task \<Rightarrow> full_facts \<Rightarrow> rebuild list" where
  "otherRebuilds t f = List.map_filter (\<lambda>s. find (\<lambda>p. rb_review p = sb_id s) (pb_project (ff_builds f)))
     (othersOf (t_arch t) (t_version t) (ff_builds f) (ff_targets f))"

definition publishAsk :: "login \<Rightarrow> int \<Rightarrow> string \<Rightarrow> task \<Rightarrow> string list \<Rightarrow> task_ask" where
  "publishAsk l rvid trial t files = \<lparr>ta_name = t_name t, ta_arch = t_arch t, ta_version = t_version t, ta_ref = ''-'', ta_priority = 20,
     ta_publish = True, ta_owner = None, ta_kind = ''publish'', ta_review = None,
     ta_params = [(''task'', JNum (of_int (t_id t))), (''name'', JStr (t_name t)), (''arch'', JStr (t_arch t)), (''version'', optJson (t_version t)),
       (''files'', JArr (map JStr files)), (''by'', JStr l), (''trial'', JStr trial), (''review_id'', JNum (of_int rvid))], ta_pinned = None\<rparr>"

fun publishAll :: "login \<Rightarrow> int \<Rightarrow> (int \<Rightarrow> string) \<Rightarrow> (task \<times> string list) list \<Rightarrow> db \<Rightarrow> (arch \<times> int) list \<times> db" where
  "publishAll l rvid trial [] d = ([], d)"
| "publishAll l rvid trial ((t, files) # xs) d =
     (let (i, d1) = insertTask (publishAsk l rvid (trial (t_id t)) t files) d;
          (ps, d2) = publishAll l rvid trial xs d1
      in ((t_arch t, i) # ps, d2))"

definition cancelPendings :: "int list \<Rightarrow> db \<Rightarrow> db" where
  "cancelPendings ids d = fold cancelPendingAudit ids d"

definition keptOf :: "arch list \<Rightarrow> served list \<Rightarrow> (arch \<times> string option) list" where
  "keptOf alone srv = List.map_filter (\<lambda>a. map_option (\<lambda>s. (a, snd s)) (find (\<lambda>x. fst x = a) srv)) alone"

text \<open>What an approval decides: this build, and for the package whole the staged rebuilds of the others, by their architectures; each with
  its package's files.\<close>

definition approveRows :: "bool \<Rightarrow> task \<Rightarrow> full_facts \<Rightarrow> db \<Rightarrow> task list" where
  "approveRows one t f d =
     (let staged = map rb_id (filter (\<lambda>p. rb_status p = Staged) (if one then [] else otherRebuilds t f))
      in sort_key (archIndex \<circ> t_arch) (t # filter (\<lambda>x. t_id x \<in> set staged) (d_tasks d)))"

definition notSupportedOf :: "bool \<Rightarrow> task \<Rightarrow> full_facts \<Rightarrow> task list \<Rightarrow> db \<Rightarrow> (arch \<times> int option) list" where
  "notSupportedOf one t f rows d =
     (let current = (case packageRow d (t_name t) of Some p \<Rightarrow> p_targets p | None \<Rightarrow> []);
          unsup = map (\<lambda>(ar, tg). (ar, tg_task tg)) (filter (\<lambda>(ar, tg). tg_status tg = NotSupported \<and> ar \<notin> t_arch ` set rows) current)
      in if one then []
         else unsup @ map (\<lambda>p. (rb_arch p, Some (rb_id p))) (filter (\<lambda>p. rb_status p = Failed \<and> rb_arch p \<notin> fst ` set unsup) (otherRebuilds t f)))"

record approval =
  ax_by :: login
  ax_ask :: approve_ask
  ax_one :: bool
  ax_reason :: string
  ax_task :: task
  ax_facts :: full_facts
  ax_self :: "solo option"
  ax_rows :: "task list"
  ax_not_supported :: "(arch \<times> int option) list"
  ax_stopping :: "int list"

text \<open>What an architecture alone leaves out, the part of it another version still serves, and the rest, which does not ship.\<close>

definition aloneOf :: "approval \<Rightarrow> arch list" where
  "aloneOf x = (if ax_one x then pf_alone (ax_facts x) else [])"

definition keptBy :: "approval \<Rightarrow> (arch \<times> string option) list" where
  "keptBy x = keptOf (aloneOf x) (ff_served (ax_facts x))"

definition notShippingOf :: "approval \<Rightarrow> (arch \<times> int option) list" where
  "notShippingOf x = map (\<lambda>a. (a, Option.bind (map_of (ff_targets (ax_facts x)) a) tg_task)) (filter (\<lambda>a. a \<notin> fst ` set (keptBy x)) (aloneOf x))"

definition approveRound :: "approval \<Rightarrow> round" where
  "approveRound x =
     \<lparr>rd_name = t_name (ax_task x), rd_version = t_version (ax_task x), rd_approved = True, rd_by = ax_by x, rd_note = ap_note (ax_ask x),
      rd_arches = map t_arch (ax_rows x), rd_not_supported = ax_not_supported x, rd_only_reason = (if ax_one x then Some (ax_reason x) else None),
      rd_not_shipping = notShippingOf x, rd_released = False, rd_changes = False, rd_through = map_option fst (ap_through (ax_ask x)), rd_solo = ax_self x,
      rd_rows = map (\<lambda>r. \<lparr>ro_task = t_id r, ro_arch = t_arch r, ro_version = t_version r, ro_rebuild = Some (t_id r)\<rparr>) (ax_rows x),
      rd_aside = ax_stopping x, rd_aside_why = SetAside (t_arch (ax_task x)) (ax_by x) (take 400 (ax_reason x))\<rparr>"

text \<open>After the decision: the publish jobs, the registration, the pending audits and trials, the journal, what was set aside.\<close>

definition afterApproval :: "approval \<Rightarrow> (int \<Rightarrow> string) \<Rightarrow> int \<Rightarrow> int list \<Rightarrow> db \<Rightarrow> (arch \<times> int) list \<times> db" where
  "afterApproval x trial rvid gone d2 =
     (let t = ax_task x;
          (publishes, d3) = publishAll (ax_by x) rvid trial (map (\<lambda>r. (r, packageFiles d2 (t_id r))) (ax_rows x)) d2;
          d4 = setPackage (t_name t) (\<lambda>p. p\<lparr>p_status := Approved, p_detail := ApprovedBy (t_version t)
                 (if ax_one x then [t_arch t] else map t_arch (ax_rows x)) (ax_by x) (ax_self x \<noteq> None) (map fst (ax_not_supported x))
                 (if ax_one x then Some (take 200 (ax_reason x)) else None) (map snd publishes)\<rparr>) d3;
          d5 = cancelPendings (map t_id (ax_rows x)) d4;
          d6 = add_event (ReviewEvent EvOk (t_name t) (ax_by x) ''approve'' (map t_id (ax_rows x)) (map_option soloMark (ax_self x))) d5;
          d7 = snd (reclaimStagingPackages gone (cancelPendings gone d6))
      in (publishes, settleTargets d7 [t_name t]))"

definition approveWith :: "approval \<Rightarrow> (int \<Rightarrow> string) \<Rightarrow> int \<Rightarrow> db \<Rightarrow> (review_refusal + approved_out) \<times> db" where
  "approveWith x trial now d1 = (case takeRound (approveRound x) now d1 of
     (None, d2) \<Rightarrow> (Inl (DecidedAlready (decidedBy (map t_id (ax_rows x) @ ax_stopping x) d2)), d2)
   | (Some (rvid, gone), d2) \<Rightarrow>
       (let (publishes, d3) = afterApproval x trial rvid gone d2
        in (Inr \<lparr>ao_review = rvid, ao_arches = map t_arch (ax_rows x), ao_publishes = publishes, ao_aside = gone,
                 ao_not_supported = ax_not_supported x, ao_not_shipping = notShippingOf x, ao_kept = keptBy x\<rparr>, d3)))"

definition handleApprove ::
  "person \<Rightarrow> int \<Rightarrow> approve_ask \<Rightarrow> (int \<Rightarrow> string) \<Rightarrow> int \<Rightarrow> db \<Rightarrow> db \<Rightarrow> (review_refusal + approved_out) \<times> db" where
  "handleApprove c i b trial now d0 d = (case row_of i d0 of
     None \<Rightarrow> (Inl ReviewNoTask, d)
   | Some t \<Rightarrow>
     (let f = factsOf d0 t;
          one = (ap_only b \<noteq> None \<and> ap_through b = None);
          alone = (if one then pf_alone f else []);
          reason = (if one then trim (nvl (ap_reason b) []) else [])
      in case decisions (Some c) (decidableOf t) f (if one then RvApproveOnly else RvApprove) of
        Deny st why \<Rightarrow> (Inl (ReviewDenied st why), d)
      | Grant \<Rightarrow>
          if one \<and> ap_only b \<noteq> Some (JStr (t_arch t)) then (Inl (OnlyItsOwn (t_arch t)), d)
          else if one \<and> length reason < 4 then (Inl (ReasonRequired alone), d)
          else if \<not> decidedWith (ap_through b) (ap_gate b) then (Inl PasskeyRefused, d)
          else
            (let rows = approveRows one t f d;
                 d1 = settleTargets d [t_name t]
             in case find (\<lambda>r. packageFiles d1 (t_id r) = []) rows of
                  Some r \<Rightarrow> (Inl (LeftNoPackage (t_id r) (t_arch r)), d1)
                | None \<Rightarrow> approveWith \<lparr>ax_by = fst c, ax_ask = b, ax_one = one, ax_reason = reason, ax_task = t, ax_facts = f,
                    ax_self = selfReview (Some c) f, ax_rows = rows, ax_not_supported = notSupportedOf one t f rows d1,
                    ax_stopping = (if alone = [] then [] else inReviewOf d1 (t_name t) alone)\<rparr> trial now d1)))"

end
