(* ===== verification/Review_Rounds.thy ===== *)
theory Review_Rounds
  imports Review_Doors
begin

text \<open>
  The doors that end a round of a review without shipping it (worker/src/routes/review.ts): a rejection and changes asked for
  (\<open>closeRound\<close>), a claim released whole (\<open>handleRelease\<close>), the project's copy released to any host, the cancel by hand that is neither, and
  the statements that take an approval back.
\<close>

subsection \<open>Reject, and changes asked for\<close>

definition roundOf :: "db \<Rightarrow> task \<Rightarrow> task list" where
  "roundOf d t = (let r = roundBuilds d (t_name t) in if t_id t \<in> t_id ` set r then r else r @ [t])"

text \<open>One row per architecture on the record: its newest build in review, the project's when there is one.\<close>

definition stagedOf :: "task list \<Rightarrow> arch \<Rightarrow> task option" where
  "stagedOf rnd ar = first_of (rev (filter (\<lambda>x. t_arch x = ar \<and> t_status x = Staged) (sort_key (\<lambda>x. (t_trust x = ''project'', t_id x)) rnd)))"

definition decidedRows :: "task list \<Rightarrow> task \<Rightarrow> task list" where
  "decidedRows rnd t =
     (let byArch = (if list_ex (\<lambda>x. t_status x = Staged) rnd then stagedOf rnd
                    else (\<lambda>ar. if ar = t_arch t then find (\<lambda>x. t_id x = t_id t) rnd else None))
      in List.map_filter byArch REPO_ARCHES)"

definition inPool :: "db \<Rightarrow> string \<Rightarrow> bool" where
  "inPool d name \<longleftrightarrow> list_ex (\<lambda>a. a_name a = name \<and> stands a) (d_decisions d)"

definition lastBuild :: "db \<Rightarrow> string \<Rightarrow> int" where
  "lastBuild d name = foldr max (map t_id (filter (\<lambda>t. t_name t = name \<and> t_kind t = ''build'') (d_tasks d))) 0"

record closed_out =
  co_review :: int
  co_released :: bool
  co_cancelled :: "int list"

record closing_round =
  cl_changes :: bool
  cl_by :: login
  cl_task :: task
  cl_note :: string
  cl_self :: "solo option"
  cl_round :: "task list"
  cl_in_pool :: bool
  cl_through :: "string option"

definition closeWhy :: "closing_round \<Rightarrow> task_error" where
  "closeWhy x = RoundClosed (cl_by x) (cl_changes x) (cl_self x \<noteq> None) (take 500 (cl_note x))"

text \<open>Only a rejection frees a name, and only a request's.\<close>

definition frees :: "closing_round \<Rightarrow> bool" where
  "frees x \<longleftrightarrow> \<not> cl_changes x \<and> \<not> cl_in_pool x"

definition closedRound :: "closing_round \<Rightarrow> round" where
  "closedRound x = (let rows = decidedRows (cl_round x) (cl_task x) in
     \<lparr>rd_name = t_name (cl_task x), rd_version = t_version (cl_task x), rd_approved = False, rd_by = cl_by x, rd_note = Some (cl_note x),
      rd_arches = map t_arch rows, rd_not_supported = [], rd_only_reason = None, rd_not_shipping = [], rd_released = frees x,
      rd_changes = cl_changes x, rd_through = cl_through x, rd_solo = cl_self x,
      rd_rows = map (\<lambda>r. \<lparr>ro_task = t_id r, ro_arch = t_arch r, ro_version = t_version r, ro_rebuild = None\<rparr>) rows,
      rd_aside = [], rd_aside_why = closeWhy x\<rparr>)"

text \<open>After the decision: the round's builds stop, the registration closes the round, what they staged goes.\<close>

definition afterClose :: "closing_round \<Rightarrow> int \<Rightarrow> int \<Rightarrow> db \<Rightarrow> db" where
  "afterClose x rvid now d1 =
     (let ids = map t_id (cl_round x); name = t_name (cl_task x); last = lastBuild d1 name;
          d2 = d1\<lparr>d_tasks := sql_update (\<lambda>y. t_id y \<in> set ids \<and> inReview y) (stopSet (closeWhy x) now) (d_tasks d1)\<rparr>;
          d3 = setPackage name (\<lambda>p. p\<lparr>p_status := (if frees x then Rejected else Registered),
                 p_detail := RoundClosedBy (cl_by x) (cl_changes x) (cl_self x \<noteq> None) (take 200 (cl_note x)) (frees x),
                 p_closed_through := Some (max (nvl (p_closed_through p) 0) (if cl_in_pool x then 0 else last)),
                 p_freed_by_review := (if frees x then Some rvid else None)\<rparr>) d2;
          d4 = snd (reclaimStagingPackages ids (cancelPendings ids d3));
          d5 = add_event (ReviewEvent EvWarn name (cl_by x) (if cl_changes x then ''changes'' else ''reject'') ids (map_option soloMark (cl_self x))) d4
      in settleTargets d5 [name])"

definition closeWith :: "closing_round \<Rightarrow> int \<Rightarrow> db \<Rightarrow> (review_refusal + closed_out) \<times> db" where
  "closeWith x now d = (case takeRound (closedRound x) now d of
     (None, d1) \<Rightarrow> (Inl (DecidedAlready (decidedBy (map t_id (decidedRows (cl_round x) (cl_task x))) d1)), d1)
   | (Some (rvid, _), d1) \<Rightarrow>
       (Inr \<lparr>co_review = rvid, co_released = frees x, co_cancelled = map t_id (cl_round x)\<rparr>, afterClose x rvid now d1))"

definition closeRound ::
  "bool \<Rightarrow> person \<Rightarrow> int \<Rightarrow> string option \<Rightarrow> string option \<Rightarrow> int \<Rightarrow> db \<Rightarrow> db \<Rightarrow> (review_refusal + closed_out) \<times> db" where
  "closeRound changes c i saidNote through now d0 d = (case row_of i d0 of
     None \<Rightarrow> (Inl ReviewNoTask, d)
   | Some t \<Rightarrow> (let f = factsOf d0 t; note = trim (nvl saidNote [])
      in case decisions (Some c) (decidableOf t) f (if changes then RvChanges else RvReject) of
        Deny st why \<Rightarrow> (Inl (ReviewDenied st why), d)
      | Grant \<Rightarrow>
          if note = [] then (Inl (NoteRequired changes), d)
          else closeWith \<lparr>cl_changes = changes, cl_by = fst c, cl_task = t, cl_note = note, cl_self = selfReview (Some c) f,
                 cl_round = roundOf d0 t, cl_in_pool = inPool d0 (t_name t), cl_through = through\<rparr> now d))"

definition handleReject :: "person \<Rightarrow> int \<Rightarrow> string option \<Rightarrow> string option \<Rightarrow> int \<Rightarrow> db \<Rightarrow> db \<Rightarrow> (review_refusal + closed_out) \<times> db" where
  "handleReject = closeRound False"

definition handleChanges :: "person \<Rightarrow> int \<Rightarrow> string option \<Rightarrow> string option \<Rightarrow> int \<Rightarrow> db \<Rightarrow> db \<Rightarrow> (review_refusal + closed_out) \<times> db" where
  "handleChanges = closeRound True"

subsection \<open>Release: the claim let go, whole\<close>

definition inFlight :: "task \<Rightarrow> bool" where
  "inFlight t \<longleftrightarrow> t_status t = Queued \<or> t_status t = Leased"

definition releaseGuard :: "int list \<Rightarrow> db \<Rightarrow> task \<Rightarrow> bool" where
  "releaseGuard ids d t \<longleftrightarrow> t_id t \<in> set ids \<and> inReview t \<and> list_ex (\<lambda>l. t_id l \<in> set ids \<and> inFlight l) (d_tasks d)"

definition releaseSet :: "task_error \<Rightarrow> int \<Rightarrow> task \<Rightarrow> task" where
  "releaseSet why now t = t\<lparr>t_status := Cancelled, t_error := Some why, t_lease_expires := None, t_finished_at := Some now\<rparr>"

definition RELEASE_SQL :: "task_error \<Rightarrow> int list \<Rightarrow> int \<Rightarrow> db \<Rightarrow> int list \<times> db" where
  "RELEASE_SQL why ids now d =
     (map t_id (filter (releaseGuard ids d) (d_tasks d)), d\<lparr>d_tasks := sql_update (releaseGuard ids d) (releaseSet why now) (d_tasks d)\<rparr>)"

definition paramText :: "string \<Rightarrow> task \<Rightarrow> string option" where
  "paramText key t = (case map_of (t_params t) key of Some (JStr s) \<Rightarrow> Some s | _ \<Rightarrow> None)"

definition CLAIM_ROWS_SQL :: "int list \<Rightarrow> db \<Rightarrow> task list" where
  "CLAIM_ROWS_SQL ids d = filter (\<lambda>t. t_id t \<in> set ids) (d_tasks d)"

record released_out =
  lo_tasks :: "int list"
  lo_arches :: "arch list"
  lo_staged :: "arch list"
  lo_claimed_by :: "login option"

definition afterRelease :: "login \<Rightarrow> solo option \<Rightarrow> string \<Rightarrow> string \<Rightarrow> task list \<Rightarrow> int list \<Rightarrow> db \<Rightarrow> released_out \<times> db" where
  "afterRelease l self name reason rows gone d1 =
     (let d2 = snd (reclaimStagingPackages gone (cancelPendings gone d1));
          went = filter (\<lambda>r. t_id r \<in> set gone) rows;
          claimedBy = first_of (filter (\<lambda>s. s \<noteq> []) (List.map_filter (paramText ''by'') went));
          d3 = setPackage name (\<lambda>p. p\<lparr>p_detail := ReleasedClaimOf claimedBy l (take 200 reason)\<rparr>) d2;
          d4 = add_event (ReviewEvent EvWarn name l ''release'' gone (map_option soloMark self)) d3
      in (\<lparr>lo_tasks = gone, lo_arches = filter (\<lambda>a. a \<in> t_arch ` set went) REPO_ARCHES,
           lo_staged = map t_arch (filter (\<lambda>r. t_status r = Staged) went), lo_claimed_by = claimedBy\<rparr>, settleTargets d4 [name]))"

definition handleRelease :: "person \<Rightarrow> int \<Rightarrow> string option \<Rightarrow> int \<Rightarrow> db \<Rightarrow> db \<Rightarrow> (review_refusal + released_out) \<times> db" where
  "handleRelease c i saidReason now d0 d = (case row_of i d0 of
     None \<Rightarrow> (Inl ReviewNoTask, d)
   | Some t \<Rightarrow> (let f = factsOf d0 t; self = selfReview (Some c) f; reason = trim (nvl saidReason [])
      in case decisions (Some c) (decidableOf t) f RvRelease of
        Deny st why \<Rightarrow> (Inl (ReviewDenied st why), d)
      | Grant \<Rightarrow>
          if length reason < 4 then (Inl (ReasonRequired []), d)
          else (case RELEASE_SQL (ClaimReleased (fst c) (self \<noteq> None) (take 300 reason)) (f_claim f) now d of
                  (gone, d1) \<Rightarrow>
                    if gone = [] then (Inl (NothingLeftToRelease (t_name t)), d1)
                    else (let (out, d2) = afterRelease (fst c) self (t_name t) reason (CLAIM_ROWS_SQL (f_claim f) d) gone d1 in (Inr out, d2)))))"

subsection \<open>The project's copy released to any host\<close>

record placement_view = placement +
  pw_requesters :: "login list"
  pw_released :: "login option"

datatype any_host_why =
    AhSignIn
  | AhMaintainer
  | AhNotACopy int
  | AhNotQueued int task_status
  | AhSoloHosts login "string list"
  | AhYouBrought string
  | AhReleasedBy login
  | AhOthersCan "string list"
  | AhNoHost

definition anyHostVerdict :: "person option \<Rightarrow> task \<Rightarrow> placement_view option \<Rightarrow> any_host_why option" where
  "anyHostVerdict c t p = (case c of
     None \<Rightarrow> Some AhSignIn
   | Some who \<Rightarrow>
       if \<not> snd who then Some AhMaintainer
       else if t_kind t \<noteq> ''build'' \<or> t_trust t \<noteq> ''project'' \<or> t_review t = None then Some (AhNotACopy (t_id t))
       else if t_status t \<noteq> Queued then Some (AhNotQueued (t_id t) (t_status t))
       else (case p of
         None \<Rightarrow> Some (AhNotQueued (t_id t) (t_status t))
       | Some v \<Rightarrow>
           if (case p_solo v of Some (_, hosts) \<Rightarrow> hosts \<noteq> [] \<and> pw_released v = None | None \<Rightarrow> False)
           then Some (AhSoloHosts (fst (the (p_solo v))) (snd (the (p_solo v))))
           else if fst who \<in> set (pw_requesters v) then Some (AhYouBrought (t_name t))
           else (case pw_released v of
             Some l \<Rightarrow> Some (AhReleasedBy l)
           | None \<Rightarrow> if p_others v \<noteq> [] then Some (AhOthersCan (p_others v)) else if p_mine v = [] then Some AhNoHost else None)))"

definition anyHostGuard :: "int \<Rightarrow> task \<Rightarrow> bool" where
  "anyHostGuard i t \<longleftrightarrow> t_id t = i \<and> t_status t = Queued \<and> (map_of (t_params t) ''any_host'' = None \<or> map_of (t_params t) ''any_host'' = Some JNull)"

definition ANY_HOST_SQL :: "login \<Rightarrow> string \<Rightarrow> string \<Rightarrow> int \<Rightarrow> db \<Rightarrow> task option \<times> db" where
  "ANY_HOST_SQL l atText passkey i d = update_tasks (anyHostGuard i)
     (\<lambda>t. t\<lparr>t_params := (''any_host'', JObj [(''by'', JStr l), (''at'', JStr atText), (''passkey'', JStr passkey)]) # filter (\<lambda>kv. fst kv \<noteq> ''any_host'') (t_params t)\<rparr>) d"

datatype any_host_refusal = AhNoTask | AhDenied any_host_why | AhPasskey | AhMoved

text \<open>The placement is what the fleet's read said (routes/factory.ts \<open>placements\<close>), the gate's answer the passkey that confirmed it.\<close>

definition handleAnyHost ::
  "person \<Rightarrow> int \<Rightarrow> placement_view option \<Rightarrow> string option \<Rightarrow> string \<Rightarrow> db \<Rightarrow> db \<Rightarrow> (any_host_refusal + string list) \<times> db" where
  "handleAnyHost c i p gate atText d0 d = (case row_of i d0 of
     None \<Rightarrow> (Inl AhNoTask, d)
   | Some t \<Rightarrow> (case (anyHostVerdict (Some c) t p, p) of
       (Some why, _) \<Rightarrow> (Inl (AhDenied why), d)
     | (None, None) \<Rightarrow> (Inl (AhDenied AhNoHost), d)
     | (None, Some v) \<Rightarrow> (case gate of
         None \<Rightarrow> (Inl AhPasskey, d)
       | Some passkey \<Rightarrow> (case ANY_HOST_SQL (fst c) atText passkey i d of
           (None, d1) \<Rightarrow> (Inl AhMoved, d1)
         | (Some _, d1) \<Rightarrow> (Inr (p_mine v), add_event (ReviewEvent EvWarn (t_name t) (fst c) ''any_host'' [i] None) d1)))))"

subsection \<open>The cancel by hand\<close>

datatype hand_refusal = HandConflict review_why | IsAClaim int "login option" int | PublishesApproved int login

text \<open>None: the cancel goes on.\<close>

definition cancelByHand :: "person \<Rightarrow> int \<Rightarrow> db \<Rightarrow> hand_refusal option" where
  "cancelByHand c i d = (case row_of i d of
     None \<Rightarrow> None
   | Some t \<Rightarrow>
       if \<not> inFlight t then None
       else if t_kind t = ''build'' \<and> t_trust t = ''project'' \<and> t_review t \<noteq> None
       then (let rv = the (t_review t) in
             case Option.bind (row_of rv d) (\<lambda>from. case decisions (Some c) (decidableOf from) (factsOf d from) RvRelease of
                 Deny st why \<Rightarrow> if verdictCode (Deny st why) = Some CodeConflict then Some why else None
               | Grant \<Rightarrow> None) of
               Some why \<Rightarrow> Some (HandConflict why)
             | None \<Rightarrow> Some (IsAClaim i (paramText ''by'' t) rv))
       else if t_kind t = ''publish''
       then map_option (\<lambda>a. PublishesApproved i (a_by a)) (find (\<lambda>a. paramIs ''task'' (a_task_id a) t \<and> stands a) (d_decisions d))
       else None)"

subsection \<open>An approval taken back\<close>

definition takenBack :: "db \<Rightarrow> decision \<Rightarrow> int list" where
  "takenBack d a = (case a_review_id a of
     Some r \<Rightarrow> map a_id (filter (\<lambda>x. a_review_id x = Some r \<and> stands x) (d_decisions d))
   | None \<Rightarrow> [a_id a])"

definition withdrawBatch :: "int \<Rightarrow> decision \<Rightarrow> db \<Rightarrow> db" where
  "withdrawBatch now a d = d\<lparr>
     d_decisions := sql_update (\<lambda>x. a_id x \<in> set (takenBack d a)) (\<lambda>x. x\<lparr>a_withdrawn_at := Some now\<rparr>) (d_decisions d),
     d_reviews := sql_update (\<lambda>v. Some (v_id v) = a_review_id a \<and> v_withdrawn_at v = None) (\<lambda>v. v\<lparr>v_withdrawn_at := Some now\<rparr>) (d_reviews d)\<rparr>"

text \<open>A block takes back every approval of the package that stands, in its own batch.\<close>

definition blockWithdraws :: "int \<Rightarrow> string \<Rightarrow> db \<Rightarrow> db" where
  "blockWithdraws now name d = d\<lparr>
     d_decisions := sql_update (\<lambda>x. a_name x = name \<and> stands x) (\<lambda>x. x\<lparr>a_withdrawn_at := Some now\<rparr>) (d_decisions d),
     d_reviews := sql_update (\<lambda>v. v_name v = name \<and> v_approved v \<and> v_withdrawn_at v = None) (\<lambda>v. v\<lparr>v_withdrawn_at := Some now\<rparr>) (d_reviews d)\<rparr>"

end
