(* ===== verification/Review_Steps.thy ===== *)
theory Review_Steps
  imports Review_Rounds
begin

text \<open>
  What each door of a review does to the tables: it adds rows with fresh ids, cancels builds, and writes a round's rows only while its
  builds are undecided. These are the steps of the runs in \<open>Review_Runs\<close>.
\<close>

subsection \<open>Frames\<close>

named_theorems review_frames \<open>what the bookkeeping after a decision leaves as it was\<close>

lemma reclaim_tables [review_frames]:
  "d_tasks (snd (reclaimStagingPackages ids d)) = d_tasks d" "d_decisions (snd (reclaimStagingPackages ids d)) = d_decisions d"
  "d_reviews (snd (reclaimStagingPackages ids d)) = d_reviews d" "d_solo (snd (reclaimStagingPackages ids d)) = d_solo d"
  "d_events (snd (reclaimStagingPackages ids d)) = d_events d" "d_packages (snd (reclaimStagingPackages ids d)) = d_packages d"
  by (simp_all add: reclaimStagingPackages_def drop_staged_def Let_def)

lemma settle_tables [review_frames]:
  "d_tasks (settleTargets d ns) = d_tasks d" "d_decisions (settleTargets d ns) = d_decisions d" "d_reviews (settleTargets d ns) = d_reviews d"
  "d_solo (settleTargets d ns) = d_solo d" "d_events (settleTargets d ns) = d_events d" "d_staging (settleTargets d ns) = d_staging d"
  by simp_all

lemma setPackage_tables [review_frames]:
  "d_tasks (setPackage n f d) = d_tasks d" "d_decisions (setPackage n f d) = d_decisions d" "d_reviews (setPackage n f d) = d_reviews d"
  "d_solo (setPackage n f d) = d_solo d" "d_events (setPackage n f d) = d_events d"
  by (simp_all add: setPackage_def)

lemma add_event_tables [review_frames]:
  "d_tasks (add_event e d) = d_tasks d" "d_decisions (add_event e d) = d_decisions d" "d_reviews (add_event e d) = d_reviews d"
  "d_solo (add_event e d) = d_solo d" "d_events (add_event e d) = e # d_events d" "d_packages (add_event e d) = d_packages d"
  by (simp_all add: add_event_def)

lemma cancelPending_tables [review_frames]:
  "d_decisions (cancelPending k i d) = d_decisions d" "d_reviews (cancelPending k i d) = d_reviews d"
  "d_solo (cancelPending k i d) = d_solo d" "d_events (cancelPending k i d) = d_events d" "d_packages (cancelPending k i d) = d_packages d"
  by (simp_all add: cancelPending_def)

lemma cancelPendings_tables [review_frames]:
  "d_decisions (cancelPendings ids d) = d_decisions d" "d_reviews (cancelPendings ids d) = d_reviews d"
  "d_solo (cancelPendings ids d) = d_solo d" "d_events (cancelPendings ids d) = d_events d" "d_packages (cancelPendings ids d) = d_packages d"
  by (induction ids arbitrary: d; simp add: cancelPendings_def cancelPendingAudit_def review_frames)+

lemma insertTask_tables [review_frames]:
  "d_decisions (snd (insertTask a d)) = d_decisions d" "d_reviews (snd (insertTask a d)) = d_reviews d"
  "d_solo (snd (insertTask a d)) = d_solo d" "d_events (snd (insertTask a d)) = d_events d" "d_packages (snd (insertTask a d)) = d_packages d"
  by (simp_all add: insertTask_def Let_def)

lemma publishAll_tables [review_frames]:
  "d_decisions (snd (publishAll l rv trial xs d)) = d_decisions d" "d_reviews (snd (publishAll l rv trial xs d)) = d_reviews d"
  "d_events (snd (publishAll l rv trial xs d)) = d_events d"
  by (induction xs arbitrary: d) (auto simp: Let_def case_prod_unfold review_frames)

subsection \<open>Tasks\<close>

definition is_rebuild :: "task \<Rightarrow> bool" where
  "is_rebuild x \<longleftrightarrow> t_kind x = ''build'' \<and> t_trust x = ''project'' \<and> t_review x \<noteq> None"

text \<open>A row that stays the task it is; a rebuild that ended is not in review again.\<close>

definition keeps :: "task \<Rightarrow> task \<Rightarrow> bool" where
  "keeps x y \<longleftrightarrow> t_id y = t_id x \<and> t_name y = t_name x \<and> t_arch y = t_arch x \<and> t_kind y = t_kind x \<and> t_trust y = t_trust x
     \<and> t_review y = t_review x \<and> (is_rebuild x \<and> inReview y \<longrightarrow> inReview x)"

lemma keeps_refl [simp]: "keeps x x"
  by (simp add: keeps_def)

lemma keeps_rebuild: "keeps x y \<Longrightarrow> is_rebuild y = is_rebuild x"
  by (simp add: keeps_def is_rebuild_def)

lemma keeps_trans: "keeps x y \<Longrightarrow> keeps y z \<Longrightarrow> keeps x z"
  by (simp add: keeps_def is_rebuild_def)

definition tasks_step :: "task list \<Rightarrow> task list \<Rightarrow> bool" where
  "tasks_step xs ys \<longleftrightarrow> (\<exists>news olds. ys = news @ olds \<and> list_all2 keeps xs olds \<and> (\<forall>x \<in> set news. \<not> is_rebuild x)
     \<and> distinct (map t_id news) \<and> t_id ` set news \<inter> t_id ` set xs = {})"

lemma keeps_ids: "list_all2 keeps xs ys \<Longrightarrow> map t_id ys = map t_id xs"
  by (induction rule: list_all2_induct) (auto simp: keeps_def)

lemma tasks_step_refl [simp]: "tasks_step xs xs"
  unfolding tasks_step_def by (rule exI [of _ "[]"]) (simp add: list_all2_refl)

lemma tasks_step_trans:
  assumes "tasks_step xs ys" "tasks_step ys zs"
  shows "tasks_step xs zs"
proof -
  obtain n1 o1 where 1: "ys = n1 @ o1" "list_all2 keeps xs o1" "\<forall>x \<in> set n1. \<not> is_rebuild x" "distinct (map t_id n1)" "t_id ` set n1 \<inter> t_id ` set xs = {}"
    using assms(1) unfolding tasks_step_def by blast
  obtain n2 o2 where 2: "zs = n2 @ o2" "list_all2 keeps ys o2" "\<forall>x \<in> set n2. \<not> is_rebuild x" "distinct (map t_id n2)" "t_id ` set n2 \<inter> t_id ` set ys = {}"
    using assms(2) unfolding tasks_step_def by blast
  obtain n3 o3 where 3: "o2 = n3 @ o3" "list_all2 keeps n1 n3" "list_all2 keeps o1 o3"
    using 2(2) unfolding 1(1) list_all2_append1 by blast
  have ids: "map t_id n3 = map t_id n1" "map t_id o1 = map t_id xs" "map t_id ys = map t_id n1 @ map t_id xs"
    using keeps_ids [OF 3(2)] keeps_ids [OF 1(2)] 1(1) by simp_all
  then have sets: "t_id ` set n3 = t_id ` set n1" "t_id ` set ys = t_id ` set n1 \<union> t_id ` set xs" by (metis list.set_map, metis list.set_map set_append)
  have old: "list_all2 keeps xs o3"
    by (rule list_all2_trans [OF _ 1(2) 3(3)]) (rule keeps_trans)
  have "\<not> is_rebuild x" if "x \<in> set n3" for x
    using that 3(2) 1(3) keeps_rebuild unfolding list_all2_conv_all_nth by (metis in_set_conv_nth)
  then have new: "\<forall>x \<in> set (n2 @ n3). \<not> is_rebuild x" using 2(3) by auto
  have "distinct (map t_id (n2 @ n3))" "t_id ` set (n2 @ n3) \<inter> t_id ` set xs = {}"
    using 1(4,5) 2(4,5) ids(1) sets by (simp_all add: image_Un Int_Un_distrib Int_Un_distrib2)
  with old new 2(1) 3(1) show ?thesis unfolding tasks_step_def
    by (intro exI [of _ "n2 @ n3"] exI [of _ o3]) simp
qed

lemma tasks_step_update:
  assumes "\<And>x. P x \<Longrightarrow> keeps x (f x)"
  shows "tasks_step xs (sql_update P f xs)"
  unfolding tasks_step_def
  by (rule exI [of _ "[]"], rule exI [of _ "sql_update P f xs"]) (use assms in \<open>auto simp: sql_update_def list_all2_conv_all_nth\<close>)

lemma tasks_step_distinct: "tasks_step xs ys \<Longrightarrow> distinct (map t_id xs) \<Longrightarrow> distinct (map t_id ys)"
  unfolding tasks_step_def using keeps_ids by (metis distinct_append list.set_map map_append)

lemma foldr_max_ge: "x \<in> set xs \<Longrightarrow> x \<le> foldr max xs (0 :: int)"
  by (induction xs) auto

lemma nextId_fresh: "nextId ids \<notin> set ids"
  using foldr_max_ge [of "nextId ids" ids] by (auto simp: nextId_def)

lemma insertTask_step:
  assumes "ta_review a = None"
  shows "tasks_step (d_tasks d) (d_tasks (snd (insertTask a d)))"
proof -
  let ?i = "nextId (map t_id (d_tasks d))"
  have "\<not> is_rebuild (newTask ?i a)" using assms by (simp add: is_rebuild_def newTask_def)
  moreover have "t_id (newTask ?i a) = ?i" by (simp add: newTask_def)
  ultimately show ?thesis unfolding tasks_step_def insertTask_def Let_def using nextId_fresh [of "map t_id (d_tasks d)"]
    by (intro exI [of _ "[newTask ?i a]"] exI [of _ "d_tasks d"]) (auto simp: list_all2_refl)
qed

lemma publishAll_step: "tasks_step (d_tasks d) (d_tasks (snd (publishAll l rv trial xs d)))"
proof (induction xs arbitrary: d)
  case (Cons x xs)
  obtain t files where x: "x = (t, files)" by (cases x)
  let ?d = "snd (insertTask (publishAsk l rv (trial (t_id t)) t files) d)"
  have "tasks_step (d_tasks d) (d_tasks ?d)" by (rule insertTask_step) (simp add: publishAsk_def)
  from tasks_step_trans [OF this Cons.IH [of ?d]] show ?case by (simp add: x Let_def case_prod_unfold)
qed simp

lemma stop_keeps: "keeps x (stopSet why now x)" "keeps x (releaseSet why now x)"
  by (simp_all add: keeps_def stopSet_def releaseSet_def inReview_def)

lemma cancelPending_step: "tasks_step (d_tasks d) (d_tasks (cancelPending k i d))"
  by (simp add: cancelPending_def tasks_step_update keeps_def inReview_def)

lemma cancelPendings_step: "tasks_step (d_tasks d) (d_tasks (cancelPendings ids d))"
proof (induction ids arbitrary: d)
  case (Cons i ids)
  have "tasks_step (d_tasks d) (d_tasks (cancelPendingAudit i d))"
    unfolding cancelPendingAudit_def by (rule tasks_step_trans; rule cancelPending_step)
  from tasks_step_trans [OF this Cons.IH [of "cancelPendingAudit i d"]] show ?case by (simp add: cancelPendings_def)
qed (simp add: cancelPendings_def)

subsection \<open>A round taken\<close>

definition live :: "int \<Rightarrow> decision \<Rightarrow> bool" where
  "live i a \<longleftrightarrow> a_task_id a = i \<and> a_withdrawn_at a = None"

lemma UNDECIDED_live: "UNDECIDED ids d \<longleftrightarrow> (\<forall>i \<in> set ids. filter (live i) (d_decisions d) = [])"
  by (auto simp: UNDECIDED_def live_def list_ex_iff filter_empty_conv)

lemma addRows_live:
  "length (filter (live i) (addRows r rv xs as)) = length (filter (\<lambda>x. ro_task x = i) xs) + length (filter (live i) as)"
  by (induction r rv xs as rule: addRows.induct) (auto simp: newDecision_def live_def)

lemma addRows_set: "set as \<subseteq> set (addRows r rv xs as)"
  by (induction r rv xs as rule: addRows.induct) auto

text \<open>A round refused writes nothing at all.\<close>

lemma asideGuard_False: "\<not> UNDECIDED guard d \<Longrightarrow> asideGuard ids guard d = (\<lambda>t. False)"
  by (simp add: asideGuard_def fun_eq_iff)

lemma SET_ASIDE_tables:
  "d_decisions (snd (SET_ASIDE_SQL why ids g now d)) = d_decisions d" "d_reviews (snd (SET_ASIDE_SQL why ids g now d)) = d_reviews d"
  "d_events (snd (SET_ASIDE_SQL why ids g now d)) = d_events d"
  "tasks_step (d_tasks d) (d_tasks (snd (SET_ASIDE_SQL why ids g now d)))"
  by (simp_all add: SET_ASIDE_SQL_def tasks_step_update stop_keeps)

lemma takeRound_refused:
  assumes "\<not> UNDECIDED (guardOf r) d"
  shows "takeRound r now d = (None, d)"
proof -
  have "SET_ASIDE_SQL why ids (guardOf r) now d = ([], d)" for why ids
    by (simp add: SET_ASIDE_SQL_def asideGuard_False [OF assms] sql_update_def)
  moreover have "REVIEW_SQL r d = (None, d)" "ROWS_SQL r d = (0, d)" using assms by (simp_all add: REVIEW_SQL_def ROWS_SQL_def)
  ultimately show ?thesis by (simp add: takeRound_def SOLO_REVIEW_SQL_def split: option.splits)
qed

lemma SOLO_tables: "d_decisions (SOLO_REVIEW_SQL s n k d) = d_decisions d" "d_tasks (SOLO_REVIEW_SQL s n k d) = d_tasks d"
  "d_events (SOLO_REVIEW_SQL s n k d) = d_events d"
  by (simp_all add: SOLO_REVIEW_SQL_def)

lemma takeRound_taken:
  assumes "UNDECIDED (guardOf r) d"
  obtains rv where "fst (takeRound r now d) = Some (nextId (map v_id (d_reviews d)), fst (if rd_aside r = [] then ([], d) else SET_ASIDE_SQL (rd_aside_why r) (rd_aside r) (guardOf r) now d))"
    "d_decisions (snd (takeRound r now d)) = addRows r rv (rd_rows r) (d_decisions d)"
    "tasks_step (d_tasks d) (d_tasks (snd (takeRound r now d)))"
    "d_tasks (snd (takeRound r now d)) = d_tasks (snd (if rd_aside r = [] then ([], d) else SET_ASIDE_SQL (rd_aside_why r) (rd_aside r) (guardOf r) now d))"
    "d_events (snd (takeRound r now d)) = d_events d"
proof -
  define p where "p = (if rd_aside r = [] then ([], d) else SET_ASIDE_SQL (rd_aside_why r) (rd_aside r) (guardOf r) now d)"
  have p: "d_decisions (snd p) = d_decisions d" "d_reviews (snd p) = d_reviews d" "tasks_step (d_tasks d) (d_tasks (snd p))" "d_events (snd p) = d_events d"
    by (simp_all add: p_def SET_ASIDE_tables)
  then have "UNDECIDED (guardOf r) (snd p)" using assms by (simp add: UNDECIDED_def)
  then have R: "REVIEW_SQL r (snd p) = (Some (nextId (map v_id (d_reviews d))), (snd p)\<lparr>d_reviews := newReview (nextId (map v_id (d_reviews d))) r # d_reviews d\<rparr>)"
    by (simp add: REVIEW_SQL_def Let_def p(2))
  define q where "q = (snd p)\<lparr>d_reviews := newReview (nextId (map v_id (d_reviews d))) r # d_reviews d\<rparr>"
  have R': "fst (REVIEW_SQL r (snd p)) = Some (nextId (map v_id (d_reviews d)))" "snd (REVIEW_SQL r (snd p)) = q" by (simp_all add: R q_def)
  have q: "d_decisions q = d_decisions d" "d_tasks q = d_tasks (snd p)" "d_events q = d_events d" by (simp_all add: q_def p)
  have W: "ROWS_SQL r q = (length (rd_rows r), q\<lparr>d_decisions := addRows r (newestReview (rd_name r) q) (rd_rows r) (d_decisions d)\<rparr>)"
    using assms by (simp add: ROWS_SQL_def UNDECIDED_def q(1))
  have T: "takeRound r now d = (Some (nextId (map v_id (d_reviews d)), fst p),
      (case rd_solo r of Some s \<Rightarrow> SOLO_REVIEW_SQL (sl_since s) (rd_name r) (length (rd_rows r)) (snd (ROWS_SQL r q)) | None \<Rightarrow> snd (ROWS_SQL r q)))"
    unfolding takeRound_def p_def [symmetric] by (simp add: case_prod_unfold Let_def R' W split: option.split)
  show thesis
    by (rule that [of "newestReview (rd_name r) q", unfolded p_def [symmetric]])
      (simp_all add: T W p q SOLO_tables split: option.splits)
qed

end
