(* ===== verification/Review_Runs.thy ===== *)
theory Review_Runs
  imports Review_Steps
begin

text \<open>
  Runs of a review: any interleaving of the doors, each reading the task and its facts from any earlier state of the run. The invariant:
  ids are distinct, a rebuild answers a build of its own architecture, a build has at most one decision that is not withdrawn, and at most
  one rebuild of it is queued, running or staged.
\<close>

subsection \<open>What the facts are read from\<close>

definition same_task :: "task \<Rightarrow> task \<Rightarrow> bool" where
  "same_task x y \<longleftrightarrow> t_id y = t_id x \<and> t_name y = t_name x \<and> t_arch y = t_arch x \<and> t_kind y = t_kind x \<and> t_trust y = t_trust x \<and> t_review y = t_review x"

definition persists :: "db \<Rightarrow> db \<Rightarrow> bool" where
  "persists d0 d \<longleftrightarrow> (\<forall>x \<in> set (d_tasks d0). \<exists>y \<in> set (d_tasks d). same_task x y)"

lemma persists_refl [simp]: "persists d d"
  by (auto simp: persists_def same_task_def)

lemma persists_trans: "persists a b \<Longrightarrow> persists b c \<Longrightarrow> persists a c"
  unfolding persists_def same_task_def by metis

lemma tasks_step_persists:
  assumes "tasks_step (d_tasks d) (d_tasks d')"
  shows "persists d d'"
proof -
  obtain news olds where o: "d_tasks d' = news @ olds" "list_all2 keeps (d_tasks d) olds" using assms unfolding tasks_step_def by blast
  have "\<exists>y \<in> set olds. same_task x y" if "x \<in> set (d_tasks d)" for x
  proof -
    obtain n where "n < length (d_tasks d)" "d_tasks d ! n = x" using \<open>x \<in> set (d_tasks d)\<close> by (metis in_set_conv_nth)
    then have "keeps x (olds ! n)" "olds ! n \<in> set olds" using o(2) by (auto simp: list_all2_conv_all_nth)
    then show ?thesis unfolding keeps_def same_task_def by blast
  qed
  then show ?thesis unfolding persists_def o(1) by auto
qed

definition packageBuilds :: "db \<Rightarrow> string \<Rightarrow> target_build list" where
  "packageBuilds d name = pr_builds (the (packageRows d name True))"

lemma packageBuilds_tasks:
  assumes "b \<in> set (packageBuilds d name)"
  obtains x where "x \<in> set (d_tasks d)" "b = targetBuildOf x" "t_kind x = ''build''"
  using assms by (auto simp: packageBuilds_def packageRows_def Let_def newestBuilds_def dest!: in_set_takeD)

lemma factsOf_builds:
  "ff_builds (factsOf d t) = buildsOfPackage (packageBuilds d (t_name t)) (pr_decisions (the (packageRows d (t_name t) True)))"
  "ff_targets (factsOf d t) = targetsOf (pr_arches (the (packageRows d (t_name t) True))) (packageBuilds d (t_name t))
     (pr_decisions (the (packageRows d (t_name t) True))) (pr_closedThrough (the (packageRows d (t_name t) True))) (pr_notShipping (the (packageRows d (t_name t) True)))"
  "f_solo (factsOf d t) = d_solo d"
  "f_claim (factsOf d t) = claimOf (ff_builds (factsOf d t))"
  by (simp_all add: factsOf_def Let_def packageBuilds_def)

lemma staged_task:
  assumes "s \<in> set (pb_staged (ff_builds (factsOf d t)))"
  obtains x where "x \<in> set (d_tasks d)" "t_id x = sb_id s" "t_arch x = sb_arch s" "t_version x = sb_version s"
proof -
  from assms obtain b where b: "b \<in> set (packageBuilds d (t_name t))" "s = \<lparr>sb_id = tb_id b, sb_arch = tb_arch b, sb_version = tb_version b\<rparr>"
    by (auto simp: factsOf_builds buildsOfPackage_def Let_def)
  obtain x where "x \<in> set (d_tasks d)" "b = targetBuildOf x" using b(1) by (rule packageBuilds_tasks)
  then show thesis using b(2) that by (simp add: targetBuildOf_def)
qed

lemma project_task:
  assumes "b \<in> set (pb_project (ff_builds (factsOf d t)))"
  obtains x where "x \<in> set (d_tasks d)" "t_id x = rb_id b" "t_arch x = rb_arch b" "t_status x = rb_status b" "t_review x = Some (rb_review b)" "is_rebuild x"
proof -
  from assms obtain q where q: "q \<in> set (packageBuilds d (t_name t))" "tb_trust q = ''project''"
    "tb_review q = Some (rb_review b)" "rb_id b = tb_id q" "rb_arch b = tb_arch q" "rb_status b = tb_status q"
    by (auto simp: factsOf_builds buildsOfPackage_def Let_def List.map_filter_def split: if_splits)
  obtain x where "x \<in> set (d_tasks d)" "q = targetBuildOf x" "t_kind x = ''build''" using q(1) by (rule packageBuilds_tasks)
  with q(2-) show thesis by (intro that [of x]) (simp_all add: targetBuildOf_def is_rebuild_def)
qed

text \<open>A target that stands on a build is of a build of its architecture.\<close>

lemma target_task:
  assumes "map_of (ff_targets (factsOf d t)) a = Some tg" "tg_task tg = Some k" "tg_status tg \<noteq> NotShipping"
  obtains x where "x \<in> set (d_tasks d)" "t_id x = k" "t_arch x = a"
proof -
  let ?rows = "the (packageRows d (t_name t) True)"
  have "tg = targetOf (packageBuilds d (t_name t)) (pr_decisions ?rows) (pr_closedThrough ?rows) (pr_notShipping ?rows) a"
    using assms(1) by (simp add: factsOf_builds map_of_targetsOf split: if_splits)
  then obtain b where b: "newestOf (packageBuilds d (t_name t)) (pr_decisions ?rows) (pr_closedThrough ?rows) a = Some b" "tb_id b = k"
    using assms(2,3) by (auto simp: targetOf_def Let_def split: if_splits option.splits)
  have "tb_arch b = a" "b \<in> set (packageBuilds d (t_name t))" using newestOf_Some [OF b(1)] by (simp_all add: saysWhere_def)
  moreover obtain x where "x \<in> set (d_tasks d)" "b = targetBuildOf x" using calculation(2) by (rule packageBuilds_tasks)
  ultimately show thesis using b(2) by (intro that [of x]) (simp_all add: targetBuildOf_def)
qed

subsection \<open>The invariant\<close>

definition rebuilds_match :: "task list \<Rightarrow> bool" where
  "rebuilds_match xs \<longleftrightarrow> (\<forall>x \<in> set xs. is_rebuild x \<longrightarrow> (\<exists>y \<in> set xs. t_review x = Some (t_id y) \<and> t_arch y = t_arch x))"

definition one_live :: "decision list \<Rightarrow> bool" where
  "one_live as \<longleftrightarrow> (\<forall>i. length (filter (live i) as) \<le> 1)"

definition claims_ok :: "task list \<Rightarrow> bool" where
  "claims_ok xs \<longleftrightarrow> (\<forall>n i. length (filter (isRebuild n [i]) xs) \<le> 1)"

definition review_ok :: "db \<Rightarrow> bool" where
  "review_ok d \<longleftrightarrow> distinct (map t_id (d_tasks d)) \<and> rebuilds_match (d_tasks d) \<and> claims_ok (d_tasks d) \<and> one_live (d_decisions d)"

lemma isRebuild_is: "isRebuild n ids x \<Longrightarrow> is_rebuild x \<and> inReview x"
  by (auto simp: isRebuild_def is_rebuild_def inReview_def split: option.splits)

lemma keeps_isRebuild:
  assumes "keeps x y" "isRebuild n ids y"
  shows "isRebuild n ids x"
  using assms(1) isRebuild_is [OF assms(2)] assms(2) by (auto simp: keeps_def isRebuild_def is_rebuild_def inReview_def split: option.splits)

lemma keeps_count:
  assumes "list_all2 keeps xs ys"
  shows "length (filter (isRebuild n ids) ys) \<le> length (filter (isRebuild n ids) xs)"
  using assms by (induction rule: list_all2_induct) (auto dest: keeps_isRebuild)

lemma tasks_step_claims:
  assumes "tasks_step xs ys" "claims_ok xs"
  shows "claims_ok ys"
proof -
  obtain news olds where o: "ys = news @ olds" "list_all2 keeps xs olds" "\<forall>x \<in> set news. \<not> is_rebuild x" using assms(1) unfolding tasks_step_def by blast
  have "filter (isRebuild n [i]) news = []" for n i using o(3) isRebuild_is by (auto simp: filter_empty_conv)
  then show ?thesis unfolding claims_ok_def o(1)
    using keeps_count [OF o(2)] assms(2) unfolding claims_ok_def by (simp add: le_trans [OF keeps_count [OF o(2)]])
qed

lemma tasks_step_match:
  assumes "tasks_step xs ys" "rebuilds_match xs"
  shows "rebuilds_match ys"
  unfolding rebuilds_match_def
proof (intro ballI impI)
  obtain news olds where o: "ys = news @ olds" "list_all2 keeps xs olds" "\<forall>x \<in> set news. \<not> is_rebuild x" using assms(1) unfolding tasks_step_def by blast
  fix y assume y: "y \<in> set ys" "is_rebuild y"
  then have "y \<in> set olds" using o(1,3) by auto
  then obtain n where n: "n < length olds" "olds ! n = y" by (metis in_set_conv_nth)
  then have x: "keeps (xs ! n) y" "xs ! n \<in> set xs" using o(2) by (auto simp: list_all2_conv_all_nth)
  then have "is_rebuild (xs ! n)" using y(2) keeps_rebuild by blast
  then obtain b where b: "b \<in> set xs" "t_review (xs ! n) = Some (t_id b)" "t_arch b = t_arch (xs ! n)" using assms(2) x(2) unfolding rebuilds_match_def by blast
  obtain m where m: "m < length xs" "xs ! m = b" using b(1) by (metis in_set_conv_nth)
  then have "keeps b (olds ! m)" "olds ! m \<in> set ys" using o(1,2) by (auto simp: list_all2_conv_all_nth)
  then show "\<exists>z \<in> set ys. t_review y = Some (t_id z) \<and> t_arch z = t_arch y"
    using b(2,3) x(1) by (intro bexI [of _ "olds ! m"]) (simp_all add: keeps_def)
qed

lemma review_ok_step:
  assumes "review_ok d" "tasks_step (d_tasks d) (d_tasks d')" "one_live (d_decisions d')"
  shows "review_ok d'"
  using assms tasks_step_distinct tasks_step_match tasks_step_claims unfolding review_ok_def by blast

subsection \<open>Each door keeps it\<close>

lemma length_filter_distinct: "distinct (map f xs) \<Longrightarrow> length (filter (\<lambda>x. f x = i) xs) \<le> 1"
  by (induction xs) (auto simp: filter_empty_conv image_iff)

lemma takeRound_one_live:
  assumes "distinct (map ro_task (rd_rows r))" "one_live (d_decisions d)"
  shows "one_live (d_decisions (snd (takeRound r now d)))"
proof (cases "UNDECIDED (guardOf r) d")
  case False
  then show ?thesis using assms(2) by (simp add: takeRound_refused)
next
  case True
  then obtain rv where rows: "d_decisions (snd (takeRound r now d)) = addRows r rv (rd_rows r) (d_decisions d)" by (rule takeRound_taken)
  have "length (filter (live i) (addRows r rv (rd_rows r) (d_decisions d))) \<le> 1" for i
  proof (cases "i \<in> set (map ro_task (rd_rows r))")
    case True
    then have "filter (live i) (d_decisions d) = []" using \<open>UNDECIDED (guardOf r) d\<close> unfolding UNDECIDED_live guardOf_def by auto
    then show ?thesis using length_filter_distinct [OF assms(1), of i] by (simp add: addRows_live)
  next
    case False
    then have "filter (\<lambda>x. ro_task x = i) (rd_rows r) = []" by (auto simp: filter_empty_conv)
    then show ?thesis using assms(2) by (simp add: addRows_live one_live_def)
  qed
  then show ?thesis by (simp add: rows one_live_def)
qed

lemma takeRound_step: "tasks_step (d_tasks d) (d_tasks (snd (takeRound r now d)))"
  by (cases "UNDECIDED (guardOf r) d") (auto simp: takeRound_refused elim: takeRound_taken [where r = r and now = now])

lemma afterApproval_step:
  "tasks_step (d_tasks d) (d_tasks (snd (afterApproval x trial rv gone d)))" "d_decisions (snd (afterApproval x trial rv gone d)) = d_decisions d"
proof -
  show "d_decisions (snd (afterApproval x trial rv gone d)) = d_decisions d"
    by (simp add: afterApproval_def Let_def case_prod_unfold review_frames)
  let ?p = "snd (publishAll (ax_by x) rv trial (map (\<lambda>r. (r, packageFiles d (t_id r))) (ax_rows x)) d)"
  have c: "tasks_step (d_tasks y) (d_tasks (add_event e (cancelPendings ids (setPackage n g y))))" for e ids n g y
    using cancelPendings_step [of "setPackage n g y" ids] by (simp add: review_frames)
  show "tasks_step (d_tasks d) (d_tasks (snd (afterApproval x trial rv gone d)))"
    unfolding afterApproval_def Let_def case_prod_unfold snd_conv settle_tables reclaim_tables
    by (rule tasks_step_trans [OF publishAll_step tasks_step_trans [OF c cancelPendings_step]])
qed

lemma approveWith_step:
  "tasks_step (d_tasks d) (d_tasks (snd (approveWith x trial now d)))"
  "distinct (map t_id (ax_rows x)) \<Longrightarrow> one_live (d_decisions d) \<Longrightarrow> one_live (d_decisions (snd (approveWith x trial now d)))"
proof -
  have res: "snd (approveWith x trial now d) = (case fst (takeRound (approveRound x) now d) of None \<Rightarrow> snd (takeRound (approveRound x) now d)
     | Some (rv, gone) \<Rightarrow> snd (afterApproval x trial rv gone (snd (takeRound (approveRound x) now d))))"
    by (simp add: approveWith_def case_prod_unfold Let_def split: option.split)
  show "tasks_step (d_tasks d) (d_tasks (snd (approveWith x trial now d)))"
    using tasks_step_trans [OF takeRound_step afterApproval_step(1)] takeRound_step by (simp add: res split: option.split prod.split)
  assume "distinct (map t_id (ax_rows x))" "one_live (d_decisions d)"
  then have "one_live (d_decisions (snd (takeRound (approveRound x) now d)))" by (intro takeRound_one_live) (simp_all add: approveRound_def comp_def)
  then show "one_live (d_decisions (snd (approveWith x trial now d)))" by (simp add: res afterApproval_step(2) split: option.split prod.split)
qed

lemma firstDeny_Grant: "firstDeny xs = Grant \<longleftrightarrow> (\<forall>x \<in> set xs. x = None)"
  by (induction xs rule: firstDeny.induct) auto

lemma approve_project:
  assumes "decisions c t f RvApprove = Grant \<or> decisions c t f RvApproveOnly = Grant"
  shows "rr_trust t = ''project''"
  using assms by (auto simp: firstDeny_Grant approvable_def denyIf_def split: if_splits)

text \<open>The other architectures' rebuilds are never the build the approval is asked on.\<close>

lemma same_id: "distinct (map t_id xs) \<Longrightarrow> x \<in> set xs \<Longrightarrow> y \<in> set xs \<Longrightarrow> t_id x = t_id y \<Longrightarrow> x = y"
  by (metis distinct_map inj_onD)

lemma find_in: "find P xs = Some x \<Longrightarrow> x \<in> set xs \<and> P x"
  by (auto simp: find_Some_iff)

lemma standingBuild_from:
  assumes "standingBuild p tgs a = Some s"
  obtains tg k where "map_of tgs a = Some tg" "tg_task tg = Some k" "reviewedFrom (Some tg) p = Some (sb_id s)" "s \<in> set (pb_staged p)"
proof -
  obtain k0 where f: "reviewedFrom (map_of tgs a) p = Some k0" "find (\<lambda>s. sb_id s = k0) (pb_staged p) = Some s"
    using assms by (auto simp: standingBuild_def bind_eq_Some_conv)
  have s: "sb_id s = k0" "s \<in> set (pb_staged p)" using f(2) by (auto dest: find_in)
  obtain tg where tg: "map_of tgs a = Some tg" using f(1) by (cases "map_of tgs a") (auto simp: reviewedFrom_def)
  obtain k where "tg_task tg = Some k" using f(1) tg by (cases "tg_task tg") (auto simp: reviewedFrom_def)
  with that tg s f(1) show thesis by simp
qed

lemma others_elsewhere:
  assumes "distinct (map t_id (d_tasks d0))" "rebuilds_match (d_tasks d0)" "t \<in> set (d_tasks d0)" "b \<in> set (otherRebuilds t (factsOf d0 t))"
  shows "rb_id b \<noteq> t_id t"
proof
  assume id: "rb_id b = t_id t"
  let ?f = "factsOf d0 t"
  obtain s a where s: "find (\<lambda>p. rb_review p = sb_id s) (pb_project (ff_builds ?f)) = Some b" "a \<noteq> t_arch t"
    "standingBuild (ff_builds ?f) (ff_targets ?f) a = Some s"
    using assms(4) by (auto simp: otherRebuilds_def othersOf_def List.map_filter_def)
  have b: "b \<in> set (pb_project (ff_builds ?f))" "rb_review b = sb_id s" using s(1) by (auto dest: find_in)
  obtain x where x: "x \<in> set (d_tasks d0)" "t_id x = rb_id b" "t_review x = Some (rb_review b)" "is_rebuild x" using b(1) by (rule project_task)
  then have xt: "x = t" using same_id [OF assms(1)] assms(3) id by metis
  obtain y where y: "y \<in> set (d_tasks d0)" "t_id y = sb_id s" "t_arch y = t_arch t"
    using assms(2) x xt b(2) unfolding rebuilds_match_def by (metis option.inject)
  obtain tg k where tg: "map_of (ff_targets ?f) a = Some tg" "tg_task tg = Some k" "reviewedFrom (Some tg) (ff_builds ?f) = Some (sb_id s)"
    using s(3) by (rule standingBuild_from)
  then have "tg_status tg \<noteq> NotShipping" by (auto simp: reviewedFrom_def split: if_splits)
  with tg(1,2) obtain z where z: "z \<in> set (d_tasks d0)" "t_id z = k" "t_arch z = a" by (rule target_task)
  show False
  proof (cases "tg_status tg = Built")
    case True
    then have "t_id z = sb_id s" using tg(2,3) z(2) by (simp add: reviewedFrom_def)
    then have "z = y" using same_id [OF assms(1) z(1) y(1)] y(2) by simp
    then show False using y(3) z(3) s(2) by simp
  next
    case False
    then obtain c where c: "c \<in> set (pb_project (ff_builds ?f))" "rb_id c = k" "rb_review c = sb_id s"
      using tg(2,3) by (auto simp: reviewedFrom_def dest!: find_in split: if_splits)
    obtain w where w: "w \<in> set (d_tasks d0)" "t_id w = rb_id c" "t_review w = Some (rb_review c)" "is_rebuild w" using c(1) by (rule project_task)
    then have "w = z" using same_id [OF assms(1) _ z(1)] z(2) c(2) by simp
    then obtain y' where "y' \<in> set (d_tasks d0)" "t_id y' = sb_id s" "t_arch y' = a"
      using assms(2) w c(3) z(3) unfolding rebuilds_match_def by (metis option.inject)
    then show False using same_id [OF assms(1) _ y(1)] y(2,3) s(2) by metis
  qed
qed

lemma distinct_map_sort: "distinct (map f (sort_key k xs)) \<longleftrightarrow> distinct (map f xs)"
  by (simp only: distinct_map distinct_sort set_sort)

lemma approveRows_distinct:
  assumes "review_ok d0" "distinct (map t_id (d_tasks d))" "t \<in> set (d_tasks d0)"
  shows "distinct (map t_id (approveRows one t (factsOf d0 t) d))"
proof -
  define ids where "ids = map rb_id (filter (\<lambda>p. rb_status p = Staged) (if one then [] else otherRebuilds t (factsOf d0 t)))"
  have "rb_id p \<noteq> t_id t" if "p \<in> set (otherRebuilds t (factsOf d0 t))" for p
    using others_elsewhere [OF _ _ assms(3) that] assms(1) by (simp add: review_ok_def)
  then have "\<forall>p \<in> set (otherRebuilds t (factsOf d0 t)). t_id t \<noteq> rb_id p" by metis
  then have "t_id t \<notin> set ids" by (auto simp: ids_def)
  then have "distinct (map t_id (t # filter (\<lambda>x. t_id x \<in> set ids) (d_tasks d)))" using assms(2) by (auto simp: distinct_map_filter)
  then show ?thesis unfolding approveRows_def ids_def [symmetric] Let_def distinct_map_sort .
qed

lemma row_of_in: "row_of i d = Some t \<Longrightarrow> t \<in> set (d_tasks d) \<and> t_id t = i"
  by (auto simp: row_of_def dest: find_in)

text \<open>The shapes a door's branches take.\<close>

lemma branch_if: "(b \<Longrightarrow> P x) \<Longrightarrow> (\<not> b \<Longrightarrow> P y) \<Longrightarrow> P (if b then x else y)"
  by simp

lemma branch_verdict: "(\<And>st why. v = Deny st why \<Longrightarrow> P (no st why)) \<Longrightarrow> (v = Grant \<Longrightarrow> P yes) \<Longrightarrow> P (case v of Deny st why \<Rightarrow> no st why | Grant \<Rightarrow> yes)"
  by (cases v) simp_all

lemma branch_option: "(x = None \<Longrightarrow> P no) \<Longrightarrow> (\<And>y. x = Some y \<Longrightarrow> P (yes y)) \<Longrightarrow> P (case x of None \<Rightarrow> no | Some y \<Rightarrow> yes y)"
  by (cases x) simp_all

lemma approve_branches:
  assumes "\<And>e. P (Inl e, d)" "\<And>t e. row_of i d0 = Some t \<Longrightarrow> P (Inl e, settleTargets d [t_name t])"
    and "\<And>t x. row_of i d0 = Some t \<Longrightarrow> ax_task x = t \<Longrightarrow> ax_by x = fst c \<Longrightarrow> ax_facts x = factsOf d0 t \<Longrightarrow> ax_self x = selfReview (Some c) (factsOf d0 t)
      \<Longrightarrow> ax_rows x = approveRows (ax_one x) t (factsOf d0 t) d
      \<Longrightarrow> decisions (Some c) (decidableOf t) (factsOf d0 t) (if ax_one x then RvApproveOnly else RvApprove) = Grant
      \<Longrightarrow> decidedWith (ap_through b) (ap_gate b)
      \<Longrightarrow> \<forall>r \<in> set (ax_rows x). packageFiles (settleTargets d [t_name t]) (t_id r) \<noteq> []
      \<Longrightarrow> P (approveWith x trial now (settleTargets d [t_name t]))"
  shows "P (handleApprove c i b trial now d0 d)"
  unfolding handleApprove_def Let_def
proof (intro branch_option [where P = P] branch_verdict [where P = P] branch_if [where P = P], goal_cases)
  case (6 t)
  then show ?case by (intro assms(3) [of t]) (auto simp: find_None_iff)
qed (rule assms(1,2); assumption)+

lemma approve_step:
  assumes "review_ok d0" "review_ok d"
  shows "review_ok (snd (handleApprove c i b trial now d0 d)) \<and> persists d (snd (handleApprove c i b trial now d0 d))"
proof -
  have settled: "review_ok (settleTargets d ns)" "persists d (settleTargets d ns)" for ns
    using assms(2) persists_refl [of d] unfolding review_ok_def persists_def by simp_all
  show ?thesis
  proof (rule approve_branches [where P = "\<lambda>q. review_ok (snd q) \<and> persists d (snd q)"], goal_cases)
    case (3 t x)
    let ?d1 = "settleTargets d [t_name t]"
    have "distinct (map t_id (ax_rows x))"
      using approveRows_distinct [OF assms(1)] row_of_in [OF 3(1)] assms(2) by (simp add: 3(6) review_ok_def)
    then have "one_live (d_decisions (snd (approveWith x trial now ?d1)))" using settled(1) by (intro approveWith_step(2)) (simp_all add: review_ok_def)
    then show ?case using review_ok_step [OF settled(1) approveWith_step(1)] persists_trans [OF settled(2) tasks_step_persists [OF approveWith_step(1)]] by blast
  qed (use assms(2) settled in simp_all)
qed

lemma closeWith_step:
  "tasks_step (d_tasks d) (d_tasks (snd (closeWith x now d)))"
  "distinct (map t_id (decidedRows (cl_round x) (cl_task x))) \<Longrightarrow> one_live (d_decisions d) \<Longrightarrow> one_live (d_decisions (snd (closeWith x now d)))"
proof -
  define q where "q = snd (takeRound (closedRound x) now d)"
  have res: "snd (closeWith x now d) = (case fst (takeRound (closedRound x) now d) of None \<Rightarrow> q | Some (rv, _) \<Rightarrow> afterClose x rv now q)"
    by (simp add: closeWith_def q_def case_prod_unfold split: option.split)
  have after: "d_decisions (afterClose x rv now y) = d_decisions y" "tasks_step (d_tasks y) (d_tasks (afterClose x rv now y))" for rv y
  proof -
    show "d_decisions (afterClose x rv now y) = d_decisions y" by (simp add: afterClose_def Let_def review_frames)
    let ?y = "y\<lparr>d_tasks := sql_update (\<lambda>z. t_id z \<in> set (map t_id (cl_round x)) \<and> inReview z) (stopSet (closeWhy x) now) (d_tasks y)\<rparr>"
    have "tasks_step (d_tasks y) (d_tasks ?y)" by (simp add: tasks_step_update stop_keeps)
    moreover have "tasks_step (d_tasks ?y) (d_tasks (cancelPendings ids (setPackage n g ?y)))" for ids n g
      using cancelPendings_step [of "setPackage n g ?y" ids] by (simp add: review_frames)
    ultimately show "tasks_step (d_tasks y) (d_tasks (afterClose x rv now y))"
      unfolding afterClose_def Let_def settle_tables add_event_tables reclaim_tables by (rule tasks_step_trans)
  qed
  show "tasks_step (d_tasks d) (d_tasks (snd (closeWith x now d)))"
    using tasks_step_trans [OF takeRound_step after(2)] takeRound_step by (simp add: res q_def split: option.split prod.split)
  assume "distinct (map t_id (decidedRows (cl_round x) (cl_task x)))" "one_live (d_decisions d)"
  then have "one_live (d_decisions q)" unfolding q_def by (intro takeRound_one_live) (simp_all add: closedRound_def Let_def comp_def)
  then show "one_live (d_decisions (snd (closeWith x now d)))" by (simp add: res after split: option.split prod.split)
qed

lemma makeChain_builds [simp]: "ch_contributor (makeChain ts as co pr) = co" "ch_project (makeChain ts as co pr) = pr"
  by (simp_all add: makeChain_def Let_def)

lemma rebuildOf_in: "rebuildOf ps c = Some x \<Longrightarrow> x \<in> set ps"
  by (auto simp: rebuildOf_def dest: find_in)

lemma chainBuilds_iff: "x \<in> set (chainBuilds ch) \<longleftrightarrow> ch_contributor ch = Some x \<or> ch_project ch = Some x"
  by (auto simp: chainBuilds_def List.map_filter_def split: option.splits)

lemma chains_builds:
  assumes "ch \<in> set (chains ts as)" "x \<in> set (chainBuilds ch)"
  shows "x \<in> set ts"
  using assms(2) assms(1) [unfolded chains_def Let_def] unfolding chainBuilds_iff by (auto dest!: rebuildOf_in)

lemma roundBuilds_in: "x \<in> set (roundBuilds d n) \<Longrightarrow> x \<in> set (d_tasks d)"
  using chains_builds by (fastforce simp: roundBuilds_def storyChains_def storyTasks_def dest: in_set_takeD)

lemma stagedOf_in: "stagedOf rnd ar = Some x \<Longrightarrow> x \<in> set rnd \<and> t_arch x = ar"
  by (auto simp: stagedOf_def dest: first_of_in_set)

lemma decidedRows_distinct:
  assumes "distinct (map t_id (d_tasks d0))" "t \<in> set (d_tasks d0)"
  shows "distinct (map t_id (decidedRows (roundOf d0 t) t))"
proof -
  have rnd: "x \<in> set (d_tasks d0)" if "x \<in> set (roundOf d0 t)" for x
    using that assms(2) roundBuilds_in by (auto simp: roundOf_def Let_def split: if_splits)
  define by_arch where "by_arch = (if list_ex (\<lambda>x. t_status x = Staged) (roundOf d0 t) then stagedOf (roundOf d0 t)
                    else (\<lambda>ar. if ar = t_arch t then find (\<lambda>x. t_id x = t_id t) (roundOf d0 t) else None))"
  have arch: "x \<in> set (d_tasks d0) \<and> t_arch x = ar" if "by_arch ar = Some x" for ar x
  proof (cases "list_ex (\<lambda>x. t_status x = Staged) (roundOf d0 t)")
    case True
    then show ?thesis using that stagedOf_in rnd by (auto simp: by_arch_def)
  next
    case False
    then have "ar = t_arch t" "x \<in> set (roundOf d0 t)" "t_id x = t_id t" using that by (auto simp: by_arch_def dest: find_in split: if_splits)
    then show ?thesis using rnd same_id [OF assms(1) _ assms(2)] by metis
  qed
  have diff: "t_id x \<noteq> t_id y" if "by_arch a = Some x" "by_arch b = Some y" "a \<noteq> b" for a b x y
    using arch [OF that(1)] arch [OF that(2)] that(3) same_id [OF assms(1)] by metis
  show ?thesis unfolding decidedRows_def by_arch_def [symmetric] Let_def
    by (auto simp: REPO_ARCHES_def List.map_filter_simps split: option.split dest: diff)
qed

lemma close_branches:
  assumes "\<And>e. P (Inl e, d)"
    and "\<And>t x. row_of i d0 = Some t \<Longrightarrow> cl_task x = t \<Longrightarrow> cl_by x = fst c \<Longrightarrow> cl_self x = selfReview (Some c) (factsOf d0 t) \<Longrightarrow> cl_round x = roundOf d0 t
      \<Longrightarrow> cl_changes x = changes \<Longrightarrow> cl_in_pool x = inPool d0 (t_name t)
      \<Longrightarrow> decisions (Some c) (decidableOf t) (factsOf d0 t) (if changes then RvChanges else RvReject) = Grant
      \<Longrightarrow> P (closeWith x now d)"
  shows "P (closeRound changes c i note through now d0 d)"
  unfolding closeRound_def Let_def
proof (intro branch_option [where P = P] branch_verdict [where P = P] branch_if [where P = P], goal_cases)
  case (4 t)
  then show ?case by (intro assms(2) [of t]) simp_all
qed (rule assms(1))+

lemma close_step:
  assumes "review_ok d0" "review_ok d"
  shows "review_ok (snd (closeRound changes c i note through now d0 d)) \<and> persists d (snd (closeRound changes c i note through now d0 d))"
proof (rule close_branches [where P = "\<lambda>q. review_ok (snd q) \<and> persists d (snd q)"], goal_cases)
  case (2 t x)
  have "distinct (map t_id (decidedRows (cl_round x) (cl_task x)))"
    using decidedRows_distinct [of d0 t] row_of_in [OF 2(1)] assms(1) by (simp add: 2 review_ok_def)
  then have "one_live (d_decisions (snd (closeWith x now d)))" using assms(2) by (intro closeWith_step(2)) (simp_all add: review_ok_def)
  then show ?case using review_ok_step [OF assms(2) closeWith_step(1)] tasks_step_persists [OF closeWith_step(1)] by blast
qed (use assms(2) in simp_all)

lemma release_branches:
  assumes "\<And>e. P (Inl e, d)"
    and "\<And>t reason. row_of i d0 = Some t \<Longrightarrow> decisions (Some c) (decidableOf t) (factsOf d0 t) RvRelease = Grant
      \<Longrightarrow> P (let self = selfReview (Some c) (factsOf d0 t); ids = f_claim (factsOf d0 t);
                 (gone, d1) = RELEASE_SQL (ClaimReleased (fst c) (self \<noteq> None) (take 300 reason)) ids now d
             in if gone = [] then (Inl (NothingLeftToRelease (t_name t)), d1)
                else (let (out, d2) = afterRelease (fst c) self (t_name t) reason (CLAIM_ROWS_SQL ids d) gone d1 in (Inr out, d2)))"
  shows "P (handleRelease c i saidReason now d0 d)"
  unfolding handleRelease_def Let_def
proof (intro branch_option [where P = P] branch_verdict [where P = P] branch_if [where P = P], goal_cases)
  case (4 t)
  then show ?case by (intro assms(2) [of t "trim (nvl saidReason [])", unfolded Let_def])
qed (rule assms(1))+

lemma afterRelease_step:
  "tasks_step (d_tasks d) (d_tasks (snd (afterRelease l self n reason rows gone d)))" "d_decisions (snd (afterRelease l self n reason rows gone d)) = d_decisions d"
  using cancelPendings_step [of d gone] by (simp_all add: afterRelease_def Let_def review_frames)

lemma release_step:
  assumes "review_ok d"
  shows "review_ok (snd (handleRelease c i reason now d0 d)) \<and> persists d (snd (handleRelease c i reason now d0 d))"
proof (rule release_branches [where P = "\<lambda>q. review_ok (snd q) \<and> persists d (snd q)"], goal_cases)
  case (2 t why)
  define q where "q = RELEASE_SQL (ClaimReleased (fst c) (selfReview (Some c) (factsOf d0 t) \<noteq> None) (take 300 why)) (f_claim (factsOf d0 t)) now d"
  have q: "tasks_step (d_tasks d) (d_tasks (snd q))" "d_decisions (snd q) = d_decisions d" by (simp_all add: q_def RELEASE_SQL_def tasks_step_update stop_keeps)
  have ok: "review_ok e \<and> persists d e" if "tasks_step (d_tasks (snd q)) (d_tasks e)" "d_decisions e = d_decisions (snd q)" for e
    using review_ok_step [OF assms tasks_step_trans [OF q(1) that(1)]] tasks_step_persists [OF tasks_step_trans [OF q(1) that(1)]] that(2) q(2) assms
    by (simp add: review_ok_def)
  show ?case unfolding Let_def q_def [symmetric] case_prod_unfold
    by (rule branch_if [where P = "\<lambda>q. review_ok (snd q) \<and> persists d (snd q)"])
      (simp_all add: ok afterRelease_step)
qed (use assms in simp_all)

text \<open>A claim's statement queues a rebuild of a build that is there, while none of it is queued, running or staged.\<close>

lemma newTask_sel [simp]:
  "t_id (newTask i a) = i" "t_name (newTask i a) = ta_name a" "t_arch (newTask i a) = ta_arch a" "t_kind (newTask i a) = ta_kind a"
  "t_trust (newTask i a) = ''project''" "t_review (newTask i a) = ta_review a" "t_status (newTask i a) = Queued"
  by (simp_all add: newTask_def)

lemma claimAsk_sel [simp]:
  "ta_name (claimAsk r pin s) = cr_name r" "ta_arch (claimAsk r pin s) = sb_arch s" "ta_kind (claimAsk r pin s) = ''build''" "ta_review (claimAsk r pin s) = Some (sb_id s)"
  by (simp_all add: claimAsk_def)

definition there :: "staged_build \<Rightarrow> db \<Rightarrow> bool" where
  "there s d \<longleftrightarrow> (\<exists>y \<in> set (d_tasks d). t_id y = sb_id s \<and> t_arch y = sb_arch s)"

lemma there_persists: "there s d0 \<Longrightarrow> persists d0 d \<Longrightarrow> there s d"
  unfolding there_def persists_def same_task_def by metis

lemma claim_statement:
  assumes "review_ok d" "there s d" "sb_id s \<in> set ids"
  shows "review_ok (snd (CLAIM_SQL (claimAsk r pin s) ids d)) \<and> persists d (snd (CLAIM_SQL (claimAsk r pin s) ids d))"
proof (cases "list_ex (isRebuild (cr_name r) ids) (d_tasks d)")
  case True
  then show ?thesis using assms(1) by (simp add: CLAIM_SQL_def)
next
  case False
  define x where "x = newTask (nextId (map t_id (d_tasks d))) (claimAsk r pin s)"
  define d' where "d' = d\<lparr>d_tasks := x # d_tasks d\<rparr>"
  have c: "snd (CLAIM_SQL (claimAsk r pin s) ids d) = d'" using False by (simp add: CLAIM_SQL_def insertTask_def Let_def x_def d'_def)
  have x: "t_review x = Some (sb_id s)" "t_arch x = sb_arch s" "t_name x = cr_name r" by (simp_all add: x_def)
  have "distinct (map t_id (d_tasks d'))" using assms(1) nextId_fresh [of "map t_id (d_tasks d)"] by (simp add: d'_def x_def review_ok_def)
  moreover have "rebuilds_match (d_tasks d')" using assms(1,2) x unfolding review_ok_def rebuilds_match_def there_def d'_def by auto
  moreover have "claims_ok (d_tasks d')" unfolding claims_ok_def
  proof (intro allI)
    fix n i
    show "length (filter (isRebuild n [i]) (d_tasks d')) \<le> 1"
    proof (cases "isRebuild n [i] x")
      case True
      then have "n = cr_name r" "i = sb_id s" using x by (auto simp: isRebuild_def)
      then have "filter (isRebuild n [i]) (d_tasks d) = []" using False assms(3)
        by (auto simp: filter_empty_conv list_ex_iff isRebuild_def split: option.splits)
      then show ?thesis by (simp add: d'_def)
    next
      case no: False
      then show ?thesis using assms(1) by (simp add: d'_def review_ok_def claims_ok_def)
    qed
  qed
  moreover have "persists d d'" by (auto simp: persists_def same_task_def d'_def)
  ultimately show ?thesis using assms(1) unfolding c by (simp add: review_ok_def d'_def)
qed

lemma claimOthers_step:
  assumes "review_ok d" "\<forall>s \<in> set ss. there s d"
  shows "review_ok (snd (claimOthers r since keptOff ss d)) \<and> persists d (snd (claimOthers r since keptOff ss d))"
  using assms
proof (induction ss arbitrary: d)
  case (Cons s ss)
  define pin where "pin = Option.bind (cr_agent r) (\<lambda>ag. SAME_AGENT_SQL (sb_arch s) ag since keptOff d)"
  define d1 where "d1 = snd (CLAIM_SQL (claimAsk r pin s) [sb_id s] d)"
  have d1: "review_ok d1" "persists d d1" using claim_statement [OF Cons.prems(1), of s "[sb_id s]" r pin] Cons.prems(2) by (simp_all add: d1_def)
  moreover have "\<forall>s \<in> set ss. there s d1" using Cons.prems(2) there_persists d1(2) by auto
  ultimately show ?case using Cons.IH [of d1] persists_trans by (auto simp: Let_def case_prod_unfold pin_def [symmetric] d1_def [symmetric])
qed simp

lemma othersOf_staged: "s \<in> set (othersOf ar v p tgs) \<Longrightarrow> s \<in> set (pb_staged p)"
  by (auto simp: othersOf_def List.map_filter_def elim: standingBuild_from)

lemma afterClaim_tables: "d_tasks (afterClaim r t q d) = d_tasks d" "d_decisions (afterClaim r t q d) = d_decisions d"
  by (simp_all add: afterClaim_def Let_def review_frames)

lemma claimWith_step:
  assumes "review_ok d" "there (ownBuild t) d" "\<forall>s \<in> set others. there s d"
  shows "review_ok (snd (claimWith r t pin others keptOff now d)) \<and> persists d (snd (claimWith r t pin others keptOff now d))"
proof -
  define q where "q = CLAIM_SQL (claimAsk r pin (ownBuild t)) (t_id t # map sb_id others) d"
  have q: "review_ok (snd q)" "persists d (snd q)" using claim_statement [OF assms(1,2), of "t_id t # map sb_id others" r pin] by (simp_all add: q_def ownBuild_def)
  define e where "e = snd (claimOthers r (now - WORKER_ALIVE_MINUTES * 60000) keptOff others (snd q))"
  have "\<forall>s \<in> set others. there s (snd q)" using assms(3) there_persists q(2) by blast
  then have e: "review_ok e" "persists (snd q) e" using claimOthers_step [OF q(1)] by (simp_all add: e_def)
  have after: "review_ok (afterClaim r t k e) \<and> persists d (afterClaim r t k e)" for k
    using e(1) persists_trans [OF q(2) e(2)] by (simp add: review_ok_def persists_def afterClaim_tables)
  show ?thesis unfolding claimWith_def q_def [symmetric] case_prod_unfold
    by (cases "fst q") (simp_all add: q Let_def case_prod_unfold e_def [symmetric] after)
qed

lemma claim_step:
  assumes "review_ok d0" "review_ok d" "persists d0 d"
  shows "review_ok (snd (handleProjectBuild c i b now d0 d)) \<and> persists d (snd (handleProjectBuild c i b now d0 d))"
proof (cases "row_of i d0")
  case (Some t)
  have "there (ownBuild t) d0" using row_of_in [OF Some] by (auto simp: there_def ownBuild_def)
  then have own: "there (ownBuild t) d" by (rule there_persists [OF _ assms(3)])
  have others: "there s d" if "s \<in> set (claimedFrom t (factsOf d0 t))" for s
  proof -
    have "s \<in> set (pb_staged (ff_builds (factsOf d0 t)))" using that othersOf_staged by (auto simp: claimedFrom_def)
    then obtain x where "x \<in> set (d_tasks d0)" "t_id x = sb_id s" "t_arch x = sb_arch s" by (rule staged_task)
    then have "there s d0" by (auto simp: there_def)
    then show ?thesis by (rule there_persists [OF _ assms(3)])
  qed
  show ?thesis using claimWith_step [OF assms(2) own] others assms(2)
    by (simp add: handleProjectBuild_def Some Let_def split: verdict.split sum.split prod.split)
qed (simp add: handleProjectBuild_def assms(2))

lemma withdraw_one_live:
  assumes "one_live as"
  shows "one_live (sql_update P (\<lambda>x. x\<lparr>a_withdrawn_at := Some now\<rparr>) as)"
proof -
  have "length (filter (live i) (sql_update P (\<lambda>x. x\<lparr>a_withdrawn_at := Some now\<rparr>) as)) \<le> length (filter (live i) as)" for i
    by (induction as) (auto simp: live_def)
  then show ?thesis using assms le_trans unfolding one_live_def by blast
qed

subsection \<open>Runs\<close>

text \<open>A run's states, the newest first. A door reads the task and its facts from any of them and writes on the newest; everything else the
  pool does leaves the decisions alone, adds no rebuild and brings none back into review.\<close>

inductive review_run :: "db list \<Rightarrow> bool" where
  Begin: "review_ok d \<Longrightarrow> review_run [d]"
| Claim: "review_run (d # h) \<Longrightarrow> d0 \<in> set (d # h) \<Longrightarrow> review_run (snd (handleProjectBuild c i b now d0 d) # d # h)"
| Approve: "review_run (d # h) \<Longrightarrow> d0 \<in> set (d # h) \<Longrightarrow> review_run (snd (handleApprove c i ap trial now d0 d) # d # h)"
| Close: "review_run (d # h) \<Longrightarrow> d0 \<in> set (d # h) \<Longrightarrow> review_run (snd (closeRound changes c i note through now d0 d) # d # h)"
| Release: "review_run (d # h) \<Longrightarrow> d0 \<in> set (d # h) \<Longrightarrow> review_run (snd (handleRelease c i reason now d0 d) # d # h)"
| Withdraw: "review_run (d # h) \<Longrightarrow> review_run (withdrawBatch now a d # d # h)"
| Block: "review_run (d # h) \<Longrightarrow> review_run (blockWithdraws now name d # d # h)"
| Elsewhere: "review_run (d # h) \<Longrightarrow> tasks_step (d_tasks d) (d_tasks d') \<Longrightarrow> d_decisions d' = d_decisions d \<Longrightarrow> review_run (d' # d # h)"

lemma review_run_good:
  assumes "review_run h"
  shows "h \<noteq> [] \<and> (\<forall>d \<in> set h. review_ok d \<and> persists d (hd h))"
  using assms
proof induction
  case (Claim d h d0 c i b now)
  then show ?case using claim_step [of d0 d c i b now] persists_trans by auto
next
  case (Approve d h d0 c i ap trial now)
  then show ?case using approve_step [of d0 d c i ap trial now] persists_trans by auto
next
  case (Close d h d0 changes c i said through now)
  then show ?case using close_step [of d0 d changes c i said through now] persists_trans by auto
next
  case (Release d h d0 c i reason now)
  then show ?case using release_step [of d c i reason now d0] persists_trans by auto
next
  case (Withdraw d h now a)
  have "persists d (withdrawBatch now a d)" "review_ok (withdrawBatch now a d)"
    using Withdraw.IH withdraw_one_live persists_refl [of d] by (simp_all add: review_ok_def withdrawBatch_def persists_def)
  then show ?case using Withdraw.IH persists_trans by auto
next
  case (Block d h now name)
  have "persists d (blockWithdraws now name d)" "review_ok (blockWithdraws now name d)"
    using Block.IH withdraw_one_live persists_refl [of d] by (simp_all add: review_ok_def blockWithdraws_def persists_def)
  then show ?case using Block.IH persists_trans by auto
next
  case (Elsewhere d h d')
  have "review_ok d'" using review_ok_step [OF _ Elsewhere.hyps(2)] Elsewhere.IH Elsewhere.hyps(3) by (simp add: review_ok_def)
  then show ?case using Elsewhere.IH persists_trans [OF _ tasks_step_persists [OF Elsewhere.hyps(2)]] by auto
qed simp

end
