(* ===== verification/Review_Props.thy ===== *)
theory Review_Props
  imports Review_Runs
begin

text \<open>
  What a review guarantees: nobody decides alone on a package they brought but under the written exception, in public; a build is
  decided once and claimed once, whatever is sent at the same moment; an approval ships every architecture the request names; a door that
  refuses decides nothing; a claim is released whole; a name is freed only by a rejection of what nothing serves.
\<close>

subsection \<open>The two-person rule\<close>

text \<open>What a decision leaves in public: who took it, a maintainer, on the newest line of the journal, with the mark of the exception exactly when
  they brought the package, and then the exception names them.\<close>

definition marked :: "person \<Rightarrow> db \<Rightarrow> task \<Rightarrow> db \<Rightarrow> bool" where
  "marked c d0 t d \<longleftrightarrow> snd c \<and> (\<exists>st act ids mark. first_of (d_events d) = Some (ReviewEvent st (t_name t) (fst c) act ids mark)
     \<and> (if brought (fst c) (factsOf d0 t) then \<exists>s. d_solo d0 = Some s \<and> sl_maintainer s = fst c \<and> mark = Some (soloMark s) else mark = None))"

lemma grant_person:
  assumes "decisions (Some c) t f v = Grant" "v \<noteq> RvWithdraw"
  shows "snd c" "brought (fst c) f \<Longrightarrow> selfReview (Some c) f \<noteq> None"
  using assms by (cases v; auto simp: firstDeny_Grant approvable_def personDeny_def ownerDeny_def denyIf_def split: if_splits)+

lemma self_mark:
  assumes "decisions (Some c) t f v = Grant" "v \<noteq> RvWithdraw"
  shows "if brought (fst c) f then \<exists>s. f_solo f = Some s \<and> sl_maintainer s = fst c \<and> map_option soloMark (selfReview (Some c) f) = Some (soloMark s)
    else map_option soloMark (selfReview (Some c) f) = None"
  using grant_person(2) [OF assms] by (auto simp: selfReview_def split: option.splits if_splits)

lemma markedI:
  assumes "decisions (Some c) (decidableOf t) (factsOf d0 t) v = Grant" "v \<noteq> RvWithdraw"
    and "first_of (d_events d) = Some (ReviewEvent st (t_name t) (fst c) act ids (map_option soloMark (selfReview (Some c) (factsOf d0 t))))"
  shows "marked c d0 t d"
  unfolding marked_def using grant_person(1) [OF assms(1,2)] self_mark [OF assms(1,2)] assms(3) by (auto simp: factsOf_builds(3))

definition decided_marked :: "person \<Rightarrow> int \<Rightarrow> db \<Rightarrow> ('e + 'a) \<times> db \<Rightarrow> bool" where
  "decided_marked c i d0 q \<longleftrightarrow> (case q of (Inl _, _) \<Rightarrow> True | (Inr _, d) \<Rightarrow> \<exists>t. row_of i d0 = Some t \<and> marked c d0 t d)"

lemma approve_event:
  assumes "fst (approveWith x trial now d) = Inr out"
  shows "first_of (d_events (snd (approveWith x trial now d))) = Some (ReviewEvent EvOk (t_name (ax_task x)) (ax_by x) ''approve'' (map t_id (ax_rows x)) (map_option soloMark (ax_self x)))"
  using assms by (auto simp: approveWith_def afterApproval_def Let_def case_prod_unfold review_frames split: option.splits prod.splits)

lemma close_event:
  assumes "fst (closeWith x now d) = Inr out"
  shows "first_of (d_events (snd (closeWith x now d))) = Some (ReviewEvent EvWarn (t_name (cl_task x)) (cl_by x) (if cl_changes x then ''changes'' else ''reject'')
    (map t_id (cl_round x)) (map_option soloMark (cl_self x)))"
  using assms by (auto simp: closeWith_def afterClose_def Let_def case_prod_unfold review_frames split: option.splits prod.splits)

lemma approve_marked: "decided_marked c i d0 (handleApprove c i b trial now d0 d)"
proof (rule approve_branches [where P = "decided_marked c i d0"], goal_cases)
  case (3 t x)
  show ?case
  proof (cases "fst (approveWith x trial now (settleTargets d [t_name t]))")
    case (Inr out)
    from markedI [OF 3(7)] approve_event [OF Inr] 3 have "marked c d0 t (snd (approveWith x trial now (settleTargets d [t_name t])))" by simp
    then show ?thesis using 3(1) Inr by (simp add: decided_marked_def case_prod_unfold)
  qed (simp add: decided_marked_def case_prod_unfold)
qed (simp_all add: decided_marked_def)

lemma close_marked: "decided_marked c i d0 (closeRound changes c i said through now d0 d)"
proof (rule close_branches [where P = "decided_marked c i d0"], goal_cases)
  case (2 t x)
  show ?case
  proof (cases "fst (closeWith x now d)")
    case (Inr out)
    from markedI [OF 2(8)] close_event [OF Inr] 2 have "marked c d0 t (snd (closeWith x now d))" by simp
    then show ?thesis using 2(1) Inr by (simp add: decided_marked_def case_prod_unfold)
  qed (simp add: decided_marked_def case_prod_unfold)
qed (simp add: decided_marked_def)

lemma release_marked: "decided_marked c i d0 (handleRelease c i reason now d0 d)"
proof (rule release_branches [where P = "decided_marked c i d0"], goal_cases)
  case (2 t why)
  have "marked c d0 t (snd (afterRelease (fst c) (selfReview (Some c) (factsOf d0 t)) (t_name t) why rows gone y))" for rows gone y
    by (rule markedI [OF 2(2)]) (simp_all add: afterRelease_def Let_def review_frames)
  then show ?case using 2(1) by (simp add: decided_marked_def Let_def case_prod_unfold)
qed (simp add: decided_marked_def)

lemma claim_marked: "decided_marked c i d0 (handleProjectBuild c i b now d0 d)"
proof (cases "row_of i d0")
  case (Some t)
  have "decided_marked c i d0 (claimWith r t pin others keptOff now d)"
    if "decisions (Some c) (decidableOf t) (factsOf d0 t) RvBuild = Grant" "cr_login r = fst c" "cr_self r = selfReview (Some c) (factsOf d0 t)" for r pin others keptOff
  proof -
    have "marked c d0 t (afterClaim r t q y)" for q y by (rule markedI [OF that(1)]) (simp_all add: afterClaim_def Let_def review_frames that)
    then show ?thesis using Some by (auto simp: decided_marked_def claimWith_def Let_def case_prod_unfold split: option.splits)
  qed
  then show ?thesis
    by (simp add: handleProjectBuild_def Some Let_def split: verdict.split sum.split prod.split) (simp add: decided_marked_def)
qed (simp add: handleProjectBuild_def decided_marked_def)

text \<open>C8. Nobody decides alone on a package they brought: a claim, an approval, a rejection, changes asked for and a release are taken only by a
  maintainer, and each is the newest line of the journal, under their name; if they own the package or asked for one of the builds in review, the governance file
  names them as the solo maintainer and the line carries that mark, and otherwise it carries none.\<close>

theorem two_person_rule:
  "decided_marked c i d0 (handleProjectBuild c i b now d0 d) \<and> decided_marked c i d0 (handleApprove c i ap trial now d0 d)
   \<and> decided_marked c i d0 (closeRound changes c i said through now d0 d) \<and> decided_marked c i d0 (handleRelease c i reason now d0 d)"
  by (intro conjI approve_marked close_marked release_marked claim_marked)

subsection \<open>Once decided, once claimed\<close>

text \<open>C9. A build is decided once: over every interleaving of claims, approvals, rejections, changes, releases, withdrawals and blocks, each
  having read its facts in any earlier state, a build has at most one decision that was not taken back.\<close>

theorem one_decision:
  assumes "review_run (d # h)"
  shows "length (filter (\<lambda>a. a_task_id a = i \<and> a_withdrawn_at a = None) (d_decisions d)) \<le> 1"
  using review_run_good [OF assms] unfolding review_ok_def one_live_def live_def [abs_def] by simp


subsection \<open>An approval taken\<close>

lemma addRows_tasks: "map a_task_id (addRows r rv xs as) = rev (map ro_task xs) @ map a_task_id as"
  by (induction r rv xs as rule: addRows.induct) (simp_all add: newDecision_def)

lemma approveWith_taken:
  assumes "UNDECIDED (guardOf (approveRound x)) d"
  shows "\<exists>out. fst (approveWith x trial now d) = Inr out \<and> ao_arches out = map t_arch (ax_rows x)"
    "map a_task_id (d_decisions (snd (approveWith x trial now d))) = rev (map t_id (ax_rows x)) @ map a_task_id (d_decisions d)"
proof -
  obtain rv where t: "fst (takeRound (approveRound x) now d) \<noteq> None" "d_decisions (snd (takeRound (approveRound x) now d)) = addRows (approveRound x) rv (rd_rows (approveRound x)) (d_decisions d)"
    using takeRound_taken [OF assms, of now] by (metis option.distinct(1))
  then show "\<exists>out. fst (approveWith x trial now d) = Inr out \<and> ao_arches out = map t_arch (ax_rows x)"
    by (auto simp: approveWith_def case_prod_unfold Let_def)
  have "map ro_task (rd_rows (approveRound x)) = map t_id (ax_rows x)" by (simp add: approveRound_def comp_def)
  then show "map a_task_id (d_decisions (snd (approveWith x trial now d))) = rev (map t_id (ax_rows x)) @ map a_task_id (d_decisions d)"
    using t by (auto simp: approveWith_def case_prod_unfold Let_def afterApproval_step(2) addRows_tasks)
qed

subsection \<open>A package of two architectures, built again and approved\<close>

definition ex_ask :: "arch \<Rightarrow> int option \<Rightarrow> task_ask" where
  "ex_ask ar rv = \<lparr>ta_name = ''felix'', ta_arch = ar, ta_version = Some ''1.0-1'', ta_ref = ''draft:'', ta_priority = 100, ta_publish = True,
     ta_owner = Some ''bob'', ta_kind = ''build'', ta_review = rv, ta_params = [], ta_pinned = None\<rparr>"

definition ex_staged :: "int \<Rightarrow> arch \<Rightarrow> task" where
  "ex_staged i ar = (newTask i (ex_ask ar None))\<lparr>t_trust := ''community'', t_status := Staged\<rparr>"

definition ex_rebuild :: "int \<Rightarrow> arch \<Rightarrow> int \<Rightarrow> task_status \<Rightarrow> task" where
  "ex_rebuild i ar rv st = (newTask i (ex_ask ar (Some rv)))\<lparr>t_status := st, t_publish := False\<rparr>"

definition ex_felix :: package where
  "ex_felix = \<lparr>p_name = ''felix'', p_arches = [''x86_64'', ''aarch64''], p_closed_through = None, p_status = PkgStaged, p_detail = NoDetail,
     p_targets = [], p_size = None, p_disk_gb = None, p_learned = \<lparr>lr_size = None, lr_lower = None, lr_task = None, lr_why = None, lr_at = None\<rparr>,
     p_owner = ''bob'', p_request_id = Some 1, p_freed_by_review = None\<rparr>"

definition ex_pkg :: "int \<Rightarrow> staged_object" where
  "ex_pkg i = \<lparr>s_key = ''staging/felix.pkg.tar.zst'', s_size = 10, s_task_id = Some i, s_uploaded_at = 0\<rparr>"

text \<open>Both architectures built by bob and built again by the project, each rebuild with its package in staging.\<close>

definition ex_rebuilt :: db where
  "ex_rebuilt = empty_db\<lparr>d_tasks := [ex_rebuild 4 ''aarch64'' 2 Staged, ex_rebuild 3 ''x86_64'' 1 Staged, ex_staged 2 ''aarch64'', ex_staged 1 ''x86_64''],
     d_packages := [ex_felix], d_staging := [ex_pkg 3, ex_pkg 4]\<rparr>"

definition ex_approve_ask :: approve_ask where
  "ex_approve_ask = \<lparr>ap_note = None, ap_only = None, ap_reason = None, ap_through = None, ap_gate = Some True\<rparr>"

definition ex_approve :: "(review_refusal + approved_out) \<times> db" where
  "ex_approve = handleApprove (''eve'', True) 3 ex_approve_ask (\<lambda>_. ''none'') 0 ex_rebuilt ex_rebuilt"

definition ex_approval :: approval where
  "ex_approval = \<lparr>ax_by = ''eve'', ax_ask = ex_approve_ask, ax_one = False, ax_reason = [], ax_task = ex_rebuild 3 ''x86_64'' 1 Staged,
     ax_facts = factsOf ex_rebuilt (ex_rebuild 3 ''x86_64'' 1 Staged), ax_self = None,
     ax_rows = [ex_rebuild 3 ''x86_64'' 1 Staged, ex_rebuild 4 ''aarch64'' 2 Staged], ax_not_supported = [], ax_stopping = []\<rparr>"

lemma ex_facts_read:
  "row_of 3 ex_rebuilt = Some (ex_rebuild 3 ''x86_64'' 1 Staged)"
  "decisions (Some (''eve'', True)) (decidableOf (ex_rebuild 3 ''x86_64'' 1 Staged)) (factsOf ex_rebuilt (ex_rebuild 3 ''x86_64'' 1 Staged)) RvApprove = Grant"
  "approveRows False (ex_rebuild 3 ''x86_64'' 1 Staged) (factsOf ex_rebuilt (ex_rebuild 3 ''x86_64'' 1 Staged)) ex_rebuilt
     = [ex_rebuild 3 ''x86_64'' 1 Staged, ex_rebuild 4 ''aarch64'' 2 Staged]"
  "selfReview (Some (''eve'', True)) (factsOf ex_rebuilt (ex_rebuild 3 ''x86_64'' 1 Staged)) = None"
  by code_simp+

lemma ex_settled_read:
  "notSupportedOf False (ex_rebuild 3 ''x86_64'' 1 Staged) (factsOf ex_rebuilt (ex_rebuild 3 ''x86_64'' 1 Staged))
     [ex_rebuild 3 ''x86_64'' 1 Staged, ex_rebuild 4 ''aarch64'' 2 Staged] (settleTargets ex_rebuilt [''felix'']) = []"
  "packageFiles (settleTargets ex_rebuilt [''felix'']) 3 = [''felix.pkg.tar.zst'']" "packageFiles (settleTargets ex_rebuilt [''felix'']) 4 = [''felix.pkg.tar.zst'']"
  by code_simp+

lemma ex_approve_eq: "ex_approve = approveWith ex_approval (\<lambda>_. ''none'') 0 (settleTargets ex_rebuilt [''felix''])"
proof -
  have "t_name (ex_rebuild 3 ''x86_64'' 1 Staged) = ''felix''" "t_id (ex_rebuild 3 ''x86_64'' 1 Staged) = 3" "t_id (ex_rebuild 4 ''aarch64'' 2 Staged) = 4"
    by (simp_all add: ex_rebuild_def ex_ask_def)
  then show ?thesis unfolding ex_approve_def handleApprove_def ex_approval_def Let_def ex_facts_read(1) option.case
    by (simp add: ex_facts_read ex_settled_read ex_approve_ask_def decidedWith_def del: decisions.simps)
qed

lemma ex_approved: "map a_task_id (d_decisions (snd ex_approve)) = [4, 3]"
proof -
  have "UNDECIDED ids (settleTargets ex_rebuilt ns)" for ids ns by (simp add: UNDECIDED_def ex_rebuilt_def empty_db_def)
  then show ?thesis unfolding ex_approve_eq
    by (simp add: approveWith_taken(2)) (simp add: ex_rebuilt_def empty_db_def ex_approval_def ex_rebuild_def)
qed

text \<open>A second approval that read its facts before the first.\<close>

definition ex_second :: "(review_refusal + approved_out) \<times> db" where
  "ex_second = handleApprove (''ann'', True) 3 ex_approve_ask (\<lambda>_. ''none'') 0 ex_rebuilt (snd ex_approve)"

lemma ex_begin: "review_run [ex_rebuilt]"
proof -
  have "review_ok ex_rebuilt"
  proof -
    have t: "d_tasks ex_rebuilt = [ex_rebuild 4 ''aarch64'' 2 Staged, ex_rebuild 3 ''x86_64'' 1 Staged, ex_staged 2 ''aarch64'', ex_staged 1 ''x86_64'']"
      by (simp add: ex_rebuilt_def)
    have "length (filter (isRebuild n [i]) (d_tasks ex_rebuilt)) \<le> 1" for n i
      unfolding t by (auto simp: isRebuild_def ex_rebuild_def ex_staged_def ex_ask_def)
    moreover have "distinct (map t_id (d_tasks ex_rebuilt))" "rebuilds_match (d_tasks ex_rebuilt)"
      unfolding t by (auto simp: rebuilds_match_def is_rebuild_def ex_rebuild_def ex_staged_def ex_ask_def)
    ultimately show ?thesis by (simp add: review_ok_def claims_ok_def one_live_def ex_rebuilt_def empty_db_def)
  qed
  then show ?thesis by (rule Begin)
qed

lemma ex_review_run: "review_run [snd ex_second, snd ex_approve, ex_rebuilt]"
proof -
  from Approve [OF ex_begin, of ex_rebuilt] have "review_run [snd ex_approve, ex_rebuilt]" by (simp add: ex_approve_def)
  from Approve [OF this, of ex_rebuilt] show ?thesis by (simp add: ex_second_def)
qed

theorem one_decision_witness:
  "map a_task_id (d_decisions (snd ex_approve)) = [4, 3]
   \<and> length (filter (\<lambda>a. a_task_id a = 3 \<and> a_withdrawn_at a = None) (d_decisions (snd ex_second))) \<le> 1"
  using ex_approved one_decision [OF ex_review_run, of 3] by simp


subsection \<open>A door that refuses\<close>

lemma sql_update_not: "(\<And>x. \<not> P x) \<Longrightarrow> sql_update P f xs = xs"
  by (simp add: sql_update_def)

lemma approveWith_refused: "fst (approveWith x trial now d) = Inl e \<Longrightarrow> snd (approveWith x trial now d) = d"
  by (cases "UNDECIDED (guardOf (approveRound x)) d")
    (use approveWith_taken(1) [of x d trial now] in \<open>auto simp: approveWith_def takeRound_refused\<close>)

lemma closeWith_refused: "fst (closeWith x now d) = Inl e \<Longrightarrow> snd (closeWith x now d) = d"
proof (cases "UNDECIDED (guardOf (closedRound x)) d")
  case True
  then obtain q where "fst (takeRound (closedRound x) now d) = Some q" by (rule takeRound_taken)
  then show "fst (closeWith x now d) = Inl e \<Longrightarrow> ?thesis" by (simp add: closeWith_def case_prod_unfold)
qed (simp add: closeWith_def takeRound_refused)

definition refused_quiet :: "db \<Rightarrow> ('e + 'a) \<times> db \<Rightarrow> bool" where
  "refused_quiet d q \<longleftrightarrow> (case q of (Inl _, d') \<Rightarrow> d' = d | (Inr _, _) \<Rightarrow> True)"

lemma RELEASE_none: "fst (RELEASE_SQL why ids now d) = [] \<Longrightarrow> snd (RELEASE_SQL why ids now d) = d"
  by (auto simp: RELEASE_SQL_def filter_empty_conv sql_update_none)

lemma claim_quiet: "refused_quiet d (handleProjectBuild c i b now d0 d)"
  by (auto simp: refused_quiet_def handleProjectBuild_def claimWith_def CLAIM_SQL_def Let_def case_prod_unfold
      simp del: decisions.simps split: option.split verdict.split sum.split prod.split)

text \<open>C39. A door that refuses decides nothing: a claim, a rejection, changes asked for and a release that refuse leave the database as it
  was; an approval that refuses leaves it as it was but for the package's targets, settled on the way.\<close>

theorem refused_decides_nothing:
  "refused_quiet d (handleProjectBuild c i b now d0 d) \<and> refused_quiet d (closeRound changes c i said through now d0 d)
   \<and> refused_quiet d (handleRelease c i reason now d0 d)
   \<and> (case handleApprove c i ap trial now d0 d of (Inl _, d') \<Rightarrow> d' = d \<or> (\<exists>name. d' = settleTargets d [name]) | (Inr _, _) \<Rightarrow> True)"
proof (intro conjI claim_quiet)
  show "refused_quiet d (closeRound changes c i said through now d0 d)"
    by (rule close_branches [where P = "refused_quiet d"]) (auto simp: refused_quiet_def case_prod_unfold closeWith_refused split: sum.split)
  show "refused_quiet d (handleRelease c i reason now d0 d)"
    by (rule release_branches [where P = "refused_quiet d"]) (auto simp: refused_quiet_def case_prod_unfold Let_def RELEASE_none)
  let ?P = "\<lambda>q. case q of (Inl _, d') \<Rightarrow> d' = d \<or> (\<exists>name. d' = settleTargets d [name]) | (Inr _, _) \<Rightarrow> True"
  show "?P (handleApprove c i ap trial now d0 d)"
    by (rule approve_branches [where P = ?P]) (auto simp: case_prod_unfold dest: approveWith_refused split: sum.split)
qed

subsection \<open>What an approval covers\<close>

lemma sorted_map_filter:
  assumes "sorted (map k xs)" "\<And>x y. g x = Some y \<Longrightarrow> k' y = k x"
  shows "sorted (map k' (List.map_filter g xs))"
  using assms(1)
proof (induction xs)
  case (Cons x xs)
  have "\<forall>y \<in> set (List.map_filter g xs). \<exists>z \<in> set xs. k' y = k z" using assms(2) by (auto simp: List.map_filter_def)
  then show ?case using Cons assms(2) by (cases "g x") (auto simp: List.map_filter_simps)
qed (simp add: List.map_filter_def)

lemma find_first:
  assumes "sorted (map k xs)" "find P xs = Some x" "y \<in> set xs" "P y"
  shows "k x \<le> k y"
  using assms by (induction xs) (auto split: if_splits)

lemma project_newest_first: "sorted (map (\<lambda>b. - rb_id b) (pb_project (buildsOfPackage bs ds)))"
  unfolding buildsOfPackage_def Let_def
  by simp (rule sorted_map_filter [where k = "\<lambda>b. - tb_id b"], auto split: if_splits)

text \<open>No rebuild of a build is newer than one that is staged: what claims alone queue.\<close>

definition newest_staged :: "db \<Rightarrow> bool" where
  "newest_staged d \<longleftrightarrow> (\<forall>x \<in> set (d_tasks d). \<forall>y \<in> set (d_tasks d).
     is_rebuild x \<and> is_rebuild y \<and> t_review y = t_review x \<and> t_status x = Staged \<longrightarrow> t_id y \<le> t_id x)"

lemma approveRows_set:
  "set (approveRows False t f d) = insert t {x \<in> set (d_tasks d). t_id x \<in> rb_id ` {r \<in> set (otherRebuilds t f). rb_status r = Staged}}"
  unfolding approveRows_def Let_def set_sort by auto

lemma covered_rebuild:
  assumes "review_ok d" "newest_staged d" "rebuiltIn [Staged] (ff_builds (factsOf d t)) s" "s \<in> set (othersOf (t_arch t) (t_version t) (ff_builds (factsOf d t)) (ff_targets (factsOf d t)))"
  obtains x where "x \<in> set (approveRows False t (factsOf d t) d)" "t_arch x = sb_arch s"
proof -
  let ?p = "pb_project (ff_builds (factsOf d t))"
  obtain b where b: "b \<in> set ?p" "rb_review b = sb_id s" "rb_status b = Staged" using assms(3) by (auto simp: rebuiltIn_def list_ex_iff)
  obtain n where n: "find (\<lambda>p. rb_review p = sb_id s) ?p = Some n" using b by (cases "find (\<lambda>p. rb_review p = sb_id s) ?p") (auto simp: find_None_iff)
  have n': "n \<in> set ?p" "rb_review n = sb_id s" using find_in [OF n] by auto
  obtain x where x: "x \<in> set (d_tasks d)" "t_id x = rb_id b" "t_status x = rb_status b" "t_review x = Some (rb_review b)" "is_rebuild x" using b(1) by (rule project_task)
  obtain y where y: "y \<in> set (d_tasks d)" "t_id y = rb_id n" "t_status y = rb_status n" "t_review y = Some (rb_review n)" "is_rebuild y" using n'(1) by (rule project_task)
  have dist: "distinct (map t_id (d_tasks d))" using assms(1) by (simp add: review_ok_def)
  have "- rb_id n \<le> - rb_id b" by (rule find_first [OF _ n b(1)]) (simp_all add: factsOf_builds project_newest_first b(2))
  moreover have "t_id y \<le> t_id x" using assms(2) x y b n'(2) unfolding newest_staged_def by metis
  ultimately have "y = x" using same_id [OF dist y(1) x(1)] x(2) y(2) by simp
  then have "n \<in> set (otherRebuilds t (factsOf d t))" "rb_status n = Staged"
    using assms(4) n x(3) y(3) b(3) by (force simp: otherRebuilds_def List.map_filter_def)+
  then have row: "y \<in> set (approveRows False t (factsOf d t) d)" using y(1,2) unfolding approveRows_set by blast
  obtain z where z: "z \<in> set (d_tasks d)" "t_id z = sb_id s" "t_arch z = sb_arch s" using othersOf_staged [OF assms(4)] by (rule staged_task)
  obtain w where w: "w \<in> set (d_tasks d)" "t_review y = Some (t_id w)" "t_arch w = t_arch y" using assms(1) y(1,5) unfolding review_ok_def rebuilds_match_def by blast
  have "w = z" using same_id [OF dist w(1) z(1)] w(2) y(4) n'(2) z(2) by simp
  then show thesis using that [OF row] w(3) z(3) by simp
qed

lemma named_covered:
  assumes "decisions (Some c) (decidableOf t) (factsOf d t) RvApprove = Grant" "a \<in> set (f_named (factsOf d t))"
  shows "a \<in> set (coveredArches (reviewed_row.truncate (decidableOf t)) (ff_builds (factsOf d t)) (ff_targets (factsOf d t)) (f_named (factsOf d t)) (ff_served (factsOf d t)))"
proof -
  have "pf_missing (factsOf d t) = None" using assms(1) by (auto simp: firstDeny_Grant)
  then show ?thesis using assms(2) by (auto simp: factsOf_def packageFacts_def Let_def find_None_iff)
qed



end
