(* ===== verification/Pool_Releases.thy ===== *)
theory Pool_Releases
  imports Pool_Store
begin

text \<open>
  The releases of a ring (worker/src/db.ts, worker/src/routes/releases.ts): the index of packages, what each ring serves, the releases with
  their deltas and checkpoints, the reconstruction of one that is neither a head nor a checkpoint, and the creation of a release with the
  databases it carries. What a request reads (\<open>planRelease\<close>) and the one batch it writes (\<open>releaseBatch\<close>) are two definitions, as they are two
  moments of the code. Columns only a page reads (the manifest, the sizes installed) are left out.
\<close>

subsection \<open>The tables\<close>

datatype pool_ring = Edge | Rc | Stable | Lab

definition RINGS :: "pool_ring list" where
  "RINGS = [Edge, Rc, Stable, Lab]"

definition ringOfName :: "string \<Rightarrow> pool_ring option" where
  "ringOfName s = map_of [(''edge'', Edge), (''rc'', Rc), (''stable'', Stable), (''lab'', Lab)] s"

text \<open>A row of \<^verbatim>\<open>packages\<close>: one object of one architecture, under its key.\<close>

record pool_object =
  ob_id :: int
  ob_sha :: string
  ob_name :: string
  ob_version :: string
  ob_arch :: arch
  ob_source :: string
  ob_filename :: string
  ob_key :: "string option"
  ob_bytes :: int
  ob_released :: bool
  ob_created :: int

record source_slice =
  sc_source :: string
  sc_arch :: arch
  sc_packages :: int
  sc_bytes :: int

text \<open>A row of \<^verbatim>\<open>releases\<close>: its place in the ring's history, and what is said of it.\<close>

record release_core =
  rl_id :: int
  rl_ring :: pool_ring
  rl_seq :: int
  rl_parent :: "int option"
  rl_checkpoint :: bool

record release_row = release_core +
  rl_source :: "int option"
  rl_note :: "string option"
  rl_count :: "int option"
  rl_bytes :: "int option"
  rl_sources :: "source_slice list option"

datatype delta_op = OpAdd | OpRemove

record delta_row =
  dl_release :: int
  dl_package :: int
  dl_op :: delta_op

record artifact =
  ar_release :: int
  ar_repo :: string
  ar_arch :: arch
  ar_kind :: string
  ar_key :: string
  ar_size :: int
  ar_awaits :: "int option"

text \<open>The last ids are the tables' own counters: an id is never given twice.\<close>

record pool =
  po_objects :: "pool_object list"
  po_last_object :: int
  po_releases :: "release_row list"
  po_last_release :: int
  po_members :: "(int \<times> int) list"
  po_deltas :: "delta_row list"
  po_live :: "(pool_ring \<times> int) list"
  po_heads :: "(pool_ring \<times> int) list"
  po_artifacts :: "artifact list"
  po_bucket :: "(string \<times> int) list"

definition releaseRow :: "pool \<Rightarrow> int \<Rightarrow> release_row option" where
  "releaseRow d i = find (\<lambda>r. rl_id r = i) (po_releases d)"

definition objectRow :: "pool \<Rightarrow> int \<Rightarrow> pool_object option" where
  "objectRow d i = find (\<lambda>x. ob_id x = i) (po_objects d)"

definition objectIs :: "pool \<Rightarrow> (pool_object \<Rightarrow> bool) \<Rightarrow> int \<Rightarrow> bool" where
  "objectIs d P i \<longleftrightarrow> (case objectRow d i of Some x \<Rightarrow> P x | None \<Rightarrow> False)"

definition ringMembers :: "pool \<Rightarrow> pool_ring \<Rightarrow> int list" where
  "ringMembers d g = map snd (filter (\<lambda>m. fst m = g) (po_live d))"

definition memberRows :: "pool \<Rightarrow> int \<Rightarrow> int list" where
  "memberRows d i = map snd (filter (\<lambda>m. fst m = i) (po_members d))"

definition headRing :: "pool \<Rightarrow> int \<Rightarrow> pool_ring option" where
  "headRing d i = map_option fst (find (\<lambda>h. snd h = i) (po_heads d))"

definition ringHead :: "pool \<Rightarrow> pool_ring \<Rightarrow> release_row option" where
  "ringHead d g = Option.bind (map_of (po_heads d) g) (releaseRow d)"

subsection \<open>The reconstruction of a release\<close>

definition CHECKPOINT_EVERY :: nat where
  "CHECKPOINT_EVERY = 24"

datatype rebuild_error =
    NoSuchRelease int
  | NoCheckpointBehind int
  | ParentGone int int
  | NoCheckpointWithin int nat
  | PackagesCollected int int

text \<open>The releases back to the nearest checkpoint, the oldest first: the list is the code's chain read from its end.\<close>

function walkBack :: "pool \<Rightarrow> int \<Rightarrow> release_row \<Rightarrow> release_row list \<Rightarrow> rebuild_error + release_row list" where
  "walkBack d i cur chain =
     (if rl_checkpoint cur then Inr (cur # chain)
      else case rl_parent cur of
        None \<Rightarrow> Inl (NoCheckpointBehind i)
      | Some p \<Rightarrow> (case releaseRow d p of
          None \<Rightarrow> Inl (ParentGone i p)
        | Some parent \<Rightarrow>
            if length (parent # cur # chain) > CHECKPOINT_EVERY * 4 then Inl (NoCheckpointWithin i (length (parent # cur # chain)))
            else walkBack d i parent (cur # chain)))"
  by pat_completeness auto
termination
  by (relation "measure (\<lambda>(d, i, cur, chain). CHECKPOINT_EVERY * 4 - length chain)") auto

declare walkBack.simps [simp del]

definition deltasOf :: "pool \<Rightarrow> int \<Rightarrow> delta_row list" where
  "deltasOf d i = filter (\<lambda>x. dl_release x = i) (po_deltas d)"

text \<open>A \<^verbatim>\<open>Set\<close>, in the order its elements came.\<close>

definition addId :: "int \<Rightarrow> int list \<Rightarrow> int list" where
  "addId i ids = (if i \<in> set ids then ids else ids @ [i])"

definition applyDelta :: "delta_row \<Rightarrow> int list \<Rightarrow> int list" where
  "applyDelta x ids = (case dl_op x of OpRemove \<Rightarrow> filter (\<lambda>i. i \<noteq> dl_package x) ids | OpAdd \<Rightarrow> addId (dl_package x) ids)"

definition applyDeltas :: "delta_row list \<Rightarrow> int list \<Rightarrow> int list" where
  "applyDeltas xs ids = fold applyDelta xs ids"

definition foldChain :: "pool \<Rightarrow> release_row list \<Rightarrow> int list \<Rightarrow> int list" where
  "foldChain d chain ids = fold (\<lambda>r. applyDeltas (deltasOf d (rl_id r))) chain ids"

function chunks :: "nat \<Rightarrow> 'a list \<Rightarrow> 'a list list" where
  "chunks n xs = (if xs = [] then [] else take (Suc n) xs # chunks n (drop (Suc n) xs))"
  by pat_completeness auto
termination
  by (relation "measure (\<lambda>(n, xs). length xs)") auto

declare chunks.simps [simp del]

definition CHUNK :: nat where
  "CHUNK = 2000"

definition missingOf :: "pool \<Rightarrow> int list \<Rightarrow> int" where
  "missingOf d chunk = int (length chunk) - int (length (filter (\<lambda>x. ob_id x \<in> set chunk) (po_objects d)))"

definition insertMembers :: "int \<Rightarrow> int list \<Rightarrow> (int \<times> int) list \<Rightarrow> (int \<times> int) list" where
  "insertMembers i ids ms = ms @ filter (\<lambda>m. m \<notin> set ms) (map (Pair i) ids)"

definition setRelease :: "int \<Rightarrow> (release_row \<Rightarrow> release_row) \<Rightarrow> pool \<Rightarrow> pool" where
  "setRelease i f d = d\<lparr>po_releases := sql_update (\<lambda>r. rl_id r = i) f (po_releases d)\<rparr>"

definition writeCheckpoint :: "int \<Rightarrow> int list \<Rightarrow> pool \<Rightarrow> pool" where
  "writeCheckpoint i ids d = setRelease i (\<lambda>r. r\<lparr>rl_checkpoint := True\<rparr>) (d\<lparr>po_members := insertMembers i ids (po_members d)\<rparr>)"

text \<open>What a release holds: the ring's rows for a head, else its checkpoint's and the deltas since.\<close>

definition rebuildIds :: "pool \<Rightarrow> release_row \<Rightarrow> rebuild_error + int list" where
  "rebuildIds d start = (case headRing d (rl_id start) of
     Some g \<Rightarrow> Inr (uniq (ringMembers d g))
   | None \<Rightarrow> (case walkBack d (rl_id start) start [] of
       Inl e \<Rightarrow> Inl e
     | Inr [] \<Rightarrow> Inr []
     | Inr (base # chain) \<Rightarrow> Inr (foldChain d chain (uniq (memberRows d (rl_id base))))))"

definition ensureCheckpoint :: "int \<Rightarrow> pool \<Rightarrow> rebuild_error option \<times> pool" where
  "ensureCheckpoint i d = (case releaseRow d i of
     None \<Rightarrow> (Some (NoSuchRelease i), d)
   | Some start \<Rightarrow>
       if rl_checkpoint start then (None, d)
       else (case rebuildIds d start of
         Inl e \<Rightarrow> (Some e, d)
       | Inr ids \<Rightarrow> (case find (\<lambda>c. missingOf d c > 0) (chunks (CHUNK - 1) ids) of
           Some c \<Rightarrow> (Some (PackagesCollected i (missingOf d c)), d)
         | None \<Rightarrow> (None, writeCheckpoint i ids d))))"

text \<open>The rows a release is read by: a head's are live, any other's are its checkpoint's, written first where it has none.\<close>

definition releaseMembers :: "int \<Rightarrow> pool \<Rightarrow> (rebuild_error + int list) \<times> pool" where
  "releaseMembers i d = (case headRing d i of
     Some g \<Rightarrow> (Inr (ringMembers d g), d)
   | None \<Rightarrow> (case ensureCheckpoint i d of
       (Some e, d') \<Rightarrow> (Inl e, d')
     | (None, d') \<Rightarrow> (Inr (memberRows d' i), d')))"

subsection \<open>What a release holds, kept on its row\<close>

definition membersIn :: "pool \<Rightarrow> int list \<Rightarrow> pool_object list" where
  "membersIn d ids = filter (\<lambda>x. ob_id x \<in> set ids) (po_objects d)"

definition releaseSummary :: "int \<Rightarrow> pool \<Rightarrow> (rebuild_error + int \<times> int) \<times> pool" where
  "releaseSummary i d = (case Option.bind (releaseRow d i) (\<lambda>r. Option.bind (rl_count r) (\<lambda>n. map_option (Pair n) (rl_bytes r))) of
     Some out \<Rightarrow> (Inr out, d)
   | None \<Rightarrow> (case releaseMembers i d of
       (Inl e, d1) \<Rightarrow> (Inl e, d1)
     | (Inr ids, d1) \<Rightarrow>
         (let xs = membersIn d1 ids; n = int (length xs); b = sum_list (map ob_bytes xs)
          in (Inr (n, b), setRelease i (\<lambda>r. r\<lparr>rl_count := Some n, rl_bytes := Some b\<rparr>) d1))))"

text \<open>Per source and architecture; the slices come in the order of their first package.\<close>

definition slicesOf :: "pool_object list \<Rightarrow> source_slice list" where
  "slicesOf xs = map (\<lambda>(s, a). let ys = filter (\<lambda>x. ob_source x = s \<and> ob_arch x = a) xs
      in \<lparr>sc_source = s, sc_arch = a, sc_packages = int (length ys), sc_bytes = sum_list (map ob_bytes ys)\<rparr>)
     (uniq (map (\<lambda>x. (ob_source x, ob_arch x)) xs))"

definition releaseSources :: "int \<Rightarrow> pool \<Rightarrow> (rebuild_error + source_slice list) \<times> pool" where
  "releaseSources i d = (case Option.bind (releaseRow d i) rl_sources of
     Some out \<Rightarrow> (Inr out, d)
   | None \<Rightarrow> (case releaseMembers i d of
       (Inl e, d1) \<Rightarrow> (Inl e, d1)
     | (Inr ids, d1) \<Rightarrow> (let out = slicesOf (membersIn d1 ids) in (Inr out, setRelease i (\<lambda>r. r\<lparr>rl_sources := Some out\<rparr>) d1))))"

subsection \<open>A release asked for\<close>

record create_ask =
  ck_ring :: string
  ck_from_ring :: "string option"
  ck_from_release :: "int option"
  ck_add :: "string list"
  ck_remove :: "string list"
  ck_remove_from :: "(string \<times> string) list"
  ck_remove_arch :: "string option"
  ck_arch :: "string option"
  ck_note :: "string option"

datatype create_refusal =
    NotARing
  | NoSuchBase int
  | LabIsNoBase
  | AnotherRingsRelease int pool_ring
  | NotAFromRing
  | LabNeverPromoted
  | NothingToPromote pool_ring
  | BadRemoveArch
  | NotIndexed "string list"
  | BadArch
  | ArchNeedsBase
  | CannotRebuild rebuild_error
  | SeqTaken int

text \<open>Where the selection starts: an earlier release of the ring, another ring's head, or none said.\<close>

definition sourceRelease :: "create_ask \<Rightarrow> pool_ring \<Rightarrow> pool \<Rightarrow> create_refusal + release_row option" where
  "sourceRelease b g d = (case ck_from_release b of
     Some i \<Rightarrow> (case releaseRow d i of
         None \<Rightarrow> Inl (NoSuchBase i)
       | Some r \<Rightarrow> if rl_ring r = Lab \<and> g \<noteq> Lab then Inl LabIsNoBase
           else if rl_ring r \<noteq> g then Inl (AnotherRingsRelease (rl_id r) (rl_ring r)) else Inr (Some r))
   | None \<Rightarrow> (case ck_from_ring b of
       None \<Rightarrow> Inr None
     | Some s \<Rightarrow> (case ringOfName s of
         None \<Rightarrow> Inl NotAFromRing
       | Some h \<Rightarrow> if h = Lab \<or> g = Lab then Inl LabNeverPromoted
           else (case ringHead d h of None \<Rightarrow> Inl (NothingToPromote h) | Some r \<Rightarrow> Inr (Some r)))))"

text \<open>An entry of \<open>add\<close>: \<^verbatim>\<open><sha256>\<close> or \<^verbatim>\<open><sha256>/<arch>\<close>.\<close>

definition wantedOf :: "string \<Rightarrow> string \<times> string option" where
  "wantedOf entry = (case split_on (CHR ''/'') entry of s # a # _ \<Rightarrow> (s, Some a) | [s] \<Rightarrow> (s, None) | [] \<Rightarrow> ([], None))"

definition addRowsOf :: "pool \<Rightarrow> arch option \<Rightarrow> string \<Rightarrow> pool_object list" where
  "addRowsOf d ra entry = filter (\<lambda>x. ob_sha x = fst (wantedOf entry)
     \<and> (case ra of Some a \<Rightarrow> ob_arch x = a | None \<Rightarrow> True) \<and> (case snd (wantedOf entry) of Some a \<Rightarrow> ob_arch x = a | None \<Rightarrow> True)) (po_objects d)"

definition addedIds :: "pool \<Rightarrow> arch option \<Rightarrow> string list \<Rightarrow> int list" where
  "addedIds d ra entries = uniq (concat (map (\<lambda>e. map ob_id (addRowsOf d ra e)) entries))"

definition lastSeq :: "(release_row \<Rightarrow> bool) \<Rightarrow> pool \<Rightarrow> pool_ring \<Rightarrow> int" where
  "lastSeq P d g = foldr max (map rl_seq (filter (\<lambda>r. rl_ring r = g \<and> P r) (po_releases d))) 0"

text \<open>The base, as the statement that reads it when the batch runs.\<close>

datatype base_sql = NoRows | LiveOf pool_ring | RowsOf int | OneArch base_sql arch pool_ring

fun baseRows :: "base_sql \<Rightarrow> pool \<Rightarrow> int list" where
  "baseRows NoRows d = []"
| "baseRows (LiveOf g) d = ringMembers d g"
| "baseRows (RowsOf i) d = memberRows d i"
| "baseRows (OneArch b a g) d = uniq (filter (objectIs d (\<lambda>x. ob_arch x = a)) (baseRows b d) @ filter (objectIs d (\<lambda>x. ob_arch x \<noteq> a)) (ringMembers d g))"

definition baseOf :: "release_row option \<Rightarrow> release_row option \<Rightarrow> pool_ring \<Rightarrow> arch option \<Rightarrow> pool \<Rightarrow> (rebuild_error + base_sql) \<times> pool" where
  "baseOf src parent g only d =
     (if src \<noteq> None \<and> map_option rl_id src \<noteq> map_option rl_id parent
      then let i = rl_id (the src);
               (b, d1) = (case headRing d i of
                   Some h \<Rightarrow> (Inr (LiveOf h), d)
                 | None \<Rightarrow> (case ensureCheckpoint i d of (Some e, d1) \<Rightarrow> (Inl e, d1) | (None, d1) \<Rightarrow> (Inr (RowsOf i), d1)))
           in (case (b, only) of
                 (Inr base, Some a) \<Rightarrow> (Inr (if parent = None then base else OneArch base a g), d1)
               | _ \<Rightarrow> (b, d1))
      else (Inr (if parent = None then NoRows else LiveOf g), d))"

record release_plan =
  pn_ring :: pool_ring
  pn_seq :: int
  pn_parent :: "int option"
  pn_source :: "int option"
  pn_note :: "string option"
  pn_base :: base_sql
  pn_remove :: "string list"
  pn_remove_from :: "(string \<times> string) list"
  pn_remove_arch :: "arch option"
  pn_added :: "int list"
  pn_checkpoint :: bool
  pn_unchanged :: "arch list"

text \<open>The architectures the request cannot have touched.\<close>

definition scopedTo :: "create_ask \<Rightarrow> release_row option \<Rightarrow> release_row option \<Rightarrow> int list \<Rightarrow> arch option" where
  "scopedTo b src parent added =
     (if parent \<noteq> None \<and> (src = None \<or> map_option rl_id src = map_option rl_id parent) then ck_remove_arch b
      else if ck_arch b \<noteq> None \<and> ((ck_remove b = [] \<and> ck_remove_from b = [] \<and> added = []) \<or> ck_remove_arch b = ck_arch b) then ck_arch b
      else None)"

definition unchangedArches :: "create_ask \<Rightarrow> release_row option \<Rightarrow> release_row option \<Rightarrow> int list \<Rightarrow> arch list" where
  "unchangedArches b src parent added = (case (parent, scopedTo b src parent added) of
     (Some _, Some a) \<Rightarrow> filter (\<lambda>x. x \<noteq> a) REPO_ARCHES
   | _ \<Rightarrow> [])"

definition planRelease :: "create_ask \<Rightarrow> pool \<Rightarrow> (create_refusal + release_plan) \<times> pool" where
  "planRelease b d = (case ringOfName (ck_ring b) of
     None \<Rightarrow> (Inl NotARing, d)
   | Some g \<Rightarrow> (case sourceRelease b g d of
       Inl e \<Rightarrow> (Inl e, d)
     | Inr src \<Rightarrow>
         (let parent = ringHead d g; added = addedIds d (ck_remove_arch b) (ck_add b); sq = lastSeq (\<lambda>_. True) d g + 1;
              missing = filter (\<lambda>e. addRowsOf d (ck_remove_arch b) e = []) (ck_add b)
          in if (case ck_remove_arch b of Some a \<Rightarrow> \<not> isRepoArch a | None \<Rightarrow> False) then (Inl BadRemoveArch, d)
             else if missing \<noteq> [] then (Inl (NotIndexed missing), d)
             else if (case ck_arch b of Some a \<Rightarrow> \<not> isRepoArch a | None \<Rightarrow> False) then (Inl BadArch, d)
             else if ck_arch b \<noteq> None \<and> src = None then (Inl ArchNeedsBase, d)
             else (case baseOf src parent g (ck_arch b) d of
               (Inl e, d1) \<Rightarrow> (Inl (CannotRebuild e), d1)
             | (Inr base, d1) \<Rightarrow>
                 (Inr \<lparr>pn_ring = g, pn_seq = sq, pn_parent = map_option rl_id parent, pn_source = map_option rl_id src, pn_note = ck_note b,
                       pn_base = base, pn_remove = ck_remove b, pn_remove_from = ck_remove_from b, pn_remove_arch = ck_remove_arch b,
                       pn_added = added, pn_checkpoint = (parent = None \<or> sq - lastSeq rl_checkpoint d1 g \<ge> int CHECKPOINT_EVERY),
                       pn_unchanged = unchangedArches b src parent added\<rparr>, d1)))))"

subsection \<open>The batch\<close>

definition removedBy :: "release_plan \<Rightarrow> pool_object \<Rightarrow> bool" where
  "removedBy p x \<longleftrightarrow> (ob_name x \<in> set (pn_remove p) \<or> (ob_source x, ob_name x) \<in> set (pn_remove_from p))
     \<and> (case pn_remove_arch p of Some a \<Rightarrow> ob_arch x = a | None \<Rightarrow> True)"

definition replacedBy :: "pool \<Rightarrow> release_plan \<Rightarrow> pool_object \<Rightarrow> bool" where
  "replacedBy d p x \<longleftrightarrow> list_ex (\<lambda>a. ob_id a \<in> set (pn_added p) \<and> ob_name a = ob_name x \<and> ob_arch a = ob_arch x \<and> ob_source a = ob_source x) (po_objects d)"

definition targetOf :: "pool \<Rightarrow> release_plan \<Rightarrow> int list" where
  "targetOf d p = uniq (filter (objectIs d (\<lambda>x. \<not> removedBy p x \<and> \<not> replacedBy d p x)) (baseRows (pn_base p) d) @ pn_added p)"

definition except :: "int list \<Rightarrow> int list \<Rightarrow> int list" where
  "except xs ys = uniq (filter (\<lambda>x. x \<notin> set ys) xs)"

definition deltaRows :: "int \<Rightarrow> int list \<Rightarrow> int list \<Rightarrow> delta_row list" where
  "deltaRows i own target =
     map (\<lambda>x. \<lparr>dl_release = i, dl_package = x, dl_op = OpAdd\<rparr>) (except target own)
     @ map (\<lambda>x. \<lparr>dl_release = i, dl_package = x, dl_op = OpRemove\<rparr>) (except own target)"

definition moveLive :: "pool_ring \<Rightarrow> delta_row list \<Rightarrow> (pool_ring \<times> int) list \<Rightarrow> (pool_ring \<times> int) list" where
  "moveLive g xs live =
     (let kept = filter (\<lambda>m. \<not> (fst m = g \<and> list_ex (\<lambda>x. dl_op x = OpRemove \<and> dl_package x = snd m) xs)) live;
          new = map (\<lambda>x. (g, dl_package x)) (filter (\<lambda>x. dl_op x = OpAdd) xs)
      in kept @ filter (\<lambda>m. m \<notin> set kept) new)"

definition setHead :: "pool_ring \<Rightarrow> int \<Rightarrow> (pool_ring \<times> int) list \<Rightarrow> (pool_ring \<times> int) list" where
  "setHead g i hs = (g, i) # filter (\<lambda>h. fst h \<noteq> g) hs"

text \<open>The databases a release carries: of each architecture, those of the nearest ancestor that has any, unless one before it holds no
  package of it.\<close>

definition CARRY_DEPTH :: nat where
  "CARRY_DEPTH = 12"

fun ancestors :: "nat \<Rightarrow> pool \<Rightarrow> int \<Rightarrow> int list" where
  "ancestors n d i = i # (case n of 0 \<Rightarrow> [] | Suc m \<Rightarrow> (case Option.bind (releaseRow d i) rl_parent of Some p \<Rightarrow> ancestors m d p | None \<Rightarrow> []))"

definition bareOf :: "pool \<Rightarrow> arch \<Rightarrow> int \<Rightarrow> bool" where
  "bareOf d a i \<longleftrightarrow> (case Option.bind (releaseRow d i) rl_sources of Some ss \<Rightarrow> \<not> list_ex (\<lambda>s. sc_arch s = a) ss | None \<Rightarrow> False)"

definition artifactsOf :: "pool \<Rightarrow> arch \<Rightarrow> int \<Rightarrow> artifact list" where
  "artifactsOf d a i = filter (\<lambda>x. ar_release x = i \<and> ar_arch x = a) (po_artifacts d)"

definition nearest :: "pool \<Rightarrow> arch \<Rightarrow> int list \<Rightarrow> nat option" where
  "nearest d a anc = find_index (\<lambda>i. artifactsOf d a i \<noteq> [] \<or> (isRepoArch a \<and> bareOf d a i)) anc"

definition carriedArtifacts :: "pool \<Rightarrow> int \<Rightarrow> int \<Rightarrow> arch list \<Rightarrow> artifact list" where
  "carriedArtifacts d new parent unchanged =
     (let anc = ancestors CARRY_DEPTH d parent
      in concat (map (\<lambda>a. case nearest d a anc of
           None \<Rightarrow> []
         | Some n \<Rightarrow> map (\<lambda>c. c\<lparr>ar_release := new, ar_awaits := (if a \<notin> set unchanged then Some new else if n = 0 then ar_awaits c else Some parent)\<rparr>)
             (artifactsOf d a (anc ! n))) (uniq (map ar_arch (po_artifacts d)))))"

definition sameArtifact :: "artifact \<Rightarrow> artifact \<Rightarrow> bool" where
  "sameArtifact x y \<longleftrightarrow> ar_release x = ar_release y \<and> ar_repo x = ar_repo y \<and> ar_arch x = ar_arch y \<and> ar_kind x = ar_kind y"

fun insertArtifacts :: "artifact list \<Rightarrow> artifact list \<Rightarrow> artifact list" where
  "insertArtifacts [] as = as"
| "insertArtifacts (x # xs) as = insertArtifacts xs (if list_ex (sameArtifact x) as then as else as @ [x])"

definition newRelease :: "int \<Rightarrow> release_plan \<Rightarrow> release_row" where
  "newRelease i p = \<lparr>rl_id = i, rl_ring = pn_ring p, rl_seq = pn_seq p, rl_parent = pn_parent p, rl_checkpoint = False, rl_source = pn_source p, rl_note = pn_note p,
     rl_count = None, rl_bytes = None, rl_sources = None\<rparr>"

text \<open>The membership: the row, its delta, the ring's rows moved by it, the head, and at a checkpoint the rows written out.\<close>

definition membershipBatch :: "release_plan \<Rightarrow> pool \<Rightarrow> int \<times> pool" where
  "membershipBatch p d =
     (let i = po_last_release d + 1; g = pn_ring p;
          xs = deltaRows i (ringMembers d g) (targetOf d p);
          d1 = d\<lparr>po_releases := newRelease i p # po_releases d, po_last_release := i, po_deltas := po_deltas d @ xs,
                 po_live := moveLive g xs (po_live d), po_heads := setHead g i (po_heads d)\<rparr>
      in (i, if pn_checkpoint p then writeCheckpoint i (ringMembers d1 g) d1 else d1))"

definition releaseBatch :: "release_plan \<Rightarrow> pool \<Rightarrow> (create_refusal + int) \<times> pool" where
  "releaseBatch p d =
     (if list_ex (\<lambda>r. rl_ring r = pn_ring p \<and> rl_seq r = pn_seq p) (po_releases d) then (Inl (SeqTaken (pn_seq p)), d)
      else let (i, d1) = membershipBatch p d;
               d2 = d1\<lparr>po_objects := sql_update (\<lambda>x. ob_id x \<in> set (pn_added p)) (\<lambda>x. x\<lparr>ob_released := True\<rparr>) (po_objects d1)\<rparr>;
               d3 = (case pn_parent p of
                   Some q \<Rightarrow> d2\<lparr>po_artifacts := insertArtifacts (carriedArtifacts d2 i q (pn_unchanged p)) (po_artifacts d2)\<rparr>
                 | None \<Rightarrow> d2)
           in (Inr i, snd (releaseSources i (snd (releaseSummary i d3)))))"

definition handleCreateRelease :: "create_ask \<Rightarrow> pool \<Rightarrow> (create_refusal + int \<times> arch list) \<times> pool" where
  "handleCreateRelease b d = (case planRelease b d of
     (Inl e, d1) \<Rightarrow> (Inl e, d1)
   | (Inr p, d1) \<Rightarrow> (case releaseBatch p d1 of
       (Inl e, d2) \<Rightarrow> (Inl e, d2)
     | (Inr i, d2) \<Rightarrow> (Inr (i, pn_unchanged p), d2)))"

end
