(* ===== verification/Pool_Retention.thy ===== *)
theory Pool_Retention
  imports Pool_Releases Staging
begin

text \<open>
  What the pool keeps of its releases and what it deletes (worker/src/db.ts \<open>retention\<close>, worker/src/routes/gc.ts), the index of a package
  uploaded (routes/pool.ts, routes/packages.ts), the databases a render stores (routes/releases.ts), the diff of two releases, and the removal of a
  package from every ring (routes/blocks.ts). GC's deletes of tables with no rule over them (provides, file lists, CVE metadata) are left out, as is the refusal of a request without a body;
  GC's sweep of staging and of orders is \<open>sweepStaging\<close> and \<open>OLD_ORDERS_SQL\<close>.
\<close>

subsection \<open>A package indexed\<close>

definition SOURCES :: "string list" where
  "SOURCES = [''core'', ''extra'', ''multilib'', ''alarm'', ''packages'', ''chaotic'', ''asahi'', ''asahi-alarm'', ''aur'', ''factory'']"

definition packageKey :: "string \<Rightarrow> arch \<Rightarrow> string \<Rightarrow> string" where
  "packageKey src ar file = src @ ''/'' @ ar @ ''/'' @ file"

definition artifactKey :: "string \<Rightarrow> arch \<Rightarrow> string \<Rightarrow> string \<Rightarrow> string" where
  "artifactKey src ar repo kind = src @ ''/'' @ ar @ ''/'' @ repo @ ''.'' @ kind"

text \<open>A name an upload may have, and the three things that make its key.\<close>

definition FILENAME_RE :: "string \<Rightarrow> bool" where
  "FILENAME_RE s \<longleftrightarrow> list_ex (\<lambda>sfx. ends_with sfx s \<and> length s > length sfx
       \<and> list_all (\<lambda>c. is_lower c \<or> is_upper c \<or> is_digit c \<or> c \<in> set ''@._+:-'') (take (length s - length sfx) s))
     (concat (map (\<lambda>a. map (\<lambda>e. ''-'' @ a @ ''.pkg.tar.'' @ e) [''zst'', ''xz'']) [''x86_64'', ''aarch64'', ''any'']))"

datatype upload_refusal = BadFilename | UploadBadSource | UploadBadArch

definition uploadTarget :: "string \<Rightarrow> string \<Rightarrow> arch \<Rightarrow> upload_refusal option" where
  "uploadTarget file src ar =
     (if \<not> FILENAME_RE file then Some BadFilename
      else if src \<notin> set SOURCES then Some UploadBadSource
      else if \<not> isRepoArch ar then Some UploadBadArch else None)"

text \<open>An upload of \<open>n\<close> bytes that match the digest claimed: an object already there stays, and its size is the answer.\<close>

definition handlePutPool :: "string \<Rightarrow> arch \<Rightarrow> string \<Rightarrow> int \<Rightarrow> pool \<Rightarrow> (upload_refusal + int) \<times> pool" where
  "handlePutPool src ar file n d = (case uploadTarget file src ar of
     Some e \<Rightarrow> (Inl e, d)
   | None \<Rightarrow> (let k = packageKey src ar file in (case map_of (po_bucket d) k of
       Some m \<Rightarrow> (Inr m, d)
     | None \<Rightarrow> (Inr n, d\<lparr>po_bucket := (k, n) # po_bucket d\<rparr>))))"

record manifest =
  mf_sha :: string
  mf_name :: string
  mf_version :: string
  mf_arch :: string
  mf_filename :: string
  mf_bytes :: int

datatype index_refusal = BadSource | BadRepoArch | BadManifest | BadSha | NotInPool | SizeDiffers int

definition isSha :: "string \<Rightarrow> bool" where
  "isSha s \<longleftrightarrow> length s = 64 \<and> list_all (\<lambda>c. is_digit c \<or> c \<in> set ''abcdef'') s"

definition newObject :: "int \<Rightarrow> string \<Rightarrow> arch \<Rightarrow> manifest \<Rightarrow> int \<Rightarrow> pool_object" where
  "newObject i src ar m now = \<lparr>ob_id = i, ob_sha = mf_sha m, ob_name = mf_name m, ob_version = mf_version m, ob_arch = ar, ob_source = src,
     ob_filename = mf_filename m, ob_key = Some (packageKey src ar (mf_filename m)), ob_bytes = mf_bytes m, ob_released = False, ob_created = now\<rparr>"

definition handlePostPackage :: "string \<Rightarrow> arch \<Rightarrow> manifest \<Rightarrow> int \<Rightarrow> pool \<Rightarrow> (index_refusal + int) \<times> pool" where
  "handlePostPackage src ar m now d =
     (if src \<notin> set SOURCES then (Inl BadSource, d)
      else if \<not> isRepoArch ar then (Inl BadRepoArch, d)
      else if mf_sha m = [] \<or> mf_name m = [] \<or> mf_version m = [] \<or> mf_arch m = [] \<or> mf_filename m = [] then (Inl BadManifest, d)
      else if \<not> isSha (mf_sha m) then (Inl BadSha, d)
      else case map_of (po_bucket d) (packageKey src ar (mf_filename m)) of
        None \<Rightarrow> (Inl NotInPool, d)
      | Some n \<Rightarrow>
          if n \<noteq> mf_bytes m then (Inl (SizeDiffers n), d)
          else (case find (\<lambda>x. ob_sha x = mf_sha m \<and> ob_arch x = ar) (po_objects d) of
            Some x \<Rightarrow> (Inr (ob_id x), d)
          | None \<Rightarrow> (let i = po_last_object d + 1
              in (Inr i, d\<lparr>po_objects := newObject i src ar m now # po_objects d, po_last_object := i\<rparr>))))"

subsection \<open>Retention\<close>

definition KEEP_RELEASES :: nat where "KEEP_RELEASES = 3"

definition GRACE_DAYS :: int where "GRACE_DAYS = 7"

definition CARRY_REACH :: int where "CARRY_REACH = 256"

definition releasesOf :: "pool \<Rightarrow> pool_ring \<Rightarrow> release_row list" where
  "releasesOf d g = sort_key (\<lambda>r. - rl_seq r) (filter (\<lambda>r. rl_ring r = g) (po_releases d))"

definition CARRIED_ARCHES_SQL :: "pool \<Rightarrow> int \<Rightarrow> arch list" where
  "CARRIED_ARCHES_SQL d i = uniq (map ar_arch (filter (\<lambda>x. ar_release x = i \<and> ar_awaits x \<noteq> None) (po_artifacts d)))"

definition RENDERED_BEFORE_SQL :: "pool \<Rightarrow> pool_ring \<Rightarrow> int \<Rightarrow> arch \<Rightarrow> int option" where
  "RENDERED_BEFORE_SQL d g sq a = map_option rl_seq (first_of (filter (\<lambda>r. rl_seq r < sq \<and> rl_seq r \<ge> sq - CARRY_REACH
     \<and> artifactsOf d a (rl_id r) \<noteq> [] \<and> list_all (\<lambda>x. ar_awaits x = None) (artifactsOf d a (rl_id r))) (releasesOf d g)))"

definition minOpt :: "int option \<Rightarrow> int \<Rightarrow> int option" where
  "minOpt m x = Some (case m of None \<Rightarrow> x | Some y \<Rightarrow> min y x)"

definition carriedSince :: "pool \<Rightarrow> pool_ring \<Rightarrow> release_row \<Rightarrow> int option" where
  "carriedSince d g h = foldl (\<lambda>m a. minOpt m (nvl (RENDERED_BEFORE_SQL d g (rl_seq h) a) (max 1 (rl_seq h - CARRY_REACH))))
     None (CARRIED_ARCHES_SQL d (rl_id h))"

text \<open>A ring's protected releases, newest first: the last \<open>keep\<close>, and those back to the one whose databases the head still serves.\<close>

definition protectedOf :: "pool \<Rightarrow> nat \<Rightarrow> pool_ring \<Rightarrow> release_row list" where
  "protectedOf d keep g =
     (let rows = take keep (releasesOf d g)
      in case rows of
        [] \<Rightarrow> []
      | h # _ \<Rightarrow> (case carriedSince d g h of
          None \<Rightarrow> rows
        | Some since \<Rightarrow> rows @ filter (\<lambda>r. rl_seq r \<ge> since \<and> rl_seq r < rl_seq (last rows)) (releasesOf d g)))"

text \<open>What a reconstruction of them starts from: the newest checkpoint at or before the oldest of them.\<close>

definition baseCheckpoint :: "pool \<Rightarrow> nat \<Rightarrow> pool_ring \<Rightarrow> release_row option" where
  "baseCheckpoint d keep g = (if protectedOf d keep g = [] then None
     else first_of (filter (\<lambda>r. rl_checkpoint r \<and> rl_seq r \<le> rl_seq (last (protectedOf d keep g))) (releasesOf d g)))"

record retained =
  rt_protected :: "int list"
  rt_checkpoints :: "int list"
  rt_floors :: "(pool_ring \<times> int) list"

definition retention :: "nat \<Rightarrow> pool \<Rightarrow> retained" where
  "retention keep d =
     \<lparr>rt_protected = concat (map (\<lambda>g. map rl_id (protectedOf d keep g)) RINGS),
      rt_checkpoints = concat (map (\<lambda>g. map rl_id (filter rl_checkpoint (protectedOf d keep g))
        @ (case baseCheckpoint d keep g of Some r \<Rightarrow> [rl_id r] | None \<Rightarrow> [])) RINGS),
      rt_floors = List.map_filter (\<lambda>g. map_option (\<lambda>r. (g, rl_seq r)) (baseCheckpoint d keep g)) RINGS\<rparr>"

definition servedNow :: "pool \<Rightarrow> int \<Rightarrow> bool" where
  "servedNow d i \<longleftrightarrow> list_ex (\<lambda>m. snd m = i) (po_live d)"

definition outsideRetention :: "retained \<Rightarrow> pool \<Rightarrow> int \<Rightarrow> bool" where
  "outsideRetention rt d i \<longleftrightarrow> \<not> servedNow d i
     \<and> \<not> list_ex (\<lambda>m. fst m \<in> set (rt_checkpoints rt) \<and> snd m = i) (po_members d)
     \<and> \<not> list_ex (\<lambda>x. dl_release x \<in> set (rt_protected rt) \<and> dl_package x = i) (po_deltas d)"

definition unreferenced :: "nat \<Rightarrow> int \<Rightarrow> int \<Rightarrow> pool \<Rightarrow> pool_object list" where
  "unreferenced keep graceDays now d =
     sort_key ob_id (filter (\<lambda>x. ob_created x < now - graceDays * DAY_MS \<and> outsideRetention (retention keep d) d (ob_id x)) (po_objects d))"

subsection \<open>Garbage collection\<close>

definition pruneCheckpoints :: "retained \<Rightarrow> pool \<Rightarrow> pool" where
  "pruneCheckpoints rt d = d\<lparr>po_members := filter (\<lambda>m. fst m \<in> set (rt_checkpoints rt)) (po_members d),
     po_releases := sql_update (\<lambda>r. rl_checkpoint r \<and> rl_id r \<notin> set (rt_checkpoints rt)) (\<lambda>r. r\<lparr>rl_checkpoint := False\<rparr>) (po_releases d)\<rparr>"

definition atOrBelow :: "pool \<Rightarrow> pool_ring \<Rightarrow> int \<Rightarrow> int list" where
  "atOrBelow d g sq = map rl_id (filter (\<lambda>r. rl_ring r = g \<and> rl_seq r \<le> sq) (po_releases d))"

definition pruneDeltas :: "pool_ring \<times> int \<Rightarrow> pool \<Rightarrow> pool" where
  "pruneDeltas f d = d\<lparr>po_deltas := filter (\<lambda>x. dl_release x \<notin> set (atOrBelow d (fst f) (snd f))) (po_deltas d)\<rparr>"

definition keyOf :: "pool_object \<Rightarrow> string" where
  "keyOf x = nvl (ob_key x) (ob_arch x @ ''/'' @ ob_filename x)"

definition sharedKey :: "pool \<Rightarrow> pool_object \<Rightarrow> bool" where
  "sharedKey d x \<longleftrightarrow> list_ex (\<lambda>y. ob_filename y = ob_filename x \<and> ob_id y \<noteq> ob_id x \<and> keyOf y = keyOf x) (po_objects d)"

definition objectKeys :: "string \<Rightarrow> string list" where
  "objectKeys k = [k, k @ ''.sig'', k @ ''.provenance.json'', k @ ''.provenance.json.sig'']"

text \<open>A victim is asked once more whether a ring serves it; its object goes only when no other row names it.\<close>

definition collectOne :: "pool_object \<Rightarrow> pool \<Rightarrow> pool" where
  "collectOne x d =
     (if servedNow d (ob_id x) then d
      else let d1 = (if sharedKey d x \<or> starts_with ''ghost/'' (keyOf x) then d
                     else d\<lparr>po_bucket := filter (\<lambda>b. fst b \<notin> set (objectKeys (keyOf x))) (po_bucket d)\<rparr>)
           in d1\<lparr>po_objects := filter (\<lambda>y. \<not> (ob_id y = ob_id x \<and> \<not> servedNow d1 (ob_id x))) (po_objects d1)\<rparr>)"

definition handleGc :: "nat \<Rightarrow> nat \<Rightarrow> int \<Rightarrow> int \<Rightarrow> pool \<Rightarrow> pool" where
  "handleGc keep limit graceDays now d =
     (let k = max 1 keep; rt = retention k d; victims = take (min limit 500) (unreferenced k graceDays now d)
      in fold collectOne victims (fold pruneDeltas (rt_floors rt) (pruneCheckpoints rt d)))"

subsection \<open>A package pulled from every ring\<close>

definition ringName :: "pool_ring \<Rightarrow> string" where
  "ringName g = (case g of Edge \<Rightarrow> ''edge'' | Rc \<Rightarrow> ''rc'' | Stable \<Rightarrow> ''stable'' | Lab \<Rightarrow> ''lab'')"

definition pullAsk :: "string \<Rightarrow> string \<Rightarrow> pool_ring \<Rightarrow> create_ask" where
  "pullAsk name note g = \<lparr>ck_ring = ringName g, ck_from_ring = None, ck_from_release = None, ck_add = [], ck_remove = [],
     ck_remove_from = [(''factory'', name)], ck_remove_arch = None, ck_arch = None, ck_note = Some note\<rparr>"

definition servesName :: "pool \<Rightarrow> string \<Rightarrow> pool_ring \<Rightarrow> bool" where
  "servesName d name g \<longleftrightarrow> list_ex (objectIs d (\<lambda>x. ob_name x = name \<and> ob_source x = ''factory'')) (ringMembers d g)"

fun pullRings :: "string \<Rightarrow> string \<Rightarrow> pool_ring list \<Rightarrow> pool \<Rightarrow> (pool_ring \<times> int option) list \<times> pool" where
  "pullRings name note [] d = ([], d)"
| "pullRings name note (g # gs) d =
     (let (res, d1) = handleCreateRelease (pullAsk name note g) d;
          (out, d2) = pullRings name note gs d1
      in ((g, case res of Inr (i, _) \<Rightarrow> Some i | Inl _ \<Rightarrow> None) # out, d2))"

definition pullFromRings :: "string \<Rightarrow> string \<Rightarrow> pool \<Rightarrow> (pool_ring \<times> int option) list \<times> pool" where
  "pullFromRings name note d = pullRings name note (filter (servesName d name) RINGS) d"

subsection \<open>The databases a render stores\<close>

definition sourceOfRepo :: "string \<Rightarrow> string option" where
  "sourceOfRepo repo = (if \<not> starts_with ''omarchy-'' repo then None
     else map_option (\<lambda>sfx. take (length repo - 8 - length sfx) (drop 8 repo))
       (find (\<lambda>sfx. ends_with sfx repo \<and> length repo > 8 + length sfx) (map (\<lambda>g. ''-'' @ ringName g) RINGS)))"

definition isRepoName :: "string \<Rightarrow> bool" where
  "isRepoName s \<longleftrightarrow> s \<noteq> [] \<and> list_all (\<lambda>c. is_lower c \<or> is_digit c \<or> c = CHR ''-'') s"

datatype put_refusal = RepoRequired | PutBadArch | RepoNotARings | PutNoRelease | PoolSigns

definition upsertArtifact :: "artifact \<Rightarrow> artifact list \<Rightarrow> artifact list" where
  "upsertArtifact x as = (if list_ex (sameArtifact x) as then sql_update (sameArtifact x) (\<lambda>_. x) as else as @ [x])"

text \<open>The releases made from this one, three generations down.\<close>

fun kinOf :: "nat \<Rightarrow> pool \<Rightarrow> int \<Rightarrow> int list" where
  "kinOf 0 d i = []"
| "kinOf (Suc n) d i = (let ks = map rl_id (filter (\<lambda>r. rl_parent r = Some i) (po_releases d)) in ks @ concat (map (kinOf n d) ks))"

definition AWAITED_SQL :: "int \<Rightarrow> artifact \<Rightarrow> artifact list \<Rightarrow> artifact list" where
  "AWAITED_SQL i x as = sql_update (\<lambda>y. ar_awaits y = Some i \<and> ar_repo y = ar_repo x \<and> ar_arch y = ar_arch x \<and> ar_kind y = ar_kind x)
     (\<lambda>y. y\<lparr>ar_key := ar_key x, ar_size := ar_size x, ar_awaits := None\<rparr>) as"

definition OWN_WAIT_SQL :: "artifact \<Rightarrow> artifact list \<Rightarrow> int option" where
  "OWN_WAIT_SQL x as = Option.bind (find (sameArtifact x) as) (\<lambda>y. if ar_awaits y = Some (ar_release x) then None else ar_awaits y)"

definition spreadArtifact :: "pool \<Rightarrow> artifact \<Rightarrow> int option \<Rightarrow> pool" where
  "spreadArtifact d x before =
     (let as1 = insertArtifacts (map (\<lambda>k. x\<lparr>ar_release := k\<rparr>) (kinOf 3 d (ar_release x))) (po_artifacts d);
          as2 = AWAITED_SQL (ar_release x) x as1
      in d\<lparr>po_artifacts := (case before of Some i \<Rightarrow> AWAITED_SQL i x as2 | None \<Rightarrow> as2)\<rparr>)"

definition putBucket :: "string \<Rightarrow> int \<Rightarrow> pool \<Rightarrow> pool" where
  "putBucket k n d = d\<lparr>po_bucket := (k, n) # filter (\<lambda>b. fst b \<noteq> k) (po_bucket d)\<rparr>"

text \<open>\<open>signing\<close>: the size of the signature the pool makes, where it has a key.\<close>

definition handlePutArtifact :: "int \<Rightarrow> string \<Rightarrow> string \<Rightarrow> arch \<Rightarrow> int \<Rightarrow> int option \<Rightarrow> pool \<Rightarrow> (put_refusal + string list) \<times> pool" where
  "handlePutArtifact i kind repo ar n signing d =
     (if \<not> isRepoName repo then (Inl RepoRequired, d)
      else if \<not> isRepoArch ar then (Inl PutBadArch, d)
      else case sourceOfRepo repo of
        None \<Rightarrow> (Inl RepoNotARings, d)
      | Some src \<Rightarrow>
          if releaseRow d i = None then (Inl PutNoRelease, d)
          else if ends_with ''.sig'' kind \<and> signing \<noteq> None then (Inl PoolSigns, d)
          else
            (let x = \<lparr>ar_release = i, ar_repo = repo, ar_arch = ar, ar_kind = kind, ar_key = artifactKey src ar repo kind, ar_size = n, ar_awaits = None\<rparr>;
                 y = x\<lparr>ar_kind := kind @ ''.sig'', ar_key := artifactKey src ar repo (kind @ ''.sig'')\<rparr>;
                 waitX = OWN_WAIT_SQL x (po_artifacts d); waitY = OWN_WAIT_SQL y (po_artifacts d);
                 d1 = putBucket (ar_key x) n d
             in case (if kind = ''db'' \<or> kind = ''files'' then signing else None) of
                  None \<Rightarrow> (Inr [ar_key x], spreadArtifact (d1\<lparr>po_artifacts := upsertArtifact x (po_artifacts d1)\<rparr>) x waitX)
                | Some m \<Rightarrow>
                    (let d2 = putBucket (ar_key y) m d1;
                         d3 = d2\<lparr>po_artifacts := upsertArtifact x (upsertArtifact (y\<lparr>ar_size := m\<rparr>) (po_artifacts d2))\<rparr>
                     in (Inr [ar_key x, ar_key y], spreadArtifact (spreadArtifact d3 x waitX) (y\<lparr>ar_size := 0\<rparr>) waitY))))"

definition WAITED_SQL :: "int \<Rightarrow> arch \<Rightarrow> pool \<Rightarrow> int list" where
  "WAITED_SQL i a d = uniq (List.map_filter ar_awaits (artifactsOf d a i))"

text \<open>A whole render of an architecture: what it did not write again goes, here and where its render was awaited.\<close>

definition handleRendered :: "int \<Rightarrow> arch \<Rightarrow> pool \<Rightarrow> pool" where
  "handleRendered i a d = (if \<not> isRepoArch a then d
     else let awaited = i # filter (\<lambda>w. w \<noteq> i) (WAITED_SQL i a d);
              as1 = filter (\<lambda>x. \<not> (ar_release x = i \<and> ar_arch x = a \<and> ar_awaits x \<noteq> None)) (po_artifacts d)
          in d\<lparr>po_artifacts := filter (\<lambda>x. \<not> (ar_arch x = a \<and> (case ar_awaits x of Some w \<Rightarrow> w \<in> set awaited | None \<Rightarrow> False))) as1\<rparr>)"

subsection \<open>The diff of two releases\<close>

fun diffChain :: "nat \<Rightarrow> pool \<Rightarrow> int \<Rightarrow> int \<Rightarrow> release_row \<Rightarrow> release_row list" where
  "diffChain n d frm fl r = r # (case n of 0 \<Rightarrow> []
     | Suc m \<Rightarrow> if rl_parent r \<noteq> Some frm \<and> rl_seq r > fl
         then (case Option.bind (rl_parent r) (releaseRow d) of Some q \<Rightarrow> diffChain m d frm fl q | None \<Rightarrow> []) else [])"

text \<open>The fold: an operation that meets its opposite cancels it.\<close>

definition netStep :: "delta_row \<Rightarrow> delta_row list \<Rightarrow> delta_row list" where
  "netStep x net = (case find (\<lambda>y. dl_package y = dl_package x) net of
     Some y \<Rightarrow> if dl_op y \<noteq> dl_op x then filter (\<lambda>z. dl_package z \<noteq> dl_package x) net else sql_update (\<lambda>z. dl_package z = dl_package x) (\<lambda>_. x) net
   | None \<Rightarrow> net @ [x])"

definition sizeOfSide :: "arch option \<Rightarrow> release_row \<Rightarrow> int option" where
  "sizeOfSide a r = (case a of
     None \<Rightarrow> rl_count r
   | Some ar \<Rightarrow> map_option (\<lambda>ss. sum_list (map sc_packages (filter (\<lambda>s. sc_arch s = ar) ss))) (rl_sources r))"

definition floorOf :: "pool \<Rightarrow> pool_ring \<Rightarrow> int option" where
  "floorOf d g = (case map rl_seq (filter (\<lambda>r. rl_ring r = g \<and> rl_checkpoint r) (po_releases d)) of [] \<Rightarrow> None | s # ss \<Rightarrow> Some (foldr min ss s))"

record diff_sides =
  df_before :: "int list"
  df_after :: "int list"
  df_counts :: "int \<times> int"

definition netOf :: "pool \<Rightarrow> arch option \<Rightarrow> release_row list \<Rightarrow> delta_row list" where
  "netOf d a chain = fold netStep
     (concat (map (\<lambda>r. filter (\<lambda>x. case a of Some ar \<Rightarrow> objectIs d (\<lambda>y. ob_arch y = ar) (dl_package x) | None \<Rightarrow> True) (deltasOf d (rl_id r))) (rev chain))) []"

definition sideOf :: "delta_op \<Rightarrow> delta_row list \<Rightarrow> int list" where
  "sideOf p net = map dl_package (filter (\<lambda>x. dl_op x = p) net)"

definition diffFromDeltas :: "pool \<Rightarrow> release_row option \<Rightarrow> release_row \<Rightarrow> arch option \<Rightarrow> diff_sides option" where
  "diffFromDeltas d frm tgt a = (case frm of
     None \<Rightarrow> None
   | Some f \<Rightarrow> (case (sizeOfSide a f, sizeOfSide a tgt, floorOf d (rl_ring tgt)) of
       (Some nb, Some na, Some fl) \<Rightarrow>
         (let chain = (if rl_id tgt = rl_id f then [] else diffChain (CHECKPOINT_EVERY * 4) d (rl_id f) fl tgt)
          in if rl_seq f < fl then None
             else if chain \<noteq> [] \<and> rl_parent (last chain) \<noteq> Some (rl_id f) then None
             else if list_ex (\<lambda>r. rl_seq r \<le> fl) chain then None
             else if list_ex (\<lambda>r. list_ex (\<lambda>x. objectRow d (dl_package x) = None) (deltasOf d (rl_id r))) chain then None
             else Some \<lparr>df_before = sideOf OpRemove (netOf d a chain), df_after = sideOf OpAdd (netOf d a chain), df_counts = (nb, na)\<rparr>)
     | _ \<Rightarrow> None))"

end
