(* ===== verification/Pool_Release_Runs.thy ===== *)
theory Pool_Release_Runs
  imports Pool_Retention
begin

text \<open>
  Every sequence of uploads, indexed packages, releases, reads, renders and collections, from an empty pool, with what each release held when it was
  made; and what holds all along: the order of a ring's releases, its head, the checkpoints and how far apart they are, the deltas above the oldest
  of them, and the objects behind what is served or kept.
\<close>

subsection \<open>Differences\<close>

text \<open>A difference between two contents takes one to the other, and two in a row are one: what a reconstruction and a diff rely on.\<close>

locale patching =
  fixes diff :: "'s \<Rightarrow> 's \<Rightarrow> 'd" and patch :: "'d \<Rightarrow> 's \<Rightarrow> 's"
  assumes patch_diff: "patch (diff a b) a = b"
begin

lemma patch_along: "fold patch (map2 diff (x # xs) xs) x = last (x # xs)"
  by (induction xs arbitrary: x) (simp_all add: patch_diff)

end

locale netting = patching +
  fixes join :: "'b \<Rightarrow> 'b \<Rightarrow> 'b"
  assumes join_diff: "join (diff a b) (diff b c) = diff a c"
begin

lemma join_along: "fold (\<lambda>y net. join net y) (map2 diff (x # xs) xs) (diff w x) = diff w (last (x # xs))"
  by (induction xs arbitrary: x) (simp_all add: join_diff)

end

definition diffOf :: "int set \<Rightarrow> int set \<Rightarrow> int set \<times> int set" where
  "diffOf a b = (b - a, a - b)"

definition patchWith :: "int set \<times> int set \<Rightarrow> int set \<Rightarrow> int set" where
  "patchWith x a = (a - snd x) \<union> fst x"

definition joinOf :: "int set \<times> int set \<Rightarrow> int set \<times> int set \<Rightarrow> int set \<times> int set" where
  "joinOf x y = ((fst x - snd y) \<union> (fst y - snd x), (snd x - fst y) \<union> (snd y - fst x))"

interpretation sets: netting diffOf patchWith joinOf
  by unfold_locales (auto simp: diffOf_def patchWith_def joinOf_def)

text \<open>The rows of a release's delta as such a difference.\<close>

definition deltaSets :: "delta_row list \<Rightarrow> int set \<times> int set" where
  "deltaSets xs = (dl_package ` {x \<in> set xs. dl_op x = OpAdd}, dl_package ` {x \<in> set xs. dl_op x = OpRemove})"

lemma set_addId [simp]: "set (addId i ids) = insert i (set ids)"
  by (auto simp: addId_def)

lemma applyDeltas_set:
  assumes "fst (deltaSets xs) \<inter> snd (deltaSets xs) = {}"
  shows "set (applyDeltas xs ids) = patchWith (deltaSets xs) (set ids)"
  using assms
proof (induction xs arbitrary: ids)
  case (Cons x xs)
  have IH: "set (applyDeltas xs js) = patchWith (deltaSets xs) (set js)" for js
    by (rule Cons.IH) (use Cons.prems in \<open>force simp: deltaSets_def\<close>)
  show ?case
    using Cons.prems IH by (cases "dl_op x") (auto simp: applyDeltas_def applyDelta_def patchWith_def deltaSets_def)
qed (simp add: applyDeltas_def patchWith_def deltaSets_def)

lemma deltaRows_sets: "deltaSets (deltaRows i own target) = diffOf (set own) (set target)"
  by (force simp: deltaSets_def deltaRows_def except_def diffOf_def)

subsection \<open>The rows of a ring\<close>

definition cores :: "pool \<Rightarrow> release_core set" where
  "cores d = release_core.truncate ` set (po_releases d)"

lemma truncate_sel [simp]:
  "rl_id (release_core.truncate r) = rl_id r" "rl_ring (release_core.truncate r) = rl_ring r" "rl_seq (release_core.truncate r) = rl_seq r"
  "rl_parent (release_core.truncate r) = rl_parent r" "rl_checkpoint (release_core.truncate r) = rl_checkpoint r"
  by (simp_all add: release_core.truncate_def)

lemma releaseRow_core:
  assumes "releaseRow d i = Some r"
  shows "release_core.truncate r \<in> cores d" "rl_id r = i"
  using assms by (auto simp: releaseRow_def cores_def find_Some_iff)

lemma releaseRow_None: "releaseRow d i = None \<longleftrightarrow> (\<forall>r \<in> cores d. rl_id r \<noteq> i)"
  by (auto simp: releaseRow_def cores_def find_None_iff)

text \<open>The releases of a ring are numbered from 1 without a gap, each made from the one before it.\<close>

definition rows_ok :: "release_core set \<Rightarrow> bool" where
  "rows_ok R \<longleftrightarrow> finite R \<and> (\<forall>r \<in> R. \<forall>q \<in> R. rl_id r = rl_id q \<longrightarrow> r = q)
     \<and> (\<forall>r \<in> R. \<forall>q \<in> R. rl_ring r = rl_ring q \<longrightarrow> rl_seq r = rl_seq q \<longrightarrow> r = q)
     \<and> (\<forall>r \<in> R. 1 \<le> rl_seq r)
     \<and> (\<forall>r \<in> R. rl_seq r = 1 \<and> rl_parent r = None \<or> (\<exists>q \<in> R. rl_ring q = rl_ring r \<and> rl_seq q = rl_seq r - 1 \<and> rl_parent r = Some (rl_id q)))"

text \<open>A checkpoint of the release's ring, strictly below it or at it.\<close>

definition below :: "release_core set \<Rightarrow> release_core \<Rightarrow> bool" where
  "below R r \<longleftrightarrow> (\<exists>c \<in> R. rl_ring c = rl_ring r \<and> rl_checkpoint c \<and> rl_seq c < rl_seq r)"

definition reached :: "release_core set \<Rightarrow> release_core \<Rightarrow> bool" where
  "reached R r \<longleftrightarrow> (\<exists>c \<in> R. rl_ring c = rl_ring r \<and> rl_checkpoint c \<and> rl_seq c \<le> rl_seq r)"

definition near :: "release_core set \<Rightarrow> release_core \<Rightarrow> bool" where
  "near R r \<longleftrightarrow> (\<exists>c \<in> R. rl_ring c = rl_ring r \<and> rl_checkpoint c \<and> rl_seq c \<le> rl_seq r \<and> rl_seq r < rl_seq c + int CHECKPOINT_EVERY)"

definition newest :: "release_core set \<Rightarrow> release_core \<Rightarrow> bool" where
  "newest R r \<longleftrightarrow> r \<in> R \<and> (\<forall>q \<in> R. rl_ring q = rl_ring r \<longrightarrow> rl_seq q \<le> rl_seq r)"

definition checkpoints_ok :: "release_core set \<Rightarrow> bool" where
  "checkpoints_ok R \<longleftrightarrow> (\<forall>r \<in> R. reached R r \<longrightarrow> near R r) \<and> (\<forall>r. newest R r \<longrightarrow> reached R r)"

definition heads_ok :: "release_core set \<Rightarrow> (pool_ring \<times> int) list \<Rightarrow> bool" where
  "heads_ok R hs \<longleftrightarrow> distinct (map fst hs) \<and> (\<forall>r \<in> R. newest R r \<longleftrightarrow> (rl_ring r, rl_id r) \<in> set hs)
     \<and> (\<forall>h \<in> set hs. \<exists>r \<in> R. rl_id r = snd h \<and> rl_ring r = fst h)"

subsection \<open>What is kept\<close>

definition members_ok :: "pool \<Rightarrow> (int \<Rightarrow> int set) \<Rightarrow> bool" where
  "members_ok d s \<longleftrightarrow> (\<forall>r \<in> cores d. rl_checkpoint r \<longrightarrow> set (memberRows d (rl_id r)) = s (rl_id r))
     \<and> (\<forall>m \<in> set (po_members d). \<exists>r \<in> cores d. rl_checkpoint r \<and> rl_id r = fst m)"

definition live_ok :: "pool \<Rightarrow> (int \<Rightarrow> int set) \<Rightarrow> bool" where
  "live_ok d s \<longleftrightarrow> (\<forall>g. set (ringMembers d g) = (case map_of (po_heads d) g of Some i \<Rightarrow> s i | None \<Rightarrow> {}))"

definition deltas_ok :: "pool \<Rightarrow> (int \<Rightarrow> int set) \<Rightarrow> bool" where
  "deltas_ok d s \<longleftrightarrow> (\<forall>r \<in> cores d. \<forall>q. below (cores d) r \<longrightarrow> rl_parent r = Some q \<longrightarrow> deltaSets (deltasOf d (rl_id r)) = diffOf (s q) (s (rl_id r)))
     \<and> (\<forall>x \<in> set (po_deltas d). dl_release x \<le> po_last_release d) \<and> (\<forall>r \<in> cores d. rl_id r \<le> po_last_release d)"

definition present :: "pool \<Rightarrow> int set" where
  "present d = ob_id ` set (po_objects d)"

definition objects_ok :: "pool \<Rightarrow> bool" where
  "objects_ok d \<longleftrightarrow> distinct (map ob_id (po_objects d)) \<and> (\<forall>x \<in> set (po_objects d). ob_id x \<le> po_last_object d)
     \<and> snd ` set (po_live d) \<subseteq> present d \<and> snd ` set (po_members d) \<subseteq> present d"

definition pool_ok :: "pool \<Rightarrow> (int \<Rightarrow> int set) \<Rightarrow> bool" where
  "pool_ok d s \<longleftrightarrow> rows_ok (cores d) \<and> checkpoints_ok (cores d) \<and> heads_ok (cores d) (po_heads d)
     \<and> members_ok d s \<and> live_ok d s \<and> deltas_ok d s \<and> objects_ok d"

lemma pool_okD:
  assumes "pool_ok d s"
  shows "rows_ok (cores d)" "checkpoints_ok (cores d)" "heads_ok (cores d) (po_heads d)" "members_ok d s" "live_ok d s" "deltas_ok d s" "objects_ok d"
  using assms by (simp_all add: pool_ok_def)

subsection \<open>The walk back\<close>

text \<open>Whatever the tables hold, a walk that ends with a chain is no longer than the bound.\<close>

lemma walkBack_length:
  assumes "walkBack d i cur chain = Inr out" "length chain < CHECKPOINT_EVERY * 4"
  shows "length out \<le> CHECKPOINT_EVERY * 4"
  using assms
proof (induction d i cur chain rule: walkBack.induct)
  case (1 d i cur chain)
  show ?case using 1(2,3) 1(1) by (subst (asm) walkBack.simps) (auto split: if_splits option.splits)
qed

text \<open>A chain of releases, the oldest first, each made from the one before it.\<close>

fun linked :: "release_row list \<Rightarrow> bool" where
  "linked [] = True"
| "linked [r] = True"
| "linked (q # r # rs) = (rl_parent r = Some (rl_id q) \<and> rl_ring q = rl_ring r \<and> rl_seq q = rl_seq r - 1 \<and> linked (r # rs))"

lemma rows_okD:
  assumes "rows_ok R" "r \<in> R"
  shows "1 \<le> rl_seq r" "rl_parent r = Some p \<Longrightarrow> rl_seq r \<noteq> 1" "q \<in> R \<Longrightarrow> rl_id q = rl_id r \<Longrightarrow> q = r"
    "q \<in> R \<Longrightarrow> rl_ring q = rl_ring r \<Longrightarrow> rl_seq q = rl_seq r \<Longrightarrow> q = r"
proof -
  show "1 \<le> rl_seq r" "q \<in> R \<Longrightarrow> rl_id q = rl_id r \<Longrightarrow> q = r" "q \<in> R \<Longrightarrow> rl_ring q = rl_ring r \<Longrightarrow> rl_seq q = rl_seq r \<Longrightarrow> q = r"
    using assms unfolding rows_ok_def by blast+
  have "rl_seq r = 1 \<and> rl_parent r = None \<or> (\<exists>q \<in> R. 1 \<le> rl_seq q \<and> rl_seq q = rl_seq r - 1)" using assms unfolding rows_ok_def by blast
  then show "rl_parent r = Some p \<Longrightarrow> rl_seq r \<noteq> 1" by auto
qed

lemma parent_row:
  assumes "rows_ok (cores d)" "r \<in> cores d" "rl_seq r \<noteq> 1"
  obtains q where "releaseRow d (the (rl_parent r)) = Some q" "rl_parent r = Some (rl_id q)" "rl_ring q = rl_ring r" "rl_seq q = rl_seq r - 1"
    "release_core.truncate q \<in> cores d"
proof -
  obtain q' where q': "q' \<in> cores d" "rl_ring q' = rl_ring r" "rl_seq q' = rl_seq r - 1" "rl_parent r = Some (rl_id q')"
    using assms unfolding rows_ok_def by blast
  then obtain q where q: "releaseRow d (rl_id q') = Some q" by (cases "releaseRow d (rl_id q')") (auto simp: releaseRow_None)
  have "release_core.truncate q = q'" using releaseRow_core [OF q] q'(1) assms(1) unfolding rows_ok_def by (metis truncate_sel(1))
  then have "rl_id q = rl_id q'" "rl_ring q = rl_ring q'" "rl_seq q = rl_seq q'" by (metis truncate_sel)+
  then show thesis using that [of q] q q' releaseRow_core [OF q] by simp
qed

text \<open>From a release within reach of a checkpoint the walk meets it, in at most as many rows.\<close>

lemma walkBack_meets:
  assumes "rows_ok (cores d)" "release_core.truncate cur \<in> cores d" "linked (cur # chain)"
    and "c \<in> cores d" "rl_ring c = rl_ring cur" "rl_checkpoint c" "rl_seq c \<le> rl_seq cur"
    and "rl_seq cur - rl_seq c + int (length chain) < int CHECKPOINT_EVERY"
  shows "\<exists>base rest. walkBack d i cur chain = Inr (base # rest) \<and> linked (base # rest) \<and> rl_checkpoint base \<and> release_core.truncate base \<in> cores d
    \<and> length (base # rest) \<le> CHECKPOINT_EVERY \<and> last (base # rest) = last (cur # chain)
    \<and> (\<forall>r \<in> set rest. r \<in> set (cur # chain) \<or> release_core.truncate r \<in> cores d) \<and> rl_ring base = rl_ring cur"
  using assms
proof (induction d i cur chain rule: walkBack.induct)
  case (1 d i cur chain)
  show ?case
  proof (cases "rl_checkpoint cur")
    case True
    then have "walkBack d i cur chain = Inr (cur # chain)" by (subst walkBack.simps) simp
    then show ?thesis using True 1(3,4,8,9) by auto
  next
    case False
    have uniq: "rl_seq c \<noteq> rl_seq cur" using 1(2) 1(3,5-7) False unfolding rows_ok_def by (metis truncate_sel(2,3,5))
    have "1 \<le> rl_seq c" using 1(2,5) by (auto simp: rows_ok_def)
    then have "rl_seq (release_core.truncate cur) \<noteq> 1" using 1(8) uniq by simp
    from parent_row [OF 1(2,3) this] obtain q where q: "releaseRow d (the (rl_parent cur)) = Some q" "rl_parent cur = Some (rl_id q)"
      "rl_ring q = rl_ring cur" "rl_seq q = rl_seq cur - 1" "release_core.truncate q \<in> cores d" by auto
    have short: "\<not> CHECKPOINT_EVERY * 4 < length (q # cur # chain)" using 1(8,9) uniq by (simp add: CHECKPOINT_EVERY_def)
    have *: "\<exists>base rest. walkBack d i q (cur # chain) = Inr (base # rest) \<and> linked (base # rest) \<and> rl_checkpoint base \<and> release_core.truncate base \<in> cores d
      \<and> length (base # rest) \<le> CHECKPOINT_EVERY \<and> last (base # rest) = last (q # cur # chain)
      \<and> (\<forall>r \<in> set rest. r \<in> set (q # cur # chain) \<or> release_core.truncate r \<in> cores d) \<and> rl_ring base = rl_ring q"
    proof (rule 1(1) [OF False q(2)])
      show "releaseRow d (rl_id q) = Some q" using q(1,2) by simp
      show "linked (q # cur # chain)" using 1(4) q by simp
      show "rl_seq q - rl_seq c + int (length (cur # chain)) < int CHECKPOINT_EVERY" using 1(9) q(4) by simp
      show "rl_seq c \<le> rl_seq q" using 1(8) uniq q(4) by simp
      show "rl_ring c = rl_ring q" using 1(6) q(3) by simp
    qed (fact short 1(2) q(5) 1(5) 1(7))+
    then obtain base rest where b: "walkBack d i q (cur # chain) = Inr (base # rest)" "linked (base # rest)" "rl_checkpoint base"
      "release_core.truncate base \<in> cores d" "length (base # rest) \<le> CHECKPOINT_EVERY" "last (base # rest) = last (q # cur # chain)"
      "\<forall>r \<in> set rest. r \<in> set (q # cur # chain) \<or> release_core.truncate r \<in> cores d" "rl_ring base = rl_ring q" by blast
    have "walkBack d i cur chain = walkBack d i q (cur # chain)" by (subst walkBack.simps) (use False q(1,2) short in simp)
    moreover have "\<forall>r \<in> set rest. r \<in> set (cur # chain) \<or> release_core.truncate r \<in> cores d" using b(7) q(5) by auto
    moreover have "last (base # rest) = last (cur # chain)" using b(6) by simp
    moreover have "rl_ring base = rl_ring cur" using b(8) q(3) by simp
    ultimately show ?thesis using b(1-5) by (intro exI [of _ base] exI [of _ rest] conjI) simp_all
  qed
qed

lemma walkBack_from:
  assumes "walkBack d i cur chain = Inr out" "rows_ok (cores d)" "release_core.truncate cur \<in> cores d"
  shows "reached (cores d) (release_core.truncate cur)"
  using assms
proof (induction d i cur chain rule: walkBack.induct)
  case (1 d i cur chain)
  show ?case
  proof (cases "rl_checkpoint cur")
    case True
    then show ?thesis using 1(4) by (auto simp: reached_def intro!: bexI [of _ "release_core.truncate cur"])
  next
    case False
    obtain p where p: "rl_parent cur = Some p" using 1(2) False by (subst (asm) walkBack.simps) (auto split: if_splits option.splits)
    then have "rl_seq (release_core.truncate cur) \<noteq> 1" using rows_okD(2) [OF 1(3,4), of p] by simp
    then obtain q where q': "releaseRow d (the (rl_parent (release_core.truncate cur))) = Some q" "rl_parent (release_core.truncate cur) = Some (rl_id q)"
      "rl_ring q = rl_ring (release_core.truncate cur)" "rl_seq q = rl_seq (release_core.truncate cur) - 1" "release_core.truncate q \<in> cores d"
      by (rule parent_row [OF 1(3,4)])
    then have q: "releaseRow d (the (rl_parent cur)) = Some q" "rl_ring q = rl_ring cur" "rl_seq q = rl_seq cur - 1" "release_core.truncate q \<in> cores d"
      by simp_all
    have w: "walkBack d i q (cur # chain) = Inr out" and short: "\<not> CHECKPOINT_EVERY * 4 < length (q # cur # chain)"
      using 1(2) False p q(1) by (subst (asm) walkBack.simps, simp split: if_splits)+
    have "reached (cores d) (release_core.truncate q)" by (rule 1(1) [OF False p _ short w 1(3) q(4)]) (use p q(1) in simp)
    then show ?thesis using q(2,3) unfolding reached_def by (force intro: order_trans)
  qed
qed

subsection \<open>A reconstruction is exact\<close>

lemma distinct_applyDeltas: "distinct ids \<Longrightarrow> distinct (applyDeltas xs ids)"
  unfolding applyDeltas_def by (induction xs arbitrary: ids) (auto simp: applyDelta_def addId_def split: delta_op.split)

lemma distinct_foldChain: "distinct ids \<Longrightarrow> distinct (foldChain d chain ids)"
  unfolding foldChain_def by (induction chain arbitrary: ids) (auto intro: distinct_applyDeltas)

lemma linked_seq: "linked (base # rest) \<Longrightarrow> r \<in> set rest \<Longrightarrow> rl_ring r = rl_ring base \<and> rl_seq base < rl_seq r"
  by (induction rest arbitrary: base) force+

lemma foldChain_set:
  assumes "\<And>r. r \<in> set chain \<Longrightarrow> fst (deltaSets (deltasOf d (rl_id r))) \<inter> snd (deltaSets (deltasOf d (rl_id r))) = {}"
  shows "set (foldChain d chain ids) = fold patchWith (map (\<lambda>r. deltaSets (deltasOf d (rl_id r))) chain) (set ids)"
  using assms unfolding foldChain_def by (induction chain arbitrary: ids) (simp_all add: applyDeltas_set)

lemma linked_diffs:
  assumes "linked (base # rest)" "\<And>r q. r \<in> set rest \<Longrightarrow> rl_parent r = Some q \<Longrightarrow> f r = diffOf (s q) (s (rl_id r))"
  shows "map f rest = map2 diffOf (map (s \<circ> rl_id) (base # rest)) (map (s \<circ> rl_id) rest)"
  using assms by (induction rest arbitrary: base) auto

lemma rebuilt_chain:
  assumes "deltas_ok d s" "linked (base # rest)" "rl_checkpoint base" "release_core.truncate base \<in> cores d"
    and "\<forall>r \<in> set rest. release_core.truncate r \<in> cores d" "set ids = s (rl_id base)"
  shows "set (foldChain d rest ids) = s (rl_id (last (base # rest)))"
proof -
  have diff: "deltaSets (deltasOf d (rl_id r)) = diffOf (s q) (s (rl_id r))" if "r \<in> set rest" "rl_parent r = Some q" for r q
  proof -
    have "below (cores d) (release_core.truncate r)" using linked_seq [OF assms(2) that(1)] assms(3,4) by (auto simp: below_def intro!: bexI [of _ "release_core.truncate base"])
    then show ?thesis using assms(1,5) that unfolding deltas_ok_def by (metis truncate_sel(1,4))
  qed
  have par: "\<exists>q. rl_parent r = Some q" if "r \<in> set rest" for r using assms(2) that by (induction rest arbitrary: base) auto
  have "set (foldChain d rest ids) = fold patchWith (map (\<lambda>r. deltaSets (deltasOf d (rl_id r))) rest) (set ids)"
    by (rule foldChain_set) (use par diff in \<open>force simp: diffOf_def\<close>)
  also have "map (\<lambda>r. deltaSets (deltasOf d (rl_id r))) rest = map2 diffOf (map (s \<circ> rl_id) (base # rest)) (map (s \<circ> rl_id) rest)"
    by (rule linked_diffs [OF assms(2)]) (rule diff)
  also have "fold patchWith \<dots> (set ids) = last (map (s \<circ> rl_id) (base # rest))"
    using sets.patch_along [of "s (rl_id base)" "map (s \<circ> rl_id) rest"] assms(6) by simp
  finally show ?thesis by (simp add: last_map)
qed

lemma find_someD: "find P xs = Some x \<Longrightarrow> x \<in> set xs \<and> P x"
  by (induction xs) (auto split: if_splits)

lemma find_some: "x \<in> set xs \<Longrightarrow> P x \<Longrightarrow> \<exists>y. find P xs = Some y"
  by (induction xs) auto

lemma head_row:
  assumes "heads_ok R hs" "rows_ok R" "r \<in> R" "h \<in> set hs" "snd h = rl_id r"
  shows "fst h = rl_ring r"
proof -
  obtain q where "q \<in> R" "rl_id q = snd h" "rl_ring q = fst h" using assms(1,4) by (auto simp: heads_ok_def)
  moreover have "q = r" using assms(2,3,5) calculation by (simp add: rows_ok_def)
  ultimately show ?thesis by simp
qed

lemma headRing_newest:
  assumes "heads_ok (cores d) (po_heads d)" "rows_ok (cores d)" "r \<in> cores d"
  shows "headRing d (rl_id r) = (if newest (cores d) r then Some (rl_ring r) else None)"
proof (cases "newest (cores d) r")
  case True
  then have "(rl_ring r, rl_id r) \<in> set (po_heads d)" using assms(1,3) by (auto simp: heads_ok_def)
  then obtain h where h: "find (\<lambda>h. snd h = rl_id r) (po_heads d) = Some h" using find_some [of _ _ "\<lambda>h. snd h = rl_id r"] by fastforce
  have "fst h = rl_ring r" by (rule head_row [OF assms]) (use find_someD [OF h] in auto)
  then show ?thesis using True h by (simp add: headRing_def)
next
  case False
  have "snd h \<noteq> rl_id r" if "h \<in> set (po_heads d)" for h
  proof
    assume h: "snd h = rl_id r"
    then have "fst h = rl_ring r" using head_row [OF assms that] by simp
    then have "(rl_ring r, rl_id r) \<in> set (po_heads d)" using that h by (metis prod.collapse)
    then show False using False assms(1,3) by (auto simp: heads_ok_def)
  qed
  then have "find (\<lambda>h. snd h = rl_id r) (po_heads d) = None" by (meson find_someD not_None_eq)
  then show ?thesis using False by (simp add: headRing_def)
qed

lemma head_serves:
  assumes "pool_ok d s" "r \<in> cores d" "newest (cores d) r"
  shows "set (ringMembers d (rl_ring r)) = s (rl_id r)"
proof -
  have "(rl_ring r, rl_id r) \<in> set (po_heads d)" "distinct (map fst (po_heads d))" using pool_okD(3) [OF assms(1)] assms(2,3) by (auto simp: heads_ok_def)
  then have "map_of (po_heads d) (rl_ring r) = Some (rl_id r)" by simp
  then show ?thesis using pool_okD(5) [OF assms(1)] by (simp add: live_ok_def)
qed

lemma rebuildIds_exact:
  assumes "pool_ok d s" "release_core.truncate r \<in> cores d"
  shows "case rebuildIds d r of Inr ids \<Rightarrow> set ids = s (rl_id r) \<and> distinct ids \<and> reached (cores d) (release_core.truncate r)
    | Inl e \<Rightarrow> \<not> reached (cores d) (release_core.truncate r)"
proof -
  let ?t = "release_core.truncate r"
  note ok = pool_okD [OF assms(1)]
  have hr: "headRing d (rl_id r) = (if newest (cores d) ?t then Some (rl_ring r) else None)" using headRing_newest [OF ok(3,1) assms(2)] by simp
  show ?thesis
  proof (cases "newest (cores d) ?t")
    case True
    then have "reached (cores d) ?t" using ok(2) by (simp add: checkpoints_ok_def)
    then show ?thesis using True hr head_serves [OF assms True] by (simp add: rebuildIds_def)
  next
    case False
    show ?thesis
    proof (cases "reached (cores d) ?t")
      case True
      then obtain c where c: "c \<in> cores d" "rl_ring c = rl_ring r" "rl_checkpoint c" "rl_seq c \<le> rl_seq r" "rl_seq r < rl_seq c + int CHECKPOINT_EVERY"
        using ok(2) assms(2) by (auto simp: checkpoints_ok_def near_def)
      obtain base rest where b: "walkBack d (rl_id r) r [] = Inr (base # rest)" "linked (base # rest)" "rl_checkpoint base" "release_core.truncate base \<in> cores d"
        "last (base # rest) = r" "\<forall>x \<in> set rest. release_core.truncate x \<in> cores d"
        using walkBack_meets [OF ok(1) assms(2), of "[]" c "rl_id r"] c assms(2) by (simp del: last.simps) (metis last.simps)
      have "set (uniq (memberRows d (rl_id base))) = s (rl_id base)" using ok(4) b(3,4) unfolding members_ok_def by (metis set_uniq truncate_sel(1,5))
      from rebuilt_chain [OF ok(6) b(2-4) b(6) this] show ?thesis using b(1,5) hr False True
        by (simp add: rebuildIds_def distinct_foldChain distinct_uniq)
    next
      case Fals: False
      then have "\<exists>e. walkBack d (rl_id r) r [] = Inl e" using walkBack_from [OF _ ok(1) assms(2), of "rl_id r" "[]"] by (cases "walkBack d (rl_id r) r []") auto
      then show ?thesis using hr False Fals by (auto simp: rebuildIds_def)
    qed
  qed
qed

end
