(* ===== verification/Pool_Release_Steps.thy ===== *)
theory Pool_Release_Steps
  imports Pool_Release_Runs
begin

text \<open>
  Each operation on the release tables keeps what holds of them: a checkpoint written, a release made, a collection, a package indexed, a render
  stored.
\<close>

subsection \<open>Rows marked\<close>

definition marks :: "(release_core \<Rightarrow> release_core) \<Rightarrow> bool" where
  "marks f \<longleftrightarrow> (\<forall>r. rl_id (f r) = rl_id r \<and> rl_ring (f r) = rl_ring r \<and> rl_seq (f r) = rl_seq r \<and> rl_parent (f r) = rl_parent r)"

lemma marks_sel:
  assumes "marks f"
  shows "rl_id (f r) = rl_id r" "rl_ring (f r) = rl_ring r" "rl_seq (f r) = rl_seq r" "rl_parent (f r) = rl_parent r"
  using assms by (simp_all add: marks_def)

lemma rows_ok_marks:
  assumes "marks f" "rows_ok R"
  shows "rows_ok (f ` R)"
proof -
  have "rl_seq r = 1 \<and> rl_parent r = None \<or> (\<exists>q \<in> f ` R. rl_ring q = rl_ring r \<and> rl_seq q = rl_seq r - 1 \<and> rl_parent r = Some (rl_id q))" if "r \<in> R" for r
    using assms that unfolding rows_ok_def by (fastforce simp: marks_sel)
  then show ?thesis using assms(2) unfolding rows_ok_def by (auto simp: marks_sel [OF assms(1)])
qed

lemma newest_marks: "marks f \<Longrightarrow> rows_ok R \<Longrightarrow> r \<in> R \<Longrightarrow> newest (f ` R) (f r) \<longleftrightarrow> newest R r"
  by (auto simp: newest_def marks_sel)

lemma heads_ok_marks: "marks f \<Longrightarrow> rows_ok R \<Longrightarrow> heads_ok R hs \<Longrightarrow> heads_ok (f ` R) hs"
  unfolding heads_ok_def by (auto simp: newest_marks marks_sel)

text \<open>A frame: rows that keep their core, more objects, the same membership.\<close>

lemma pool_ok_cong:
  assumes "pool_ok d s" "cores d' = cores d" "po_members d' = po_members d" "po_deltas d' = po_deltas d" "po_live d' = po_live d" "po_heads d' = po_heads d"
    "po_last_release d' = po_last_release d" "objects_ok d'"
  shows "pool_ok d' s"
  using assms unfolding pool_ok_def members_ok_def live_ok_def deltas_ok_def by (simp add: memberRows_def ringMembers_def deltasOf_def)

lemma core_update:
  assumes "\<And>r. release_core.truncate (if P r then f r else r) = g (release_core.truncate r)"
  shows "release_core.truncate ` set (sql_update P f xs) = g ` release_core.truncate ` set xs"
  by (simp only: sql_update_def set_map image_image assms)

lemma cores_setRelease:
  assumes "\<And>r. release_core.truncate (f r) = release_core.truncate r"
  shows "cores (setRelease i f d) = cores d"
  using core_update [of "\<lambda>r. rl_id r = i" f "\<lambda>r. r" "po_releases d"] assms by (simp add: cores_def setRelease_def)

definition mark :: "int \<Rightarrow> release_core \<Rightarrow> release_core" where
  "mark i r = (if rl_id r = i then r\<lparr>rl_checkpoint := True\<rparr> else r)"

lemma mark_marks: "marks (mark i)"
  by (simp add: marks_def mark_def)

lemma mark_checkpoint: "rl_checkpoint (mark i r) \<longleftrightarrow> rl_checkpoint r \<or> rl_id r = i"
  by (simp add: mark_def)

lemma cores_writeCheckpoint: "cores (writeCheckpoint i ids d) = mark i ` cores d"
proof -
  have "release_core.truncate (if rl_id r = i then r\<lparr>rl_checkpoint := True\<rparr> else r) = mark i (release_core.truncate r)" for r :: release_row
    by (simp add: mark_def release_core.truncate_def)
  from core_update [of "\<lambda>r. rl_id r = i", OF this] show ?thesis by (simp add: cores_def writeCheckpoint_def setRelease_def)
qed

lemma writeCheckpoint_frame:
  "po_deltas (writeCheckpoint i ids d) = po_deltas d" "po_live (writeCheckpoint i ids d) = po_live d" "po_heads (writeCheckpoint i ids d) = po_heads d"
  "po_last_release (writeCheckpoint i ids d) = po_last_release d" "po_objects (writeCheckpoint i ids d) = po_objects d"
  "po_last_object (writeCheckpoint i ids d) = po_last_object d" "po_members (writeCheckpoint i ids d) = insertMembers i ids (po_members d)"
  "po_bucket (writeCheckpoint i ids d) = po_bucket d" "po_artifacts (writeCheckpoint i ids d) = po_artifacts d"
  by (simp_all add: writeCheckpoint_def setRelease_def)

lemma set_insertMembers: "set (insertMembers i ids ms) = set ms \<union> Pair i ` set ids"
  by (auto simp: insertMembers_def)

lemma set_memberRows: "set (memberRows d i) = {p. (i, p) \<in> set (po_members d)}"
  by (force simp: memberRows_def)

lemma reached_mark:
  assumes "reached (mark i ` R) r" "rows_ok R" "c \<in> R" "rl_id c = i" "reached R c"
  shows "reached R r"
proof -
  obtain k where k: "k \<in> R" "rl_ring k = rl_ring r" "rl_checkpoint k \<or> rl_id k = i" "rl_seq k \<le> rl_seq r"
    using assms(1) by (auto simp: reached_def mark_checkpoint marks_sel [OF mark_marks])
  show ?thesis
  proof (cases "rl_checkpoint k")
    case False
    then have "k = c" using k rows_okD(3) [OF assms(2,3) k(1)] assms(4) by simp
    then show ?thesis using assms(5) k unfolding reached_def by (auto intro: order_trans)
  qed (use k in \<open>auto simp: reached_def\<close>)
qed

lemma below_mark:
  assumes "below (mark i ` R) r" "rows_ok R" "c \<in> R" "rl_id c = i" "reached R c"
  shows "below R r"
proof -
  obtain k where k: "k \<in> R" "rl_ring k = rl_ring r" "rl_checkpoint k \<or> rl_id k = i" "rl_seq k < rl_seq r"
    using assms(1) by (auto simp: below_def mark_checkpoint marks_sel [OF mark_marks])
  show ?thesis
  proof (cases "rl_checkpoint k")
    case False
    then have "k = c" using k rows_okD(3) [OF assms(2,3) k(1)] assms(4) by simp
    then show ?thesis using assms(5) k unfolding reached_def below_def by (auto intro: le_less_trans)
  qed (use k in \<open>auto simp: below_def\<close>)
qed

lemma reached_mono: "reached R r \<Longrightarrow> reached (mark i ` R) r"
  unfolding reached_def by (auto simp: mark_checkpoint marks_sel [OF mark_marks])

lemma near_mono: "near R r \<Longrightarrow> near (mark i ` R) r"
  unfolding near_def by (auto simp: mark_checkpoint marks_sel [OF mark_marks])

lemma same_place: "rl_ring q = rl_ring r \<Longrightarrow> rl_seq q = rl_seq r \<Longrightarrow> reached R q = reached R r \<and> near R q = near R r \<and> below R q = below R r"
  by (simp add: reached_def near_def below_def)

lemma checkpoints_ok_mark:
  assumes "rows_ok R" "checkpoints_ok R" "c \<in> R" "rl_id c = i" "reached R c"
  shows "checkpoints_ok (mark i ` R)"
  unfolding checkpoints_ok_def
proof (intro conjI ballI allI impI)
  fix r assume "r \<in> mark i ` R" "reached (mark i ` R) r"
  then obtain q where q: "q \<in> R" "r = mark i q" by auto
  have "reached R q" using reached_mark [OF \<open>reached (mark i ` R) r\<close> assms(1,3-5)] same_place [of r q R] q(2) by (simp add: marks_sel [OF mark_marks])
  then have "near R q" using assms(2) q(1) by (simp add: checkpoints_ok_def)
  then show "near (mark i ` R) r" using near_mono same_place [of r q "mark i ` R"] q(2) by (simp add: marks_sel [OF mark_marks])
next
  fix r assume n: "newest (mark i ` R) r"
  then obtain q where q: "q \<in> R" "r = mark i q" by (auto simp: newest_def)
  then have "reached R q" using n newest_marks [OF mark_marks assms(1) q(1)] assms(2) by (simp add: checkpoints_ok_def)
  then show "reached (mark i ` R) r" using reached_mono same_place [of r q "mark i ` R"] q(2) by (simp add: marks_sel [OF mark_marks])
qed

text \<open>A checkpoint written of a release with one behind it.\<close>

lemma writeCheckpoint_ok:
  assumes "pool_ok d s" "c \<in> cores d" "rl_id c = i" "reached (cores d) c" "\<not> rl_checkpoint c" "set ids = s i" "set ids \<subseteq> present d"
  shows "pool_ok (writeCheckpoint i ids d) s"
proof -
  note ok = pool_okD [OF assms(1)]
  let ?d = "writeCheckpoint i ids d"
  have rows: "rows_ok (cores ?d)" "heads_ok (cores ?d) (po_heads ?d)" "checkpoints_ok (cores ?d)"
    using rows_ok_marks [OF mark_marks ok(1)] heads_ok_marks [OF mark_marks ok(1,3)] checkpoints_ok_mark [OF ok(1,2) assms(2-4)]
    by (simp_all add: cores_writeCheckpoint writeCheckpoint_frame)
  have none: "m \<in> set (po_members d) \<Longrightarrow> fst m \<noteq> i" for m
    using ok(4) rows_okD(3) [OF ok(1) assms(2)] assms(3,5) unfolding members_ok_def by metis
  have mem: "set (memberRows ?d j) = (if j = i then set ids else set (memberRows d j))" for j
    using none by (force simp: set_memberRows writeCheckpoint_frame set_insertMembers)
  have "members_ok ?d s" unfolding members_ok_def
  proof (intro conjI ballI impI)
    fix r assume "r \<in> cores ?d" "rl_checkpoint r"
    then show "set (memberRows ?d (rl_id r)) = s (rl_id r)"
      using ok(4) assms(6) unfolding cores_writeCheckpoint mem members_ok_def by (auto simp: mark_checkpoint marks_sel [OF mark_marks])
  next
    fix m assume "m \<in> set (po_members ?d)"
    then have "(\<exists>r \<in> cores d. rl_checkpoint r \<and> rl_id r = fst m) \<or> fst m = i" using ok(4) by (auto simp: writeCheckpoint_frame set_insertMembers members_ok_def)
    then show "\<exists>r \<in> cores ?d. rl_checkpoint r \<and> rl_id r = fst m"
      unfolding cores_writeCheckpoint using assms(2,3) by (auto simp: mark_checkpoint marks_sel [OF mark_marks])
  qed
  moreover have "live_ok ?d s" using ok(5) by (simp add: live_ok_def ringMembers_def writeCheckpoint_frame)
  moreover have "deltas_ok ?d s"
  proof -
    have "below (cores d) q" if "q \<in> cores d" "below (cores ?d) (mark i q)" for q
      using below_mark [OF that(2) [unfolded cores_writeCheckpoint] ok(1) assms(2-4)] same_place [of "mark i q" q] by (simp add: marks_sel [OF mark_marks])
    then show ?thesis using ok(6) unfolding deltas_ok_def cores_writeCheckpoint
      by (auto simp: writeCheckpoint_frame deltasOf_def marks_sel [OF mark_marks] cores_writeCheckpoint)
  qed
  moreover have "objects_ok ?d" using ok(7) assms(7) by (auto simp: objects_ok_def writeCheckpoint_frame set_insertMembers present_def)
  ultimately show ?thesis using rows by (simp add: pool_ok_def)
qed

subsection \<open>A release read\<close>

lemma concat_chunks: "concat (chunks n xs) = xs"
proof (induction n xs rule: chunks.induct)
  case (1 n xs)
  then show ?case by (subst chunks.simps) (simp add: append_take_drop_id del: take_Suc)
qed

lemma missingOf_distinct:
  assumes "distinct (map ob_id (po_objects d))" "distinct c"
  shows "missingOf d c = int (card (set c - present d))"
proof -
  have "length (filter (\<lambda>x. ob_id x \<in> set c) (po_objects d)) = card (set c \<inter> present d)"
  proof -
    have "length (filter (\<lambda>x. ob_id x \<in> set c) (po_objects d)) = card (set (map ob_id (filter (\<lambda>x. ob_id x \<in> set c) (po_objects d))))"
      using assms(1) by (metis distinct_card distinct_map_filter length_map)
    also have "set (map ob_id (filter (\<lambda>x. ob_id x \<in> set c) (po_objects d))) = set c \<inter> present d" by (auto simp: present_def)
    finally show ?thesis .
  qed
  moreover have "card (set c) = card (set c - present d) + card (set c \<inter> present d)" by (metis List.finite_set add.commute card_Int_Diff)
  ultimately show ?thesis using assms(2) by (simp add: missingOf_def distinct_card [symmetric])
qed

lemma chunks_present:
  assumes "distinct (map ob_id (po_objects d))" "distinct ids"
  shows "find (\<lambda>c. missingOf d c > 0) (chunks n ids) = None \<longleftrightarrow> set ids \<subseteq> present d"
proof -
  have each: "missingOf d c = int (card (set c - present d))" if "c \<in> set (chunks n ids)" for c
  proof (rule missingOf_distinct [OF assms(1)])
    show "distinct c" using that assms(2) concat_chunks [of n ids] by (metis distinct_concat_iff)
  qed
  have "find (\<lambda>c. missingOf d c > 0) (chunks n ids) = None \<longleftrightarrow> (\<forall>c \<in> set (chunks n ids). set c \<subseteq> present d)"
    using each by (auto simp: find_None_iff card_gt_0_iff)
  also have "\<dots> \<longleftrightarrow> set (concat (chunks n ids)) \<subseteq> present d" by auto
  finally show ?thesis by (simp add: concat_chunks)
qed

text \<open>Reading a release: refused, nothing changes; else its rows are what it held, every package of them there.\<close>

lemma ensureCheckpoint_cases:
  assumes "pool_ok d s"
  obtains (refused) e where "ensureCheckpoint i d = (Some e, d)"
  | (there) r where "ensureCheckpoint i d = (None, d)" "releaseRow d i = Some r" "rl_checkpoint r"
  | (written) r ids where "ensureCheckpoint i d = (None, writeCheckpoint i ids d)" "releaseRow d i = Some r" "\<not> rl_checkpoint r"
      "reached (cores d) (release_core.truncate r)" "set ids = s i" "set ids \<subseteq> present d"
proof (cases "releaseRow d i")
  case None
  then show ?thesis using refused by (simp add: ensureCheckpoint_def)
next
  case (Some r)
  show ?thesis
  proof (cases "rl_checkpoint r")
    case True
    then show ?thesis using there Some by (simp add: ensureCheckpoint_def)
  next
    case False
    note ex = rebuildIds_exact [OF assms releaseRow_core(1) [OF Some]]
    show ?thesis
    proof (cases "rebuildIds d r")
      case (Inl e)
      then show ?thesis using refused Some False by (simp add: ensureCheckpoint_def)
    next
      case (Inr ids)
      have ids: "set ids = s i" "distinct ids" "reached (cores d) (release_core.truncate r)" using ex Inr releaseRow_core(2) [OF Some] by auto
      have "distinct (map ob_id (po_objects d))" using pool_okD(7) [OF assms] by (simp add: objects_ok_def)
      note pres = chunks_present [OF this ids(2), of "CHUNK - 1"]
      show ?thesis
      proof (cases "set ids \<subseteq> present d")
        case True
        then show ?thesis using written [of ids r] Some False Inr ids pres by (simp add: ensureCheckpoint_def)
      next
        case Fals: False
        then obtain c where "find (\<lambda>c. missingOf d c > 0) (chunks (CHUNK - 1) ids) = Some c" using pres by auto
        then show ?thesis using refused Some False Inr by (simp add: ensureCheckpoint_def)
      qed
    qed
  qed
qed

lemma ensure_ok:
  assumes "pool_ok d s"
  shows "pool_ok (snd (ensureCheckpoint i d)) s"
    and "fst (ensureCheckpoint i d) = None \<Longrightarrow> set (memberRows (snd (ensureCheckpoint i d)) i) = s i \<and> s i \<subseteq> present d
      \<and> (\<exists>r \<in> cores d. rl_id r = i \<and> reached (cores d) r)"
    and "fst (ensureCheckpoint i d) = Some e \<Longrightarrow> snd (ensureCheckpoint i d) = d"
proof -
  note ok = pool_okD [OF assms]
  have "pool_ok (snd (ensureCheckpoint i d)) s \<and> (fst (ensureCheckpoint i d) = None \<longrightarrow> set (memberRows (snd (ensureCheckpoint i d)) i) = s i \<and> s i \<subseteq> present d
      \<and> (\<exists>r \<in> cores d. rl_id r = i \<and> reached (cores d) r)) \<and> (fst (ensureCheckpoint i d) = Some e \<longrightarrow> snd (ensureCheckpoint i d) = d)"
  proof (cases rule: ensureCheckpoint_cases [OF assms, of i])
    case there: (2 r)
    have r: "release_core.truncate r \<in> cores d" "rl_id (release_core.truncate r) = i" "rl_checkpoint (release_core.truncate r)" using releaseRow_core [OF there(2)] there(3) by simp_all
    then have m: "set (memberRows d i) = s i" using ok(4) by (metis members_ok_def)
    moreover have "set (memberRows d i) \<subseteq> present d" using ok(7) by (force simp: objects_ok_def set_memberRows)
    moreover have "reached (cores d) (release_core.truncate r)" using r by (auto simp: reached_def intro: bexI [of _ "release_core.truncate r"])
    ultimately show ?thesis using there(1) assms r(1,2) by (auto intro!: bexI [of _ "release_core.truncate r"])
  next
    case written: (3 r ids)
    have r: "release_core.truncate r \<in> cores d" "rl_id (release_core.truncate r) = i" "\<not> rl_checkpoint (release_core.truncate r)" using releaseRow_core [OF written(2)] written(3) by simp_all
    have w: "pool_ok (writeCheckpoint i ids d) s" by (rule writeCheckpoint_ok [OF assms r(1,2) written(4) r(3) written(5,6)])
    moreover have "set (memberRows (writeCheckpoint i ids d) i) = s i"
      using pool_okD(4) [OF w] r unfolding members_ok_def cores_writeCheckpoint by (force simp: mark_checkpoint marks_sel [OF mark_marks])
    ultimately show ?thesis using written(1,4,5,6) r(1,2) by (auto intro!: bexI [of _ "release_core.truncate r"])
  qed (use assms in simp)
  then show "pool_ok (snd (ensureCheckpoint i d)) s"
    and "fst (ensureCheckpoint i d) = None \<Longrightarrow> set (memberRows (snd (ensureCheckpoint i d)) i) = s i \<and> s i \<subseteq> present d
      \<and> (\<exists>r \<in> cores d. rl_id r = i \<and> reached (cores d) r)"
    and "fst (ensureCheckpoint i d) = Some e \<Longrightarrow> snd (ensureCheckpoint i d) = d" by blast+
qed

text \<open>What reading leaves as it was.\<close>

definition unread :: "pool \<Rightarrow> pool \<Rightarrow> bool" where
  "unread d d' \<longleftrightarrow> po_live d' = po_live d \<and> po_heads d' = po_heads d \<and> po_deltas d' = po_deltas d \<and> po_last_release d' = po_last_release d
     \<and> po_objects d' = po_objects d \<and> po_last_object d' = po_last_object d \<and> po_bucket d' = po_bucket d \<and> po_artifacts d' = po_artifacts d
     \<and> map (\<lambda>r. (rl_id r, rl_ring r, rl_seq r, rl_parent r)) (po_releases d') = map (\<lambda>r. (rl_id r, rl_ring r, rl_seq r, rl_parent r)) (po_releases d)"

lemma unread_refl [simp]: "unread d d"
  by (simp add: unread_def)

lemma unread_trans: "unread d d' \<Longrightarrow> unread d' d'' \<Longrightarrow> unread d d''"
  by (simp add: unread_def)

lemma unread_setRelease:
  assumes "\<And>r. rl_id (f r) = rl_id r \<and> rl_ring (f r) = rl_ring r \<and> rl_seq (f r) = rl_seq r \<and> rl_parent (f r) = rl_parent r"
  shows "unread d (setRelease i f d)"
  using assms by (simp add: unread_def setRelease_def sql_update_def)

lemma unread_ensure: "unread d (snd (ensureCheckpoint i d))"
proof -
  have "unread d (writeCheckpoint i ids d)" for ids
    unfolding writeCheckpoint_def by (rule unread_trans [OF _ unread_setRelease]) (simp_all add: unread_def)
  then show ?thesis by (simp add: ensureCheckpoint_def split: option.split sum.split)
qed

lemma unread_members: "unread d (snd (releaseMembers i d))"
  using unread_ensure [of d i] by (auto simp: releaseMembers_def split: option.split prod.split)

lemma members_ok_read:
  assumes "pool_ok d s"
  shows "pool_ok (snd (releaseMembers i d)) s"
  using ensure_ok(1) [OF assms, of i] assms by (auto simp: releaseMembers_def split: option.split prod.split)

lemma pool_ok_setRelease:
  assumes "pool_ok d s" "\<And>r. release_core.truncate (f r) = release_core.truncate r"
  shows "pool_ok (setRelease i f d) s"
  by (rule pool_ok_cong [OF assms(1) cores_setRelease]) (use assms in \<open>auto simp: setRelease_def pool_ok_def objects_ok_def present_def\<close>)

lemma summary_read:
  assumes "pool_ok d s"
  shows "pool_ok (snd (releaseSummary i d)) s" "unread d (snd (releaseSummary i d))"
proof -
  have "pool_ok (setRelease i (\<lambda>r. r\<lparr>rl_count := n, rl_bytes := b\<rparr>) (snd (releaseMembers i d))) s" for n b
    by (rule pool_ok_setRelease [OF members_ok_read [OF assms]]) (simp add: release_core.truncate_def)
  moreover have "unread d (setRelease i (\<lambda>r. r\<lparr>rl_count := n, rl_bytes := b\<rparr>) (snd (releaseMembers i d)))" for n b
    by (rule unread_trans [OF unread_members unread_setRelease]) simp
  ultimately show "pool_ok (snd (releaseSummary i d)) s" "unread d (snd (releaseSummary i d))"
    using assms members_ok_read [OF assms, of i] unread_members [of d i]
    by (auto simp: releaseSummary_def Let_def split: option.split prod.split sum.split)
qed

lemma sources_read:
  assumes "pool_ok d s"
  shows "pool_ok (snd (releaseSources i d)) s" "unread d (snd (releaseSources i d))"
proof -
  have "pool_ok (setRelease i (\<lambda>r. r\<lparr>rl_sources := x\<rparr>) (snd (releaseMembers i d))) s" for x
    by (rule pool_ok_setRelease [OF members_ok_read [OF assms]]) (simp add: release_core.truncate_def)
  moreover have "unread d (setRelease i (\<lambda>r. r\<lparr>rl_sources := x\<rparr>) (snd (releaseMembers i d)))" for x
    by (rule unread_trans [OF unread_members unread_setRelease]) simp
  ultimately show "pool_ok (snd (releaseSources i d)) s" "unread d (snd (releaseSources i d))"
    using assms members_ok_read [OF assms, of i] unread_members [of d i]
    by (auto simp: releaseSources_def Let_def split: option.split prod.split sum.split)
qed

end
