(* ===== verification/Pool_Release_Create.thy ===== *)
theory Pool_Release_Create
  imports Pool_Release_Steps
begin

text \<open>
  A release made: its plan read from the tables, its batch written, and what the tables hold then: the ring serves exactly the selection the plan
  describes, every other ring and every earlier release what they did.
\<close>

subsection \<open>The newest release of a ring\<close>

lemma lastSeq_ge:
  assumes "r \<in> set (po_releases d)" "rl_ring r = g" "P r"
  shows "rl_seq r \<le> lastSeq P d g"
proof -
  have "x \<in> set xs \<Longrightarrow> x \<le> foldr max xs (0 :: int)" for x xs by (induction xs) auto
  then show ?thesis using assms by (force simp: lastSeq_def)
qed

lemma lastSeq_in:
  assumes "lastSeq P d g \<noteq> 0"
  shows "\<exists>r \<in> set (po_releases d). rl_ring r = g \<and> P r \<and> rl_seq r = lastSeq P d g"
proof -
  have "foldr max xs (0 :: int) = 0 \<or> foldr max xs 0 \<in> set xs" for xs by (induction xs) (auto simp: max_def)
  from this [of "map rl_seq (filter (\<lambda>r. rl_ring r = g \<and> P r) (po_releases d))"] show ?thesis using assms by (auto simp: lastSeq_def)
qed

lemma lastSeq_nonneg: "0 \<le> lastSeq P d g"
proof -
  have "0 \<le> foldr max xs (0 :: int)" for xs by (induction xs) auto
  then show ?thesis by (simp add: lastSeq_def)
qed

lemma newest_exists:
  assumes "rows_ok R" "r \<in> R"
  shows "\<exists>n. newest R n \<and> rl_ring n = rl_ring r"
proof -
  let ?S = "{q \<in> R. rl_ring q = rl_ring r}"
  have "finite ?S" "r \<in> ?S" using assms by (auto simp: rows_ok_def)
  then have "Max (rl_seq ` ?S) \<in> rl_seq ` ?S" "\<forall>q \<in> ?S. rl_seq q \<le> Max (rl_seq ` ?S)"
    by (metis (no_types, lifting) Max_in empty_iff finite_imageI image_is_empty, meson Max_ge finite_imageI image_eqI)
  then obtain n where "n \<in> ?S" "\<forall>q \<in> ?S. rl_seq q \<le> rl_seq n" by force
  then show ?thesis by (auto simp: newest_def)
qed

lemma ringHead_Some:
  assumes "pool_ok d s" "ringHead d g = Some r"
  shows "newest (cores d) (release_core.truncate r)" "rl_ring r = g" "lastSeq (\<lambda>_. True) d g = rl_seq r" "map_of (po_heads d) g = Some (rl_id r)"
proof -
  note ok = pool_okD [OF assms(1)]
  obtain i where i: "map_of (po_heads d) g = Some i" "releaseRow d i = Some r" using assms(2) by (auto simp: ringHead_def bind_eq_Some_conv)
  have t: "release_core.truncate r \<in> cores d" "rl_id r = i" using releaseRow_core [OF i(2)] by auto
  have h: "(g, i) \<in> set (po_heads d)" using i(1) by (rule map_of_SomeD)
  have g: "rl_ring r = g" using head_row [OF ok(3,1) t(1) h] t(2) by simp
  then show n: "newest (cores d) (release_core.truncate r)" using ok(3) t h unfolding heads_ok_def by (metis truncate_sel(1,2))
  show "rl_ring r = g" "map_of (po_heads d) g = Some (rl_id r)" using g i(1) t(2) by simp_all
  have "1 \<le> rl_seq r" using rows_okD(1) [OF ok(1) t(1)] by simp
  moreover have "\<exists>r' \<in> set (po_releases d). release_core.truncate r' = release_core.truncate r" using t(1) by (auto simp: cores_def)
  then have "rl_seq r \<le> lastSeq (\<lambda>_. True) d g" using lastSeq_ge [of _ d g "\<lambda>_. True"] g by (metis truncate_sel(2,3))
  moreover have "lastSeq (\<lambda>_. True) d g = 0 \<or> lastSeq (\<lambda>_. True) d g \<le> rl_seq r"
    using lastSeq_in [of "\<lambda>_. True" d g] n g by (fastforce simp: newest_def cores_def)
  ultimately show "lastSeq (\<lambda>_. True) d g = rl_seq r" by linarith
qed

lemma ringHead_None:
  assumes "pool_ok d s" "ringHead d g = None"
  shows "\<forall>r \<in> cores d. rl_ring r \<noteq> g" "map_of (po_heads d) g = None" "lastSeq (\<lambda>_. True) d g = 0"
proof -
  note ok = pool_okD [OF assms(1)]
  have "map_of (po_heads d) g = Some i \<Longrightarrow> releaseRow d i \<noteq> None" for i
    using ok(3) unfolding heads_ok_def releaseRow_None by (metis fst_conv map_of_SomeD snd_conv)
  then show n: "map_of (po_heads d) g = None" using assms(2) by (cases "map_of (po_heads d) g") (auto simp: ringHead_def)
  show none: "\<forall>r \<in> cores d. rl_ring r \<noteq> g"
  proof (rule ballI, rule notI)
    fix r assume "r \<in> cores d" "rl_ring r = g"
    then obtain h where "newest (cores d) h" "rl_ring h = g" using newest_exists [OF ok(1)] by blast
    then have "(g, rl_id h) \<in> set (po_heads d)" using ok(3) by (auto simp: heads_ok_def newest_def)
    then show False using n by (simp add: map_of_eq_None_iff) force
  qed
  show "lastSeq (\<lambda>_. True) d g = 0" using lastSeq_in [of "\<lambda>_. True" d g] none by (force simp: cores_def)
qed

subsection \<open>The rows with one more\<close>

text \<open>A row added after the newest of its ring, made from it.\<close>

definition next_row :: "release_core set \<Rightarrow> int \<Rightarrow> release_core \<Rightarrow> bool" where
  "next_row R bound n \<longleftrightarrow> (\<forall>r \<in> R. rl_id r \<le> bound) \<and> bound < rl_id n
     \<and> ((rl_seq n = 1 \<and> rl_parent n = None \<and> rl_checkpoint n \<and> (\<forall>r \<in> R. rl_ring r \<noteq> rl_ring n))
        \<or> (\<exists>h. newest R h \<and> rl_ring h = rl_ring n \<and> rl_seq n = rl_seq h + 1 \<and> rl_parent n = Some (rl_id h)))
     \<and> (rl_checkpoint n \<or> (\<exists>c \<in> R. rl_ring c = rl_ring n \<and> rl_checkpoint c \<and> rl_seq n < rl_seq c + int CHECKPOINT_EVERY))"

lemma next_row_above:
  assumes "next_row R b n" "r \<in> R"
  shows "rl_id r \<noteq> rl_id n" "rl_ring r = rl_ring n \<Longrightarrow> rl_seq r < rl_seq n"
  using assms by (force simp: next_row_def newest_def)+

lemma rows_ok_insert:
  assumes "rows_ok R" "next_row R b n"
  shows "rows_ok (insert n R)"
proof -
  have "1 \<le> rl_seq n" using assms by (force simp: next_row_def newest_def rows_ok_def)
  moreover have "rl_seq n = 1 \<and> rl_parent n = None \<or> (\<exists>q \<in> R. rl_ring q = rl_ring n \<and> rl_seq q = rl_seq n - 1 \<and> rl_parent n = Some (rl_id q))"
    using assms(2) by (auto simp: next_row_def newest_def)
  moreover have "r \<in> R \<Longrightarrow> rl_ring r = rl_ring n \<Longrightarrow> rl_seq r \<noteq> rl_seq n" "r \<in> R \<Longrightarrow> rl_id r \<noteq> rl_id n" for r using next_row_above [OF assms(2)] by fastforce+
  ultimately show ?thesis using assms(1) unfolding rows_ok_def by simp metis
qed

lemma newest_insert:
  assumes "next_row R b n"
  shows "newest (insert n R) n" "r \<in> R \<Longrightarrow> newest (insert n R) r \<longleftrightarrow> newest R r \<and> rl_ring r \<noteq> rl_ring n"
  using next_row_above [OF assms] by (fastforce simp: newest_def)+

lemma heads_ok_insert:
  assumes "rows_ok R" "heads_ok R hs" "next_row R b n"
  shows "heads_ok (insert n R) (setHead (rl_ring n) (rl_id n) hs)"
proof -
  have "distinct (map fst (setHead (rl_ring n) (rl_id n) hs))" using assms(2) by (auto simp: heads_ok_def setHead_def distinct_map_filter)
  moreover have "newest (insert n R) r \<longleftrightarrow> (rl_ring r, rl_id r) \<in> set (setHead (rl_ring n) (rl_id n) hs)" if "r \<in> insert n R" for r
    using that assms(2) newest_insert [OF assms(3)] next_row_above(1) [OF assms(3)] by (auto simp: heads_ok_def setHead_def)
  ultimately show ?thesis using assms(2) unfolding heads_ok_def by (auto simp: setHead_def)
qed

lemma reached_insert:
  assumes "next_row R b n" "r \<in> R"
  shows "reached (insert n R) r = reached R r" "below (insert n R) r = below R r" "near R r \<Longrightarrow> near (insert n R) r"
proof -
  show "reached (insert n R) r = reached R r" "below (insert n R) r = below R r"
    using next_row_above(2) [OF assms] by (force simp: reached_def below_def)+
  show "near R r \<Longrightarrow> near (insert n R) r" by (auto simp: near_def)
qed

lemma checkpoints_ok_insert:
  assumes "rows_ok R" "checkpoints_ok R" "next_row R b n"
  shows "checkpoints_ok (insert n R)"
proof -
  have n: "near (insert n R) n" using assms(3) next_row_above(2) [OF assms(3)] by (force simp: next_row_def near_def CHECKPOINT_EVERY_def)
  then have "reached (insert n R) n" by (auto simp: near_def reached_def)
  moreover have "reached (insert n R) r" if "newest (insert n R) r" for r
  proof (cases "r = n")
    case False
    then have "r \<in> R" using that by (auto simp: newest_def)
    then show ?thesis using that newest_insert(2) [OF assms(3)] reached_insert(1) [OF assms(3)] assms(2) by (simp add: checkpoints_ok_def)
  qed (use calculation in simp)
  ultimately show ?thesis using n assms(2) reached_insert [OF assms(3)] unfolding checkpoints_ok_def by auto
qed

subsection \<open>The membership a batch writes\<close>

text \<open>A plan that fits the tables it is written to.\<close>

definition planned :: "pool \<Rightarrow> release_plan \<Rightarrow> bool" where
  "planned d p \<longleftrightarrow> pn_seq p = lastSeq (\<lambda>_. True) d (pn_ring p) + 1 \<and> pn_parent p = map_option rl_id (ringHead d (pn_ring p))
     \<and> (pn_checkpoint p \<longleftrightarrow> pn_parent p = None \<or> pn_seq p - lastSeq rl_checkpoint d (pn_ring p) \<ge> int CHECKPOINT_EVERY)
     \<and> set (pn_added p) \<subseteq> present d"

definition newCore :: "int \<Rightarrow> release_plan \<Rightarrow> release_core" where
  "newCore i p = \<lparr>rl_id = i, rl_ring = pn_ring p, rl_seq = pn_seq p, rl_parent = pn_parent p, rl_checkpoint = pn_checkpoint p\<rparr>"

lemma newCore_sel [simp]:
  "rl_id (newCore i p) = i" "rl_ring (newCore i p) = pn_ring p" "rl_seq (newCore i p) = pn_seq p" "rl_parent (newCore i p) = pn_parent p"
  "rl_checkpoint (newCore i p) = pn_checkpoint p"
  by (simp_all add: newCore_def)

lemma planned_next:
  assumes "pool_ok d s" "planned d p"
  shows "next_row (cores d) (po_last_release d) (newCore (po_last_release d + 1) p)"
proof -
  note ok = pool_okD [OF assms(1)]
  have bound: "\<forall>r \<in> cores d. rl_id r \<le> po_last_release d" using ok(6) by (simp add: deltas_ok_def)
  show ?thesis
  proof (cases "ringHead d (pn_ring p)")
    case None
    note h = ringHead_None [OF assms(1) None]
    have "pn_parent p = None" "pn_seq p = 1" "pn_checkpoint p" using assms(2) h(3) None by (simp_all add: planned_def)
    then show ?thesis using bound h(1) by (simp add: next_row_def)
  next
    case (Some r)
    note h = ringHead_Some [OF assms(1) Some]
    have "pn_parent p = Some (rl_id r)" "pn_seq p = rl_seq r + 1" using assms(2) h(3) Some by (simp_all add: planned_def)
    moreover have "\<exists>c \<in> cores d. rl_ring c = pn_ring p \<and> rl_checkpoint c \<and> pn_seq p < rl_seq c + int CHECKPOINT_EVERY" if "\<not> pn_checkpoint p"
    proof -
      have lt: "pn_seq p < lastSeq rl_checkpoint d (pn_ring p) + int CHECKPOINT_EVERY" using that assms(2) by (simp add: planned_def)
      have "reached (cores d) (release_core.truncate r)" using h(1) ok(2) by (simp add: checkpoints_ok_def)
      then obtain c where c: "c \<in> set (po_releases d)" "rl_ring c = pn_ring p" "rl_checkpoint c" using h(2) by (auto simp: reached_def cores_def)
      have "1 \<le> rl_seq c" using rows_okD(1) [OF ok(1), of "release_core.truncate c"] c(1) by (simp add: cores_def)
      then have "lastSeq rl_checkpoint d (pn_ring p) \<noteq> 0" using lastSeq_ge [of c d "pn_ring p" rl_checkpoint] c by linarith
      then obtain k where "k \<in> set (po_releases d)" "rl_ring k = pn_ring p" "rl_checkpoint k" "rl_seq k = lastSeq rl_checkpoint d (pn_ring p)" using lastSeq_in by blast
      then show ?thesis using lt by (auto simp: cores_def intro!: bexI [of _ k])
    qed
    ultimately show ?thesis using bound h(1,2) by (auto simp: next_row_def)
  qed
qed

lemma set_ringMembers: "set (ringMembers d g) = {x. (g, x) \<in> set (po_live d)}"
  by (force simp: ringMembers_def)

lemma set_moveLive: "set (moveLive g xs live) = {m \<in> set live. fst m \<noteq> g} \<union> Pair g ` patchWith (deltaSets xs) {x. (g, x) \<in> set live}"
  by (auto simp: moveLive_def Let_def patchWith_def deltaSets_def list_ex_iff image_iff)

lemma membership_frame:
  assumes "membershipBatch p d = (i, d')"
  shows "i = po_last_release d + 1" "po_objects d' = po_objects d" "po_last_object d' = po_last_object d" "po_last_release d' = i" "po_bucket d' = po_bucket d"
    "po_artifacts d' = po_artifacts d" "po_heads d' = setHead (pn_ring p) i (po_heads d)"
    "po_deltas d' = po_deltas d @ deltaRows i (ringMembers d (pn_ring p)) (targetOf d p)"
    "po_live d' = moveLive (pn_ring p) (deltaRows i (ringMembers d (pn_ring p)) (targetOf d p)) (po_live d)"
    "po_members d' = (if pn_checkpoint p then insertMembers i (ringMembers d' (pn_ring p)) (po_members d) else po_members d)"
  using assms by (auto simp: membershipBatch_def Let_def writeCheckpoint_frame ringMembers_def split: if_splits)

lemma membership_live:
  assumes "membershipBatch p d = (i, d')"
  shows "set (ringMembers d' g) = (if g = pn_ring p then set (targetOf d p) else set (ringMembers d g))"
  unfolding set_ringMembers membership_frame(9) [OF assms] set_moveLive deltaRows_sets
  using sets.patch_diff [of "set (ringMembers d (pn_ring p))" "set (targetOf d p)"] by (auto simp: set_ringMembers)

lemma cores_new:
  "cores (d\<lparr>po_releases := r # po_releases d, po_last_release := a, po_deltas := b, po_live := c, po_heads := e\<rparr>) = insert (release_core.truncate r) (cores d)"
  by (simp add: cores_def)

lemma membership_cores:
  assumes "membershipBatch p d = (i, d')" "pool_ok d s"
  shows "cores d' = insert (newCore i p) (cores d)"
proof -
  have i: "i = po_last_release d + 1" by (rule membership_frame(1) [OF assms(1)])
  have old: "mark i r = r" if "r \<in> cores d" for r using pool_okD(6) [OF assms(2)] that i by (force simp: deltas_ok_def mark_def)
  have n: "release_core.truncate (newRelease i p) = (newCore i p)\<lparr>rl_checkpoint := False\<rparr>" by (simp add: release_core.truncate_def newRelease_def newCore_def)
  have "cores d' = (if pn_checkpoint p then mark i ` insert ((newCore i p)\<lparr>rl_checkpoint := False\<rparr>) (cores d) else insert ((newCore i p)\<lparr>rl_checkpoint := False\<rparr>) (cores d))"
    using assms(1) i n by (auto simp: membershipBatch_def Let_def cores_writeCheckpoint cores_new simp del: image_insert split: if_splits)
  also have "\<dots> = insert (newCore i p) (cores d)"
  proof (cases "pn_checkpoint p")
    case True
    have "mark i ((newCore i p)\<lparr>rl_checkpoint := False\<rparr>) = newCore i p" using True by (simp add: mark_def newCore_def)
    then show ?thesis using True old by (simp add: image_insert)
  qed (simp add: newCore_def)
  finally show ?thesis .
qed

lemma target_present:
  assumes "set (pn_added p) \<subseteq> present d"
  shows "set (targetOf d p) \<subseteq> present d"
proof -
  have "objectIs d P x \<Longrightarrow> x \<in> present d" for P x
    by (auto simp: objectIs_def objectRow_def present_def split: option.splits dest!: find_someD)
  then show ?thesis using assms by (auto simp: targetOf_def)
qed

lemma map_of_filter_ne: "map_of (filter (\<lambda>h. fst h \<noteq> g) hs) k = (if k = g then None else map_of hs k)"
  by (induction hs) auto

lemma deltaRows_release: "x \<in> set (deltaRows i own tg) \<Longrightarrow> dl_release x = i"
  by (auto simp: deltaRows_def)

lemma membership_deltas:
  assumes "membershipBatch p d = (i, d')" "pool_ok d s" "planned d p"
  shows "deltas_ok d' (s(i := set (targetOf d p)))"
proof -
  note ok = pool_okD [OF assms(2)]
  note fr = membership_frame [OF assms(1)]
  let ?n = "newCore i p"
  have nx: "next_row (cores d) (po_last_release d) ?n" using planned_next [OF assms(2,3)] fr(1) by simp
  have co: "cores d' = insert ?n (cores d)" by (rule membership_cores [OF assms(1,2)])
  have dl: "deltasOf d' j = (if j = i then deltaRows i (ringMembers d (pn_ring p)) (targetOf d p) else deltasOf d j)" for j
  proof -
    have "filter (\<lambda>x. dl_release x = j) (deltaRows i own tg) = (if j = i then deltaRows i own tg else [])" for own tg
      by (auto simp: deltaRows_def filter_empty_conv)
    moreover have "filter (\<lambda>x. dl_release x = i) (po_deltas d) = []" using ok(6) fr(1) by (force simp: deltas_ok_def filter_empty_conv)
    ultimately show ?thesis by (simp add: deltasOf_def fr(8))
  qed
  have own: "set (ringMembers d (pn_ring p)) = s q" if "pn_parent p = Some q" for q
  proof -
    obtain r where r: "ringHead d (pn_ring p) = Some r" "q = rl_id r" using assms(3) \<open>pn_parent p = Some q\<close>
      by (cases "ringHead d (pn_ring p)") (simp_all add: planned_def)
    show ?thesis using ok(5) ringHead_Some(4) [OF assms(2) r(1)] r(2) by (simp add: live_ok_def)
  qed
  have parent: "q \<noteq> i" if "r \<in> cores d" "rl_parent r = Some q" for r q
  proof -
    note pq = that
    show ?thesis
    proof (rule parent_row [OF ok(1) pq(1) rows_okD(2) [OF ok(1) pq]])
      fix h assume "rl_parent r = Some (rl_id h)" "release_core.truncate h \<in> cores d"
      then show "q \<noteq> i" using next_row_above(1) [OF nx, of "release_core.truncate h"] pq(2) by simp
    qed
  qed
  have "pn_parent p = Some q \<Longrightarrow> q \<noteq> i" for q using nx by (force simp: next_row_def newest_def)
  then show ?thesis unfolding deltas_ok_def co
    using ok(6) parent own reached_insert(2) [OF nx] next_row_above(1) [OF nx]
    by (auto simp: dl deltaRows_sets fr(1,4,8) deltas_ok_def dest: deltaRows_release)
qed

lemma membership_ok:
  assumes "membershipBatch p d = (i, d')" "pool_ok d s" "planned d p"
  shows "pool_ok d' (s(i := set (targetOf d p)))"
proof -
  note ok = pool_okD [OF assms(2)]
  note fr = membership_frame [OF assms(1)]
  let ?n = "newCore i p"
  let ?s = "s(i := set (targetOf d p))"
  have nx: "next_row (cores d) (po_last_release d) ?n" using planned_next [OF assms(2,3)] fr(1) by simp
  have co: "cores d' = insert ?n (cores d)" by (rule membership_cores [OF assms(1,2)])
  have old: "rl_id r \<noteq> i" if "r \<in> cores d" for r using next_row_above(1) [OF nx that] by simp
  have rows: "rows_ok (cores d')" "checkpoints_ok (cores d')" "heads_ok (cores d') (po_heads d')"
    using rows_ok_insert [OF ok(1) nx] checkpoints_ok_insert [OF ok(1,2) nx] heads_ok_insert [OF ok(1,3) nx] by (simp_all add: co fr(7))
  have nomem: "m \<in> set (po_members d) \<Longrightarrow> fst m \<noteq> i" for m using ok(4) old by (force simp: members_ok_def)
  have mem: "set (memberRows d' j) = (if j = i then (if pn_checkpoint p then set (targetOf d p) else {}) else set (memberRows d j))" for j
    using nomem membership_live [OF assms(1), of "pn_ring p"] by (force simp: set_memberRows fr(10) set_insertMembers)
  have "members_ok d' ?s" unfolding members_ok_def co
    using ok(4) old nomem by (auto simp: mem members_ok_def fr(10) set_insertMembers split: if_splits)
  moreover have "live_ok d' ?s"
  proof -
    have "map_of (po_heads d') g = (if g = pn_ring p then Some i else map_of (po_heads d) g)" for g by (simp add: fr(7) setHead_def map_of_filter_ne)
    moreover have "map_of (po_heads d) g = Some j \<Longrightarrow> j \<noteq> i" for g j using ok(3) old by (force simp: heads_ok_def dest: map_of_SomeD)
    ultimately show ?thesis using ok(5) membership_live [OF assms(1)] by (auto simp: live_ok_def split: option.splits)
  qed
  moreover have "deltas_ok d' ?s"
    using membership_deltas [OF assms] by simp
  moreover have "objects_ok d'"
  proof -
    have pr: "present d' = present d" by (simp add: present_def fr(2))
    have "set (ringMembers d g) \<subseteq> present d" for g using ok(7) unfolding objects_ok_def set_ringMembers by (metis (no_types, lifting) image_subset_iff mem_Collect_eq snd_conv subsetI)
    moreover have "set (targetOf d p) \<subseteq> present d" using target_present assms(3) by (simp add: planned_def)
    ultimately have serve: "set (ringMembers d' g) \<subseteq> present d" for g using membership_live [OF assms(1), of g] by simp
    then have "snd ` set (po_live d') \<subseteq> present d" by (force simp: set_ringMembers)
    moreover have "snd ` set (po_members d') \<subseteq> present d" using ok(7) serve [of "pn_ring p"] by (auto simp: fr(10) set_insertMembers objects_ok_def)
    ultimately show ?thesis using ok(7) by (simp add: objects_ok_def fr(2,3) pr)
  qed
  ultimately show ?thesis using rows by (simp add: pool_ok_def)
qed

subsection \<open>The whole batch\<close>

lemma pool_ok_objects:
  assumes "pool_ok d s" "map ob_id xs = map ob_id (po_objects d)"
  shows "pool_ok (d\<lparr>po_objects := xs\<rparr>) s"
proof (rule pool_ok_cong [OF assms(1)])
  have "set (map ob_id xs) = set (map ob_id (po_objects d))" by (simp only: assms(2))
  then have im: "ob_id ` set xs = ob_id ` set (po_objects d)" by simp
  have "(\<forall>x \<in> set xs. ob_id x \<le> n) \<longleftrightarrow> (\<forall>i \<in> ob_id ` set xs. i \<le> n)" for n by simp
  then show "objects_ok (d\<lparr>po_objects := xs\<rparr>)" using pool_okD(7) [OF assms(1)] assms(2) im by (simp add: objects_ok_def present_def)
qed (simp_all add: cores_def)

lemma pool_ok_artifacts: "pool_ok d s \<Longrightarrow> pool_ok (d\<lparr>po_artifacts := as\<rparr>) s"
  by (rule pool_ok_cong) (auto simp: cores_def pool_ok_def objects_ok_def present_def)

text \<open>What a row says of its object, which no release changes.\<close>

definition objectTag :: "pool_object \<Rightarrow> int \<times> string \<times> string \<times> arch \<times> string \<times> string option" where
  "objectTag x = (ob_id x, ob_name x, ob_source x, ob_arch x, ob_filename x, ob_key x)"

lemma batch_ok:
  assumes "releaseBatch p d = (Inr i, d')" "pool_ok d s" "planned d p"
  shows "pool_ok d' (s(i := set (targetOf d p)))" "set (ringMembers d' g) = (if g = pn_ring p then set (targetOf d p) else set (ringMembers d g))"
    "i = po_last_release d + 1" "map ob_id (po_objects d') = map ob_id (po_objects d)" "po_bucket d' = po_bucket d"
    "map objectTag (po_objects d') = map objectTag (po_objects d)"
proof -
  define e where "e = membershipBatch p d"
  have e: "membershipBatch p d = (fst e, snd e)" by (simp add: e_def)
  define d2 where "d2 = (snd e)\<lparr>po_objects := sql_update (\<lambda>x. ob_id x \<in> set (pn_added p)) (\<lambda>x. x\<lparr>ob_released := True\<rparr>) (po_objects (snd e))\<rparr>"
  define d3 where "d3 = (case pn_parent p of Some q \<Rightarrow> d2\<lparr>po_artifacts := insertArtifacts (carriedArtifacts d2 (fst e) q (pn_unchanged p)) (po_artifacts d2)\<rparr> | None \<Rightarrow> d2)"
  have out: "i = fst e" "d' = snd (releaseSources i (snd (releaseSummary i d3)))"
    using assms(1) by (cases "pn_parent p"; auto simp: releaseBatch_def Let_def e_def d2_def d3_def case_prod_unfold split: if_splits)+
  have ok1: "pool_ok (snd e) (s(i := set (targetOf d p)))" using membership_ok [OF e assms(2,3)] out(1) by simp
  have ok2: "pool_ok d2 (s(i := set (targetOf d p)))" unfolding d2_def by (rule pool_ok_objects [OF ok1]) (simp add: sql_update_def comp_def if_distrib cong: if_cong)
  have ok3: "pool_ok d3 (s(i := set (targetOf d p)))" using ok2 pool_ok_artifacts [OF ok2] by (auto simp: d3_def split: option.split)
  note sm = summary_read [OF ok3, of i]
  note sr = sources_read [OF sm(1), of i]
  show "pool_ok d' (s(i := set (targetOf d p)))" using sr(1) out(2) by simp
  have un: "unread d3 d'" unfolding out(2) by (rule unread_trans [OF sm(2) sr(2)])
  have f3: "po_live d3 = po_live (snd e)" "po_objects d3 = po_objects d2" "po_bucket d3 = po_bucket (snd e)" by (auto simp: d3_def d2_def split: option.split)
  have "ringMembers d' g = ringMembers (snd e) g" using un f3(1) by (simp add: unread_def ringMembers_def)
  then show "set (ringMembers d' g) = (if g = pn_ring p then set (targetOf d p) else set (ringMembers d g))" using membership_live [OF e] by simp
  show "i = po_last_release d + 1" using membership_frame(1) [OF e] out(1) by simp
  have ob: "po_objects d' = po_objects d2" using un f3(2) by (simp add: unread_def)
  have ob2: "po_objects d2 = map (\<lambda>x. if ob_id x \<in> set (pn_added p) then x\<lparr>ob_released := True\<rparr> else x) (po_objects d)"
    using membership_frame(2) [OF e] by (simp add: d2_def sql_update_def)
  show "map ob_id (po_objects d') = map ob_id (po_objects d)" "map objectTag (po_objects d') = map objectTag (po_objects d)"
    unfolding ob ob2 by (auto simp: objectTag_def)
  show "po_bucket d' = po_bucket d" using un f3(3) membership_frame(5) [OF e] by (simp add: unread_def)
qed

subsection \<open>The plan\<close>

lemma find_ids:
  fixes xs ys :: "release_row list"
  assumes "map (\<lambda>r. (rl_id r, rl_ring r, rl_seq r, rl_parent r)) xs = map (\<lambda>r. (rl_id r, rl_ring r, rl_seq r, rl_parent r)) ys"
  shows "map_option rl_id (find (\<lambda>r. rl_id r = i) xs) = map_option rl_id (find (\<lambda>r. rl_id r = i) ys)"
  using assms
proof (induction xs arbitrary: ys)
  case (Cons x xs)
  then obtain y zs where y: "ys = y # zs" by (cases ys) simp_all
  then show ?case using Cons.prems Cons.IH [of zs] by simp
qed simp

lemma unread_releaseRow: "unread d d' \<Longrightarrow> map_option rl_id (releaseRow d' i) = map_option rl_id (releaseRow d i)"
  using find_ids [of "po_releases d'" "po_releases d"] by (simp add: unread_def releaseRow_def)

lemma unread_read:
  assumes "unread d d'"
  shows "map_option rl_id (ringHead d' g) = map_option rl_id (ringHead d g)" "lastSeq (\<lambda>_. True) d' g = lastSeq (\<lambda>_. True) d g" "present d' = present d"
    "ringMembers d' g = ringMembers d g" "objectIs d' P x = objectIs d P x"
proof -
  show "map_option rl_id (ringHead d' g) = map_option rl_id (ringHead d g)"
    using assms unread_releaseRow [OF assms] by (cases "map_of (po_heads d) g") (simp_all add: ringHead_def unread_def)
  have "map rl_seq (filter (\<lambda>r. rl_ring r = g) xs) = map (\<lambda>q. fst (snd (snd q))) (filter (\<lambda>q. fst (snd q) = g) (map (\<lambda>r. (rl_id r, rl_ring r, rl_seq r, rl_parent r)) xs))" for xs :: "release_row list"
    by (induction xs) auto
  then show "lastSeq (\<lambda>_. True) d' g = lastSeq (\<lambda>_. True) d g" using assms by (simp add: lastSeq_def unread_def)
qed (use assms in \<open>simp_all add: unread_def present_def ringMembers_def objectIs_def objectRow_def\<close>)

text \<open>What the base is, as a set: the release said, the ring's own rows, or one architecture of the first and the rest of the second.\<close>

definition wholeBase :: "(int \<Rightarrow> int set) \<Rightarrow> release_row option \<Rightarrow> release_row option \<Rightarrow> int set \<Rightarrow> int set" where
  "wholeBase s src parent live = (case src of None \<Rightarrow> live | Some r \<Rightarrow> if map_option rl_id parent = Some (rl_id r) then live else s (rl_id r))"

definition baseSet :: "(int \<Rightarrow> int set) \<Rightarrow> release_row option \<Rightarrow> release_row option \<Rightarrow> arch option \<Rightarrow> (arch \<Rightarrow> int \<Rightarrow> bool) \<Rightarrow> int set \<Rightarrow> int set" where
  "baseSet s src parent only isArch live = (case only of
     Some a \<Rightarrow> if parent = None \<or> map_option rl_id src = map_option rl_id parent then wholeBase s src parent live
       else {x \<in> wholeBase s src parent live. isArch a x} \<union> {x \<in> live. \<not> isArch a x}
   | None \<Rightarrow> wholeBase s src parent live)"

lemma objectIs_not: "x \<in> present d \<Longrightarrow> objectIs d (\<lambda>y. \<not> P y) x \<longleftrightarrow> \<not> objectIs d P x"
  using find_some [of _ "po_objects d" "\<lambda>y. ob_id y = x"] by (fastforce simp: objectIs_def objectRow_def present_def split: option.split)

lemma live_present: "pool_ok d s \<Longrightarrow> set (ringMembers d g) \<subseteq> present d"
  by (auto simp: pool_ok_def objects_ok_def set_ringMembers)

lemma source_rows:
  assumes "pool_ok d s" "releaseRow d i = Some r"
    and "(case headRing d i of Some h \<Rightarrow> (Inr (LiveOf h), d) | None \<Rightarrow> (case ensureCheckpoint i d of (Some e, d1) \<Rightarrow> (Inl e, d1) | (None, d1) \<Rightarrow> (Inr (RowsOf i), d1))) = (Inr base, d1)"
  shows "pool_ok d1 s" "unread d d1" "set (baseRows base d1) = s i" "s i \<subseteq> present d"
proof -
  note ok = pool_okD [OF assms(1)]
  have t: "release_core.truncate r \<in> cores d" "rl_id r = i" using releaseRow_core [OF assms(2)] by auto
  have hr: "headRing d i = (if newest (cores d) (release_core.truncate r) then Some (rl_ring r) else None)" using headRing_newest [OF ok(3,1) t(1)] t(2) by simp
  have "pool_ok d1 s \<and> unread d d1 \<and> set (baseRows base d1) = s i \<and> s i \<subseteq> present d"
  proof (cases "newest (cores d) (release_core.truncate r)")
    case True
    then show ?thesis using assms(1,3) hr head_serves [OF assms(1) t(1) True] t(2) live_present [OF assms(1), of "rl_ring r"] by auto
  next
    case False
    then have e: "fst (ensureCheckpoint i d) = None" "base = RowsOf i" "d1 = snd (ensureCheckpoint i d)" using assms(3) hr by (auto split: prod.splits option.splits)
    then show ?thesis using ensure_ok(1,2) [OF assms(1), of i] unread_ensure [of d i] by auto
  qed
  then show "pool_ok d1 s" "unread d d1" "set (baseRows base d1) = s i" "s i \<subseteq> present d" by auto
qed

lemma baseOf_ok:
  assumes "pool_ok d s" "baseOf src (ringHead d g) g only d = (Inr base, d1)" "\<And>r. src = Some r \<Longrightarrow> releaseRow d (rl_id r) = Some r"
  shows "pool_ok d1 s \<and> unread d d1 \<and> set (baseRows base d1) = baseSet s src (ringHead d g) only (\<lambda>a. objectIs d (\<lambda>x. ob_arch x = a)) (set (ringMembers d g))"
proof (cases "src \<noteq> None \<and> map_option rl_id src \<noteq> map_option rl_id (ringHead d g)")
  case True
  then obtain r where r: "src = Some r" "map_option rl_id (ringHead d g) \<noteq> Some (rl_id r)" by (cases src) (metis, metis option.simps(9))
  note rr = assms(3) [OF r(1)]
  define e where "e = (case headRing d (rl_id r) of Some h \<Rightarrow> (Inr (LiveOf h), d)
    | None \<Rightarrow> (case ensureCheckpoint (rl_id r) d of (Some e, d1) \<Rightarrow> (Inl e, d1) | (None, d1) \<Rightarrow> (Inr (RowsOf (rl_id r)), d1)))"
  have b: "baseOf src (ringHead d g) g only d = (case e of (b, d1) \<Rightarrow> (case (b, only) of (Inr base, Some a) \<Rightarrow> (Inr (if ringHead d g = None then base else OneArch base a g), d1) | _ \<Rightarrow> (b, d1)))"
    unfolding baseOf_def if_P [OF True] Let_def r(1) option.sel e_def by (rule if_P) (use True r(1) in simp)
  then obtain base0 where b0: "e = (Inr base0, d1)" using assms(2) by (cases e; cases "fst e"; cases only) auto
  note sr = source_rows [OF assms(1) rr b0 [unfolded e_def]]
  have base: "base = (case only of Some a \<Rightarrow> if ringHead d g = None then base0 else OneArch base0 a g | None \<Rightarrow> base0)" using b b0 assms(2) by (cases only) auto
  have whole: "wholeBase s src (ringHead d g) (set (ringMembers d g)) = s (rl_id r)" using r by (auto simp: wholeBase_def)
  have "set (baseRows (OneArch base0 a g) d1) = {x \<in> s (rl_id r). objectIs d (\<lambda>x. ob_arch x = a) x} \<union> {x \<in> set (ringMembers d g). \<not> objectIs d (\<lambda>x. ob_arch x = a) x}" for a
    using sr(3,4) live_present [OF assms(1), of g] unread_read(4,5) [OF sr(2)] objectIs_not [of _ d] by auto
  then show ?thesis using sr(1-3) base whole r(1,2) by (auto simp: baseSet_def split: option.split)
next
  case False
  then have "base = (if ringHead d g = None then NoRows else LiveOf g)" "d1 = d" using assms(2) by (auto simp: baseOf_def)
  moreover have "ringHead d g = None \<Longrightarrow> set (ringMembers d g) = {}" using ringHead_None(2) [OF assms(1)] pool_okD(5) [OF assms(1)] by (simp add: live_ok_def)
  ultimately show ?thesis using assms(1) False by (auto simp: baseSet_def wholeBase_def split: option.splits if_splits)
qed

lemma baseOf_refused: "baseOf src parent g only d = (Inl e, d1) \<Longrightarrow> pool_ok d s \<Longrightarrow> d1 = d"
  using ensure_ok(3) [of d s "rl_id (the src)"]
  by (force simp: baseOf_def Let_def split: if_splits option.splits prod.splits sum.splits)

text \<open>Where the selection starts is a row of the table.\<close>

lemma sourceRelease_row:
  assumes "sourceRelease b g d = Inr (Some r)"
  shows "releaseRow d (rl_id r) = Some r"
proof -
  have "\<exists>i. releaseRow d i = Some r" using assms by (auto simp: sourceRelease_def ringHead_def bind_eq_Some_conv split: option.splits if_splits)
  then show ?thesis using releaseRow_core(2) by blast
qed

lemma addedIds_present: "set (addedIds d ra es) \<subseteq> present d"
  by (auto simp: addedIds_def addRowsOf_def present_def)

lemma plan_refused:
  assumes "planRelease b d = (Inl e, d1)" "pool_ok d s"
  shows "d1 = d"
  using assms(1) baseOf_refused [OF _ assms(2)] unfolding planRelease_def Let_def
  by (cases "ringOfName (ck_ring b)"; cases "sourceRelease b (the (ringOfName (ck_ring b))) d") (auto split: if_splits prod.splits sum.splits)

lemma planned_unread:
  assumes "unread d d1" "pn_seq p = lastSeq (\<lambda>_. True) d (pn_ring p) + 1" "pn_parent p = map_option rl_id (ringHead d (pn_ring p))"
    "pn_checkpoint p \<longleftrightarrow> ringHead d (pn_ring p) = None \<or> pn_seq p - lastSeq rl_checkpoint d1 (pn_ring p) \<ge> int CHECKPOINT_EVERY" "set (pn_added p) \<subseteq> present d"
  shows "planned d1 p"
  using assms unread_read(1-3) [OF assms(1)] by (simp add: planned_def)

lemma plan_parts:
  assumes "planRelease b d = (Inr p, d1)"
  obtains g src base where "ringOfName (ck_ring b) = Some g" "sourceRelease b g d = Inr src" "baseOf src (ringHead d g) g (ck_arch b) d = (Inr base, d1)"
    "p = \<lparr>pn_ring = g, pn_seq = lastSeq (\<lambda>_. True) d g + 1, pn_parent = map_option rl_id (ringHead d g), pn_source = map_option rl_id src, pn_note = ck_note b,
       pn_base = base, pn_remove = ck_remove b, pn_remove_from = ck_remove_from b, pn_remove_arch = ck_remove_arch b,
       pn_added = addedIds d (ck_remove_arch b) (ck_add b),
       pn_checkpoint = (ringHead d g = None \<or> lastSeq (\<lambda>_. True) d g + 1 - lastSeq rl_checkpoint d1 g \<ge> int CHECKPOINT_EVERY),
       pn_unchanged = unchangedArches b src (ringHead d g) (addedIds d (ck_remove_arch b) (ck_add b))\<rparr>"
    "\<forall>x \<in> set (ck_add b). addRowsOf d (ck_remove_arch b) x \<noteq> []" "\<forall>a. ck_arch b = Some a \<longrightarrow> isRepoArch a" "\<forall>a. ck_remove_arch b = Some a \<longrightarrow> isRepoArch a"
proof (cases "ringOfName (ck_ring b)")
  case None
  then show ?thesis using assms by (simp add: planRelease_def)
next
  case (Some g)
  show ?thesis
  proof (cases "sourceRelease b g d")
    case (Inl e)
    then show ?thesis using assms Some by (simp add: planRelease_def)
  next
    case (Inr src)
    note pl = assms [unfolded planRelease_def Some option.case Inr sum.case Let_def]
    have g: "\<forall>a. ck_remove_arch b = Some a \<longrightarrow> isRepoArch a" "\<forall>a. ck_arch b = Some a \<longrightarrow> isRepoArch a" "filter (\<lambda>e. addRowsOf d (ck_remove_arch b) e = []) (ck_add b) = []"
      using pl by (auto split: if_splits option.splits)
    obtain base where base: "baseOf src (ringHead d g) g (ck_arch b) d = (Inr base, d1)"
      using pl by (cases "baseOf src (ringHead d g) g (ck_arch b) d"; cases "fst (baseOf src (ringHead d g) g (ck_arch b) d)") (auto split: if_splits)
    show ?thesis
    proof (rule that [OF Some Inr base])
      show "\<forall>x \<in> set (ck_add b). addRowsOf d (ck_remove_arch b) x \<noteq> []" using g(3) by (auto simp: filter_empty_conv)
    qed (use pl base g in \<open>auto split: if_splits\<close>)
  qed
qed

lemma plan_ok:
  assumes "planRelease b d = (Inr p, d1)" "pool_ok d s"
  shows "pool_ok d1 s" "unread d d1" "planned d1 p"
    "\<exists>src. sourceRelease b (pn_ring p) d = Inr src \<and> set (baseRows (pn_base p) d1)
       = baseSet s src (ringHead d (pn_ring p)) (ck_arch b) (\<lambda>a. objectIs d (\<lambda>x. ob_arch x = a)) (set (ringMembers d (pn_ring p)))"
proof -
  obtain g src base where p: "sourceRelease b g d = Inr src" "baseOf src (ringHead d g) g (ck_arch b) d = (Inr base, d1)" "pn_ring p = g"
    "pn_seq p = lastSeq (\<lambda>_. True) d g + 1" "pn_parent p = map_option rl_id (ringHead d g)" "pn_base p = base"
    "pn_added p = addedIds d (ck_remove_arch b) (ck_add b)"
    "pn_checkpoint p = (ringHead d g = None \<or> lastSeq (\<lambda>_. True) d g + 1 - lastSeq rl_checkpoint d1 g \<ge> int CHECKPOINT_EVERY)"
  proof (rule plan_parts [OF assms(1)], goal_cases)
    case (1 g src base)
    show thesis by (rule 1(1) [OF 1(3,4)]) (simp_all add: 1(5))
  qed
  have bo: "pool_ok d1 s \<and> unread d d1 \<and> set (baseRows base d1) = baseSet s src (ringHead d g) (ck_arch b) (\<lambda>a. objectIs d (\<lambda>x. ob_arch x = a)) (set (ringMembers d g))"
    by (rule baseOf_ok [OF assms(2) p(2)]) (use p(1) sourceRelease_row in blast)
  then show "pool_ok d1 s" "unread d d1" by auto
  show "planned d1 p" using bo p addedIds_present by (intro planned_unread [of d]) simp_all
  show "\<exists>src. sourceRelease b (pn_ring p) d = Inr src \<and> set (baseRows (pn_base p) d1)
       = baseSet s src (ringHead d (pn_ring p)) (ck_arch b) (\<lambda>a. objectIs d (\<lambda>x. ob_arch x = a)) (set (ringMembers d (pn_ring p)))"
    using bo p(1,3,6) by auto
qed

text \<open>The request whole: refused, nothing moves; made, the newest release of its ring holds what the ring then serves, and the rest stays.\<close>

lemma create_refused:
  assumes "handleCreateRelease b d = (Inl e, d')" "pool_ok d s"
  shows "pool_ok d' s" "unread d d'"
proof -
  obtain x d1 where pl: "planRelease b d = (x, d1)" by (cases "planRelease b d")
  have "pool_ok d' s \<and> unread d d'"
  proof (cases x)
    case (Inl e)
    then show ?thesis using assms pl plan_refused [of b d e d1, OF _ assms(2)] by (simp add: handleCreateRelease_def)
  next
    case (Inr p)
    then have "d' = d1" using assms(1) pl by (auto simp: handleCreateRelease_def releaseBatch_def Let_def split: prod.splits if_splits)
    then show ?thesis using plan_ok [of b d p d1, OF _ assms(2)] pl Inr by simp
  qed
  then show "pool_ok d' s" "unread d d'" by auto
qed

lemma create_made:
  assumes "handleCreateRelease b d = (Inr (i, same), d')" "pool_ok d s"
  obtains p d1 where "planRelease b d = (Inr p, d1)" "releaseBatch p d1 = (Inr i, d')" "same = pn_unchanged p" "i = po_last_release d + 1"
    "pool_ok d' (s(i := set (ringMembers d' (pn_ring p))))" "set (ringMembers d' (pn_ring p)) = set (targetOf d1 p)"
    "\<And>g. g \<noteq> pn_ring p \<Longrightarrow> set (ringMembers d' g) = set (ringMembers d g)"
proof -
  obtain x d1 where pl: "planRelease b d = (x, d1)" by (cases "planRelease b d")
  then obtain p where x: "x = Inr p" using assms(1) by (cases x) (simp_all add: handleCreateRelease_def)
  obtain y d2 where y: "releaseBatch p d1 = (y, d2)" by (cases "releaseBatch p d1")
  have bt: "releaseBatch p d1 = (Inr i, d')" "same = pn_unchanged p" using assms(1) pl x y by (cases y; simp add: handleCreateRelease_def)+
  have po: "planRelease b d = (Inr p, d1)" using pl x by simp
  note ok = plan_ok [OF po assms(2)]
  note b = batch_ok [OF bt(1) ok(1,3)]
  show thesis
  proof (rule that [OF po bt])
    show "i = po_last_release d + 1" using b(3) ok(2) by (simp add: unread_def)
    show "pool_ok d' (s(i := set (ringMembers d' (pn_ring p))))" "set (ringMembers d' (pn_ring p)) = set (targetOf d1 p)" using b(1) b(2) [of "pn_ring p"] by simp_all
    show "set (ringMembers d' g) = set (ringMembers d g)" if "g \<noteq> pn_ring p" for g using b(2) [of g] that unread_read(4) [OF ok(2)] by simp
  qed
qed

end
