(* ===== verification/Pool_Release_Gc.thy ===== *)
theory Pool_Release_Gc
  imports Pool_Release_Create
begin

text \<open>
  A collection keeps what holds of the tables: the releases it protects are the newest of each ring, a checkpoint stays below the oldest of them,
  every checkpoint above that one stays too, the deltas dropped are of releases no reconstruction passes, and nothing a ring or a kept checkpoint
  names is deleted.
\<close>

subsection \<open>The releases protected\<close>

lemma set_releasesOf: "set (releasesOf d g) = {r \<in> set (po_releases d). rl_ring r = g}"
  by (auto simp: releasesOf_def)

lemma releasesOf_sorted: "sorted_wrt (\<lambda>a b. rl_seq b \<le> rl_seq a) (releasesOf d g)"
proof -
  have "sorted (map (\<lambda>r. - rl_seq r) (releasesOf d g))" by (simp add: releasesOf_def)
  then show ?thesis by (simp add: sorted_wrt_map)
qed

text \<open>Of a list that falls, the first so many, and then those not below a bound, are all that are not below the last of them.\<close>

lemma falling_take:
  fixes f :: "'a \<Rightarrow> int"
  assumes "sorted_wrt (\<lambda>a b. f b \<le> f a) xs" "take k xs \<noteq> []" "x \<in> set xs" "f (last (take k xs)) < f x"
  shows "x \<in> set (take k xs)"
proof (rule ccontr)
  assume "x \<notin> set (take k xs)"
  then have "x \<in> set (drop k xs)" using assms(3) by (metis Un_iff append_take_drop_id set_append)
  moreover have "sorted_wrt (\<lambda>a b. f b \<le> f a) (take k xs @ drop k xs)" using assms(1) by simp
  ultimately have "f x \<le> f (last (take k xs))" using assms(2) by (simp only: sorted_wrt_append) (metis last_in_set)
  then show False using assms(4) by simp
qed

lemma falling_last:
  fixes f :: "'a \<Rightarrow> int"
  assumes "sorted_wrt (\<lambda>a b. f b \<le> f a) xs" "x \<in> set xs"
  shows "f (last xs) \<le> f x"
  using assms by (induction xs) auto

lemma protected_shape:
  obtains (none) "take k (releasesOf d g) = []" "protectedOf d k g = []"
  | (some) since where "take k (releasesOf d g) \<noteq> []"
      "protectedOf d k g = take k (releasesOf d g) @ filter (\<lambda>r. rl_seq r \<ge> since \<and> rl_seq r < rl_seq (last (take k (releasesOf d g)))) (releasesOf d g)"
proof (cases "take k (releasesOf d g)")
  case Nil
  then have "protectedOf d k g = []" unfolding protectedOf_def Let_def by (simp only: list.case)
  then show ?thesis by (rule none [OF Nil])
next
  case (Cons h t)
  then show ?thesis
    using some [of "rl_seq (last (h # t))"] some [of "the (carriedSince d g h)"] by (cases "carriedSince d g h") (simp_all add: protectedOf_def)
qed

lemma protected_sub: "r \<in> set (protectedOf d k g) \<Longrightarrow> r \<in> set (po_releases d) \<and> rl_ring r = g"
  using set_take_subset [of k "releasesOf d g"] by (cases rule: protected_shape [of k d g]) (auto simp: set_releasesOf)

lemma protected_take: "set (take k (releasesOf d g)) \<subseteq> set (protectedOf d k g)"
  by (cases rule: protected_shape [of k d g]) auto

lemma protected_sorted: "sorted_wrt (\<lambda>a b. rl_seq b \<le> rl_seq a) (protectedOf d k g)"
proof -
  have s: "sorted_wrt (\<lambda>a b. rl_seq b \<le> rl_seq a) (take k (releasesOf d g))" "sorted_wrt (\<lambda>a b. rl_seq b \<le> rl_seq a) (filter P (releasesOf d g))" for P
    using releasesOf_sorted by (auto intro: sorted_wrt_take sorted_wrt_filter)
  have "rl_seq b \<le> rl_seq a" if "a \<in> set (take k (releasesOf d g))" "rl_seq b < rl_seq (last (take k (releasesOf d g)))" for a b
    using falling_last [OF s(1) that(1)] that(2) by simp
  then show ?thesis using s by (cases rule: protected_shape [of k d g]) (auto simp: sorted_wrt_append)
qed

lemma protected_above:
  assumes "rows_ok (cores d)" "protectedOf d k g \<noteq> []" "r \<in> cores d" "rl_ring r = g" "rl_seq (last (protectedOf d k g)) \<le> rl_seq r"
  shows "\<exists>q \<in> set (protectedOf d k g). release_core.truncate q = r"
proof (cases rule: protected_shape [of k d g])
  case (some since)
  let ?rows = "take k (releasesOf d g)"
  let ?more = "filter (\<lambda>r. rl_seq r \<ge> since \<and> rl_seq r < rl_seq (last ?rows)) (releasesOf d g)"
  obtain q where q: "r = release_core.truncate q" "q \<in> set (releasesOf d g)" using assms(3,4) by (auto simp: cores_def set_releasesOf)
  have l: "last ?rows \<in> set (protectedOf d k g)" using protected_take last_in_set [OF some(1)] by blast
  show ?thesis
  proof (cases "rl_seq (last ?rows)" "rl_seq q" rule: linorder_cases)
    case less
    then show ?thesis using falling_take [OF releasesOf_sorted some(1) q(2)] protected_take q(1) by blast
  next
    case equal
    then have "release_core.truncate (last ?rows) = r" using rows_okD(4) [OF assms(1,3), of "release_core.truncate (last ?rows)"] protected_sub [OF l] assms(4) q(1)
      by (auto simp: cores_def)
    then show ?thesis using l by blast
  next
    case greater
    then have ne: "?more \<noteq> []" using assms(5) some(2) q(1) by auto
    from last_in_set [OF this] have "since \<le> rl_seq (last ?more)" by simp
    moreover have "last (protectedOf d k g) = last ?more" unfolding some(2) last_append by (simp only: ne if_False)
    ultimately have "q \<in> set ?more" using assms(5) q greater by simp
    then show ?thesis using some(2) q(1) by (auto intro: bexI [of _ q])
  qed
qed (use assms in simp)

text \<open>The floor of a ring: its base checkpoint's place. A checkpoint is kept exactly when it is not below.\<close>

definition floorSeq :: "pool \<Rightarrow> nat \<Rightarrow> pool_ring \<Rightarrow> int" where
  "floorSeq d k g = (case baseCheckpoint d k g of Some b \<Rightarrow> rl_seq b | None \<Rightarrow> 0)"

lemma base_row:
  assumes "baseCheckpoint d k g = Some b"
  shows "b \<in> set (po_releases d)" "rl_ring b = g" "rl_checkpoint b" "rl_seq b \<le> rl_seq (last (protectedOf d k g))" "protectedOf d k g \<noteq> []"
    "\<And>c. c \<in> set (po_releases d) \<Longrightarrow> rl_ring c = g \<Longrightarrow> rl_checkpoint c \<Longrightarrow> rl_seq c \<le> rl_seq (last (protectedOf d k g)) \<Longrightarrow> rl_seq c \<le> rl_seq b"
proof -
  let ?P = "\<lambda>r. rl_checkpoint r \<and> rl_seq r \<le> rl_seq (last (protectedOf d k g))"
  have ne: "protectedOf d k g \<noteq> []" and fb: "first_of (filter ?P (releasesOf d g)) = Some b" using assms by (auto simp: baseCheckpoint_def split: if_splits)
  have s: "sorted_wrt (\<lambda>a b. rl_seq b \<le> rl_seq a) (filter ?P (releasesOf d g))" by (rule sorted_wrt_filter [OF releasesOf_sorted])
  obtain ys where ys: "filter ?P (releasesOf d g) = b # ys" using fb by (auto simp: first_of_eq_Some)
  then have "b \<in> set (filter ?P (releasesOf d g))" by simp
  then show "b \<in> set (po_releases d)" "rl_ring b = g" "rl_checkpoint b" "rl_seq b \<le> rl_seq (last (protectedOf d k g))" by (auto simp: set_releasesOf)
  show "protectedOf d k g \<noteq> []" by (rule ne)
  fix c assume "c \<in> set (po_releases d)" "rl_ring c = g" "rl_checkpoint c" "rl_seq c \<le> rl_seq (last (protectedOf d k g))"
  then have "c \<in> set (filter ?P (releasesOf d g))" by (simp add: set_releasesOf)
  then show "rl_seq c \<le> rl_seq b" using s unfolding ys by auto
qed

lemma base_none:
  assumes "baseCheckpoint d k g = None" "protectedOf d k g \<noteq> []" "c \<in> set (po_releases d)" "rl_ring c = g" "rl_checkpoint c"
  shows "rl_seq (last (protectedOf d k g)) < rl_seq c"
  using assms by (force simp: baseCheckpoint_def filter_empty_conv set_releasesOf split: if_splits)

lemma protected_some:
  assumes "1 \<le> k" "r \<in> set (po_releases d)" "rl_ring r = g"
  shows "protectedOf d k g \<noteq> []"
proof -
  have "releasesOf d g \<noteq> []" using assms(2,3) set_releasesOf [of d g] by auto
  then have "take k (releasesOf d g) \<noteq> []" using assms(1) by simp
  then show ?thesis using protected_take [of k d g] by auto
qed

lemma in_checkpoints:
  "i \<in> set (rt_checkpoints (retention k d)) \<longleftrightarrow> (\<exists>g \<in> set RINGS. (\<exists>p \<in> set (protectedOf d k g). rl_checkpoint p \<and> rl_id p = i)
     \<or> (\<exists>b. baseCheckpoint d k g = Some b \<and> rl_id b = i))"
proof -
  have "set (case m of Some r \<Rightarrow> [rl_id r] | None \<Rightarrow> []) = {i. \<exists>b. m = Some b \<and> rl_id b = i}" for m :: "release_row option" by (cases m) auto
  then show ?thesis by (simp add: retention_def image_iff) blast
qed

lemma kept_checkpoint:
  assumes "rows_ok (cores d)" "1 \<le> k" "r \<in> cores d" "rl_checkpoint r"
  shows "rl_id r \<in> set (rt_checkpoints (retention k d)) \<longleftrightarrow> floorSeq d k (rl_ring r) \<le> rl_seq r"
proof -
  let ?g = "rl_ring r"
  have mine: "release_core.truncate q = r" if "q \<in> set (po_releases d)" "rl_id q = rl_id r" for q
    using rows_okD(3) [OF assms(1,3), of "release_core.truncate q"] that by (auto simp: cores_def)
  obtain q where q: "q \<in> set (po_releases d)" "release_core.truncate q = r" using assms(3) by (auto simp: cores_def)
  have qs: "rl_seq q = rl_seq r" "rl_ring q = ?g" "rl_checkpoint q" "rl_id q = rl_id r" using q(2) assms(4) by auto
  have ne: "protectedOf d k ?g \<noteq> []" by (rule protected_some [OF assms(2) q(1) qs(2)])
  let ?l = "rl_seq (last (protectedOf d k ?g))"
  have all: "?g \<in> set RINGS" by (cases ?g) (simp_all add: RINGS_def)
  have "rl_id r \<in> set (rt_checkpoints (retention k d)) \<longleftrightarrow> ?l \<le> rl_seq r \<or> (\<exists>b. baseCheckpoint d k ?g = Some b \<and> rl_id b = rl_id r)"
  proof
    assume "rl_id r \<in> set (rt_checkpoints (retention k d))"
    then obtain g where "(\<exists>p \<in> set (protectedOf d k g). rl_checkpoint p \<and> rl_id p = rl_id r) \<or> (\<exists>b. baseCheckpoint d k g = Some b \<and> rl_id b = rl_id r)"
      unfolding in_checkpoints by blast
    then show "?l \<le> rl_seq r \<or> (\<exists>b. baseCheckpoint d k ?g = Some b \<and> rl_id b = rl_id r)"
    proof (elim disjE bexE exE conjE)
      fix p assume p: "p \<in> set (protectedOf d k g)" "rl_id p = rl_id r"
      then have t: "release_core.truncate p = r" using protected_sub [OF p(1)] mine by simp
      then have "g = ?g" "rl_seq p = rl_seq r" using protected_sub [OF p(1)] by auto
      then show ?thesis using falling_last [OF protected_sorted p(1)] by simp
    next
      fix b assume b: "baseCheckpoint d k g = Some b" "rl_id b = rl_id r"
      then have "release_core.truncate b = r" using base_row(1) [OF b(1)] mine by simp
      then have "g = ?g" using base_row(2) [OF b(1)] by auto
      then show ?thesis using b by auto
    qed
  next
    assume "?l \<le> rl_seq r \<or> (\<exists>b. baseCheckpoint d k ?g = Some b \<and> rl_id b = rl_id r)"
    then have "(\<exists>p \<in> set (protectedOf d k ?g). release_core.truncate p = r) \<or> (\<exists>b. baseCheckpoint d k ?g = Some b \<and> rl_id b = rl_id r)"
      using protected_above [OF assms(1) ne assms(3)] by auto
    then show "rl_id r \<in> set (rt_checkpoints (retention k d))" using all assms(4) unfolding in_checkpoints by (metis truncate_sel(1,5))
  qed
  also have "\<dots> \<longleftrightarrow> floorSeq d k ?g \<le> rl_seq r"
  proof (cases "baseCheckpoint d k ?g")
    case None
    then show ?thesis using base_none [OF None ne q(1) qs(2,3)] qs(1) rows_okD(1) [OF assms(1,3)] by (simp add: floorSeq_def)
  next
    case (Some b)
    have "rl_seq r \<le> rl_seq b \<or> ?l < rl_seq r" using base_row(6) [OF Some q(1) qs(2,3)] qs(1) by linarith
    moreover have "rl_id b = rl_id r \<longleftrightarrow> rl_seq b = rl_seq r"
      using rows_okD(3,4) [OF assms(1,3), of "release_core.truncate b"] base_row(1,2) [OF Some] by (auto simp: cores_def)
    ultimately show ?thesis using Some base_row(4) [OF Some] by (auto simp: floorSeq_def)
  qed
  finally show ?thesis .
qed

subsection \<open>Checkpoints and deltas dropped\<close>

definition unmark :: "(pool_ring \<Rightarrow> int) \<Rightarrow> release_core \<Rightarrow> release_core" where
  "unmark F r = r\<lparr>rl_checkpoint := rl_checkpoint r \<and> F (rl_ring r) \<le> rl_seq r\<rparr>"

lemma unmark_marks: "marks (unmark F)"
  by (simp add: marks_def unmark_def)

lemma unmark_checkpoint [simp]: "rl_checkpoint (unmark F r) \<longleftrightarrow> rl_checkpoint r \<and> F (rl_ring r) \<le> rl_seq r"
  by (simp add: unmark_def)

lemma cores_prune:
  assumes "rows_ok (cores d)" "1 \<le> k"
  shows "cores (pruneCheckpoints (retention k d) d) = unmark (floorSeq d k) ` cores d"
proof -
  let ?P = "\<lambda>r :: release_row. rl_checkpoint r \<and> rl_id r \<notin> set (rt_checkpoints (retention k d))"
  have "release_core.truncate (if ?P r then r\<lparr>rl_checkpoint := False\<rparr> else r) = unmark (floorSeq d k) (release_core.truncate r)" if "r \<in> set (po_releases d)" for r
  proof -
    have t: "release_core.truncate r \<in> cores d" using that by (simp add: cores_def)
    show ?thesis
    proof (cases "rl_checkpoint r")
      case True
      then have "?P r \<longleftrightarrow> \<not> floorSeq d k (rl_ring r) \<le> rl_seq r" using kept_checkpoint [OF assms t] by simp
      then show ?thesis using True by (simp add: unmark_def release_core.truncate_def)
    qed (simp add: unmark_def release_core.truncate_def)
  qed
  then have "(\<lambda>r. release_core.truncate (if ?P r then r\<lparr>rl_checkpoint := False\<rparr> else r)) ` set (po_releases d) = (\<lambda>r. unmark (floorSeq d k) (release_core.truncate r)) ` set (po_releases d)"
    by (intro image_cong) simp_all
  moreover have rows: "po_releases (pruneCheckpoints (retention k d) d) = map (\<lambda>r. if ?P r then r\<lparr>rl_checkpoint := False\<rparr> else r) (po_releases d)"
    by (simp add: pruneCheckpoints_def sql_update_def)
  ultimately show ?thesis by (simp only: cores_def rows set_map image_image)
qed

lemma fold_pruneDeltas:
  "fold pruneDeltas fs d = d\<lparr>po_deltas := filter (\<lambda>x. \<forall>f \<in> set fs. dl_release x \<notin> set (atOrBelow d (fst f) (snd f))) (po_deltas d)\<rparr>"
proof (induction fs arbitrary: d)
  case (Cons f fs)
  have at: "atOrBelow (pruneDeltas f d) = atOrBelow d" by (intro ext) (simp add: atOrBelow_def pruneDeltas_def)
  show ?case by (simp add: Cons.IH at) (simp add: pruneDeltas_def conj_commute)
qed simp

text \<open>Where the floor is a checkpoint of the ring, or nothing, no gap opens: a release above it is as near to it as to any dropped below.\<close>

definition floors_ok :: "release_core set \<Rightarrow> (pool_ring \<Rightarrow> int) \<Rightarrow> bool" where
  "floors_ok R F \<longleftrightarrow> (\<forall>g. F g = 0 \<or> (\<exists>b \<in> R. rl_ring b = g \<and> rl_checkpoint b \<and> rl_seq b = F g))"

lemma floorSeq_ok: "floors_ok (cores d) (floorSeq d k)"
  unfolding floors_ok_def
proof
  fix g show "floorSeq d k g = 0 \<or> (\<exists>b \<in> cores d. rl_ring b = g \<and> rl_checkpoint b \<and> rl_seq b = floorSeq d k g)"
  proof (cases "baseCheckpoint d k g")
    case (Some b)
    then show ?thesis using base_row(1-3) [OF Some] by (intro disjI2 bexI [of _ "release_core.truncate b"]) (auto simp: floorSeq_def cores_def)
  qed (simp add: floorSeq_def)
qed

lemma unmark_near:
  assumes "near R r" "floors_ok R F" "F (rl_ring r) \<le> rl_seq r" "rows_ok R"
  shows "near (unmark F ` R) r"
proof -
  obtain c where c: "c \<in> R" "rl_ring c = rl_ring r" "rl_checkpoint c" "rl_seq c \<le> rl_seq r" "rl_seq r < rl_seq c + int CHECKPOINT_EVERY"
    using assms(1) by (auto simp: near_def)
  show ?thesis
  proof (cases "F (rl_ring r) \<le> rl_seq c")
    case True
    then show ?thesis using c unfolding near_def by (intro bexI [of _ "unmark F c"]) (auto simp: marks_sel [OF unmark_marks])
  next
    case False
    then have "F (rl_ring r) \<noteq> 0" using rows_okD(1) [OF assms(4) c(1)] by linarith
    then obtain b where "b \<in> R" "rl_ring b = rl_ring r" "rl_checkpoint b" "rl_seq b = F (rl_ring r)" using assms(2) unfolding floors_ok_def by blast
    then show ?thesis using assms(3) c(5) False unfolding near_def by (intro bexI [of _ "unmark F b"]) (auto simp: marks_sel [OF unmark_marks])
  qed
qed

lemma unmark_reached:
  assumes "reached (unmark F ` R) r"
  shows "reached R r" "F (rl_ring r) \<le> rl_seq r"
  using assms by (force simp: reached_def marks_sel [OF unmark_marks])+

lemma unmark_below:
  assumes "below (unmark F ` R) r"
  shows "below R r" "F (rl_ring r) < rl_seq r"
  using assms by (force simp: below_def marks_sel [OF unmark_marks])+

lemma near_reached: "near R r \<Longrightarrow> reached R r"
  by (auto simp: near_def reached_def)

lemma checkpoints_ok_unmark:
  assumes "rows_ok R" "checkpoints_ok R" "floors_ok R F" "\<And>r. newest R r \<Longrightarrow> F (rl_ring r) \<le> rl_seq r"
  shows "checkpoints_ok (unmark F ` R)"
  unfolding checkpoints_ok_def
proof (intro conjI ballI allI impI)
  fix r assume "r \<in> unmark F ` R" "reached (unmark F ` R) r"
  then obtain q where q: "q \<in> R" "r = unmark F q" by auto
  have pl: "rl_ring r = rl_ring q" "rl_seq r = rl_seq q" using q(2) by (simp_all add: marks_sel [OF unmark_marks])
  have "near R q" using unmark_reached(1) [OF \<open>reached (unmark F ` R) r\<close>] assms(2) q(1) same_place [OF pl, of R] by (simp add: checkpoints_ok_def)
  then show "near (unmark F ` R) r"
    using unmark_near [of R q F] assms(1,3) unmark_reached(2) [OF \<open>reached (unmark F ` R) r\<close>] same_place [OF pl, of "unmark F ` R"] pl by simp
next
  fix r assume n: "newest (unmark F ` R) r"
  then obtain q where q: "q \<in> R" "r = unmark F q" by (auto simp: newest_def)
  have pl: "rl_ring r = rl_ring q" "rl_seq r = rl_seq q" using q(2) by (simp_all add: marks_sel [OF unmark_marks])
  have nq: "newest R q" using n q newest_marks [OF unmark_marks assms(1) q(1)] by simp
  then have "near R q" using assms(2) q(1) by (simp add: checkpoints_ok_def)
  then have "near (unmark F ` R) q" by (rule unmark_near) (use assms(1,3,4) nq in auto)
  then show "reached (unmark F ` R) r" using near_reached same_place [OF pl, of "unmark F ` R"] by simp
qed

lemma floor_newest:
  assumes "rows_ok (cores d)" "newest (cores d) r" "1 \<le> k"
  shows "floorSeq d k (rl_ring r) \<le> rl_seq r"
proof (cases "baseCheckpoint d k (rl_ring r)")
  case (Some b)
  have "rl_seq b \<le> rl_seq r" using base_row(1,2) [OF Some] assms(2) by (auto simp: newest_def cores_def)
  then show ?thesis using Some by (simp add: floorSeq_def)
next
  case None
  then show ?thesis using assms rows_okD(1) [OF assms(1), of r] by (simp add: floorSeq_def newest_def)
qed

lemma floors_in: "f \<in> set (rt_floors (retention k d)) \<Longrightarrow> snd f = floorSeq d k (fst f)"
  by (auto simp: retention_def map_filter_def floorSeq_def)

text \<open>The tables after the checkpoints and the deltas went, before any object does.\<close>

definition pruned :: "nat \<Rightarrow> pool \<Rightarrow> pool" where
  "pruned k d = fold pruneDeltas (rt_floors (retention k d)) (pruneCheckpoints (retention k d) d)"

lemma pruned_frame:
  "po_live (pruned k d) = po_live d" "po_heads (pruned k d) = po_heads d" "po_objects (pruned k d) = po_objects d" "po_last_object (pruned k d) = po_last_object d"
  "po_last_release (pruned k d) = po_last_release d" "po_bucket (pruned k d) = po_bucket d" "po_artifacts (pruned k d) = po_artifacts d"
  "po_members (pruned k d) = filter (\<lambda>m. fst m \<in> set (rt_checkpoints (retention k d))) (po_members d)"
  "set (po_deltas (pruned k d)) \<subseteq> set (po_deltas d)" "cores (pruned k d) = cores (pruneCheckpoints (retention k d) d)"
  by (auto simp: pruned_def fold_pruneDeltas pruneCheckpoints_def cores_def)

lemma atOrBelow_cores: "i \<in> set (atOrBelow d g sq) \<longleftrightarrow> (\<exists>r \<in> cores d. rl_ring r = g \<and> rl_seq r \<le> sq \<and> rl_id r = i)"
  by (auto simp: atOrBelow_def cores_def)

lemma pruned_deltas:
  assumes "rows_ok (cores d)" "1 \<le> k" "r \<in> cores d" "floorSeq d k (rl_ring r) < rl_seq r"
  shows "deltasOf (pruned k d) (rl_id r) = deltasOf d (rl_id r)"
proof -
  have "rl_id r \<notin> set (atOrBelow (pruneCheckpoints (retention k d) d) (fst f) (snd f))" if "f \<in> set (rt_floors (retention k d))" for f
  proof
    assume "rl_id r \<in> set (atOrBelow (pruneCheckpoints (retention k d) d) (fst f) (snd f))"
    then obtain q where q: "q \<in> cores d" "rl_ring q = fst f" "rl_seq q \<le> snd f" "rl_id q = rl_id r"
      unfolding atOrBelow_cores cores_prune [OF assms(1,2)] by (auto simp: marks_sel [OF unmark_marks])
    then show False using rows_okD(3) [OF assms(1,3) q(1,4)] assms(4) floors_in [OF that] by simp
  qed
  then show ?thesis by (auto simp: deltasOf_def pruned_def fold_pruneDeltas pruneCheckpoints_def intro!: filter_cong)
qed

lemma pruned_ok:
  assumes "pool_ok d s" "1 \<le> k"
  shows "pool_ok (pruned k d) s"
proof -
  note ok = pool_okD [OF assms(1)]
  let ?d = "pruned k d"
  let ?f = "unmark (floorSeq d k)"
  have co: "cores ?d = ?f ` cores d" using cores_prune [OF ok(1) assms(2)] pruned_frame(10) by simp
  have rows: "rows_ok (cores ?d)" "heads_ok (cores ?d) (po_heads ?d)" unfolding co pruned_frame(2)
    using rows_ok_marks [OF unmark_marks ok(1)] heads_ok_marks [OF unmark_marks ok(1,3)] by simp_all
  have "checkpoints_ok (cores ?d)" unfolding co
    by (rule checkpoints_ok_unmark [OF ok(1,2) floorSeq_ok]) (use floor_newest [OF ok(1) _ assms(2)] in simp)
  moreover have "members_ok ?d s" unfolding members_ok_def
  proof (intro conjI ballI impI)
    fix r assume "r \<in> cores ?d" "rl_checkpoint r"
    then obtain q where q: "q \<in> cores d" "rl_id r = rl_id q" "rl_checkpoint q" "floorSeq d k (rl_ring q) \<le> rl_seq q" unfolding co by (auto simp: marks_sel [OF unmark_marks])
    then have "rl_id q \<in> set (rt_checkpoints (retention k d))" using kept_checkpoint [OF ok(1) assms(2) q(1,3)] by simp
    then have "set (memberRows ?d (rl_id q)) = set (memberRows d (rl_id q))" by (auto simp: set_memberRows pruned_frame(8))
    then show "set (memberRows ?d (rl_id r)) = s (rl_id r)" using ok(4) q by (simp add: members_ok_def)
  next
    fix m assume "m \<in> set (po_members ?d)"
    then have m: "m \<in> set (po_members d)" "fst m \<in> set (rt_checkpoints (retention k d))" by (simp_all add: pruned_frame(8))
    then obtain q where q: "q \<in> cores d" "rl_checkpoint q" "rl_id q = fst m" using ok(4) by (auto simp: members_ok_def)
    then have "rl_checkpoint (?f q)" using kept_checkpoint [OF ok(1) assms(2) q(1,2)] m(2) by simp
    then show "\<exists>r \<in> cores ?d. rl_checkpoint r \<and> rl_id r = fst m" unfolding co using q by (auto simp: marks_sel [OF unmark_marks])
  qed
  moreover have "live_ok ?d s" using ok(5) by (simp add: live_ok_def ringMembers_def pruned_frame)
  moreover have "deltas_ok ?d s" unfolding deltas_ok_def
  proof (intro conjI ballI allI impI)
    fix r q assume r: "r \<in> cores ?d" "below (cores ?d) r" "rl_parent r = Some q"
    then obtain c where c: "c \<in> cores d" "r = ?f c" unfolding co by auto
    have pl: "rl_ring r = rl_ring c" "rl_seq r = rl_seq c" using c(2) by (simp_all add: marks_sel [OF unmark_marks])
    have "below (cores d) c" "floorSeq d k (rl_ring c) < rl_seq c" using unmark_below [OF r(2) [unfolded co]] same_place [OF pl, of "cores d"] pl by simp_all
    then show "deltaSets (deltasOf ?d (rl_id r)) = diffOf (s q) (s (rl_id r))"
      using pruned_deltas [OF ok(1) assms(2) c(1)] ok(6) c r(3) unfolding deltas_ok_def by (simp add: marks_sel [OF unmark_marks])
  next
    fix x assume "x \<in> set (po_deltas ?d)"
    then show "dl_release x \<le> po_last_release ?d" using ok(6) pruned_frame(5,9) [of k d] by (auto simp: deltas_ok_def)
  next
    fix r assume "r \<in> cores ?d"
    then show "rl_id r \<le> po_last_release ?d" unfolding co pruned_frame(5) using ok(6) by (auto simp: deltas_ok_def marks_sel [OF unmark_marks])
  qed
  moreover have "objects_ok ?d" using ok(7) by (auto simp: objects_ok_def pruned_frame present_def)
  ultimately show ?thesis using rows by (simp add: pool_ok_def)
qed

subsection \<open>Objects collected\<close>

lemma collectOne_frame:
  "po_live (collectOne x d) = po_live d" "po_heads (collectOne x d) = po_heads d" "po_releases (collectOne x d) = po_releases d" "po_members (collectOne x d) = po_members d"
  "po_deltas (collectOne x d) = po_deltas d" "po_last_release (collectOne x d) = po_last_release d" "po_last_object (collectOne x d) = po_last_object d"
  "po_objects (collectOne x d) = (if servedNow d (ob_id x) then po_objects d else filter (\<lambda>y. ob_id y \<noteq> ob_id x) (po_objects d))"
  by (auto simp: collectOne_def Let_def servedNow_def intro!: filter_cong)

text \<open>A victim that no kept checkpoint names.\<close>

lemma collectOne_ok:
  assumes "pool_ok d s" "ob_id x \<notin> snd ` set (po_members d)"
  shows "pool_ok (collectOne x d) s"
proof (rule pool_ok_cong [OF assms(1)])
  have "ob_id x \<notin> snd ` set (po_live d)" if "\<not> servedNow d (ob_id x)" using that by (auto simp: servedNow_def list_ex_iff)
  moreover have "present (collectOne x d) = (if servedNow d (ob_id x) then present d else present d - {ob_id x})" by (auto simp: present_def collectOne_frame)
  ultimately show "objects_ok (collectOne x d)" using pool_okD(7) [OF assms(1)] assms(2) unfolding objects_ok_def collectOne_frame
    by (cases "servedNow d (ob_id x)") (simp_all add: distinct_map_filter subset_Diff_insert)
qed (simp_all add: cores_def collectOne_frame)

lemma collect_ok:
  assumes "pool_ok d s" "\<And>x. x \<in> set xs \<Longrightarrow> ob_id x \<notin> snd ` set (po_members d)"
  shows "pool_ok (fold collectOne xs d) s"
  using assms
proof (induction xs arbitrary: d)
  case (Cons x xs)
  then have "pool_ok (collectOne x d) s" by (intro collectOne_ok) simp_all
  then show ?case using Cons by (simp add: collectOne_frame)
qed simp

lemma victims_free:
  assumes "x \<in> set (unreferenced k grace now d)"
  shows "x \<in> set (po_objects d)" "ob_id x \<notin> snd ` set (po_live d)" "ob_id x \<notin> snd ` set (po_members (pruned k d))"
    "dl \<in> set (po_deltas d) \<Longrightarrow> dl_release dl \<in> set (rt_protected (retention k d)) \<Longrightarrow> dl_package dl \<noteq> ob_id x"
  using assms by (auto simp: unreferenced_def outsideRetention_def servedNow_def list_ex_iff pruned_frame)

lemma gc_shape: "handleGc keep limit grace now d = fold collectOne (take (min limit 500) (unreferenced (max 1 keep) grace now d)) (pruned (max 1 keep) d)"
  by (simp add: handleGc_def pruned_def Let_def)

lemma gc_ok:
  assumes "pool_ok d s"
  shows "pool_ok (handleGc keep limit grace now d) s"
  unfolding gc_shape
proof (rule collect_ok)
  show "pool_ok (pruned (max 1 keep) d) s" by (rule pruned_ok [OF assms]) simp
  show "ob_id x \<notin> snd ` set (po_members (pruned (max 1 keep) d))" if "x \<in> set (take (min limit 500) (unreferenced (max 1 keep) grace now d))" for x
    by (rule victims_free(3) [OF in_set_takeD [OF that]])
qed

end
