(* ===== verification/Pool_Release_Keep.thy ===== *)
theory Pool_Release_Keep
  imports Pool_Release_Gc
begin

text \<open>
  What a pool promises of its last releases: each of the newest \<open>K\<close> of a ring has a checkpoint behind it and every package it held, however often
  the collector runs, as long as it is told to keep that many. And the bucket: a package the index names has its object.
\<close>

subsection \<open>The last releases\<close>

definition kept_ok :: "nat \<Rightarrow> pool \<Rightarrow> (int \<Rightarrow> int set) \<Rightarrow> bool" where
  "kept_ok K d s \<longleftrightarrow> distinct (map rl_id (po_releases d)) \<and> (\<forall>r \<in> cores d. \<forall>n. newest (cores d) n \<longrightarrow> rl_ring n = rl_ring r \<longrightarrow> rl_seq n < rl_seq r + int K
     \<longrightarrow> reached (cores d) r \<and> s (rl_id r) \<subseteq> present d)"

lemma kept_okD:
  assumes "kept_ok K d s" "r \<in> cores d" "newest (cores d) n" "rl_ring n = rl_ring r" "rl_seq n < rl_seq r + int K"
  shows "reached (cores d) r" "s (rl_id r) \<subseteq> present d"
  using assms by (auto simp: kept_ok_def)

text \<open>A step that only marks checkpoints.\<close>

definition grows :: "pool \<Rightarrow> pool \<Rightarrow> bool" where
  "grows d d' \<longleftrightarrow> map rl_id (po_releases d') = map rl_id (po_releases d) \<and> present d' = present d
     \<and> (\<exists>f. marks f \<and> cores d' = f ` cores d \<and> (\<forall>r. reached (cores d) r \<longrightarrow> reached (cores d') r))"

lemma grows_same: "po_releases d' = po_releases d \<Longrightarrow> present d' = present d \<Longrightarrow> grows d d'"
  by (auto simp: grows_def cores_def marks_def intro!: exI [of _ "\<lambda>r. r"])

lemma grows_refl [simp]: "grows d d"
  by (rule grows_same) simp_all

lemma grows_trans:
  assumes "grows d d'" "grows d' d''"
  shows "grows d d''"
proof -
  obtain f h where "marks f" "cores d' = f ` cores d" "marks h" "cores d'' = h ` cores d'" using assms by (auto simp: grows_def)
  then have "marks (h \<circ> f)" "cores d'' = (h \<circ> f) ` cores d" by (auto simp: marks_def)
  then show ?thesis using assms unfolding grows_def by (metis (no_types))
qed

lemma grows_setRelease:
  assumes "\<And>r. release_core.truncate (f r) = release_core.truncate r"
  shows "grows d (setRelease i f d)"
proof -
  have id: "rl_id (f r) = rl_id r" for r using assms by (metis truncate_sel(1))
  have "cores (setRelease i f d) = (\<lambda>r. r) ` cores d" using cores_setRelease [OF assms] by simp
  moreover have "marks (\<lambda>r. r)" by (simp add: marks_def)
  moreover have "map rl_id (po_releases (setRelease i f d)) = map rl_id (po_releases d)" by (simp add: setRelease_def sql_update_def id)
  moreover have "present (setRelease i f d) = present d" by (simp add: present_def setRelease_def)
  ultimately show ?thesis unfolding grows_def by (metis image_ident)
qed

lemma grows_writeCheckpoint: "grows d (writeCheckpoint i ids d)"
  unfolding grows_def
proof (intro conjI exI [of _ "mark i"] allI impI)
  show "map rl_id (po_releases (writeCheckpoint i ids d)) = map rl_id (po_releases d)" by (simp add: writeCheckpoint_def setRelease_def sql_update_def)
  show "reached (cores (writeCheckpoint i ids d)) r" if "reached (cores d) r" for r using reached_mono [OF that] by (simp add: cores_writeCheckpoint)
qed (simp_all add: mark_marks cores_writeCheckpoint present_def writeCheckpoint_frame)

lemma grows_ensure: "grows d (snd (ensureCheckpoint i d))"
  using grows_writeCheckpoint by (simp add: ensureCheckpoint_def split: option.split sum.split)

lemma grows_members: "grows d (snd (releaseMembers i d))"
  using grows_ensure [of d i] by (auto simp: releaseMembers_def split: option.split prod.split)

lemma grows_summary: "grows d (snd (releaseSummary i d))"
  using grows_trans [OF grows_members [of d i] grows_setRelease [of "\<lambda>r. r\<lparr>rl_count := a, rl_bytes := b\<rparr>" for a b]] grows_members [of d i]
  by (auto simp: releaseSummary_def Let_def release_core.truncate_def split: option.split prod.split sum.split)

lemma grows_sources: "grows d (snd (releaseSources i d))"
  using grows_trans [OF grows_members [of d i] grows_setRelease [of "\<lambda>r. r\<lparr>rl_sources := a\<rparr>" for a]] grows_members [of d i]
  by (auto simp: releaseSources_def Let_def release_core.truncate_def split: option.split prod.split sum.split)

lemma kept_ok_grows:
  assumes "kept_ok K d s" "grows d d'" "rows_ok (cores d)"
  shows "kept_ok K d' s"
proof -
  obtain f where f: "marks f" "cores d' = f ` cores d" "\<forall>r. reached (cores d) r \<longrightarrow> reached (cores d') r" using assms(2) by (auto simp: grows_def)
  have "reached (cores d') (f r) \<and> s (rl_id (f r)) \<subseteq> present d'" if "r \<in> cores d" "newest (cores d') n" "rl_ring n = rl_ring (f r)" "rl_seq n < rl_seq (f r) + int K" for r n
  proof -
    note t = that
    obtain m where m: "m \<in> cores d" "n = f m" using t(2) f(2) by (auto simp: newest_def)
    then have "newest (cores d) m" using t(2) newest_marks [OF f(1) assms(3) m(1)] f(2) by simp
    then have "reached (cores d) r" "s (rl_id r) \<subseteq> present d" using kept_okD [OF assms(1) t(1), of m] t(3,4) m(2) by (simp_all add: marks_sel [OF f(1)])
    then show ?thesis using f(3) same_place [of "f r" r "cores d'"] assms(2) by (simp add: marks_sel [OF f(1)] grows_def)
  qed
  then show ?thesis using assms(1,2) f(2) by (auto simp: kept_ok_def grows_def)
qed

text \<open>A release made: the window moves up by one.\<close>

lemma kept_membership:
  assumes "membershipBatch p d = (i, d')" "pool_ok d s" "planned d p" "kept_ok K d s"
  shows "kept_ok K d' (s(i := set (targetOf d p)))"
proof -
  note ok = pool_okD [OF assms(2)]
  note fr = membership_frame [OF assms(1)]
  let ?n = "newCore i p"
  have nx: "next_row (cores d) (po_last_release d) ?n" using planned_next [OF assms(2,3)] fr(1) by simp
  have co: "cores d' = insert ?n (cores d)" by (rule membership_cores [OF assms(1,2)])
  have pr: "present d' = present d" by (simp add: present_def fr(2))
  have top: "newest (insert ?n (cores d)) ?n" using newest_insert(1) [OF nx] .
  have "reached (cores d') ?n" using pool_okD(2) [OF membership_ok [OF assms(1-3)]] top by (simp add: checkpoints_ok_def co)
  moreover have "set (targetOf d p) \<subseteq> present d" using target_present assms(3) by (simp add: planned_def)
  moreover have "reached (cores d') r \<and> s (rl_id r) \<subseteq> present d"
    if "r \<in> cores d" "newest (insert ?n (cores d)) n" "rl_ring n = rl_ring r" "rl_seq n < rl_seq r + int K" for r n
  proof -
    note t = that
    have "\<exists>m. newest (cores d) m \<and> rl_ring m = rl_ring r \<and> rl_seq m < rl_seq r + int K"
    proof (cases "n = ?n")
      case True
      obtain m where "newest (cores d) m" "rl_ring m = rl_ring r" using newest_exists [OF ok(1) t(1)] by blast
      moreover have "rl_seq m < rl_seq ?n" using next_row_above(2) [OF nx, of m] calculation True t(3) by (simp add: newest_def)
      ultimately show ?thesis using t(4) True by force
    next
      case False
      then have "n \<in> cores d" using t(2) by (auto simp: newest_def)
      then show ?thesis using newest_insert(2) [OF nx] t(2-4) by blast
    qed
    then show ?thesis using kept_okD [OF assms(4) t(1)] reached_insert(1) [OF nx t(1)] co by auto
  qed
  moreover have old: "rl_id r \<noteq> i" if "r \<in> cores d" for r using next_row_above(1) [OF nx that] by simp
  moreover have "distinct (map rl_id (po_releases d'))"
  proof -
    have "map rl_id (po_releases d') = i # map rl_id (po_releases d)" using assms(1)
      by (auto simp: membershipBatch_def Let_def newRelease_def writeCheckpoint_def setRelease_def sql_update_def)
    moreover have "i \<notin> set (map rl_id (po_releases d))" using old by (force simp: cores_def)
    ultimately show ?thesis using assms(4) by (simp add: kept_ok_def)
  qed
  ultimately show ?thesis unfolding kept_ok_def co pr by auto
qed

lemma kept_batch:
  assumes "releaseBatch p d = (Inr i, d')" "pool_ok d s" "planned d p" "kept_ok K d s"
  shows "kept_ok K d' (s(i := set (targetOf d p)))"
proof -
  define e where "e = membershipBatch p d"
  have e: "membershipBatch p d = (fst e, snd e)" by (simp add: e_def)
  define d2 where "d2 = (snd e)\<lparr>po_objects := sql_update (\<lambda>x. ob_id x \<in> set (pn_added p)) (\<lambda>x. x\<lparr>ob_released := True\<rparr>) (po_objects (snd e))\<rparr>"
  define d3 where "d3 = (case pn_parent p of Some q \<Rightarrow> d2\<lparr>po_artifacts := insertArtifacts (carriedArtifacts d2 (fst e) q (pn_unchanged p)) (po_artifacts d2)\<rparr> | None \<Rightarrow> d2)"
  have out: "i = fst e" "d' = snd (releaseSources i (snd (releaseSummary i d3)))"
    using assms(1) by (cases "pn_parent p"; auto simp: releaseBatch_def Let_def e_def d2_def d3_def case_prod_unfold split: if_splits)+
  have "map ob_id (po_objects d2) = map ob_id (po_objects (snd e))" by (simp add: d2_def sql_update_def comp_def if_distrib cong: if_cong)
  then have "ob_id ` set (po_objects d2) = ob_id ` set (po_objects (snd e))" by (metis set_map)
  then have "grows (snd e) d2" by (intro grows_same) (simp_all add: d2_def present_def)
  moreover have "grows d2 d3" by (rule grows_same) (auto simp: d3_def present_def split: option.split)
  ultimately have "grows (snd e) d'" unfolding out(2) using grows_summary grows_sources by (metis grows_trans)
  moreover have "rows_ok (cores (snd e))" using pool_okD(1) [OF membership_ok [OF e assms(2,3)]] .
  ultimately show ?thesis using kept_ok_grows [OF kept_membership [OF e assms(2-4)]] out(1) by simp
qed

lemma grows_plan: "planRelease b d = (x, d1) \<Longrightarrow> grows d d1"
proof -
  have "grows d (snd (baseOf src parent g only d))" for src parent g only
    using grows_ensure [of d "rl_id (the src)"] by (auto simp: baseOf_def Let_def split: option.split prod.split sum.split)
  then show "planRelease b d = (x, d1) \<Longrightarrow> grows d d1"
    unfolding planRelease_def Let_def by (auto split: option.splits sum.splits if_splits prod.splits) (metis snd_conv)+
qed

subsection \<open>A collection told to keep as many\<close>

text \<open>A package a release held and the newest does not was dropped by one in between.\<close>

lemma dropped_between:
  assumes "rows_ok R" "r \<in> R" "n \<in> R" "rl_ring n = rl_ring r" "rl_seq r \<le> rl_seq n" "x \<in> s (rl_id r)" "x \<notin> s (rl_id n)"
  shows "\<exists>q \<in> R. \<exists>p. rl_ring q = rl_ring r \<and> rl_seq r < rl_seq q \<and> rl_parent q = Some p \<and> x \<in> s p \<and> x \<notin> s (rl_id q)"
  using assms(3-5,7)
proof (induction "nat (rl_seq n - rl_seq r)" arbitrary: n)
  case 0
  then have "n = r" using rows_okD(4) [OF assms(1,2), of n] by simp
  then show ?case using 0 assms(6) by simp
next
  case (Suc k)
  then have less: "rl_seq r < rl_seq n" by linarith
  then have "rl_seq n \<noteq> 1" using rows_okD(1) [OF assms(1,2)] by linarith
  then obtain m where m: "m \<in> R" "rl_ring m = rl_ring n" "rl_seq m = rl_seq n - 1" "rl_parent n = Some (rl_id m)"
    using assms(1) Suc.prems(1) unfolding rows_ok_def by metis
  show ?case
  proof (cases "x \<in> s (rl_id m)")
    case True
    then show ?thesis using Suc.prems less m(4) by (intro bexI [of _ n] exI [of _ "rl_id m"]) simp_all
  next
    case False
    have "k = nat (rl_seq m - rl_seq r)" using Suc.hyps(2) m(3) by simp
    from Suc.hyps(1) [OF this m(1)] show ?thesis using False m(2,3) Suc.prems(2) less by simp
  qed
qed

lemma distinct_seqs:
  assumes "rows_ok (cores d)" "distinct (map rl_id (po_releases d))"
  shows "distinct (map rl_seq (releasesOf d g))"
proof -
  have "distinct (releasesOf d g)" using assms(2) by (simp add: releasesOf_def distinct_map)
  moreover have "inj_on rl_seq (set (releasesOf d g))"
  proof (rule inj_onI)
    fix a b assume ab: "a \<in> set (releasesOf d g)" "b \<in> set (releasesOf d g)" "rl_seq a = rl_seq b"
    then have "release_core.truncate a = release_core.truncate b"
      using rows_okD(4) [OF assms(1), of "release_core.truncate b" "release_core.truncate a"] by (auto simp: cores_def set_releasesOf)
    then have "rl_id a = rl_id b" by (metis truncate_sel(1))
    then show "a = b" using ab assms(2) by (auto simp: set_releasesOf distinct_map inj_on_def)
  qed
  ultimately show ?thesis by (simp add: distinct_map)
qed

lemma window_protected:
  assumes "rows_ok (cores d)" "distinct (map rl_id (po_releases d))" "r \<in> cores d" "newest (cores d) n" "rl_ring n = rl_ring r" "rl_seq n < rl_seq r + int k"
  shows "rl_seq (last (protectedOf d k (rl_ring r))) \<le> rl_seq r" "protectedOf d k (rl_ring r) \<noteq> []"
proof -
  let ?rel = "releasesOf d (rl_ring r)"
  obtain q where q: "q \<in> set ?rel" "release_core.truncate q = r" using assms(3) by (auto simp: cores_def set_releasesOf)
  have le: "rl_seq r \<le> rl_seq n" using assms(3-5) by (auto simp: newest_def)
  then have k: "1 \<le> k" using assms(6) by simp
  show ne: "protectedOf d k (rl_ring r) \<noteq> []" by (rule protected_some [OF k, of q]) (use q in \<open>auto simp: set_releasesOf\<close>)
  show "rl_seq (last (protectedOf d k (rl_ring r))) \<le> rl_seq r"
  proof (rule ccontr)
    assume "\<not> rl_seq (last (protectedOf d k (rl_ring r))) \<le> rl_seq r"
    then have above: "rl_seq r < rl_seq p" if "p \<in> set (take k ?rel)" for p using falling_last [OF protected_sorted, of p] protected_take that by fastforce
    have "q \<notin> set (take k ?rel)"
    proof
      assume "q \<in> set (take k ?rel)"
      from above [OF this] show False using q(2) by auto
    qed
    then have "k < length ?rel" using q(1) by (metis not_less take_all)
    then have len: "length (take k ?rel) = k" by simp
    have "card (rl_seq ` set (take k ?rel)) = k" using distinct_seqs [OF assms(1,2), of "rl_ring r"] len
      by (metis distinct_card distinct_take length_map set_map take_map)
    moreover have "rl_seq ` set (take k ?rel) \<subseteq> {rl_seq r <.. rl_seq n}"
    proof
      fix v assume "v \<in> rl_seq ` set (take k ?rel)"
      then obtain p where p: "p \<in> set (take k ?rel)" "v = rl_seq p" by auto
      then have "p \<in> set (po_releases d)" "rl_ring p = rl_ring r" using in_set_takeD [OF p(1)] by (auto simp: set_releasesOf)
      then have "rl_seq p \<le> rl_seq n" using assms(4,5) by (force simp: newest_def cores_def)
      then show "v \<in> {rl_seq r <.. rl_seq n}" using above [OF p(1)] p(2) by simp
    qed
    ultimately have "k \<le> card {rl_seq r <.. rl_seq n}" by (metis card_mono finite_greaterThanAtMost_int)
    then show False using assms(6) le by simp
  qed
qed

lemma present_collect: "present (fold collectOne xs d) \<supseteq> present d - ob_id ` set xs"
proof (induction xs arbitrary: d)
  case (Cons x xs)
  have "present d - {ob_id x} \<subseteq> present (collectOne x d)" by (auto simp: present_def collectOne_frame)
  then show ?case using Cons.IH [of "collectOne x d"] by auto
qed simp

lemma cores_collect: "cores (fold collectOne xs d) = cores d" "map rl_id (po_releases (fold collectOne xs d)) = map rl_id (po_releases d)"
  by (induction xs arbitrary: d) (simp_all add: cores_def collectOne_frame)

text \<open>No victim is a package that one of the last releases held.\<close>

lemma window_no_victim:
  assumes "pool_ok d s" "r \<in> cores d" "reached (cores d) r" "protectedOf d k (rl_ring r) \<noteq> []" "rl_seq (last (protectedOf d k (rl_ring r))) \<le> rl_seq r"
    "v \<in> set (unreferenced k grace now d)"
  shows "ob_id v \<notin> s (rl_id r)"
proof
  assume x: "ob_id v \<in> s (rl_id r)"
  note ok = pool_okD [OF assms(1)]
  obtain n where n: "newest (cores d) n" "rl_ring n = rl_ring r" using newest_exists [OF ok(1) assms(2)] by blast
  have nn: "n \<in> cores d" "rl_seq r \<le> rl_seq n" using n assms(2) by (auto simp: newest_def)
  have "ob_id v \<notin> set (ringMembers d (rl_ring n))" using victims_free(2) [OF assms(6)] by (force simp: set_ringMembers)
  then have "ob_id v \<notin> s (rl_id n)" using head_serves [OF assms(1) _ n(1)] n(1) by (auto simp: newest_def)
  then obtain q p where q: "q \<in> cores d" "rl_ring q = rl_ring r" "rl_seq r < rl_seq q" "rl_parent q = Some p" "ob_id v \<in> s p" "ob_id v \<notin> s (rl_id q)"
    using dropped_between [OF ok(1) assms(2) nn(1) n(2) nn(2), of "ob_id v" s] x by blast
  have "below (cores d) q" using assms(3) q(2,3) by (force simp: below_def reached_def)
  then have "ob_id v \<in> snd (deltaSets (deltasOf d (rl_id q)))" using ok(6) q unfolding deltas_ok_def by (simp add: diffOf_def)
  then obtain dl where dl: "dl \<in> set (po_deltas d)" "dl_release dl = rl_id q" "dl_package dl = ob_id v" by (auto simp: deltaSets_def deltasOf_def)
  obtain w where w: "w \<in> set (protectedOf d k (rl_ring r))" "release_core.truncate w = q" using protected_above [OF ok(1) assms(4) q(1,2)] assms(5) q(3) by auto
  then have "rl_id q = rl_id w" by auto
  moreover have "rl_ring r \<in> set RINGS" by (cases "rl_ring r") (simp_all add: RINGS_def)
  ultimately have "dl_release dl \<in> set (rt_protected (retention k d))" using w(1) dl(2) by (auto simp: retention_def)
  then show False using victims_free(4) [OF assms(6) dl(1)] dl(3) by simp
qed

lemma kept_gc:
  assumes "pool_ok d s" "kept_ok K d s" "K \<le> max 1 keep"
  shows "kept_ok K (handleGc keep limit grace now d) s"
proof -
  note ok = pool_okD [OF assms(1)]
  let ?k = "max 1 keep"
  let ?F = "floorSeq d ?k"
  let ?d = "handleGc keep limit grace now d"
  let ?vs = "take (min limit 500) (unreferenced ?k grace now d)"
  have co: "cores ?d = unmark ?F ` cores d" unfolding gc_shape cores_collect using cores_prune [OF ok(1)] pruned_frame(10) by simp
  have pr: "present d - ob_id ` set ?vs \<subseteq> present ?d" unfolding gc_shape using present_collect [of "pruned ?k d" ?vs] by (simp add: present_def pruned_frame)
  have ids: "map rl_id (po_releases ?d) = map rl_id (po_releases d)"
    unfolding gc_shape cores_collect by (simp add: pruned_def fold_pruneDeltas pruneCheckpoints_def sql_update_def comp_def if_distrib cong: if_cong)
  have dis: "distinct (map rl_id (po_releases d))" using assms(2) by (simp add: kept_ok_def)
  have each: "reached (cores ?d) (unmark ?F r) \<and> s (rl_id r) \<subseteq> present ?d"
    if "r \<in> cores d" "newest (cores d) n" "rl_ring n = rl_ring r" "rl_seq n < rl_seq r + int K" for r n
  proof
    note t = that
    note ko = kept_okD [OF assms(2) t]
    have "rl_seq n < rl_seq r + int ?k" using t(4) assms(3) by linarith
    note wp = window_protected [OF ok(1) dis t(1-3) this]
    have "?F (rl_ring r) \<le> rl_seq r"
      using wp(1) base_row(4) [of d ?k "rl_ring r"] rows_okD(1) [OF ok(1) t(1)] by (force simp: floorSeq_def split: option.split)
    moreover have "near (cores d) r" using ko(1) ok(2) t(1) by (simp add: checkpoints_ok_def)
    ultimately have "near (cores ?d) r" unfolding co by (intro unmark_near floorSeq_ok ok(1))
    then show "reached (cores ?d) (unmark ?F r)" using near_reached same_place [of "unmark ?F r" r "cores ?d"] by (simp add: marks_sel [OF unmark_marks])
    have "ob_id v \<notin> s (rl_id r)" if "v \<in> set ?vs" for v
      by (rule window_no_victim [OF assms(1) t(1) ko(1) wp(2,1) in_set_takeD [OF that]])
    then show "s (rl_id r) \<subseteq> present ?d" using pr ko(2) by blast
  qed
  have nw: "newest (cores ?d) (unmark ?F n) \<longleftrightarrow> newest (cores d) n" if "n \<in> cores d" for n unfolding co by (rule newest_marks [OF unmark_marks ok(1) that])
  have tops: "\<exists>q \<in> cores d. c = unmark ?F q" if "c \<in> cores ?d" for c using that co by auto
  have heads: "newest (cores ?d) c \<Longrightarrow> c \<in> cores ?d" for c by (simp add: newest_def)
  show ?thesis unfolding kept_ok_def ids
  proof (intro conjI ballI allI impI)
    fix c n assume c: "c \<in> cores ?d" "newest (cores ?d) n" "rl_ring n = rl_ring c" "rl_seq n < rl_seq c + int K"
    obtain r m where r: "r \<in> cores d" "c = unmark ?F r" "m \<in> cores d" "n = unmark ?F m" using tops [OF c(1)] tops [OF heads [OF c(2)]] by blast
    have "newest (cores d) m" "rl_ring m = rl_ring r" "rl_seq m < rl_seq r + int K" using c r nw [OF r(3)] by (simp_all add: marks_sel [OF unmark_marks])
    from each [OF r(1) this] show "reached (cores ?d) c" "s (rl_id c) \<subseteq> present ?d" using r(2) by (simp_all add: marks_sel [OF unmark_marks])
  qed (rule dis)
qed

end
