(* ===== verification/Pool_Release_Machine.thy ===== *)
theory Pool_Release_Machine
  imports Pool_Release_Keep
begin

text \<open>
  The bucket behind the index, and every sequence of requests on an empty pool: uploads, packages indexed, releases made and refused, releases read,
  databases rendered, collections. A request is one step, with what each release held when it was made beside the tables.
\<close>

subsection \<open>The bucket\<close>

text \<open>A row's key is that of its source, architecture and name.\<close>

definition keyed :: "pool_object \<Rightarrow> bool" where
  "keyed x \<longleftrightarrow> ob_key x = Some (packageKey (ob_source x) (ob_arch x) (ob_filename x)) \<and> ob_source x \<in> set SOURCES \<and> isRepoArch (ob_arch x)"

definition bucket_ok :: "pool \<Rightarrow> bool" where
  "bucket_ok d \<longleftrightarrow> (\<forall>x \<in> set (po_objects d). keyed x \<and> (FILENAME_RE (ob_filename x) \<longrightarrow> keyOf x \<in> fst ` set (po_bucket d)))"

lemma split_slash:
  assumes "c \<notin> set xs" "c \<notin> set ys" "xs @ c # us = ys @ c # vs"
  shows "xs = ys \<and> us = vs"
  using assms
proof (induction xs arbitrary: ys)
  case Nil
  then show ?case by (cases ys) auto
next
  case (Cons x xs)
  then show ?case by (cases ys) auto
qed

lemma key_filename:
  assumes "packageKey s a f = packageKey s' a' f'" "s \<in> set SOURCES" "s' \<in> set SOURCES" "isRepoArch a" "isRepoArch a'"
  shows "f = f'"
proof -
  have s: "CHR ''/'' \<notin> set t" if "t \<in> set SOURCES" for t using that by (auto simp: SOURCES_def)
  have a: "CHR ''/'' \<notin> set t" if "isRepoArch t" for t using that by (auto simp: isRepoArch_def REPO_ARCHES_def)
  have "a @ CHR ''/'' # f = a' @ CHR ''/'' # f'" using split_slash [OF s [OF assms(2)] s [OF assms(3)]] assms(1) by (simp add: packageKey_def)
  then show ?thesis using split_slash [OF a [OF assms(4)] a [OF assms(5)]] by simp
qed

lemma filename_last:
  assumes "FILENAME_RE f"
  shows "f \<noteq> []" "last f \<in> set ''tz''"
proof -
  obtain sfx where "sfx \<in> set (concat (map (\<lambda>a. map (\<lambda>e. ''-'' @ a @ ''.pkg.tar.'' @ e) [''zst'', ''xz'']) [''x86_64'', ''aarch64'', ''any'']))" "ends_with sfx f"
    using assms unfolding FILENAME_RE_def list_ex_iff by blast
  then have "sfx \<noteq> []" "last sfx \<in> set ''tz''" "\<exists>n. drop n f = sfx" by (auto simp: ends_with_def)
  then show "f \<noteq> []" "last f \<in> set ''tz''" by (auto simp: last_drop)
qed

lemma object_keys:
  assumes "k' \<in> set (objectKeys k)" "last k' \<in> set ''tz''"
  shows "k' = k"
  using assms by (auto simp: objectKeys_def)

lemma keyed_same: "keyed x \<Longrightarrow> keyed y \<Longrightarrow> keyOf y = keyOf x \<Longrightarrow> ob_filename y = ob_filename x"
  using key_filename [of "ob_source y" "ob_arch y" "ob_filename y" "ob_source x" "ob_arch x" "ob_filename x"] by (simp add: keyed_def keyOf_def)

lemma keyOf_package: "keyed x \<Longrightarrow> FILENAME_RE (ob_filename x) \<Longrightarrow> last (keyOf x) \<in> set ''tz''"
  using filename_last [of "ob_filename x"] by (auto simp: keyed_def keyOf_def packageKey_def)

lemma bucket_collect:
  assumes "bucket_ok d" "keyed x"
  shows "bucket_ok (collectOne x d)"
proof -
  have "keyOf y \<in> fst ` set (po_bucket (collectOne x d))"
    if "y \<in> set (po_objects (collectOne x d))" "FILENAME_RE (ob_filename y)" for y
  proof (cases "servedNow d (ob_id x) \<or> sharedKey d x \<or> starts_with ''ghost/'' (keyOf x)")
    case True
    have "y \<in> set (po_objects d)" using that(1) by (auto simp: collectOne_frame split: if_splits)
    moreover have "po_bucket (collectOne x d) = po_bucket d" using True by (auto simp: collectOne_def Let_def)
    ultimately show ?thesis using assms(1) that(2) by (simp add: bucket_ok_def)
  next
    case False
    have y: "y \<in> set (po_objects d)" "ob_id y \<noteq> ob_id x" using that(1) False by (auto simp: collectOne_frame)
    have "keyOf y \<notin> set (objectKeys (keyOf x))"
    proof
      assume "keyOf y \<in> set (objectKeys (keyOf x))"
      then have eq: "keyOf y = keyOf x" by (rule object_keys) (use keyOf_package [of y] assms(1) y(1) that(2) in \<open>simp add: bucket_ok_def\<close>)
      then have "ob_filename y = ob_filename x" by (intro keyed_same [OF assms(2)]) (use assms(1) y(1) in \<open>simp_all add: bucket_ok_def\<close>)
      then have "sharedKey d x" using y eq by (auto simp: sharedKey_def list_ex_iff)
      then show False using False by simp
    qed
    moreover have "po_bucket (collectOne x d) = filter (\<lambda>b. fst b \<notin> set (objectKeys (keyOf x))) (po_bucket d)" using False by (simp add: collectOne_def Let_def)
    moreover have "keyOf y \<in> fst ` set (po_bucket d)" using assms(1) y(1) that(2) by (simp add: bucket_ok_def)
    ultimately show ?thesis by (auto simp: image_iff)
  qed
  moreover have "set (po_objects (collectOne x d)) \<subseteq> set (po_objects d)" by (auto simp: collectOne_frame)
  ultimately show ?thesis using assms(1) unfolding bucket_ok_def by blast
qed

lemma bucket_collects: "bucket_ok d \<Longrightarrow> (\<And>x. x \<in> set xs \<Longrightarrow> keyed x) \<Longrightarrow> bucket_ok (fold collectOne xs d)"
  by (induction xs arbitrary: d) (simp_all add: bucket_collect)

lemma bucket_gc: "bucket_ok d \<Longrightarrow> bucket_ok (handleGc keep limit grace now d)"
proof -
  assume ok: "bucket_ok d"
  then have "bucket_ok (pruned k d)" for k by (simp add: bucket_ok_def pruned_frame)
  moreover have "keyed x" if "x \<in> set (take n (unreferenced k grace now d))" for x n k
    using victims_free(1) [OF in_set_takeD [OF that]] ok by (simp add: bucket_ok_def)
  ultimately show "bucket_ok (handleGc keep limit grace now d)" unfolding gc_shape by (intro bucket_collects)
qed

lemma bucket_ok_tags:
  assumes "bucket_ok d" "map objectTag (po_objects d') = map objectTag (po_objects d)" "fst ` set (po_bucket d) \<subseteq> fst ` set (po_bucket d')"
  shows "bucket_ok d'"
  unfolding bucket_ok_def
proof
  fix y assume "y \<in> set (po_objects d')"
  then have "objectTag y \<in> set (map objectTag (po_objects d'))" by simp
  then obtain x where x: "x \<in> set (po_objects d)" "objectTag y = objectTag x" unfolding assms(2) by auto
  then have "keyed y = keyed x" "keyOf y = keyOf x" "ob_filename y = ob_filename x" by (simp_all add: keyed_def keyOf_def objectTag_def)
  then show "keyed y \<and> (FILENAME_RE (ob_filename y) \<longrightarrow> keyOf y \<in> fst ` set (po_bucket d'))"
    using assms(1,3) x(1) unfolding bucket_ok_def by (metis subsetD)
qed

lemma bucket_post:
  assumes "bucket_ok d" "handlePostPackage src ar m now d = (res, d')"
  shows "bucket_ok d'"
proof -
  have "d' = d \<or> (\<exists>i. d' = d\<lparr>po_objects := newObject i src ar m now # po_objects d, po_last_object := i\<rparr> \<and> src \<in> set SOURCES \<and> isRepoArch ar
    \<and> packageKey src ar (mf_filename m) \<in> fst ` set (po_bucket d))"
    using assms(2) map_of_SomeD [of "po_bucket d" "packageKey src ar (mf_filename m)"]
    by (force simp: handlePostPackage_def Let_def split: if_splits option.splits)
  then show ?thesis
  proof (elim disjE exE conjE)
    fix i assume d': "d' = d\<lparr>po_objects := newObject i src ar m now # po_objects d, po_last_object := i\<rparr>"
      and h: "src \<in> set SOURCES" "isRepoArch ar" "packageKey src ar (mf_filename m) \<in> fst ` set (po_bucket d)"
    have "keyed (newObject i src ar m now)" "keyOf (newObject i src ar m now) = packageKey src ar (mf_filename m)"
      using h by (simp_all add: keyed_def keyOf_def newObject_def)
    then show "bucket_ok d'" using assms(1) h(3) unfolding bucket_ok_def d' by simp
  qed (use assms(1) in simp)
qed

subsection \<open>Sequences of requests\<close>

definition emptyPool :: pool where
  "emptyPool = \<lparr>po_objects = [], po_last_object = 0, po_releases = [], po_last_release = 0, po_members = [], po_deltas = [], po_live = [], po_heads = [],
     po_artifacts = [], po_bucket = []\<rparr>"

definition holdsNothing :: "int \<Rightarrow> int set" where
  "holdsNothing i = {}"

text \<open>\<open>K\<close>: the fewest releases a ring keeps that any collection of the sequence was told. \<open>s\<close>: what the ring served the moment a release was made.\<close>

inductive pool_run :: "nat \<Rightarrow> pool \<Rightarrow> (int \<Rightarrow> int set) \<Rightarrow> bool" where
  empty: "pool_run K emptyPool holdsNothing"
| upload: "pool_run K d s \<Longrightarrow> handlePutPool src ar file n d = (res1, d') \<Longrightarrow> pool_run K d' s"
| index: "pool_run K d s \<Longrightarrow> handlePostPackage src ar m now d = (res2, d') \<Longrightarrow> pool_run K d' s"
| made: "pool_run K d s \<Longrightarrow> handleCreateRelease b d = (Inr (i, same), d') \<Longrightarrow> ringOfName (ck_ring b) = Some g
    \<Longrightarrow> pool_run K d' (s(i := set (ringMembers d' g)))"
| refused: "pool_run K d s \<Longrightarrow> handleCreateRelease b d = (Inl e, d') \<Longrightarrow> pool_run K d' s"
| read: "pool_run K d s \<Longrightarrow> releaseMembers i d = (res3, d') \<Longrightarrow> pool_run K d' s"
| summary: "pool_run K d s \<Longrightarrow> releaseSummary i d = (res4, d') \<Longrightarrow> pool_run K d' s"
| slices: "pool_run K d s \<Longrightarrow> releaseSources i d = (res5, d') \<Longrightarrow> pool_run K d' s"
| collect: "pool_run K d s \<Longrightarrow> K \<le> max 1 keep \<Longrightarrow> pool_run K (handleGc keep limit grace now d) s"
| artifact: "pool_run K d s \<Longrightarrow> handlePutArtifact i kind repo ar n signing d = (res6, d') \<Longrightarrow> pool_run K d' s"
| rendered: "pool_run K d s \<Longrightarrow> pool_run K (handleRendered i ar d) s"

definition machine_ok :: "nat \<Rightarrow> pool \<Rightarrow> (int \<Rightarrow> int set) \<Rightarrow> bool" where
  "machine_ok K d s \<longleftrightarrow> pool_ok d s \<and> kept_ok K d s \<and> bucket_ok d"

lemma machine_cong:
  assumes "machine_ok K d s" "po_objects d' = po_objects d" "po_last_object d' = po_last_object d" "po_releases d' = po_releases d" "po_last_release d' = po_last_release d"
    "po_members d' = po_members d" "po_deltas d' = po_deltas d" "po_live d' = po_live d" "po_heads d' = po_heads d" "fst ` set (po_bucket d) \<subseteq> fst ` set (po_bucket d')"
  shows "machine_ok K d' s"
proof -
  have m: "pool_ok d s" "kept_ok K d s" "bucket_ok d" using assms(1) by (simp_all add: machine_ok_def)
  have pr: "present d' = present d" by (simp add: present_def assms(2))
  have "objects_ok d'" using pool_okD(7) [OF m(1)] assms(2,3,6,8) pr by (simp add: objects_ok_def)
  moreover have "cores d' = cores d" by (simp add: cores_def assms(4))
  ultimately have "pool_ok d' s" by (intro pool_ok_cong [OF m(1) _ assms(6-9,5)])
  moreover have "kept_ok K d' s" by (rule kept_ok_grows [OF m(2) grows_same]) (use assms(4) pr pool_okD(1) [OF m(1)] in simp_all)
  moreover have "bucket_ok d'" by (rule bucket_ok_tags [OF m(3)]) (use assms(2,10) in simp_all)
  ultimately show ?thesis by (simp add: machine_ok_def)
qed

lemma machine_read:
  assumes "machine_ok K d s" "pool_ok d' s" "unread d d'" "grows d d'"
  shows "machine_ok K d' s"
  using assms kept_ok_grows [of K d s d'] bucket_ok_tags [of d d'] pool_okD(1) by (auto simp: machine_ok_def unread_def)

lemma machine_post:
  assumes "machine_ok K d s" "handlePostPackage src ar m now d = (res, d')"
  shows "machine_ok K d' s"
proof -
  have mo: "pool_ok d s" "kept_ok K d s" "bucket_ok d" using assms(1) by (simp_all add: machine_ok_def)
  have "d' = d \<or> d' = d\<lparr>po_objects := newObject (po_last_object d + 1) src ar m now # po_objects d, po_last_object := po_last_object d + 1\<rparr>"
    using assms(2) by (auto simp: handlePostPackage_def Let_def split: if_splits option.splits)
  then show ?thesis
  proof
    assume d': "d' = d\<lparr>po_objects := newObject (po_last_object d + 1) src ar m now # po_objects d, po_last_object := po_last_object d + 1\<rparr>"
    have pr: "present d \<subseteq> present d'" by (auto simp: present_def d')
    have co: "cores d' = cores d" by (simp add: cores_def d')
    have "objects_ok d'" using pool_okD(7) [OF mo(1)] pr by (force simp: objects_ok_def d' newObject_def)
    then have "pool_ok d' s" by (intro pool_ok_cong [OF mo(1) co]) (simp_all add: d')
    moreover have "kept_ok K d' s" using mo(2) pr unfolding kept_ok_def co by (auto simp: d')
    ultimately show ?thesis using bucket_post [OF mo(3) assms(2)] by (simp add: machine_ok_def)
  qed (use assms(1) in simp)
qed

lemma machine_made:
  assumes "machine_ok K d s" "handleCreateRelease b d = (Inr (i, same), d')" "ringOfName (ck_ring b) = Some g"
  shows "machine_ok K d' (s(i := set (ringMembers d' g)))"
proof (rule create_made [OF assms(2)])
  show "pool_ok d s" using assms(1) by (simp add: machine_ok_def)
  fix p d1 assume p: "planRelease b d = (Inr p, d1)" "releaseBatch p d1 = (Inr i, d')" "pool_ok d' (s(i := set (ringMembers d' (pn_ring p))))"
    "set (ringMembers d' (pn_ring p)) = set (targetOf d1 p)"
  have mo: "pool_ok d s" "kept_ok K d s" "bucket_ok d" using assms(1) by (simp_all add: machine_ok_def)
  have g: "pn_ring p = g" using assms(3) p(1) by (auto elim!: plan_parts)
  note pl = plan_ok [OF p(1) mo(1)]
  have "kept_ok K d1 s" by (rule kept_ok_grows [OF mo(2) grows_plan [OF p(1)] pool_okD(1) [OF mo(1)]])
  from kept_batch [OF p(2) pl(1,3) this] have "kept_ok K d' (s(i := set (ringMembers d' g)))" using p(4) g by simp
  moreover have "bucket_ok d'" by (rule bucket_ok_tags [OF mo(3)]) (use batch_ok(5,6) [OF p(2) pl(1,3)] pl(2) in \<open>simp_all add: unread_def\<close>)
  ultimately show ?thesis using p(3) g by (simp add: machine_ok_def)
qed

lemma machine_gc: "machine_ok K d s \<Longrightarrow> K \<le> max 1 keep \<Longrightarrow> machine_ok K (handleGc keep limit grace now d) s"
  by (simp add: machine_ok_def gc_ok kept_gc bucket_gc)

lemma putBucket_grows: "fst ` set (po_bucket d) \<subseteq> fst ` set (po_bucket (putBucket k n d))"
  by (force simp: putBucket_def)

text \<open>A step on the databases alone.\<close>

definition renders :: "pool \<Rightarrow> pool \<Rightarrow> bool" where
  "renders d e \<longleftrightarrow> po_objects e = po_objects d \<and> po_last_object e = po_last_object d \<and> po_releases e = po_releases d \<and> po_last_release e = po_last_release d
     \<and> po_members e = po_members d \<and> po_deltas e = po_deltas d \<and> po_live e = po_live d \<and> po_heads e = po_heads d \<and> fst ` set (po_bucket d) \<subseteq> fst ` set (po_bucket e)"

lemma renders_refl [simp]: "renders d d"
  by (simp add: renders_def)

lemma renders_artifacts [simp]: "renders d e \<Longrightarrow> renders d (e\<lparr>po_artifacts := as\<rparr>)"
  by (simp add: renders_def)

lemma renders_spread [simp]: "renders d e \<Longrightarrow> renders d (spreadArtifact e x w)"
  by (simp add: spreadArtifact_def Let_def)

lemma renders_put [simp]: "renders d e \<Longrightarrow> renders d (putBucket k n e)"
  using putBucket_grows [of e k n] by (auto simp: renders_def putBucket_def)

lemma machine_renders: "machine_ok K d s \<Longrightarrow> renders d e \<Longrightarrow> machine_ok K e s"
  unfolding renders_def by (elim conjE) (rule machine_cong)

lemma renders_artifact: "renders d (snd (handlePutArtifact i kind repo ar n signing d))"
  by (simp add: handlePutArtifact_def Let_def split: option.split)

lemma machine_invariant: "pool_run K d s \<Longrightarrow> machine_ok K d s"
proof (induction rule: pool_run.induct)
  case (empty K)
  have "cores emptyPool = {}" by (simp add: cores_def emptyPool_def)
  then show ?case by (simp add: machine_ok_def pool_ok_def rows_ok_def checkpoints_ok_def heads_ok_def members_ok_def live_ok_def deltas_ok_def objects_ok_def kept_ok_def
      bucket_ok_def newest_def)
    (simp add: emptyPool_def ringMembers_def)
next
  case (upload K d s src ar fl n res1 d')
  then show ?case by (intro machine_cong [OF upload.IH]) (auto simp: handlePutPool_def Let_def split: option.splits)
next
  case (index K d s src ar m now res2 d')
  then show ?case by (simp add: machine_post)
next
  case (made K d s b i same d' g)
  show ?case by (rule machine_made [OF made.IH made.hyps(2,3)])
next
  case (refused K d s b e d')
  have ok: "pool_ok d s" using refused.IH by (simp add: machine_ok_def)
  obtain x d1 where pl: "planRelease b d = (x, d1)" by (cases "planRelease b d")
  have "d' = d1" using refused.hyps(2) pl by (cases x) (auto simp: handleCreateRelease_def releaseBatch_def Let_def split: prod.splits if_splits)
  then show ?case using machine_read [OF refused.IH create_refused [OF refused.hyps(2) ok]] grows_plan [OF pl] by simp
next
  case (read K d s i res3 d')
  then show ?case using members_ok_read [of d s i] unread_members [of d i] grows_members [of d i] machine_read [OF read.IH, of d'] by (simp add: machine_ok_def)
next
  case (summary K d s i res4 d')
  then show ?case using summary_read [of d s i] grows_summary [of d i] machine_read [OF summary.IH, of d'] by (simp add: machine_ok_def)
next
  case (slices K d s i res5 d')
  then show ?case using sources_read [of d s i] grows_sources [of d i] machine_read [OF slices.IH, of d'] by (simp add: machine_ok_def)
next
  case (collect K d s keep limit grace now)
  then show ?case by (simp add: machine_gc)
next
  case (artifact K d s i kind repo ar n signing res6 d')
  show ?case by (rule machine_renders [OF artifact.IH]) (use renders_artifact artifact.hyps(2) in \<open>metis snd_conv\<close>)
next
  case (rendered K d s i ar)
  show ?case by (rule machine_renders [OF rendered.IH]) (simp add: handleRendered_def Let_def)
qed

end
