(* ===== verification/Pool_Release_Props.thy ===== *)
theory Pool_Release_Props
  imports Pool_Release_Machine
begin

text \<open>
  What the releases of a ring promise, after any sequence of requests: a release is read as it was made, the last ones can be read and rolled back
  to however often the collector ran, the walk to a checkpoint is short, an architecture a request does not touch keeps its packages, a package
  pulled is served nowhere, and what a ring serves is in the bucket.
\<close>

subsection \<open>What an invariant gives each read\<close>

lemma runD:
  assumes "pool_run K d s"
  shows "pool_ok d s" "kept_ok K d s" "bucket_ok d"
  using machine_invariant [OF assms] by (simp_all add: machine_ok_def)

lemma members_exact:
  assumes "pool_ok d s" "releaseMembers i d = (Inr ids, d')"
  shows "set ids = s i" "s i \<subseteq> present d"
proof -
  have "set ids = s i \<and> s i \<subseteq> present d"
  proof (cases "headRing d i")
    case (Some g)
    then have ids: "ids = ringMembers d g" using assms(2) by (auto simp: releaseMembers_def)
    obtain h where "h \<in> set (po_heads d)" "snd h = i" "fst h = g" using Some by (auto simp: headRing_def dest: find_someD)
    moreover have "distinct (map fst (po_heads d))" using pool_okD(3) [OF assms(1)] by (simp add: heads_ok_def)
    ultimately have "map_of (po_heads d) g = Some i" by (metis map_of_is_SomeI prod.collapse)
    then have "set (ringMembers d g) = s i" using pool_okD(5) [OF assms(1)] by (simp add: live_ok_def)
    then show ?thesis using ids live_present [OF assms(1), of g] by simp
  next
    case None
    obtain e d1 where ed: "ensureCheckpoint i d = (e, d1)" by (cases "ensureCheckpoint i d")
    then have "e = None" "ids = memberRows d1 i" using assms(2) None by (cases e; simp add: releaseMembers_def)+
    then show ?thesis using ensure_ok(2) [OF assms(1), of i] ed by simp
  qed
  then show "set ids = s i" "s i \<subseteq> present d" by auto
qed

text \<open>Among the last \<open>K\<close> of its ring.\<close>

lemma window:
  assumes "pool_ok d s" "kept_ok K d s" "releaseRow d i = Some r" "lastSeq (\<lambda>_. True) d (rl_ring r) < rl_seq r + int K"
  shows "release_core.truncate r \<in> cores d" "reached (cores d) (release_core.truncate r)" "s i \<subseteq> present d" "rl_id r = i"
proof -
  have r: "release_core.truncate r \<in> cores d" "rl_id r = i" using releaseRow_core [OF assms(3)] by auto
  obtain n where n: "newest (cores d) n" "rl_ring n = rl_ring r" using newest_exists [OF pool_okD(1) [OF assms(1)] r(1)] by auto
  then obtain q where q: "q \<in> set (po_releases d)" "release_core.truncate q = n" by (auto simp: newest_def cores_def)
  have "rl_seq n \<le> lastSeq (\<lambda>_. True) d (rl_ring r)" using lastSeq_ge [of q d "rl_ring r" "\<lambda>_. True"] q n(2) by auto
  then have "rl_seq n < rl_seq (release_core.truncate r) + int K" using assms(4) by simp
  from kept_okD [OF assms(2) r(1) n(1) _ this] show "reached (cores d) (release_core.truncate r)" "s i \<subseteq> present d" using n(2) r(2) by simp_all
  show "release_core.truncate r \<in> cores d" "rl_id r = i" by (fact r)+
qed

lemma ensure_succeeds:
  assumes "pool_ok d s" "releaseRow d i = Some r" "reached (cores d) (release_core.truncate r)" "s i \<subseteq> present d"
  shows "fst (ensureCheckpoint i d) = None"
proof (cases "rl_checkpoint r")
  case False
  have t: "release_core.truncate r \<in> cores d" "rl_id r = i" using releaseRow_core [OF assms(2)] by auto
  obtain ids where ids: "rebuildIds d r = Inr ids" "set ids = s i" "distinct ids"
    using rebuildIds_exact [OF assms(1) t(1)] assms(3) t(2) by (cases "rebuildIds d r") auto
  have "distinct (map ob_id (po_objects d))" using pool_okD(7) [OF assms(1)] by (simp add: objects_ok_def)
  then have "find (\<lambda>c. missingOf d c > 0) (chunks (CHUNK - 1) ids) = None" using chunks_present [of d ids] ids assms(4) by simp
  then show ?thesis using assms(2) False ids(1) by (simp add: ensureCheckpoint_def)
qed (simp add: ensureCheckpoint_def assms(2))

lemma members_succeed:
  assumes "pool_ok d s" "releaseRow d i = Some r" "reached (cores d) (release_core.truncate r)" "s i \<subseteq> present d"
  obtains ids d' where "releaseMembers i d = (Inr ids, d')"
proof (cases "headRing d i")
  case (Some g)
  then show ?thesis using that by (simp add: releaseMembers_def)
next
  case None
  obtain e d1 where ed: "ensureCheckpoint i d = (e, d1)" by (cases "ensureCheckpoint i d")
  then show ?thesis using that None ensure_succeeds [OF assms] by (simp add: releaseMembers_def)
qed

subsection \<open>What an invariant gives each release made\<close>

lemma batch_succeeds:
  assumes "planned d p"
  obtains i d' where "releaseBatch p d = (Inr i, d')"
proof -
  have "\<not> list_ex (\<lambda>r. rl_ring r = pn_ring p \<and> rl_seq r = pn_seq p) (po_releases d)"
    using assms lastSeq_ge [of _ d "pn_ring p" "\<lambda>_. True"] by (force simp: list_ex_iff planned_def)
  then have "\<exists>i. fst (releaseBatch p d) = Inr i" by (simp add: releaseBatch_def Let_def split: prod.split)
  then show thesis using that by (metis prod.collapse)
qed

lemma plan_succeeds:
  assumes "ringOfName (ck_ring b) = Some g" "sourceRelease b g d = Inr src" "baseOf src (ringHead d g) g (ck_arch b) d = (Inr base, d1)"
    "ck_add b = []" "ck_remove_arch b = None" "ck_arch b = None"
  obtains p where "planRelease b d = (Inr p, d1)" "pn_ring p = g" "pn_base p = base" "pn_added p = []" "pn_remove p = ck_remove b" "pn_remove_from p = ck_remove_from b"
    "pn_remove_arch p = None"
  using that assms unfolding planRelease_def Let_def by (simp add: addedIds_def uniq_def)

lemma set_targetOf: "set (targetOf d p) = {x \<in> set (baseRows (pn_base p) d). objectIs d (\<lambda>x. \<not> removedBy p x \<and> \<not> replacedBy d p x) x} \<union> set (pn_added p)"
  by (auto simp: targetOf_def)

lemma objectIs_True: "x \<in> present d \<Longrightarrow> objectIs d (\<lambda>_. True) x"
  using objectIs_not [of x d "\<lambda>_. False"] by (simp add: objectIs_def split: option.splits)

lemma added_none: "pn_added p = [] \<Longrightarrow> \<not> replacedBy d p x"
  by (simp add: replacedBy_def list_ex_iff)

lemma base_succeeds:
  assumes "pool_ok d s" "releaseRow d (rl_id r) = Some r" "reached (cores d) (release_core.truncate r)" "s (rl_id r) \<subseteq> present d"
  obtains base d1 where "baseOf (Some r) (ringHead d g) g None d = (Inr base, d1)"
proof (cases "map_option rl_id (ringHead d g) = Some (rl_id r)")
  case True
  then show thesis using that [of "LiveOf g" d] by (auto simp: baseOf_def)
next
  case False
  then have ne: "map_option rl_id (Some r) \<noteq> map_option rl_id (ringHead d g)" by (metis option.simps(9))
  obtain e d1 where ed: "ensureCheckpoint (rl_id r) d = (e, d1)" by (cases "ensureCheckpoint (rl_id r) d")
  have "e = None" using ensure_succeeds [OF assms] ed by simp
  then show thesis using that ne ed by (cases "headRing d (rl_id r)") (simp_all add: baseOf_def Let_def)
qed

subsection \<open>A pool of two packages\<close>

text \<open>Two packages uploaded and indexed, one per architecture; a first release of \<open>edge\<close> with both, a second without the first, and a collection.\<close>

definition shaOf :: "char \<Rightarrow> string" where
  "shaOf c = replicate 64 c"

definition manifestOf :: "char \<Rightarrow> string \<Rightarrow> manifest" where
  "manifestOf c fl = \<lparr>mf_sha = shaOf c, mf_name = [c], mf_version = ''1'', mf_arch = ''any'', mf_filename = fl, mf_bytes = 5\<rparr>"

definition edgeAsk :: "string list \<Rightarrow> string list \<Rightarrow> arch option \<Rightarrow> create_ask" where
  "edgeAsk add rm ra = \<lparr>ck_ring = ''edge'', ck_from_ring = None, ck_from_release = None, ck_add = add, ck_remove = rm, ck_remove_from = [], ck_remove_arch = ra,
     ck_arch = None, ck_note = None\<rparr>"

definition indexedPool :: pool where
  "indexedPool = snd (handlePostPackage ''core'' ''aarch64'' (manifestOf (CHR ''b'') ''b-1-aarch64.pkg.tar.zst'') 0
     (snd (handlePutPool ''core'' ''aarch64'' ''b-1-aarch64.pkg.tar.zst'' 5
     (snd (handlePostPackage ''factory'' ''x86_64'' (manifestOf (CHR ''a'') ''a-1-x86_64.pkg.tar.zst'') 0
     (snd (handlePutPool ''factory'' ''x86_64'' ''a-1-x86_64.pkg.tar.zst'' 5 emptyPool)))))))"

definition firstPool :: pool where
  "firstPool = snd (handleCreateRelease (edgeAsk [shaOf (CHR ''a''), shaOf (CHR ''b'')] [] None) indexedPool)"

definition secondPool :: pool where
  "secondPool = snd (handleCreateRelease (edgeAsk [] [''a''] (Some ''x86_64'')) firstPool)"

lemma run_upload: "pool_run K d s \<Longrightarrow> pool_run K (snd (handlePutPool src ar fl n d)) s"
  by (rule pool_run.upload [OF _ prod.collapse [symmetric]])

lemma run_index: "pool_run K d s \<Longrightarrow> pool_run K (snd (handlePostPackage src ar m now d)) s"
  by (rule pool_run.index [OF _ prod.collapse [symmetric]])

lemma indexed_run: "pool_run 3 indexedPool holdsNothing"
  unfolding indexedPool_def by (intro run_index run_upload pool_run.empty)

lemma first_made: "handleCreateRelease (edgeAsk [shaOf (CHR ''a''), shaOf (CHR ''b'')] [] None) indexedPool = (Inr (1, []), firstPool)"
proof -
  have "fst (handleCreateRelease (edgeAsk [shaOf (CHR ''a''), shaOf (CHR ''b'')] [] None) indexedPool) = Inr (1, [])" by code_simp
  then show ?thesis by (simp add: firstPool_def prod_eq_iff)
qed

lemma second_made: "handleCreateRelease (edgeAsk [] [''a''] (Some ''x86_64'')) firstPool = (Inr (2, [''aarch64'']), secondPool)"
proof -
  have "fst (handleCreateRelease (edgeAsk [] [''a''] (Some ''x86_64'')) firstPool) = Inr (2, [''aarch64''])" by code_simp
  then show ?thesis by (simp add: secondPool_def prod_eq_iff)
qed

lemma first_serves: "ringMembers firstPool Edge = [1, 2]" by code_simp

lemma second_serves: "ringMembers secondPool Edge = [2]" by code_simp

lemma first_run: "pool_run 3 firstPool (holdsNothing(1 := {1, 2}))"
  using pool_run.made [OF indexed_run first_made, of Edge] by (simp add: edgeAsk_def ringOfName_def first_serves)

lemma second_run: "pool_run 3 secondPool (holdsNothing(1 := {1, 2}, 2 := {2}))"
  using pool_run.made [OF first_run second_made, of Edge] by (simp add: edgeAsk_def ringOfName_def second_serves)

lemma collected_run: "pool_run 3 (handleGc 3 200 7 (10 * DAY_MS) secondPool) (holdsNothing(1 := {1, 2}, 2 := {2}))"
  by (rule pool_run.collect [OF second_run]) simp

subsection \<open>Reading\<close>

text \<open>C5. A release is read as it was made. Whatever requests came since (releases on every ring, reads that wrote checkpoints, collections that
  dropped checkpoints, deltas and objects), when \<open>releaseMembers\<close> answers with rows they are exactly the packages the ring served the moment the
  release was made, and every one of them is still in the index.\<close>

theorem release_reads_exact:
  assumes "pool_run K d s" "releaseMembers i d = (Inr ids, d')"
  shows "set ids = s i \<and> s i \<subseteq> ob_id ` set (po_objects d)"
  using members_exact [OF runD(1) [OF assms(1)] assms(2)] by (simp add: present_def)

theorem release_reads_exact_witness:
  "set [1, 2] = (holdsNothing(1 := {1, 2}, 2 := {2})) 1 \<and> (holdsNothing(1 := {1, 2}, 2 := {2})) 1 \<subseteq> ob_id ` set (po_objects (handleGc 3 200 7 (10 * DAY_MS) secondPool))"
proof -
  have "fst (releaseMembers 1 (handleGc 3 200 7 (10 * DAY_MS) secondPool)) = Inr [1, 2]" by code_simp
  then have "releaseMembers 1 (handleGc 3 200 7 (10 * DAY_MS) secondPool) = (Inr [1, 2], snd (releaseMembers 1 (handleGc 3 200 7 (10 * DAY_MS) secondPool)))"
    by (simp add: prod_eq_iff)
  from release_reads_exact [OF collected_run this] show ?thesis .
qed

text \<open>C6. The last releases of a ring can always be read. If every collection of the sequence was told to keep at least \<open>K\<close> releases, each of the
  last \<open>K\<close> releases of each ring is reconstructed, with exactly the packages it was made with: no collection, whatever its grace and its limit,
  takes the checkpoint, a delta or a package one of them needs.\<close>

theorem kept_releases_readable:
  assumes "pool_run K d s" "releaseRow d i = Some r" "lastSeq (\<lambda>_. True) d (rl_ring r) < rl_seq r + int K"
  shows "\<exists>ids d'. releaseMembers i d = (Inr ids, d') \<and> set ids = s i"
proof -
  note w = window [OF runD(1,2) [OF assms(1)] assms(2,3)]
  obtain ids d' where "releaseMembers i d = (Inr ids, d')" by (rule members_succeed [OF runD(1) [OF assms(1)] assms(2) w(2,3)])
  then show ?thesis using members_exact(1) [OF runD(1) [OF assms(1)]] by blast
qed

theorem kept_releases_readable_witness: "\<exists>ids d'. releaseMembers 1 (handleGc 3 200 7 (10 * DAY_MS) secondPool) = (Inr ids, d') \<and> set ids = {1, 2}"
proof -
  let ?d = "handleGc 3 200 7 (10 * DAY_MS) secondPool"
  have r: "releaseRow ?d 1 = Some (the (releaseRow ?d 1))" by code_simp
  have "lastSeq (\<lambda>_. True) ?d (rl_ring (the (releaseRow ?d 1))) < rl_seq (the (releaseRow ?d 1)) + int 3" by code_simp
  from kept_releases_readable [OF collected_run r this] show ?thesis by simp
qed

text \<open>C34. The walk back to a checkpoint ends, and soon. From a release among the last \<open>K\<close> of its ring it meets a checkpoint after at most
  24 rows (\<open>CHECKPOINT_EVERY\<close>), a quarter of what makes it give up; and whatever rows a damaged table holds, even parents in a circle, a walk
  that answers has read no more than four times that.\<close>

theorem walk_ends:
  assumes "pool_run K d s" "releaseRow d i = Some r" "lastSeq (\<lambda>_. True) d (rl_ring r) < rl_seq r + int K"
  shows "(\<exists>base rest. walkBack d i r [] = Inr (base # rest) \<and> rl_checkpoint base \<and> length (base # rest) \<le> CHECKPOINT_EVERY)
    \<and> (\<forall>e j q chain. walkBack e j q [] = Inr chain \<longrightarrow> length chain \<le> CHECKPOINT_EVERY * 4)"
proof
  note w = window [OF runD(1,2) [OF assms(1)] assms(2,3)]
  note ok = pool_okD [OF runD(1) [OF assms(1)]]
  have "near (cores d) (release_core.truncate r)" using ok(2) w(1,2) by (simp add: checkpoints_ok_def)
  then obtain c where c: "c \<in> cores d" "rl_ring c = rl_ring r" "rl_checkpoint c" "rl_seq c \<le> rl_seq r" "rl_seq r < rl_seq c + int CHECKPOINT_EVERY"
    by (auto simp: near_def)
  then show "\<exists>base rest. walkBack d i r [] = Inr (base # rest) \<and> rl_checkpoint base \<and> length (base # rest) \<le> CHECKPOINT_EVERY"
    using walkBack_meets [OF ok(1) w(1) _ c(1-4), of "[]" i] by auto
  show "\<forall>e j q chain. walkBack e j q [] = Inr chain \<longrightarrow> length chain \<le> CHECKPOINT_EVERY * 4"
    using walkBack_length [of _ _ _ "[]"] by (auto simp: CHECKPOINT_EVERY_def)
qed

theorem walk_ends_witness:
  "(\<exists>base rest. walkBack secondPool 2 (the (releaseRow secondPool 2)) [] = Inr (base # rest) \<and> rl_checkpoint base \<and> length (base # rest) \<le> 24)
    \<and> length [the (releaseRow secondPool 1)] \<le> 96"
proof -
  have r: "releaseRow secondPool 2 = Some (the (releaseRow secondPool 2))" by code_simp
  have "lastSeq (\<lambda>_. True) secondPool (rl_ring (the (releaseRow secondPool 2))) < rl_seq (the (releaseRow secondPool 2)) + int 3" by code_simp
  note we = walk_ends [OF second_run r this]
  have "walkBack secondPool 1 (the (releaseRow secondPool 1)) [] = Inr [the (releaseRow secondPool 1)]" by code_simp
  with we show ?thesis unfolding CHECKPOINT_EVERY_def by fastforce
qed

subsection \<open>What a ring serves\<close>

text \<open>C35. What a ring serves is there to be served: every package of it has its row, and the row of an uploaded package has its object in the
  bucket. No collection deletes either, whatever it was told to keep, also where two rows share an object's key.\<close>

theorem served_is_stored:
  assumes "pool_run K d s" "i \<in> set (ringMembers d g)"
  shows "\<exists>x \<in> set (po_objects d). ob_id x = i \<and> (FILENAME_RE (ob_filename x) \<longrightarrow> keyOf x \<in> fst ` set (po_bucket d))"
proof -
  have "i \<in> present d" using live_present [OF runD(1) [OF assms(1)]] assms(2) by blast
  then show ?thesis using runD(3) [OF assms(1)] unfolding present_def bucket_ok_def by blast
qed

theorem served_is_stored_witness: "\<exists>x. x \<in> set (po_objects secondPool) \<and> ob_id x = 2 \<and> keyOf x \<in> fst ` set (po_bucket secondPool)"
proof -
  have "list_all (\<lambda>x. FILENAME_RE (ob_filename x)) (po_objects secondPool)" by code_simp
  then show ?thesis using served_is_stored [OF second_run, of 2 Edge] by (auto simp: second_serves list_all_iff)
qed

text \<open>The request of a rollback: an earlier release of the ring, and nothing else.\<close>

definition rollbackAsk :: "pool_ring \<Rightarrow> int \<Rightarrow> create_ask" where
  "rollbackAsk g i = \<lparr>ck_ring = ringName g, ck_from_ring = None, ck_from_release = Some i, ck_add = [], ck_remove = [], ck_remove_from = [], ck_remove_arch = None,
     ck_arch = None, ck_note = None\<rparr>"

lemma ringOfName_ringName [simp]: "ringOfName (ringName g) = Some g"
  by (cases g) (simp_all add: ringOfName_def ringName_def)

text \<open>C7. A rollback restores. A request to go back to one of the last \<open>K\<close> releases of a ring is never refused, and the ring then serves exactly the
  packages it served the moment that release was made, while every other ring serves what it did.\<close>

theorem rollback_restores:
  assumes "pool_run K d s" "releaseRow d i = Some r" "lastSeq (\<lambda>_. True) d (rl_ring r) < rl_seq r + int K"
  shows "\<exists>j same d'. handleCreateRelease (rollbackAsk (rl_ring r) i) d = (Inr (j, same), d') \<and> set (ringMembers d' (rl_ring r)) = s i
    \<and> (\<forall>g. g = rl_ring r \<or> set (ringMembers d' g) = set (ringMembers d g))"
proof -
  let ?g = "rl_ring r"
  let ?b = "rollbackAsk ?g i"
  note ok = runD(1) [OF assms(1)]
  note w = window [OF runD(1,2) [OF assms(1)] assms(2,3)]
  have src: "sourceRelease ?b ?g d = Inr (Some r)" using assms(2) by (simp add: sourceRelease_def rollbackAsk_def)
  obtain base d1 where base: "baseOf (Some r) (ringHead d ?g) ?g None d = (Inr base, d1)"
    by (rule base_succeeds [OF ok, of r]) (use assms(2) w in auto)
  obtain p where p: "planRelease ?b d = (Inr p, d1)" "pn_ring p = ?g" "pn_base p = base" "pn_added p = []" "pn_remove p = []" "pn_remove_from p = []"
    by (rule plan_succeeds [of ?b ?g d "Some r" base d1]) (use src base in \<open>simp_all add: rollbackAsk_def\<close>)
  note pl = plan_ok [OF p(1) ok]
  obtain j d' where bt: "releaseBatch p d1 = (Inr j, d')" by (rule batch_succeeds [OF pl(3)])
  have rows: "set (baseRows base d1) = s i"
  proof -
    have "set (baseRows base d1) = baseSet s (Some r) (ringHead d ?g) None (\<lambda>a. objectIs d (\<lambda>x. ob_arch x = a)) (set (ringMembers d ?g))"
      using baseOf_ok [OF ok base] assms(2) w(4) by auto
    moreover have "set (ringMembers d ?g) = s i" if "ringHead d ?g = Some h" "rl_id h = rl_id r" for h
      using ringHead_Some(4) [OF ok that(1)] that(2) w(4) pool_okD(5) [OF ok] by (simp add: live_ok_def)
    ultimately show ?thesis using w(4) by (auto simp: baseSet_def wholeBase_def)
  qed
  have "objectIs d1 (\<lambda>x. \<not> removedBy p x \<and> \<not> replacedBy d1 p x) x" if "x \<in> s i" for x
    using objectIs_True [of x d1] that w(3) unread_read(3) [OF pl(2)] added_none [OF p(4)] p(5,6) by (auto simp: removedBy_def)
  then have "set (targetOf d1 p) = s i" using rows p(3,4) by (auto simp: set_targetOf)
  moreover have "handleCreateRelease ?b d = (Inr (j, pn_unchanged p), d')" using p(1) bt by (simp add: handleCreateRelease_def)
  ultimately show ?thesis using batch_ok(2) [OF bt pl(1,3)] p(2) unread_read(4) [OF pl(2)] by auto
qed

theorem rollback_restores_witness:
  "\<exists>j same d'. handleCreateRelease (rollbackAsk Edge 1) secondPool = (Inr (j, same), d') \<and> set (ringMembers d' Edge) = {1, 2}"
proof -
  have r: "releaseRow secondPool 1 = Some (the (releaseRow secondPool 1))" "rl_ring (the (releaseRow secondPool 1)) = Edge" by code_simp+
  have "lastSeq (\<lambda>_. True) secondPool (rl_ring (the (releaseRow secondPool 1))) < rl_seq (the (releaseRow secondPool 1)) + int 3" by code_simp
  from rollback_restores [OF second_run r(1) this] show ?thesis unfolding r(2) by fastforce
qed

subsection \<open>A package pulled\<close>

lemma objectIs_tags:
  assumes "map objectTag (po_objects d') = map objectTag (po_objects d)"
  shows "objectIs d' (\<lambda>x. Q (objectTag x)) i = objectIs d (\<lambda>x. Q (objectTag x)) i"
proof -
  have "map objectTag xs = map objectTag ys \<Longrightarrow> map_option objectTag (find (\<lambda>x. ob_id x = i) xs) = map_option objectTag (find (\<lambda>x. ob_id x = i) ys)" for xs ys
  proof (induction xs arbitrary: ys)
    case (Cons x xs)
    then obtain y zs where y: "ys = y # zs" by (cases ys) simp_all
    then have "ob_id x = ob_id y" using Cons.prems by (simp add: objectTag_def)
    then show ?case using Cons.prems Cons.IH [of zs] y by simp
  qed simp
  from this [OF assms] show ?thesis unfolding objectIs_def objectRow_def
    by (cases "find (\<lambda>x. ob_id x = i) (po_objects d)"; cases "find (\<lambda>x. ob_id x = i) (po_objects d')") simp_all
qed

abbreviation isFactory :: "pool \<Rightarrow> string \<Rightarrow> int \<Rightarrow> bool" where
  "isFactory d name \<equiv> objectIs d (\<lambda>x. ob_name x = name \<and> ob_source x = ''factory'')"

lemma isFactory_tags: "map objectTag (po_objects d') = map objectTag (po_objects d) \<Longrightarrow> isFactory d' name i = isFactory d name i"
  using objectIs_tags [of d' d "\<lambda>(j, n, s, a, f, k). n = name \<and> s = ''factory''" i] by (simp add: objectTag_def)

lemma pull_one:
  assumes "pool_ok d s"
  obtains j same d' where "handleCreateRelease (pullAsk name note g) d = (Inr (j, same), d')" "map objectTag (po_objects d') = map objectTag (po_objects d)"
    "\<forall>h. set (ringMembers d' h) = (if h = g then {x \<in> set (ringMembers d g). \<not> isFactory d name x} else set (ringMembers d h))"
proof -
  let ?b = "pullAsk name note g"
  let ?base = "if ringHead d g = None then NoRows else LiveOf g"
  have src: "sourceRelease ?b g d = Inr None" by (simp add: sourceRelease_def pullAsk_def)
  have base: "baseOf None (ringHead d g) g None d = (Inr ?base, d)" by (simp add: baseOf_def)
  obtain p where p: "planRelease ?b d = (Inr p, d)" "pn_ring p = g" "pn_base p = ?base" "pn_added p = []" "pn_remove p = []" "pn_remove_from p = [(''factory'', name)]"
    "pn_remove_arch p = None"
    by (rule plan_succeeds [of ?b g d None ?base d]) (use src base in \<open>simp_all add: pullAsk_def\<close>)
  note pl = plan_ok [OF p(1) assms]
  obtain j d' where bt: "releaseBatch p d = (Inr j, d')" by (rule batch_succeeds [OF pl(3)])
  have rows: "set (baseRows (pn_base p) d) = set (ringMembers d g)"
    using ringHead_None(2) [OF assms, of g] pool_okD(5) [OF assms] p(3) by (auto simp: live_ok_def)
  have "objectIs d (\<lambda>x. \<not> removedBy p x \<and> \<not> replacedBy d p x) x \<longleftrightarrow> \<not> isFactory d name x" if "x \<in> set (ringMembers d g)" for x
  proof -
    have "removedBy p y \<longleftrightarrow> ob_name y = name \<and> ob_source y = ''factory''" for y using p(5-7) by (auto simp: removedBy_def)
    moreover have "x \<in> present d" using live_present [OF assms, of g] that by blast
    ultimately show ?thesis using objectIs_not [of x d "\<lambda>x. ob_name x = name \<and> ob_source x = ''factory''"] added_none [OF p(4)] by simp
  qed
  then have "set (targetOf d p) = {x \<in> set (ringMembers d g). \<not> isFactory d name x}" using rows p(4) by (auto simp: set_targetOf)
  moreover have "handleCreateRelease ?b d = (Inr (j, pn_unchanged p), d')" using p(1) bt by (simp add: handleCreateRelease_def)
  ultimately show thesis using that batch_ok(2,6) [OF bt assms pl(3)] p(2) by simp
qed

lemma pull_rings:
  assumes "pool_run K d s" "pullRings name note gs d = (out, d')"
  shows "(\<exists>s'. pool_run K d' s') \<and> map objectTag (po_objects d') = map objectTag (po_objects d) \<and> list_all (\<lambda>r. snd r \<noteq> None) out
    \<and> (\<forall>h. set (ringMembers d' h) = (if h \<in> set gs then {x \<in> set (ringMembers d h). \<not> isFactory d name x} else set (ringMembers d h)))"
  using assms
proof (induction gs arbitrary: d s out d')
  case (Cons g gs)
  obtain j same d1 where one: "handleCreateRelease (pullAsk name note g) d = (Inr (j, same), d1)" "map objectTag (po_objects d1) = map objectTag (po_objects d)"
    "\<forall>h. set (ringMembers d1 h) = (if h = g then {x \<in> set (ringMembers d g). \<not> isFactory d name x} else set (ringMembers d h))"
    by (rule pull_one [OF runD(1) [OF Cons.prems(1)], of name "note" g])
  obtain out2 d2 where rest: "pullRings name note gs d1 = (out2, d2)" by (cases "pullRings name note gs d1")
  have out: "out = (g, Some j) # out2" "d' = d2" using Cons.prems(2) one(1) rest by simp_all
  have "pool_run K d1 (s(j := set (ringMembers d1 g)))" by (rule pool_run.made [OF Cons.prems(1) one(1)]) (simp add: pullAsk_def)
  note IH = Cons.IH [OF this rest]
  have "isFactory d1 name x = isFactory d name x" for x by (rule isFactory_tags [OF one(2)])
  then show ?case using IH one(2,3) out by auto
qed auto

text \<open>C36. A package pulled is served nowhere. After a withdrawal's \<open>pullFromRings\<close> no release it makes was refused, no ring serves any version
  of the factory's package of that name on any architecture, and every ring serves every other package it did.\<close>

theorem pulled_from_every_ring:
  assumes "pool_run K d s" "pullFromRings name note d = (out, d')"
  shows "set (ringMembers d' g) = {x \<in> set (ringMembers d g). \<not> objectIs d (\<lambda>x. ob_name x = name \<and> ob_source x = ''factory'') x}
    \<and> \<not> servesName d' name g \<and> list_all (\<lambda>r. snd r \<noteq> None) out"
proof -
  have pr: "pullRings name note (filter (servesName d name) RINGS) d = (out, d')" using assms(2) by (simp add: pullFromRings_def)
  note pulled = pull_rings [OF assms(1) pr]
  have "g \<in> set RINGS" by (cases g) (simp_all add: RINGS_def)
  then have "set (ringMembers d' g) = {x \<in> set (ringMembers d g). \<not> isFactory d name x}"
    using pulled by (auto simp: servesName_def list_ex_iff)
  then show ?thesis using pulled isFactory_tags [of d' d name] by (auto simp: servesName_def list_ex_iff)
qed

theorem pulled_from_every_ring_witness:
  "set (ringMembers (snd (pullFromRings ''a'' ''gone'' firstPool)) Edge) = {2} \<and> \<not> servesName (snd (pullFromRings ''a'' ''gone'' firstPool)) ''a'' Edge"
proof -
  have "{x \<in> set (ringMembers firstPool Edge). \<not> objectIs firstPool (\<lambda>x. ob_name x = ''a'' \<and> ob_source x = ''factory'') x} = {2}" by code_simp
  then show ?thesis using pulled_from_every_ring [OF first_run prod.collapse [symmetric], of "''a''" "''gone''" Edge] by simp
qed

subsection \<open>An architecture a request does not touch\<close>

lemma objectIs_row:
  assumes "objects_ok d" "y \<in> set (po_objects d)"
  shows "objectIs d P (ob_id y) \<longleftrightarrow> P y"
proof -
  obtain z where z: "find (\<lambda>x. ob_id x = ob_id y) (po_objects d) = Some z" using find_some [OF assms(2), of "\<lambda>x. ob_id x = ob_id y"] by auto
  then have "z \<in> set (po_objects d)" "ob_id z = ob_id y" using find_someD [OF z] by auto
  then have "z = y" using assms by (auto simp: objects_ok_def distinct_map inj_on_def)
  then show ?thesis using z by (simp add: objectIs_def objectRow_def)
qed

lemma added_arch:
  assumes "objects_ok d" "x \<in> set (addedIds d (Some a) es)" "y \<in> set (po_objects d)" "ob_id y = x"
  shows "ob_arch y = a"
proof -
  obtain z where "z \<in> set (po_objects d)" "ob_id z = x" "ob_arch z = a" using assms(2) by (auto simp: addedIds_def addRowsOf_def)
  then show ?thesis using assms(1,3,4) by (auto simp: objects_ok_def distinct_map inj_on_def)
qed

text \<open>Nothing of the architecture is removed, replaced or added.\<close>

lemma untouched:
  assumes "objects_ok d" "pn_remove_arch p = Some b \<and> pn_added p = addedIds d (Some b) es \<or> pn_remove p = [] \<and> pn_remove_from p = [] \<and> pn_added p = []"
    "b \<noteq> a" "y \<in> set (po_objects d)" "ob_arch y = a"
  shows "\<not> removedBy p y" "\<not> replacedBy d p y" "ob_id y \<notin> set (pn_added p)"
  using assms added_arch [OF assms(1)] by (auto simp: removedBy_def replacedBy_def list_ex_iff)

lemma scoped_base:
  assumes "scopedTo b src parent added = Some c" "parent \<noteq> None" "c \<noteq> a" "\<And>x. isArch a x \<Longrightarrow> \<not> isArch c x"
  shows "{x \<in> baseSet s src parent (ck_arch b) isArch live. isArch a x} = {x \<in> live. isArch a x}"
proof (cases "src = None \<or> map_option rl_id src = map_option rl_id parent")
  case True
  then have "map_option rl_id parent = Some (rl_id r)" if "src = Some r" for r using that by (metis option.distinct(1) option.simps(9))
  then have "wholeBase s src parent live = live" by (cases src) (simp_all add: wholeBase_def)
  moreover have "ck_arch b = None \<or> baseSet s src parent (ck_arch b) isArch live = live \<or> src = None"
    using True assms(2) calculation by (auto simp: baseSet_def split: option.split)
  ultimately show ?thesis by (auto simp: baseSet_def split: option.split)
next
  case False
  then have c: "ck_arch b = Some c" using assms(1,2) by (auto simp: scopedTo_def split: if_splits)
  have "\<not> (parent = None \<or> map_option rl_id src = map_option rl_id parent)" using False assms(2) by simp
  then have "baseSet s src parent (ck_arch b) isArch live = {x \<in> wholeBase s src parent live. isArch c x} \<union> {x \<in> live. \<not> isArch c x}"
    unfolding baseSet_def c option.case by (rule if_not_P)
  then show ?thesis using assms(4) by auto
qed

lemma scoped_touch:
  assumes "scopedTo b src parent added = Some c"
  shows "ck_remove_arch b = Some c \<or> ck_remove b = [] \<and> ck_remove_from b = [] \<and> added = []"
  using assms by (auto simp: scopedTo_def split: if_splits)

text \<open>C37. An architecture a release reports unchanged is unchanged: the ring serves of it, after the release, exactly the packages it served
  before, so the databases the release carries for it still list what the ring holds.\<close>

theorem unchanged_arch_keeps_packages:
  assumes "pool_run K d s" "handleCreateRelease b d = (Inr (j, same), d')" "ringOfName (ck_ring b) = Some g" "a \<in> set same"
  shows "{x \<in> set (ringMembers d' g). objectIs d (\<lambda>y. ob_arch y = a) x} = {x \<in> set (ringMembers d g). objectIs d (\<lambda>y. ob_arch y = a) x}"
proof (rule create_made [OF assms(2) runD(1) [OF assms(1)]])
  fix p d1 assume p: "planRelease b d = (Inr p, d1)" "same = pn_unchanged p" "set (ringMembers d' (pn_ring p)) = set (targetOf d1 p)"
  note ok = runD(1) [OF assms(1)]
  note pl = plan_ok [OF p(1) ok]
  obtain src base where q: "sourceRelease b g d = Inr src" "baseOf src (ringHead d g) g (ck_arch b) d = (Inr base, d1)" "pn_ring p = g" "pn_base p = base"
    "pn_remove_arch p = ck_remove_arch b" "pn_remove p = ck_remove b" "pn_remove_from p = ck_remove_from b" "pn_added p = addedIds d (ck_remove_arch b) (ck_add b)"
    "pn_unchanged p = unchangedArches b src (ringHead d g) (addedIds d (ck_remove_arch b) (ck_add b))"
  proof (rule plan_parts [OF p(1)], goal_cases)
    case (1 h src base)
    have h: "h = g" using 1(2) assms(3) by simp
    show thesis by (rule 1(1) [OF 1(3,4) [unfolded h]]) (simp_all add: 1(5) h)
  qed
  let ?A = "\<lambda>c. objectIs d (\<lambda>y. ob_arch y = c)"
  obtain c where c: "ringHead d g \<noteq> None" "scopedTo b src (ringHead d g) (pn_added p) = Some c" "a \<noteq> c"
    using assms(4) p(2) q(8,9) by (auto simp: unchangedArches_def split: option.splits)
  have objs: "objects_ok d" "objects_ok d1" "po_objects d1 = po_objects d" using pool_okD(7) [OF ok] pool_okD(7) [OF pl(1)] pl(2) by (simp_all add: unread_def)
  have rows: "{x \<in> set (baseRows base d1). ?A a x} = {x \<in> set (ringMembers d g). ?A a x}"
  proof -
    have "set (baseRows base d1) = baseSet s src (ringHead d g) (ck_arch b) ?A (set (ringMembers d g))"
      using baseOf_ok [OF ok q(2)] sourceRelease_row q(1) by blast
    moreover have "?A a x \<Longrightarrow> \<not> ?A c x" for x using c(3) by (auto simp: objectIs_def split: option.splits)
    ultimately show ?thesis using scoped_base [OF c(2,1), of a ?A s "set (ringMembers d g)"] c(3) by simp
  qed
  have kept: "objectIs d1 (\<lambda>x. \<not> removedBy p x \<and> \<not> replacedBy d1 p x) x \<and> x \<notin> set (pn_added p)" if x: "?A a x" for x
  proof -
    obtain y where y: "y \<in> set (po_objects d)" "ob_id y = x" "ob_arch y = a" using x by (auto simp: objectIs_def objectRow_def split: option.splits dest: find_someD)
    have "pn_remove_arch p = Some c \<and> pn_added p = addedIds d1 (Some c) (ck_add b) \<or> pn_remove p = [] \<and> pn_remove_from p = [] \<and> pn_added p = []"
      using scoped_touch [OF c(2)] q(5-8) objs(3) by (auto simp: addedIds_def addRowsOf_def)
    note un = untouched [OF objs(2) this, of a y]
    have "\<not> removedBy p y" "\<not> replacedBy d1 p y" "ob_id y \<notin> set (pn_added p)" using un c(3) y objs(3) by auto
    then show ?thesis using objectIs_row [OF objs(2), of y] y objs(3) by simp
  qed
  show ?thesis using rows kept p(3) q(3,4) unfolding set_targetOf by auto
qed

theorem unchanged_arch_keeps_packages_witness:
  "{x \<in> set (ringMembers secondPool Edge). objectIs firstPool (\<lambda>y. ob_arch y = ''aarch64'') x}
    = {x \<in> set (ringMembers firstPool Edge). objectIs firstPool (\<lambda>y. ob_arch y = ''aarch64'') x}"
  by (rule unchanged_arch_keeps_packages [OF first_run second_made]) (simp_all add: edgeAsk_def ringOfName_def)

end
