(* ===== verification/Spec2Isabelle.thy ===== *)
theory Spec2Isabelle
  imports Selection_Props Release_Gate Host_Props Order_Props Order_Ends Review_Props Pool_Release_Props
begin

text \<open>
  A verification of the core of the pool's Worker (src/worker/src): how the factory decides which
  task a registration is handed, which releases may claim, and what the pool keeps of its hosts.
\<close>

end
